(* ===== verification/C_Base.thy ===== *)
theory C_Base
  imports Main "HOL-Library.Word" "HOL-Library.Monad_Syntax"
begin

text \<open>
  Shared ground of the development: the fixed-width types of the C code, the integer
  promotions the code relies on, copies between C objects, and the generic lemmas on lists,
  chunks of bytes and words that the component theories use.

  \<^item> \<open>uint8_t\<close>, \<open>uint16_t\<close>, \<open>uint32_t\<close>, \<open>uint64_t\<close> are words; \<open>size_t\<close> and pointers are
    32 bits wide on the target (RV32).
  \<^item> An operand narrower than \<open>int\<close> is promoted to \<open>int\<close> before arithmetic: the model reads it
    with \<open>uint\<close>, computes in \<open>int\<close>, and converts back with \<open>word_of_int\<close> at the assignment,
    which is the truncation the C conversion does.
  \<^item> A C object (an array) is a byte list; a copy that leaves its bounds is undefined behaviour
    in C and is \<open>None\<close> here.
  \<^item> Where the code works with raw addresses (DMA buffers, USB descriptors) memory is a total
    map from 32-bit addresses to bytes, as on the microcontroller, which has no MMU.
\<close>

unbundle bit_operations_syntax

type_synonym u8 = "8 word"
type_synonym u16 = "16 word"
type_synonym u32 = "32 word"
type_synonym u64 = "64 word"
type_synonym mem = "u32 \<Rightarrow> u8"

named_theorems chunk_simps \<open>facts on fixed-size chunks of a byte list\<close>
named_theorems word_conv \<open>moving word expressions to nat\<close>

section \<open>C operators\<close>

text \<open>The \<open>MIN\<close> macro of the code, applied to promoted operands.\<close>

definition c_min :: "int \<Rightarrow> int \<Rightarrow> int" where
  "c_min x y = (if x < y then x else y)"

lemma c_min_eq_min: "c_min x y = min x y"
  by (simp add: c_min_def)

text \<open>A byte copy between two C objects, \<open>None\<close> when it leaves either.\<close>

definition memcpy_at :: "u8 list \<Rightarrow> nat \<Rightarrow> u8 list \<Rightarrow> nat \<Rightarrow> nat \<Rightarrow> u8 list option" where
  "memcpy_at dst d src s n =
     (if d + n \<le> length dst \<and> s + n \<le> length src
      then Some (take d dst @ take n (drop s src) @ drop (d + n) dst) else None)"

text \<open>The same copy and the fill on raw memory.\<close>

definition mem_copy :: "u32 \<Rightarrow> u32 \<Rightarrow> nat \<Rightarrow> mem \<Rightarrow> mem" where
  "mem_copy dst src n m = (\<lambda>a. if unat (a - dst) < n then m (src + (a - dst)) else m a)"

definition mem_set :: "u32 \<Rightarrow> u8 \<Rightarrow> nat \<Rightarrow> mem \<Rightarrow> mem" where
  "mem_set dst v n m = (\<lambda>a. if unat (a - dst) < n then v else m a)"

definition mem_bytes :: "mem \<Rightarrow> u32 \<Rightarrow> nat \<Rightarrow> u8 list" where
  "mem_bytes m a n = map (\<lambda>i. m (a + of_nat i)) [0..<n]"

text \<open>Little-endian loads of the target.\<close>

definition load_u16 :: "mem \<Rightarrow> u32 \<Rightarrow> u16" where
  "load_u16 m a = ucast (m a) OR push_bit 8 (ucast (m (a + 1)))"

definition load_u32 :: "mem \<Rightarrow> u32 \<Rightarrow> u32" where
  "load_u32 m a = ucast (m a) OR push_bit 8 (ucast (m (a + 1)))
     OR push_bit 16 (ucast (m (a + 2))) OR push_bit 24 (ucast (m (a + 3)))"

text \<open>A 32-bit object as the bytes the target stores.\<close>

definition le32 :: "u32 \<Rightarrow> u8 list" where
  "le32 x = [ucast x, ucast (drop_bit 8 x), ucast (drop_bit 16 x), ucast (drop_bit 24 x)]"

definition of_le32 :: "u8 list \<Rightarrow> u32" where
  "of_le32 b = ucast (b ! 0) OR push_bit 8 (ucast (b ! 1)) OR push_bit 16 (ucast (b ! 2))
     OR push_bit 24 (ucast (b ! 3))"

lemma length_le32 [simp]: "length (le32 x) = 4"
  by (simp add: le32_def)

lemma of_le32_le32 [simp]: "of_le32 (le32 x) = x"
proof (rule bit_word_eqI)
  fix n assume "n < LENGTH(32)"
  then consider "n < 8" | "8 \<le> n" "n < 16" | "16 \<le> n" "n < 24" | "24 \<le> n" "n < 32" by fastforce
  then show "bit (of_le32 (le32 x)) n = bit x n"
    by cases (auto simp: of_le32_def le32_def bit_or_iff bit_push_bit_iff bit_unsigned_iff bit_drop_bit_eq)
qed

text \<open>Stores of whole objects into raw memory.\<close>

definition le16 :: "u16 \<Rightarrow> u8 list" where
  "le16 x = [ucast x, ucast (drop_bit 8 x)]"

definition mem_write :: "u32 \<Rightarrow> u8 list \<Rightarrow> mem \<Rightarrow> mem" where
  "mem_write a bs m = (\<lambda>x. if unat (x - a) < length bs then bs ! unat (x - a) else m x)"

lemma length_le16 [simp]: "length (le16 x) = 2"
  by (simp add: le16_def)

lemma mem_write_at: "k < length bs \<Longrightarrow> k < 2 ^ 32 \<Longrightarrow> mem_write a bs m (a + of_nat k) = bs ! k"
  by (simp add: mem_write_def unat_of_nat)

lemma mem_write_other: "length bs \<le> unat (x - a) \<Longrightarrow> mem_write a bs m x = m x"
  by (simp add: mem_write_def)

lemma mem_bytes_write: "length bs \<le> 2 ^ 32 \<Longrightarrow> n = length bs \<Longrightarrow> mem_bytes (mem_write a bs m) a n = bs"
  by (rule nth_equalityI) (simp_all add: mem_bytes_def mem_write_at)

lemma load_u32_bytes: "load_u32 m a = of_le32 (mem_bytes m a 4)"
  by (simp add: load_u32_def of_le32_def mem_bytes_def numeral_eq_Suc upt_conv_Cons)

lemma load_u32_write [simp]: "load_u32 (mem_write a (le32 v) m) a = v"
  by (simp add: load_u32_bytes mem_bytes_write)

lemma of_le16_le16:
  "ucast (ucast (x :: u16) :: u8) OR push_bit 8 (ucast (ucast (drop_bit 8 x) :: u8)) = x"
proof (rule bit_word_eqI)
  fix n assume "n < LENGTH(16)"
  then consider "n < 8" | "8 \<le> n" "n < 16" by fastforce
  then show "bit (ucast (ucast x :: u8) OR push_bit 8 (ucast (ucast (drop_bit 8 x) :: u8)) :: u16) n = bit x n"
    by cases (auto simp: bit_or_iff bit_push_bit_iff bit_unsigned_iff bit_drop_bit_eq)
qed

lemma load_u16_write [simp]: "load_u16 (mem_write a (le16 v) m) a = v"
proof -
  have "mem_write a (le16 v) m a = ucast v" by (simp add: mem_write_def le16_def)
  moreover have "mem_write a (le16 v) m (a + 1) = ucast (drop_bit 8 v)"
    using mem_write_at [of 1 "le16 v" a m] by (simp add: le16_def)
  ultimately show ?thesis by (simp add: load_u16_def of_le16_le16)
qed

text \<open>A store leaves the objects outside it alone; \<open>apart a n b k\<close> says that the \<open>n\<close> bytes at \<open>a\<close>
  and the \<open>k\<close> bytes at \<open>b\<close> do not meet.\<close>

definition apart :: "u32 \<Rightarrow> nat \<Rightarrow> u32 \<Rightarrow> nat \<Rightarrow> bool" where
  "apart a n b k \<longleftrightarrow> (\<forall>i<n. k \<le> unat (a + of_nat i - b))"

lemma apart_after:
  assumes "n \<le> d" and "d + k \<le> 2 ^ 32" and "b = a + of_nat d"
  shows "apart a n b k"
  unfolding apart_def
proof (intro allI impI)
  fix i assume "i < n"
  then have i: "i < d" using assms(1) by simp
  have "(of_nat (2 ^ 32 - (d - i)) :: u32) = of_nat (2 ^ 32) - of_nat (d - i)"
    using assms(2) by (intro of_nat_diff) simp
  then have "a + of_nat i - b = of_nat (2 ^ 32 - (d - i))" using i assms(3) by (simp add: of_nat_diff)
  moreover have "unat (of_nat (2 ^ 32 - (d - i)) :: u32) = 2 ^ 32 - (d - i)"
    using i by (simp add: unat_of_nat)
  ultimately show "k \<le> unat (a + of_nat i - b)" using assms(2) by simp
qed

lemma load_u32_apart: "apart a 4 b (length bs) \<Longrightarrow> load_u32 (mem_write b bs m) a = load_u32 m a"
  by (simp add: load_u32_def apart_def mem_write_other numeral_eq_Suc All_less_Suc)

lemma load_u16_apart: "apart a 2 b (length bs) \<Longrightarrow> load_u16 (mem_write b bs m) a = load_u16 m a"
  by (simp add: load_u16_def apart_def mem_write_other numeral_eq_Suc All_less_Suc)

lemma length_mem_bytes [simp]: "length (mem_bytes m a n) = n"
  by (simp add: mem_bytes_def)

lemma mem_bytes_0 [simp]: "mem_bytes m a 0 = []"
  by (simp add: mem_bytes_def)

lemma mem_bytes_append:
  "mem_bytes m a (n + k) = mem_bytes m a n @ mem_bytes m (a + of_nat n) k"
  by (rule nth_equalityI) (auto simp: mem_bytes_def nth_append algebra_simps)

lemma mem_bytes_copy_dst:
  assumes "n \<le> 2 ^ 32"
  shows "mem_bytes (mem_copy dst src n m) dst n = mem_bytes m src n"
  using assms by (auto simp: mem_bytes_def mem_copy_def unat_of_nat)

text \<open>Bytes outside the destination keep their value.\<close>

lemma mem_copy_other: "n \<le> unat (a - dst) \<Longrightarrow> mem_copy dst src n m a = m a"
  by (simp add: mem_copy_def)

lemma mem_set_other: "n \<le> unat (a - dst) \<Longrightarrow> mem_set dst v n m a = m a"
  by (simp add: mem_set_def)

section \<open>Words and naturals\<close>

lemma unat_u8_less [simp, intro]: "unat (x :: u8) < 256"
  by (rule order.strict_trans2 [OF unsigned_less]) simp

lemma unat_u16_less [simp, intro]: "unat (x :: u16) < 65536"
  by (rule order.strict_trans2 [OF unsigned_less]) simp

lemma unat_u32_less [simp, intro]: "unat (x :: u32) < 4294967296"
  by (rule order.strict_trans2 [OF unsigned_less]) simp

lemma unat_diff_le [word_conv]:
  fixes a b :: "'a::len word"
  shows "unat b \<le> unat a \<Longrightarrow> unat (a - b) = unat a - unat b"
  by (simp add: unat_sub word_le_nat_alt)

lemma unat_word_of_int_u16:
  "0 \<le> i \<Longrightarrow> i < 65536 \<Longrightarrow> unat (word_of_int i :: u16) = nat i"
  by (simp add: unsigned_of_int take_bit_int_eq_self)

lemma unat_word_of_int_u32:
  "0 \<le> i \<Longrightarrow> i < 4294967296 \<Longrightarrow> unat (word_of_int i :: u32) = nat i"
  by (simp add: unsigned_of_int take_bit_int_eq_self)

lemma unat_u16_of_int_eq: "i = int k \<Longrightarrow> k < 65536 \<Longrightarrow> unat (word_of_int i :: u16) = k"
  using unat_word_of_int_u16 [of i] by simp

lemma unat_u32_of_int_eq: "i = int k \<Longrightarrow> k < 4294967296 \<Longrightarrow> unat (word_of_int i :: u32) = k"
  using unat_word_of_int_u32 [of i] by simp

lemma unat_ucast_u16_u32 [simp]: "unat (ucast (x :: u16) :: u32) = unat x"
proof -
  have "unat x < 2 ^ 32" by (rule order.strict_trans [OF unat_u16_less]) simp
  then show ?thesis by (simp add: unsigned_ucast_eq take_bit_nat_eq_self)
qed

lemma unat_ucast_u8_u32 [simp]: "unat (ucast (x :: u8) :: u32) = unat x"
proof -
  have "unat x < 2 ^ 32" by (rule order.strict_trans [OF unat_u8_less]) simp
  then show ?thesis by (simp add: unsigned_ucast_eq take_bit_nat_eq_self)
qed

lemma unat_ucast_u8_u16 [simp]: "unat (ucast (x :: u8) :: u16) = unat x"
proof -
  have "unat x < 2 ^ 16" by (rule order.strict_trans [OF unat_u8_less]) simp
  then show ?thesis by (simp add: unsigned_ucast_eq take_bit_nat_eq_self)
qed

lemma unat_ucast_u32_u16: "unat (ucast (x :: u32) :: u16) = unat x mod 65536"
  by (simp add: unsigned_ucast_eq take_bit_eq_mod)

lemma unat_ucast_u32_u8: "unat (ucast (x :: u32) :: u8) = unat x mod 256"
  by (simp add: unsigned_ucast_eq take_bit_eq_mod)

lemma unat_minus_1_u32: "unat (- 1 :: u32) = 4294967295"
  by (simp add: unsigned_minus_1_eq_mask mask_eq_exp_minus_1)

lemma uint_eq_int_unat [word_conv]: "uint (x :: 'a::len word) = int (unat x)"
  by simp

lemma word_of_int_add_eq:
  fixes a b n :: "'a::len word"
  assumes "unat a + unat b = unat n"
  shows "word_of_int (uint a + uint b) = n"
proof -
  have "uint a + uint b = uint n"
    using assms by (simp add: uint_nat del: of_nat_unat flip: of_nat_add)
  then show ?thesis by simp
qed

lemma unat_of_nat_u16: "n < 65536 \<Longrightarrow> unat (of_nat n :: u16) = n"
  by (simp add: unat_of_nat)

lemma unat_of_nat_u32: "n < 4294967296 \<Longrightarrow> unat (of_nat n :: u32) = n"
  by (simp add: unat_of_nat)

lemma unat_of_nat_u8: "n < 256 \<Longrightarrow> unat (of_nat n :: u8) = n"
  by (simp add: unat_of_nat)

lemma unat_Suc_below:
  fixes i n :: "'a::len word"
  assumes "i < n"
  shows "unat (i + 1) = Suc (unat i)"
proof -
  have "i \<noteq> - 1" using assms word_n1_ge [of n] by auto
  then have "i + 1 \<noteq> 0" by (metis add.commute add.inverse_inverse eq_neg_iff_add_eq_0)
  then show ?thesis by (simp add: unatSuc add.commute)
qed

lemma unat_eq_0_iff: "unat (x :: 'a::len word) = 0 \<longleftrightarrow> x = 0"
  by (simp add: unat_eq_zero)

section \<open>Arrays of objects in memory\<close>

text \<open>The address of the \<open>i\<close>-th object of \<open>t\<close> bytes of the array at \<open>base\<close>, and when \<open>n\<close> of
  them lie in the address space without touching the null pointer.\<close>

definition array_addr :: "u32 \<Rightarrow> u32 \<Rightarrow> nat \<Rightarrow> u32" where
  "array_addr base t i = base + of_nat i * t"

definition array_fits :: "u32 \<Rightarrow> u32 \<Rightarrow> nat \<Rightarrow> bool" where
  "array_fits base t n \<longleftrightarrow> base \<noteq> 0 \<and> t \<noteq> 0 \<and> unat base + n * unat t \<le> 2 ^ 32"

lemma array_offset:
  assumes fits: "array_fits base t n" and i: "i < n"
  shows "unat (of_nat i * t) = i * unat t" and "unat base + i * unat t + unat t \<le> 2 ^ 32"
proof -
  have "Suc i * unat t \<le> n * unat t" using i by (intro mult_le_mono1) simp
  with fits show b: "unat base + i * unat t + unat t \<le> 2 ^ 32" by (simp add: array_fits_def)
  have "0 < unat t" using fits by (simp add: array_fits_def unat_gt_0)
  with b have lt: "i * unat t < 2 ^ 32" by linarith
  have "i \<le> i * unat t" using \<open>0 < unat t\<close> by (cases "unat t") simp_all
  from order.strict_trans1 [OF this lt] have "i < 4294967296" by simp
  then have u: "unat (of_nat i :: u32) = i" by (rule unat_of_nat_u32)
  from lt have "unat (of_nat i :: u32) * unat t < 2 ^ LENGTH(32)" by (simp only: u) simp
  from unat_mult_lem [THEN iffD1, OF this] show "unat (of_nat i * t) = i * unat t" by (simp only: u)
qed

lemma unat_array_addr:
  assumes "array_fits base t n" and "i < n"
  shows "unat (array_addr base t i) = unat base + i * unat t"
proof -
  note o = array_offset [OF assms]
  have "0 < unat t" using assms(1) by (simp add: array_fits_def unat_gt_0)
  with o have "unat base + unat (of_nat i * t) < 2 ^ LENGTH(32)" by simp
  from unat_add_lem [THEN iffD1, OF this] show ?thesis by (simp add: array_addr_def o)
qed

lemma array_addr_inj:
  assumes "array_fits base t n" and "i < n" and "j < n" and "array_addr base t i = array_addr base t j"
  shows "i = j"
proof -
  have "i * unat t = j * unat t"
    using unat_array_addr [OF assms(1,2)] unat_array_addr [OF assms(1,3)] by (metis add_left_cancel assms(4))
  moreover have "unat t \<noteq> 0" using assms(1) by (simp add: array_fits_def unat_eq_0_iff)
  ultimately show ?thesis by simp
qed

lemma array_addr_nonnull: "array_fits base t n \<Longrightarrow> i < n \<Longrightarrow> array_addr base t i \<noteq> 0"
  using unat_array_addr [of base t n i] by (auto simp: array_fits_def unat_eq_0_iff)

lemma array_index:
  assumes "array_fits base t n" and "i < n"
  shows "unat ((array_addr base t i - base) div t) = i"
  using assms(1) by (simp add: array_addr_def unat_div array_offset(1) [OF assms] array_fits_def unat_gt_0)

text \<open>Distinct objects do not overlap.\<close>

lemma array_disjoint:
  assumes "array_fits base t n" and "i + k \<le> j" and "j < n"
  shows "unat (array_addr base t i) + k * unat t \<le> unat (array_addr base t j)"
proof -
  have "(i + k) * unat t \<le> j * unat t" using assms(2) by (rule mult_le_mono1)
  then show ?thesis using assms by (simp add: unat_array_addr add_mult_distrib)
qed

section \<open>Fixed-size chunks of a byte list\<close>

text \<open>\<open>chunk t xs i\<close> is the \<open>i\<close>-th block of \<open>t\<close> bytes of \<open>xs\<close>: the element at index \<open>i\<close> of an
  array of objects of \<open>t\<close> bytes.\<close>

definition chunk :: "nat \<Rightarrow> 'a list \<Rightarrow> nat \<Rightarrow> 'a list" where
  "chunk t xs i = take t (drop (i * t) xs)"

definition chunks :: "nat \<Rightarrow> 'a list \<Rightarrow> nat \<Rightarrow> 'a list list" where
  "chunks t xs n = map (chunk t xs) [0..<n]"

lemma length_chunks [simp]: "length (chunks t xs n) = n"
  by (simp add: chunks_def)

lemma length_chunk: "Suc i * t \<le> length xs \<Longrightarrow> length (chunk t xs i) = t"
  by (simp add: chunk_def)

lemma chunks_1: "length xs = t \<Longrightarrow> chunks t xs (Suc 0) = [xs]"
  by (simp add: chunks_def chunk_def)

lemma chunks_take: "n * t \<le> k \<Longrightarrow> chunks t (take k xs) n = chunks t xs n"
proof (rule nth_equalityI)
  assume le: "n * t \<le> k"
  fix i assume "i < length (chunks t (take k xs) n)"
  then have "i < n" by simp
  then have "Suc i * t \<le> n * t" by (intro mult_le_mono1) simp
  with le have "i * t + t \<le> k" by simp
  then show "chunks t (take k xs) n ! i = chunks t xs n ! i"
    using \<open>i < n\<close> by (simp add: chunks_def chunk_def drop_take min_absorb1)
qed simp

lemma concat_chunks_from:
  "(a + m) * t \<le> length xs \<Longrightarrow>
     concat (map (chunk t xs) [a..<a + m]) = take (m * t) (drop (a * t) xs)"
proof (induction m)
  case 0
  then show ?case by simp
next
  case (Suc m)
  have "(a + m) * t \<le> length xs"
    using Suc.prems by (simp add: algebra_simps)
  then have IH: "concat (map (chunk t xs) [a..<a + m]) = take (m * t) (drop (a * t) xs)"
    by (rule Suc.IH)
  have "concat (map (chunk t xs) [a..<a + Suc m])
      = take (m * t) (drop (a * t) xs) @ take t (drop (m * t) (drop (a * t) xs))"
    by (simp add: IH) (simp add: chunk_def algebra_simps)
  also have "\<dots> = take (m * t + t) (drop (a * t) xs)"
    by (simp only: take_add)
  finally show ?case by (simp add: algebra_simps)
qed

lemma chunk_upd_inside:
  assumes "length ys = m * t" and "(a + m) * t \<le> length xs" and "a \<le> i" and "i < a + m"
  shows "chunk t (take (a * t) xs @ ys @ drop ((a + m) * t) xs) i = chunk t ys (i - a)"
proof -
  have "Suc (i - a) * t \<le> m * t"
    using assms(3,4) by (intro mult_le_mono1) simp
  then have le: "(i - a) * t + t \<le> m * t" by simp
  have d: "i * t - a * t = (i - a) * t"
    by (simp add: diff_mult_distrib)
  have a: "a * t \<le> length xs" using assms(2) by (simp add: algebra_simps)
  have "a * t \<le> i * t" using assms(3) by simp
  then show ?thesis
    using a le assms(1) by (simp add: chunk_def d min_absorb2)
qed

lemma chunk_upd_below:
  assumes "(a + m) * t \<le> length xs" and "i < a"
  shows "chunk t (take (a * t) xs @ zs) i = chunk t xs i"
proof -
  have "Suc i * t \<le> a * t"
    using assms(2) by (intro mult_le_mono1) simp
  moreover have "a * t \<le> length xs" using assms(1) by (simp add: algebra_simps)
  ultimately show ?thesis
    by (simp add: chunk_def drop_take min_absorb1)
qed

lemma chunk_upd_above:
  assumes "length ys = m * t" and "(a + m) * t \<le> length xs" and "a + m \<le> i"
  shows "chunk t (take (a * t) xs @ ys @ drop ((a + m) * t) xs) i = chunk t xs i"
proof -
  let ?p = "take (a * t) xs @ ys"
  have le: "(a + m) * t \<le> i * t" using assms(3) by (rule mult_le_mono1)
  have "a * t \<le> length xs" using assms(2) by (simp add: algebra_simps)
  then have len: "length ?p = (a + m) * t" using assms(1) by (simp add: algebra_simps)
  have "drop (i * t) (?p @ drop ((a + m) * t) xs) = drop (i * t - (a + m) * t) (drop ((a + m) * t) xs)"
    using drop_all [of ?p "i * t"] le by (simp only: drop_append len append_Nil)
  also have "\<dots> = drop (i * t) xs"
    using le by (simp only: drop_drop le_add_diff_inverse2)
  finally show ?thesis by (simp only: chunk_def append_assoc)
qed

lemma chunk_upd [chunk_simps]:
  assumes "length ys = m * t" and "(a + m) * t \<le> length xs"
  shows "chunk t (take (a * t) xs @ ys @ drop ((a + m) * t) xs) i =
    (if a \<le> i \<and> i < a + m then chunk t ys (i - a) else chunk t xs i)"
  using assms chunk_upd_inside [of ys m t a xs i] chunk_upd_below [of a m t xs i]
    chunk_upd_above [of ys m t a xs i] by (auto simp: not_less)

lemma chunk_take_drop:
  assumes "Suc i \<le> m"
  shows "chunk t (take (m * t) (drop (a * t) xs)) i = chunk t xs (a + i)"
proof -
  have "Suc i * t \<le> m * t" using assms by (intro mult_le_mono1)
  then show ?thesis by (simp add: chunk_def drop_take algebra_simps)
qed

text \<open>An array copy of whole elements, element by element.\<close>

lemma memcpy_at_chunks:
  assumes "(a + m) * t \<le> length dst" and "(b + m) * t \<le> length src"
  shows "\<exists>dst'. memcpy_at dst (a * t) src (b * t) (m * t) = Some dst' \<and>
    length dst' = length dst \<and>
    (\<forall>i. chunk t dst' i = (if a \<le> i \<and> i < a + m then chunk t src (b + (i - a)) else chunk t dst i))"
proof -
  let ?ys = "take (m * t) (drop (b * t) src)"
  have ly: "length ?ys = m * t" using assms(2) by (simp add: algebra_simps)
  have ok: "a * t + m * t \<le> length dst" "b * t + m * t \<le> length src"
    using assms by (simp_all add: algebra_simps)
  then have "memcpy_at dst (a * t) src (b * t) (m * t) =
      Some (take (a * t) dst @ ?ys @ drop ((a + m) * t) dst)"
    by (simp add: memcpy_at_def algebra_simps)
  moreover have "length (take (a * t) dst @ ?ys @ drop ((a + m) * t) dst) = length dst"
    using ok ly by (simp add: algebra_simps)
  moreover have "chunk t (take (a * t) dst @ ?ys @ drop ((a + m) * t) dst) i =
      (if a \<le> i \<and> i < a + m then chunk t src (b + (i - a)) else chunk t dst i)" for i
    using chunk_upd [OF ly assms(1), of i] by (auto simp: chunk_take_drop)
  ultimately show ?thesis by blast
qed

section \<open>Indices of a ring\<close>

text \<open>The \<open>n\<close> slots that follow slot \<open>r\<close> in a ring of \<open>sz\<close> slots: a linear part up to the end of
  the array and a wrapped part from its start.\<close>

definition ring_slots :: "nat \<Rightarrow> nat \<Rightarrow> nat \<Rightarrow> nat list" where
  "ring_slots sz r n = map (\<lambda>k. (r + 1 + k) mod sz) [0..<n]"

lemma length_ring_slots [simp]: "length (ring_slots sz r n) = n"
  by (simp add: ring_slots_def)

lemma ring_slots_add:
  "ring_slots sz r (m + n) = ring_slots sz r m @ ring_slots sz ((r + m) mod sz) n"
proof (rule nth_equalityI)
  fix i assume "i < length (ring_slots sz r (m + n))"
  then have i: "i < m + n" by simp
  have "((r + m) mod sz + 1 + (i - m)) mod sz = ((r + m) + 1 + (i - m)) mod sz"
    by (metis (no_types, lifting) add.assoc mod_add_left_eq)
  then show "ring_slots sz r (m + n) ! i =
      (ring_slots sz r m @ ring_slots sz ((r + m) mod sz) n) ! i"
    using i by (auto simp: ring_slots_def nth_append)
qed simp

lemma ring_slots_linear: "r + n < sz \<Longrightarrow> ring_slots sz r n = [r + 1..<r + 1 + n]"
  by (rule nth_equalityI) (auto simp: ring_slots_def simp del: upt_Suc)

lemma ring_slots_wrap:
  assumes "r < sz" and "r + n \<ge> sz" and "r + n < sz + sz"
  shows "ring_slots sz r n = [r + 1..<sz] @ [0..<r + n + 1 - sz]"
proof (rule nth_equalityI)
  fix i assume "i < length (ring_slots sz r n)"
  then have i: "i < n" by simp
  show "ring_slots sz r n ! i = ([r + 1..<sz] @ [0..<r + n + 1 - sz]) ! i"
  proof (cases "r + 1 + i < sz")
    case True
    then have "i < length [r + 1..<sz]" by simp
    then show ?thesis using i True by (simp add: ring_slots_def nth_append)
  next
    case False
    then have "(r + 1 + i) mod sz = r + 1 + i - sz"
      using i assms by (simp add: mod_if)
    moreover have "\<not> i < length [r + 1..<sz]" using False by simp
    ultimately show ?thesis using i False assms
      by (simp add: ring_slots_def nth_append add.commute del: upt_Suc)
  qed
qed (use assms in simp)

lemma ring_slots_bound: "0 < sz \<Longrightarrow> i \<in> set (ring_slots sz r n) \<Longrightarrow> i < sz"
  by (auto simp: ring_slots_def)

lemma ring_slots_distinct:
  assumes "r < sz" and "n \<le> sz"
  shows "distinct (ring_slots sz r n)"
proof (cases "r + n < sz")
  case True
  then show ?thesis by (simp add: ring_slots_linear)
next
  case False
  then show ?thesis using assms by (auto simp: ring_slots_wrap)
qed

lemma ring_slots_drop:
  "k \<le> n \<Longrightarrow> drop k (ring_slots sz r n) = ring_slots sz ((r + k) mod sz) (n - k)"
  using ring_slots_add [of sz r k "n - k"] by simp

lemma ring_slots_take:
  "k \<le> n \<Longrightarrow> take k (ring_slots sz r n) = ring_slots sz r k"
  using ring_slots_add [of sz r k "n - k"] by simp

end
