(* ===== verification/Critical_Section.thy ===== *)
theory Critical_Section
  imports C_Base
begin

text \<open>
  \<open>utils/critical_section.h\<close> and \<open>.c\<close>: the nested critical sections every shared structure of
  the library is guarded with. The state is the nesting counter \<open>bsp_critical_nesting\<close> and which
  of the two external switches of the BSP (\<open>bsp_disable_interrupt\<close>, \<open>bsp_enable_interrupt\<close>) was
  called last. The lemmas show that an enter/exit pair is the identity on every state in which
  interrupts are on exactly outside critical sections, at every nesting depth.
\<close>

datatype bsp_irq_call = Bsp_enable_interrupt | Bsp_disable_interrupt

record crit =
  bsp_critical_nesting :: u32
  bsp_irq :: bsp_irq_call

definition crit_init :: crit where
  "crit_init = \<lparr>bsp_critical_nesting = 0, bsp_irq = Bsp_enable_interrupt\<rparr>"

definition bsp_enter_critical :: "crit \<Rightarrow> crit" where
  "bsp_enter_critical c =
     (let c1 = c\<lparr>bsp_irq := Bsp_disable_interrupt\<rparr>
      in c1\<lparr>bsp_critical_nesting := bsp_critical_nesting c1 + 1\<rparr>)"

definition bsp_exit_critical :: "crit \<Rightarrow> crit" where
  "bsp_exit_critical c =
     (let c1 = c\<lparr>bsp_critical_nesting := bsp_critical_nesting c - 1\<rparr>
      in if bsp_critical_nesting c1 = 0 then c1\<lparr>bsp_irq := Bsp_enable_interrupt\<rparr> else c1)"

text \<open>Interrupts are off exactly inside a critical section, and one more level fits the counter.\<close>

definition crit_ok :: "crit \<Rightarrow> bool" where
  "crit_ok c \<longleftrightarrow>
     (bsp_irq c = (if bsp_critical_nesting c = 0 then Bsp_enable_interrupt else Bsp_disable_interrupt))
     \<and> bsp_critical_nesting c \<noteq> - 1"

lemma crit_ok_init [simp]: "crit_ok crit_init"
  by (simp add: crit_ok_def crit_init_def)

lemma nesting_enter [simp]:
  "bsp_critical_nesting (bsp_enter_critical c) = bsp_critical_nesting c + 1"
  by (simp add: bsp_enter_critical_def)

lemma irq_enter [simp]: "bsp_irq (bsp_enter_critical c) = Bsp_disable_interrupt"
  by (simp add: bsp_enter_critical_def)

lemma exit_enter:
  "bsp_exit_critical (bsp_enter_critical c) =
     (if bsp_critical_nesting c = 0 then c\<lparr>bsp_irq := Bsp_enable_interrupt\<rparr>
      else c\<lparr>bsp_irq := Bsp_disable_interrupt\<rparr>)"
  by (simp add: bsp_exit_critical_def bsp_enter_critical_def Let_def)

lemma exit_enter_ok [simp]: "crit_ok c \<Longrightarrow> bsp_exit_critical (bsp_enter_critical c) = c"
  by (auto simp: exit_enter crit_ok_def)

text \<open>\<open>n\<close> nested sections, as nested calls of guarded operations produce them.\<close>

primrec enter_n :: "nat \<Rightarrow> crit \<Rightarrow> crit" where
  "enter_n 0 c = c"
| "enter_n (Suc n) c = bsp_enter_critical (enter_n n c)"

primrec exit_n :: "nat \<Rightarrow> crit \<Rightarrow> crit" where
  "exit_n 0 c = c"
| "exit_n (Suc n) c = exit_n n (bsp_exit_critical c)"

lemma nesting_enter_n: "bsp_critical_nesting (enter_n n c) = bsp_critical_nesting c + of_nat n"
  by (induction n) (simp_all add: algebra_simps)

lemma irq_enter_n:
  "bsp_irq (enter_n n c) = (if n = 0 then bsp_irq c else Bsp_disable_interrupt)"
  by (cases n) simp_all

lemma add_of_nat_neq_minus_1:
  fixes x :: u32
  assumes "unat x + n < 2 ^ 32 - 1"
  shows "x + of_nat n \<noteq> - 1"
proof
  assume "x + of_nat n = - 1"
  then have "unat (x + of_nat n) = unat (- 1 :: u32)" by simp
  moreover have "unat (x + of_nat n) = unat x + n"
    using assms by (subst unat_add_lem [THEN iffD1]) (simp_all add: unat_of_nat_u32)
  ultimately show False using assms by (simp add: unat_minus_1_u32)
qed

lemma add_of_nat_neq_0:
  fixes x :: u32
  assumes "unat x + n < 2 ^ 32 - 1" and "n \<noteq> 0"
  shows "x + of_nat n \<noteq> 0"
proof
  assume "x + of_nat n = 0"
  then have "unat (x + of_nat n) = 0" by simp
  moreover have "unat (x + of_nat n) = unat x + n"
    using assms by (subst unat_add_lem [THEN iffD1]) (simp_all add: unat_of_nat_u32)
  ultimately show False using assms by simp
qed

lemma crit_ok_enter_n:
  assumes "crit_ok c" and "unat (bsp_critical_nesting c) + n < 2 ^ 32 - 1"
  shows "crit_ok (enter_n n c)"
  using assms add_of_nat_neq_minus_1 [OF assms(2)] add_of_nat_neq_0 [OF assms(2)]
  by (cases n) (auto simp: crit_ok_def nesting_enter_n irq_enter_n simp del: enter_n.simps of_nat_Suc)

text \<open>
  Critical sections nest: after any number \<open>n\<close> of enters followed by \<open>n\<close> exits the nesting
  counter and the interrupt switch are back to what they were, and interrupts are off in between.
\<close>

theorem critical_sections_nest:
  assumes "crit_ok c" and "unat (bsp_critical_nesting c) + n < 2 ^ 32 - 1"
  shows "exit_n n (enter_n n c) = c \<and>
    (0 < n \<longrightarrow> bsp_irq (enter_n n c) = Bsp_disable_interrupt)"
proof -
  have "exit_n n (enter_n n c) = c"
    using assms
  proof (induction n)
    case 0
    then show ?case by simp
  next
    case (Suc n)
    then have "crit_ok (enter_n n c)" by (intro crit_ok_enter_n) simp_all
    with Suc show ?case by simp
  qed
  then show ?thesis by (simp add: irq_enter_n)
qed

theorem critical_sections_nest_witness:
  "exit_n 3 (enter_n 3 crit_init) = crit_init \<and>
   bsp_irq (enter_n 3 crit_init) = Bsp_disable_interrupt"
  using critical_sections_nest [of crit_init 3] by (simp add: crit_init_def crit_ok_def)

end
