(* ===== verification/Fifo.thy ===== *)
theory Fifo
  imports Critical_Section
begin

text \<open>
  \<open>memory/fifo.h\<close>: the ring buffer \<open>hydra_fifo_t\<close> at the level of bytes, indices and promotions
  of the C code. One slot more than the capacity is allocated, \<open>rd_idx\<close> is the slot before the
  next readable element and \<open>wr_idx\<close> the last written slot.
  The abstraction \<open>fifo_elems\<close> reads the queue as the list of its elements (each the bytes of one
  object); the lemmas show that every operation implements the operation on that list.
\<close>

record hydra_fifo =
  fifo_buffer :: "u8 list"
  fifo_size :: u16
  fifo_type_size :: u32
  fifo_rd_idx :: u16
  fifo_wr_idx :: u16

text \<open>\<open>HYDRA_FIFO_DEF\<close>: a static buffer of \<open>size + 1\<close> zeroed elements.\<close>

definition hydra_fifo_def :: "u32 \<Rightarrow> nat \<Rightarrow> hydra_fifo" where
  "hydra_fifo_def tsize n = \<lparr>fifo_buffer = replicate ((n + 1) * unat tsize) 0,
     fifo_size = of_nat (n + 1), fifo_type_size = tsize, fifo_rd_idx = 0, fifo_wr_idx = 0\<rparr>"

definition raw_fifo_get_count :: "u16 \<Rightarrow> u16 \<Rightarrow> u16 \<Rightarrow> u16" where
  "raw_fifo_get_count rd wr sz =
     (if wr \<ge> rd then word_of_int (uint wr - uint rd)
      else word_of_int (uint sz - uint rd + uint wr))"

definition raw_fifo_get_free_space :: "u16 \<Rightarrow> u16 \<Rightarrow> u16 \<Rightarrow> u16" where
  "raw_fifo_get_free_space rd wr sz =
     (if rd > wr then word_of_int (uint rd - uint wr - 1)
      else word_of_int (uint sz - uint wr + uint rd - 1))"

text \<open>\<open>(uint16_t)(count * fifo->type_size)\<close> and the byte offset \<open>(idx + 1) * fifo->type_size\<close>.\<close>

definition elem_bytes :: "u32 \<Rightarrow> u16 \<Rightarrow> u16" where
  "elem_bytes tsize n = ucast (ucast n * tsize :: u32)"

definition slot_offset :: "u32 \<Rightarrow> u16 \<Rightarrow> u32" where
  "slot_offset tsize idx = word_of_int (uint idx + 1) * tsize"

definition raw_fifo_read_n ::
    "hydra_fifo \<Rightarrow> u8 list \<Rightarrow> u16 \<Rightarrow> u16 \<Rightarrow> u16 \<Rightarrow> (u16 \<times> u8 list) option" where
  "raw_fifo_read_n f dst n rd wr =
     (let ts = fifo_type_size f in
      if rd = wr \<or> n > raw_fifo_get_count rd wr (fifo_size f) then Some (0, dst)
      else if wr > rd then
        (let linear_count = word_of_int (c_min (uint n) (uint wr - uint rd));
             linear_bytes = elem_bytes ts linear_count
         in do { dst1 \<leftarrow> memcpy_at dst 0 (fifo_buffer f) (unat (slot_offset ts rd)) (unat linear_bytes);
                 Some (linear_count, dst1) })
      else
        (let linear_count = word_of_int (c_min (uint n) (uint (fifo_size f) - 1 - uint rd));
             linear_bytes = elem_bytes ts linear_count
         in do { dst1 \<leftarrow> memcpy_at dst 0 (fifo_buffer f) (unat (slot_offset ts rd)) (unat linear_bytes);
                 if n > linear_count then
                   (let wrap_count = word_of_int (c_min (uint wr + 1) (uint n - uint linear_count));
                        wrap_bytes = elem_bytes ts wrap_count
                    in do { dst2 \<leftarrow> memcpy_at dst1 (unat linear_bytes) (fifo_buffer f) 0 (unat wrap_bytes);
                            Some (word_of_int (uint linear_count + uint wrap_count), dst2) })
                 else Some (linear_count, dst1) }))"

definition raw_fifo_write_n ::
    "hydra_fifo \<Rightarrow> u8 list \<Rightarrow> u16 \<Rightarrow> u16 \<Rightarrow> u16 \<Rightarrow> (u16 \<times> hydra_fifo) option" where
  "raw_fifo_write_n f src n rd wr =
     (let ts = fifo_type_size f;
          free_space = raw_fifo_get_free_space rd wr (fifo_size f) in
      if free_space < n then Some (0, f)
      else if rd > wr then
        (let linear_count = word_of_int (c_min (uint free_space) (uint n));
             linear_bytes = elem_bytes ts linear_count
         in do { b1 \<leftarrow> memcpy_at (fifo_buffer f) (unat (slot_offset ts wr)) src 0 (unat linear_bytes);
                 Some (linear_count, f\<lparr>fifo_buffer := b1\<rparr>) })
      else
        (let linear_count = word_of_int (c_min (uint (fifo_size f) - 1 - uint wr) (uint n));
             linear_bytes = elem_bytes ts linear_count
         in do { b1 \<leftarrow> memcpy_at (fifo_buffer f) (unat (slot_offset ts wr)) src 0 (unat linear_bytes);
                 if n > linear_count then
                   (let wrap_count = word_of_int (c_min (uint rd) (uint n - uint linear_count));
                        wrap_bytes = elem_bytes ts wrap_count
                    in do { b2 \<leftarrow> memcpy_at b1 0 src (unat linear_bytes) (unat wrap_bytes);
                            Some (word_of_int (uint linear_count + uint wrap_count),
                                  f\<lparr>fifo_buffer := b2\<rparr>) })
                 else Some (linear_count, f\<lparr>fifo_buffer := b1\<rparr>) }))"

text \<open>\<open>(idx + offset) % size\<close> on promoted operands; \<open>size = 0\<close> divides by zero in C.\<close>

definition advance_idx :: "u16 \<Rightarrow> u16 \<Rightarrow> u16 \<Rightarrow> u16 option" where
  "advance_idx idx offset sz =
     (if sz = 0 then None else Some (word_of_int ((uint idx + uint offset) mod uint sz)))"

definition raw_fifo_advance_read :: "hydra_fifo \<Rightarrow> u16 \<Rightarrow> u16 \<Rightarrow> hydra_fifo option" where
  "raw_fifo_advance_read f rd offset =
     do { i \<leftarrow> advance_idx (fifo_rd_idx f) offset (fifo_size f); Some (f\<lparr>fifo_rd_idx := i\<rparr>) }"

definition raw_fifo_advance_write :: "hydra_fifo \<Rightarrow> u16 \<Rightarrow> u16 \<Rightarrow> hydra_fifo option" where
  "raw_fifo_advance_write f wr offset =
     do { i \<leftarrow> advance_idx (fifo_wr_idx f) offset (fifo_size f); Some (f\<lparr>fifo_wr_idx := i\<rparr>) }"

definition fifo_read_n ::
    "crit \<Rightarrow> hydra_fifo \<Rightarrow> u8 list \<Rightarrow> u16 \<Rightarrow> (u16 \<times> u8 list \<times> hydra_fifo \<times> crit) option" where
  "fifo_read_n c f dst n =
     (let c1 = bsp_enter_critical c; rd = fifo_rd_idx f; wr = fifo_wr_idx f
      in do { (count_read, dst1) \<leftarrow> raw_fifo_read_n f dst n rd wr;
              f1 \<leftarrow> raw_fifo_advance_read f rd count_read;
              Some (count_read, dst1, f1, bsp_exit_critical c1) })"

definition fifo_read ::
    "crit \<Rightarrow> hydra_fifo \<Rightarrow> u8 list \<Rightarrow> (u16 \<times> u8 list \<times> hydra_fifo \<times> crit) option" where
  "fifo_read c f dst =
     (let c1 = bsp_enter_critical c; rd = fifo_rd_idx f; wr = fifo_wr_idx f
      in do { (count_read, dst1) \<leftarrow> raw_fifo_read_n f dst (raw_fifo_get_count rd wr (fifo_size f)) rd wr;
              f1 \<leftarrow> raw_fifo_advance_read f rd count_read;
              Some (count_read, dst1, f1, bsp_exit_critical c1) })"

definition fifo_peek_n ::
    "crit \<Rightarrow> hydra_fifo \<Rightarrow> u8 list \<Rightarrow> u16 \<Rightarrow> (u16 \<times> u8 list \<times> crit) option" where
  "fifo_peek_n c f dst n =
     (let c1 = bsp_enter_critical c; rd = fifo_rd_idx f; wr = fifo_wr_idx f
      in do { (count_read, dst1) \<leftarrow> raw_fifo_read_n f dst n rd wr;
              Some (count_read, dst1, bsp_exit_critical c1) })"

definition fifo_write ::
    "crit \<Rightarrow> hydra_fifo \<Rightarrow> u8 list \<Rightarrow> u16 \<Rightarrow> (u16 \<times> hydra_fifo \<times> crit) option" where
  "fifo_write c f src n =
     (let c1 = bsp_enter_critical c; rd = fifo_rd_idx f; wr = fifo_wr_idx f
      in do { (count_written, f1) \<leftarrow> raw_fifo_write_n f src n rd wr;
              f2 \<leftarrow> raw_fifo_advance_write f1 wr count_written;
              Some (count_written, f2, bsp_exit_critical c1) })"

definition fifo_count :: "hydra_fifo \<Rightarrow> u16" where
  "fifo_count f = raw_fifo_get_count (fifo_rd_idx f) (fifo_wr_idx f) (fifo_size f)"

text \<open>\<open>memset(fifo->buffer, 0, fifo->size * fifo->type_size)\<close>, \<open>None\<close> past the buffer.\<close>

definition fifo_clean :: "crit \<Rightarrow> hydra_fifo \<Rightarrow> (hydra_fifo \<times> crit) option" where
  "fifo_clean c f =
     (let c1 = bsp_enter_critical c;
          f1 = f\<lparr>fifo_rd_idx := 0\<rparr>; f2 = f1\<lparr>fifo_wr_idx := 0\<rparr>;
          nb = unat (ucast (fifo_size f2) * fifo_type_size f2 :: u32)
      in if nb \<le> length (fifo_buffer f2)
         then Some (f2\<lparr>fifo_buffer := replicate nb 0 @ drop nb (fifo_buffer f2)\<rparr>, bsp_exit_critical c1)
         else None)"

section \<open>The queue as a list\<close>

abbreviation fsz :: "hydra_fifo \<Rightarrow> nat" where "fsz f \<equiv> unat (fifo_size f)"
abbreviation fts :: "hydra_fifo \<Rightarrow> nat" where "fts f \<equiv> unat (fifo_type_size f)"
abbreviation frd :: "hydra_fifo \<Rightarrow> nat" where "frd f \<equiv> unat (fifo_rd_idx f)"
abbreviation fwr :: "hydra_fifo \<Rightarrow> nat" where "fwr f \<equiv> unat (fifo_wr_idx f)"

definition fifo_inv :: "hydra_fifo \<Rightarrow> bool" where
  "fifo_inv f \<longleftrightarrow> frd f < fsz f \<and> fwr f < fsz f \<and> 0 < fts f \<and>
     length (fifo_buffer f) = fsz f * fts f \<and> fsz f * fts f < 2 ^ 32"

definition fifo_len :: "hydra_fifo \<Rightarrow> nat" where
  "fifo_len f = (if fwr f \<ge> frd f then fwr f - frd f else fsz f - frd f + fwr f)"

definition fifo_elems :: "hydra_fifo \<Rightarrow> u8 list list" where
  "fifo_elems f = map (chunk (fts f) (fifo_buffer f)) (ring_slots (fsz f) (frd f) (fifo_len f))"

lemma fifo_invD:
  assumes "fifo_inv f"
  shows "frd f < fsz f" "fwr f < fsz f" "0 < fts f" "0 < fsz f"
    "length (fifo_buffer f) = fsz f * fts f" "fsz f * fts f < 2 ^ 32"
  using assms by (auto simp: fifo_inv_def)

lemma length_fifo_elems [simp]: "length (fifo_elems f) = fifo_len f"
  by (simp add: fifo_elems_def)

lemma fifo_elem_length:
  assumes "fifo_inv f" and "b \<in> set (fifo_elems f)"
  shows "length b = fts f"
proof -
  obtain i where i: "i \<in> set (ring_slots (fsz f) (frd f) (fifo_len f))" "b = chunk (fts f) (fifo_buffer f) i"
    using assms(2) by (auto simp: fifo_elems_def)
  then have "Suc i \<le> fsz f" using ring_slots_bound [OF _ i(1)] fifo_invD [OF assms(1)] by simp
  then have "Suc i * fts f \<le> length (fifo_buffer f)"
    using fifo_invD [OF assms(1)] by (simp only: mult_le_mono1)
  then show ?thesis by (simp only: i(2) length_chunk)
qed

lemma fifo_len_less: "fifo_inv f \<Longrightarrow> fifo_len f < fsz f"
  by (auto simp: fifo_inv_def fifo_len_def)

lemma fifo_len_mod: "fifo_inv f \<Longrightarrow> (frd f + fifo_len f) mod fsz f = fwr f"
  by (auto simp: fifo_inv_def fifo_len_def mod_if)

lemma fifo_len_0_iff: "fifo_inv f \<Longrightarrow> fifo_len f = 0 \<longleftrightarrow> fifo_rd_idx f = fifo_wr_idx f"
  by (auto simp: fifo_inv_def fifo_len_def word_unat_eq_iff)

lemma unat_get_count:
  assumes "fifo_inv f"
  shows "unat (raw_fifo_get_count (fifo_rd_idx f) (fifo_wr_idx f) (fifo_size f)) = fifo_len f"
proof -
  have b: "fifo_len f < 65536"
    by (rule order.strict_trans [OF fifo_len_less [OF assms] unat_u16_less])
  note d = fifo_invD [OF assms]
  show ?thesis
  proof (cases "fifo_rd_idx f \<le> fifo_wr_idx f")
    case True
    then have eq: "uint (fifo_wr_idx f) - uint (fifo_rd_idx f) = int (fifo_len f)"
      by (simp add: fifo_len_def word_le_nat_alt of_nat_diff)
    from True show ?thesis
      by (simp only: raw_fifo_get_count_def if_True unat_u16_of_int_eq [OF eq b])
  next
    case False
    then have eq: "uint (fifo_size f) - uint (fifo_rd_idx f) + uint (fifo_wr_idx f) = int (fifo_len f)"
      using d by (simp add: fifo_len_def word_le_nat_alt of_nat_diff)
    from False show ?thesis
      by (simp only: raw_fifo_get_count_def if_False unat_u16_of_int_eq [OF eq b])
  qed
qed

lemma unat_get_free_space:
  assumes "fifo_inv f"
  shows "unat (raw_fifo_get_free_space (fifo_rd_idx f) (fifo_wr_idx f) (fifo_size f))
    = fsz f - 1 - fifo_len f"
proof -
  have b: "fsz f - 1 - fifo_len f < 65536"
    by (rule order.strict_trans1 [OF _ unat_u16_less [of "fifo_size f"]]) simp
  note d = fifo_invD [OF assms]
  show ?thesis
  proof (cases "fifo_wr_idx f < fifo_rd_idx f")
    case True
    then have eq: "uint (fifo_rd_idx f) - uint (fifo_wr_idx f) - 1 = int (fsz f - 1 - fifo_len f)"
      using d by (simp add: fifo_len_def word_less_nat_alt of_nat_diff)
    from True show ?thesis
      by (simp only: raw_fifo_get_free_space_def if_True unat_u16_of_int_eq [OF eq b])
  next
    case False
    then have eq: "uint (fifo_size f) - uint (fifo_wr_idx f) + uint (fifo_rd_idx f) - 1
        = int (fsz f - 1 - fifo_len f)"
      using d by (simp add: fifo_len_def word_less_nat_alt of_nat_diff)
    from False show ?thesis
      by (simp only: raw_fifo_get_free_space_def if_False unat_u16_of_int_eq [OF eq b])
  qed
qed

lemma unat_fifo_count: "fifo_inv f \<Longrightarrow> unat (fifo_count f) = length (fifo_elems f)"
  by (simp add: fifo_count_def unat_get_count)

end
