(* ===== verification/Fifo_Refinement.thy ===== *)
theory Fifo_Refinement
  imports Fifo
begin

text \<open>
  The ring buffer of \<open>memory/fifo.h\<close> implements a bounded list queue: reading, peeking, writing and
  clearing on bytes and 16-bit indices correspond to \<open>take\<close>, \<open>drop\<close> and append on \<open>fifo_elems\<close>,
  all-or-nothing as the code documents it, with the critical section balanced. The transfers have
  to be shorter than 64 KiB, because the code computes their byte count in an \<open>uint16_t\<close>; the last
  section shows what happens past that bound.
\<close>

declare upt_Suc [simp del]

section \<open>Sizes and single copies\<close>

lemma unat_elem_bytes:
  assumes "unat n * unat ts < 65536"
  shows "unat (elem_bytes ts n) = unat n * unat ts"
proof -
  have "unat (ucast n * ts :: u32) = unat n * unat ts"
    using assms by (subst unat_mult_lem [THEN iffD1]) simp_all
  then show ?thesis
    using assms by (simp add: elem_bytes_def unat_ucast_u32_u16)
qed

lemma unat_slot_offset:
  assumes "unat idx < sz" and "sz * unat ts < 2 ^ 32"
  shows "unat (slot_offset ts idx) = (unat idx + 1) * unat ts"
proof -
  have le: "(unat idx + 1) * unat ts \<le> sz * unat ts"
    using assms(1) by (intro mult_le_mono1) simp
  have "unat idx < 65536" by (rule unat_u16_less)
  then have "unat idx + 1 < 4294967296" by linarith
  then have u: "unat (word_of_int (uint idx + 1) :: u32) = unat idx + 1"
    by (intro unat_u32_of_int_eq) simp_all
  from le assms(2) have "(unat idx + 1) * unat ts < 2 ^ LENGTH(32)" by simp
  then have "unat (word_of_int (uint idx + 1) :: u32) * unat ts < 2 ^ LENGTH(32)"
    by (simp only: u)
  from unat_mult_lem [THEN iffD1, OF this] show ?thesis
    by (simp only: slot_offset_def u)
qed

lemma memcpy_read_slots:
  assumes "(a + m) * t \<le> length buf" and "(d + m) * t \<le> length dst"
  shows "memcpy_at dst (d * t) buf (a * t) (m * t) =
    Some (take (d * t) dst @ concat (map (chunk t buf) [a..<a + m]) @ drop ((d + m) * t) dst)"
  using assms by (simp add: memcpy_at_def concat_chunks_from add_mult_distrib)

lemma advance_idx_eq:
  assumes "unat idx < unat sz"
  shows "advance_idx idx off sz = Some (of_nat ((unat idx + unat off) mod unat sz))"
proof -
  have "sz \<noteq> 0" using assms by auto
  moreover have "(uint idx + uint off) mod uint sz = int ((unat idx + unat off) mod unat sz)"
    by (simp add: zmod_int)
  ultimately show ?thesis by (simp only: advance_idx_def if_False of_int_of_nat_eq)
qed

lemma unat_ring_idx:
  "0 < unat sz \<Longrightarrow> unat (of_nat (i mod unat sz) :: u16) = i mod unat (sz :: u16)"
  by (rule unat_of_nat_u16) (rule order.strict_trans [OF mod_less_divisor unat_u16_less])

section \<open>Reading\<close>

lemma raw_fifo_read_n_refuse:
  assumes "fifo_inv f" and "fifo_len f < unat n"
  shows "raw_fifo_read_n f dst n (fifo_rd_idx f) (fifo_wr_idx f) = Some (0, dst)"
  using assms by (simp add: raw_fifo_read_n_def word_less_nat_alt unat_get_count)

lemma raw_fifo_read_n_linear:
  assumes inv: "fifo_inv f" and n: "unat n \<le> fifo_len f" and lt: "fifo_rd_idx f < fifo_wr_idx f"
    and small: "unat n * fts f < 65536" and dst: "unat n * fts f \<le> length dst"
  shows "raw_fifo_read_n f dst n (fifo_rd_idx f) (fifo_wr_idx f) =
    Some (n, concat (map (chunk (fts f) (fifo_buffer f)) (ring_slots (fsz f) (frd f) (unat n)))
      @ drop (unat n * fts f) dst)"
proof -
  note d = fifo_invD [OF inv]
  from lt have lt': "frd f < fwr f" by (simp add: word_less_nat_alt)
  then have len: "fifo_len f = fwr f - frd f" by (simp add: fifo_len_def)
  have "c_min (uint n) (uint (fifo_wr_idx f) - uint (fifo_rd_idx f)) = uint n"
    using n len lt' by (simp add: c_min_eq_min min_def uint_nat del: of_nat_unat)
  then have lc: "word_of_int (c_min (uint n) (uint (fifo_wr_idx f) - uint (fifo_rd_idx f))) = n"
    by simp
  have "frd f + 1 + unat n \<le> fsz f" using n len lt' d by simp
  then have le: "(frd f + 1 + unat n) * fts f \<le> length (fifo_buffer f)"
    using d by (simp only: mult_le_mono1)
  have copy: "memcpy_at dst 0 (fifo_buffer f) ((frd f + 1) * fts f) (unat n * fts f) =
      Some (concat (map (chunk (fts f) (fifo_buffer f)) [frd f + 1..<frd f + 1 + unat n])
        @ drop (unat n * fts f) dst)"
    using memcpy_read_slots [of "frd f + 1" "unat n" "fts f" "fifo_buffer f" 0 dst] le dst
    by (simp del: upt_Suc)
  have slots: "ring_slots (fsz f) (frd f) (unat n) = [frd f + 1..<frd f + 1 + unat n]"
    using n len lt' d by (intro ring_slots_linear) simp
  have "\<not> (fifo_rd_idx f = fifo_wr_idx f
      \<or> raw_fifo_get_count (fifo_rd_idx f) (fifo_wr_idx f) (fifo_size f) < n)"
    using lt n by (auto simp add: word_less_nat_alt unat_get_count [OF inv])
  then show ?thesis
    using lt by (simp only: raw_fifo_read_n_def Let_def lc unat_elem_bytes [OF small]
        unat_slot_offset [OF d(1,6)] copy slots if_False if_True) simp
qed

lemma raw_fifo_read_n_wrapped:
  assumes inv: "fifo_inv f" and n: "unat n \<le> fifo_len f" and lt: "fifo_wr_idx f < fifo_rd_idx f"
    and small: "unat n * fts f < 65536" and dst: "unat n * fts f \<le> length dst"
  shows "raw_fifo_read_n f dst n (fifo_rd_idx f) (fifo_wr_idx f) =
    Some (n, concat (map (chunk (fts f) (fifo_buffer f)) (ring_slots (fsz f) (frd f) (unat n)))
      @ drop (unat n * fts f) dst)"
proof -
  note d = fifo_invD [OF inv]
  let ?t = "fts f" and ?b = "fifo_buffer f" and ?r = "frd f" and ?w = "fwr f" and ?s = "fsz f"
  from lt have lt': "?w < ?r" by (simp add: word_less_nat_alt)
  then have len: "fifo_len f = ?s - ?r + ?w" by (simp add: fifo_len_def)
  define k where "k = min (unat n) (?s - 1 - ?r)"
  have kn: "k \<le> unat n" by (simp add: k_def)
  define lc :: u16 where "lc = word_of_int (c_min (uint n) (uint (fifo_size f) - 1 - uint (fifo_rd_idx f)))"
  have "unat n < 65536" by simp
  with kn have k16: "k < 65536" by (rule order.strict_trans1)
  have "c_min (uint n) (uint (fifo_size f) - 1 - uint (fifo_rd_idx f)) = int k"
    using d by (simp add: c_min_eq_min k_def of_nat_diff of_nat_min uint_nat del: of_nat_unat)
  with k16 have lc: "unat lc = k"
    unfolding lc_def by (intro unat_u16_of_int_eq)
  have "?r + 1 + k \<le> ?s" using d by (simp add: k_def)
  then have le1: "(?r + 1 + k) * ?t \<le> length ?b"
    using d by (simp only: mult_le_mono1)
  have kt: "k * ?t \<le> unat n * ?t" using kn by simp
  have copy1: "memcpy_at dst 0 ?b ((?r + 1) * ?t) (k * ?t) =
      Some (concat (map (chunk ?t ?b) [?r + 1..<?r + 1 + k]) @ drop (k * ?t) dst)"
    using memcpy_read_slots [of "?r + 1" k ?t ?b 0 dst] le1 dst kt by (simp del: upt_Suc)
  have eb1: "unat (elem_bytes (fifo_type_size f) lc) = k * ?t"
    using unat_elem_bytes [of lc "fifo_type_size f"] kt small by (simp only: lc)
  have guard: "\<not> (fifo_rd_idx f = fifo_wr_idx f
      \<or> raw_fifo_get_count (fifo_rd_idx f) (fifo_wr_idx f) (fifo_size f) < n)" "\<not> fifo_rd_idx f < fifo_wr_idx f"
    using lt n by (auto simp add: word_less_nat_alt unat_get_count [OF inv])
  show ?thesis
  proof (cases "unat n = k")
    case True
    then have ln: "lc = n" using lc by (simp add: word_unat_eq_iff)
    have slots: "ring_slots ?s ?r (unat n) = [?r + 1..<?r + 1 + k]"
      using d(1) by (simp only: True) (rule ring_slots_linear, simp add: k_def)
    show ?thesis
      by (simp only: raw_fifo_read_n_def Let_def lc_def [symmetric] eb1 guard
          unat_slot_offset [OF d(1,6)] copy1 if_False if_True slots bind.bind_lunit)
        (simp add: ln True del: upt_Suc)
  next
    case False
    with kn have kn': "k < unat n" by simp
    then have ks: "k = ?s - 1 - ?r" by (simp add: k_def)
    define wc :: u16 where "wc = word_of_int (c_min (uint (fifo_wr_idx f) + 1) (uint n - uint lc))"
    have wn: "unat n - k \<le> ?w + 1" using n len ks d by simp
    have "c_min (uint (fifo_wr_idx f) + 1) (uint n - uint lc) = int (unat n - k)"
      using wn kn' by (simp add: c_min_eq_min lc of_nat_diff uint_nat del: of_nat_unat)
    moreover have "unat n - k < 65536"
      using \<open>unat n < 65536\<close> by (rule order.strict_trans1 [OF diff_le_self])
    ultimately have wc: "unat wc = unat n - k"
      unfolding wc_def by (intro unat_u16_of_int_eq)
    have nk: "(unat n - k) * ?t \<le> unat n * ?t" by simp
    have eb2: "unat (elem_bytes (fifo_type_size f) wc) = (unat n - k) * ?t"
      using unat_elem_bytes [of wc "fifo_type_size f"] nk small by (simp only: wc)
    let ?d1 = "concat (map (chunk ?t ?b) [?r + 1..<?r + 1 + k]) @ drop (k * ?t) dst"
    have l1: "length (concat (map (chunk ?t ?b) [?r + 1..<?r + 1 + k])) = k * ?t"
      using le1 by (simp only: concat_chunks_from [OF le1] length_take length_drop)
        (simp add: algebra_simps)
    have "(0 + (unat n - k)) * ?t \<le> length ?b"
      using wn d lt' by (simp add: order.strict_trans1)
    moreover have "(k + (unat n - k)) * ?t \<le> length ?d1"
      using kn' dst kt by (simp only: length_append l1 length_drop) simp
    ultimately have copy2: "memcpy_at ?d1 (k * ?t) ?b 0 ((unat n - k) * ?t) =
        Some (concat (map (chunk ?t ?b) [?r + 1..<?r + 1 + k])
          @ concat (map (chunk ?t ?b) [0..<unat n - k]) @ drop (unat n * ?t) dst)"
      using memcpy_read_slots [of 0 "unat n - k" ?t ?b k ?d1] kn' l1
      by (simp add: diff_mult_distrib del: upt_Suc)
    have slots: "ring_slots ?s ?r (unat n) = [?r + 1..<?r + 1 + k] @ [0..<unat n - k]"
      using ring_slots_wrap [of ?r ?s "unat n"] n len lt' ks kn' d by (simp add: add.commute)
    have ret: "word_of_int (uint lc + uint wc) = n"
      using kn' by (intro word_of_int_add_eq) (simp add: lc wc)
    have "lc < n" using lc kn' by (simp add: word_less_nat_alt)
    then show ?thesis
      by (simp only: raw_fifo_read_n_def Let_def lc_def [symmetric] wc_def [symmetric] eb1 eb2 guard
          unat_slot_offset [OF d(1,6)] copy1 copy2 ret slots if_False if_True bind.bind_lunit)
        simp
  qed
qed

text \<open>The read of the code, in one statement.\<close>

lemma raw_fifo_read_n_ok:
  assumes inv: "fifo_inv f" and n: "unat n \<le> fifo_len f"
    and small: "unat n * fts f < 65536" and dst: "unat n * fts f \<le> length dst"
  shows "raw_fifo_read_n f dst n (fifo_rd_idx f) (fifo_wr_idx f) =
    Some (n, concat (take (unat n) (fifo_elems f)) @ drop (unat n * fts f) dst)"
proof -
  have e: "concat (take (unat n) (fifo_elems f)) =
      concat (map (chunk (fts f) (fifo_buffer f)) (ring_slots (fsz f) (frd f) (unat n)))"
    using n by (simp add: fifo_elems_def take_map ring_slots_take)
  show ?thesis
  proof (cases "fifo_rd_idx f = fifo_wr_idx f")
    case True
    then have "fifo_len f = 0" using inv by (simp add: fifo_len_0_iff)
    with n have "n = 0" by (simp add: unat_eq_0_iff)
    with True show ?thesis by (simp add: raw_fifo_read_n_def)
  next
    case False
    then consider "fifo_rd_idx f < fifo_wr_idx f" | "fifo_wr_idx f < fifo_rd_idx f"
      by (meson linorder_neqE)
    then show ?thesis
      using raw_fifo_read_n_linear [OF inv n _ small dst] raw_fifo_read_n_wrapped [OF inv n _ small dst]
      by cases (simp_all only: e)
  qed
qed

section \<open>Writing\<close>

lemma raw_fifo_write_n_refuse:
  assumes "fifo_inv f" and "fsz f - 1 - fifo_len f < unat n"
  shows "raw_fifo_write_n f src n (fifo_rd_idx f) (fifo_wr_idx f) = Some (0, f)"
  using assms by (simp add: raw_fifo_write_n_def word_less_nat_alt unat_get_free_space Let_def)

text \<open>What a write has to do to the slots of the buffer: fill the \<open>n\<close> slots that follow \<open>wr_idx\<close>
  with the elements of \<open>src\<close> and touch no other.\<close>

definition slots_written :: "hydra_fifo \<Rightarrow> u8 list \<Rightarrow> nat \<Rightarrow> u8 list \<Rightarrow> bool" where
  "slots_written f src n b \<longleftrightarrow> length b = length (fifo_buffer f) \<and>
     map (chunk (fts f) b) (ring_slots (fsz f) (fwr f) n) = chunks (fts f) src n \<and>
     (\<forall>i. i \<notin> set (ring_slots (fsz f) (fwr f) n) \<longrightarrow>
        chunk (fts f) b i = chunk (fts f) (fifo_buffer f) i)"

lemma slots_written_linear:
  assumes inv: "fifo_inv f" and fit: "fwr f + n < fsz f" and src: "n * fts f \<le> length src"
  shows "\<exists>b. memcpy_at (fifo_buffer f) ((fwr f + 1) * fts f) src 0 (n * fts f) = Some b \<and>
    slots_written f src n b"
proof -
  note d = fifo_invD [OF inv]
  have "fwr f + 1 + n \<le> fsz f" using fit by simp
  then have le: "(fwr f + 1 + n) * fts f \<le> length (fifo_buffer f)"
    using d by (simp only: mult_le_mono1)
  obtain b where b: "memcpy_at (fifo_buffer f) ((fwr f + 1) * fts f) src 0 (n * fts f) = Some b"
    and len: "length b = length (fifo_buffer f)"
    and ch: "\<And>i. chunk (fts f) b i = (if fwr f + 1 \<le> i \<and> i < fwr f + 1 + n
      then chunk (fts f) src (i - (fwr f + 1)) else chunk (fts f) (fifo_buffer f) i)"
    using memcpy_at_chunks [OF le, of 0 src] src by auto
  have sl: "ring_slots (fsz f) (fwr f) n = [fwr f + 1..<fwr f + 1 + n]"
    using fit by (rule ring_slots_linear)
  have "slots_written f src n b"
    unfolding slots_written_def sl using len
    by (auto simp: ch chunks_def intro!: nth_equalityI)
  with b show ?thesis by blast
qed

lemma slots_written_wrapped:
  assumes inv: "fifo_inv f" and k: "k = fsz f - 1 - fwr f" and kn: "k < n"
    and fit: "n - k \<le> frd f" and rw: "frd f \<le> fwr f" and src: "n * fts f \<le> length src"
  shows "\<exists>b1 b2. memcpy_at (fifo_buffer f) ((fwr f + 1) * fts f) src 0 (k * fts f) = Some b1 \<and>
    memcpy_at b1 0 src (k * fts f) ((n - k) * fts f) = Some b2 \<and> slots_written f src n b2"
proof -
  note d = fifo_invD [OF inv]
  let ?t = "fts f"
  have "fwr f + 1 + k \<le> fsz f" using d k by simp
  then have le1: "(fwr f + 1 + k) * ?t \<le> length (fifo_buffer f)"
    using d by (simp only: mult_le_mono1)
  have "k * ?t \<le> n * ?t" using kn by simp
  from order.trans [OF this src] have le2: "(0 + k) * ?t \<le> length src" by (simp only: add_0)
  from memcpy_at_chunks [OF le1 le2] obtain b1
    where b1: "memcpy_at (fifo_buffer f) ((fwr f + 1) * ?t) src 0 (k * ?t) = Some b1"
      and len1: "length b1 = length (fifo_buffer f)"
      and ch1: "\<And>i. chunk ?t b1 i = (if fwr f + 1 \<le> i \<and> i < fwr f + 1 + k
        then chunk ?t src (i - (fwr f + 1)) else chunk ?t (fifo_buffer f) i)"
    by auto
  have "n - k \<le> fsz f" using fit d by simp
  then have "(0 + (n - k)) * ?t \<le> length b1"
    using d by (simp only: len1 add_0 mult_le_mono1)
  moreover have "(k + (n - k)) * ?t \<le> length src" using kn src by simp
  ultimately obtain b2 where b2: "memcpy_at b1 0 src (k * ?t) ((n - k) * ?t) = Some b2"
      and len2: "length b2 = length b1"
      and ch2: "\<And>i. chunk ?t b2 i = (if i < n - k then chunk ?t src (k + i) else chunk ?t b1 i)"
    using memcpy_at_chunks [of 0 "n - k" ?t b1 k src] by auto
  have sl: "ring_slots (fsz f) (fwr f) n = [fwr f + 1..<fsz f] @ [0..<n - k]"
    using ring_slots_wrap [of "fwr f" "fsz f" n] k kn fit rw d by (simp add: add.commute)
  have "map (chunk ?t b2) [fwr f + 1..<fsz f] = map (chunk ?t src) [0..<k]"
    using k fit rw d by (intro nth_equalityI) (auto simp: ch1 ch2)
  moreover have "map (chunk ?t b2) [0..<n - k] = map (chunk ?t src) [k..<n]"
    by (intro nth_equalityI) (auto simp: ch2)
  moreover have "[0..<n] = [0..<k] @ [k..<n]"
    using kn upt_add_eq_append [of 0 k "n - k"] by simp
  ultimately have "slots_written f src n b2"
    unfolding slots_written_def sl chunks_def using len1 len2 k d by (auto simp: ch1 ch2)
  with b1 b2 show ?thesis by blast
qed

lemma raw_fifo_write_n_ok:
  assumes inv: "fifo_inv f" and n: "unat n \<le> fsz f - 1 - fifo_len f"
    and small: "unat n * fts f < 65536" and src: "unat n * fts f \<le> length src"
  shows "\<exists>b. raw_fifo_write_n f src n (fifo_rd_idx f) (fifo_wr_idx f) = Some (n, f\<lparr>fifo_buffer := b\<rparr>)
    \<and> slots_written f src (unat n) b"
proof -
  note d = fifo_invD [OF inv]
  let ?t = "fts f" and ?r = "frd f" and ?w = "fwr f" and ?s = "fsz f"
  have free: "\<not> raw_fifo_get_free_space (fifo_rd_idx f) (fifo_wr_idx f) (fifo_size f) < n"
    using n by (simp add: word_less_nat_alt unat_get_free_space [OF inv])
  show ?thesis
  proof (cases "fifo_wr_idx f < fifo_rd_idx f")
    case True
    then have lt: "?w < ?r" by (simp add: word_less_nat_alt)
    have "c_min (uint (raw_fifo_get_free_space (fifo_rd_idx f) (fifo_wr_idx f) (fifo_size f))) (uint n)
        = uint n"
      using free by (simp add: c_min_def word_less_def)
    then have lc: "word_of_int (c_min (uint (raw_fifo_get_free_space (fifo_rd_idx f) (fifo_wr_idx f)
        (fifo_size f))) (uint n)) = n" by simp
    have "?w + unat n < ?s" using n lt d by (simp add: fifo_len_def)
    from slots_written_linear [OF inv this src] obtain b
      where b: "memcpy_at (fifo_buffer f) ((?w + 1) * ?t) src 0 (unat n * ?t) = Some b"
        and sw: "slots_written f src (unat n) b" by blast
    have "raw_fifo_write_n f src n (fifo_rd_idx f) (fifo_wr_idx f) = Some (n, f\<lparr>fifo_buffer := b\<rparr>)"
      using True by (simp only: raw_fifo_write_n_def Let_def lc free unat_elem_bytes [OF small]
          unat_slot_offset [OF d(2,6)] b if_False if_True bind.bind_lunit)
    with sw show ?thesis by blast
  next
    case False
    then have ge: "?r \<le> ?w" by (simp add: word_less_nat_alt)
    then have len: "fifo_len f = ?w - ?r" by (simp add: fifo_len_def)
    define k where "k = min (?s - 1 - ?w) (unat n)"
    define lc :: u16 where "lc = word_of_int (c_min (uint (fifo_size f) - 1 - uint (fifo_wr_idx f)) (uint n))"
    have n16: "unat n < 65536" by (rule unat_u16_less)
    have kn: "k \<le> unat n" by (simp add: k_def)
    have "c_min (uint (fifo_size f) - 1 - uint (fifo_wr_idx f)) (uint n) = int k"
      using d by (simp add: c_min_eq_min k_def of_nat_diff of_nat_min uint_nat del: of_nat_unat)
    then have lc: "unat lc = k"
      unfolding lc_def using order.strict_trans1 [OF kn n16] by (rule unat_u16_of_int_eq)
    have kt: "k * ?t \<le> unat n * ?t" using kn by simp
    have eb1: "unat (elem_bytes (fifo_type_size f) lc) = k * ?t"
      using unat_elem_bytes [of lc "fifo_type_size f"] kt small by (simp only: lc)
    show ?thesis
    proof (cases "unat n = k")
      case True
      then have ln: "lc = n" using lc by (simp add: word_unat_eq_iff)
      have "?w + unat n < ?s" using True d k_def by simp
      from slots_written_linear [OF inv this src] obtain b
        where b: "memcpy_at (fifo_buffer f) ((?w + 1) * ?t) src 0 (k * ?t) = Some b"
          and sw: "slots_written f src (unat n) b" using True by auto
      have "raw_fifo_write_n f src n (fifo_rd_idx f) (fifo_wr_idx f) = Some (n, f\<lparr>fifo_buffer := b\<rparr>)"
        by (simp only: raw_fifo_write_n_def Let_def lc_def [symmetric] eb1 free False
            unat_slot_offset [OF d(2,6)] b if_False if_True bind.bind_lunit)
          (simp add: ln)
      with sw show ?thesis by blast
    next
      case nk: False
      with kn have kn': "k < unat n" by simp
      then have ks: "k = ?s - 1 - ?w" by (simp add: k_def)
      have fit: "unat n - k \<le> ?r" using n len ge ks d by simp
      define wc :: u16 where "wc = word_of_int (c_min (uint (fifo_rd_idx f)) (uint n - uint lc))"
      have "c_min (uint (fifo_rd_idx f)) (uint n - uint lc) = int (unat n - k)"
        using fit kn' by (simp add: c_min_eq_min lc of_nat_diff uint_nat del: of_nat_unat)
      then have wc: "unat wc = unat n - k"
        unfolding wc_def using order.strict_trans1 [OF diff_le_self n16] by (rule unat_u16_of_int_eq)
      have "(unat n - k) * ?t \<le> unat n * ?t" by simp
      then have eb2: "unat (elem_bytes (fifo_type_size f) wc) = (unat n - k) * ?t"
        using unat_elem_bytes [of wc "fifo_type_size f"] small by (simp only: wc)
      from slots_written_wrapped [OF inv ks kn' fit ge src] obtain b1 b2
        where b: "memcpy_at (fifo_buffer f) ((?w + 1) * ?t) src 0 (k * ?t) = Some b1"
          "memcpy_at b1 0 src (k * ?t) ((unat n - k) * ?t) = Some b2"
          and sw: "slots_written f src (unat n) b2" by blast
      have ret: "word_of_int (uint lc + uint wc) = n"
        using kn' by (intro word_of_int_add_eq) (simp add: lc wc)
      have "lc < n" using lc kn' by (simp add: word_less_nat_alt)
      then have "raw_fifo_write_n f src n (fifo_rd_idx f) (fifo_wr_idx f) = Some (n, f\<lparr>fifo_buffer := b2\<rparr>)"
        by (simp only: raw_fifo_write_n_def Let_def lc_def [symmetric] wc_def [symmetric] eb1 eb2 free
            False unat_slot_offset [OF d(2,6)] b ret if_False if_True bind.bind_lunit)
      with sw show ?thesis by blast
    qed
  qed
qed


section \<open>The operations on the list of elements\<close>

text \<open>Moving \<open>rd_idx\<close> or \<open>wr_idx\<close> by \<open>k\<close> slots.\<close>

definition ring_dist :: "nat \<Rightarrow> nat \<Rightarrow> nat \<Rightarrow> nat" where
  "ring_dist r w sz = (if r \<le> w then w - r else sz - r + w)"

lemma fifo_len_ring_dist: "fifo_len f = ring_dist (frd f) (fwr f) (fsz f)"
  by (simp add: fifo_len_def ring_dist_def)

lemma mod_once: "sz \<le> i \<Longrightarrow> i < sz + sz \<Longrightarrow> i mod sz = i - (sz :: nat)"
  by (simp add: le_mod_geq)

lemma ring_dist_le: "r \<le> w \<Longrightarrow> ring_dist r w sz = w - r"
  by (simp add: ring_dist_def)

lemma ring_dist_gt: "w < r \<Longrightarrow> ring_dist r w sz = sz - r + w"
  by (simp add: ring_dist_def)

lemma ring_dist_rd:
  assumes r: "r < sz" and w: "w < sz" and k: "k \<le> ring_dist r w sz"
  shows "ring_dist ((r + k) mod sz) w sz = ring_dist r w sz - k"
proof (cases "r \<le> w")
  case True
  with k have rk: "r + k \<le> w" by (simp add: ring_dist_le)
  with w have "(r + k) mod sz = r + k" by simp
  with rk True show ?thesis by (simp add: ring_dist_le)
next
  case False
  then have gt: "w < r" by simp
  then have k': "k \<le> sz - r + w" using k by (simp only: ring_dist_gt [OF gt])
  show ?thesis
  proof (cases "r + k < sz")
    case True
    moreover have "w < r + k" using gt by simp
    ultimately show ?thesis using gt by (simp only: mod_less ring_dist_gt)
  next
    case False
    with k' r w have m: "(r + k) mod sz = r + k - sz" by (intro mod_once) linarith+
    have "r + k - sz \<le> w" using k' r by linarith
    with gt show ?thesis using False r by (simp only: m ring_dist_gt ring_dist_le)
  qed
qed

lemma ring_dist_wr:
  assumes r: "r < sz" and w: "w < sz" and k: "k \<le> sz - 1 - ring_dist r w sz"
  shows "ring_dist r ((w + k) mod sz) sz = ring_dist r w sz + k"
proof (cases "r \<le> w")
  case le: True
  then have k': "k \<le> sz - 1 - (w - r)" using k by (simp only: ring_dist_le)
  show ?thesis
  proof (cases "w + k < sz")
    case True
    moreover have "r \<le> w + k" using le by simp
    ultimately show ?thesis using le by (simp only: mod_less ring_dist_le)
  next
    case False
    with k' r w le have m: "(w + k) mod sz = w + k - sz" by (intro mod_once) linarith+
    have "w + k - sz < r" using k' r w le False by linarith
    with le show ?thesis using False r by (simp add: m ring_dist_gt ring_dist_le)
  qed
next
  case False
  then have gt: "w < r" by simp
  then have k': "k \<le> sz - 1 - (sz - r + w)" using k by (simp only: ring_dist_gt [OF gt])
  have n: "w + k < r" using k' gt r by linarith
  with r have "(w + k) mod sz = w + k" by simp
  with n gt show ?thesis by (simp only: ring_dist_gt)
qed

lemma fifo_inv_rd:
  assumes "fifo_inv f"
  shows "fifo_inv (f\<lparr>fifo_rd_idx := of_nat (i mod fsz f)\<rparr>)"
proof -
  have "unat (of_nat (i mod fsz f) :: u16) < fsz f"
    using fifo_invD(4) [OF assms] by (simp add: unat_ring_idx)
  then show ?thesis using assms by (simp only: fifo_inv_def) simp
qed

lemma fifo_len_rd:
  assumes "fifo_inv f" and "k \<le> fifo_len f"
  shows "fifo_len (f\<lparr>fifo_rd_idx := of_nat ((frd f + k) mod fsz f)\<rparr>) = fifo_len f - k"
  using assms fifo_invD [OF assms(1)] ring_dist_rd [of "frd f" "fsz f" "fwr f" k]
  by (simp add: fifo_len_ring_dist unat_ring_idx)

lemma fifo_elems_rd:
  assumes "fifo_inv f" and "k \<le> fifo_len f"
  shows "fifo_elems (f\<lparr>fifo_rd_idx := of_nat ((frd f + k) mod fsz f)\<rparr>) = drop k (fifo_elems f)"
  using fifo_len_rd [OF assms] fifo_invD [OF assms(1)] assms(2)
  by (simp add: fifo_elems_def unat_ring_idx drop_map ring_slots_drop)

lemma fifo_len_wr:
  assumes "fifo_inv f" and "k \<le> fsz f - 1 - fifo_len f"
  shows "fifo_len (f\<lparr>fifo_buffer := b, fifo_wr_idx := of_nat ((fwr f + k) mod fsz f)\<rparr>) = fifo_len f + k"
  using assms fifo_invD [OF assms(1)] ring_dist_wr [of "frd f" "fsz f" "fwr f" k]
  by (simp add: fifo_len_ring_dist unat_ring_idx)

text \<open>The slots that a write fills are free: none of them holds an element.\<close>

lemma ring_slots_wr_disjoint:
  assumes "fifo_inv f" and "k \<le> fsz f - 1 - fifo_len f"
  shows "set (ring_slots (fsz f) (frd f) (fifo_len f)) \<inter> set (ring_slots (fsz f) (fwr f) k) = {}"
proof -
  have "distinct (ring_slots (fsz f) (frd f) (fifo_len f + k))"
    using assms fifo_invD [OF assms(1)] fifo_len_less [OF assms(1)] by (intro ring_slots_distinct) auto
  then show ?thesis
    by (simp add: ring_slots_add fifo_len_mod [OF assms(1)])
qed

lemma fifo_elems_wr:
  assumes inv: "fifo_inv f" and k: "k \<le> fsz f - 1 - fifo_len f" and sw: "slots_written f src k b"
  shows "fifo_elems (f\<lparr>fifo_buffer := b, fifo_wr_idx := of_nat ((fwr f + k) mod fsz f)\<rparr>) =
    fifo_elems f @ chunks (fts f) src k"
proof -
  note len = fifo_len_wr [OF inv k, of b]
  have "map (chunk (fts f) b) (ring_slots (fsz f) (frd f) (fifo_len f)) =
      map (chunk (fts f) (fifo_buffer f)) (ring_slots (fsz f) (frd f) (fifo_len f))"
    using sw ring_slots_wr_disjoint [OF inv k] by (auto simp: slots_written_def)
  then show ?thesis
    using sw by (simp add: fifo_elems_def len ring_slots_add fifo_len_mod [OF inv] slots_written_def)
qed

lemma fifo_inv_wr:
  assumes "fifo_inv f" and "length b = length (fifo_buffer f)"
  shows "fifo_inv (f\<lparr>fifo_buffer := b, fifo_wr_idx := of_nat (i mod fsz f)\<rparr>)"
proof -
  have "unat (of_nat (i mod fsz f) :: u16) < fsz f"
    using fifo_invD(4) [OF assms(1)] by (simp add: unat_ring_idx)
  then show ?thesis using assms by (simp only: fifo_inv_def) simp
qed

lemma fifo_read_n_take:
  assumes inv: "fifo_inv f" and c: "crit_ok c" and n: "unat n \<le> length (fifo_elems f)"
    and small: "unat n * fts f < 65536" and dst: "unat n * fts f \<le> length dst"
  shows "\<exists>f'. fifo_read_n c f dst n =
      Some (n, concat (take (unat n) (fifo_elems f)) @ drop (unat n * fts f) dst, f', c) \<and>
    fifo_inv f' \<and> fifo_elems f' = drop (unat n) (fifo_elems f) \<and> fsz f' = fsz f \<and> fts f' = fts f"
proof -
  let ?f' = "f\<lparr>fifo_rd_idx := of_nat ((frd f + unat n) mod fsz f)\<rparr>"
  have n': "unat n \<le> fifo_len f" using n by simp
  have "fifo_read_n c f dst n =
      Some (n, concat (take (unat n) (fifo_elems f)) @ drop (unat n * fts f) dst, ?f', c)"
    using c fifo_invD [OF inv] by (simp add: fifo_read_n_def Let_def raw_fifo_read_n_ok [OF inv n' small dst]
        raw_fifo_advance_read_def advance_idx_eq)
  then show ?thesis using fifo_inv_rd [OF inv] fifo_elems_rd [OF inv n'] by simp
qed

lemma fifo_read_n_refuse:
  assumes inv: "fifo_inv f" and c: "crit_ok c" and n: "length (fifo_elems f) < unat n"
  shows "fifo_read_n c f dst n = Some (0, dst, f, c)"
proof -
  have "frd f mod fsz f = frd f" using fifo_invD [OF inv] by simp
  then show ?thesis
    using c n fifo_invD [OF inv] by (simp add: fifo_read_n_def Let_def raw_fifo_read_n_refuse [OF inv]
        raw_fifo_advance_read_def advance_idx_eq)
qed

text \<open>
  C9. \<open>fifo_read_n\<close> is all-or-nothing on the list of elements: with \<open>n\<close> elements there it copies
  the first \<open>n\<close> of them to the start of \<open>dst\<close> and removes them, otherwise it returns 0 and changes
  neither the queue nor \<open>dst\<close>. It never leaves the buffer, keeps the invariant and leaves the
  critical section balanced.
\<close>

theorem fifo_read_n_refines:
  assumes "fifo_inv f" and "crit_ok c" and "unat n * fts f < 65536" and "unat n * fts f \<le> length dst"
  shows "\<exists>f'. fifo_read_n c f dst n = (if unat n \<le> length (fifo_elems f)
      then Some (n, concat (take (unat n) (fifo_elems f)) @ drop (unat n * fts f) dst, f', c)
      else Some (0, dst, f', c)) \<and> fifo_inv f' \<and>
    fifo_elems f' = (if unat n \<le> length (fifo_elems f) then drop (unat n) (fifo_elems f) else fifo_elems f)"
proof (cases "unat n \<le> length (fifo_elems f)")
  case True
  then show ?thesis using fifo_read_n_take [OF assms(1,2) True assms(3,4)] by auto
next
  case False
  then show ?thesis using fifo_read_n_refuse [OF assms(1,2)] assms(1) by auto
qed

lemma fifo_read_is_read_n: "fifo_read c f dst = fifo_read_n c f dst (fifo_count f)"
  by (simp add: fifo_read_def fifo_read_n_def fifo_count_def Let_def)

lemma fifo_peek_n_is_read_n:
  assumes "fifo_inv f"
  shows "fifo_peek_n c f dst n = map_option (\<lambda>(k, d, _, c'). (k, d, c')) (fifo_read_n c f dst n)"
  using fifo_invD [OF assms]
  by (cases "raw_fifo_read_n f dst n (fifo_rd_idx f) (fifo_wr_idx f)")
    (auto simp: fifo_peek_n_def fifo_read_n_def Let_def raw_fifo_advance_read_def advance_idx_eq)

lemma fifo_peek_n_take:
  assumes "fifo_inv f" and "crit_ok c" and "unat n \<le> length (fifo_elems f)"
    and "unat n * fts f < 65536" and "unat n * fts f \<le> length dst"
  shows "fifo_peek_n c f dst n =
    Some (n, concat (take (unat n) (fifo_elems f)) @ drop (unat n * fts f) dst, c)"
  using fifo_read_n_take [OF assms] by (auto simp: fifo_peek_n_is_read_n [OF assms(1)])

lemma fifo_peek_n_refuse:
  assumes "fifo_inv f" and "crit_ok c" and "length (fifo_elems f) < unat n"
  shows "fifo_peek_n c f dst n = Some (0, dst, c)"
  using fifo_read_n_refuse [OF assms] by (simp add: fifo_peek_n_is_read_n [OF assms(1)])

lemma fifo_write_append:
  assumes inv: "fifo_inv f" and c: "crit_ok c" and n: "unat n \<le> fsz f - 1 - length (fifo_elems f)"
    and small: "unat n * fts f < 65536" and src: "unat n * fts f \<le> length src"
  shows "\<exists>f'. fifo_write c f src n = Some (n, f', c) \<and> fifo_inv f' \<and>
    fifo_elems f' = fifo_elems f @ chunks (fts f) src (unat n) \<and> fsz f' = fsz f \<and> fts f' = fts f"
proof -
  have n': "unat n \<le> fsz f - 1 - fifo_len f" using n by simp
  obtain b where b: "raw_fifo_write_n f src n (fifo_rd_idx f) (fifo_wr_idx f) = Some (n, f\<lparr>fifo_buffer := b\<rparr>)"
    and sw: "slots_written f src (unat n) b"
    using raw_fifo_write_n_ok [OF inv n' small src] by blast
  let ?f' = "f\<lparr>fifo_buffer := b, fifo_wr_idx := of_nat ((fwr f + unat n) mod fsz f)\<rparr>"
  have "fifo_write c f src n = Some (n, ?f', c)"
    using c fifo_invD [OF inv] by (simp add: fifo_write_def Let_def b raw_fifo_advance_write_def advance_idx_eq)
  moreover have "fifo_inv ?f'" using sw by (intro fifo_inv_wr [OF inv]) (simp add: slots_written_def)
  ultimately show ?thesis using fifo_elems_wr [OF inv n' sw] by simp
qed

lemma fifo_write_refuse:
  assumes inv: "fifo_inv f" and c: "crit_ok c" and n: "fsz f - 1 - length (fifo_elems f) < unat n"
  shows "fifo_write c f src n = Some (0, f, c)"
proof -
  have "fwr f mod fsz f = fwr f" using fifo_invD [OF inv] by simp
  then show ?thesis
    using c n fifo_invD [OF inv] by (simp add: fifo_write_def Let_def raw_fifo_write_n_refuse [OF inv]
        raw_fifo_advance_write_def advance_idx_eq)
qed

text \<open>
  C10. \<open>fifo_write\<close> is all-or-nothing: with room for \<open>n\<close> more elements (the capacity is one less
  than the number of slots) it appends the \<open>n\<close> elements of \<open>src\<close>, otherwise it returns 0 and changes
  nothing. It never leaves the buffer, keeps the invariant and the critical section balanced.
\<close>

theorem fifo_write_refines:
  assumes "fifo_inv f" and "crit_ok c" and "unat n * fts f < 65536" and "unat n * fts f \<le> length src"
  shows "\<exists>f'. fifo_write c f src n =
      Some (if length (fifo_elems f) + unat n < fsz f then n else 0, f', c) \<and> fifo_inv f' \<and>
    fifo_elems f' = (if length (fifo_elems f) + unat n < fsz f
      then fifo_elems f @ chunks (fts f) src (unat n) else fifo_elems f)"
proof (cases "length (fifo_elems f) + unat n < fsz f")
  case True
  then have "unat n \<le> fsz f - 1 - length (fifo_elems f)" by linarith
  from fifo_write_append [OF assms(1,2) this assms(3,4)] show ?thesis
    by (simp only: True if_True) blast
next
  case False
  have "fsz f - 1 - length (fifo_elems f) < unat n"
    using fifo_len_less [OF assms(1)] False by simp
  from fifo_write_refuse [OF assms(1,2) this] show ?thesis
    using assms(1) by (simp only: False if_False) blast
qed

text \<open>Clearing, and the queue a definition starts with.\<close>

lemma fifo_clean_empties:
  assumes inv: "fifo_inv f" and c: "crit_ok c"
  shows "\<exists>f'. fifo_clean c f = Some (f', c) \<and> fifo_inv f' \<and> fifo_elems f' = [] \<and>
    fsz f' = fsz f \<and> fts f' = fts f"
proof -
  note d = fifo_invD [OF inv]
  have "unat (ucast (fifo_size f) :: u32) * fts f < 2 ^ LENGTH(32)" using d(6) by simp
  then have nb: "unat (ucast (fifo_size f) * fifo_type_size f :: u32) = fsz f * fts f"
    by (subst unat_mult_lem [THEN iffD1]) simp_all
  let ?f' = "f\<lparr>fifo_buffer := replicate (fsz f * fts f) 0, fifo_rd_idx := 0, fifo_wr_idx := 0\<rparr>"
  have "fifo_clean c f = Some (?f', c)"
    using c d by (simp add: fifo_clean_def Let_def nb)
  moreover have "fifo_inv ?f'" using inv by (simp add: fifo_inv_def)
  moreover have "fifo_elems ?f' = []" by (simp add: fifo_elems_def fifo_len_def ring_slots_def)
  ultimately show ?thesis by simp
qed

lemma fifo_def_empty:
  assumes "n + 1 < 65536" and "tsize \<noteq> 0" and "(n + 1) * unat tsize < 2 ^ 32"
  shows "fifo_inv (hydra_fifo_def tsize n) \<and> fifo_elems (hydra_fifo_def tsize n) = []"
proof -
  have "unat (of_nat (n + 1) :: u16) = n + 1" using assms(1) by (rule unat_of_nat_u16)
  moreover have "0 < unat tsize" using assms(2) by (simp add: unat_gt_0)
  ultimately show ?thesis
    using assms(3) by (simp add: hydra_fifo_def_def fifo_inv_def fifo_elems_def fifo_len_def ring_slots_def del: of_nat_Suc of_nat_add)
qed


text \<open>Sixteen-byte elements in a queue of three slots, used by the concrete instances below.\<close>

definition fifo_demo :: hydra_fifo where
  "fifo_demo = \<lparr>fifo_buffer = [1, 2, 3, 4, 5, 6], fifo_size = 3, fifo_type_size = 2,
     fifo_rd_idx = 2, fifo_wr_idx = 1\<rparr>"

lemma fifo_demo_inv: "fifo_inv fifo_demo" and fifo_demo_elems: "fifo_elems fifo_demo = [[1, 2], [3, 4]]"
  by (simp_all add: fifo_demo_def fifo_inv_def fifo_elems_def fifo_len_def ring_slots_def chunk_def
      upt_conv_Cons)

lemma fifo_demo_fields: "fts fifo_demo = 2" "fsz fifo_demo = 3"
  by (simp_all add: fifo_demo_def)

theorem fifo_read_n_refines_witness:
  "\<exists>f'. fifo_read_n crit_init fifo_demo [0, 0, 0, 0, 0] 2 = Some (2, [1, 2, 3, 4, 0], f', crit_init)
    \<and> fifo_inv f' \<and> fifo_elems f' = []"
  using fifo_read_n_refines [of fifo_demo crit_init 2 "[0, 0, 0, 0, 0]"]
  by (simp add: fifo_demo_inv fifo_demo_elems fifo_demo_fields)

theorem fifo_write_refines_witness:
  "\<exists>f'. fifo_write crit_init fifo_demo [7, 8] 1 = Some (0, f', crit_init)
    \<and> fifo_inv f' \<and> fifo_elems f' = [[1, 2], [3, 4]]"
  using fifo_write_refines [of fifo_demo crit_init 1 "[7, 8]"]
  by (simp add: fifo_demo_inv fifo_demo_elems fifo_demo_fields)

section \<open>Round trip and the 64 KiB bound\<close>

lemma concat_chunks: "n * t \<le> length xs \<Longrightarrow> concat (chunks t xs n) = take (n * t) xs"
  using concat_chunks_from [of 0 n t xs] by (simp add: chunks_def)

text \<open>
  C24. First in, first out at the level of bytes: what \<open>fifo_write\<close> put behind the elements already
  there comes out of \<open>fifo_read_n\<close> byte for byte once those have been read, wherever the indices
  stand in the ring.
\<close>

theorem fifo_write_then_read:
  assumes "fifo_inv f" and "crit_ok c" and "length (fifo_elems f) + unat n < fsz f"
    and "length (fifo_elems f) = unat m"
    and "unat n * fts f < 65536" and "unat m * fts f < 65536"
    and "length src = unat n * fts f" and "length dst1 = unat m * fts f" and "length dst2 = unat n * fts f"
  shows "\<exists>f1 f2 f3. fifo_write c f src n = Some (n, f1, c) \<and>
    fifo_read_n c f1 dst1 m = Some (m, concat (fifo_elems f), f2, c) \<and>
    fifo_read_n c f2 dst2 n = Some (n, src, f3, c) \<and> fifo_elems f3 = []"
proof -
  have "unat n \<le> fsz f - 1 - length (fifo_elems f)" using assms(3) by linarith
  then obtain f1 where w: "fifo_write c f src n = Some (n, f1, c)" and inv1: "fifo_inv f1"
    and e1: "fifo_elems f1 = fifo_elems f @ chunks (fts f) src (unat n)" and t1: "fts f1 = fts f"
    using fifo_write_append [OF assms(1,2) _ assms(5), of src] assms(7) by fastforce
  have "unat m \<le> length (fifo_elems f1)" using e1 assms(4) by simp
  then obtain f2 where r1: "fifo_read_n c f1 dst1 m = Some (m, concat (take (unat m) (fifo_elems f1))
      @ drop (unat m * fts f1) dst1, f2, c)" and inv2: "fifo_inv f2"
    and e2: "fifo_elems f2 = drop (unat m) (fifo_elems f1)" and t2: "fts f2 = fts f1"
    using fifo_read_n_take [OF inv1 assms(2), of m dst1] assms(6,8) t1 by fastforce
  have e2': "fifo_elems f2 = chunks (fts f) src (unat n)" using e1 e2 assms(4) by simp
  then obtain f3 where r2: "fifo_read_n c f2 dst2 n = Some (n, concat (take (unat n) (fifo_elems f2))
      @ drop (unat n * fts f2) dst2, f3, c)" and e3: "fifo_elems f3 = drop (unat n) (fifo_elems f2)"
    using fifo_read_n_take [OF inv2 assms(2), of n dst2] assms(5,9) t1 t2 by fastforce
  have "concat (fifo_elems f2) = src" using assms(7) by (simp add: e2' concat_chunks)
  then show ?thesis using w r1 r2 e1 e2' e3 t1 t2 assms(4,8,9) by simp
qed

theorem fifo_write_then_read_witness:
  "\<exists>f1 f2 f3. fifo_write crit_init (fifo_demo\<lparr>fifo_wr_idx := 2\<rparr>) [7, 8, 9, 10] 2 = Some (2, f1, crit_init) \<and>
    fifo_read_n crit_init f1 [] 0 = Some (0, [], f2, crit_init) \<and>
    fifo_read_n crit_init f2 [0, 0, 0, 0] 2 = Some (2, [7, 8, 9, 10], f3, crit_init) \<and> fifo_elems f3 = []"
proof -
  let ?f = "fifo_demo\<lparr>fifo_wr_idx := 2\<rparr>"
  have "fifo_inv ?f" and e: "fifo_elems ?f = []"
    by (simp_all add: fifo_demo_def fifo_inv_def fifo_elems_def fifo_len_def ring_slots_def)
  from fifo_write_then_read [OF this(1) crit_ok_init, of 2 0 "[7, 8, 9, 10]" "[]" "[0, 0, 0, 0]"]
  show ?thesis by (simp add: e) (simp add: fifo_demo_def)
qed

text \<open>
  The byte count of a transfer is computed in an \<open>uint16_t\<close>: a write of 256 elements of 256
  bytes into a queue of 300 slots is accepted and moves \<open>wr_idx\<close> past 256 elements, but it copies
  none of their 65536 bytes.
\<close>

theorem fifo_write_64k_loses_data:
  assumes "fifo_inv f" and "fifo_rd_idx f = 0" and "fifo_wr_idx f = 0"
    and "fifo_size f = 300" and "fifo_type_size f = 256" and "crit_ok c"
  shows "fifo_write c f src 256 = Some (256, f\<lparr>fifo_wr_idx := 256\<rparr>, c)"
proof -
  have s: "slot_offset 256 0 = 256" by (simp add: slot_offset_def)
  have e: "elem_bytes 256 256 = 0" by (simp add: elem_bytes_def)
  show ?thesis
    using assms fifo_invD(5) [OF assms(1)]
    by (simp add: fifo_write_def raw_fifo_write_n_def raw_fifo_get_free_space_def c_min_def Let_def
        s e memcpy_at_def raw_fifo_advance_write_def advance_idx_def)
qed

theorem fifo_write_64k_loses_data_witness:
  "fifo_write crit_init (hydra_fifo_def 256 299) (replicate 65536 1) 256 =
    Some (256, (hydra_fifo_def 256 299)\<lparr>fifo_wr_idx := 256\<rparr>, crit_init)"
proof -
  have "fifo_inv (hydra_fifo_def 256 299)" using fifo_def_empty [of 299 256] by simp
  from fifo_write_64k_loses_data [OF this _ _ _ _ crit_ok_init, of "replicate 65536 1"] show ?thesis
    by (simp add: hydra_fifo_def_def)
qed

end
