(* ===== verification/Bounded_Queue.thy ===== *)
theory Bounded_Queue
  imports C_Base
begin

text \<open>
  The contract of a bounded FIFO queue, as the clients of \<open>memory/fifo.h\<close> use it one element at a
  time: writes are refused exactly when the queue is full, reads exactly when it is empty, and
  nothing else happens to the contents. \<open>elems\<close> is the contents, \<open>cap\<close> the capacity and \<open>ok\<close>
  the elements that may be written. \<open>Interrupt_Queue\<close> interprets the locale with the task queue of
  the library, down to the bytes of its ring buffer.
\<close>

locale bounded_queue =
  fixes inv :: "'q \<Rightarrow> bool"
    and elems :: "'q \<Rightarrow> 'e list"
    and cap :: "'q \<Rightarrow> nat"
    and ok :: "'e \<Rightarrow> bool"
    and enq :: "'e \<Rightarrow> 'q \<Rightarrow> (bool \<times> 'q) option"
    and deq :: "'q \<Rightarrow> ('e option \<times> 'q) option"
  assumes enq_room: "inv q \<Longrightarrow> ok e \<Longrightarrow> length (elems q) < cap q \<Longrightarrow>
      \<exists>q'. enq e q = Some (True, q') \<and> inv q' \<and> elems q' = elems q @ [e] \<and> cap q' = cap q"
    and enq_full: "inv q \<Longrightarrow> ok e \<Longrightarrow> length (elems q) = cap q \<Longrightarrow> enq e q = Some (False, q)"
    and deq_first: "inv q \<Longrightarrow> elems q = e # es \<Longrightarrow>
      \<exists>q'. deq q = Some (Some e, q') \<and> inv q' \<and> elems q' = es \<and> cap q' = cap q"
    and deq_empty: "inv q \<Longrightarrow> elems q = [] \<Longrightarrow> deq q = Some (None, q)"
    and elems_cap: "inv q \<Longrightarrow> length (elems q) \<le> cap q"

text \<open>A history of uses: \<open>Some e\<close> writes \<open>e\<close>, \<open>None\<close> reads. The run records, in order, the elements
  accepted and the elements delivered.\<close>

fun queue_run :: "('e \<Rightarrow> 'q \<Rightarrow> (bool \<times> 'q) option) \<Rightarrow> ('q \<Rightarrow> ('e option \<times> 'q) option) \<Rightarrow>
    'e option list \<Rightarrow> 'q \<Rightarrow> ('e list \<times> 'e list \<times> 'q) option" where
  "queue_run enq deq [] q = Some ([], [], q)"
| "queue_run enq deq (Some e # us) q = do {
     (b, q1) \<leftarrow> enq e q;
     (ins, outs, q2) \<leftarrow> queue_run enq deq us q1;
     Some (if b then e # ins else ins, outs, q2) }"
| "queue_run enq deq (None # us) q = do {
     (r, q1) \<leftarrow> deq q;
     (ins, outs, q2) \<leftarrow> queue_run enq deq us q1;
     Some (ins, case r of Some e \<Rightarrow> e # outs | None \<Rightarrow> outs, q2) }"

context bounded_queue
begin

lemma enq_total:
  assumes "inv q" and "ok e"
  obtains b q' where "enq e q = Some (b, q')" "inv q'" "cap q' = cap q"
    "elems q' = (if b then elems q @ [e] else elems q)" "b \<longleftrightarrow> length (elems q) < cap q"
proof (cases "length (elems q) < cap q")
  case True
  with enq_room [OF assms True] that show ?thesis by auto
next
  case False
  with elems_cap [OF assms(1)] have "length (elems q) = cap q" by simp
  from enq_full [OF assms this] that assms False show ?thesis by auto
qed

lemma deq_total:
  assumes "inv q"
  obtains r q' where "deq q = Some (r, q')" "inv q'" "cap q' = cap q"
    "elems q = (case r of Some e \<Rightarrow> e # elems q' | None \<Rightarrow> elems q')" "r = None \<longleftrightarrow> elems q = []"
proof (cases "elems q")
  case Nil
  from deq_empty [OF assms this] that assms Nil show ?thesis by fastforce
next
  case (Cons e es)
  from deq_first [OF assms this] that Cons show ?thesis by fastforce
qed

text \<open>Whatever the interleaving of writes and reads, none is stuck, and what was delivered followed
  by what is still queued is what was there at the start followed by what was accepted.\<close>

theorem run_fifo:
  assumes "inv q" and "\<forall>e. Some e \<in> set us \<longrightarrow> ok e"
  shows "\<exists>ins outs q'. queue_run enq deq us q = Some (ins, outs, q') \<and> inv q' \<and> cap q' = cap q \<and>
    outs @ elems q' = elems q @ ins"
  using assms
proof (induction us arbitrary: q)
  case Nil
  then show ?case by simp
next
  case (Cons u us)
  show ?case
  proof (cases u)
    case None
    from deq_total [OF Cons.prems(1)] obtain r q1 where q1: "deq q = Some (r, q1)" "inv q1" "cap q1 = cap q"
      "elems q = (case r of Some e \<Rightarrow> e # elems q1 | None \<Rightarrow> elems q1)" by metis
    from Cons.IH [OF q1(2)] Cons.prems(2) obtain ins outs q'
      where "queue_run enq deq us q1 = Some (ins, outs, q')" "inv q'" "cap q' = cap q1"
        "outs @ elems q' = elems q1 @ ins" by auto
    with q1 None show ?thesis by (cases r) auto
  next
    case (Some e)
    with Cons.prems have "ok e" by simp
    from enq_total [OF Cons.prems(1) this] obtain b q1 where q1: "enq e q = Some (b, q1)" "inv q1"
      "cap q1 = cap q" "elems q1 = (if b then elems q @ [e] else elems q)" by metis
    from Cons.IH [OF q1(2)] Cons.prems(2) obtain ins outs q'
      where "queue_run enq deq us q1 = Some (ins, outs, q')" "inv q'" "cap q' = cap q1"
        "outs @ elems q' = elems q1 @ ins" by auto
    with q1 Some show ?thesis by auto
  qed
qed

text \<open>A burst of writes into an empty queue keeps the first \<open>cap\<close> of them.\<close>

lemma run_burst:
  assumes "inv q" and "\<forall>e \<in> set es. ok e"
  shows "\<exists>q'. queue_run enq deq (map Some es) q =
      Some (take (cap q - length (elems q)) es, [], q') \<and> inv q' \<and> cap q' = cap q \<and>
    elems q' = elems q @ take (cap q - length (elems q)) es"
  using assms
proof (induction es arbitrary: q)
  case Nil
  then show ?case by simp
next
  case (Cons e es)
  then have "ok e" by simp
  from enq_total [OF Cons.prems(1) this] obtain b q1 where q1: "enq e q = Some (b, q1)" "inv q1"
    "cap q1 = cap q" "elems q1 = (if b then elems q @ [e] else elems q)"
    "b \<longleftrightarrow> length (elems q) < cap q" by metis
  from Cons.IH [OF q1(2)] Cons.prems(2) obtain q'
    where "queue_run enq deq (map Some es) q1 = Some (take (cap q1 - length (elems q1)) es, [], q')"
      "inv q'" "cap q' = cap q1" "elems q' = elems q1 @ take (cap q1 - length (elems q1)) es" by auto
  with q1 elems_cap [OF q1(2)] show ?case
    by (cases "length (elems q) < cap q") (auto simp: Suc_diff_Suc take_Cons')
qed

end

end
