(* ===== verification/Interrupt_Queue.thy ===== *)
theory Interrupt_Queue
  imports Fifo_Refinement Bounded_Queue
begin

text \<open>
  \<open>interrupt_queue/interrupt_queue.h\<close> and \<open>.c\<close>: the queue of deferred tasks that interrupt handlers
  fill and the main loop runs. A task is the C struct of 16 bytes that the code copies in and out of
  the ring buffer: \<open>in_use\<close> and its padding (never written by the code), the function, its
  argument and the cleanup function, each a 32-bit pointer in little-endian order.

  The functions behind the pointers are user code: they are the parameter \<open>call\<close> of the
  operations, which gives for a function address and an argument the effect on the whole state
  (\<open>None\<close> when the call does not return). \<open>task_queue\<close> and the interrupt switch are the first fields
  of that state; the scheduled drivers extend it with their own.
\<close>

record hydra_interrupt_queue_task =
  task_in_use :: "u8 list"
  task_task :: u32
  task_args :: u32
  task_cleanup :: u32

definition task_bytes :: "hydra_interrupt_queue_task \<Rightarrow> u8 list" where
  "task_bytes t = task_in_use t @ le32 (task_task t) @ le32 (task_args t) @ le32 (task_cleanup t)"

definition task_of_bytes :: "u8 list \<Rightarrow> hydra_interrupt_queue_task" where
  "task_of_bytes b = \<lparr>task_in_use = take 4 b, task_task = of_le32 (take 4 (drop 4 b)),
     task_args = of_le32 (take 4 (drop 8 b)), task_cleanup = of_le32 (take 4 (drop 12 b))\<rparr>"

record iq_world =
  iq_crit :: crit
  task_queue :: hydra_fifo

type_synonym 'a calls = "u32 \<Rightarrow> u32 \<Rightarrow> 'a iq_world_scheme \<Rightarrow> 'a iq_world_scheme option"

definition hydra_interrupt_queue_init :: "'a iq_world_scheme \<Rightarrow> 'a iq_world_scheme option" where
  "hydra_interrupt_queue_init w = do {
     (q, c) \<leftarrow> fifo_clean (iq_crit w) (task_queue w);
     Some (w\<lparr>iq_crit := c, task_queue := q\<rparr>) }"

text \<open>\<open>fifo_read_n(&task_queue, &task, 1)\<close>; \<open>var\<close> is what the local variable \<open>task\<close> held before.\<close>

definition task_queue_read1 ::
    "u8 list \<Rightarrow> 'a iq_world_scheme \<Rightarrow> (u16 \<times> u8 list \<times> 'a iq_world_scheme) option" where
  "task_queue_read1 var w = do {
     (n, var1, q, c) \<leftarrow> fifo_read_n (iq_crit w) (task_queue w) var 1;
     Some (n, var1, w\<lparr>iq_crit := c, task_queue := q\<rparr>) }"

definition hydra_interrupt_queue_run ::
    "'a calls \<Rightarrow> u8 list \<Rightarrow> 'a iq_world_scheme \<Rightarrow> 'a iq_world_scheme option" where
  "hydra_interrupt_queue_run call var w = do {
     (n, var1, w1) \<leftarrow> task_queue_read1 var w;
     let t = task_of_bytes var1;
     if n \<noteq> 0 then do {
       w2 \<leftarrow> call (task_task t) (task_args t) w1;
       if task_cleanup t \<noteq> 0 then call (task_cleanup t) (task_args t) w2 else Some w2 }
     else Some w1 }"

partial_function (option) hydra_interrupt_queue_free_all ::
    "'a calls \<Rightarrow> u8 list \<Rightarrow> 'a iq_world_scheme \<Rightarrow> 'a iq_world_scheme option" where
  "hydra_interrupt_queue_free_all call var w = do {
     (n, var1, w1) \<leftarrow> task_queue_read1 var w;
     if n \<noteq> 0 then do {
       w2 \<leftarrow> (if task_cleanup (task_of_bytes var1) \<noteq> 0
               then call (task_cleanup (task_of_bytes var1)) (task_args (task_of_bytes var1)) w1
               else Some w1);
       hydra_interrupt_queue_free_all call var1 w2 }
     else Some w1 }"

text \<open>\<open>in_use\<close> is the four bytes of the local variable that the code leaves as they are.\<close>

definition hydra_interrupt_queue_set_next_task ::
    "u8 list \<Rightarrow> u32 \<Rightarrow> u32 \<Rightarrow> u32 \<Rightarrow> 'a iq_world_scheme \<Rightarrow> (bool \<times> 'a iq_world_scheme) option" where
  "hydra_interrupt_queue_set_next_task in_use func args cleanup w =
     (let task = \<lparr>task_in_use = in_use, task_task = func, task_args = args, task_cleanup = cleanup\<rparr>
      in do { (written, q, c) \<leftarrow> fifo_write (iq_crit w) (task_queue w) (task_bytes task) 1;
              let w1 = w\<lparr>iq_crit := c, task_queue := q\<rparr>;
              if written = 0 then Some (False, w1) else Some (True, w1) })"

definition hydra_interrupt_queue_peek_next_task_prio0 ::
    "u8 list \<Rightarrow> 'a iq_world_scheme \<Rightarrow>
     (bool \<times> hydra_interrupt_queue_task \<times> 'a iq_world_scheme) option" where
  "hydra_interrupt_queue_peek_next_task_prio0 var w = do {
     (n, var1, c) \<leftarrow> fifo_peek_n (iq_crit w) (task_queue w) var 1;
     Some (n > 0, task_of_bytes var1, w\<lparr>iq_crit := c\<rparr>) }"

section \<open>Tasks and their bytes\<close>

definition task_ok :: "hydra_interrupt_queue_task \<Rightarrow> bool" where
  "task_ok t \<longleftrightarrow> length (task_in_use t) = 4"

lemma length_task_bytes: "task_ok t \<Longrightarrow> length (task_bytes t) = 16"
  by (simp add: task_ok_def task_bytes_def)

lemma task_of_bytes_task_bytes: "task_ok t \<Longrightarrow> task_of_bytes (task_bytes t) = t"
  by (simp add: task_ok_def task_bytes_def task_of_bytes_def)

section \<open>The queue as a list of tasks\<close>

definition iq_tasks :: "'a iq_world_scheme \<Rightarrow> hydra_interrupt_queue_task list" where
  "iq_tasks w = map task_of_bytes (fifo_elems (task_queue w))"

definition iq_cap :: "'a iq_world_scheme \<Rightarrow> nat" where
  "iq_cap w = fsz (task_queue w) - 1"

definition iq_inv :: "'a iq_world_scheme \<Rightarrow> bool" where
  "iq_inv w \<longleftrightarrow> fifo_inv (task_queue w) \<and> fts (task_queue w) = 16 \<and> crit_ok (iq_crit w)"

lemma iq_invD:
  assumes "iq_inv w"
  shows "fifo_inv (task_queue w)" "fts (task_queue w) = 16" "crit_ok (iq_crit w)"
  using assms by (auto simp: iq_inv_def)

lemma iq_tasks_cap: "iq_inv w \<Longrightarrow> length (iq_tasks w) \<le> iq_cap w"
  using fifo_len_less [of "task_queue w"] by (auto simp: iq_tasks_def iq_cap_def iq_inv_def)

lemma iq_crit_same: "iq_crit w = c \<Longrightarrow> w\<lparr>iq_crit := c, task_queue := q\<rparr> = w\<lparr>task_queue := q\<rparr>"
  by (cases w) simp

lemma task_queue_same: "task_queue w = q \<Longrightarrow> w\<lparr>task_queue := q\<rparr> = w"
  by (cases w) simp

lemma task_queue_read1_empty:
  assumes "iq_inv w" and "iq_tasks w = []"
  shows "task_queue_read1 var w = Some (0, var, w)"
proof -
  have "length (fifo_elems (task_queue w)) < unat (1 :: u16)" using assms(2) by (simp only: iq_tasks_def) simp
  from fifo_read_n_refuse [OF iq_invD(1,3) [OF assms(1)] this] show ?thesis
    by (simp add: task_queue_read1_def iq_crit_same task_queue_same)
qed

lemma task_queue_read1_first:
  assumes inv: "iq_inv w" and ts: "iq_tasks w = t # ts" and var: "length var = 16"
  shows "\<exists>var1 q. task_queue_read1 var w = Some (1, var1, w\<lparr>task_queue := q\<rparr>) \<and> length var1 = 16 \<and>
    task_of_bytes var1 = t \<and> iq_inv (w\<lparr>task_queue := q\<rparr>) \<and> iq_tasks (w\<lparr>task_queue := q\<rparr>) = ts \<and>
    iq_cap (w\<lparr>task_queue := q\<rparr>) = iq_cap w"
proof -
  note d = iq_invD [OF inv]
  obtain b bs where e: "fifo_elems (task_queue w) = b # bs" "task_of_bytes b = t" "map task_of_bytes bs = ts"
    using ts by (auto simp: iq_tasks_def)
  obtain q where q: "fifo_read_n (iq_crit w) (task_queue w) var 1 = Some (1, b, q, iq_crit w)"
    "fifo_inv q" "fifo_elems q = bs" "fsz q = fsz (task_queue w)" "fts q = 16"
    using fifo_read_n_take [OF d(1,3), of 1 var] d(2) e(1) var by auto
  have "b \<in> set (fifo_elems (task_queue w))" using e by simp
  then have "length b = 16" using fifo_elem_length [OF d(1)] d(2) by simp
  then show ?thesis
    using q e d by (auto simp: task_queue_read1_def iq_crit_same iq_inv_def iq_tasks_def iq_cap_def
        intro!: exI [of _ b] exI [of _ q])
qed

lemma set_next_task_room:
  assumes inv: "iq_inv w" and room: "length (iq_tasks w) < iq_cap w" and j: "length in_use = 4"
  shows "\<exists>q. hydra_interrupt_queue_set_next_task in_use func args cleanup w =
      Some (True, w\<lparr>task_queue := q\<rparr>) \<and> iq_inv (w\<lparr>task_queue := q\<rparr>) \<and>
    iq_tasks (w\<lparr>task_queue := q\<rparr>) = iq_tasks w @
      [\<lparr>task_in_use = in_use, task_task = func, task_args = args, task_cleanup = cleanup\<rparr>] \<and>
    iq_cap (w\<lparr>task_queue := q\<rparr>) = iq_cap w"
proof -
  note d = iq_invD [OF inv]
  let ?t = "\<lparr>task_in_use = in_use, task_task = func, task_args = args, task_cleanup = cleanup\<rparr>"
  have ok: "task_ok ?t" using j by (simp add: task_ok_def)
  note len = length_task_bytes [OF this]
  have "unat (1 :: u16) \<le> fsz (task_queue w) - 1 - length (fifo_elems (task_queue w))"
    using room by (simp add: iq_tasks_def iq_cap_def)
  then obtain q where q: "fifo_write (iq_crit w) (task_queue w) (task_bytes ?t) 1 = Some (1, q, iq_crit w)"
    "fifo_inv q" "fifo_elems q = fifo_elems (task_queue w) @ chunks 16 (task_bytes ?t) 1"
    "fsz q = fsz (task_queue w)" "fts q = 16"
    using fifo_write_append [OF d(1,3), of 1 "task_bytes ?t"] d(2) len by auto
  then show ?thesis
    using d len ok by (auto simp: hydra_interrupt_queue_set_next_task_def iq_crit_same iq_inv_def
        iq_tasks_def iq_cap_def chunks_1 task_of_bytes_task_bytes intro!: exI [of _ q])
qed

lemma set_next_task_full:
  assumes inv: "iq_inv w" and full: "length (iq_tasks w) = iq_cap w"
  shows "hydra_interrupt_queue_set_next_task in_use func args cleanup w = Some (False, w)"
  using fifo_write_refuse [OF iq_invD(1,3) [OF inv], where n = 1] full
  by (simp add: hydra_interrupt_queue_set_next_task_def iq_crit_same task_queue_same iq_tasks_def iq_cap_def)

lemma peek_next_task:
  assumes inv: "iq_inv w" and var: "length var = 16"
  shows "hydra_interrupt_queue_peek_next_task_prio0 var w =
    Some (case iq_tasks w of [] \<Rightarrow> (False, task_of_bytes var, w) | t # _ \<Rightarrow> (True, t, w))"
proof (cases "fifo_elems (task_queue w)")
  case Nil
  then show ?thesis
    using fifo_peek_n_refuse [OF iq_invD(1,3) [OF inv], of 1 var]
    by (simp add: hydra_interrupt_queue_peek_next_task_prio0_def iq_tasks_def)
next
  case (Cons b bs)
  then have "fifo_peek_n (iq_crit w) (task_queue w) var 1 = Some (1, b, iq_crit w)"
    using fifo_peek_n_take [OF iq_invD(1,3) [OF inv], of 1 var] iq_invD(2) [OF inv] var by simp
  then show ?thesis
    using Cons by (simp add: hydra_interrupt_queue_peek_next_task_prio0_def iq_tasks_def)
qed

lemma init_empties:
  assumes "iq_inv w"
  shows "\<exists>q. hydra_interrupt_queue_init w = Some (w\<lparr>task_queue := q\<rparr>) \<and>
    iq_inv (w\<lparr>task_queue := q\<rparr>) \<and> iq_tasks (w\<lparr>task_queue := q\<rparr>) = []"
  using fifo_clean_empties [OF iq_invD(1,3) [OF assms]] iq_invD [OF assms]
  by (auto simp: hydra_interrupt_queue_init_def iq_crit_same iq_inv_def iq_tasks_def)

section \<open>The task queue is a bounded queue\<close>

definition iq_enq :: "hydra_interrupt_queue_task \<Rightarrow> 'a iq_world_scheme \<Rightarrow> (bool \<times> 'a iq_world_scheme) option" where
  "iq_enq t = hydra_interrupt_queue_set_next_task (task_in_use t) (task_task t) (task_args t) (task_cleanup t)"

definition iq_deq :: "'a iq_world_scheme \<Rightarrow> (hydra_interrupt_queue_task option \<times> 'a iq_world_scheme) option" where
  "iq_deq w = do { (n, b, w1) \<leftarrow> task_queue_read1 (replicate 16 0) w;
     Some (if n \<noteq> 0 then Some (task_of_bytes b) else None, w1) }"

interpretation iq: bounded_queue iq_inv iq_tasks iq_cap task_ok iq_enq iq_deq
proof
  fix w :: "'a iq_world_scheme" and t ts
  assume inv: "iq_inv w"
  show "length (iq_tasks w) \<le> iq_cap w" using inv by (rule iq_tasks_cap)
  show "iq_tasks w = [] \<Longrightarrow> iq_deq w = Some (None, w)"
    using inv by (simp add: iq_deq_def task_queue_read1_empty)
  show "\<exists>w'. iq_deq w = Some (Some t, w') \<and> iq_inv w' \<and> iq_tasks w' = ts \<and> iq_cap w' = iq_cap w"
    if "iq_tasks w = t # ts"
    using task_queue_read1_first [OF inv that, of "replicate 16 0"] by (auto simp: iq_deq_def)
  show "\<exists>w'. iq_enq t w = Some (True, w') \<and> iq_inv w' \<and> iq_tasks w' = iq_tasks w @ [t] \<and> iq_cap w' = iq_cap w"
    if "task_ok t" "length (iq_tasks w) < iq_cap w"
    using set_next_task_room [OF inv that(2), of "task_in_use t" "task_task t" "task_args t" "task_cleanup t"]
      that(1) by (auto simp: iq_enq_def task_ok_def)
  show "iq_enq t w = Some (False, w)" if "length (iq_tasks w) = iq_cap w"
    using set_next_task_full [OF inv that] by (simp add: iq_enq_def)
qed


text \<open>
  C18. The task queue loses, duplicates and reorders no task: in every interleaving of
  \<open>hydra_interrupt_queue_set_next_task\<close> and of the read that \<open>run\<close> and \<open>free_all\<close> start with, the
  tasks delivered followed by those still queued are the tasks that were queued followed by those
  accepted, field by field, and no operation gets stuck.
\<close>

theorem interrupt_queue_fifo:
  assumes "iq_inv w" and "\<forall>t. Some t \<in> set us \<longrightarrow> task_ok t"
  shows "\<exists>ins outs w'. queue_run iq_enq iq_deq us w = Some (ins, outs, w') \<and> iq_inv w' \<and>
    outs @ iq_tasks w' = iq_tasks w @ ins"
  using iq.run_fifo [OF assms] by blast

text \<open>
  A burst of tasks set from an empty queue of capacity \<open>iq_cap w\<close>
  (\<open>INTERRUPT_QUEUE_SIZE\<close>) queues the first \<open>iq_cap w\<close> of them in order and refuses the rest.
\<close>

theorem interrupt_queue_burst:
  assumes "iq_inv w" and "iq_tasks w = []" and "\<forall>t \<in> set ts. task_ok t"
  shows "\<exists>w'. queue_run iq_enq iq_deq (map Some ts) w = Some (take (iq_cap w) ts, [], w') \<and>
    iq_inv w' \<and> iq_tasks w' = take (iq_cap w) ts"
  using iq.run_burst [OF assms(1,3)] assms(2) by auto

section \<open>Running and dropping tasks\<close>

lemma run_empty:
  "iq_inv w \<Longrightarrow> iq_tasks w = [] \<Longrightarrow> hydra_interrupt_queue_run call var w = Some w"
  by (simp add: hydra_interrupt_queue_run_def task_queue_read1_empty Let_def)

lemma run_first:
  assumes "iq_inv w" and "iq_tasks w = t # ts" and "length var = 16"
  shows "\<exists>q. hydra_interrupt_queue_run call var w = do {
      w2 \<leftarrow> call (task_task t) (task_args t) (w\<lparr>task_queue := q\<rparr>);
      if task_cleanup t \<noteq> 0 then call (task_cleanup t) (task_args t) w2 else Some w2 } \<and>
    iq_inv (w\<lparr>task_queue := q\<rparr>) \<and> iq_tasks (w\<lparr>task_queue := q\<rparr>) = ts"
  using task_queue_read1_first [OF assms] by (auto simp: hydra_interrupt_queue_run_def Let_def)

text \<open>What a task and its cleanup do to an observation of the state, given what each call does.\<close>

definition task_effect :: "(u32 \<Rightarrow> u32 \<Rightarrow> 'o \<Rightarrow> 'o) \<Rightarrow> hydra_interrupt_queue_task \<Rightarrow> 'o \<Rightarrow> 'o" where
  "task_effect eff t x = (let y = eff (task_task t) (task_args t) x
     in if task_cleanup t \<noteq> 0 then eff (task_cleanup t) (task_args t) y else y)"

definition cleanup_effect :: "(u32 \<Rightarrow> u32 \<Rightarrow> 'o \<Rightarrow> 'o) \<Rightarrow> hydra_interrupt_queue_task \<Rightarrow> 'o \<Rightarrow> 'o" where
  "cleanup_effect eff t x = (if task_cleanup t \<noteq> 0 then eff (task_cleanup t) (task_args t) x else x)"

primrec iq_runs :: "'a calls \<Rightarrow> u8 list \<Rightarrow> nat \<Rightarrow> 'a iq_world_scheme \<Rightarrow> 'a iq_world_scheme option" where
  "iq_runs call var 0 w = Some w"
| "iq_runs call var (Suc n) w = do { w1 \<leftarrow> hydra_interrupt_queue_run call var w; iq_runs call var n w1 }"

text \<open>The function pointers a list of tasks may call lie in \<open>F\<close>.\<close>

definition tasks_in :: "u32 set \<Rightarrow> hydra_interrupt_queue_task list \<Rightarrow> bool" where
  "tasks_in F ts \<longleftrightarrow> (\<forall>t\<in>set ts. task_task t \<in> F \<and> (task_cleanup t = 0 \<or> task_cleanup t \<in> F))"

lemma tasks_in_Cons [simp]: "tasks_in F (t # ts) \<longleftrightarrow>
    task_task t \<in> F \<and> (task_cleanup t = 0 \<or> task_cleanup t \<in> F) \<and> tasks_in F ts"
  by (auto simp: tasks_in_def)

text \<open>
  C23. Every queued task is executed: when the functions of the first \<open>n\<close> tasks return and at most
  append tasks of their own, \<open>n\<close> calls of \<open>hydra_interrupt_queue_run\<close> execute these tasks, oldest
  first, each followed by its cleanup if it has one, and leave the rest of the queue in order.
\<close>

theorem interrupt_queue_run_executes:
  assumes "iq_inv w" and "length var = 16" and "n \<le> length (iq_tasks w)"
    and "tasks_in F (take n (iq_tasks w))"
    and call: "\<And>f a w. f \<in> F \<Longrightarrow> iq_inv w \<Longrightarrow> \<exists>w' ext. call f a w = Some w' \<and> iq_inv w' \<and>
      iq_tasks w' = iq_tasks w @ ext \<and> obs w' = eff f a (obs w)"
    and obs: "\<And>w q. obs (w\<lparr>task_queue := q\<rparr>) = obs w"
  shows "\<exists>w' ext. iq_runs call var n w = Some w' \<and> iq_inv w' \<and>
    iq_tasks w' = drop n (iq_tasks w) @ ext \<and> obs w' = fold (task_effect eff) (take n (iq_tasks w)) (obs w)"
  using assms(1,3,4)
proof (induction n arbitrary: w)
  case 0
  then show ?case by simp
next
  case (Suc n)
  then obtain t ts where ts: "iq_tasks w = t # ts" by (cases "iq_tasks w") auto
  with Suc.prems(3) have F: "task_task t \<in> F" "task_cleanup t = 0 \<or> task_cleanup t \<in> F"
    "tasks_in F (take n ts)" by simp_all
  from run_first [OF Suc.prems(1) ts assms(2), of call] obtain q where
    run: "hydra_interrupt_queue_run call var w = do {
      w2 \<leftarrow> call (task_task t) (task_args t) (w\<lparr>task_queue := q\<rparr>);
      if task_cleanup t \<noteq> 0 then call (task_cleanup t) (task_args t) w2 else Some w2 }"
    and q: "iq_inv (w\<lparr>task_queue := q\<rparr>)" "iq_tasks (w\<lparr>task_queue := q\<rparr>) = ts" by blast
  from call [OF F(1) q(1), of "task_args t"] obtain w2 e2
    where w2: "call (task_task t) (task_args t) (w\<lparr>task_queue := q\<rparr>) = Some w2"
    "iq_inv w2" "iq_tasks w2 = ts @ e2" "obs w2 = eff (task_task t) (task_args t) (obs w)"
    unfolding q(2) obs by blast
  obtain w4 e4 where w4: "hydra_interrupt_queue_run call var w = Some w4" "iq_inv w4"
    "iq_tasks w4 = ts @ e4" "obs w4 = task_effect eff t (obs w)"
    using run w2 F(2) call [OF _ w2(2), of "task_cleanup t" "task_args t"]
    by (cases "task_cleanup t = 0") (auto simp: task_effect_def)
  moreover from w4 Suc.prems(2) ts have "n \<le> length (iq_tasks w4)" "tasks_in F (take n (iq_tasks w4))"
    using F(3) by simp_all
  moreover note Suc.IH [OF w4(2) this]
  ultimately show ?case using Suc.prems(2) ts by auto
qed

text \<open>
  C31. \<open>hydra_interrupt_queue_free_all\<close> terminates and empties the queue, when the cleanups of the
  queued tasks return and set no tasks: it calls them all, oldest first, and no task.
\<close>

theorem interrupt_queue_free_all_cleans:
  assumes "iq_inv w" and "length var = 16" and "tasks_in F (iq_tasks w)"
    and call: "\<And>f a w. f \<in> F \<Longrightarrow> iq_inv w \<Longrightarrow> \<exists>w'. call f a w = Some w' \<and> iq_inv w' \<and>
      iq_tasks w' = iq_tasks w \<and> obs w' = eff f a (obs w)"
    and obs: "\<And>w q. obs (w\<lparr>task_queue := q\<rparr>) = obs w"
  shows "\<exists>w'. hydra_interrupt_queue_free_all call var w = Some w' \<and> iq_inv w' \<and> iq_tasks w' = [] \<and>
    obs w' = fold (cleanup_effect eff) (iq_tasks w) (obs w)"
  using assms(1,2,3)
proof (induction "iq_tasks w" arbitrary: w var)
  case Nil
  then show ?case
    by (subst hydra_interrupt_queue_free_all.simps) (simp add: task_queue_read1_empty)
next
  case (Cons t ts)
  note ts = Cons.hyps(2) [symmetric]
  with Cons.prems(3) have F: "task_cleanup t = 0 \<or> task_cleanup t \<in> F" "tasks_in F ts" by simp_all
  from task_queue_read1_first [OF Cons.prems(1) ts Cons.prems(2)] obtain var1 q where
    rd: "task_queue_read1 var w = Some (1, var1, w\<lparr>task_queue := q\<rparr>)" "length var1 = 16"
      "task_of_bytes var1 = t"
    and q: "iq_inv (w\<lparr>task_queue := q\<rparr>)" "iq_tasks (w\<lparr>task_queue := q\<rparr>) = ts" by blast
  let ?w1 = "w\<lparr>task_queue := q\<rparr>"
  obtain w2 where w2: "(if task_cleanup t \<noteq> 0 then call (task_cleanup t) (task_args t) ?w1
      else Some ?w1) = Some w2" "iq_inv w2" "iq_tasks w2 = ts" "obs w2 = cleanup_effect eff t (obs w)"
    using q F(1) call [OF _ q(1), of "task_cleanup t" "task_args t"]
    by (cases "task_cleanup t = 0") (auto simp: obs cleanup_effect_def)
  have "hydra_interrupt_queue_free_all call var w = hydra_interrupt_queue_free_all call var1 w2"
    by (subst hydra_interrupt_queue_free_all.simps)
      (simp only: rd w2(1) bind.bind_lunit prod.case one_neq_zero not_False_eq_True if_True simp_thms)
  moreover have "tasks_in F (iq_tasks w2)" using F(2) by (simp only: w2(3))
  moreover note Cons.hyps(1) [OF w2(3) [symmetric] w2(2) rd(2) this]
  ultimately show ?case using w2(3,4) ts by simp
qed

section \<open>Concrete instances\<close>

text \<open>A state with a trace of the calls made, and user functions that only record their call.\<close>

record demo_world = iq_world +
  demo_calls :: "(u32 \<times> u32) list"

definition demo_start :: demo_world where
  "demo_start = \<lparr>iq_crit = crit_init, task_queue = hydra_fifo_def 16 2, demo_calls = []\<rparr>"

definition demo_call :: "u32 \<Rightarrow> u32 \<Rightarrow> demo_world \<Rightarrow> demo_world option" where
  "demo_call f a w = Some (w\<lparr>demo_calls := demo_calls w @ [(f, a)]\<rparr>)"

definition demo_task :: "u32 \<Rightarrow> u32 \<Rightarrow> u32 \<Rightarrow> hydra_interrupt_queue_task" where
  "demo_task f a c = \<lparr>task_in_use = [0, 0, 0, 0], task_task = f, task_args = a, task_cleanup = c\<rparr>"

lemma demo_start_inv: "iq_inv demo_start" and demo_start_tasks: "iq_tasks demo_start = []"
  and demo_start_cap: "iq_cap demo_start = 2"
  using fifo_def_empty [of 2 16]
  by (simp_all add: demo_start_def iq_inv_def iq_tasks_def iq_cap_def) (simp_all add: hydra_fifo_def_def)

lemma demo_task_ok: "task_ok (demo_task f a c)"
  by (simp add: demo_task_def task_ok_def)

theorem interrupt_queue_fifo_witness:
  "\<exists>ins outs w'. queue_run iq_enq iq_deq [Some (demo_task 1 2 3), None, Some (demo_task 4 5 0)] demo_start =
     Some (ins, outs, w') \<and> iq_inv w' \<and> outs @ iq_tasks w' = ins"
  using interrupt_queue_fifo [OF demo_start_inv,
      of "[Some (demo_task 1 2 3), None, Some (demo_task 4 5 0)]"]
  by (simp add: demo_start_tasks demo_task_ok)

theorem interrupt_queue_burst_witness:
  "\<exists>w'. queue_run iq_enq iq_deq (map Some [demo_task 1 2 3, demo_task 4 5 0, demo_task 6 7 0]) demo_start =
     Some ([demo_task 1 2 3, demo_task 4 5 0], [], w') \<and>
     iq_inv w' \<and> iq_tasks w' = [demo_task 1 2 3, demo_task 4 5 0]"
  using interrupt_queue_burst [OF demo_start_inv demo_start_tasks,
      of "[demo_task 1 2 3, demo_task 4 5 0, demo_task 6 7 0]"]
  by (simp add: demo_start_cap demo_task_ok)

text \<open>Two queued tasks, the first with a cleanup.\<close>

lemma demo_two:
  obtains w :: demo_world where "iq_inv w" "iq_tasks w = [demo_task 1 2 3, demo_task 4 5 0]" "demo_calls w = []"
proof -
  obtain q where q: "iq_inv (demo_start\<lparr>task_queue := q\<rparr>)"
    "iq_tasks (demo_start\<lparr>task_queue := q\<rparr>) = [demo_task 1 2 3]" "iq_cap (demo_start\<lparr>task_queue := q\<rparr>) = 2"
    using set_next_task_room [OF demo_start_inv, of "[0, 0, 0, 0]" 1 2 3]
    by (auto simp: demo_start_tasks demo_start_cap demo_task_def)
  obtain q' where "iq_inv (demo_start\<lparr>task_queue := q\<rparr>\<lparr>task_queue := q'\<rparr>)"
    "iq_tasks (demo_start\<lparr>task_queue := q\<rparr>\<lparr>task_queue := q'\<rparr>) = [demo_task 1 2 3, demo_task 4 5 0]"
    using set_next_task_room [OF q(1), of "[0, 0, 0, 0]" 4 5 0] q(2,3) by (auto simp: demo_task_def)
  moreover have "demo_calls (demo_start\<lparr>task_queue := q\<rparr>\<lparr>task_queue := q'\<rparr>) = []"
    by (simp add: demo_start_def)
  ultimately show ?thesis using that by blast
qed

lemma demo_call_spec:
  "iq_inv w \<Longrightarrow> \<exists>w'. demo_call f a w = Some w' \<and> iq_inv w' \<and> iq_tasks w' = iq_tasks w \<and>
    demo_calls w' = demo_calls w @ [(f, a)]"
  by (simp add: demo_call_def iq_inv_def iq_tasks_def)

theorem interrupt_queue_run_executes_witness:
  "\<exists>w w'. iq_tasks w = [demo_task 1 2 3, demo_task 4 5 0] \<and>
    iq_runs demo_call (replicate 16 0) 2 w = Some w' \<and> demo_calls w' = [(1, 2), (3, 2), (4, 5)]"
proof -
  obtain w :: demo_world where w: "iq_inv w" "iq_tasks w = [demo_task 1 2 3, demo_task 4 5 0]" "demo_calls w = []"
    by (rule demo_two)
  have "\<exists>w' ext. iq_runs demo_call (replicate 16 0) 2 w = Some w' \<and> iq_inv w' \<and>
      iq_tasks w' = drop 2 (iq_tasks w) @ ext \<and>
      demo_calls w' = fold (task_effect (\<lambda>f a l. l @ [(f, a)])) (take 2 (iq_tasks w)) (demo_calls w)"
    by (rule interrupt_queue_run_executes [OF w(1), where F = UNIV])
      (use demo_call_spec in \<open>fastforce simp: w(2) tasks_in_def\<close>)+
  then show ?thesis using w by - (rule exI [of _ w], auto simp: task_effect_def demo_task_def)
qed

theorem interrupt_queue_free_all_cleans_witness:
  "\<exists>w w'. iq_tasks w = [demo_task 1 2 3, demo_task 4 5 0] \<and>
    hydra_interrupt_queue_free_all demo_call (replicate 16 0) w = Some w' \<and> iq_tasks w' = [] \<and>
    demo_calls w' = [(3, 2)]"
proof -
  obtain w :: demo_world where w: "iq_inv w" "iq_tasks w = [demo_task 1 2 3, demo_task 4 5 0]" "demo_calls w = []"
    by (rule demo_two)
  have "\<exists>w'. hydra_interrupt_queue_free_all demo_call (replicate 16 0) w = Some w' \<and> iq_inv w' \<and>
      iq_tasks w' = [] \<and>
      demo_calls w' = fold (cleanup_effect (\<lambda>f a l. l @ [(f, a)])) (iq_tasks w) (demo_calls w)"
    by (rule interrupt_queue_free_all_cleans [OF w(1), where F = UNIV])
      (use demo_call_spec in \<open>fastforce simp: w(2) tasks_in_def\<close>)+
  then show ?thesis using w by - (rule exI [of _ w], auto simp: cleanup_effect_def demo_task_def)
qed

end
