(* ===== verification/Resource_Pool.thy ===== *)
theory Resource_Pool
  imports C_Base
begin

text \<open>
  The contract the library's allocators share: a pool hands out handles that nobody owns and takes
  them back. \<open>owners\<close> counts the owners of a handle; the pools without sharing keep it at most 1,
  and \<open>shared_pool\<close> adds the operation that takes a further reference. \<open>Object_Pool\<close>, \<open>Alloc\<close>
  and \<open>Ramx_Alloc\<close> interpret the locales with the code's pools.
\<close>

locale resource_pool =
  fixes inv :: "'p \<Rightarrow> bool"
    and owners :: "'p \<Rightarrow> 'a \<Rightarrow> nat"
    and acquire :: "'q \<Rightarrow> 'p \<Rightarrow> ('a option \<times> 'p) option"
    and release :: "'a \<Rightarrow> 'p \<Rightarrow> 'p option"
  assumes acquire_total: "inv p \<Longrightarrow> \<exists>r p'. acquire q p = Some (r, p')"
    and acquire_fresh: "inv p \<Longrightarrow> acquire q p = Some (Some a, p') \<Longrightarrow>
      owners p a = 0 \<and> inv p' \<and> owners p' = (owners p)(a := 1)"
    and acquire_none: "inv p \<Longrightarrow> acquire q p = Some (None, p') \<Longrightarrow> p' = p"
    and release_owned: "inv p \<Longrightarrow> 0 < owners p a \<Longrightarrow>
      \<exists>p'. release a p = Some p' \<and> inv p' \<and> owners p' = (owners p)(a := owners p a - 1)"

locale shared_pool = resource_pool inv owners acquire release
  for inv :: "'p \<Rightarrow> bool" and owners :: "'p \<Rightarrow> 'a \<Rightarrow> nat"
    and acquire :: "'q \<Rightarrow> 'p \<Rightarrow> ('a option \<times> 'p) option" and release :: "'a \<Rightarrow> 'p \<Rightarrow> 'p option" +
  fixes share :: "'a \<Rightarrow> 'p \<Rightarrow> 'p option"
    and max_owners :: nat
  assumes share_owned: "inv p \<Longrightarrow> 0 < owners p a \<Longrightarrow> owners p a < max_owners \<Longrightarrow>
      \<exists>p'. share a p = Some p' \<and> inv p' \<and> owners p' = (owners p)(a := owners p a + 1)"

text \<open>A client that remembers the references it holds: \<open>Pool_get q\<close> asks for a
  handle with the request \<open>q\<close> (the number of blocks, where the pool has sizes), \<open>Pool_put k\<close> gives back the \<open>k\<close>-th reference and \<open>Pool_share k\<close> duplicates it; indices
  outside the list do nothing.\<close>

datatype 'q pool_use = Pool_get 'q | Pool_put nat | Pool_share nat

fun pool_step :: "('q \<Rightarrow> 'p \<Rightarrow> ('a option \<times> 'p) option) \<Rightarrow> ('a \<Rightarrow> 'p \<Rightarrow> 'p option) \<Rightarrow> ('a \<Rightarrow> 'p \<Rightarrow> 'p option) \<Rightarrow>
    'q pool_use \<Rightarrow> 'a list \<times> 'p \<Rightarrow> ('a list \<times> 'p) option" where
  "pool_step acq rel shr (Pool_get q) (hs, p) = do {
     (r, p1) \<leftarrow> acq q p;
     Some (case r of None \<Rightarrow> hs | Some a \<Rightarrow> a # hs, p1) }"
| "pool_step acq rel shr (Pool_put k) (hs, p) =
     (if k < length hs then do { p1 \<leftarrow> rel (hs ! k) p; Some (take k hs @ drop (Suc k) hs, p1) }
      else Some (hs, p))"
| "pool_step acq rel shr (Pool_share k) (hs, p) =
     (if k < length hs then do { p1 \<leftarrow> shr (hs ! k) p; Some (hs ! k # hs, p1) }
      else Some (hs, p))"

primrec pool_run :: "('q \<Rightarrow> 'p \<Rightarrow> ('a option \<times> 'p) option) \<Rightarrow> ('a \<Rightarrow> 'p \<Rightarrow> 'p option) \<Rightarrow> ('a \<Rightarrow> 'p \<Rightarrow> 'p option) \<Rightarrow>
    'q pool_use list \<Rightarrow> 'a list \<times> 'p \<Rightarrow> ('a list \<times> 'p) option" where
  "pool_run acq rel shr [] s = Some s"
| "pool_run acq rel shr (u # us) s = do { s1 \<leftarrow> pool_step acq rel shr u s; pool_run acq rel shr us s1 }"

definition unshared :: "'q pool_use \<Rightarrow> bool" where
  "unshared u = (case u of Pool_share _ \<Rightarrow> False | _ \<Rightarrow> True)"

text \<open>The histories in which a reference is duplicated only while its handle has fewer than \<open>m\<close> of
  them, however long the history is.\<close>

definition share_within :: "nat \<Rightarrow> 'q pool_use \<Rightarrow> 'a list \<Rightarrow> bool" where
  "share_within m u hs = (case u of Pool_share k \<Rightarrow> k < length hs \<longrightarrow> count_list hs (hs ! k) < m | _ \<Rightarrow> True)"

primrec shares_within :: "nat \<Rightarrow> ('q \<Rightarrow> 'p \<Rightarrow> ('a option \<times> 'p) option) \<Rightarrow> ('a \<Rightarrow> 'p \<Rightarrow> 'p option) \<Rightarrow>
    ('a \<Rightarrow> 'p \<Rightarrow> 'p option) \<Rightarrow> 'q pool_use list \<Rightarrow> 'a list \<times> 'p \<Rightarrow> bool" where
  "shares_within m acq rel shr [] s = True"
| "shares_within m acq rel shr (u # us) s = (share_within m u (fst s) \<and>
     (case pool_step acq rel shr u s of None \<Rightarrow> True | Some s1 \<Rightarrow> shares_within m acq rel shr us s1))"

lemma count_list_remove_nth:
  "k < length xs \<Longrightarrow> count_list xs a = count_list (take k xs @ drop (Suc k) xs) a + (if xs ! k = a then 1 else 0)"
proof -
  assume "k < length xs"
  then have "xs = take k xs @ xs ! k # drop (Suc k) xs" by (simp add: id_take_nth_drop)
  then have "count_list xs a = count_list (take k xs @ xs ! k # drop (Suc k) xs) a" by simp
  then show ?thesis by simp
qed

lemma count_list_nth_pos: "k < length xs \<Longrightarrow> 0 < count_list xs (xs ! k)"
  using nth_mem [of k xs] by (metis count_list_0_iff gr0I)

lemma distinct_count_list: "(\<And>a. count_list xs a \<le> 1) \<Longrightarrow> distinct xs"
proof (induction xs)
  case (Cons x xs)
  have "count_list xs a \<le> 1" for a using Cons.prems [of a] by (auto split: if_splits)
  moreover have "count_list xs x = 0" using Cons.prems [of x] by simp
  ultimately show ?case using Cons.IH by (simp add: count_list_0_iff)
qed simp

context resource_pool
begin

text \<open>The client's references are exactly the owners the pool counts, whatever the history.\<close>

definition held :: "'a list \<times> 'p \<Rightarrow> bool" where
  "held s \<longleftrightarrow> inv (snd s) \<and> owners (snd s) = count_list (fst s)"

lemma step_get_held:
  assumes "held s"
  shows "\<exists>s'. pool_step acquire release shr (Pool_get q) s = Some s' \<and> held s'"
proof (cases s)
  case (Pair hs p)
  with assms have inv: "inv p" and own: "owners p = count_list hs" by (auto simp: held_def)
  from acquire_total [OF inv] obtain r p' where acq: "acquire q p = Some (r, p')" by blast
  show ?thesis
  proof (cases r)
    case None
    with acquire_none [OF inv] acq have "p' = p" by blast
    with acq None assms Pair show ?thesis by simp
  next
    case (Some a)
    with acquire_fresh [OF inv] acq own
    have "count_list hs a = 0 \<and> inv p' \<and> owners p' = (count_list hs)(a := 1)" by simp
    then show ?thesis using acq Some by (auto simp: Pair held_def fun_eq_iff)
  qed
qed

lemma step_put_held:
  assumes "held s"
  shows "\<exists>s'. pool_step acquire release shr (Pool_put k) s = Some s' \<and> held s'"
proof (cases s)
  case (Pair hs p)
  with assms have inv: "inv p" and own: "owners p = count_list hs" by (auto simp: held_def)
  show ?thesis
  proof (cases "k < length hs")
    case True
    then have "0 < owners p (hs ! k)" by (simp only: own count_list_nth_pos)
    from release_owned [OF inv this] own count_list_remove_nth [OF True] True show ?thesis
      by (auto simp: Pair held_def fun_eq_iff)
  qed (use assms Pair in simp)
qed

lemma run_held:
  assumes "held s" and "\<forall>u\<in>set us. unshared u"
  shows "\<exists>s'. pool_run acquire release shr us s = Some s' \<and> held s'"
  using assms
proof (induction us arbitrary: s)
  case (Cons u us)
  obtain s1 where "pool_step acquire release shr u s = Some s1" "held s1"
  proof (cases u)
    case (Pool_get q)
    with step_get_held [OF Cons.prems(1), of shr q] that show ?thesis by blast
  next
    case (Pool_put k)
    with step_put_held [OF Cons.prems(1), of shr k] that show ?thesis by blast
  qed (use Cons.prems(2) in \<open>simp add: unshared_def\<close>)
  then show ?case using Cons by simp
qed simp

text \<open>In a pool without sharing nothing is handed out twice.\<close>

theorem run_distinct:
  assumes "held s" and "\<forall>u\<in>set us. unshared u" and single: "\<And>p a. inv p \<Longrightarrow> owners p a \<le> 1"
  shows "\<exists>hs p. pool_run acquire release shr us s = Some (hs, p) \<and> inv p \<and> distinct hs \<and>
    set hs = {a. owners p a = 1}"
proof -
  obtain hs p where r: "pool_run acquire release shr us s = Some (hs, p)" and h: "held (hs, p)"
    using run_held [OF assms(1,2)] by fastforce
  from h have inv: "inv p" and own: "owners p = count_list hs" by (auto simp: held_def)
  with single have le: "count_list hs a \<le> 1" for a by metis
  then have "distinct hs" by (rule distinct_count_list)
  moreover have "a \<in> set hs \<longleftrightarrow> owners p a = 1" for a
    using le [of a] count_list_0_iff [of hs a] unfolding own by linarith
  ultimately show ?thesis using r inv by blast
qed

end

context shared_pool
begin

lemma step_share_held:
  assumes "held s" and "share_within max_owners (Pool_share k) (fst s)"
  shows "\<exists>s'. pool_step acquire release share (Pool_share k) s = Some s' \<and> held s'"
proof (cases s)
  case (Pair hs p)
  with assms have inv: "inv p" and own: "owners p = count_list hs" by (auto simp: held_def)
  show ?thesis
  proof (cases "k < length hs")
    case True
    then have "0 < owners p (hs ! k)" by (simp only: own count_list_nth_pos)
    moreover have "owners p (hs ! k) < max_owners"
      using assms(2) True by (simp add: own Pair share_within_def)
    ultimately obtain p' where "share (hs ! k) p = Some p'" "inv p'"
      "owners p' = (owners p)(hs ! k := owners p (hs ! k) + 1)" using share_owned [OF inv] by blast
    then show ?thesis using True own by (auto simp: Pair held_def)
  qed (use assms Pair in simp)
qed

lemma run_shared_held:
  assumes "held s" and "shares_within max_owners acquire release share us s"
  shows "\<exists>s'. pool_run acquire release share us s = Some s' \<and> held s'"
  using assms
proof (induction us arbitrary: s)
  case (Cons u us)
  have "\<exists>s1. pool_step acquire release share u s = Some s1 \<and> held s1"
  proof (cases u)
    case (Pool_get q)
    then show ?thesis using step_get_held [OF Cons.prems(1), of share q] by simp
  next
    case (Pool_put k)
    then show ?thesis using step_put_held [OF Cons.prems(1), of share k] by simp
  next
    case (Pool_share k)
    have "share_within max_owners u (fst s)" using Cons.prems(2) by simp
    then show ?thesis using step_share_held [OF Cons.prems(1)] unfolding Pool_share by blast
  qed
  then obtain s1 where "pool_step acquire release share u s = Some s1" "held s1" by blast
  then show ?case using Cons.IH [of s1] Cons.prems(2) by simp
qed simp

text \<open>However references are shared, a handle stays allocated exactly while somebody holds it.\<close>

theorem run_shared_live:
  assumes "inv p" and "\<And>a. owners p a = 0"
    and "shares_within max_owners acquire release share us ([], p)"
  shows "\<exists>hs p'. pool_run acquire release share us ([], p) = Some (hs, p') \<and> inv p' \<and>
    (\<forall>a. owners p' a = count_list hs a)"
proof -
  have "held ([], p)" using assms(1,2) by (simp add: held_def fun_eq_iff)
  from run_shared_held [OF this assms(3)] show ?thesis by (auto simp: held_def)
qed

end

end
