(* ===== verification/Object_Pool.thy ===== *)
theory Object_Pool
  imports Critical_Section Resource_Pool
begin

text \<open>
  \<open>memory/pool.h\<close>: the fixed-size object pool \<open>hydra_pool_t\<close>. Its state is the address of the
  member array, the usage flags, the number of members and the size of one. The scans are the
  code's loops over an \<open>uint16_t\<close> index; a pointer is turned back into an index by the code's
  division, with its conversions. \<open>None\<close> is an access outside \<open>pool_manager\<close> or a division by a
  zero \<open>type_size\<close>. The lemmas show that the pool hands out distinct, non-overlapping members, and
  that it implements \<open>resource_pool\<close>.
\<close>

record hydra_pool =
  pool_members :: u32
  pool_manager :: "bool list"
  pool_size :: u16
  pool_type_size :: u32

text \<open>\<open>HYDRA_POOL_DEF\<close> with the member array at address \<open>a\<close>.\<close>

definition hydra_pool_def :: "u32 \<Rightarrow> u32 \<Rightarrow> nat \<Rightarrow> hydra_pool" where
  "hydra_pool_def a tsize n =
     \<lparr>pool_members = a, pool_manager = replicate n False, pool_size = of_nat n, pool_type_size = tsize\<rparr>"

function hydra_pool_get_from :: "u16 \<Rightarrow> hydra_pool \<Rightarrow> (u32 \<times> hydra_pool) option" where
  "hydra_pool_get_from i p =
     (if i < pool_size p then
        if unat i < length (pool_manager p) then
          if \<not> pool_manager p ! unat i
          then Some (pool_members p + ucast i * pool_type_size p,
                     p\<lparr>pool_manager := (pool_manager p)[unat i := True]\<rparr>)
          else hydra_pool_get_from (i + 1) p
        else None
      else Some (0, p))"
  by pat_completeness auto

termination
  by (relation "measure (\<lambda>(i, p). unat (pool_size p) - unat i)")
    (auto simp: unat_Suc_below word_less_nat_alt)

declare hydra_pool_get_from.simps [simp del]

definition hydra_pool_get :: "crit \<Rightarrow> hydra_pool \<Rightarrow> (u32 \<times> hydra_pool \<times> crit) option" where
  "hydra_pool_get c p =
     (let c1 = bsp_enter_critical c
      in do { (ptr, p1) \<leftarrow> hydra_pool_get_from 0 p; Some (ptr, p1, bsp_exit_critical c1) })"

definition hydra_pool_free :: "crit \<Rightarrow> hydra_pool \<Rightarrow> u32 \<Rightarrow> (hydra_pool \<times> crit) option" where
  "hydra_pool_free c p ptr =
     (if pool_type_size p = 0 then None
      else let i = (ucast ((ptr - pool_members p) div pool_type_size p) :: u16);
               c1 = bsp_enter_critical c
           in if i \<ge> pool_size p then Some (p, bsp_exit_critical c1)
              else if unat i < length (pool_manager p) then
                if \<not> pool_manager p ! unat i then Some (p, bsp_exit_critical c1)
                else Some (p\<lparr>pool_manager := (pool_manager p)[unat i := False]\<rparr>, bsp_exit_critical c1)
              else None)"

function hydra_pool_clean_from :: "u16 \<Rightarrow> hydra_pool \<Rightarrow> hydra_pool option" where
  "hydra_pool_clean_from i p =
     (if i < pool_size p then
        if unat i < length (pool_manager p)
        then hydra_pool_clean_from (i + 1) (p\<lparr>pool_manager := (pool_manager p)[unat i := False]\<rparr>)
        else None
      else Some p)"
  by pat_completeness auto

termination
  by (relation "measure (\<lambda>(i, p). unat (pool_size p) - unat i)")
    (auto simp: unat_Suc_below word_less_nat_alt)

declare hydra_pool_clean_from.simps [simp del]

definition hydra_pool_clean :: "crit \<Rightarrow> hydra_pool \<Rightarrow> mem \<Rightarrow> (hydra_pool \<times> mem \<times> crit) option" where
  "hydra_pool_clean c p m =
     (let c1 = bsp_enter_critical c
      in do { p1 \<leftarrow> hydra_pool_clean_from 0 p;
              let m1 = mem_set (pool_members p1) 0 (unat (ucast (pool_size p1) * pool_type_size p1 :: u32)) m;
              Some (p1, m1, bsp_exit_critical c1) })"

section \<open>Members and their addresses\<close>

definition pool_inv :: "hydra_pool \<Rightarrow> bool" where
  "pool_inv p \<longleftrightarrow> length (pool_manager p) = unat (pool_size p) \<and>
     array_fits (pool_members p) (pool_type_size p) (unat (pool_size p))"

abbreviation member_addr :: "hydra_pool \<Rightarrow> nat \<Rightarrow> u32" where
  "member_addr p i \<equiv> array_addr (pool_members p) (pool_type_size p) i"

text \<open>Whether the address \<open>a\<close> is that of a member in use.\<close>

definition pool_used :: "hydra_pool \<Rightarrow> u32 \<Rightarrow> bool" where
  "pool_used p a \<longleftrightarrow> (\<exists>i < unat (pool_size p). pool_manager p ! i \<and> a = member_addr p i)"

lemma pool_invD:
  assumes "pool_inv p"
  shows "length (pool_manager p) = unat (pool_size p)" "pool_type_size p \<noteq> 0"
    "array_fits (pool_members p) (pool_type_size p) (unat (pool_size p))"
  using assms by (auto simp: pool_inv_def array_fits_def)

lemma pool_used_member:
  "pool_inv p \<Longrightarrow> i < unat (pool_size p) \<Longrightarrow> pool_used p (member_addr p i) \<longleftrightarrow> pool_manager p ! i"
  using array_addr_inj [OF pool_invD(3)] by (auto simp: pool_used_def)

lemma pool_index:
  assumes "pool_inv p" and "i < unat (pool_size p)"
  shows "(ucast ((member_addr p i - pool_members p) div pool_type_size p) :: u16) = of_nat i"
  by (simp add: word_unat_eq_iff unat_ucast_u32_u16 unat_of_nat array_index [OF pool_invD(3) [OF assms(1)] assms(2)])

section \<open>Getting and freeing\<close>

lemma get_from_spec:
  assumes "length (pool_manager p) = unat (pool_size p)" and "unat i \<le> unat (pool_size p)"
  shows "hydra_pool_get_from i p =
    (if \<forall>k. unat i \<le> k \<and> k < unat (pool_size p) \<longrightarrow> pool_manager p ! k then Some (0, p)
     else let k = (LEAST k. unat i \<le> k \<and> k < unat (pool_size p) \<and> \<not> pool_manager p ! k)
          in Some (member_addr p k, p\<lparr>pool_manager := (pool_manager p)[k := True]\<rparr>))"
  using assms
proof (induction i p rule: hydra_pool_get_from.induct)
  case (1 i p)
  show ?case
  proof (cases "i < pool_size p")
    case False
    then show ?thesis
      by (subst hydra_pool_get_from.simps) (auto simp: word_less_nat_alt)
  next
    case True
    then have lt: "unat i < unat (pool_size p)" by (simp add: word_less_nat_alt)
    note s = unat_Suc_below [OF True]
    show ?thesis
    proof (cases "pool_manager p ! unat i")
      case False
      then have "(LEAST k. unat i \<le> k \<and> k < unat (pool_size p) \<and> \<not> pool_manager p ! k) = unat i"
        using lt by (intro Least_equality) auto
      then show ?thesis using False lt True "1.prems"
        by (subst hydra_pool_get_from.simps) (auto simp: array_addr_def Let_def)
    next
      case used: True
      have eq: "(unat i \<le> k \<and> k < unat (pool_size p) \<and> \<not> pool_manager p ! k) \<longleftrightarrow>
          (Suc (unat i) \<le> k \<and> k < unat (pool_size p) \<and> \<not> pool_manager p ! k)" for k
        using used by (cases "k = unat i") auto
      have eq': "(\<forall>k. unat i \<le> k \<and> k < unat (pool_size p) \<longrightarrow> pool_manager p ! k) \<longleftrightarrow>
          (\<forall>k. Suc (unat i) \<le> k \<and> k < unat (pool_size p) \<longrightarrow> pool_manager p ! k)"
        using eq by blast
      have "hydra_pool_get_from i p = hydra_pool_get_from (i + 1) p"
        using True used lt "1.prems" by (subst hydra_pool_get_from.simps) simp
      with "1.IH" [OF True] used lt "1.prems" s show ?thesis
        by (simp only: eq eq' s) simp
    qed
  qed
qed

text \<open>
  \<open>hydra_pool_get\<close> returns the free member of lowest index and marks only it used, and
  \<open>NULL\<close> exactly when every member is in use, with the pool unchanged.
\<close>

theorem hydra_pool_get_first_free:
  assumes "pool_inv p" and "crit_ok c"
  shows "hydra_pool_get c p =
    (if \<forall>k < unat (pool_size p). pool_manager p ! k then Some (0, p, c)
     else let k = (LEAST k. k < unat (pool_size p) \<and> \<not> pool_manager p ! k)
          in Some (member_addr p k, p\<lparr>pool_manager := (pool_manager p)[k := True]\<rparr>, c))"
  using assms get_from_spec [of p 0]
  by (auto simp: hydra_pool_get_def pool_inv_def Let_def)

lemma pool_get_cases:
  assumes inv: "pool_inv p" and c: "crit_ok c"
  obtains (full) "hydra_pool_get c p = Some (0, p, c)"
  | (free) k where "k < unat (pool_size p)" "\<not> pool_manager p ! k"
      "hydra_pool_get c p = Some (member_addr p k, p\<lparr>pool_manager := (pool_manager p)[k := True]\<rparr>, c)"
proof (cases "\<forall>k < unat (pool_size p). pool_manager p ! k")
  case True
  with full get_from_spec [of p 0] inv c show ?thesis
    by (simp add: hydra_pool_get_def pool_inv_def Let_def)
next
  case False
  define k where "k = (LEAST k. k < unat (pool_size p) \<and> \<not> pool_manager p ! k)"
  from False have "k < unat (pool_size p) \<and> \<not> pool_manager p ! k"
    unfolding k_def by (metis (mono_tags, lifting) LeastI_ex)
  moreover have "hydra_pool_get c p = Some (member_addr p k, p\<lparr>pool_manager := (pool_manager p)[k := True]\<rparr>, c)"
    using False get_from_spec [of p 0] inv c by (auto simp: hydra_pool_get_def pool_inv_def Let_def k_def)
  ultimately show ?thesis using free by blast
qed

lemma pool_inv_set: "pool_inv (p\<lparr>pool_manager := (pool_manager p)[k := b]\<rparr>) \<longleftrightarrow> pool_inv p"
  by (simp add: pool_inv_def)

lemma pool_used_set:
  assumes "pool_inv p" and "k < unat (pool_size p)"
  shows "pool_used (p\<lparr>pool_manager := (pool_manager p)[k := b]\<rparr>) a \<longleftrightarrow>
    (if a = member_addr p k then b else pool_used p a)"
proof -
  have len: "k < length (pool_manager p)" using assms by (simp add: pool_inv_def)
  show ?thesis
  proof (cases "a = member_addr p k")
    case True
    then show ?thesis
      using assms len array_addr_inj [OF pool_invD(3) [OF assms(1)] assms(2)] by (auto simp: pool_used_def nth_list_update)
  next
    case False
    have "(\<exists>i < unat (pool_size p). (pool_manager p)[k := b] ! i \<and> a = member_addr p i) \<longleftrightarrow>
        (\<exists>i < unat (pool_size p). pool_manager p ! i \<and> a = member_addr p i)"
      using False by (metis nth_list_update_neq)
    then show ?thesis using False by (simp add: pool_used_def)
  qed
qed

lemma pool_free_used:
  assumes "pool_inv p" and "crit_ok c" and "k < unat (pool_size p)" and "pool_manager p ! k"
  shows "hydra_pool_free c p (member_addr p k) = Some (p\<lparr>pool_manager := (pool_manager p)[k := False]\<rparr>, c)"
proof -
  have "k < 65536" using assms(3) by (rule order.strict_trans) (rule unat_u16_less)
  then have "unat (of_nat k :: u16) = k" by (rule unat_of_nat_u16)
  then show ?thesis
    using assms by (simp add: hydra_pool_free_def pool_index word_le_nat_alt pool_invD Let_def)
qed

text \<open>
  \<open>hydra_pool_free\<close> of a member just obtained gives back the pool as it was, and a second
  free of the same member changes nothing.
\<close>

theorem hydra_pool_get_free:
  assumes "pool_inv p" and "crit_ok c" and "hydra_pool_get c p = Some (a, p1, c1)" and "a \<noteq> 0"
  shows "hydra_pool_free c1 p1 a = Some (p, c) \<and> hydra_pool_free c p a = Some (p, c)"
  using assms(1,2)
proof (cases rule: pool_get_cases)
  case full
  with assms show ?thesis by simp
next
  case (free k)
  then have eq: "a = member_addr p k" "p1 = p\<lparr>pool_manager := (pool_manager p)[k := True]\<rparr>" "c1 = c"
    using assms(3) by auto
  have len: "k < length (pool_manager p)" using free(1) assms(1) by (simp add: pool_inv_def)
  have "hydra_pool_free c p1 (member_addr p1 k) = Some (p1\<lparr>pool_manager := (pool_manager p1)[k := False]\<rparr>, c)"
    using assms(1,2) free(1) len by (intro pool_free_used) (simp_all add: eq pool_inv_set)
  moreover have "p1\<lparr>pool_manager := (pool_manager p1)[k := False]\<rparr> = p"
    using free(2) len by (cases p) (simp add: eq list_update_same_conv)
  moreover have "k < 65536" using free(1) by (rule order.strict_trans) (rule unat_u16_less)
  then have "unat (of_nat k :: u16) = k" by (rule unat_of_nat_u16)
  then have "hydra_pool_free c p (member_addr p k) = Some (p, c)"
    using assms(1,2) free(1,2) by (simp add: hydra_pool_free_def pool_index word_le_nat_alt pool_invD Let_def)
  ultimately show ?thesis by (simp add: eq)
qed


section \<open>The pool as a supplier of distinct handles\<close>

definition op_inv :: "hydra_pool \<times> crit \<Rightarrow> bool" where
  "op_inv s \<longleftrightarrow> pool_inv (fst s) \<and> crit_ok (snd s)"

definition op_owners :: "hydra_pool \<times> crit \<Rightarrow> u32 \<Rightarrow> nat" where
  "op_owners s a = (if pool_used (fst s) a then 1 else 0)"

definition op_get :: "hydra_pool \<times> crit \<Rightarrow> (u32 option \<times> hydra_pool \<times> crit) option" where
  "op_get s = do { (a, p, c) \<leftarrow> hydra_pool_get (snd s) (fst s); Some (if a = 0 then None else Some a, p, c) }"

definition op_free :: "u32 \<Rightarrow> hydra_pool \<times> crit \<Rightarrow> (hydra_pool \<times> crit) option" where
  "op_free a s = hydra_pool_free (snd s) (fst s) a"

lemma op_get_cases:
  assumes "op_inv s"
  obtains "op_get s = Some (None, s)"
  | k where "k < unat (pool_size (fst s))" "\<not> pool_manager (fst s) ! k"
      "op_get s = Some (Some (member_addr (fst s) k),
         ((fst s)\<lparr>pool_manager := (pool_manager (fst s))[k := True]\<rparr>, snd s))"
proof -
  from assms have inv: "pool_inv (fst s)" and c: "crit_ok (snd s)" by (auto simp: op_inv_def)
  then show ?thesis
  proof (cases rule: pool_get_cases)
    case full
    then show ?thesis using that(1) by (simp add: op_get_def)
  next
    case (free k)
    then show ?thesis using that(2) [of k] array_addr_nonnull [OF pool_invD(3) [OF inv] free(1)] by (simp add: op_get_def)
  qed
qed

interpretation op: resource_pool op_inv op_owners "\<lambda>_ :: unit. op_get" op_free
proof
  fix s s' :: "hydra_pool \<times> crit" and a
  assume inv: "op_inv s"
  show "\<exists>r p'. op_get s = Some (r, p')"
    using inv by (cases rule: op_get_cases) auto
  show "op_get s = Some (None, s') \<Longrightarrow> s' = s"
    using inv by (cases rule: op_get_cases) auto
  show "op_owners s a = 0 \<and> op_inv s' \<and> op_owners s' = (op_owners s)(a := 1)"
    if "op_get s = Some (Some a, s')"
    using inv
  proof (cases rule: op_get_cases)
    case (2 k)
    with that inv show ?thesis
      by (auto simp: op_owners_def op_inv_def fun_eq_iff pool_used_member pool_inv_set pool_used_set split: if_splits)
  qed (use that in simp)
  show "\<exists>s'. op_free a s = Some s' \<and> op_inv s' \<and> op_owners s' = (op_owners s)(a := op_owners s a - 1)"
    if own: "0 < op_owners s a"
  proof -
    from own obtain k where k: "k < unat (pool_size (fst s))" "pool_manager (fst s) ! k"
      "a = member_addr (fst s) k" by (auto simp: op_owners_def pool_used_def split: if_splits)
    with inv show ?thesis
      by (auto simp: op_free_def op_inv_def pool_free_used pool_inv_set op_owners_def fun_eq_iff pool_used_set)
  qed
qed

text \<open>
  C28. No member is handed out twice while in use: after every history of gets and frees of members
  held, the client holds pairwise distinct pointers, exactly those the pool marks used.
\<close>

theorem hydra_pool_no_double_get:
  assumes "pool_inv p" and "crit_ok c" and "\<forall>a. \<not> pool_used p a" and "\<forall>u\<in>set us. unshared u"
  shows "\<exists>hs p' c'. pool_run (\<lambda>_ :: unit. op_get) op_free (\<lambda>_ _. None) us ([], p, c) = Some (hs, p', c') \<and>
    pool_inv p' \<and> distinct hs \<and> set hs = {a. pool_used p' a}"
proof -
  have "op.held ([], p, c)"
    using assms(1,2,3) by (simp add: op.held_def op_inv_def op_owners_def fun_eq_iff)
  from op.run_distinct [OF this assms(4), of "\<lambda>_ _. None"] show ?thesis
    by (fastforce simp: op_owners_def op_inv_def split: if_splits)
qed

lemma clean_from_spec:
  assumes "length (pool_manager p) = unat (pool_size p)" and "unat i \<le> unat (pool_size p)"
  shows "hydra_pool_clean_from i p = Some (p\<lparr>pool_manager :=
    take (unat i) (pool_manager p) @ replicate (unat (pool_size p) - unat i) False\<rparr>)"
  using assms
proof (induction i p rule: hydra_pool_clean_from.induct)
  case (1 i p)
  show ?case
  proof (cases "i < pool_size p")
    case False
    then show ?thesis using "1.prems"
      by (subst hydra_pool_clean_from.simps) (simp add: word_less_nat_alt)
  next
    case True
    then have lt: "unat i < unat (pool_size p)" by (simp add: word_less_nat_alt)
    note s = unat_Suc_below [OF True]
    have "take (Suc (unat i)) ((pool_manager p)[unat i := False]) = take (unat i) (pool_manager p) @ [False]"
      using lt "1.prems"(1) by (simp add: take_Suc_conv_app_nth)
    moreover have "unat (pool_size p) - unat i = Suc (unat (pool_size p) - Suc (unat i))" using lt by simp
    ultimately show ?thesis
      using "1.IH" [OF True] lt "1.prems" True s
      by (subst hydra_pool_clean_from.simps) simp
  qed
qed

lemma hydra_pool_clean_frees:
  assumes "pool_inv p" and "crit_ok c"
  shows "\<exists>m'. hydra_pool_clean c p m = Some (p\<lparr>pool_manager := replicate (unat (pool_size p)) False\<rparr>, m', c)"
  using assms clean_from_spec [of p 0] by (simp add: hydra_pool_clean_def pool_inv_def Let_def)

text \<open>A pool of three 9-byte members, one of them in use.\<close>

definition demo_pool :: hydra_pool where
  "demo_pool = (hydra_pool_def 0x1000 9 3)\<lparr>pool_manager := [True, False, False]\<rparr>"

lemma demo_pool_inv: "pool_inv demo_pool"
  by (simp add: demo_pool_def hydra_pool_def_def pool_inv_def array_fits_def)

theorem hydra_pool_get_first_free_witness:
  "hydra_pool_get crit_init demo_pool =
    Some (0x1009, demo_pool\<lparr>pool_manager := [True, True, False]\<rparr>, crit_init)"
proof -
  have "(LEAST k. k < 3 \<and> \<not> [True, False, False] ! k) = (1 :: nat)"
    by (rule Least_equality) (auto simp: less_Suc_eq numeral_eq_Suc intro: Suc_leI gr0I)
  moreover have "\<not> (\<forall>k < (3 :: nat). [True, False, False] ! k)" by (auto intro!: exI [of _ 1])
  ultimately show ?thesis
    using hydra_pool_get_first_free [OF demo_pool_inv crit_ok_init]
    by (simp add: demo_pool_def hydra_pool_def_def array_addr_def Let_def)
qed

theorem hydra_pool_get_free_witness:
  "hydra_pool_free crit_init (demo_pool\<lparr>pool_manager := [True, True, False]\<rparr>) 0x1009 = Some (demo_pool, crit_init)"
proof -
  have "hydra_pool_get crit_init demo_pool =
      Some (0x1009, demo_pool\<lparr>pool_manager := [True, True, False]\<rparr>, crit_init)" by code_simp
  from hydra_pool_get_free [OF demo_pool_inv crit_ok_init this] show ?thesis by simp
qed

theorem hydra_pool_no_double_get_witness:
  "\<exists>hs p' c'. pool_run (\<lambda>_ :: unit. op_get) op_free (\<lambda>_ _. None)
     [Pool_get (), Pool_get (), Pool_put 0, Pool_get ()]
     ([], hydra_pool_def 0x1000 9 3, crit_init) = Some (hs, p', c') \<and>
   pool_inv p' \<and> distinct hs \<and> set hs = {a. pool_used p' a}"
proof -
  have "pool_inv (hydra_pool_def 0x1000 9 3)" "\<forall>a. \<not> pool_used (hydra_pool_def 0x1000 9 3) a"
    by (auto simp: hydra_pool_def_def pool_inv_def array_fits_def pool_used_def)
  from hydra_pool_no_double_get [OF this(1) crit_ok_init this(2),
      of "[Pool_get (), Pool_get (), Pool_put 0, Pool_get ()]"]
  show ?thesis by (simp add: unshared_def del: pool_run.simps)
qed

end
