(* ===== verification/Block_Runs.thy ===== *)
theory Block_Runs
  imports Critical_Section Resource_Pool
begin

text \<open>
  What \<open>memory/alloc.c\<close> and \<open>memory/ramx_alloc.h\<close> share: the byte of status per block, in which a
  run of \<open>n\<close> allocated blocks is \<open>n\<close> bytes of value \<open>n\<close>, the search for free contiguous blocks
  with its \<open>space_found\<close> flag, and the reference the search is compared with (first fit). The loop
  counters \<open>i\<close>, \<open>j\<close> are \<open>uint32_t\<close> in the code and bounded by \<open>POOL_BLOCK_NUM\<close>; they are \<open>nat\<close> here.
  \<open>None\<close> is an access outside the status array.
\<close>

section \<open>The search\<close>

text \<open>The inner loop over \<open>j\<close>, which returns the final \<open>space_found\<close>.\<close>

function space_scan :: "u8 list \<Rightarrow> nat \<Rightarrow> nat \<Rightarrow> nat \<Rightarrow> nat \<Rightarrow> nat option" where
  "space_scan blocks num_blocks i j space_found =
     (if j < num_blocks then
        if i + j < length blocks then
          if blocks ! (i + j) \<noteq> 0 then Some 0 else space_scan blocks num_blocks i (j + 1) 1
        else None
      else Some space_found)"
  by pat_completeness auto

termination
  by (relation "measure (\<lambda>(bs, n, i, j, f). n - j)") auto

declare space_scan.simps [simp del]

text \<open>The outer loop over \<open>i\<close>; \<open>Some (Some i)\<close> when the blocks from \<open>i\<close> on are taken, \<open>Some None\<close>
  when the loop ends without.\<close>

function space_search :: "nat \<Rightarrow> u8 list \<Rightarrow> nat \<Rightarrow> nat \<Rightarrow> nat \<Rightarrow> nat option option" where
  "space_search block_num blocks num_blocks i space_found =
     (if i \<le> block_num - num_blocks then
        if i < length blocks then
          if blocks ! i = 0 then do {
            sf \<leftarrow> space_scan blocks num_blocks i 1 space_found;
            if sf = 1 then Some (Some i) else space_search block_num blocks num_blocks (i + 1) sf }
          else space_search block_num blocks num_blocks (i + 1) space_found
        else None
      else Some None)"
  by pat_completeness auto

termination
  by (relation "measure (\<lambda>(b, bs, n, i, f). Suc (b - n) - i)") auto

declare space_search.simps [simp del]

definition free_at :: "u8 list \<Rightarrow> nat \<Rightarrow> nat \<Rightarrow> bool" where
  "free_at bs n i \<longleftrightarrow> (\<forall>j<n. bs ! (i + j) = 0)"

definition first_fit :: "u8 list \<Rightarrow> nat \<Rightarrow> nat option" where
  "first_fit bs n = find (free_at bs n) [0..<length bs + 1 - n]"

lemma space_scan_spec:
  assumes "i + n \<le> length bs" and "j \<le> n"
  shows "space_scan bs n i j sf = Some (if \<forall>k. j \<le> k \<and> k < n \<longrightarrow> bs ! (i + k) = 0
    then if j < n then 1 else sf else 0)"
  using assms
proof (induction bs n i j sf rule: space_scan.induct)
  case (1 bs n i j sf)
  show ?case
  proof (cases "j < n")
    case False
    then show ?thesis by (subst space_scan.simps) auto
  next
    case True
    show ?thesis
    proof (cases "bs ! (i + j) = 0")
      case False
      then show ?thesis using True "1.prems" by (subst space_scan.simps) auto
    next
      case free: True
      then have "(\<forall>k. j \<le> k \<and> k < n \<longrightarrow> bs ! (i + k) = 0) \<longleftrightarrow> (\<forall>k. j + 1 \<le> k \<and> k < n \<longrightarrow> bs ! (i + k) = 0)"
        by (metis Suc_eq_plus1 Suc_leD antisym not_less_eq_eq)
      moreover have "space_scan bs n i j sf = space_scan bs n i (j + 1) 1"
        using True free "1.prems" by (subst space_scan.simps) auto
      ultimately show ?thesis using "1.IH" [OF True] True free "1.prems" by auto
    qed
  qed
qed

lemma free_at_head: "0 < n \<Longrightarrow> free_at bs n i \<longleftrightarrow> bs ! i = 0 \<and> (\<forall>k. 1 \<le> k \<and> k < n \<longrightarrow> bs ! (i + k) = 0)"
  by (auto simp: free_at_def Suc_le_eq) (metis add.right_neutral gr0I)

text \<open>The flag is not reset when the outer loop goes on, but it is read only after the inner loop
  has set it, or when a single block is asked for: the search is first fit.\<close>

lemma space_search_spec:
  assumes "0 < n" and "n \<le> length bs" and "n = 1 \<longrightarrow> sf = 1"
  shows "space_search (length bs) bs n i sf = Some (find (free_at bs n) [i..<length bs + 1 - n])"
  using assms(3)
proof (induction "length bs + 1 - n - i" arbitrary: i sf)
  case 0
  then show ?case using assms by (subst space_search.simps) auto
next
  case (Suc m)
  then have i: "i \<le> length bs - n" "i < length bs" "i + n \<le> length bs" using assms by simp_all
  have cons: "[i..<length bs + 1 - n] = i # [Suc i..<length bs + 1 - n]"
    using i assms by (intro upt_conv_Cons) simp
  have rest: "space_search (length bs) bs n (i + 1) sf' =
      Some (find (free_at bs n) [Suc i..<length bs + 1 - n])" if "n = 1 \<longrightarrow> sf' = 1" for sf'
    using Suc.hyps(1) [of "i + 1" sf'] Suc.hyps(2) that by simp
  have scan: "space_scan bs n i 1 sf = Some (if \<forall>k. 1 \<le> k \<and> k < n \<longrightarrow> bs ! (i + k) = 0
      then if 1 < n then 1 else sf else 0)"
    using assms i by (intro space_scan_spec) simp_all
  show ?case
  proof (cases "bs ! i = 0")
    case used: False
    then have "\<not> free_at bs n i" using assms(1) by (simp add: free_at_head)
    moreover have "space_search (length bs) bs n i sf = space_search (length bs) bs n (i + 1) sf"
      using i used by (subst space_search.simps) simp
    ultimately show ?thesis by (simp only: rest [OF Suc.prems] cons find.simps if_False)
  next
    case free: True
    have step: "space_search (length bs) bs n i sf = do {
        sf \<leftarrow> space_scan bs n i 1 sf;
        if sf = 1 then Some (Some i) else space_search (length bs) bs n (i + 1) sf }"
      using i free by (subst space_search.simps) simp
    show ?thesis
    proof (cases "\<forall>k. 1 \<le> k \<and> k < n \<longrightarrow> bs ! (i + k) = 0")
      case True
      then have "free_at bs n i" using free assms(1) by (simp add: free_at_head)
      moreover have "(if 1 < n then 1 else sf) = 1" using assms(1) Suc.prems by (cases "n = 1") auto
      then have "space_scan bs n i 1 sf = Some 1" unfolding scan by (simp only: if_P [OF True])
      ultimately show ?thesis by (simp only: step cons bind.bind_lunit if_True simp_thms find.simps)
    next
      case no: False
      then have "\<not> free_at bs n i" using assms(1) by (simp only: free_at_head) blast
      moreover have "n \<noteq> 1" using no by auto
      moreover have "space_scan bs n i 1 sf = Some 0" by (simp only: scan no if_False)
      ultimately show ?thesis using rest [of 0]
        by (simp only: step cons bind.bind_lunit find.simps if_False zero_neq_one) simp
    qed
  qed
qed

lemma space_search_first_fit:
  "0 < n \<Longrightarrow> n \<le> length bs \<Longrightarrow> space_search (length bs) bs n 0 1 = Some (first_fit bs n)"
  by (simp add: space_search_spec first_fit_def)

lemma first_fit_Some:
  "first_fit bs n = Some i \<Longrightarrow> 0 < n \<Longrightarrow> n \<le> length bs \<Longrightarrow>
     i + n \<le> length bs \<and> free_at bs n i \<and> (\<forall>k<i. \<not> free_at bs n k)"
  unfolding first_fit_def find_Some_iff by (auto simp: less_diff_conv)

lemma first_fit_None:
  "first_fit bs n = None \<longleftrightarrow> (\<forall>i. i + n \<le> length bs \<longrightarrow> \<not> free_at bs n i)"
  by (auto simp: first_fit_def find_None_iff less_diff_conv)

section \<open>Marking and clearing blocks\<close>

text \<open>The loop \<open>blocks[i + j] = v\<close> for \<open>j < n\<close>.\<close>

definition blocks_set :: "nat \<Rightarrow> nat \<Rightarrow> 'a \<Rightarrow> 'a list \<Rightarrow> 'a list option" where
  "blocks_set i n v bs =
     (if i + n \<le> length bs then Some (fold (\<lambda>j xs. xs[i + j := v]) [0..<n] bs) else None)"

lemma fold_update:
  "i + n \<le> length bs \<Longrightarrow> fold (\<lambda>j xs. xs[i + j := v]) [0..<n] bs = take i bs @ replicate n v @ drop (i + n) bs"
proof (induction n)
  case (Suc n)
  then have "fold (\<lambda>j xs. xs[i + j := v]) [0..<Suc n] bs = (take i bs @ replicate n v @ drop (i + n) bs)[i + n := v]"
    by simp
  also have "drop (i + n) bs = bs ! (i + n) # drop (Suc (i + n)) bs"
    using Suc.prems by (simp add: Cons_nth_drop_Suc)
  finally show ?case using Suc.prems
    by (simp add: list_update_append replicate_append_same)
qed simp

lemma blocks_set_eq:
  "i + n \<le> length bs \<Longrightarrow> blocks_set i n v bs = Some (take i bs @ replicate n v @ drop (i + n) bs)"
  by (simp add: blocks_set_def fold_update)

section \<open>Well-formed status arrays\<close>

text \<open>\<open>wf_runs\<close>: the array parses from the left into free blocks and complete runs;
  \<open>run_starts k\<close>: the indices at which runs start, counted from \<open>k\<close>.\<close>

function wf_runs :: "u8 list \<Rightarrow> bool" where
  "wf_runs bs = (case bs of [] \<Rightarrow> True
     | b # bs' \<Rightarrow> if b = 0 then wf_runs bs'
         else unat b \<le> length bs \<and> take (unat b) bs = replicate (unat b) b \<and> wf_runs (drop (unat b) bs))"
  by pat_completeness auto
termination by (relation "measure length") (auto simp: unat_gt_0)

function run_starts :: "nat \<Rightarrow> u8 list \<Rightarrow> nat set" where
  "run_starts k bs = (case bs of [] \<Rightarrow> {}
     | b # bs' \<Rightarrow> if b = 0 then run_starts (k + 1) bs'
         else insert k (run_starts (k + unat b) (drop (unat b) bs)))"
  by pat_completeness auto
termination by (relation "measure (length \<circ> snd)") (auto simp: unat_gt_0)

declare wf_runs.simps [simp del] run_starts.simps [simp del]

lemma wf_runs_Nil [simp]: "wf_runs []" and run_starts_Nil [simp]: "run_starts k [] = {}"
  by (simp_all add: wf_runs.simps run_starts.simps)

lemma wf_runs_free [simp]: "wf_runs (0 # bs) = wf_runs bs"
  and run_starts_free [simp]: "run_starts k (0 # bs) = run_starts (Suc k) bs"
  by (subst wf_runs.simps, simp) (subst run_starts.simps, simp)

lemma wf_runs_frees [simp]: "wf_runs (replicate n 0 @ bs) = wf_runs bs"
  and run_starts_frees [simp]: "run_starts k (replicate n 0 @ bs) = run_starts (k + n) bs"
  by (induction n arbitrary: k) auto

lemma wf_runs_run:
  assumes "n = unat b" and "b \<noteq> 0"
  shows "wf_runs (replicate n b @ bs) = wf_runs bs"
    and "run_starts k (replicate n b @ bs) = insert k (run_starts (k + n) bs)"
proof -
  have "0 < n" using assms by (simp add: unat_gt_0)
  then obtain m where m: "n = Suc m" using gr0_implies_Suc by blast
  have X: "replicate n b @ bs = b # replicate m b @ bs" by (simp add: m)
  have D: "drop (unat b) (b # replicate m b @ bs) = bs" "take (unat b) (b # replicate m b @ bs) = replicate n b"
    by (simp_all add: X [symmetric] assms(1) [symmetric])
  show "wf_runs (replicate n b @ bs) = wf_runs bs"
    unfolding X by (subst wf_runs.simps) (simp only: list.case D assms(2) if_False, simp add: m assms(1) [symmetric])
  show "run_starts k (replicate n b @ bs) = insert k (run_starts (k + n) bs)"
    unfolding X by (subst run_starts.simps) (simp only: list.case D assms(2) if_False assms(1))
qed

text \<open>Every well-formed array is built from free blocks and runs.\<close>

lemma wf_runs_induct [consumes 1, case_names Nil free run]:
  assumes "wf_runs bs" and "P []" and "\<And>bs. wf_runs bs \<Longrightarrow> P bs \<Longrightarrow> P (0 # bs)"
    and "\<And>n b bs. n = unat b \<Longrightarrow> b \<noteq> 0 \<Longrightarrow> wf_runs bs \<Longrightarrow> P bs \<Longrightarrow> P (replicate n b @ bs)"
  shows "P bs"
  using assms(1)
proof (induction bs rule: wf_runs.induct)
  case (1 bs)
  show ?case
  proof (cases bs)
    case (Cons b bs')
    show ?thesis
    proof (cases "b = 0")
      case False
      then have wf: "take (unat b) bs = replicate (unat b) b" "wf_runs (drop (unat b) bs)"
        using "1.prems" Cons by (subst (asm) wf_runs.simps, simp)+
      moreover have "P (drop (unat b) bs)" using "1.IH"(2) [OF Cons False] wf(2) by simp
      ultimately have "P (take (unat b) bs @ drop (unat b) bs)"
        using assms(4) [OF refl False] by simp
      then show ?thesis by simp
    qed (use Cons "1.IH"(1) [OF Cons] "1.prems" assms(3) in auto)
  qed (use assms in simp)
qed

definition used_blocks :: "u8 list \<Rightarrow> nat" where
  "used_blocks bs = length (filter (\<lambda>b. b \<noteq> 0) bs)"

text \<open>Marking a free stretch as a run.\<close>

lemma mark_run:
  assumes "wf_runs bs" and "i + n \<le> length bs" and "free_at bs n i" and "n = unat v" and "v \<noteq> 0"
  shows "wf_runs (take i bs @ replicate n v @ drop (i + n) bs) \<and>
    run_starts k (take i bs @ replicate n v @ drop (i + n) bs) = insert (k + i) (run_starts k bs)"
  using assms(1-3)
proof (induction bs arbitrary: i k rule: wf_runs_induct)
  case Nil
  with assms(4,5) have False by (simp add: unat_eq_0_iff)
  then show ?case ..
next
  case (free bs)
  show ?case
  proof (cases i)
    case 0
    have "take n (0 # bs) = replicate n 0"
      using free.prems 0 by (intro nth_equalityI) (auto simp: free_at_def)
    then have eq: "0 # bs = replicate n 0 @ drop n (0 # bs)" by (metis append_take_drop_id)
    have "wf_runs (0 # bs)" using free.hyps by simp
    then have "wf_runs (drop n (0 # bs))" by (subst (asm) eq) simp
    moreover have "run_starts k (0 # bs) = run_starts (k + n) (drop n (0 # bs))" by (subst eq) simp
    ultimately show ?thesis
      using wf_runs_run(1) [OF assms(4,5), of "drop n (0 # bs)"]
        wf_runs_run(2) [OF assms(4,5), of k "drop n (0 # bs)"]
      unfolding 0 take0 append_Nil add_0 add_0_right by simp
  next
    case (Suc i')
    then have "free_at bs n i'" using free.prems by (auto simp: free_at_def)
    with free Suc show ?thesis by simp
  qed
next
  case (run m b bs)
  have "0 < n" using assms(4,5) by (simp add: unat_gt_0)
  then have "(replicate m b @ bs) ! i = 0" using run.prems(2) by (auto simp: free_at_def dest: spec [of _ 0])
  then have mi: "m \<le> i" using run.hyps(2) by (cases "i < m") (simp_all add: nth_append)
  have "free_at bs n (i - m)"
    using run.prems(2) mi by (auto simp: free_at_def nth_append)
  moreover have "i - m + n \<le> length bs" using run.prems(1) mi by simp
  ultimately have IH: "wf_runs (take (i - m) bs @ replicate n v @ drop (i - m + n) bs) \<and>
      run_starts (k + m) (take (i - m) bs @ replicate n v @ drop (i - m + n) bs) =
        insert (k + m + (i - m)) (run_starts (k + m) bs)" by (intro run.IH)
  have ki: "k + m + (i - m) = k + i" using mi by simp
  have eq: "take i (replicate m b @ bs) @ replicate n v @ drop (i + n) (replicate m b @ bs) =
      replicate m b @ take (i - m) bs @ replicate n v @ drop (i - m + n) bs"
    using mi by simp
  show ?case
    unfolding eq wf_runs_run [OF run.hyps(1,2)] using IH unfolding ki by blast
qed

text \<open>A run start heads a complete run; clearing it removes just this run.\<close>

lemma run_starts_ge: "i \<in> run_starts k bs \<Longrightarrow> k \<le> i"
proof (induction k bs rule: run_starts.induct)
  case (1 k bs)
  show ?case
  proof (cases bs)
    case (Cons b bs')
    with 1 show ?thesis
      by (cases "b = 0") (force simp: run_starts.simps [of k "b # bs'"])+
  qed (use 1 in simp)
qed

lemma run_start_run:
  assumes "wf_runs bs" and "k + i \<in> run_starts k bs"
  shows "bs ! i \<noteq> 0 \<and> i + unat (bs ! i) \<le> length bs \<and> (\<forall>j < unat (bs ! i). bs ! (i + j) = bs ! i)"
  using assms
proof (induction bs arbitrary: i k rule: wf_runs_induct)
  case Nil
  then show ?case by simp
next
  case (free bs)
  then have "k + i \<in> run_starts (Suc k) bs" by simp
  then have "Suc k \<le> k + i" by (rule run_starts_ge)
  then obtain i' where i: "i = Suc i'" by (cases i) auto
  with free.prems free.IH [of "Suc k" i'] show ?case by simp
next
  case (run m b bs)
  have m: "0 < m" using run.hyps by (simp add: unat_gt_0)
  show ?case
  proof (cases "i = 0")
    case True
    then show ?thesis using run.hyps(1,2) m by (simp add: nth_append)
  next
    case False
    then have "k + i \<in> run_starts (k + m) bs" using run.prems run.hyps(1,2) by (simp add: wf_runs_run)
    moreover from run_starts_ge [OF this] have mi: "m \<le> i" by simp
    ultimately show ?thesis using run.IH [of "k + m" "i - m"] by (auto simp: nth_append)
  qed
qed

lemma clear_run:
  assumes "wf_runs bs" and "k + i \<in> run_starts k bs" and "n = unat (bs ! i)"
  shows "wf_runs (take i bs @ replicate n 0 @ drop (i + n) bs) \<and>
    run_starts k (take i bs @ replicate n 0 @ drop (i + n) bs) = run_starts k bs - {k + i}"
  using assms
proof (induction bs arbitrary: i k rule: wf_runs_induct)
  case Nil
  then show ?case by simp
next
  case (free bs)
  then have k: "k + i \<in> run_starts (Suc k) bs" by simp
  then have "Suc k \<le> k + i" by (rule run_starts_ge)
  then obtain i' where i: "i = Suc i'" by (cases i) auto
  with free.prems free.IH [of "Suc k" i'] show ?case by simp
next
  case (run m b bs)
  have m: "0 < m" using run.hyps by (simp add: unat_gt_0)
  have ge: "k \<notin> run_starts (k + m) bs" using run_starts_ge m by fastforce
  show ?case
  proof (cases "i = 0")
    case True
    then have "n = m" using run m by (simp add: nth_append)
    then show ?thesis using True run.hyps(1-3) ge by (simp add: wf_runs_run)
  next
    case False
    then have in_rest: "k + i \<in> run_starts (k + m) bs" using run.prems run.hyps(1,2) by (simp add: wf_runs_run)
    from run_starts_ge [OF this] have mi: "m \<le> i" by simp
    have n: "n = unat (bs ! (i - m))" using run.prems(2) mi by (simp add: nth_append)
    have ki: "k + m + (i - m) = k + i" using mi by simp
    have IH: "wf_runs (take (i - m) bs @ replicate n 0 @ drop (i - m + n) bs) \<and>
        run_starts (k + m) (take (i - m) bs @ replicate n 0 @ drop (i - m + n) bs) =
          run_starts (k + m) bs - {k + i}"
      by (rule run.IH [of "k + m" "i - m", unfolded ki, OF in_rest n])
    have eq: "take i (replicate m b @ bs) @ replicate n 0 @ drop (i + n) (replicate m b @ bs) =
        replicate m b @ take (i - m) bs @ replicate n 0 @ drop (i - m + n) bs"
      using mi by simp
    have "insert k (run_starts (k + m) bs - {k + i}) = insert k (run_starts (k + m) bs) - {k + i}"
      using False by auto
    with IH show ?thesis
      unfolding eq wf_runs_run [OF run.hyps(1,2)] by metis
  qed
qed

lemma used_blocks_append [simp]: "used_blocks (xs @ ys) = used_blocks xs + used_blocks ys"
  by (simp add: used_blocks_def)

lemma used_blocks_replicate [simp]: "used_blocks (replicate n b) = (if b = 0 then 0 else n)"
  by (simp add: used_blocks_def)

lemma used_blocks_split:
  "i + n \<le> length bs \<Longrightarrow> used_blocks bs =
     used_blocks (take i bs) + used_blocks (take n (drop i bs)) + used_blocks (drop (i + n) bs)"
  by (metis add.commute append_take_drop_id drop_drop used_blocks_append add.assoc)

lemma take_drop_const:
  "i + n \<le> length bs \<Longrightarrow> \<forall>j<n. bs ! (i + j) = v \<Longrightarrow> take n (drop i bs) = replicate n v"
  by (intro nth_equalityI) auto

lemma start_less:
  assumes "i + unat n \<le> b" and "n \<noteq> 0"
  shows "i < b"
proof -
  have "0 < unat n" using assms(2) by (simp add: unat_gt_0)
  with assms(1) show ?thesis by linarith
qed

lemma used_blocks_le: "used_blocks bs \<le> length bs"
  by (simp add: used_blocks_def)


text \<open>Two runs of a well-formed array do not share a block.\<close>

lemma run_starts_disjoint:
  assumes "wf_runs bs" and "k + i \<in> run_starts k bs" and "k + j \<in> run_starts k bs" and "i < j"
  shows "i + unat (bs ! i) \<le> j"
  using assms
proof (induction bs arbitrary: i j k rule: wf_runs_induct)
  case Nil
  then show ?case by simp
next
  case (free bs)
  then have "k + i \<in> run_starts (Suc k) bs" "k + j \<in> run_starts (Suc k) bs" by simp_all
  moreover from run_starts_ge [OF this(1)] run_starts_ge [OF this(2)]
  obtain i' j' where "i = Suc i'" "j = Suc j'" by (cases i; cases j) auto
  ultimately show ?case using free.IH [of "Suc k" i' j'] free.prems(3) by simp
next
  case (run m b bs)
  have m: "0 < m" using run.hyps by (simp add: unat_gt_0)
  have j: "k + j \<in> run_starts (k + m) bs" using run.prems m by (simp add: wf_runs_run [OF run.hyps(1,2)])
  from run_starts_ge [OF this] have mj: "m \<le> j" by simp
  show ?case
  proof (cases "i = 0")
    case True
    then have "(replicate m b @ bs) ! i = b" using m by (simp add: nth_append)
    then show ?thesis using True mj run.hyps(1) by simp
  next
    case False
    then have i: "k + i \<in> run_starts (k + m) bs" using run.prems by (simp add: wf_runs_run [OF run.hyps(1,2)])
    from run_starts_ge [OF this] have mi: "m \<le> i" by simp
    have ki: "k + m + (i - m) = k + i" "k + m + (j - m) = k + j" using mi mj by simp_all
    have "i - m + unat (bs ! (i - m)) \<le> j - m"
      using run.prems(3) mi mj by (intro run.IH [of "k + m" "i - m" "j - m", unfolded ki, OF i j]) simp
    then show ?thesis using mi mj by (simp add: nth_append)
  qed
qed

lemma used_take_run:
  assumes "i + unat nb \<le> length bs" and "free_at bs (unat nb) i" and "nb \<noteq> 0"
  shows "used_blocks (take i bs @ replicate (unat nb) nb @ drop (i + unat nb) bs) = used_blocks bs + unat nb"
proof -
  have "take (unat nb) (drop i bs) = replicate (unat nb) 0"
    using assms(1,2) by (intro take_drop_const) (simp_all add: free_at_def)
  then show ?thesis using used_blocks_split [OF assms(1)] assms(3) by simp
qed

lemma run_outside_run:
  assumes "wf_runs bs" and "i \<in> run_starts 0 bs" and "k \<in> run_starts 0 bs" and "i \<noteq> k" and "j < unat (bs ! k)"
  shows "\<not> (i \<le> k + j \<and> k + j < i + unat (bs ! i))"
  using run_starts_disjoint [OF assms(1), of 0 i k] run_starts_disjoint [OF assms(1), of 0 k i] assms(2-)
  by (cases "i < k") auto

lemma nth_splice:
  "i + n \<le> length xs \<Longrightarrow>
     (take i xs @ replicate n v @ drop (i + n) xs) ! k = (if i \<le> k \<and> k < i + n then v else xs ! k)"
  by (auto simp: nth_append)

lemma wf_runs_replicate0: "wf_runs (replicate n 0)" and run_starts_replicate0: "run_starts k (replicate n 0) = {}"
  using wf_runs_frees [of n "[]"] run_starts_frees [of k n "[]"] by simp_all

section \<open>Rounding up to blocks\<close>

text \<open>The macro \<open>DIV_ROUND_UP\<close> on unsigned operands; \<open>None\<close> for a division by zero.\<close>

definition div_round_up :: "u32 \<Rightarrow> u32 \<Rightarrow> u32 option" where
  "div_round_up n d = (if d = 0 then None else Some ((n + d - 1) div d))"

lemma div_round_up_unat:
  assumes "d \<noteq> 0" and "unat n + unat d \<le> 2 ^ 32"
  shows "\<exists>q. div_round_up n d = Some q \<and> unat q = (unat n + unat d - 1) div unat d"
proof -
  have d: "0 < unat d" using assms(1) by (simp add: unat_gt_0)
  have eq: "n + d - 1 = d - 1 + n" by simp
  moreover have "unat (d - 1) = unat d - 1" using d by (simp add: unat_diff_le)
  moreover have "unat (d - 1) + unat n < 2 ^ LENGTH(32)" using assms(2) d calculation(2) by simp
  from unat_add_lem [THEN iffD1, OF this] have "unat (d - 1 + n) = unat (d - 1) + unat n" .
  then have "unat (n + d - 1) = unat n + unat d - 1"
    using d by (simp only: eq) (simp add: unat_diff_le)
  then show ?thesis using assms(1) by (simp add: div_round_up_def unat_div)
qed

lemma div_ceil_bounds:
  fixes n d :: nat
  assumes "0 < d"
  shows "n \<le> (n + d - 1) div d * d"
proof -
  have "(n + d - 1) div d * d + (n + d - 1) mod d = n + d - 1" by (rule div_mult_mod_eq)
  moreover have "(n + d - 1) mod d < d" using assms by (rule mod_less_divisor)
  ultimately show ?thesis using assms by linarith
qed

lemma div_ceil_le:
  fixes n d :: nat
  assumes "0 < d" and "n \<le> k * d"
  shows "(n + d - 1) div d \<le> k"
proof -
  have "n + d - 1 < Suc k * d" using assms by simp
  then have "(n + d - 1) div d < Suc k" using assms(1) by (simp add: div_less_iff_less_mult)
  then show ?thesis by simp
qed

end
