(* ===== verification/Alloc.thy ===== *)
theory Alloc
  imports Block_Runs
begin

text \<open>
  \<open>memory/alloc.c\<close>: the allocator of contiguous blocks of RAM. \<open>POOL_BLOCK_NUM\<close> and
  \<open>POOL_BLOCK_SIZE\<close> are macros of the build and arguments of the operations that name them, as is
  the address of the static array \<open>pool_buf\<close>. The lemmas show that an allocation takes the first
  free stretch, that it fails only when there is none, that live allocations never overlap and that
  freeing restores the status array; and where the 8-bit block count loses the request.
\<close>

record ram_pool =
  rp_pool :: u32
  rp_block_size :: u32
  rp_pool_size :: u8
  rp_blocks_used :: u8
  rp_blocks :: "u8 list"

definition pool_init :: "nat \<Rightarrow> u32 \<Rightarrow> u32 \<Rightarrow> crit \<Rightarrow> ram_pool \<Rightarrow> ram_pool \<times> crit" where
  "pool_init POOL_BLOCK_NUM POOL_BLOCK_SIZE pool_buf c p =
     (let c1 = bsp_enter_critical c;
          p1 = p\<lparr>rp_pool_size := of_nat POOL_BLOCK_NUM, rp_block_size := POOL_BLOCK_SIZE,
                 rp_blocks_used := 0, rp_pool := pool_buf\<rparr>;
          p2 = p1\<lparr>rp_blocks := map (\<lambda>_. 0) (rp_blocks p1)\<rparr>
      in (p2, bsp_exit_critical c1))"

definition pool_alloc_blocks ::
    "nat \<Rightarrow> crit \<Rightarrow> ram_pool \<Rightarrow> u8 \<Rightarrow> (u32 \<times> ram_pool \<times> crit) option" where
  "pool_alloc_blocks POOL_BLOCK_NUM c p num_blocks =
     (let c1 = bsp_enter_critical c in
      if num_blocks = 0 then Some (0, p, bsp_exit_critical c1)
      else if unat num_blocks > POOL_BLOCK_NUM then Some (0, p, bsp_exit_critical c1)
      else do {
        found \<leftarrow> space_search POOL_BLOCK_NUM (rp_blocks p) (unat num_blocks) 0 1;
        case found of
          None \<Rightarrow> Some (0, p, bsp_exit_critical c1)
        | Some i \<Rightarrow> do {
            bs \<leftarrow> blocks_set i (unat num_blocks) num_blocks (rp_blocks p);
            let p1 = p\<lparr>rp_blocks := bs\<rparr>;
            let p2 = p1\<lparr>rp_blocks_used := rp_blocks_used p1 + num_blocks\<rparr>;
            let ret = rp_pool p2 + rp_block_size p2 * of_nat i;
            Some (ret, p2, bsp_exit_critical c1) } })"

definition pool_alloc_bytes ::
    "nat \<Rightarrow> u32 \<Rightarrow> crit \<Rightarrow> ram_pool \<Rightarrow> u32 \<Rightarrow> (u32 \<times> ram_pool \<times> crit) option" where
  "pool_alloc_bytes POOL_BLOCK_NUM POOL_BLOCK_SIZE c p num_bytes = do {
     blocks_needed \<leftarrow> div_round_up num_bytes POOL_BLOCK_SIZE;
     pool_alloc_blocks POOL_BLOCK_NUM c p (ucast blocks_needed) }"

definition pool_free :: "crit \<Rightarrow> ram_pool \<Rightarrow> u32 \<Rightarrow> (ram_pool \<times> crit) option" where
  "pool_free c p ptr =
     (let c1 = bsp_enter_critical c in
      if ptr = 0 then Some (p, bsp_exit_critical c1)
      else if rp_block_size p = 0 then None
      else let block_index = (ucast ((ptr - rp_pool p) div rp_block_size p) :: u8) in
        if unat block_index < length (rp_blocks p) then
          let num_blocks = rp_blocks p ! unat block_index in
          do { bs \<leftarrow> blocks_set (unat block_index) (unat num_blocks) 0 (rp_blocks p);
               Some (p\<lparr>rp_blocks := bs, rp_blocks_used := rp_blocks_used p - num_blocks\<rparr>,
                     bsp_exit_critical c1) }
        else None)"

definition pool_stats_free :: "ram_pool \<Rightarrow> u8" where
  "pool_stats_free p = rp_pool_size p - rp_blocks_used p"

definition pool_stats_used :: "ram_pool \<Rightarrow> u8" where
  "pool_stats_used p = rp_blocks_used p"

definition pool_stats_blocks :: "ram_pool \<Rightarrow> u8 list" where
  "pool_stats_blocks p = rp_blocks p"

section \<open>The invariant\<close>

definition alloc_inv :: "nat \<Rightarrow> ram_pool \<Rightarrow> bool" where
  "alloc_inv bn p \<longleftrightarrow> length (rp_blocks p) = bn \<and> bn < 256 \<and> rp_pool_size p = of_nat bn \<and>
     wf_runs (rp_blocks p) \<and> rp_blocks_used p = of_nat (used_blocks (rp_blocks p)) \<and>
     array_fits (rp_pool p) (rp_block_size p) bn"

abbreviation block_addr :: "ram_pool \<Rightarrow> nat \<Rightarrow> u32" where
  "block_addr p i \<equiv> array_addr (rp_pool p) (rp_block_size p) i"

lemma alloc_invD:
  assumes "alloc_inv bn p"
  shows "length (rp_blocks p) = bn" "bn < 256" "wf_runs (rp_blocks p)"
    "rp_blocks_used p = of_nat (used_blocks (rp_blocks p))"
    "array_fits (rp_pool p) (rp_block_size p) bn"
  using assms by (auto simp: alloc_inv_def)

text \<open>The state after taking the run of \<open>nb\<close> blocks at \<open>i\<close>.\<close>

definition take_run :: "ram_pool \<Rightarrow> nat \<Rightarrow> u8 \<Rightarrow> ram_pool" where
  "take_run p i nb = p\<lparr>rp_blocks := take i (rp_blocks p) @ replicate (unat nb) nb @ drop (i + unat nb) (rp_blocks p),
     rp_blocks_used := rp_blocks_used p + nb\<rparr>"

text \<open>
  C26. \<open>pool_alloc_blocks\<close> is first fit: despite its \<open>space_found\<close> flag, which survives from one
  candidate to the next, it takes exactly the first stretch of \<open>num_blocks\<close> free blocks, and it
  returns \<open>NULL\<close> with the pool unchanged exactly for an empty or impossible request or when no such
  stretch exists.
\<close>

theorem pool_alloc_blocks_first_fit:
  assumes "alloc_inv bn p" and "crit_ok c"
  shows "pool_alloc_blocks bn c p nb =
    Some (case (if nb = 0 \<or> bn < unat nb then None else first_fit (rp_blocks p) (unat nb)) of
        None \<Rightarrow> (0, p, c)
      | Some i \<Rightarrow> (block_addr p i, take_run p i nb, c))"
proof (cases "nb = 0 \<or> bn < unat nb")
  case True
  then show ?thesis using assms(2) by (auto simp: pool_alloc_blocks_def Let_def)
next
  case False
  note d = alloc_invD [OF assms(1)]
  have nb: "0 < unat nb" "unat nb \<le> length (rp_blocks p)" using False d by (simp_all add: unat_gt_0)
  from space_search_first_fit [OF this] d(1)
  have "space_search bn (rp_blocks p) (unat nb) 0 1 = Some (first_fit (rp_blocks p) (unat nb))" by simp
  moreover have "i + unat nb \<le> length (rp_blocks p)" if "first_fit (rp_blocks p) (unat nb) = Some i" for i
    using first_fit_Some [OF that nb] by simp
  ultimately show ?thesis using False assms(2)
    by (auto simp: pool_alloc_blocks_def blocks_set_eq take_run_def array_addr_def Let_def mult.commute
        split: option.splits)
qed

lemma pool_alloc_cases:
  assumes "alloc_inv bn p" and "crit_ok c"
  obtains (none) "pool_alloc_blocks bn c p nb = Some (0, p, c)"
  | (some) i where "pool_alloc_blocks bn c p nb = Some (block_addr p i, take_run p i nb, c)"
      "i + unat nb \<le> bn" "free_at (rp_blocks p) (unat nb) i" "nb \<noteq> 0"
proof (cases "if nb = 0 \<or> bn < unat nb then None else first_fit (rp_blocks p) (unat nb)")
  case None
  then show ?thesis using none pool_alloc_blocks_first_fit [OF assms, of nb] by simp
next
  case (Some i)
  then have nb: "nb \<noteq> 0" "unat nb \<le> bn" "first_fit (rp_blocks p) (unat nb) = Some i"
    by (auto split: if_splits)
  then show ?thesis
    using some [of i] first_fit_Some [OF nb(3)] pool_alloc_blocks_first_fit [OF assms, of nb] Some
      alloc_invD(1) [OF assms(1)] by (simp add: unat_gt_0)
qed

lemma take_run_inv:
  assumes "alloc_inv bn p" and "i + unat nb \<le> bn" and "free_at (rp_blocks p) (unat nb) i" and "nb \<noteq> 0"
  shows "alloc_inv bn (take_run p i nb) \<and>
    run_starts 0 (rp_blocks (take_run p i nb)) = insert i (run_starts 0 (rp_blocks p))"
proof -
  note d = alloc_invD [OF assms(1)]
  have le: "i + unat nb \<le> length (rp_blocks p)" using d assms(2) by simp
  have "rp_pool_size p = of_nat bn" using assms(1) by (simp add: alloc_inv_def)
  then show ?thesis
    using mark_run [OF d(3) le assms(3) refl assms(4), of 0] used_take_run [OF le assms(3,4)] d le
    by (simp add: alloc_inv_def take_run_def)
qed

lemma block_index:
  assumes "alloc_inv bn p" and "i < bn"
  shows "unat (ucast ((block_addr p i - rp_pool p) div rp_block_size p) :: u8) = i"
  using array_index [OF alloc_invD(5) [OF assms(1)] assms(2)] alloc_invD(2) [OF assms(1)] assms(2)
  by (simp add: unat_ucast_u32_u8)

text \<open>Freeing the run that starts at \<open>i\<close>.\<close>

definition drop_run :: "ram_pool \<Rightarrow> nat \<Rightarrow> ram_pool" where
  "drop_run p i = (let n = rp_blocks p ! i in
     p\<lparr>rp_blocks := take i (rp_blocks p) @ replicate (unat n) 0 @ drop (i + unat n) (rp_blocks p),
       rp_blocks_used := rp_blocks_used p - n\<rparr>)"

lemma pool_free_run:
  assumes "alloc_inv bn p" and "crit_ok c" and "i \<in> run_starts 0 (rp_blocks p)"
  shows "pool_free c p (block_addr p i) = Some (drop_run p i, c)" and "alloc_inv bn (drop_run p i)"
    and "run_starts 0 (rp_blocks (drop_run p i)) = run_starts 0 (rp_blocks p) - {i}"
proof -
  note d = alloc_invD [OF assms(1)]
  let ?n = "unat (rp_blocks p ! i)"
  have r: "rp_blocks p ! i \<noteq> 0" "i + ?n \<le> bn" "\<forall>j < ?n. rp_blocks p ! (i + j) = rp_blocks p ! i"
    using run_start_run [OF d(3), of 0 i] assms(3) d(1) by simp_all
  then have i: "i < bn" by (intro start_less)
  have "i + ?n \<le> length (rp_blocks p)" using r d by simp
  then show "pool_free c p (block_addr p i) = Some (drop_run p i, c)"
    using array_addr_nonnull [OF d(5) i] block_index [OF assms(1) i] assms(2) i d
    by (simp add: pool_free_def drop_run_def blocks_set_eq array_fits_def Let_def)
  have c: "wf_runs (rp_blocks (drop_run p i))"
    "run_starts 0 (rp_blocks (drop_run p i)) = run_starts 0 (rp_blocks p) - {i}"
    using clear_run [OF d(3), of 0 i ?n] assms(3) by (simp_all add: drop_run_def Let_def)
  from c(2) show "run_starts 0 (rp_blocks (drop_run p i)) = run_starts 0 (rp_blocks p) - {i}" .
  have "take ?n (drop i (rp_blocks p)) = replicate ?n (rp_blocks p ! i)"
    using r d by (intro take_drop_const) simp_all
  then have u: "used_blocks (rp_blocks p) = used_blocks (rp_blocks (drop_run p i)) + ?n"
    using used_blocks_split [of i ?n "rp_blocks p"] r d by (simp add: drop_run_def Let_def)
  show "alloc_inv bn (drop_run p i)"
    using assms(1) c(1) u r(2) d(1) by (simp add: alloc_inv_def) (simp add: drop_run_def Let_def)
qed

text \<open>
  An allocation followed by its \<open>pool_free\<close> gives back the pool exactly as it was, status
  bytes and counter included.
\<close>

theorem pool_alloc_free:
  assumes "alloc_inv bn p" and "crit_ok c" and "pool_alloc_blocks bn c p nb = Some (a, p1, c1)" and "a \<noteq> 0"
  shows "pool_free c1 p1 a = Some (p, c)"
  using assms(1,2)
proof (cases rule: pool_alloc_cases [where nb = nb])
  case none
  with assms show ?thesis by simp
next
  case (some i)
  note d = alloc_invD [OF assms(1)]
  from some assms(3) have eq: "a = block_addr p i" "p1 = take_run p i nb" "c1 = c" by auto
  note inv1 = take_run_inv [OF assms(1) some(2-4)]
  then have "i \<in> run_starts 0 (rp_blocks p1)" by (simp add: eq)
  from pool_free_run(1) [OF _ assms(2) this, of bn]
  have fr: "pool_free c p1 (block_addr p1 i) = Some (drop_run p1 i, c)" using inv1 by (simp add: eq)
  have nb: "0 < unat nb" using some(4) by (simp add: unat_gt_0)
  have le: "i + unat nb \<le> length (rp_blocks p)" using some d by simp
  have at: "rp_blocks p1 ! i = nb" using nb le by (simp add: eq take_run_def nth_append)
  have "take (unat nb) (drop i (rp_blocks p)) = replicate (unat nb) 0"
    using some le by (intro take_drop_const) (simp_all add: free_at_def)
  then have "rp_blocks p = take i (rp_blocks p) @ replicate (unat nb) 0 @ drop (i + unat nb) (rp_blocks p)"
    by (metis append_take_drop_id drop_drop add.commute)
  moreover have "take i (rp_blocks p1) = take i (rp_blocks p)"
    and "drop (i + unat nb) (rp_blocks p1) = drop (i + unat nb) (rp_blocks p)"
    using le by (simp_all add: eq take_run_def)
  ultimately have "drop_run p1 i = p"
    by (simp add: drop_run_def Let_def at) (simp add: eq take_run_def)
  with fr show ?thesis by (simp add: eq take_run_def)
qed

section \<open>Live allocations\<close>

definition al_inv :: "nat \<Rightarrow> ram_pool \<times> crit \<Rightarrow> bool" where
  "al_inv bn s \<longleftrightarrow> alloc_inv bn (fst s) \<and> crit_ok (snd s)"

definition al_owners :: "ram_pool \<times> crit \<Rightarrow> u32 \<Rightarrow> nat" where
  "al_owners s a = (if \<exists>i \<in> run_starts 0 (rp_blocks (fst s)). a = block_addr (fst s) i then 1 else 0)"

definition al_get :: "nat \<Rightarrow> u8 \<Rightarrow> ram_pool \<times> crit \<Rightarrow> (u32 option \<times> ram_pool \<times> crit) option" where
  "al_get bn nb s = do { (a, p, c) \<leftarrow> pool_alloc_blocks bn (snd s) (fst s) nb;
     Some (if a = 0 then None else Some a, p, c) }"

definition al_free :: "u32 \<Rightarrow> ram_pool \<times> crit \<Rightarrow> (ram_pool \<times> crit) option" where
  "al_free a s = pool_free (snd s) (fst s) a"

lemma block_addr_take_run: "block_addr (take_run p i nb) = block_addr p"
  and block_addr_drop_run: "block_addr (drop_run p i) = block_addr p"
  by (simp_all add: take_run_def drop_run_def Let_def fun_eq_iff)

lemma run_start_less: "alloc_inv bn p \<Longrightarrow> i \<in> run_starts 0 (rp_blocks p) \<Longrightarrow> i < bn"
  using run_start_run [OF alloc_invD(3), of bn p 0 i] alloc_invD(1) [of bn p]
  by (auto intro: start_less)

lemma block_addr_mem:
  assumes "alloc_inv bn p" and "S \<subseteq> {..<bn}" and "i < bn"
  shows "(\<exists>j\<in>S. block_addr p i = block_addr p j) \<longleftrightarrow> i \<in> S"
  using array_addr_inj [OF alloc_invD(5) [OF assms(1)] assms(3)] assms(2) by blast

lemma run_starts_lessThan: "alloc_inv bn p \<Longrightarrow> run_starts 0 (rp_blocks p) \<subseteq> {..<bn}"
  using run_start_less by blast

interpretation al: resource_pool "al_inv bn" al_owners "al_get bn" al_free
proof
  fix s s' :: "ram_pool \<times> crit" and a nb
  assume inv: "al_inv bn s"
  then have p: "alloc_inv bn (fst s)" and c: "crit_ok (snd s)" by (auto simp: al_inv_def)
  show "\<exists>r p'. al_get bn nb s = Some (r, p')"
    by (cases rule: pool_alloc_cases [OF p c, of nb]) (auto simp: al_get_def)
  show "s' = s" if "al_get bn nb s = Some (None, s')"
    using p c
  proof (cases rule: pool_alloc_cases [where nb = nb])
    case (some i)
    have "i < bn" using some(2,4) by (rule start_less)
    then show ?thesis using some that array_addr_nonnull [OF alloc_invD(5) [OF p]] by (simp add: al_get_def)
  qed (use that in \<open>simp add: al_get_def prod_eq_iff\<close>)
  show "al_owners s a = 0 \<and> al_inv bn s' \<and> al_owners s' = (al_owners s)(a := 1)"
    if "al_get bn nb s = Some (Some a, s')"
    using p c
  proof (cases rule: pool_alloc_cases [where nb = nb])
    case (some i)
    have i: "i < bn" using some(2,4) by (rule start_less)
    have s': "s' = (take_run (fst s) i nb, snd s)" "a = block_addr (fst s) i"
      using some that by (auto simp: al_get_def split: if_splits)
    have "i \<notin> run_starts 0 (rp_blocks (fst s))"
    proof
      assume "i \<in> run_starts 0 (rp_blocks (fst s))"
      then have "rp_blocks (fst s) ! i \<noteq> 0" using run_start_run [OF alloc_invD(3) [OF p], of 0 i] by simp
      moreover have "rp_blocks (fst s) ! (i + 0) = 0"
        using some(3,4) unfolding free_at_def by (meson unat_gt_0)
      ultimately show False by simp
    qed
    then have "al_owners s a = 0"
      using block_addr_mem [OF p run_starts_lessThan [OF p] i] by (simp add: al_owners_def s')
    moreover have "al_owners s' x = ((al_owners s)(a := 1)) x" for x
      using take_run_inv [OF p some(2-4)] by (simp add: al_owners_def s' block_addr_take_run)
    ultimately show ?thesis
      using take_run_inv [OF p some(2-4)] c by (simp add: al_inv_def s'(1) fun_eq_iff)
  qed (use that in \<open>simp add: al_get_def\<close>)
  show "\<exists>s'. al_free a s = Some s' \<and> al_inv bn s' \<and> al_owners s' = (al_owners s)(a := al_owners s a - 1)"
    if own: "0 < al_owners s a"
  proof -
    from own obtain i where i: "i \<in> run_starts 0 (rp_blocks (fst s))" "a = block_addr (fst s) i"
      by (auto simp: al_owners_def split: if_splits)
    have "(\<exists>j \<in> run_starts 0 (rp_blocks (fst s)) - {i}. x = block_addr (fst s) j) \<longleftrightarrow>
        x \<noteq> a \<and> (\<exists>j \<in> run_starts 0 (rp_blocks (fst s)). x = block_addr (fst s) j)" for x
      using block_addr_mem [OF p run_starts_lessThan [OF p] run_start_less [OF p i(1)]] i
        array_addr_inj [OF alloc_invD(5) [OF p] _ run_start_less [OF p i(1)]] run_start_less [OF p]
      by blast
    then have "al_owners (drop_run (fst s) i, snd s) x = ((al_owners s)(a := al_owners s a - 1)) x" for x
      using pool_free_run(3) [OF p c i(1)] own by (simp add: al_owners_def block_addr_drop_run)
    then show ?thesis
      using pool_free_run [OF p c i(1)] i c by (simp add: al_free_def al_inv_def fun_eq_iff)
  qed
qed

text \<open>
  C27. No block run is handed out twice: after every history of allocations, each of any number of
  blocks, and frees of what is held, the pointers held are pairwise distinct and exactly the starts
  of the live runs, and the status array is well formed.
\<close>

theorem pool_alloc_no_double:
  assumes "alloc_inv bn p" and "crit_ok c" and "run_starts 0 (rp_blocks p) = {}" and "\<forall>u\<in>set us. unshared u"
  shows "\<exists>hs p' c'. pool_run (al_get bn) al_free (\<lambda>_ _. None) us ([], p, c) = Some (hs, p', c') \<and>
    alloc_inv bn p' \<and> distinct hs \<and> set hs = block_addr p' ` run_starts 0 (rp_blocks p')"
proof -
  have "al.held bn ([], p, c)"
    using assms(1-3) by (simp add: al.held_def al_inv_def al_owners_def fun_eq_iff)
  from al.run_distinct [OF this assms(4), of "\<lambda>_ _. None"] show ?thesis
    by (fastforce simp: al_owners_def al_inv_def image_def split: if_splits)
qed


section \<open>Requests in bytes\<close>

text \<open>
  A successful \<open>pool_alloc_bytes\<close> of up to 255 blocks returns a live run that is large enough:
  the run at the returned address has at least \<open>num_bytes\<close> bytes, all inside the pool.
\<close>

theorem pool_alloc_bytes_enough:
  assumes "alloc_inv bn p" and "crit_ok c" and "unat n \<le> 255 * unat (rp_block_size p)"
    and "unat n + unat (rp_block_size p) \<le> 2 ^ 32"
    and "pool_alloc_bytes bn (rp_block_size p) c p n = Some (a, p1, c1)" and "a \<noteq> 0"
  shows "\<exists>i. a = block_addr p1 i \<and> i \<in> run_starts 0 (rp_blocks p1) \<and>
    unat n \<le> unat (rp_blocks p1 ! i) * unat (rp_block_size p) \<and> i + unat (rp_blocks p1 ! i) \<le> bn"
proof -
  have bs: "rp_block_size p \<noteq> 0" using alloc_invD(5) [OF assms(1)] by (simp add: array_fits_def)
  then have pos: "0 < unat (rp_block_size p)" by (simp add: unat_gt_0)
  obtain q where q: "div_round_up n (rp_block_size p) = Some q"
    "unat q = (unat n + unat (rp_block_size p) - 1) div unat (rp_block_size p)"
    using div_round_up_unat [OF bs assms(4)] by blast
  have "unat q \<le> 255" unfolding q(2) by (rule div_ceil_le [OF pos assms(3)])
  then have u: "unat (ucast q :: u8) = unat q" by (simp add: unat_ucast_u32_u8)
  have al: "pool_alloc_blocks bn c p (ucast q) = Some (a, p1, c1)"
    using assms(5) by (simp add: pool_alloc_bytes_def q(1))
  show ?thesis
    using assms(1,2)
  proof (cases rule: pool_alloc_cases [where nb = "ucast q"])
    case none
    with al assms(6) show ?thesis by simp
  next
    case (some i)
    then have eq: "a = block_addr p i" "p1 = take_run p i (ucast q)" using al by auto
    have "0 < unat (ucast q :: u8)" using some(4) unat_gt_0 by blast
    then have at: "rp_blocks p1 ! i = ucast q"
      using some(2) alloc_invD(1) [OF assms(1)] by (simp add: eq take_run_def nth_append)
    have "i \<in> run_starts 0 (rp_blocks p1)" using take_run_inv [OF assms(1) some(2-4)] by (simp add: eq(2))
    moreover have "unat n \<le> unat q * unat (rp_block_size p)" unfolding q(2) by (rule div_ceil_bounds [OF pos])
    ultimately show ?thesis
      using some(2) unfolding at u eq(1) eq(2) block_addr_take_run by (auto simp: eq(2) [symmetric] at u)
  qed
qed

text \<open>
  The number of blocks is passed on in an \<open>uint8_t\<close>: a request for 257 blocks' worth of bytes
  is served with a single block, instead of being refused.
\<close>

theorem pool_alloc_bytes_wraps:
  assumes "b \<noteq> 0" and "258 * unat b \<le> 2 ^ 32"
  shows "pool_alloc_bytes bn b c p (257 * b) = pool_alloc_blocks bn c p 1"
proof -
  have pos: "0 < unat b" using assms(1) by (simp add: unat_gt_0)
  have "unat (257 :: u32) * unat b < 2 ^ LENGTH(32)" using assms(2) pos by simp
  from unat_mult_lem [THEN iffD1, OF this] have m: "unat (257 * b) = 257 * unat b" by simp
  then have "unat (257 * b) + unat b \<le> 2 ^ 32" using assms(2) by simp
  from div_round_up_unat [OF assms(1) this] obtain q where q: "div_round_up (257 * b) b = Some q"
    "unat q = (257 * unat b + unat b - 1) div unat b" unfolding m by blast
  have "unat q = (unat b - 1 + 257 * unat b) div unat b" unfolding q(2) using pos
    by (intro arg_cong2 [where f = "(div)"]) simp_all
  also have "\<dots> = 257" using pos div_mult_self1 [of "unat b" "unat b - 1" 257] by simp
  finally have "unat q = 257" .
  then have "(ucast q :: u8) = 1" by (simp add: word_unat_eq_iff unat_ucast_u32_u8)
  then show ?thesis by (simp add: pool_alloc_bytes_def q(1))
qed

section \<open>Initialisation and concrete instances\<close>

lemma pool_init_inv:
  assumes "length (rp_blocks p) = bn" and "bn < 256" and "array_fits buf bsz bn" and "crit_ok c"
  shows "\<exists>p1. pool_init bn bsz buf c p = (p1, c) \<and> alloc_inv bn p1 \<and> run_starts 0 (rp_blocks p1) = {}"
proof -
  have "map (\<lambda>_. 0) (rp_blocks p) = replicate bn (0 :: u8)" using assms(1) by (simp add: map_replicate_const)
  then show ?thesis
    using assms by (simp add: pool_init_def alloc_inv_def wf_runs_replicate0 run_starts_replicate0
        Let_def del: map_replicate_const)
qed

text \<open>A pool of five blocks of 512 bytes with blocks 0, 1 (one run) and 3 taken.\<close>

definition demo_ram :: ram_pool where
  "demo_ram = \<lparr>rp_pool = 0x20000000, rp_block_size = 512, rp_pool_size = 5, rp_blocks_used = 3,
     rp_blocks = [2, 2, 0, 1, 0]\<rparr>"

lemma demo_ram_inv: "alloc_inv 5 demo_ram"
proof -
  have "wf_runs [2, 2, 0, 1, 0]" by code_simp
  then show ?thesis
    by (simp add: alloc_inv_def demo_ram_def used_blocks_def array_fits_def)
qed

theorem pool_alloc_blocks_first_fit_witness:
  "pool_alloc_blocks 5 crit_init demo_ram 1 = Some (0x20000400, take_run demo_ram 2 1, crit_init)"
proof -
  have "first_fit [2, 2, 0, 1, 0] (unat (1 :: u8)) = Some 2" by code_simp
  then show ?thesis
    using pool_alloc_blocks_first_fit [OF demo_ram_inv crit_ok_init, of 1]
    by (simp add: demo_ram_def array_addr_def)
qed

theorem pool_alloc_free_witness:
  "\<exists>p1. pool_alloc_blocks 5 crit_init demo_ram 1 = Some (0x20000400, p1, crit_init) \<and>
    pool_free crit_init p1 0x20000400 = Some (demo_ram, crit_init)"
proof -
  have "pool_alloc_blocks 5 crit_init demo_ram 1 =
      Some (0x20000400, demo_ram\<lparr>rp_blocks := [2, 2, 1, 1, 0], rp_blocks_used := 4\<rparr>, crit_init)" by code_simp
  from this pool_alloc_free [OF demo_ram_inv crit_ok_init this] show ?thesis by simp
qed

theorem pool_alloc_no_double_witness:
  "\<exists>hs p' c'. pool_run (al_get 5) al_free (\<lambda>_ _. None) [Pool_get 2, Pool_get 1, Pool_put 1, Pool_get 4, Pool_get 3]
     ([], demo_ram\<lparr>rp_blocks := [0, 0, 0, 0, 0], rp_blocks_used := 0\<rparr>, crit_init) = Some (hs, p', c') \<and>
   alloc_inv 5 p' \<and> distinct hs \<and> set hs = block_addr p' ` run_starts 0 (rp_blocks p')"
proof -
  have "alloc_inv 5 (demo_ram\<lparr>rp_blocks := [0, 0, 0, 0, 0], rp_blocks_used := 0\<rparr>)"
    by (simp add: alloc_inv_def demo_ram_def used_blocks_def array_fits_def)
  from pool_alloc_no_double [OF this crit_ok_init, of "[Pool_get 2, Pool_get 1, Pool_put 1, Pool_get 4, Pool_get 3]"]
  show ?thesis by (simp add: unshared_def del: pool_run.simps)
qed

theorem pool_alloc_bytes_enough_witness:
  "\<exists>a p1 i. pool_alloc_bytes 5 512 crit_init demo_ram 300 = Some (a, p1, crit_init) \<and>
    a = block_addr p1 i \<and> i \<in> run_starts 0 (rp_blocks p1) \<and> 300 \<le> unat (rp_blocks p1 ! i) * 512"
proof -
  have "pool_alloc_bytes 5 (rp_block_size demo_ram) crit_init demo_ram 300 =
      Some (0x20000400, demo_ram\<lparr>rp_blocks := [2, 2, 1, 1, 0], rp_blocks_used := 4\<rparr>, crit_init)" by code_simp
  from this pool_alloc_bytes_enough [OF demo_ram_inv crit_ok_init _ _ this] show ?thesis
    by (auto simp: demo_ram_def)
qed

theorem pool_alloc_bytes_wraps_witness:
  "pool_alloc_bytes 5 512 crit_init demo_ram 131584 = pool_alloc_blocks 5 crit_init demo_ram 1"
  using pool_alloc_bytes_wraps [of 512 5 crit_init demo_ram] by simp

end
