(* ===== verification/Ramx_Alloc.thy ===== *)
theory Ramx_Alloc
  imports Block_Runs
begin

text \<open>
  \<open>memory/ramx_alloc.h\<close> and \<open>.c\<close>: the allocator of the DMA memory RAMX, whose blocks are reference
  counted so that a buffer can be handed from one peripheral to another without a copy. Beside the
  status byte, every block has a counter; \<open>ramx_take_ownership\<close> and \<open>ramx_pool_free\<close> walk the run of
  their pointer. The lemmas show that a run is released exactly when its last owner frees it, that
  up to 255 owners are counted, and what the 8-bit counter does to the 256th.
\<close>

record ramx_pool =
  xp_pool :: u32
  xp_end_pool :: u32
  xp_block_size :: u32
  xp_pool_size :: u8
  xp_blocks_used :: u8
  xp_blocks :: "u8 list"
  xp_refs :: "u8 list"

definition ramx_pool_init :: "nat \<Rightarrow> u32 \<Rightarrow> u32 \<Rightarrow> ramx_pool \<Rightarrow> ramx_pool" where
  "ramx_pool_init POOL_BLOCK_NUM POOL_BLOCK_SIZE ramx_pool_buf p =
     (let p1 = p\<lparr>xp_pool_size := of_nat POOL_BLOCK_NUM, xp_block_size := POOL_BLOCK_SIZE,
                 xp_blocks_used := 0, xp_pool := ramx_pool_buf,
                 xp_end_pool := ramx_pool_buf + of_nat POOL_BLOCK_NUM * POOL_BLOCK_SIZE\<rparr>
      in p1\<lparr>xp_blocks := map (\<lambda>_. 0) (xp_blocks p1), xp_refs := map (\<lambda>_. 0) (xp_refs p1)\<rparr>)"

definition ramx_address_in_pool :: "ramx_pool \<Rightarrow> u32 \<Rightarrow> bool" where
  "ramx_address_in_pool p ptr \<longleftrightarrow> ptr < xp_end_pool p \<and> ptr \<ge> xp_pool p"

definition ramx_pool_stats_free :: "ramx_pool \<Rightarrow> u8" where
  "ramx_pool_stats_free p = xp_pool_size p - xp_blocks_used p"

definition ramx_pool_stats_used :: "ramx_pool \<Rightarrow> u8" where
  "ramx_pool_stats_used p = xp_blocks_used p"

definition ramx_pool_stats_blocks :: "ramx_pool \<Rightarrow> u8 list" where
  "ramx_pool_stats_blocks p = xp_blocks p"

definition ramx_pool_alloc_blocks ::
    "nat \<Rightarrow> crit \<Rightarrow> ramx_pool \<Rightarrow> u8 \<Rightarrow> (u32 \<times> ramx_pool \<times> crit) option" where
  "ramx_pool_alloc_blocks POOL_BLOCK_NUM c p num_blocks =
     (let c1 = bsp_enter_critical c in
      if num_blocks = 0 then Some (0, p, bsp_exit_critical c1)
      else if unat num_blocks > POOL_BLOCK_NUM then Some (0, p, bsp_exit_critical c1)
      else do {
        found \<leftarrow> space_search POOL_BLOCK_NUM (xp_blocks p) (unat num_blocks) 0 1;
        case found of
          None \<Rightarrow> Some (0, p, bsp_exit_critical c1)
        | Some i \<Rightarrow> do {
            bs \<leftarrow> blocks_set i (unat num_blocks) num_blocks (xp_blocks p);
            rs \<leftarrow> blocks_set i (unat num_blocks) 1 (xp_refs p);
            let p1 = p\<lparr>xp_blocks := bs, xp_refs := rs\<rparr>;
            let p2 = p1\<lparr>xp_blocks_used := xp_blocks_used p1 + num_blocks\<rparr>;
            let ret = xp_pool p2 + xp_block_size p2 * of_nat i;
            Some (ret, p2, bsp_exit_critical c1) } })"

definition ramx_pool_alloc_bytes ::
    "nat \<Rightarrow> u32 \<Rightarrow> crit \<Rightarrow> ramx_pool \<Rightarrow> u32 \<Rightarrow> (u32 \<times> ramx_pool \<times> crit) option" where
  "ramx_pool_alloc_bytes POOL_BLOCK_NUM POOL_BLOCK_SIZE c p num_bytes = do {
     n \<leftarrow> div_round_up num_bytes POOL_BLOCK_SIZE;
     let blocks_needed = (ucast n :: u8);
     ramx_pool_alloc_blocks POOL_BLOCK_NUM c p blocks_needed }"

definition ramx_block_index :: "ramx_pool \<Rightarrow> u32 \<Rightarrow> u8 option" where
  "ramx_block_index p ptr =
     (if xp_block_size p = 0 then None else Some (ucast ((ptr - xp_pool p) div xp_block_size p)))"

text \<open>The loop \<open>blocks_reference_counter[block_index + i] += 1\<close>.\<close>

definition refs_incr :: "nat \<Rightarrow> nat \<Rightarrow> u8 list \<Rightarrow> u8 list option" where
  "refs_incr idx n rs =
     (if idx + n \<le> length rs then Some (fold (\<lambda>j xs. xs[idx + j := xs ! (idx + j) + 1]) [0..<n] rs) else None)"

definition ramx_take_ownership :: "crit \<Rightarrow> ramx_pool \<Rightarrow> u32 \<Rightarrow> (ramx_pool \<times> crit) option" where
  "ramx_take_ownership c p ptr =
     (let c1 = bsp_enter_critical c in
      if ptr = 0 then Some (p, bsp_exit_critical c1)
      else do {
        block_index \<leftarrow> ramx_block_index p ptr;
        if unat block_index < length (xp_blocks p) then do {
          let num_blocks = xp_blocks p ! unat block_index;
          rs \<leftarrow> refs_incr (unat block_index) (unat num_blocks) (xp_refs p);
          Some (p\<lparr>xp_refs := rs\<rparr>, bsp_exit_critical c1) }
        else None })"

text \<open>The loop of \<open>ramx_pool_free\<close> over the blocks of the run, with the count \<open>num_freed\<close>.\<close>

function ramx_free_loop ::
    "nat \<Rightarrow> nat \<Rightarrow> nat \<Rightarrow> u8 list \<Rightarrow> u8 list \<Rightarrow> u8 \<Rightarrow> (u8 list \<times> u8 list \<times> u8) option" where
  "ramx_free_loop idx num_blocks i blocks refs num_freed =
     (if i < num_blocks then
        if idx + i < length blocks \<and> idx + i < length refs then
          if refs ! (idx + i) \<le> 1
          then ramx_free_loop idx num_blocks (i + 1) (blocks[idx + i := 0]) refs (num_freed + 1)
          else ramx_free_loop idx num_blocks (i + 1) blocks (refs[idx + i := refs ! (idx + i) - 1]) num_freed
        else None
      else Some (blocks, refs, num_freed))"
  by pat_completeness auto

termination
  by (relation "measure (\<lambda>(x, n, i, b, r, f). n - i)") auto

declare ramx_free_loop.simps [simp del]

definition ramx_pool_free :: "crit \<Rightarrow> ramx_pool \<Rightarrow> u32 \<Rightarrow> (ramx_pool \<times> crit) option" where
  "ramx_pool_free c p ptr =
     (let c1 = bsp_enter_critical c in
      if ptr = 0 then Some (p, bsp_exit_critical c1)
      else do {
        block_index \<leftarrow> ramx_block_index p ptr;
        if unat block_index < length (xp_blocks p) then do {
          let num_blocks = xp_blocks p ! unat block_index;
          (bs, rs, num_freed) \<leftarrow>
            ramx_free_loop (unat block_index) (unat num_blocks) 0 (xp_blocks p) (xp_refs p) 0;
          Some (p\<lparr>xp_blocks := bs, xp_refs := rs, xp_blocks_used := xp_blocks_used p - num_freed\<rparr>,
                bsp_exit_critical c1) }
        else None })"

section \<open>The loops over a run\<close>

lemma fold_incr:
  assumes "idx + n \<le> length rs" and "\<forall>j<n. rs ! (idx + j) = r"
  shows "fold (\<lambda>j xs. xs[idx + j := xs ! (idx + j) + 1]) [0..<n] rs =
    take idx rs @ replicate n (r + 1) @ drop (idx + n) rs"
  using assms
proof (induction n)
  case (Suc n)
  then have IH: "fold (\<lambda>j xs. xs[idx + j := xs ! (idx + j) + 1]) [0..<n] rs =
      take idx rs @ replicate n (r + 1) @ drop (idx + n) rs" by simp
  have "drop (idx + n) rs = r # drop (Suc (idx + n)) rs"
    using Suc.prems by (simp add: Cons_nth_drop_Suc [symmetric])
  then show ?case using Suc.prems
    by (simp add: IH list_update_append nth_append replicate_append_same)
qed simp

lemma ramx_free_loop_last:
  assumes "idx + n \<le> length bs" and "length rs = length bs" and "i \<le> n"
    and "\<forall>j<n. rs ! (idx + j) \<le> 1"
  shows "ramx_free_loop idx n i bs rs f =
    Some (take (idx + i) bs @ replicate (n - i) 0 @ drop (idx + n) bs, rs, f + of_nat (n - i))"
  using assms
proof (induction "n - i" arbitrary: i bs f)
  case 0
  then show ?case by (subst ramx_free_loop.simps) simp
next
  case (Suc m)
  then have "i < n" and sz: "n - i = Suc (n - Suc i)" by simp_all
  with Suc.prems have "ramx_free_loop idx n i bs rs f = ramx_free_loop idx n (i + 1) (bs[idx + i := 0]) rs (f + 1)"
    by (subst ramx_free_loop.simps) simp
  also have "\<dots> = Some (take (idx + (i + 1)) (bs[idx + i := 0]) @ replicate (n - (i + 1)) 0 @
      drop (idx + n) (bs[idx + i := 0]), rs, f + 1 + of_nat (n - (i + 1)))"
    using Suc by (intro Suc.hyps(1)) simp_all
  also have "take (idx + (i + 1)) (bs[idx + i := 0]) = take (idx + i) bs @ [0]"
    using Suc.prems Suc.hyps(2) by (simp add: take_Suc_conv_app_nth)
  also have "drop (idx + n) (bs[idx + i := 0]) = drop (idx + n) bs" using Suc.hyps(2) by simp
  finally show ?case by (simp add: sz)
qed

lemma ramx_free_loop_shared:
  assumes "idx + n \<le> length rs" and "length rs = length bs" and "i \<le> n"
    and "\<forall>j<n. i \<le> j \<longrightarrow> rs ! (idx + j) = r" and "1 < r"
  shows "ramx_free_loop idx n i bs rs f =
    Some (bs, take (idx + i) rs @ replicate (n - i) (r - 1) @ drop (idx + n) rs, f)"
  using assms
proof (induction "n - i" arbitrary: i rs)
  case 0
  then show ?case by (subst ramx_free_loop.simps) simp
next
  case (Suc m)
  then have "i < n" and sz: "n - i = Suc (n - Suc i)" by simp_all
  moreover have "\<not> r \<le> 1" using Suc.prems(5) by (simp only: not_le)
  ultimately have "ramx_free_loop idx n i bs rs f = ramx_free_loop idx n (i + 1) bs (rs[idx + i := r - 1]) f"
    using Suc.prems by (subst ramx_free_loop.simps) simp
  also have "\<dots> = Some (bs, take (idx + (i + 1)) (rs[idx + i := r - 1]) @ replicate (n - (i + 1)) (r - 1) @
      drop (idx + n) (rs[idx + i := r - 1]), f)"
    using Suc by (intro Suc.hyps(1)) simp_all
  also have "take (idx + (i + 1)) (rs[idx + i := r - 1]) = take (idx + i) rs @ [r - 1]"
    using Suc.prems Suc.hyps(2) by (simp add: take_Suc_conv_app_nth)
  also have "drop (idx + n) (rs[idx + i := r - 1]) = drop (idx + n) rs" using Suc.hyps(2) by simp
  finally show ?case by (simp add: sz)
qed


section \<open>The invariant\<close>

text \<open>As in \<open>Alloc\<close>, and every run has one counter value, at least 1, on all its blocks.\<close>

definition ramx_inv :: "nat \<Rightarrow> ramx_pool \<Rightarrow> bool" where
  "ramx_inv bn p \<longleftrightarrow> length (xp_blocks p) = bn \<and> length (xp_refs p) = bn \<and> bn < 256 \<and>
     wf_runs (xp_blocks p) \<and> xp_blocks_used p = of_nat (used_blocks (xp_blocks p)) \<and>
     array_fits (xp_pool p) (xp_block_size p) bn \<and>
     (\<forall>i \<in> run_starts 0 (xp_blocks p). 1 \<le> xp_refs p ! i \<and>
        (\<forall>j < unat (xp_blocks p ! i). xp_refs p ! (i + j) = xp_refs p ! i))"

abbreviation xblock_addr :: "ramx_pool \<Rightarrow> nat \<Rightarrow> u32" where
  "xblock_addr p i \<equiv> array_addr (xp_pool p) (xp_block_size p) i"

lemma ramx_invD:
  assumes "ramx_inv bn p"
  shows "length (xp_blocks p) = bn" "length (xp_refs p) = bn" "bn < 256" "wf_runs (xp_blocks p)"
    "xp_blocks_used p = of_nat (used_blocks (xp_blocks p))"
    "array_fits (xp_pool p) (xp_block_size p) bn"
    "\<And>i. i \<in> run_starts 0 (xp_blocks p) \<Longrightarrow> 1 \<le> xp_refs p ! i"
    "\<And>i j. i \<in> run_starts 0 (xp_blocks p) \<Longrightarrow> j < unat (xp_blocks p ! i) \<Longrightarrow> xp_refs p ! (i + j) = xp_refs p ! i"
  using assms by (auto simp: ramx_inv_def)

text \<open>The number of owners of the run at address \<open>a\<close>; 0 when no run starts there.\<close>

definition ramx_owners :: "ramx_pool \<Rightarrow> u32 \<Rightarrow> nat" where
  "ramx_owners p a = (\<Sum>i \<in> {i \<in> run_starts 0 (xp_blocks p). a = xblock_addr p i}. unat (xp_refs p ! i))"

lemma xrun:
  assumes "ramx_inv bn p" and "i \<in> run_starts 0 (xp_blocks p)"
  shows "xp_blocks p ! i \<noteq> 0" "i + unat (xp_blocks p ! i) \<le> bn" "i < bn"
    "\<forall>j < unat (xp_blocks p ! i). xp_blocks p ! (i + j) = xp_blocks p ! i"
proof -
  note r = run_start_run [OF ramx_invD(4) [OF assms(1)], of 0 i, simplified, OF assms(2)]
  from r show "xp_blocks p ! i \<noteq> 0" by blast
  moreover from r ramx_invD(1) [OF assms(1)] show "i + unat (xp_blocks p ! i) \<le> bn" by simp
  ultimately show "i < bn" by (intro start_less)
  from r show "\<forall>j < unat (xp_blocks p ! i). xp_blocks p ! (i + j) = xp_blocks p ! i" by blast
qed

lemma ramx_owners_run:
  assumes "ramx_inv bn p" and "i \<in> run_starts 0 (xp_blocks p)"
  shows "ramx_owners p (xblock_addr p i) = unat (xp_refs p ! i)"
proof -
  have "{j \<in> run_starts 0 (xp_blocks p). xblock_addr p i = xblock_addr p j} = {i}"
    using array_addr_inj [OF ramx_invD(6) [OF assms(1)] xrun(3) [OF assms]] xrun(3) [OF assms(1)] assms(2)
    by blast
  then show ?thesis by (simp add: ramx_owners_def)
qed

lemma ramx_owners_none:
  "(\<And>i. i \<in> run_starts 0 (xp_blocks p) \<Longrightarrow> a \<noteq> xblock_addr p i) \<Longrightarrow> ramx_owners p a = 0"
  unfolding ramx_owners_def by (rule sum.neutral) blast

lemma ramx_owners_pos:
  assumes "ramx_inv bn p" and "0 < ramx_owners p a"
  obtains i where "i \<in> run_starts 0 (xp_blocks p)" "a = xblock_addr p i" "ramx_owners p a = unat (xp_refs p ! i)"
  using assms ramx_owners_none [of p a] ramx_owners_run [OF assms(1)] by (metis less_nat_zero_code)

lemma xblock_index:
  assumes "ramx_inv bn p" and "i < bn"
  shows "\<exists>k. ramx_block_index p (xblock_addr p i) = Some k \<and> unat k = i"
  using array_index [OF ramx_invD(6) [OF assms(1)] assms(2)] ramx_invD(3,6) [OF assms(1)] assms(2)
  by (simp add: ramx_block_index_def unat_ucast_u32_u8 array_fits_def)

section \<open>What the operations do to a run\<close>

definition xtake_run :: "ramx_pool \<Rightarrow> nat \<Rightarrow> u8 \<Rightarrow> ramx_pool" where
  "xtake_run p i nb = p\<lparr>xp_blocks := take i (xp_blocks p) @ replicate (unat nb) nb @ drop (i + unat nb) (xp_blocks p),
     xp_refs := take i (xp_refs p) @ replicate (unat nb) 1 @ drop (i + unat nb) (xp_refs p),
     xp_blocks_used := xp_blocks_used p + nb\<rparr>"

definition xset_refs :: "ramx_pool \<Rightarrow> nat \<Rightarrow> u8 \<Rightarrow> ramx_pool" where
  "xset_refs p i r = (let n = unat (xp_blocks p ! i) in
     p\<lparr>xp_refs := take i (xp_refs p) @ replicate n r @ drop (i + n) (xp_refs p)\<rparr>)"

definition xdrop_run :: "ramx_pool \<Rightarrow> nat \<Rightarrow> ramx_pool" where
  "xdrop_run p i = (let n = xp_blocks p ! i in
     p\<lparr>xp_blocks := take i (xp_blocks p) @ replicate (unat n) 0 @ drop (i + unat n) (xp_blocks p),
       xp_blocks_used := xp_blocks_used p - n\<rparr>)"

lemma xblock_addr_runs [simp]:
  "xblock_addr (xtake_run p i nb) j = xblock_addr p j"
  "xblock_addr (xset_refs p i r) j = xblock_addr p j"
  "xblock_addr (xdrop_run p i) j = xblock_addr p j"
  by (simp_all add: xtake_run_def xset_refs_def xdrop_run_def Let_def)

text \<open>
  \<open>ramx_pool_alloc_blocks\<close> is first fit and fails only when it must, like \<open>pool_alloc_blocks\<close>,
  and the blocks it takes have one owner.
\<close>

theorem ramx_alloc_blocks_first_fit:
  assumes "ramx_inv bn p" and "crit_ok c"
  shows "ramx_pool_alloc_blocks bn c p nb =
    Some (case (if nb = 0 \<or> bn < unat nb then None else first_fit (xp_blocks p) (unat nb)) of
        None \<Rightarrow> (0, p, c)
      | Some i \<Rightarrow> (xblock_addr p i, xtake_run p i nb, c))"
proof (cases "nb = 0 \<or> bn < unat nb")
  case True
  then show ?thesis using assms(2) by (auto simp: ramx_pool_alloc_blocks_def Let_def)
next
  case False
  note d = ramx_invD(1,2) [OF assms(1)]
  have nb: "0 < unat nb" "unat nb \<le> length (xp_blocks p)" using False d by (simp_all add: unat_gt_0)
  from space_search_first_fit [OF this] d(1)
  have "space_search bn (xp_blocks p) (unat nb) 0 1 = Some (first_fit (xp_blocks p) (unat nb))" by simp
  moreover have "i + unat nb \<le> bn" if "first_fit (xp_blocks p) (unat nb) = Some i" for i
    using first_fit_Some [OF that nb] d by simp
  ultimately show ?thesis using False assms(2) d
    by (auto simp: ramx_pool_alloc_blocks_def blocks_set_eq xtake_run_def array_addr_def Let_def mult.commute
        split: option.splits)
qed

lemma ramx_alloc_cases:
  assumes "ramx_inv bn p" and "crit_ok c"
  obtains (none) "ramx_pool_alloc_blocks bn c p nb = Some (0, p, c)"
  | (some) i where "ramx_pool_alloc_blocks bn c p nb = Some (xblock_addr p i, xtake_run p i nb, c)"
      "i + unat nb \<le> bn" "free_at (xp_blocks p) (unat nb) i" "nb \<noteq> 0"
proof (cases "if nb = 0 \<or> bn < unat nb then None else first_fit (xp_blocks p) (unat nb)")
  case None
  then show ?thesis using none ramx_alloc_blocks_first_fit [OF assms, of nb] by simp
next
  case (Some i)
  then have nb: "nb \<noteq> 0" "unat nb \<le> bn" "first_fit (xp_blocks p) (unat nb) = Some i"
    by (auto split: if_splits)
  then show ?thesis
    using some [of i] first_fit_Some [OF nb(3)] ramx_alloc_blocks_first_fit [OF assms, of nb] Some
      ramx_invD(1) [OF assms(1)] by (simp add: unat_gt_0)
qed


lemma xtake_run_inv:
  assumes "ramx_inv bn p" and "i + unat nb \<le> bn" and "free_at (xp_blocks p) (unat nb) i" and "nb \<noteq> 0"
  shows "ramx_inv bn (xtake_run p i nb)"
    and "run_starts 0 (xp_blocks (xtake_run p i nb)) = insert i (run_starts 0 (xp_blocks p))"
    and "i \<notin> run_starts 0 (xp_blocks p)"
    and "xp_refs (xtake_run p i nb) ! k = (if i \<le> k \<and> k < i + unat nb then 1 else xp_refs p ! k)"
proof -
  note d = ramx_invD [OF assms(1)]
  have le: "i + unat nb \<le> length (xp_blocks p)" "i + unat nb \<le> length (xp_refs p)" using d assms(2) by simp_all
  have pos: "0 < unat nb" using assms(4) by (simp add: unat_gt_0)
  show refs: "xp_refs (xtake_run p i nb) ! k = (if i \<le> k \<and> k < i + unat nb then 1 else xp_refs p ! k)" for k
    using nth_splice [OF le(2)] by (simp add: xtake_run_def)
  have blk: "xp_blocks (xtake_run p i nb) ! k = (if i \<le> k \<and> k < i + unat nb then nb else xp_blocks p ! k)" for k
    using nth_splice [OF le(1)] by (simp add: xtake_run_def)
  have mk: "wf_runs (xp_blocks (xtake_run p i nb))"
    "run_starts 0 (xp_blocks (xtake_run p i nb)) = insert i (run_starts 0 (xp_blocks p))"
    using mark_run [OF d(4) le(1) assms(3) refl assms(4), of 0] by (simp_all add: xtake_run_def)
  then show "run_starts 0 (xp_blocks (xtake_run p i nb)) = insert i (run_starts 0 (xp_blocks p))" by simp
  have free: "xp_blocks p ! k = 0" if "i \<le> k" "k < i + unat nb" for k
    using assms(3) that unfolding free_at_def by (metis le_add_diff_inverse nat_add_left_cancel_less)
  show nin: "i \<notin> run_starts 0 (xp_blocks p)"
    using xrun(1) [OF assms(1)] free [of i] pos by auto
  have other: "\<not> (i \<le> s + j \<and> s + j < i + unat nb)"
    if "s \<in> run_starts 0 (xp_blocks p)" "j < unat (xp_blocks p ! s)" for s j
    using free [of "s + j"] xrun(1,4) [OF assms(1) that(1)] that(2) by auto
  have own: "1 \<le> xp_refs (xtake_run p i nb) ! s \<and> (\<forall>j < unat (xp_blocks (xtake_run p i nb) ! s).
      xp_refs (xtake_run p i nb) ! (s + j) = xp_refs (xtake_run p i nb) ! s)"
    if "s \<in> run_starts 0 (xp_blocks (xtake_run p i nb))" for s
  proof (cases "s = i")
    case True
    then show ?thesis using pos by (simp add: refs blk)
  next
    case False
    then have s: "s \<in> run_starts 0 (xp_blocks p)" using that mk(2) by simp
    have "0 < unat (xp_blocks p ! s)" using xrun(1) [OF assms(1) s] by (simp add: unat_gt_0)
    then have "\<not> (i \<le> s \<and> s < i + unat nb)" using other [OF s, of 0] by simp
    then show ?thesis using other [OF s] d(7,8) [OF s] by (auto simp: refs blk)
  qed
  have "length (xp_blocks (xtake_run p i nb)) = bn" "length (xp_refs (xtake_run p i nb)) = bn"
    using le d by (simp_all add: xtake_run_def)
  moreover have "xp_blocks_used (xtake_run p i nb) = of_nat (used_blocks (xp_blocks (xtake_run p i nb)))"
    using used_take_run [OF le(1) assms(3,4)] d(5) by (simp add: xtake_run_def)
  moreover have "array_fits (xp_pool (xtake_run p i nb)) (xp_block_size (xtake_run p i nb)) bn"
    using d(6) by (simp add: xtake_run_def)
  ultimately show "ramx_inv bn (xtake_run p i nb)"
    using mk(1) own d(3) unfolding ramx_inv_def by blast
qed

lemma xset_refs_inv:
  assumes "ramx_inv bn p" and "i \<in> run_starts 0 (xp_blocks p)" and "1 \<le> r"
  shows "ramx_inv bn (xset_refs p i r)"
    and "xp_blocks (xset_refs p i r) = xp_blocks p"
    and "s \<in> run_starts 0 (xp_blocks p) \<Longrightarrow> xp_refs (xset_refs p i r) ! s = (if s = i then r else xp_refs p ! s)"
proof -
  note d = ramx_invD [OF assms(1)]
  note x = xrun [OF assms(1,2)]
  show blk: "xp_blocks (xset_refs p i r) = xp_blocks p" by (simp add: xset_refs_def Let_def)
  have len: "i + unat (xp_blocks p ! i) \<le> length (xp_refs p)" using x d by simp
  have refs: "xp_refs (xset_refs p i r) ! k =
      (if i \<le> k \<and> k < i + unat (xp_blocks p ! i) then r else xp_refs p ! k)" for k
    using nth_splice [OF len] by (simp add: xset_refs_def Let_def)
  have pos: "0 < unat (xp_blocks p ! s)" if "s \<in> run_starts 0 (xp_blocks p)" for s
    using xrun(1) [OF assms(1) that] by (simp add: unat_gt_0)
  have at: "xp_refs (xset_refs p i r) ! (s + j) = (if s = i then r else xp_refs p ! s)"
    if "s \<in> run_starts 0 (xp_blocks p)" "j < unat (xp_blocks p ! s)" for s j
    using run_outside_run [OF d(4) assms(2) that(1) _ that(2)] d(8) [OF that] that(2)
    by (cases "s = i") (auto simp: refs)
  from at [where j = 0] pos
  show at0: "s \<in> run_starts 0 (xp_blocks p) \<Longrightarrow> xp_refs (xset_refs p i r) ! s = (if s = i then r else xp_refs p ! s)"
    for s by simp
  have "length (xp_refs (xset_refs p i r)) = bn" using len d by (simp add: xset_refs_def Let_def)
  moreover have "\<forall>s \<in> run_starts 0 (xp_blocks (xset_refs p i r)). 1 \<le> xp_refs (xset_refs p i r) ! s \<and>
      (\<forall>j < unat (xp_blocks (xset_refs p i r) ! s).
        xp_refs (xset_refs p i r) ! (s + j) = xp_refs (xset_refs p i r) ! s)"
    using at at0 d(7) assms(3) by (simp add: blk)
  moreover have "xp_blocks_used (xset_refs p i r) = xp_blocks_used p" "xp_pool (xset_refs p i r) = xp_pool p"
    "xp_block_size (xset_refs p i r) = xp_block_size p" by (simp_all add: xset_refs_def Let_def)
  ultimately show "ramx_inv bn (xset_refs p i r)" using d(1-6) by (simp add: ramx_inv_def blk)
qed

lemma xdrop_run_inv:
  assumes "ramx_inv bn p" and "i \<in> run_starts 0 (xp_blocks p)"
  shows "ramx_inv bn (xdrop_run p i)"
    and "run_starts 0 (xp_blocks (xdrop_run p i)) = run_starts 0 (xp_blocks p) - {i}"
    and "xp_refs (xdrop_run p i) = xp_refs p"
proof -
  note d = ramx_invD [OF assms(1)]
  note x = xrun [OF assms]
  let ?n = "unat (xp_blocks p ! i)"
  show refs: "xp_refs (xdrop_run p i) = xp_refs p" by (simp add: xdrop_run_def Let_def)
  have c: "wf_runs (xp_blocks (xdrop_run p i))"
    "run_starts 0 (xp_blocks (xdrop_run p i)) = run_starts 0 (xp_blocks p) - {i}"
    using clear_run [OF d(4), of 0 i ?n] assms(2) by (simp_all add: xdrop_run_def Let_def)
  from c(2) show "run_starts 0 (xp_blocks (xdrop_run p i)) = run_starts 0 (xp_blocks p) - {i}" .
  have le: "i + ?n \<le> length (xp_blocks p)" using x d by simp
  have blk: "xp_blocks (xdrop_run p i) ! k = (if i \<le> k \<and> k < i + ?n then 0 else xp_blocks p ! k)" for k
    using nth_splice [OF le] by (simp add: xdrop_run_def Let_def)
  have "take ?n (drop i (xp_blocks p)) = replicate ?n (xp_blocks p ! i)"
    using x(4) le by (intro take_drop_const) simp_all
  then have u: "used_blocks (xp_blocks p) = used_blocks (xp_blocks (xdrop_run p i)) + ?n"
    using used_blocks_split [OF le] x(1) by (simp add: xdrop_run_def Let_def)
  have own: "1 \<le> xp_refs p ! s \<and> (\<forall>j < unat (xp_blocks (xdrop_run p i) ! s). xp_refs p ! (s + j) = xp_refs p ! s)"
    if "s \<in> run_starts 0 (xp_blocks p) - {i}" for s
  proof -
    have s: "s \<in> run_starts 0 (xp_blocks p)" "i \<noteq> s" using that by auto
    have "0 < unat (xp_blocks p ! s)" using xrun(1) [OF assms(1) s(1)] by (simp add: unat_gt_0)
    then have "\<not> (i \<le> s \<and> s < i + ?n)" using run_outside_run [OF d(4) assms(2) s, of 0] by simp
    then show ?thesis using d(7,8) [OF s(1)] by (simp add: blk)
  qed
  have "length (xp_blocks (xdrop_run p i)) = bn" using le d by (simp add: xdrop_run_def Let_def)
  moreover have "xp_blocks_used (xdrop_run p i) = of_nat (used_blocks (xp_blocks (xdrop_run p i)))"
    using u d(5) by (simp add: xdrop_run_def Let_def)
  moreover have "array_fits (xp_pool (xdrop_run p i)) (xp_block_size (xdrop_run p i)) bn"
    using d(6) by (simp add: xdrop_run_def Let_def)
  ultimately show "ramx_inv bn (xdrop_run p i)"
    using c own d(2,3) unfolding ramx_inv_def refs by blast
qed

lemma ramx_take_ownership_run:
  assumes "ramx_inv bn p" and "crit_ok c" and "i \<in> run_starts 0 (xp_blocks p)"
  shows "ramx_take_ownership c p (xblock_addr p i) = Some (xset_refs p i (xp_refs p ! i + 1), c)"
proof -
  note d = ramx_invD [OF assms(1)]
  note x = xrun [OF assms(1,3)]
  obtain k where k: "ramx_block_index p (xblock_addr p i) = Some k" "unat k = i"
    using xblock_index [OF assms(1) x(3)] by blast
  have "i + unat (xp_blocks p ! i) \<le> length (xp_refs p)" using x d by simp
  then show ?thesis
    using array_addr_nonnull [OF d(6) x(3)] k x d fold_incr [of i "unat (xp_blocks p ! i)" "xp_refs p"] d(8) [OF assms(3)] assms(2)
    by (simp add: ramx_take_ownership_def refs_incr_def xset_refs_def Let_def)
qed

lemma ramx_pool_free_run:
  assumes "ramx_inv bn p" and "crit_ok c" and "i \<in> run_starts 0 (xp_blocks p)"
  shows "ramx_pool_free c p (xblock_addr p i) = Some (if xp_refs p ! i = 1 then xdrop_run p i
    else xset_refs p i (xp_refs p ! i - 1), c)"
proof -
  note d = ramx_invD [OF assms(1)]
  note x = xrun [OF assms(1,3)]
  obtain k where k: "ramx_block_index p (xblock_addr p i) = Some k" "unat k = i"
    using xblock_index [OF assms(1) x(3)] by blast
  have le: "i + unat (xp_blocks p ! i) \<le> length (xp_blocks p)" "i + unat (xp_blocks p ! i) \<le> length (xp_refs p)"
    "length (xp_refs p) = length (xp_blocks p)" using x d by simp_all
  have same: "xp_refs p ! (i + j) = xp_refs p ! i" if "j < unat (xp_blocks p ! i)" for j
    using d(8) [OF assms(3) that] .
  have nn: "xblock_addr p i \<noteq> 0" by (rule array_addr_nonnull [OF d(6) x(3)])
  show ?thesis
  proof (cases "xp_refs p ! i = 1")
    case True
    then have "ramx_free_loop i (unat (xp_blocks p ! i)) 0 (xp_blocks p) (xp_refs p) 0 =
        Some (take i (xp_blocks p) @ replicate (unat (xp_blocks p ! i)) 0 @
          drop (i + unat (xp_blocks p ! i)) (xp_blocks p), xp_refs p, xp_blocks p ! i)"
      using ramx_free_loop_last [OF le(1,3), of 0 0] same by simp
    then show ?thesis using True k x(3) d(1) nn assms(2)
      by (simp add: ramx_pool_free_def xdrop_run_def Let_def)
  next
    case False
    then have "1 < xp_refs p ! i" using d(7) [OF assms(3)] by simp
    then have "ramx_free_loop i (unat (xp_blocks p ! i)) 0 (xp_blocks p) (xp_refs p) 0 =
        Some (xp_blocks p, take i (xp_refs p) @ replicate (unat (xp_blocks p ! i)) (xp_refs p ! i - 1) @
          drop (i + unat (xp_blocks p ! i)) (xp_refs p), 0)"
      using ramx_free_loop_shared [OF le(2,3), of 0 "xp_refs p ! i" 0] same by simp
    then show ?thesis using False k x(3) d(1) nn assms(2)
      by (simp add: ramx_pool_free_def xset_refs_def Let_def)
  qed
qed


section \<open>Ownership\<close>

lemma ramx_owners_absent:
  assumes "ramx_inv bn p" and "i < bn" and "i \<notin> run_starts 0 (xp_blocks p)"
  shows "ramx_owners p (xblock_addr p i) = 0"
  using array_addr_inj [OF ramx_invD(6) [OF assms(1)] assms(2) xrun(3) [OF assms(1)]] assms(3)
  by (intro ramx_owners_none) blast

text \<open>A step that changes at most the run at \<open>i\<close>.\<close>

lemma ramx_owners_upd:
  assumes p: "ramx_inv bn p" and p': "ramx_inv bn p'" and i: "i < bn"
    and addr: "\<And>s. xblock_addr p' s = xblock_addr p s"
    and starts: "\<And>s. s \<noteq> i \<Longrightarrow> s \<in> run_starts 0 (xp_blocks p') \<longleftrightarrow> s \<in> run_starts 0 (xp_blocks p)"
    and refs: "\<And>s. s \<noteq> i \<Longrightarrow> s \<in> run_starts 0 (xp_blocks p) \<Longrightarrow> xp_refs p' ! s = xp_refs p ! s"
  shows "ramx_owners p' = (ramx_owners p)(xblock_addr p i :=
    (if i \<in> run_starts 0 (xp_blocks p') then unat (xp_refs p' ! i) else 0))"
proof
  fix a
  consider "a = xblock_addr p i" | s where "a \<noteq> xblock_addr p i" "s \<in> run_starts 0 (xp_blocks p)" "a = xblock_addr p s"
    | "a \<noteq> xblock_addr p i" "\<forall>s \<in> run_starts 0 (xp_blocks p). a \<noteq> xblock_addr p s" by blast
  then show "ramx_owners p' a = ((ramx_owners p)(xblock_addr p i :=
    (if i \<in> run_starts 0 (xp_blocks p') then unat (xp_refs p' ! i) else 0))) a"
  proof cases
    case 1
    then show ?thesis
      using ramx_owners_run [OF p', of i] ramx_owners_absent [OF p' i] by (auto simp: addr)
  next
    case (2 s)
    then have si: "s \<noteq> i" by blast
    with 2(2) starts have "s \<in> run_starts 0 (xp_blocks p')" by blast
    from ramx_owners_run [OF p' this] ramx_owners_run [OF p 2(2)] refs [OF si 2(2)] 2(1,3)
    show ?thesis by (simp add: addr)
  next
    case 3
    have "ramx_owners p' a = 0"
      by (rule ramx_owners_none) (metis 3 addr starts)
    moreover have "ramx_owners p a = 0" by (rule ramx_owners_none) (use 3 in blast)
    ultimately show ?thesis using 3(1) by simp
  qed
qed

lemma ramx_owners_xtake:
  assumes "ramx_inv bn p" and "i + unat nb \<le> bn" and "free_at (xp_blocks p) (unat nb) i" and "nb \<noteq> 0"
  shows "ramx_owners (xtake_run p i nb) = (ramx_owners p)(xblock_addr p i := 1)"
    and "ramx_owners p (xblock_addr p i) = 0"
proof -
  note t = xtake_run_inv [OF assms]
  have i: "i < bn" using assms(2,4) by (rule start_less)
  from ramx_owners_absent [OF assms(1) i t(3)] show "ramx_owners p (xblock_addr p i) = 0" .
  have "xp_refs (xtake_run p i nb) ! s = xp_refs p ! s" if "s \<in> run_starts 0 (xp_blocks p)" for s
  proof -
    have "0 < unat (xp_blocks p ! s)" "s < bn" using xrun [OF assms(1) that] by (simp_all add: unat_gt_0)
    moreover have "xp_blocks p ! s = 0" if "i \<le> s" "s < i + unat nb"
      using assms(3) that unfolding free_at_def by (metis le_add_diff_inverse nat_add_left_cancel_less)
    ultimately show ?thesis by (auto simp: t(4))
  qed
  with ramx_owners_upd [OF assms(1) t(1) i] t(2,4) assms(4)
  show "ramx_owners (xtake_run p i nb) = (ramx_owners p)(xblock_addr p i := 1)"
    by (simp add: unat_gt_0)
qed

lemma ramx_owners_xset:
  assumes "ramx_inv bn p" and "i \<in> run_starts 0 (xp_blocks p)" and "1 \<le> r"
  shows "ramx_owners (xset_refs p i r) = (ramx_owners p)(xblock_addr p i := unat r)"
  using ramx_owners_upd [OF assms(1) xset_refs_inv(1) [OF assms] xrun(3) [OF assms(1,2)]]
    xset_refs_inv(2,3) [OF assms] assms(2) by simp

lemma ramx_owners_xdrop:
  assumes "ramx_inv bn p" and "i \<in> run_starts 0 (xp_blocks p)"
  shows "ramx_owners (xdrop_run p i) = (ramx_owners p)(xblock_addr p i := 0)"
  using ramx_owners_upd [OF assms(1) xdrop_run_inv(1) [OF assms] xrun(3) [OF assms]]
    xdrop_run_inv(2,3) [OF assms] by simp

text \<open>Freeing a free block does nothing; this is what happens when a buffer with one owner is freed
  twice in a row.\<close>

lemma ramx_pool_free_free:
  assumes "ramx_inv bn p" and "crit_ok c" and "i < bn" and "xp_blocks p ! i = 0"
  shows "ramx_pool_free c p (xblock_addr p i) = Some (p, c)"
proof -
  obtain k where "ramx_block_index p (xblock_addr p i) = Some k" "unat k = i"
    using xblock_index [OF assms(1,3)] by blast
  moreover have "ramx_free_loop i 0 0 bs rs f = Some (bs, rs, f)" for bs rs f
    by (subst ramx_free_loop.simps) simp
  ultimately show ?thesis
    using assms array_addr_nonnull [OF ramx_invD(6) [OF assms(1)] assms(3)] ramx_invD(1) [OF assms(1)]
    by (simp add: ramx_pool_free_def Let_def)
qed

lemma ramx_pool_free_last:
  assumes "ramx_inv bn p" and "crit_ok c" and "i \<in> run_starts 0 (xp_blocks p)" and "xp_refs p ! i = 1"
  shows "ramx_pool_free c p (xblock_addr p i) = Some (xdrop_run p i, c)"
    and "ramx_pool_free c (xdrop_run p i) (xblock_addr p i) = Some (xdrop_run p i, c)"
proof -
  note x = xrun [OF assms(1,3)]
  show "ramx_pool_free c p (xblock_addr p i) = Some (xdrop_run p i, c)"
    using ramx_pool_free_run [OF assms(1-3)] assms(4) by simp
  have "0 < unat (xp_blocks p ! i)" "i \<le> length (xp_blocks p)"
    using x ramx_invD(1) [OF assms(1)] by (simp_all add: unat_gt_0)
  then have "xp_blocks (xdrop_run p i) ! i = 0"
    by (simp add: xdrop_run_def Let_def nth_append)
  from ramx_pool_free_free [OF xdrop_run_inv(1) [OF assms(1,3)] assms(2) x(3) this]
  show "ramx_pool_free c (xdrop_run p i) (xblock_addr p i) = Some (xdrop_run p i, c)" by simp
qed

lemma unat_1_le: "1 \<le> (r :: u8) \<longleftrightarrow> 0 < unat r"
  by (simp add: word_le_nat_alt Suc_le_eq)

lemma unat_u8_incr: "unat (r :: u8) < 255 \<Longrightarrow> unat (r + 1) = Suc (unat r)"
  by (rule unat_Suc_below [of r 255]) (simp add: word_less_nat_alt)

lemma unat_u8_decr: "1 \<le> (r :: u8) \<Longrightarrow> unat (r - 1) = unat r - 1"
  by (simp add: unat_1_le unat_diff_le Suc_le_eq)

text \<open>The operations as those of a shared pool.\<close>

definition rx_inv :: "nat \<Rightarrow> ramx_pool \<times> crit \<Rightarrow> bool" where
  "rx_inv bn s \<longleftrightarrow> ramx_inv bn (fst s) \<and> crit_ok (snd s)"

definition rx_owners :: "ramx_pool \<times> crit \<Rightarrow> u32 \<Rightarrow> nat" where
  "rx_owners s = ramx_owners (fst s)"

definition rx_get :: "nat \<Rightarrow> u8 \<Rightarrow> ramx_pool \<times> crit \<Rightarrow> (u32 option \<times> ramx_pool \<times> crit) option" where
  "rx_get bn nb s = do { (a, p, c) \<leftarrow> ramx_pool_alloc_blocks bn (snd s) (fst s) nb;
     Some (if a = 0 then None else Some a, p, c) }"

definition rx_free :: "u32 \<Rightarrow> ramx_pool \<times> crit \<Rightarrow> (ramx_pool \<times> crit) option" where
  "rx_free a s = ramx_pool_free (snd s) (fst s) a"

definition rx_take :: "u32 \<Rightarrow> ramx_pool \<times> crit \<Rightarrow> (ramx_pool \<times> crit) option" where
  "rx_take a s = ramx_take_ownership (snd s) (fst s) a"

interpretation rx: shared_pool "rx_inv bn" rx_owners "rx_get bn" rx_free rx_take 255
proof
  fix s s' :: "ramx_pool \<times> crit" and a nb
  assume inv: "rx_inv bn s"
  then have p: "ramx_inv bn (fst s)" and c: "crit_ok (snd s)" by (auto simp: rx_inv_def)
  show "\<exists>r p'. rx_get bn nb s = Some (r, p')"
    by (cases rule: ramx_alloc_cases [OF p c, of nb]) (auto simp: rx_get_def)
  show "s' = s" if "rx_get bn nb s = Some (None, s')"
    using p c
  proof (cases rule: ramx_alloc_cases [where nb = nb])
    case (some i)
    then show ?thesis
      using that array_addr_nonnull [OF ramx_invD(6) [OF p] start_less [OF some(2,4)]] by (simp add: rx_get_def)
  qed (use that in \<open>simp add: rx_get_def prod_eq_iff\<close>)
  show "rx_owners s a = 0 \<and> rx_inv bn s' \<and> rx_owners s' = (rx_owners s)(a := 1)"
    if "rx_get bn nb s = Some (Some a, s')"
    using p c
  proof (cases rule: ramx_alloc_cases [where nb = nb])
    case (some i)
    then have "s' = (xtake_run (fst s) i nb, snd s)" "a = xblock_addr (fst s) i"
      using that by (auto simp: rx_get_def split: if_splits)
    then show ?thesis
      using xtake_run_inv(1) [OF p some(2-4)] ramx_owners_xtake [OF p some(2-4)] c
      by (simp add: rx_inv_def rx_owners_def)
  qed (use that in \<open>simp add: rx_get_def\<close>)
  assume own: "0 < rx_owners s a"
  then obtain i where i: "i \<in> run_starts 0 (xp_blocks (fst s))" "a = xblock_addr (fst s) i"
    "rx_owners s a = unat (xp_refs (fst s) ! i)"
    using ramx_owners_pos [OF p] unfolding rx_owners_def by metis
  note r1 = ramx_invD(7) [OF p i(1)]
  show "\<exists>s'. rx_free a s = Some s' \<and> rx_inv bn s' \<and> rx_owners s' = (rx_owners s)(a := rx_owners s a - 1)"
  proof (cases "xp_refs (fst s) ! i = 1")
    case True
    then show ?thesis
      using ramx_pool_free_run [OF p c i(1)] xdrop_run_inv(1) [OF p i(1)] ramx_owners_xdrop [OF p i(1)] i c
      by (simp add: rx_free_def rx_inv_def rx_owners_def)
  next
    case False
    then have "1 \<le> xp_refs (fst s) ! i - 1"
      using r1 unat_u8_decr [OF r1] by (simp add: unat_1_le word_unat_eq_iff)
    then show ?thesis
      using False ramx_pool_free_run [OF p c i(1)] xset_refs_inv(1) [OF p i(1)] ramx_owners_xset [OF p i(1)]
        unat_u8_decr [OF r1] i c
      by (simp add: rx_free_def rx_inv_def rx_owners_def)
  qed
  assume lt: "rx_owners s a < 255"
  then have "unat (xp_refs (fst s) ! i + 1) = Suc (unat (xp_refs (fst s) ! i))"
    using i(3) by (intro unat_u8_incr) simp
  moreover from this have "1 \<le> xp_refs (fst s) ! i + 1" by (simp add: unat_1_le)
  ultimately show "\<exists>s'. rx_take a s = Some s' \<and> rx_inv bn s' \<and> rx_owners s' = (rx_owners s)(a := rx_owners s a + 1)"
    using ramx_take_ownership_run [OF p c i(1)] xset_refs_inv(1) [OF p i(1)] ramx_owners_xset [OF p i(1)] i c
    by (simp add: rx_take_def rx_inv_def rx_owners_def)
qed

text \<open>Requests in bytes: the buffers already owned keep their owners, and a buffer handed out had
  none and has one.\<close>

lemma ramx_alloc_bytes_ok:
  assumes "ramx_inv bn p" and "crit_ok c" and "bsz \<noteq> 0"
  shows "\<exists>a p'. ramx_pool_alloc_bytes bn bsz c p n = Some (a, p', c) \<and> ramx_inv bn p' \<and>
    (\<forall>x. 0 < ramx_owners p x \<longrightarrow> ramx_owners p' x = ramx_owners p x) \<and>
    (if a = 0 then p' = p else ramx_owners p a = 0 \<and> ramx_owners p' = (ramx_owners p)(a := 1))"
proof -
  obtain q where "div_round_up n bsz = Some q" using assms(3) by (simp add: div_round_up_def)
  then have eq: "ramx_pool_alloc_bytes bn bsz c p n = ramx_pool_alloc_blocks bn c p (ucast q)"
    by (simp add: ramx_pool_alloc_bytes_def Let_def)
  show ?thesis
    using assms(1,2)
  proof (cases rule: ramx_alloc_cases [where nb = "ucast q"])
    case none
    then show ?thesis using assms(1) by (simp add: eq)
  next
    case (some i)
    then show ?thesis
      using xtake_run_inv(1) [OF assms(1) some(2-4)] ramx_owners_xtake [OF assms(1) some(2-4)]
        array_addr_nonnull [OF ramx_invD(6) [OF assms(1)] start_less [OF some(2,4)]] by (simp add: eq)
  qed
qed

text \<open>
  C17. A RAMX buffer stays allocated exactly as long as somebody owns it: in every history, of any
  length, of allocations of any number of blocks, frees and ownership transfers of references held
  in which ownership of a buffer is taken only while it has fewer than 255 owners (the counter is
  one byte), the number of owners the pool counts for a buffer is the number of references held to it.
\<close>

theorem ramx_owned_while_held:
  assumes "ramx_inv bn p" and "crit_ok c" and "run_starts 0 (xp_blocks p) = {}"
    and "shares_within 255 (rx_get bn) rx_free rx_take us ([], p, c)"
  shows "\<exists>hs p' c'. pool_run (rx_get bn) rx_free rx_take us ([], p, c) = Some (hs, p', c') \<and>
    ramx_inv bn p' \<and> (\<forall>a. ramx_owners p' a = count_list hs a)"
proof -
  have "ramx_owners p a = 0" for a using assms(3) by (simp add: ramx_owners_def)
  with rx.run_shared_live [of bn "(p, c)" us] assms show ?thesis
    by (fastforce simp: rx_inv_def rx_owners_def)
qed

text \<open>
  The buffer of a RAMX allocation survives every free but the last: with one further owner,
  the first \<open>ramx_pool_free\<close> leaves the blocks allocated and the second gives back the status bytes
  and the counter as they were before the allocation.
\<close>

theorem ramx_share_free_free:
  assumes "ramx_inv bn p" and "crit_ok c" and "ramx_pool_alloc_blocks bn c p nb = Some (a, p1, c)" and "a \<noteq> 0"
  shows "\<exists>p2 p3 p4. ramx_take_ownership c p1 a = Some (p2, c) \<and>
    ramx_pool_free c p2 a = Some (p3, c) \<and> xp_blocks p3 = xp_blocks p1 \<and>
    ramx_pool_free c p3 a = Some (p4, c) \<and> xp_blocks p4 = xp_blocks p \<and> xp_blocks_used p4 = xp_blocks_used p"
  using assms(1,2)
proof (cases rule: ramx_alloc_cases [where nb = nb])
  case none
  with assms show ?thesis by simp
next
  case (some i)
  then have eq: "a = xblock_addr p i" "p1 = xtake_run p i nb" using assms(3) by auto
  note t = xtake_run_inv [OF assms(1) some(2-4)]
  have pos: "0 < unat nb" using some(4) by (simp add: unat_gt_0)
  have st1: "i \<in> run_starts 0 (xp_blocks p1)" and inv1: "ramx_inv bn p1" and r1: "xp_refs p1 ! i = 1"
    using t pos by (simp_all add: eq)
  let ?p2 = "xset_refs p1 i 2"
  have take: "ramx_take_ownership c p1 a = Some (?p2, c)"
    using ramx_take_ownership_run [OF inv1 assms(2) st1] r1 by (simp add: eq)
  note s2 = xset_refs_inv [OF inv1 st1, of 2]
  have st2: "i \<in> run_starts 0 (xp_blocks ?p2)" and inv2: "ramx_inv bn ?p2" and r2: "xp_refs ?p2 ! i = 2"
    using s2 st1 by simp_all
  let ?p3 = "xset_refs ?p2 i 1"
  have free2: "ramx_pool_free c ?p2 a = Some (?p3, c)"
    using ramx_pool_free_run [OF inv2 assms(2) st2] r2 by (simp add: eq)
  note s3 = xset_refs_inv [OF inv2 st2, of 1]
  have st3: "i \<in> run_starts 0 (xp_blocks ?p3)" and inv3: "ramx_inv bn ?p3" and r3: "xp_refs ?p3 ! i = 1"
    using s3 st2 by simp_all
  have b3: "xp_blocks ?p3 = xp_blocks p1" using s2(2) s3(2) by simp
  have free3: "ramx_pool_free c ?p3 a = Some (xdrop_run ?p3 i, c)"
    using ramx_pool_free_run [OF inv3 assms(2) st3] r3 by (simp add: eq)
  have le: "i + unat nb \<le> length (xp_blocks p)" using some ramx_invD(1) [OF assms(1)] by simp
  have at: "xp_blocks p1 ! i = nb" using pos le by (simp add: eq xtake_run_def nth_append)
  have "take (unat nb) (drop i (xp_blocks p)) = replicate (unat nb) 0"
    using some le by (intro take_drop_const) (simp_all add: free_at_def)
  then have "xp_blocks p = take i (xp_blocks p) @ replicate (unat nb) 0 @ drop (i + unat nb) (xp_blocks p)"
    by (metis append_take_drop_id drop_drop add.commute)
  moreover have "take i (xp_blocks p1) = take i (xp_blocks p)"
    and "drop (i + unat nb) (xp_blocks p1) = drop (i + unat nb) (xp_blocks p)"
    using le by (simp_all add: eq xtake_run_def)
  ultimately have "xp_blocks (xdrop_run ?p3 i) = xp_blocks p"
    by (simp add: xdrop_run_def Let_def b3 at)
  moreover have "xp_blocks_used (xdrop_run ?p3 i) = xp_blocks_used p"
    by (simp add: xdrop_run_def Let_def b3 at) (simp add: xset_refs_def Let_def eq xtake_run_def)
  ultimately show ?thesis using take free2 free3 b3 by blast
qed

text \<open>
  C32. The owner count is an \<open>uint8_t\<close>: with 255 owners one more \<open>ramx_take_ownership\<close> wraps the
  counter to 0, and then the first \<open>ramx_pool_free\<close> releases the blocks while 255 owners remain.
\<close>

theorem ramx_256_owners_free_early:
  assumes "ramx_inv bn p" and "crit_ok c" and "i \<in> run_starts 0 (xp_blocks p)" and "xp_refs p ! i = 255"
  shows "\<exists>p1 p2. ramx_take_ownership c p (xblock_addr p i) = Some (p1, c) \<and>
    ramx_pool_free c p1 (xblock_addr p i) = Some (p2, c) \<and> xp_blocks p2 ! i = 0"
proof -
  note d = ramx_invD [OF assms(1)]
  note x = xrun [OF assms(1,3)]
  let ?n = "unat (xp_blocks p ! i)"
  have wrap: "(256 :: u8) = 0" by (simp add: word_unat_eq_iff)
  let ?p1 = "xset_refs p i 0"
  have take: "ramx_take_ownership c p (xblock_addr p i) = Some (?p1, c)"
    using ramx_take_ownership_run [OF assms(1-3)] assms(4) by (simp add: wrap)
  have b1: "xp_blocks ?p1 = xp_blocks p" by (simp add: xset_refs_def Let_def)
  have len: "i + ?n \<le> length (xp_blocks p)" "i + ?n \<le> length (xp_refs p)" using x d by simp_all
  have "\<forall>j < ?n. xp_refs ?p1 ! (i + j) = 0"
    using nth_splice [OF len(2)] by (simp add: xset_refs_def Let_def)
  moreover have "length (xp_refs ?p1) = length (xp_blocks p)" using len d by (simp add: xset_refs_def Let_def)
  ultimately have loop: "ramx_free_loop i ?n 0 (xp_blocks p) (xp_refs ?p1) 0 =
      Some (take i (xp_blocks p) @ replicate ?n 0 @ drop (i + ?n) (xp_blocks p), xp_refs ?p1, xp_blocks p ! i)"
    using ramx_free_loop_last [OF len(1), of "xp_refs ?p1" 0 0] by simp
  obtain k where k: "ramx_block_index p (xblock_addr p i) = Some k" "unat k = i"
    using xblock_index [OF assms(1) x(3)] by blast
  have "ramx_block_index ?p1 (xblock_addr p i) = Some k"
    using k(1) by (auto simp: ramx_block_index_def xset_refs_def Let_def split: if_splits)
  moreover have "xblock_addr p i \<noteq> 0" by (rule array_addr_nonnull [OF d(6) x(3)])
  moreover have "0 < ?n" using x(1) by (simp add: unat_gt_0)
  ultimately show ?thesis
    using take loop k(2) x(3) d(1) assms(2)
    by (simp add: ramx_pool_free_def b1 nth_append Let_def)
qed


section \<open>Initialisation, the address test and concrete instances\<close>

lemma ramx_pool_init_inv:
  assumes "length (xp_blocks p) = bn" and "length (xp_refs p) = bn" and "bn < 256" and "array_fits buf bsz bn"
  shows "ramx_inv bn (ramx_pool_init bn bsz buf p)"
    and "run_starts 0 (xp_blocks (ramx_pool_init bn bsz buf p)) = {}"
proof -
  have "map (\<lambda>_. 0) (xp_blocks p) = replicate bn (0 :: u8)"
    using assms(1) by (simp add: map_replicate_const)
  then have b: "xp_blocks (ramx_pool_init bn bsz buf p) = replicate bn 0"
    by (simp add: ramx_pool_init_def Let_def del: map_replicate_const)
  then show st: "run_starts 0 (xp_blocks (ramx_pool_init bn bsz buf p)) = {}"
    by (simp add: run_starts_replicate0)
  then show "ramx_inv bn (ramx_pool_init bn bsz buf p)"
    unfolding ramx_inv_def st using assms
    by (simp add: b wf_runs_replicate0) (simp add: ramx_pool_init_def Let_def)
qed

text \<open>Every address of a block of an initialised pool is recognised as in the pool, which is how
  \<open>hspi_send\<close> tells a buffer it may pass on without a copy.\<close>

lemma ramx_block_in_pool:
  assumes "array_fits buf bsz (Suc bn)" and "i < bn" and "unat off < unat bsz"
  shows "ramx_address_in_pool (ramx_pool_init bn bsz buf p) (array_addr buf bsz i + off)"
proof -
  have e: "unat (array_addr buf bsz bn) = unat buf + bn * unat bsz"
    by (rule unat_array_addr [OF assms(1)]) simp
  have i: "unat (array_addr buf bsz i) = unat buf + i * unat bsz"
    by (rule unat_array_addr [OF assms(1)]) (use assms(2) in simp)
  have le: "unat (array_addr buf bsz i) + 1 * unat bsz \<le> unat (array_addr buf bsz bn)"
    by (rule array_disjoint [OF assms(1)]) (use assms(2) in simp_all)
  with assms(3) have "unat (array_addr buf bsz i) + unat off < unat (array_addr buf bsz bn)" by simp
  from order.strict_trans [OF this unat_u32_less]
  have "unat (array_addr buf bsz i) + unat off < 2 ^ LENGTH(32)" by simp
  from unat_add_lem [THEN iffD1, OF this]
  have "unat (array_addr buf bsz i + off) = unat (array_addr buf bsz i) + unat off" .
  then show ?thesis using le assms(3) i
    by (simp add: ramx_address_in_pool_def ramx_pool_init_def Let_def word_less_nat_alt word_le_nat_alt)
      (simp add: array_addr_def [symmetric] e)
qed

definition demo_ramx :: ramx_pool where
  "demo_ramx = \<lparr>xp_pool = 0x20020000, xp_end_pool = 0x20020a00, xp_block_size = 512, xp_pool_size = 5,
     xp_blocks_used = 3, xp_blocks = [2, 2, 0, 1, 0], xp_refs = [255, 255, 0, 1, 0]\<rparr>"

lemma demo_ramx_inv: "ramx_inv 5 demo_ramx" and demo_ramx_start: "0 \<in> run_starts 0 (xp_blocks demo_ramx)"
proof -
  have st: "run_starts 0 [2, 2, 0, 1, 0] = {0, 3}" by code_simp
  then show "0 \<in> run_starts 0 (xp_blocks demo_ramx)" by (simp add: demo_ramx_def)
  have "wf_runs [2, 2, 0, 1, 0]" by code_simp
  then show "ramx_inv 5 demo_ramx"
    by (simp add: ramx_inv_def demo_ramx_def used_blocks_def array_fits_def st)
      (simp add: numeral_eq_Suc less_Suc_eq)
qed

theorem ramx_alloc_blocks_first_fit_witness:
  "ramx_pool_alloc_blocks 5 crit_init demo_ramx 1 = Some (0x20020400, xtake_run demo_ramx 2 1, crit_init)"
proof -
  have "first_fit [2, 2, 0, 1, 0] (unat (1 :: u8)) = Some 2" by code_simp
  then show ?thesis
    using ramx_alloc_blocks_first_fit [OF demo_ramx_inv crit_ok_init, of 1]
    by (simp add: demo_ramx_def array_addr_def)
qed

definition demo_uses :: "u8 pool_use list" where
  "demo_uses = [Pool_get 2, Pool_share 0, Pool_put 0, Pool_get 3, Pool_put 1, Pool_get 1, Pool_share 0]"

theorem ramx_owned_while_held_witness:
  "\<exists>hs p' c'. pool_run (rx_get 5) rx_free rx_take demo_uses
     ([], ramx_pool_init 5 512 0x20020000 demo_ramx, crit_init) = Some (hs, p', c') \<and>
   ramx_inv 5 p' \<and> (\<forall>a. ramx_owners p' a = count_list hs a)"
proof -
  have "ramx_inv 5 (ramx_pool_init 5 512 0x20020000 demo_ramx)"
    "run_starts 0 (xp_blocks (ramx_pool_init 5 512 0x20020000 demo_ramx)) = {}"
    by (rule ramx_pool_init_inv; simp add: demo_ramx_def array_fits_def)+
  moreover have "shares_within 255 (rx_get 5) rx_free rx_take demo_uses
      ([], ramx_pool_init 5 512 0x20020000 demo_ramx, crit_init)" by code_simp
  ultimately show ?thesis using ramx_owned_while_held [OF _ crit_ok_init] by blast
qed

theorem ramx_share_free_free_witness:
  "\<exists>p1 p2 p3 p4. ramx_pool_alloc_blocks 5 crit_init demo_ramx 1 = Some (0x20020400, p1, crit_init) \<and>
    ramx_take_ownership crit_init p1 0x20020400 = Some (p2, crit_init) \<and>
    ramx_pool_free crit_init p2 0x20020400 = Some (p3, crit_init) \<and> xp_blocks p3 = xp_blocks p1 \<and>
    ramx_pool_free crit_init p3 0x20020400 = Some (p4, crit_init) \<and> xp_blocks p4 = [2, 2, 0, 1, 0]"
proof -
  have al: "ramx_pool_alloc_blocks 5 crit_init demo_ramx 1 =
      Some (0x20020400, demo_ramx\<lparr>xp_blocks := [2, 2, 1, 1, 0], xp_refs := [255, 255, 1, 1, 0],
        xp_blocks_used := 4\<rparr>, crit_init)" by code_simp
  have "xp_blocks demo_ramx = [2, 2, 0, 1, 0]" by (simp add: demo_ramx_def)
  with al ramx_share_free_free [OF demo_ramx_inv crit_ok_init al] show ?thesis by auto
qed

theorem ramx_256_owners_free_early_witness:
  "\<exists>p1 p2. ramx_take_ownership crit_init demo_ramx 0x20020000 = Some (p1, crit_init) \<and>
    ramx_pool_free crit_init p1 0x20020000 = Some (p2, crit_init) \<and> xp_blocks p2 ! 0 = 0"
  using ramx_256_owners_free_early [OF demo_ramx_inv crit_ok_init demo_ramx_start]
  by (simp add: demo_ramx_def array_addr_def)

end
