(* ===== verification/Link_Header.thy ===== *)
theory Link_Header
  imports C_Base
begin

text \<open>
  The word that carries a packet's size and its custom value from one board to the other: the
  user-defined register of HSPI (26 bits: \<open>HSPI_USER_DEFINED_MASK\<close>) and of SerDes (28 bits:
  \<open>SERDES_USER_DEFINED_MASK\<close>), with the size in the low 13 bits (\<open>HSPI_SERDES_TX_SIZE_MASK\<close>). The
  expressions are those of \<open>hspi.c\<close>, \<open>hspi_scheduled.c\<close> and \<open>serdes.c\<close>, on \<open>uint32_t\<close> (the
  promoted \<open>custom_register << 13\<close> fits an \<open>int\<close>).
\<close>

text \<open>The enums both HSPI drivers declare (\<open>HSPI_ModeTypeDef\<close> is the BSP's).\<close>

datatype HSPI_TYPE = HSPI_TYPE_HOST | HSPI_TYPE_DEVICE
datatype HSPI_DATASIZE = HSPI_DATASIZE_8 | HSPI_DATASIZE_16 | HSPI_DATASIZE_32
datatype HSPI_ModeTypeDef = HSPI_HOST | HSPI_DEVICE

definition HSPI_SERDES_TX_SIZE_MASK :: u32 where "HSPI_SERDES_TX_SIZE_MASK = 0x1fff"
definition HSPI_USER_DEFINED_MASK :: u32 where "HSPI_USER_DEFINED_MASK = 0x03ffffff"
definition SERDES_USER_DEFINED_MASK :: u32 where "SERDES_USER_DEFINED_MASK = 0xfffffff"

definition hspi_header :: "u16 \<Rightarrow> u16 \<Rightarrow> u32" where
  "hspi_header sz custom_register =
     ((ucast sz AND HSPI_SERDES_TX_SIZE_MASK)
       OR (push_bit 13 (ucast custom_register) AND NOT HSPI_SERDES_TX_SIZE_MASK))
     AND HSPI_USER_DEFINED_MASK"

definition serdes_header :: "u16 \<Rightarrow> u16 \<Rightarrow> u32" where
  "serdes_header sz custom_register =
     ((ucast sz AND HSPI_SERDES_TX_SIZE_MASK) OR push_bit 13 (ucast custom_register))
     AND SERDES_USER_DEFINED_MASK"

text \<open>The receiving sides; the callbacks take \<open>uint16_t\<close> arguments.\<close>

definition header_size :: "u32 \<Rightarrow> u16" where
  "header_size udf = ucast (udf AND HSPI_SERDES_TX_SIZE_MASK)"

definition hspi_header_custom :: "u32 \<Rightarrow> u16" where
  "hspi_header_custom udf = ucast (drop_bit 13 (udf AND NOT HSPI_SERDES_TX_SIZE_MASK))"

definition hspi_scheduled_header_size :: "u32 \<Rightarrow> u16" where
  "hspi_scheduled_header_size udf = ucast ((udf AND HSPI_USER_DEFINED_MASK) AND HSPI_SERDES_TX_SIZE_MASK)"

definition hspi_scheduled_header_custom :: "u32 \<Rightarrow> u16" where
  "hspi_scheduled_header_custom udf = ucast (drop_bit 13 (udf AND HSPI_USER_DEFINED_MASK))"

definition serdes_header_custom :: "u32 \<Rightarrow> u16" where
  "serdes_header_custom udf = ucast (drop_bit 13 udf)"

section \<open>Bits of the masks\<close>

lemma masks_mask:
  "HSPI_SERDES_TX_SIZE_MASK = mask 13" "HSPI_USER_DEFINED_MASK = mask 26" "SERDES_USER_DEFINED_MASK = mask 28"
  by (simp_all add: HSPI_SERDES_TX_SIZE_MASK_def HSPI_USER_DEFINED_MASK_def SERDES_USER_DEFINED_MASK_def
      mask_eq_exp_minus_1)

lemma take_bit_u16_eq:
  fixes x :: u16
  shows "unat x < 2 ^ n \<Longrightarrow> take_bit n x = x"
  by (simp add: word_unat_eq_iff unsigned_take_bit_eq take_bit_nat_eq_self)

lemma header_size_hspi: "header_size (hspi_header sz creg) = take_bit 13 sz"
  by (rule bit_word_eqI)
    (auto simp: header_size_def hspi_header_def masks_mask bit_and_iff bit_or_iff bit_not_iff
      bit_mask_iff bit_push_bit_iff bit_unsigned_iff bit_take_bit_iff)

lemma header_size_serdes: "header_size (serdes_header sz creg) = take_bit 13 sz"
  by (rule bit_word_eqI)
    (auto simp: header_size_def serdes_header_def masks_mask bit_and_iff bit_or_iff
      bit_mask_iff bit_push_bit_iff bit_unsigned_iff bit_take_bit_iff)

lemma header_custom_hspi: "hspi_header_custom (hspi_header sz creg) = take_bit 13 creg"
  by (rule bit_word_eqI)
    (auto simp: hspi_header_custom_def hspi_header_def masks_mask bit_and_iff bit_or_iff bit_not_iff
      bit_mask_iff bit_push_bit_iff bit_unsigned_iff bit_take_bit_iff bit_drop_bit_eq)

lemma header_custom_serdes: "serdes_header_custom (serdes_header sz creg) = take_bit 15 creg"
  by (rule bit_word_eqI)
    (auto simp: serdes_header_custom_def serdes_header_def masks_mask bit_and_iff bit_or_iff
      bit_mask_iff bit_push_bit_iff bit_unsigned_iff bit_take_bit_iff bit_drop_bit_eq)

lemma header_scheduled:
  "hspi_scheduled_header_size (hspi_header sz creg) = take_bit 13 sz"
  "hspi_scheduled_header_custom (hspi_header sz creg) = take_bit 13 creg"
  by (rule bit_word_eqI,
      auto simp: hspi_scheduled_header_size_def hspi_scheduled_header_custom_def hspi_header_def masks_mask
        bit_and_iff bit_or_iff bit_not_iff
        bit_mask_iff bit_push_bit_iff bit_unsigned_iff bit_take_bit_iff bit_drop_bit_eq)+

end
