(* ===== verification/Hspi.thy ===== *)
theory Hspi
  imports Link_Header
begin

text \<open>
  \<open>hspi/hspi.c\<close>: the double-buffered parallel link without scheduling. State: which of the two DMA
  slots is current, the DMA addresses of the device side, and the registers the code reads and
  writes. A received packet is reported by a call of the user's handler, here an \<open>hspi_event\<close> the
  operation emits; calling a handler that is still \<open>NULL\<close>, as \<open>hspi_user_handled\<close> starts, is
  undefined behaviour and \<open>None\<close>.

  The BSP is not part of the repository: the flag constants it defines are a parameter
  (\<open>hspi_bits\<close>), as are the effects of \<open>HSPI_DoubleDMA_Init\<close> and \<open>HSPI_DMA_Tx\<close>, and what the
  hardware makes of a write to \<open>R8_HSPI_INT_FLAG\<close>.
\<close>

datatype CURRENT_DMA_BUFFER = HSPI_DMA_BUFFER_0 | HSPI_DMA_BUFFER_1

record hspi_bits =
  RB_HSPI_DAT8_MOD :: u8
  RB_HSPI_DAT16_MOD :: u8
  RB_HSPI_DAT32_MOD :: u8
  RB_HSPI_IF_T_DONE :: u8
  RB_HSPI_IF_R_DONE :: u8
  RB_HSPI_CRC_ERR :: u8
  RB_HSPI_NUM_MIS :: u8

record hspi_state =
  dma_buffer_0 :: u32
  dma_buffer_1 :: u32
  current_dma_buffer :: CURRENT_DMA_BUFFER
  hspi_rx_callback :: u32
  hspi_err_crc_num_mismatch_callback :: u32
  R8_HSPI_INT_FLAG :: u8
  R8_HSPI_RTX_STATUS :: u8
  R32_HSPI_TX_ADDR0 :: u32
  R32_HSPI_TX_ADDR1 :: u32
  R32_HSPI_UDF0 :: u32
  R32_HSPI_UDF1 :: u32

text \<open>A call of a user handler: the function, and for the reception handler its arguments.\<close>

datatype hspi_event =
    Hspi_rx u32 (rx_buffer: u32) (rx_size: u16) (rx_custom: u16)
  | Hspi_err u32

type_synonym hspi_dma_init = "HSPI_ModeTypeDef \<Rightarrow> u8 \<Rightarrow> u32 \<Rightarrow> u32 \<Rightarrow> u16 \<Rightarrow> hspi_state \<Rightarrow> hspi_state"

text \<open>\<open>rx0\<close>, \<open>rx1\<close> are the addresses of the static arrays \<open>hspi_rx_buffer_0\<close> and \<open>_1\<close>.\<close>

definition hspi_init :: "hspi_bits \<Rightarrow> hspi_dma_init \<Rightarrow> u32 \<Rightarrow> u32 \<Rightarrow>
    HSPI_TYPE \<Rightarrow> HSPI_DATASIZE \<Rightarrow> u16 \<Rightarrow> hspi_state \<Rightarrow> hspi_state" where
  "hspi_init bits HSPI_DoubleDMA_Init rx0 rx1 type datasize sz s =
     (let s1 = (if type = HSPI_TYPE_DEVICE then s\<lparr>dma_buffer_0 := rx0, dma_buffer_1 := rx1\<rparr> else s);
          mode = (if type = HSPI_TYPE_HOST then HSPI_HOST else HSPI_DEVICE)
      in case datasize of
           HSPI_DATASIZE_8 \<Rightarrow>
             HSPI_DoubleDMA_Init mode (RB_HSPI_DAT8_MOD bits) (dma_buffer_0 s1) (dma_buffer_1 s1) sz s1
         | HSPI_DATASIZE_16 \<Rightarrow>
             HSPI_DoubleDMA_Init mode (RB_HSPI_DAT16_MOD bits) (dma_buffer_0 s1) (dma_buffer_1 s1) sz s1
         | HSPI_DATASIZE_32 \<Rightarrow>
             HSPI_DoubleDMA_Init mode (RB_HSPI_DAT32_MOD bits) (dma_buffer_0 s1) (dma_buffer_1 s1) sz s1)"

definition hspi_send :: "(hspi_state \<Rightarrow> hspi_state) \<Rightarrow> u32 \<Rightarrow> u16 \<Rightarrow> u16 \<Rightarrow> hspi_state \<Rightarrow> bool \<times> hspi_state" where
  "hspi_send HSPI_DMA_Tx buffer sz custom_register s =
     (let s1 = (case current_dma_buffer s of
           HSPI_DMA_BUFFER_0 \<Rightarrow> s\<lparr>R32_HSPI_TX_ADDR0 := buffer, R32_HSPI_UDF0 := hspi_header sz custom_register\<rparr>
         | HSPI_DMA_BUFFER_1 \<Rightarrow> s\<lparr>R32_HSPI_TX_ADDR1 := buffer, R32_HSPI_UDF1 := hspi_header sz custom_register\<rparr>)
      in (True, HSPI_DMA_Tx s1))"

fun other_buffer :: "CURRENT_DMA_BUFFER \<Rightarrow> CURRENT_DMA_BUFFER" where
  "other_buffer HSPI_DMA_BUFFER_0 = HSPI_DMA_BUFFER_1"
| "other_buffer HSPI_DMA_BUFFER_1 = HSPI_DMA_BUFFER_0"

definition call_rx :: "u32 \<Rightarrow> u32 \<Rightarrow> u16 \<Rightarrow> u16 \<Rightarrow> hspi_event list option" where
  "call_rx f b sz cr = (if f = 0 then None else Some [Hspi_rx f b sz cr])"

text \<open>\<open>w\<close> is what the hardware leaves in the flag register after a write: old value, value written.\<close>

definition HSPI_IRQHandler ::
    "hspi_bits \<Rightarrow> (u8 \<Rightarrow> u8 \<Rightarrow> u8) \<Rightarrow> u32 \<Rightarrow> u32 \<Rightarrow> hspi_state \<Rightarrow> (hspi_event list \<times> hspi_state) option" where
  "HSPI_IRQHandler bits w rx0 rx1 s =
     (if R8_HSPI_INT_FLAG s AND RB_HSPI_IF_T_DONE bits \<noteq> 0 then
        let s1 = s\<lparr>R8_HSPI_INT_FLAG := w (R8_HSPI_INT_FLAG s) (RB_HSPI_IF_T_DONE bits)\<rparr>
        in Some ([], s1\<lparr>current_dma_buffer := other_buffer (current_dma_buffer s1)\<rparr>)
      else if R8_HSPI_INT_FLAG s AND RB_HSPI_IF_R_DONE bits \<noteq> 0 then
        let s1 = s\<lparr>R8_HSPI_INT_FLAG := w (R8_HSPI_INT_FLAG s) (RB_HSPI_IF_R_DONE bits)\<rparr> in
        if R8_HSPI_RTX_STATUS s1 AND (RB_HSPI_CRC_ERR bits OR RB_HSPI_NUM_MIS bits) = 0 then
          (case current_dma_buffer s1 of
             HSPI_DMA_BUFFER_0 \<Rightarrow> do {
               let s2 = s1\<lparr>current_dma_buffer := HSPI_DMA_BUFFER_1\<rparr>;
               evs \<leftarrow> call_rx (hspi_rx_callback s2) rx0
                 (header_size (R32_HSPI_UDF0 s2)) (hspi_header_custom (R32_HSPI_UDF0 s2));
               Some (evs, s2) }
           | HSPI_DMA_BUFFER_1 \<Rightarrow> do {
               let s2 = s1\<lparr>current_dma_buffer := HSPI_DMA_BUFFER_0\<rparr>;
               evs \<leftarrow> call_rx (hspi_rx_callback s2) rx1
                 (header_size (R32_HSPI_UDF1 s2)) (hspi_header_custom (R32_HSPI_UDF1 s2));
               Some (evs, s2) })
        else if hspi_err_crc_num_mismatch_callback s1 = 0 then None
        else Some ([Hspi_err (hspi_err_crc_num_mismatch_callback s1)], s1)
      else Some ([], s))"

section \<open>Packets from one board to the other\<close>

text \<open>What a sender put in the user-defined register of its current slot.\<close>

definition sent_header :: "CURRENT_DMA_BUFFER \<Rightarrow> hspi_state \<Rightarrow> u32" where
  "sent_header b s = (case b of HSPI_DMA_BUFFER_0 \<Rightarrow> R32_HSPI_UDF0 s | HSPI_DMA_BUFFER_1 \<Rightarrow> R32_HSPI_UDF1 s)"

text \<open>The receiver with that register arrived in the same slot and the reception flag raised.\<close>

definition packet_arrives :: "hspi_bits \<Rightarrow> u32 \<Rightarrow> hspi_state \<Rightarrow> hspi_state" where
  "packet_arrives bits udf r = (case current_dma_buffer r of
       HSPI_DMA_BUFFER_0 \<Rightarrow> r\<lparr>R32_HSPI_UDF0 := udf, R8_HSPI_INT_FLAG := RB_HSPI_IF_R_DONE bits\<rparr>
     | HSPI_DMA_BUFFER_1 \<Rightarrow> r\<lparr>R32_HSPI_UDF1 := udf, R8_HSPI_INT_FLAG := RB_HSPI_IF_R_DONE bits\<rparr>)"

definition rx_array :: "u32 \<Rightarrow> u32 \<Rightarrow> CURRENT_DMA_BUFFER \<Rightarrow> u32" where
  "rx_array rx0 rx1 b = (case b of HSPI_DMA_BUFFER_0 \<Rightarrow> rx0 | HSPI_DMA_BUFFER_1 \<Rightarrow> rx1)"

text \<open>
  C30. A packet sent with \<open>hspi_send\<close> reaches the other board's handler with the size and the custom
  value it was sent with, both below \<open>2\<^sup>1\<^sup>3\<close>, in the receiver's current buffer, which then alternates.
  The reception flag has to differ from the transmission flag and no CRC or sequence error occur.
\<close>

theorem hspi_packet_delivered:
  assumes "unat sz < 2 ^ 13" and "unat cr < 2 ^ 13"
    and "RB_HSPI_IF_R_DONE bits AND RB_HSPI_IF_T_DONE bits = 0" and "RB_HSPI_IF_R_DONE bits \<noteq> 0"
    and "\<And>s. sent_header (current_dma_buffer s0) (HSPI_DMA_Tx s) = sent_header (current_dma_buffer s0) s"
    and "hspi_rx_callback r \<noteq> 0" and "R8_HSPI_RTX_STATUS r AND (RB_HSPI_CRC_ERR bits OR RB_HSPI_NUM_MIS bits) = 0"
  shows "\<exists>s1 r1. hspi_send HSPI_DMA_Tx buf sz cr s0 = (True, s1) \<and>
    HSPI_IRQHandler bits w rx0 rx1 (packet_arrives bits (sent_header (current_dma_buffer s0) s1) r) =
      Some ([Hspi_rx (hspi_rx_callback r) (rx_array rx0 rx1 (current_dma_buffer r)) sz cr], r1) \<and>
    current_dma_buffer r1 = other_buffer (current_dma_buffer r)"
proof -
  have h: "header_size (hspi_header sz cr) = sz" "hspi_header_custom (hspi_header sz cr) = cr"
    using assms(1,2) by (simp_all add: header_size_hspi header_custom_hspi take_bit_u16_eq)
  have "sent_header (current_dma_buffer s0) (snd (hspi_send HSPI_DMA_Tx buf sz cr s0)) = hspi_header sz cr"
    using assms(5) by (simp add: hspi_send_def Let_def) (simp add: sent_header_def split: CURRENT_DMA_BUFFER.split)
  moreover have "fst (hspi_send HSPI_DMA_Tx buf sz cr s0) = True" by (simp add: hspi_send_def Let_def)
  ultimately obtain s1 where s1: "hspi_send HSPI_DMA_Tx buf sz cr s0 = (True, s1)"
    "sent_header (current_dma_buffer s0) s1 = hspi_header sz cr" by (metis prod.collapse)
  show ?thesis
    using assms(3,4,6,7) s1 h
    by (cases "current_dma_buffer r")
      (simp_all add: HSPI_IRQHandler_def packet_arrives_def rx_array_def call_rx_def Let_def)
qed

text \<open>What is lost: 13 bits of the custom value arrive, although the handler's documentation
  announces 26.\<close>

lemma hspi_custom_truncated: "hspi_header_custom (hspi_header sz 0xffff) = 0x1fff"
  by (simp add: header_custom_hspi take_bit_eq_mask mask_eq_exp_minus_1)

lemma hspi_irq_idle:
  "R8_HSPI_INT_FLAG s AND RB_HSPI_IF_T_DONE bits = 0 \<Longrightarrow> R8_HSPI_INT_FLAG s AND RB_HSPI_IF_R_DONE bits = 0 \<Longrightarrow>
     HSPI_IRQHandler bits w rx0 rx1 s = Some ([], s)"
  by (simp add: HSPI_IRQHandler_def)

lemma hspi_irq_error:
  assumes "R8_HSPI_INT_FLAG s AND RB_HSPI_IF_T_DONE bits = 0" and "R8_HSPI_INT_FLAG s AND RB_HSPI_IF_R_DONE bits \<noteq> 0"
    and "R8_HSPI_RTX_STATUS s AND (RB_HSPI_CRC_ERR bits OR RB_HSPI_NUM_MIS bits) \<noteq> 0"
    and "hspi_err_crc_num_mismatch_callback s \<noteq> 0"
  shows "\<exists>s1. HSPI_IRQHandler bits w rx0 rx1 s = Some ([Hspi_err (hspi_err_crc_num_mismatch_callback s)], s1) \<and>
    current_dma_buffer s1 = current_dma_buffer s"
  using assms by (simp add: HSPI_IRQHandler_def Let_def)

definition demo_bits :: hspi_bits where
  "demo_bits = \<lparr>RB_HSPI_DAT8_MOD = 0, RB_HSPI_DAT16_MOD = 1, RB_HSPI_DAT32_MOD = 2, RB_HSPI_IF_T_DONE = 1,
     RB_HSPI_IF_R_DONE = 2, RB_HSPI_CRC_ERR = 2, RB_HSPI_NUM_MIS = 4\<rparr>"

definition demo_hspi :: hspi_state where
  "demo_hspi = \<lparr>dma_buffer_0 = 0, dma_buffer_1 = 0, current_dma_buffer = HSPI_DMA_BUFFER_0,
     hspi_rx_callback = 0x100, hspi_err_crc_num_mismatch_callback = 0x200, R8_HSPI_INT_FLAG = 0,
     R8_HSPI_RTX_STATUS = 0, R32_HSPI_TX_ADDR0 = 0, R32_HSPI_TX_ADDR1 = 0, R32_HSPI_UDF0 = 0, R32_HSPI_UDF1 = 0\<rparr>"

theorem hspi_packet_delivered_witness:
  "\<exists>s1 r1. hspi_send id 0x20020000 4096 77 demo_hspi = (True, s1) \<and>
    HSPI_IRQHandler demo_bits (\<lambda>old v. old AND NOT v) 0x1000 0x2000
      (packet_arrives demo_bits (R32_HSPI_UDF0 s1) demo_hspi) = Some ([Hspi_rx 0x100 0x1000 4096 77], r1) \<and>
    current_dma_buffer r1 = HSPI_DMA_BUFFER_1"
proof -
  have "\<exists>s1 r1. hspi_send id 0x20020000 4096 77 demo_hspi = (True, s1) \<and>
      HSPI_IRQHandler demo_bits (\<lambda>old v. old AND NOT v) 0x1000 0x2000
        (packet_arrives demo_bits (sent_header (current_dma_buffer demo_hspi) s1) demo_hspi) =
          Some ([Hspi_rx (hspi_rx_callback demo_hspi) (rx_array 0x1000 0x2000 (current_dma_buffer demo_hspi)) 4096 77], r1) \<and>
      current_dma_buffer r1 = other_buffer (current_dma_buffer demo_hspi)"
    by (rule hspi_packet_delivered) (simp_all add: demo_bits_def demo_hspi_def)
  then show ?thesis by (simp add: demo_hspi_def sent_header_def rx_array_def)
qed

end
