(* ===== verification/Serdes.thy ===== *)
theory Serdes
  imports Link_Header
begin

text \<open>
  \<open>serdes/serdes.c\<close>: the serial link. The receiver alternates between two DMA arrays and hands every
  packet to the user's handler (default: a function that does nothing), the sender writes the header
  word and blocks until the transfer is done. The functions of the BSP are parameters that act on
  the state; the registers \<open>SDS_*\<close> are its fields.
\<close>

datatype SERDES_TYPE = SERDES_TYPE_HOST | SERDES_TYPE_DEVICE

record serdes_state =
  SDS_RX_LEN0 :: u32
  SDS_RX_LEN1 :: u32
  current_rx_dma :: u32
  serdes_max_packet_size :: u16
  reg_SDS_RX_LEN0 :: u32
  reg_SDS_RX_LEN1 :: u32
  reg_SDS_DATA0 :: u32
  reg_SDS_DATA1 :: u32

text \<open>The BSP functions the driver calls.\<close>

record serdes_bsp =
  SerDes_Tx_Init :: "serdes_state \<Rightarrow> serdes_state"
  SerDes_Rx_Init :: "serdes_state \<Rightarrow> serdes_state"
  PFIC_EnableIRQ_serdes :: "serdes_state \<Rightarrow> serdes_state"
  SerDes_DoubleDMA_Rx_CFG :: "u32 \<Rightarrow> u32 \<Rightarrow> serdes_state \<Rightarrow> serdes_state"
  SerDes_EnableIT :: "u32 \<Rightarrow> serdes_state \<Rightarrow> serdes_state"
  SerDes_ClearIT :: "u32 \<Rightarrow> serdes_state \<Rightarrow> serdes_state"
  SerDes_DMA_Tx_CFG :: "u32 \<Rightarrow> u16 \<Rightarrow> u32 \<Rightarrow> serdes_state \<Rightarrow> serdes_state"
  SerDes_DMA_Tx :: "serdes_state \<Rightarrow> serdes_state"
  SerDes_Wait_Txdone :: "serdes_state \<Rightarrow> serdes_state"
  SerDes_StatusIT :: "serdes_state \<Rightarrow> u32"

record serdes_bits =
  SDS_RX_INT_EN :: u32
  SDS_RX_ERR_EN :: u32
  SDS_FIFO_OV_EN :: u32
  ALL_INT_TYPE :: u32
  SDS_RX_INT_FLG :: u32
  ALL_INT_FLG :: u32

text \<open>A call of \<open>serdes_rx_callback\<close>: buffer, size, custom value.\<close>

type_synonym serdes_event = "u32 \<times> u16 \<times> u16"

definition serdes_init ::
    "serdes_bsp \<Rightarrow> serdes_bits \<Rightarrow> u32 \<Rightarrow> u32 \<Rightarrow> SERDES_TYPE \<Rightarrow> u16 \<Rightarrow> serdes_state \<Rightarrow> serdes_state" where
  "serdes_init bsp bits RX_DMA_0 RX_DMA_1 type max_packet_size s =
     (let s1 = s\<lparr>current_rx_dma := RX_DMA_0, serdes_max_packet_size := max_packet_size\<rparr>
      in case type of
           SERDES_TYPE_HOST \<Rightarrow> SerDes_Tx_Init bsp s1
         | SERDES_TYPE_DEVICE \<Rightarrow>
             SerDes_ClearIT bsp (ALL_INT_TYPE bits)
               (SerDes_EnableIT bsp (SDS_RX_INT_EN bits OR SDS_RX_ERR_EN bits OR SDS_FIFO_OV_EN bits)
                 (SerDes_DoubleDMA_Rx_CFG bsp RX_DMA_0 RX_DMA_1
                   (SerDes_Rx_Init bsp (PFIC_EnableIRQ_serdes bsp s1)))))"

definition serdes_send :: "serdes_bsp \<Rightarrow> u32 \<Rightarrow> u16 \<Rightarrow> u16 \<Rightarrow> serdes_state \<Rightarrow> serdes_state" where
  "serdes_send bsp buffer sz custom_register s =
     SerDes_Wait_Txdone bsp (SerDes_DMA_Tx bsp
       (SerDes_DMA_Tx_CFG bsp buffer (serdes_max_packet_size s) (serdes_header sz custom_register) s))"

definition SERDES_IRQHandler ::
    "serdes_bsp \<Rightarrow> serdes_bits \<Rightarrow> u32 \<Rightarrow> u32 \<Rightarrow> serdes_state \<Rightarrow> serdes_event list \<times> serdes_state" where
  "SERDES_IRQHandler bsp bits RX_DMA_0 RX_DMA_1 s =
     (let sds_it_status = SerDes_StatusIT bsp s;
          (evs, s1) =
            (if sds_it_status AND SDS_RX_INT_FLG bits \<noteq> 0 then
               let s1 = s\<lparr>SDS_RX_LEN0 := reg_SDS_RX_LEN0 s, SDS_RX_LEN1 := reg_SDS_RX_LEN1 s\<rparr> in
               if current_rx_dma s1 = RX_DMA_0 then
                 ([(current_rx_dma s1, header_size (reg_SDS_DATA0 s1), serdes_header_custom (reg_SDS_DATA0 s1))],
                  s1\<lparr>current_rx_dma := RX_DMA_1\<rparr>)
               else
                 ([(current_rx_dma s1, header_size (reg_SDS_DATA1 s1), serdes_header_custom (reg_SDS_DATA1 s1))],
                  s1\<lparr>current_rx_dma := RX_DMA_0\<rparr>)
             else ([], s))
      in (evs, SerDes_ClearIT bsp (ALL_INT_FLG bits) s1))"

section \<open>Streams of packets\<close>

text \<open>Header words arriving one after the other: the hardware fills \<open>SDS_DATA0\<close> and \<open>SDS_DATA1\<close> in
  turn, as it alternates between the two DMA arrays, and raises the reception interrupt.\<close>

fun serdes_receive ::
    "serdes_bsp \<Rightarrow> serdes_bits \<Rightarrow> u32 \<Rightarrow> u32 \<Rightarrow> bool \<Rightarrow> u32 list \<Rightarrow> serdes_state \<Rightarrow> serdes_event list \<times> serdes_state" where
  "serdes_receive bsp bits d0 d1 slot [] s = ([], s)"
| "serdes_receive bsp bits d0 d1 slot (h # hs) s =
     (let (evs, s1) = SERDES_IRQHandler bsp bits d0 d1
            (if slot then s\<lparr>reg_SDS_DATA1 := h\<rparr> else s\<lparr>reg_SDS_DATA0 := h\<rparr>);
          (evs', s2) = serdes_receive bsp bits d0 d1 (\<not> slot) hs s1
      in (evs @ evs', s2))"

text \<open>The buffers in the order the packets land in them.\<close>

fun alternate :: "'a \<Rightarrow> 'a \<Rightarrow> nat \<Rightarrow> 'a list" where
  "alternate a b 0 = []"
| "alternate a b (Suc n) = a # alternate b a n"

text \<open>
  C29. A stream of packets sent over SerDes is delivered in order, one call of the handler per packet,
  with the size (13 bits) and the custom value (15 bits) each was sent with, in the two DMA
  arrays in turn.
\<close>

theorem serdes_stream_delivered:
  assumes "\<forall>(sz, cr) \<in> set ps. unat sz < 2 ^ 13 \<and> unat cr < 2 ^ 15" and "d0 \<noteq> d1"
    and "\<And>s. SerDes_StatusIT bsp s AND SDS_RX_INT_FLG bits \<noteq> 0"
    and "\<And>f s. current_rx_dma (SerDes_ClearIT bsp f s) = current_rx_dma s"
    and "current_rx_dma s = (if slot then d1 else d0)"
  shows "fst (serdes_receive bsp bits d0 d1 slot (map (\<lambda>(sz, cr). serdes_header sz cr) ps) s) =
    map2 (\<lambda>d (sz, cr). (d, sz, cr))
      (alternate (if slot then d1 else d0) (if slot then d0 else d1) (length ps)) ps"
  using assms(1,5)
proof (induction ps arbitrary: s slot)
  case Nil
  then show ?case by simp
next
  case (Cons x ps)
  obtain sz cr where x: "x = (sz, cr)" by (cases x)
  with Cons.prems(1) have h: "header_size (serdes_header sz cr) = sz" "serdes_header_custom (serdes_header sz cr) = cr"
    by (simp_all add: header_size_serdes header_custom_serdes take_bit_u16_eq)
  let ?s = "if slot then s\<lparr>reg_SDS_DATA1 := serdes_header sz cr\<rparr> else s\<lparr>reg_SDS_DATA0 := serdes_header sz cr\<rparr>"
  obtain evs s1 where s1: "SERDES_IRQHandler bsp bits d0 d1 ?s = (evs, s1)" by (metis prod.exhaust)
  have "evs = [(if slot then d1 else d0, sz, cr)]" "current_rx_dma s1 = (if \<not> slot then d1 else d0)"
    using s1 Cons.prems(2) assms(2,3,4) h
    by (auto simp: SERDES_IRQHandler_def Let_def split: if_splits)
  with s1 x Cons.IH [of s1 "\<not> slot"] Cons.prems(1) show ?case
    by (auto simp: Let_def split: prod.splits)
qed

definition demo_serdes_bsp :: serdes_bsp where
  "demo_serdes_bsp = \<lparr>SerDes_Tx_Init = id, SerDes_Rx_Init = id, PFIC_EnableIRQ_serdes = id,
     SerDes_DoubleDMA_Rx_CFG = (\<lambda>_ _. id), SerDes_EnableIT = (\<lambda>_. id), SerDes_ClearIT = (\<lambda>_. id),
     SerDes_DMA_Tx_CFG = (\<lambda>_ _ _. id), SerDes_DMA_Tx = id, SerDes_Wait_Txdone = id, SerDes_StatusIT = (\<lambda>_. 1)\<rparr>"

definition demo_serdes_bits :: serdes_bits where
  "demo_serdes_bits = \<lparr>SDS_RX_INT_EN = 1, SDS_RX_ERR_EN = 2, SDS_FIFO_OV_EN = 4, ALL_INT_TYPE = 7,
     SDS_RX_INT_FLG = 1, ALL_INT_FLG = 7\<rparr>"

definition demo_serdes :: serdes_state where
  "demo_serdes = \<lparr>SDS_RX_LEN0 = 0, SDS_RX_LEN1 = 0, current_rx_dma = 0x1000, serdes_max_packet_size = 4096,
     reg_SDS_RX_LEN0 = 0, reg_SDS_RX_LEN1 = 0, reg_SDS_DATA0 = 0, reg_SDS_DATA1 = 0\<rparr>"

theorem serdes_stream_delivered_witness:
  "fst (serdes_receive demo_serdes_bsp demo_serdes_bits 0x1000 0x2000 False
     [serdes_header 4096 0x7fff, serdes_header 12 3, serdes_header 1 2] demo_serdes) =
   [(0x1000, 4096, 0x7fff), (0x2000, 12, 3), (0x1000, 1, 2)]"
  using serdes_stream_delivered [where ps = "[(4096, 0x7fff), (12, 3), (1, 2)]" and ?d0.0 = "0x1000"
      and ?d1.0 = "0x2000" and bsp = demo_serdes_bsp and bits = demo_serdes_bits and s = demo_serdes and slot = False]
  by (simp add: demo_serdes_bsp_def demo_serdes_bits_def demo_serdes_def del: serdes_receive.simps)

end
