(* ===== verification/Hspi_Scheduled.thy ===== *)
theory Hspi_Scheduled
  imports Interrupt_Queue Object_Pool Ramx_Alloc Link_Header
begin

text \<open>
  \<open>hspi_scheduled/hspi_scheduled.c\<close>: HSPI with sending and receiving deferred to the task queue.
  The state extends that of the interrupt queue with the pool of call arguments, the RAMX pool, raw
  memory (the arguments are packed structs in it, as the driver's casts make them), the driver's
  variables and the registers. The task queue calls back by function address: \<open>hspi_fns\<close> names the
  addresses of the driver's three tasks and \<open>hspi_call\<close> dispatches on them, with any other address
  left to the environment.

  Parameters stand for what is not in the repository: the BSP's constants (\<open>hspi_sbits\<close>), its
  functions and the hardware (\<open>hspi_hw\<close>; \<open>hw_step\<close> is what happens to the state while the code
  polls), and the handlers of the user.
\<close>

record hspi_world = iq_world +
  hspi_arg_pool :: hydra_pool
  ramx_pool :: ramx_pool
  memory :: mem
  hspi_rx_buffer_0 :: u32
  hspi_rx_buffer_1 :: u32
  hspi_tx_buffer_0 :: u32
  hspi_tx_buffer_1 :: u32
  hspi_packet_size :: u16
  hspi_transmission_finished :: bool
  R32_PA_DIR :: u32
  R32_PA_DRV :: u32
  R8_HSPI_CFG :: u8
  R8_HSPI_AUX :: u8
  R8_HSPI_CTRL :: u8
  R8_HSPI_INT_EN :: u8
  R8_HSPI_INT_FLAG :: u8
  R8_HSPI_RTX_STATUS :: u8
  R8_HSPI_RX_SC :: u8
  R8_HSPI_TX_SC :: u8
  R32_HSPI_UDF0 :: u32
  R32_HSPI_UDF1 :: u32
  R32_HSPI_TX_ADDR0 :: u32
  R32_HSPI_TX_ADDR1 :: u32
  R32_HSPI_RX_ADDR0 :: u32
  R32_HSPI_RX_ADDR1 :: u32
  R16_HSPI_DMA_LEN0 :: u16
  R16_HSPI_DMA_LEN1 :: u16
  R16_HSPI_RX_LEN0 :: u16
  R16_HSPI_RX_LEN1 :: u16
  R16_HSPI_BURST_CFG :: u16

record hspi_sbits =
  SRB_HSPI_MODE :: u8
  SRB_HSPI_MSK_SIZE :: u8
  SRB_HSPI_DAT8_MOD :: u8
  SRB_HSPI_DAT16_MOD :: u8
  SRB_HSPI_DAT32_MOD :: u8
  SRB_HSPI_HW_ACK :: u8
  SRB_HSPI_TX_TOG_EN :: u8
  SRB_HSPI_RX_TOG_EN :: u8
  SRB_HSPI_DUALDMA :: u8
  SRB_HSPI_REQ_FT :: u8
  SRB_HSPI_TCK_MOD :: u8
  SRB_HSPI_ACK_TX_MOD :: u8
  SRB_HSPI_ACK_CNT_SEL :: u8
  SRB_HSPI_ALL_CLR :: u8
  SRB_HSPI_TRX_RST :: u8
  SRB_HSPI_IE_FIFO_OV :: u8
  SRB_HSPI_IE_R_DONE :: u8
  SRB_HSPI_RX_TOG :: u8
  SRB_HSPI_TX_TOG :: u8
  SRB_HSPI_ENABLE :: u8
  SRB_HSPI_DMA_EN :: u8
  SRB_HSPI_IF_T_DONE :: u8
  SRB_HSPI_IF_R_DONE :: u8
  SRB_HSPI_IF_FIFO_OV :: u8
  SRB_HSPI_IF_B_DONE :: u8
  SRB_HSPI_CRC_ERR :: u8
  SRB_HSPI_NUM_MIS :: u8

record hspi_hw =
  HSPI_DMA_Tx :: "hspi_world \<Rightarrow> hspi_world"
  hw_step :: "hspi_world \<Rightarrow> hspi_world"
  bsp_wait_us_delay :: "u32 \<Rightarrow> hspi_world \<Rightarrow> hspi_world"
  PFIC_EnableIRQ_hspi :: "hspi_world \<Rightarrow> hspi_world"
  int_flag_write :: "u8 \<Rightarrow> u8 \<Rightarrow> u8"
  user_rx_callback :: "u32 \<Rightarrow> u16 \<Rightarrow> u16 \<Rightarrow> hspi_world \<Rightarrow> hspi_world option"
  user_err_callback :: "hspi_world \<Rightarrow> hspi_world option"

record hspi_fns =
  fn_hspi_send :: u32
  fn_hspi_rx_callback :: u32
  fn_hspi_cleanup :: u32

text \<open>The build's block count and size, and where the static arrays are.\<close>

record hspi_build =
  POOL_BLOCK_NUM :: nat
  POOL_BLOCK_SIZE :: u32

section \<open>The packed argument struct \<open>hspi_args_t\<close>\<close>

definition args_buffer :: "mem \<Rightarrow> u32 \<Rightarrow> u32" where
  "args_buffer m p = load_u32 m (p + 1)"

definition args_size :: "mem \<Rightarrow> u32 \<Rightarrow> u16" where
  "args_size m p = load_u16 m (p + 5)"

definition args_custom_register :: "mem \<Rightarrow> u32 \<Rightarrow> u16" where
  "args_custom_register m p = load_u16 m (p + 7)"

definition set_args_buffer :: "u32 \<Rightarrow> u32 \<Rightarrow> mem \<Rightarrow> mem" where
  "set_args_buffer p b = mem_write (p + 1) (le32 b)"

definition set_args_size :: "u32 \<Rightarrow> u16 \<Rightarrow> mem \<Rightarrow> mem" where
  "set_args_size p n = mem_write (p + 5) (le16 n)"

definition set_args_custom_register :: "u32 \<Rightarrow> u16 \<Rightarrow> mem \<Rightarrow> mem" where
  "set_args_custom_register p r = mem_write (p + 7) (le16 r)"

section \<open>Operations\<close>

definition hspi_init_args_pool :: "hspi_world \<Rightarrow> hspi_world option" where
  "hspi_init_args_pool w = do {
     (p, m, c) \<leftarrow> hydra_pool_clean (iq_crit w) (hspi_arg_pool w) (memory w);
     Some (w\<lparr>iq_crit := c, hspi_arg_pool := p, memory := m\<rparr>) }"

definition hspi_doubledma_init ::
    "hspi_sbits \<Rightarrow> hspi_hw \<Rightarrow> HSPI_ModeTypeDef \<Rightarrow> u8 \<Rightarrow> u32 \<Rightarrow> u32 \<Rightarrow> u16 \<Rightarrow> hspi_world \<Rightarrow> hspi_world" where
  "hspi_doubledma_init b hw mode_type mode_data DMA0_addr DMA1_addr DMA_addr_len w =
     (let w = w\<lparr>R32_PA_DIR := R32_PA_DIR w OR (push_bit 9 1 OR push_bit 11 1 OR push_bit 21 1)\<rparr>;
          w = w\<lparr>R32_PA_DRV := R32_PA_DRV w OR push_bit 11 1\<rparr>;
          w = w\<lparr>R32_PA_DIR := R32_PA_DIR w OR push_bit 10 1\<rparr>;
          w = bsp_wait_us_delay hw 1 w;
          w = w\<lparr>R8_HSPI_CFG := R8_HSPI_CFG w AND NOT (SRB_HSPI_MODE b OR SRB_HSPI_MSK_SIZE b)\<rparr>;
          w = (if mode_type = HSPI_HOST then w\<lparr>R8_HSPI_CFG := R8_HSPI_CFG w OR SRB_HSPI_MODE b\<rparr>
               else w\<lparr>R8_HSPI_CFG := R8_HSPI_CFG w AND NOT (SRB_HSPI_MODE b)\<rparr>);
          w = w\<lparr>R8_HSPI_CFG := R8_HSPI_CFG w OR mode_data\<rparr>;
          w = w\<lparr>R8_HSPI_CFG := R8_HSPI_CFG w AND NOT (SRB_HSPI_HW_ACK b)\<rparr>;
          w = w\<lparr>R8_HSPI_CFG := R8_HSPI_CFG w OR SRB_HSPI_TX_TOG_EN b\<rparr>;
          w = w\<lparr>R8_HSPI_CFG := R8_HSPI_CFG w OR SRB_HSPI_RX_TOG_EN b\<rparr>;
          w = w\<lparr>R8_HSPI_CFG := R8_HSPI_CFG w OR SRB_HSPI_DUALDMA b\<rparr>;
          w = w\<lparr>R8_HSPI_AUX := R8_HSPI_AUX w OR SRB_HSPI_REQ_FT b\<rparr>;
          w = w\<lparr>R8_HSPI_AUX := R8_HSPI_AUX w OR SRB_HSPI_TCK_MOD b\<rparr>;
          w = w\<lparr>R8_HSPI_AUX := R8_HSPI_AUX w AND NOT (SRB_HSPI_ACK_TX_MOD b)\<rparr>;
          w = w\<lparr>R8_HSPI_AUX := R8_HSPI_AUX w AND NOT (SRB_HSPI_ACK_CNT_SEL b)\<rparr>;
          w = w\<lparr>R8_HSPI_CTRL := R8_HSPI_CTRL w AND NOT (SRB_HSPI_ALL_CLR b OR SRB_HSPI_TRX_RST b)\<rparr>;
          w = w\<lparr>R8_HSPI_INT_EN := R8_HSPI_INT_EN w OR SRB_HSPI_IE_FIFO_OV b\<rparr>;
          w = w\<lparr>R8_HSPI_INT_EN := R8_HSPI_INT_EN w OR SRB_HSPI_IE_R_DONE b\<rparr>;
          w = w\<lparr>R8_HSPI_INT_EN := R8_HSPI_INT_EN w OR SRB_HSPI_IE_FIFO_OV b\<rparr>;
          w = (if R8_HSPI_RX_SC w AND SRB_HSPI_RX_TOG b = SRB_HSPI_RX_TOG b
               then w\<lparr>R8_HSPI_RX_SC := SRB_HSPI_RX_TOG b\<rparr> else w);
          w = w\<lparr>R8_HSPI_RX_SC := 0\<rparr>;
          w = (if R8_HSPI_TX_SC w AND SRB_HSPI_TX_TOG b = SRB_HSPI_TX_TOG b
               then w\<lparr>R8_HSPI_TX_SC := SRB_HSPI_TX_TOG b\<rparr> else w);
          w = w\<lparr>R8_HSPI_TX_SC := 0\<rparr>;
          w = w\<lparr>R32_HSPI_UDF0 := 0x3ABCDEF\<rparr>;
          w = w\<lparr>R32_HSPI_UDF1 := 0x3456789\<rparr>;
          w = w\<lparr>R32_HSPI_TX_ADDR0 := 0\<rparr>;
          w = w\<lparr>R32_HSPI_RX_ADDR0 := DMA0_addr\<rparr>;
          w = w\<lparr>R32_HSPI_TX_ADDR1 := 0\<rparr>;
          w = w\<lparr>R32_HSPI_RX_ADDR1 := DMA1_addr\<rparr>;
          w = w\<lparr>R16_HSPI_DMA_LEN0 := DMA_addr_len - 1\<rparr>;
          w = w\<lparr>R16_HSPI_DMA_LEN1 := DMA_addr_len - 1\<rparr>;
          w = w\<lparr>R16_HSPI_RX_LEN0 := DMA_addr_len\<rparr>;
          w = w\<lparr>R16_HSPI_RX_LEN1 := DMA_addr_len\<rparr>;
          w = w\<lparr>R16_HSPI_BURST_CFG := 0\<rparr>;
          w = w\<lparr>R8_HSPI_CTRL := R8_HSPI_CTRL w OR (SRB_HSPI_ENABLE b OR SRB_HSPI_DMA_EN b)\<rparr>
      in PFIC_EnableIRQ_hspi hw w)"

text \<open>\<open>ramx_pool_alloc_bytes(hspi_packet_size)\<close>.\<close>

definition hspi_alloc_packet :: "hspi_build \<Rightarrow> hspi_world \<Rightarrow> (u32 \<times> hspi_world) option" where
  "hspi_alloc_packet bd w = do {
     (a, p, c) \<leftarrow> ramx_pool_alloc_bytes (POOL_BLOCK_NUM bd) (POOL_BLOCK_SIZE bd) (iq_crit w) (ramx_pool w)
       (ucast (hspi_packet_size w));
     Some (a, w\<lparr>iq_crit := c, ramx_pool := p\<rparr>) }"

text \<open>The four buffers, as both \<open>hspi_init\<close> and \<open>hspi_reinit_buffers\<close> allocate them.\<close>

definition hspi_alloc_buffers :: "hspi_build \<Rightarrow> hspi_world \<Rightarrow> hspi_world option" where
  "hspi_alloc_buffers bd w0 = do {
     (r0, w1) \<leftarrow> hspi_alloc_packet bd w0;
     (r1, w2) \<leftarrow> hspi_alloc_packet bd (w1\<lparr>hspi_rx_buffer_0 := r0\<rparr>);
     (t0, w3) \<leftarrow> hspi_alloc_packet bd (w2\<lparr>hspi_rx_buffer_1 := r1\<rparr>);
     (t1, w4) \<leftarrow> hspi_alloc_packet bd (w3\<lparr>hspi_tx_buffer_0 := t0\<rparr>);
     Some (w4\<lparr>hspi_tx_buffer_1 := t1\<rparr>) }"

definition hspi_reinit_buffers :: "hspi_build \<Rightarrow> hspi_world \<Rightarrow> hspi_world option" where
  "hspi_reinit_buffers bd w = do {
     w1 \<leftarrow> hspi_init_args_pool (w\<lparr>hspi_transmission_finished := True\<rparr>);
     w2 \<leftarrow> hspi_alloc_buffers bd w1;
     Some (w2\<lparr>R32_HSPI_TX_ADDR0 := 0, R32_HSPI_RX_ADDR0 := hspi_rx_buffer_0 w2,
              R32_HSPI_TX_ADDR1 := 0, R32_HSPI_RX_ADDR1 := hspi_rx_buffer_1 w2\<rparr>) }"

definition hspi_init ::
    "hspi_build \<Rightarrow> hspi_sbits \<Rightarrow> hspi_hw \<Rightarrow> HSPI_TYPE \<Rightarrow> HSPI_DATASIZE \<Rightarrow> u16 \<Rightarrow> hspi_world \<Rightarrow> hspi_world option" where
  "hspi_init bd b hw type datasize sz w = do {
     w1 \<leftarrow> hspi_init_args_pool (w\<lparr>hspi_transmission_finished := True\<rparr>);
     w2 \<leftarrow> hspi_alloc_buffers bd (w1\<lparr>hspi_packet_size := sz\<rparr>);
     let mode = (if type = HSPI_TYPE_HOST then HSPI_HOST else HSPI_DEVICE);
     Some (hspi_doubledma_init b hw mode
       (case datasize of HSPI_DATASIZE_8 \<Rightarrow> SRB_HSPI_DAT8_MOD b | HSPI_DATASIZE_16 \<Rightarrow> SRB_HSPI_DAT16_MOD b
          | HSPI_DATASIZE_32 \<Rightarrow> SRB_HSPI_DAT32_MOD b)
       (hspi_rx_buffer_0 w2) (hspi_rx_buffer_1 w2) (hspi_packet_size w2) w2) }"

definition hspi_cleanup :: "u32 \<Rightarrow> hspi_world \<Rightarrow> hspi_world option" where
  "hspi_cleanup data w = do {
     (rp, c1) \<leftarrow> ramx_pool_free (iq_crit w) (ramx_pool w) (args_buffer (memory w) data);
     (ap, c2) \<leftarrow> hydra_pool_free c1 (hspi_arg_pool w) data;
     Some (w\<lparr>ramx_pool := rp, hspi_arg_pool := ap, iq_crit := c2\<rparr>) }"

text \<open>The task \<open>_hspi_rx_callback\<close>.\<close>

definition hspi_rx_callback_task :: "hspi_hw \<Rightarrow> u32 \<Rightarrow> hspi_world \<Rightarrow> (bool \<times> hspi_world) option" where
  "hspi_rx_callback_task hw data w =
     (if data = 0 then Some (False, w)
      else do {
        w1 \<leftarrow> user_rx_callback hw (args_buffer (memory w) data) (args_size (memory w) data)
          (args_custom_register (memory w) data) w;
        Some (True, w1) })"

text \<open>The polling loop on \<open>RB_HSPI_IF_T_DONE\<close>; it does not return when the flag never comes.\<close>

partial_function (option) hspi_wait_done :: "hspi_sbits \<Rightarrow> hspi_hw \<Rightarrow> hspi_world \<Rightarrow> hspi_world option" where
  "hspi_wait_done b hw w =
     (if R8_HSPI_INT_FLAG w AND SRB_HSPI_IF_T_DONE b \<noteq> 0 then Some w
      else hspi_wait_done b hw (hw_step hw w))"

text \<open>The task \<open>_hspi_send\<close>: the part inside the critical section, then the transfer.\<close>

definition hspi_send_program :: "hspi_sbits \<Rightarrow> u32 \<Rightarrow> hspi_world \<Rightarrow> hspi_world" where
  "hspi_send_program b data w =
     (let w1 = w\<lparr>iq_crit := bsp_enter_critical (iq_crit w)\<rparr>;
          header = hspi_header (args_size (memory w1) data) (args_custom_register (memory w1) data);
          w2 = (if R8_HSPI_TX_SC w1 AND SRB_HSPI_TX_TOG b \<noteq> 0
                then w1\<lparr>R32_HSPI_TX_ADDR1 := args_buffer (memory w1) data, R32_HSPI_UDF1 := header\<rparr>
                else w1\<lparr>R32_HSPI_TX_ADDR0 := args_buffer (memory w1) data, R32_HSPI_UDF0 := header\<rparr>);
          w3 = w2\<lparr>hspi_transmission_finished := False\<rparr>
      in w3\<lparr>iq_crit := bsp_exit_critical (iq_crit w3)\<rparr>)"

definition hspi_send_task ::
    "hspi_sbits \<Rightarrow> hspi_hw \<Rightarrow> hspi_fns \<Rightarrow> u8 list \<Rightarrow> u32 \<Rightarrow> hspi_world \<Rightarrow> (bool \<times> hspi_world) option" where
  "hspi_send_task b hw fns var data w =
     (if data = 0 then Some (False, w)
      else do {
        let w1 = HSPI_DMA_Tx hw (hspi_send_program b data w);
        w2 \<leftarrow> hspi_wait_done b hw w1;
        let w3 = w2\<lparr>R8_HSPI_INT_FLAG := int_flag_write hw (R8_HSPI_INT_FLAG w2) (SRB_HSPI_IF_T_DONE b)\<rparr>;
        (more, task, w4) \<leftarrow> hydra_interrupt_queue_peek_next_task_prio0 var w3;
        Some (True, if more \<and> task_task task = fn_hspi_send fns then bsp_wait_us_delay hw 500 w4 else w4) })"

text \<open>\<open>junk\<close> is what the task variable of the queue held (see \<open>Interrupt_Queue\<close>).\<close>

definition hspi_send ::
    "hspi_build \<Rightarrow> hspi_fns \<Rightarrow> u8 list \<Rightarrow> u32 \<Rightarrow> u16 \<Rightarrow> u16 \<Rightarrow> hspi_world \<Rightarrow> (bool \<times> hspi_world) option" where
  "hspi_send bd fns junk buffer sz custom_register w = do {
     (args, ap, c) \<leftarrow> hydra_pool_get (iq_crit w) (hspi_arg_pool w);
     let w1 = w\<lparr>iq_crit := c, hspi_arg_pool := ap\<rparr>;
     if args = 0 then Some (False, w1)
     else do {
       r \<leftarrow> (if \<not> ramx_address_in_pool (ramx_pool w1) buffer then do {
               (new_buffer, w2) \<leftarrow> hspi_alloc_packet bd w1;
               if new_buffer = 0 then Some (None, w2)
               else let w3 = w2\<lparr>memory := mem_copy new_buffer buffer (unat sz) (memory w2)\<rparr>
                 in Some (Some (), w3\<lparr>memory := set_args_buffer args new_buffer (memory w3)\<rparr>) }
             else do {
               (rp, c2) \<leftarrow> ramx_take_ownership (iq_crit w1) (ramx_pool w1) buffer;
               let w2 = w1\<lparr>iq_crit := c2, ramx_pool := rp\<rparr>;
               Some (Some (), w2\<lparr>memory := set_args_buffer args buffer (memory w2)\<rparr>) });
       case r of
         (None, w2) \<Rightarrow> Some (False, w2)
       | (Some _, w2) \<Rightarrow> do {
           let w3 = w2\<lparr>memory := set_args_size args sz (memory w2)\<rparr>;
           let w4 = w3\<lparr>memory := set_args_custom_register args custom_register (memory w3)\<rparr>;
           (queued, w5) \<leftarrow> hydra_interrupt_queue_set_next_task junk (fn_hspi_send fns) args (fn_hspi_cleanup fns) w4;
           Some (True, w5) } } }"

text \<open>What the reception handler does for one of the two slots: queue the filled buffer with its
  header, when an argument struct is free, and replace it by a fresh one.\<close>

definition hspi_rx_slot ::
    "hspi_fns \<Rightarrow> u8 list \<Rightarrow> u32 \<Rightarrow> u32 \<Rightarrow> hspi_world \<Rightarrow> hspi_world option" where
  "hspi_rx_slot fns junk rx_buffer udf w = do {
     (args, ap, c) \<leftarrow> hydra_pool_get (iq_crit w) (hspi_arg_pool w);
     let w1 = w\<lparr>iq_crit := c, hspi_arg_pool := ap\<rparr>;
     if args \<noteq> 0 then do {
       let w2 = w1\<lparr>memory := set_args_buffer args rx_buffer (memory w1)\<rparr>;
       let w3 = w2\<lparr>memory := set_args_size args (hspi_scheduled_header_size udf) (memory w2)\<rparr>;
       let w4 = w3\<lparr>memory := set_args_custom_register args (hspi_scheduled_header_custom udf) (memory w3)\<rparr>;
       (queued, w5) \<leftarrow> hydra_interrupt_queue_set_next_task junk (fn_hspi_rx_callback fns) args (fn_hspi_cleanup fns) w4;
       Some w5 }
     else Some w1 }"

text \<open>\<open>R8_HSPI_INT_FLAG = v\<close>.\<close>

definition clear_flag :: "hspi_hw \<Rightarrow> u8 \<Rightarrow> hspi_world \<Rightarrow> hspi_world" where
  "clear_flag hw v w = w\<lparr>R8_HSPI_INT_FLAG := int_flag_write hw (R8_HSPI_INT_FLAG w) v\<rparr>"

definition hspi_irq_receive ::
    "hspi_build \<Rightarrow> hspi_sbits \<Rightarrow> hspi_hw \<Rightarrow> hspi_fns \<Rightarrow> u8 list \<Rightarrow> hspi_world \<Rightarrow> hspi_world option" where
  "hspi_irq_receive bd b hw fns junk w0 =
     (let w = clear_flag hw (SRB_HSPI_IF_R_DONE b) w0;
          udf0 = R32_HSPI_UDF0 w; udf1 = R32_HSPI_UDF1 w in
      if R8_HSPI_RTX_STATUS w AND (SRB_HSPI_CRC_ERR b OR SRB_HSPI_NUM_MIS b) = 0 then
        if R8_HSPI_RX_SC w AND SRB_HSPI_RX_TOG b \<noteq> 0 then do {
          w1 \<leftarrow> hspi_rx_slot fns junk (hspi_rx_buffer_0 w) udf0 w;
          (a, w2) \<leftarrow> hspi_alloc_packet bd w1;
          Some (w2\<lparr>hspi_rx_buffer_0 := a, R32_HSPI_RX_ADDR0 := a\<rparr>) }
        else do {
          w1 \<leftarrow> hspi_rx_slot fns junk (hspi_rx_buffer_1 w) udf1 w;
          (a, w2) \<leftarrow> hspi_alloc_packet bd w1;
          Some (w2\<lparr>hspi_rx_buffer_1 := a, R32_HSPI_RX_ADDR1 := a\<rparr>) }
      else user_err_callback hw w)"

definition HSPI_IRQHandler ::
    "hspi_build \<Rightarrow> hspi_sbits \<Rightarrow> hspi_hw \<Rightarrow> hspi_fns \<Rightarrow> u8 list \<Rightarrow> hspi_world \<Rightarrow> hspi_world option" where
  "HSPI_IRQHandler bd b hw fns junk w = do {
     w1 \<leftarrow> (if R8_HSPI_INT_FLAG w AND SRB_HSPI_IF_R_DONE b \<noteq> 0 then hspi_irq_receive bd b hw fns junk w
            else Some w);
     let w2 = (if R8_HSPI_INT_FLAG w1 AND SRB_HSPI_IF_FIFO_OV b \<noteq> 0
               then clear_flag hw (SRB_HSPI_IF_FIFO_OV b) w1 else w1);
     let w3 = (if R8_HSPI_INT_FLAG w2 AND SRB_HSPI_IF_B_DONE b \<noteq> 0
               then clear_flag hw (SRB_HSPI_IF_B_DONE b) w2 else w2);
     Some w3 }"

text \<open>The functions the task queue can call.\<close>

definition hspi_call ::
    "hspi_sbits \<Rightarrow> hspi_hw \<Rightarrow> hspi_fns \<Rightarrow> u8 list \<Rightarrow> (u32 \<Rightarrow> u32 \<Rightarrow> hspi_world \<Rightarrow> hspi_world option) \<Rightarrow>
     u32 \<Rightarrow> u32 \<Rightarrow> hspi_world \<Rightarrow> hspi_world option" where
  "hspi_call b hw fns var env f a w =
     (if f = fn_hspi_send fns then map_option snd (hspi_send_task b hw fns var a w)
      else if f = fn_hspi_rx_callback fns then map_option snd (hspi_rx_callback_task hw a w)
      else if f = fn_hspi_cleanup fns then hspi_cleanup a w
      else env f a w)"


section \<open>The argument struct in memory\<close>

lemma args_apart:
  "apart (p + 1) 4 (p + 5) 2" "apart (p + 1) 4 (p + 7) 2" "apart (p + 5) 2 (p + 7) 2"
  using apart_after [of 4 4 2 "p + 5" "p + 1"] apart_after [of 4 6 2 "p + 7" "p + 1"]
    apart_after [of 2 2 2 "p + 7" "p + 5"] by simp_all

lemma args_written:
  assumes "m1 = set_args_custom_register p r (set_args_size p n (set_args_buffer p b m))"
  shows "args_buffer m1 p = b" "args_size m1 p = n" "args_custom_register m1 p = r"
  unfolding assms
  by (simp_all add: args_buffer_def args_size_def args_custom_register_def set_args_buffer_def
      set_args_size_def set_args_custom_register_def load_u32_apart load_u16_apart args_apart)

section \<open>The invariant of the driver\<close>

definition hspi_inv :: "hspi_build \<Rightarrow> hspi_world \<Rightarrow> bool" where
  "hspi_inv bd w \<longleftrightarrow> iq_inv w \<and> pool_inv (hspi_arg_pool w) \<and> ramx_inv (POOL_BLOCK_NUM bd) (ramx_pool w)"

lemma hspi_invD:
  assumes "hspi_inv bd w"
  shows "iq_inv w" "pool_inv (hspi_arg_pool w)" "ramx_inv (POOL_BLOCK_NUM bd) (ramx_pool w)" "crit_ok (iq_crit w)"
  using assms by (auto simp: hspi_inv_def iq_inv_def)

text \<open>The fields the interrupt queue owns determine its invariant and contents.\<close>

lemma iq_frame:
  "task_queue w' = task_queue w \<Longrightarrow> iq_crit w' = iq_crit w \<Longrightarrow>
     iq_inv w' = iq_inv w \<and> iq_tasks w' = iq_tasks w \<and> iq_cap w' = iq_cap w"
  by (simp add: iq_inv_def iq_tasks_def iq_cap_def)

text \<open>A world with a free argument struct: its index \<open>k\<close> and address, and the pool after taking it.\<close>

definition args_free :: "hspi_world \<Rightarrow> nat \<Rightarrow> bool" where
  "args_free w k \<longleftrightarrow> hydra_pool_get (iq_crit w) (hspi_arg_pool w) =
     Some (member_addr (hspi_arg_pool w) k,
       (hspi_arg_pool w)\<lparr>pool_manager := (pool_manager (hspi_arg_pool w))[k := True]\<rparr>, iq_crit w) \<and>
     k < unat (pool_size (hspi_arg_pool w)) \<and> \<not> pool_manager (hspi_arg_pool w) ! k"

abbreviation args_addr :: "hspi_world \<Rightarrow> nat \<Rightarrow> u32" where
  "args_addr w k \<equiv> member_addr (hspi_arg_pool w) k"

abbreviation args_taken :: "hspi_world \<Rightarrow> nat \<Rightarrow> hydra_pool" where
  "args_taken w k \<equiv> (hspi_arg_pool w)\<lparr>pool_manager := (pool_manager (hspi_arg_pool w))[k := True]\<rparr>"

lemma args_addr_nonnull: "hspi_inv bd w \<Longrightarrow> args_free w k \<Longrightarrow> args_addr w k \<noteq> 0"
  using array_addr_nonnull [OF pool_invD(3) [OF hspi_invD(2)]] by (auto simp: args_free_def)


lemma args_taken_inv: "hspi_inv bd w \<Longrightarrow> pool_inv (args_taken w k)"
  by (simp add: pool_inv_set hspi_invD)

section \<open>Sending\<close>

text \<open>The state after \<open>hspi_send\<close> has queued a buffer of the RAMX pool: \<open>i\<close> is the run of the
  buffer, \<open>k\<close> the argument struct.\<close>

definition hspi_queued :: "hspi_world \<Rightarrow> nat \<Rightarrow> nat \<Rightarrow> u16 \<Rightarrow> u16 \<Rightarrow> hspi_world" where
  "hspi_queued w k i sz cr = w\<lparr>hspi_arg_pool := args_taken w k,
     ramx_pool := xset_refs (ramx_pool w) i (xp_refs (ramx_pool w) ! i + 1),
     memory := set_args_custom_register (args_addr w k) cr (set_args_size (args_addr w k) sz
       (set_args_buffer (args_addr w k) (xblock_addr (ramx_pool w) i) (memory w)))\<rparr>"

lemma hspi_send_in_pool:
  assumes "hspi_inv bd w" and "args_free w k" and "i \<in> run_starts 0 (xp_blocks (ramx_pool w))"
    and "ramx_address_in_pool (ramx_pool w) (xblock_addr (ramx_pool w) i)"
  shows "hspi_send bd fns junk (xblock_addr (ramx_pool w) i) sz cr w =
    do { (queued, w5) \<leftarrow> hydra_interrupt_queue_set_next_task junk (fn_hspi_send fns) (args_addr w k)
           (fn_hspi_cleanup fns) (hspi_queued w k i sz cr);
         Some (True, w5) }"
proof -
  have g: "hydra_pool_get (iq_crit w) (hspi_arg_pool w) = Some (args_addr w k, args_taken w k, iq_crit w)"
    using assms(2) by (simp add: args_free_def)
  have w: "w\<lparr>iq_crit := iq_crit w\<rparr> = w" by simp
  show ?thesis
    using args_addr_nonnull [OF assms(1,2)] assms(4)
      ramx_take_ownership_run [OF hspi_invD(3,4) [OF assms(1)] assms(3)]
    by (simp add: hspi_send_def g Let_def hspi_queued_def w)
qed

lemma hspi_queued_iq:
  "task_queue (hspi_queued w k i sz cr) = task_queue w" "iq_crit (hspi_queued w k i sz cr) = iq_crit w"
  by (simp_all add: hspi_queued_def)

lemma iq_inv_queued: "iq_inv w \<Longrightarrow> iq_inv (hspi_queued w k i sz cr)"
  and iq_tasks_queued: "iq_tasks (hspi_queued w k i sz cr) = iq_tasks w"
  and iq_cap_queued: "iq_cap (hspi_queued w k i sz cr) = iq_cap w"
  by (simp_all add: iq_inv_def iq_tasks_def iq_cap_def hspi_queued_iq)

text \<open>The task \<open>hspi_send\<close> sets.\<close>

definition send_task :: "hspi_fns \<Rightarrow> u8 list \<Rightarrow> u32 \<Rightarrow> hydra_interrupt_queue_task" where
  "send_task fns junk args = \<lparr>task_in_use = junk, task_task = fn_hspi_send fns, task_args = args,
     task_cleanup = fn_hspi_cleanup fns\<rparr>"

lemma send_task_fields [simp]:
  "task_in_use (send_task fns junk a) = junk" "task_task (send_task fns junk a) = fn_hspi_send fns"
  "task_args (send_task fns junk a) = a" "task_cleanup (send_task fns junk a) = fn_hspi_cleanup fns"
  by (simp_all add: send_task_def)

text \<open>
  \<open>hspi_send\<close> of a buffer that is already in RAMX copies nothing: it adds an owner to the buffer,
  records buffer, size and custom value in a fresh argument struct and queues \<open>_hspi_send\<close> with
  \<open>_hspi_cleanup\<close> behind the tasks already there.
\<close>

theorem hspi_send_zero_copy:
  assumes "hspi_inv bd w" and "args_free w k" and "i \<in> run_starts 0 (xp_blocks (ramx_pool w))"
    and "ramx_address_in_pool (ramx_pool w) (xblock_addr (ramx_pool w) i)"
    and "xp_refs (ramx_pool w) ! i < 255"
    and "length (iq_tasks w) < iq_cap w" and "length junk = 4"
  shows "\<exists>w'. hspi_send bd fns junk (xblock_addr (ramx_pool w) i) sz cr w = Some (True, w') \<and> hspi_inv bd w' \<and>
    iq_tasks w' = iq_tasks w @ [send_task fns junk (args_addr w k)] \<and>
    args_buffer (memory w') (args_addr w k) = xblock_addr (ramx_pool w) i \<and>
    args_size (memory w') (args_addr w k) = sz \<and> args_custom_register (memory w') (args_addr w k) = cr \<and>
    ramx_owners (ramx_pool w') = (ramx_owners (ramx_pool w))(xblock_addr (ramx_pool w) i :=
      ramx_owners (ramx_pool w) (xblock_addr (ramx_pool w) i) + 1) \<and>
    pool_manager (hspi_arg_pool w') = (pool_manager (hspi_arg_pool w))[k := True]"
proof -
  note d = hspi_invD [OF assms(1)]
  let ?q = "hspi_queued w k i sz cr"
  have "iq_inv ?q" using d(1) by (rule iq_inv_queued)
  moreover have "length (iq_tasks ?q) < iq_cap ?q" using assms(6) by (simp add: iq_tasks_queued iq_cap_queued)
  ultimately obtain q where q: "hydra_interrupt_queue_set_next_task junk (fn_hspi_send fns) (args_addr w k)
      (fn_hspi_cleanup fns) ?q = Some (True, ?q\<lparr>task_queue := q\<rparr>)" "iq_inv (?q\<lparr>task_queue := q\<rparr>)"
    "iq_tasks (?q\<lparr>task_queue := q\<rparr>) = iq_tasks w @ [send_task fns junk (args_addr w k)]"
    using set_next_task_room [of ?q junk "fn_hspi_send fns" "args_addr w k" "fn_hspi_cleanup fns"] assms(7)
    by (auto simp: iq_tasks_queued send_task_def)
  have send: "hspi_send bd fns junk (xblock_addr (ramx_pool w) i) sz cr w = Some (True, ?q\<lparr>task_queue := q\<rparr>)"
    by (simp add: hspi_send_in_pool [OF assms(1-4)] q(1))
  have lt: "unat (xp_refs (ramx_pool w) ! i) < 255" using assms(5) by (simp add: word_less_nat_alt)
  have r: "unat (xp_refs (ramx_pool w) ! i + 1) = unat (xp_refs (ramx_pool w) ! i) + 1"
    using unat_u8_incr [OF lt] by simp
  then have r1: "1 \<le> xp_refs (ramx_pool w) ! i + 1" by (simp add: unat_1_le)
  have rx: "ramx_inv (POOL_BLOCK_NUM bd) (ramx_pool ?q)"
    using xset_refs_inv(1) [OF d(3) assms(3) r1] by (simp add: hspi_queued_def)
  have "ramx_owners (ramx_pool ?q) = (ramx_owners (ramx_pool w))(xblock_addr (ramx_pool w) i :=
      ramx_owners (ramx_pool w) (xblock_addr (ramx_pool w) i) + 1)"
    using ramx_owners_xset [OF d(3) assms(3) r1] ramx_owners_run [OF d(3) assms(3)] r by (simp add: hspi_queued_def)
  moreover have "pool_manager (hspi_arg_pool ?q) = (pool_manager (hspi_arg_pool w))[k := True]"
    "pool_inv (hspi_arg_pool ?q)"
    using args_taken_inv [OF assms(1)] by (simp_all add: hspi_queued_def)
  moreover have "memory ?q = set_args_custom_register (args_addr w k) cr (set_args_size (args_addr w k) sz
      (set_args_buffer (args_addr w k) (xblock_addr (ramx_pool w) i) (memory w)))" by (simp add: hspi_queued_def)
  note args_written [OF this]
  ultimately show ?thesis
    using send q(2,3) rx by (auto simp: hspi_inv_def)
qed

text \<open>
  When the task queue is full \<open>hspi_send\<close> still reports success: nothing is queued, the argument
  struct stays taken and the buffer keeps an owner that nobody will release.
\<close>

theorem hspi_send_full_queue_leaks:
  assumes "hspi_inv bd w" and "args_free w k" and "i \<in> run_starts 0 (xp_blocks (ramx_pool w))"
    and "ramx_address_in_pool (ramx_pool w) (xblock_addr (ramx_pool w) i)"
    and "length (iq_tasks w) = iq_cap w"
  shows "\<exists>w'. hspi_send bd fns junk (xblock_addr (ramx_pool w) i) sz cr w = Some (True, w') \<and>
    iq_tasks w' = iq_tasks w \<and> pool_manager (hspi_arg_pool w') ! k \<and>
    xp_refs (ramx_pool w') ! i = xp_refs (ramx_pool w) ! i + 1"
proof -
  note d = hspi_invD [OF assms(1)]
  note rd = ramx_invD [OF d(3)]
  note x = xrun [OF d(3) assms(3)]
  let ?q = "hspi_queued w k i sz cr"
  have "hspi_send bd fns junk (xblock_addr (ramx_pool w) i) sz cr w = Some (True, ?q)"
    using set_next_task_full [OF iq_inv_queued [OF d(1)], of k i sz cr] assms(5)
    by (simp add: hspi_send_in_pool [OF assms(1-4)] iq_tasks_queued iq_cap_queued)
  moreover have "pool_manager (hspi_arg_pool ?q) ! k"
    using assms(2) pool_invD(1) [OF d(2)] by (simp add: hspi_queued_def args_free_def)
  moreover have "0 < unat (xp_blocks (ramx_pool w) ! i)" using x(1) by (simp add: unat_gt_0)
  then have "xp_refs (ramx_pool ?q) ! i = xp_refs (ramx_pool w) ! i + 1"
    using nth_splice [of i "unat (xp_blocks (ramx_pool w) ! i)" "xp_refs (ramx_pool w)"] x(2) rd(2)
    by (simp add: hspi_queued_def xset_refs_def Let_def)
  ultimately show ?thesis by (auto simp: iq_tasks_queued)
qed

text \<open>
  When RAMX is exhausted \<open>hspi_send\<close> of a buffer outside RAMX fails but keeps the argument struct:
  every such call takes one more struct out of the pool for good.
\<close>

theorem hspi_send_no_ramx_leaks_args:
  assumes "hspi_inv bd w" and "args_free w k" and "\<not> ramx_address_in_pool (ramx_pool w) buf"
    and "ramx_pool_alloc_bytes (POOL_BLOCK_NUM bd) (POOL_BLOCK_SIZE bd) (iq_crit w) (ramx_pool w)
      (ucast (hspi_packet_size w)) = Some (0, ramx_pool w, iq_crit w)"
  shows "\<exists>w'. hspi_send bd fns junk buf sz cr w = Some (False, w') \<and> iq_tasks w' = iq_tasks w \<and>
    hspi_arg_pool w' = args_taken w k"
proof -
  have g: "hydra_pool_get (iq_crit w) (hspi_arg_pool w) = Some (args_addr w k, args_taken w k, iq_crit w)"
    using assms(2) by (simp add: args_free_def)
  show ?thesis
    using args_addr_nonnull [OF assms(1,2)] assms(3,4)
    by (simp add: hspi_send_def hspi_alloc_packet_def g Let_def iq_tasks_def)
qed


section \<open>Executing a queued transmission\<close>

text \<open>What the hardware may do while it transmits or while the code waits: change the interrupt flags
  and the transmit status. The second predicate says that every transmission ends.\<close>

definition hw_only :: "hspi_world \<Rightarrow> hspi_world \<Rightarrow> bool" where
  "hw_only w w' \<longleftrightarrow> (\<exists>fl sc. w' = w\<lparr>R8_HSPI_INT_FLAG := fl, R8_HSPI_TX_SC := sc\<rparr>)"

definition hw_frame :: "hspi_hw \<Rightarrow> bool" where
  "hw_frame hw \<longleftrightarrow> (\<forall>w. hw_only w (HSPI_DMA_Tx hw w) \<and> hw_only w (hw_step hw w) \<and>
     (\<forall>us. hw_only w (bsp_wait_us_delay hw us w)))"

definition tx_ends :: "hspi_sbits \<Rightarrow> hspi_hw \<Rightarrow> bool" where
  "tx_ends b hw \<longleftrightarrow> (\<forall>w. \<exists>n. R8_HSPI_INT_FLAG ((hw_step hw ^^ n) (HSPI_DMA_Tx hw w)) AND SRB_HSPI_IF_T_DONE b \<noteq> 0)"

definition fns_ok :: "hspi_fns \<Rightarrow> bool" where
  "fns_ok fns \<longleftrightarrow> distinct [0, fn_hspi_send fns, fn_hspi_rx_callback fns, fn_hspi_cleanup fns]"

lemma hspi_call_fns:
  assumes "fns_ok fns"
  shows "hspi_call b hw fns var env (fn_hspi_send fns) a w = map_option snd (hspi_send_task b hw fns var a w)"
    and "hspi_call b hw fns var env (fn_hspi_rx_callback fns) a w = map_option snd (hspi_rx_callback_task hw a w)"
    and "hspi_call b hw fns var env (fn_hspi_cleanup fns) a w = hspi_cleanup a w"
    and "fn_hspi_cleanup fns \<noteq> 0"
proof -
  from assms have ne: "fn_hspi_rx_callback fns \<noteq> fn_hspi_send fns" "fn_hspi_cleanup fns \<noteq> fn_hspi_send fns"
    "fn_hspi_cleanup fns \<noteq> fn_hspi_rx_callback fns" by (auto simp: fns_ok_def)
  then show "hspi_call b hw fns var env (fn_hspi_send fns) a w = map_option snd (hspi_send_task b hw fns var a w)"
    and "hspi_call b hw fns var env (fn_hspi_rx_callback fns) a w = map_option snd (hspi_rx_callback_task hw a w)"
    and "hspi_call b hw fns var env (fn_hspi_cleanup fns) a w = hspi_cleanup a w"
    by (simp_all add: hspi_call_def)
  show "fn_hspi_cleanup fns \<noteq> 0" using assms by (auto simp: fns_ok_def)
qed

lemma hw_only_refl: "hw_only w w"
  unfolding hw_only_def by (intro exI [of _ "R8_HSPI_INT_FLAG w"] exI [of _ "R8_HSPI_TX_SC w"]) simp

lemma hw_only_trans:
  assumes "hw_only u v" and "hw_only v w"
  shows "hw_only u w"
proof -
  obtain fl sc where "w = v\<lparr>R8_HSPI_INT_FLAG := fl, R8_HSPI_TX_SC := sc\<rparr>" using assms(2) by (auto simp: hw_only_def)
  with assms(1) have "w = u\<lparr>R8_HSPI_INT_FLAG := fl, R8_HSPI_TX_SC := sc\<rparr>" by (auto simp: hw_only_def)
  then show ?thesis unfolding hw_only_def by blast
qed

lemma hw_only_flag: "hw_only w (w\<lparr>R8_HSPI_INT_FLAG := fl\<rparr>)"
  unfolding hw_only_def by (intro exI [of _ fl] exI [of _ "R8_HSPI_TX_SC w"]) simp

lemma hw_only_fields:
  assumes "hw_only w w'"
  shows "task_queue w' = task_queue w" "iq_crit w' = iq_crit w" "hspi_arg_pool w' = hspi_arg_pool w"
    "ramx_pool w' = ramx_pool w" "memory w' = memory w" "R32_HSPI_TX_ADDR0 w' = R32_HSPI_TX_ADDR0 w"
    "R32_HSPI_TX_ADDR1 w' = R32_HSPI_TX_ADDR1 w" "R32_HSPI_UDF0 w' = R32_HSPI_UDF0 w"
    "R32_HSPI_UDF1 w' = R32_HSPI_UDF1 w" "iq_tasks w' = iq_tasks w" "iq_inv w' = iq_inv w"
  using assms by (auto simp: hw_only_def iq_tasks_def iq_inv_def)

text \<open>The first of the hardware's steps after which the end of the transfer is flagged.\<close>

definition tx_done_first :: "hspi_sbits \<Rightarrow> hspi_hw \<Rightarrow> hspi_world \<Rightarrow> nat \<Rightarrow> bool" where
  "tx_done_first b hw w n \<longleftrightarrow> R8_HSPI_INT_FLAG ((hw_step hw ^^ n) w) AND SRB_HSPI_IF_T_DONE b \<noteq> 0 \<and>
     (\<forall>m < n. R8_HSPI_INT_FLAG ((hw_step hw ^^ m) w) AND SRB_HSPI_IF_T_DONE b = 0)"

text \<open>The state when the transfer that \<open>_hspi_send\<close> starts is over: \<open>n\<close> steps of the hardware after its
  start, the flag cleared, and a pause of 500 us if the next task is a transmission too.\<close>

definition hspi_sent :: "hspi_sbits \<Rightarrow> hspi_hw \<Rightarrow> hspi_fns \<Rightarrow> hydra_interrupt_queue_task list \<Rightarrow> u32 \<Rightarrow> nat \<Rightarrow>
    hspi_world \<Rightarrow> hspi_world" where
  "hspi_sent b hw fns ts data n w =
     (let w1 = clear_flag hw (SRB_HSPI_IF_T_DONE b)
                 ((hw_step hw ^^ n) (HSPI_DMA_Tx hw (hspi_send_program b data w)))
      in if ts \<noteq> [] \<and> task_task (hd ts) = fn_hspi_send fns then bsp_wait_us_delay hw 500 w1 else w1)"

lemma wait_done_returns:
  assumes "hw_frame hw"
  shows "R8_HSPI_INT_FLAG ((hw_step hw ^^ n) w) AND SRB_HSPI_IF_T_DONE b \<noteq> 0 \<Longrightarrow>
    \<exists>w' k. hspi_wait_done b hw w = Some w' \<and> hw_only w w' \<and> w' = (hw_step hw ^^ k) w \<and> tx_done_first b hw w k"
proof (induction n arbitrary: w)
  case 0
  then show ?case
    by (subst hspi_wait_done.simps) (auto simp: hw_only_refl tx_done_first_def intro!: exI [of _ 0])
next
  case (Suc n)
  have step: "hw_only w (hw_step hw w)" using assms by (simp add: hw_frame_def)
  have "R8_HSPI_INT_FLAG ((hw_step hw ^^ n) (hw_step hw w)) AND SRB_HSPI_IF_T_DONE b \<noteq> 0"
    using Suc.prems by (simp add: funpow_swap1)
  from Suc.IH [OF this] obtain w' k where ih: "hspi_wait_done b hw (hw_step hw w) = Some w'"
    "hw_only (hw_step hw w) w'" "w' = (hw_step hw ^^ k) (hw_step hw w)" "tx_done_first b hw (hw_step hw w) k"
    by blast
  show ?case
  proof (cases "R8_HSPI_INT_FLAG w AND SRB_HSPI_IF_T_DONE b = 0")
    case True
    then have "tx_done_first b hw w (Suc k)"
      using ih(4) by (auto simp: tx_done_first_def funpow_swap1 less_Suc_eq_0_disj)
    moreover have "w' = (hw_step hw ^^ Suc k) w" using ih(3) by (simp add: funpow_swap1)
    ultimately show ?thesis
      using ih(1) hw_only_trans [OF step ih(2)] True
      by (subst hspi_wait_done.simps) (auto intro!: exI [of _ "Suc k"])
  next
    case False
    then show ?thesis
      by (subst hspi_wait_done.simps) (auto simp: hw_only_refl tx_done_first_def intro!: exI [of _ 0])
  qed
qed

lemma hspi_send_task_runs:
  assumes "hw_frame hw" and "tx_ends b hw" and "iq_inv w" and "length var = 16" and "data \<noteq> 0"
  shows "\<exists>w' n. hspi_send_task b hw fns var data w = Some (True, w') \<and> hw_only (hspi_send_program b data w) w' \<and>
    tx_done_first b hw (HSPI_DMA_Tx hw (hspi_send_program b data w)) n \<and>
    w' = hspi_sent b hw fns (iq_tasks w) data n w"
proof -
  let ?p = "hspi_send_program b data w"
  have tx: "hw_only ?p (HSPI_DMA_Tx hw ?p)" using assms(1) by (simp add: hw_frame_def)
  obtain n where "R8_HSPI_INT_FLAG ((hw_step hw ^^ n) (HSPI_DMA_Tx hw ?p)) AND SRB_HSPI_IF_T_DONE b \<noteq> 0"
    using assms(2) unfolding tx_ends_def by blast
  from wait_done_returns [OF assms(1) this] obtain w2 k where w2: "hspi_wait_done b hw (HSPI_DMA_Tx hw ?p) = Some w2"
    "hw_only (HSPI_DMA_Tx hw ?p) w2" "w2 = (hw_step hw ^^ k) (HSPI_DMA_Tx hw ?p)"
    "tx_done_first b hw (HSPI_DMA_Tx hw ?p) k" by blast
  let ?w3 = "w2\<lparr>R8_HSPI_INT_FLAG := int_flag_write hw (R8_HSPI_INT_FLAG w2) (SRB_HSPI_IF_T_DONE b)\<rparr>"
  have w3: "hw_only ?p ?w3" using tx w2(2) hw_only_flag hw_only_trans by blast
  have "iq_inv ?p" using assms(3) by (simp add: hspi_send_program_def iq_inv_def Let_def)
  then have "iq_inv ?w3" using hw_only_fields(11) [OF w3] by simp
  note pk = peek_next_task [OF this assms(4)]
  have ts: "iq_tasks ?w3 = iq_tasks w"
    using hw_only_fields(10) [OF w3] by (simp add: hspi_send_program_def iq_tasks_def Let_def)
  have sent: "hspi_sent b hw fns xs data k w =
      (if xs \<noteq> [] \<and> task_task (hd xs) = fn_hspi_send fns then bsp_wait_us_delay hw 500 ?w3 else ?w3)" for xs
    by (simp add: hspi_sent_def w2(3) clear_flag_def Let_def)
  have "hspi_send_task b hw fns var data w = Some (True, hspi_sent b hw fns (iq_tasks w) data k w)"
    using assms(5) w2(1) pk by (cases "iq_tasks w") (simp_all add: hspi_send_task_def Let_def sent ts)
  moreover have "hw_only ?p (bsp_wait_us_delay hw 500 ?w3)"
    using w3 assms(1) hw_only_trans by (auto simp: hw_frame_def)
  then have "hw_only ?p (hspi_sent b hw fns (iq_tasks w) data k w)" using w3 by (simp add: sent)
  ultimately show ?thesis using w2(4) by blast
qed

lemma hspi_cleanup_runs:
  assumes "hspi_inv bd w" and "k < unat (pool_size (hspi_arg_pool w))" and "pool_manager (hspi_arg_pool w) ! k"
    and "i \<in> run_starts 0 (xp_blocks (ramx_pool w))"
    and "args_buffer (memory w) (args_addr w k) = xblock_addr (ramx_pool w) i"
  shows "\<exists>rp. hspi_cleanup (args_addr w k) w = Some (w\<lparr>ramx_pool := rp,
      hspi_arg_pool := (hspi_arg_pool w)\<lparr>pool_manager := (pool_manager (hspi_arg_pool w))[k := False]\<rparr>\<rparr>) \<and>
    ramx_inv (POOL_BLOCK_NUM bd) rp \<and>
    ramx_owners rp = (ramx_owners (ramx_pool w))(xblock_addr (ramx_pool w) i :=
      ramx_owners (ramx_pool w) (xblock_addr (ramx_pool w) i) - 1)"
proof -
  note d = hspi_invD [OF assms(1)]
  have "rx_inv (POOL_BLOCK_NUM bd) (ramx_pool w, iq_crit w)" using d by (simp add: rx_inv_def)
  moreover have "0 < rx_owners (ramx_pool w, iq_crit w) (xblock_addr (ramx_pool w) i)"
    using ramx_owners_run [OF d(3) assms(4)] ramx_invD(7) [OF d(3) assms(4)] by (simp add: rx_owners_def unat_1_le)
  ultimately obtain rp c where rp: "rx_free (xblock_addr (ramx_pool w) i) (ramx_pool w, iq_crit w) = Some (rp, c)"
    "ramx_inv (POOL_BLOCK_NUM bd) rp" "ramx_owners rp = (ramx_owners (ramx_pool w))(xblock_addr (ramx_pool w) i :=
      ramx_owners (ramx_pool w) (xblock_addr (ramx_pool w) i) - 1)"
    using rx.release_owned [of "POOL_BLOCK_NUM bd" "(ramx_pool w, iq_crit w)"] by (force simp: rx_inv_def rx_owners_def)
  have "c = iq_crit w"
    using rp(1) ramx_pool_free_run [OF d(3,4) assms(4)] by (simp add: rx_free_def)
  moreover have "w\<lparr>iq_crit := iq_crit w\<rparr> = w" by simp
  ultimately show ?thesis
    using rp pool_free_used [OF d(2,4) assms(2,3)] assms(5)
    by (intro exI [of _ rp]) (simp add: hspi_cleanup_def rx_free_def)
qed

text \<open>
  C14. A transmission that \<open>hspi_send\<close> queued is carried out by the task queue: when it comes to the
  front, one \<open>hydra_interrupt_queue_run\<close> takes it from the queue, programs the DMA slot that
  \<open>RB_HSPI_TX_TOG\<close> selects with the buffer and the header of its size and custom value, starts the
  transfer and waits until the hardware first flags its end (after \<open>n\<close> of its steps). Only in the
  state reached then, the flag cleared and the pause before a next transmission made, the cleanup
  gives up the driver's ownership of the buffer and the argument struct, and changes nothing else.
  It terminates if every transmission does.
\<close>

theorem hspi_send_executed:
  assumes "hspi_inv bd w" and "iq_tasks w = send_task fns junk (args_addr w k) # ts"
    and "k < unat (pool_size (hspi_arg_pool w))" and "pool_manager (hspi_arg_pool w) ! k"
    and "i \<in> run_starts 0 (xp_blocks (ramx_pool w))"
    and "args_buffer (memory w) (args_addr w k) = xblock_addr (ramx_pool w) i"
    and "args_size (memory w) (args_addr w k) = sz" and "args_custom_register (memory w) (args_addr w k) = cr"
    and "hw_frame hw" and "tx_ends b hw" and "fns_ok fns" and "length var = 16"
  shows "\<exists>w' q n rp ap. hydra_interrupt_queue_run (hspi_call b hw fns var env) var w = Some w' \<and>
    tx_done_first b hw (HSPI_DMA_Tx hw (hspi_send_program b (args_addr w k) (w\<lparr>task_queue := q\<rparr>))) n \<and>
    w' = (hspi_sent b hw fns ts (args_addr w k) n (w\<lparr>task_queue := q\<rparr>))\<lparr>ramx_pool := rp, hspi_arg_pool := ap\<rparr> \<and>
    ap = (hspi_arg_pool w)\<lparr>pool_manager := (pool_manager (hspi_arg_pool w))[k := False]\<rparr> \<and>
    ramx_owners rp = (ramx_owners (ramx_pool w))(xblock_addr (ramx_pool w) i :=
      ramx_owners (ramx_pool w) (xblock_addr (ramx_pool w) i) - 1) \<and>
    hspi_inv bd w' \<and> iq_tasks w' = ts \<and>
    (if R8_HSPI_TX_SC w AND SRB_HSPI_TX_TOG b \<noteq> 0
     then R32_HSPI_TX_ADDR1 w' = xblock_addr (ramx_pool w) i \<and> R32_HSPI_UDF1 w' = hspi_header sz cr
     else R32_HSPI_TX_ADDR0 w' = xblock_addr (ramx_pool w) i \<and> R32_HSPI_UDF0 w' = hspi_header sz cr)"
proof -
  note d = hspi_invD [OF assms(1)]
  let ?a = "args_addr w k" and ?c = "hspi_call b hw fns var env"
  from run_first [OF d(1) assms(2,12), of ?c] obtain q where
    run: "hydra_interrupt_queue_run ?c var w = do {
      w2 \<leftarrow> ?c (fn_hspi_send fns) ?a (w\<lparr>task_queue := q\<rparr>);
      if fn_hspi_cleanup fns \<noteq> 0 then ?c (fn_hspi_cleanup fns) ?a w2 else Some w2 }"
    and q: "iq_inv (w\<lparr>task_queue := q\<rparr>)" "iq_tasks (w\<lparr>task_queue := q\<rparr>) = ts"
    unfolding send_task_fields by blast
  let ?w0 = "w\<lparr>task_queue := q\<rparr>"
  have nn: "?a \<noteq> 0" by (rule array_addr_nonnull [OF pool_invD(3) [OF d(2)] assms(3)])
  obtain w1 n where w1: "hspi_send_task b hw fns var ?a ?w0 = Some (True, w1)" "hw_only (hspi_send_program b ?a ?w0) w1"
    "tx_done_first b hw (HSPI_DMA_Tx hw (hspi_send_program b ?a ?w0)) n" "w1 = hspi_sent b hw fns (iq_tasks ?w0) ?a n ?w0"
    using hspi_send_task_runs [OF assms(9,10) q(1) assms(12) nn] by blast
  have crit: "iq_crit (hspi_send_program b ?a ?w0) = iq_crit w"
    using d(4) by (simp add: hspi_send_program_def Let_def)
  have prog: "task_queue (hspi_send_program b ?a ?w0) = q" "hspi_arg_pool (hspi_send_program b ?a ?w0) = hspi_arg_pool w"
    "ramx_pool (hspi_send_program b ?a ?w0) = ramx_pool w" "memory (hspi_send_program b ?a ?w0) = memory w"
    by (simp_all add: hspi_send_program_def Let_def)
  note f1 = hw_only_fields [OF w1(2), unfolded prog crit]
  have iq1: "iq_inv w1" "iq_tasks w1 = ts" using q f1(1,2) by (simp_all add: iq_inv_def iq_tasks_def)
  then have inv1: "hspi_inv bd w1" using d f1(3,4) by (simp add: hspi_inv_def)
  obtain rp where rp: "hspi_cleanup (args_addr w1 k) w1 = Some (w1\<lparr>ramx_pool := rp,
      hspi_arg_pool := (hspi_arg_pool w1)\<lparr>pool_manager := (pool_manager (hspi_arg_pool w1))[k := False]\<rparr>\<rparr>)"
    "ramx_inv (POOL_BLOCK_NUM bd) rp" "ramx_owners rp = (ramx_owners (ramx_pool w))(xblock_addr (ramx_pool w) i :=
      ramx_owners (ramx_pool w) (xblock_addr (ramx_pool w) i) - 1)"
    using hspi_cleanup_runs [OF inv1, of k i] assms(3-6) f1(3-5) by auto
  let ?w2 = "w1\<lparr>ramx_pool := rp,
      hspi_arg_pool := (hspi_arg_pool w1)\<lparr>pool_manager := (pool_manager (hspi_arg_pool w1))[k := False]\<rparr>\<rparr>"
  have "hydra_interrupt_queue_run ?c var w = Some ?w2"
    using run w1(1) rp(1) f1(3) hspi_call_fns [OF assms(11)] by simp
  moreover have "hspi_inv bd ?w2" "iq_tasks ?w2 = ts"
    using inv1 iq1 rp(2) by (simp_all add: hspi_inv_def iq_inv_def iq_tasks_def pool_inv_set)
  moreover have "?w2 = (hspi_sent b hw fns ts ?a n ?w0)\<lparr>ramx_pool := rp,
      hspi_arg_pool := (hspi_arg_pool w)\<lparr>pool_manager := (pool_manager (hspi_arg_pool w))[k := False]\<rparr>\<rparr>"
    using w1(4) q(2) f1(3) by simp
  moreover have "if R8_HSPI_TX_SC w AND SRB_HSPI_TX_TOG b \<noteq> 0
     then R32_HSPI_TX_ADDR1 ?w2 = xblock_addr (ramx_pool w) i \<and> R32_HSPI_UDF1 ?w2 = hspi_header sz cr
     else R32_HSPI_TX_ADDR0 ?w2 = xblock_addr (ramx_pool w) i \<and> R32_HSPI_UDF0 ?w2 = hspi_header sz cr"
    using f1(6-9) assms(6-8) by (simp add: hspi_send_program_def Let_def)
  ultimately show ?thesis using rp(3) w1(3)
    by (intro exI [of _ ?w2] exI [of _ q] exI [of _ n] exI [of _ rp] exI) (simp del: hspi_world.simps)
qed


section \<open>Receiving\<close>

definition rx_task :: "hspi_fns \<Rightarrow> u8 list \<Rightarrow> u32 \<Rightarrow> hydra_interrupt_queue_task" where
  "rx_task fns junk args = \<lparr>task_in_use = junk, task_task = fn_hspi_rx_callback fns, task_args = args,
     task_cleanup = fn_hspi_cleanup fns\<rparr>"

lemma rx_task_fields [simp]:
  "task_in_use (rx_task fns junk a) = junk" "task_task (rx_task fns junk a) = fn_hspi_rx_callback fns"
  "task_args (rx_task fns junk a) = a" "task_cleanup (rx_task fns junk a) = fn_hspi_cleanup fns"
  by (simp_all add: rx_task_def)

text \<open>The world after a reception with a free argument struct, before the new buffer.\<close>

definition hspi_rx_written :: "hspi_world \<Rightarrow> nat \<Rightarrow> u32 \<Rightarrow> u32 \<Rightarrow> hspi_world" where
  "hspi_rx_written w k buf udf = w\<lparr>hspi_arg_pool := args_taken w k,
     memory := set_args_custom_register (args_addr w k) (hspi_scheduled_header_custom udf)
       (set_args_size (args_addr w k) (hspi_scheduled_header_size udf)
         (set_args_buffer (args_addr w k) buf (memory w)))\<rparr>"

lemma hspi_rx_slot_queues:
  assumes "hspi_inv bd w" and "args_free w k" and "length (iq_tasks w) < iq_cap w" and "length junk = 4"
  shows "\<exists>q. hspi_rx_slot fns junk buf udf w = Some ((hspi_rx_written w k buf udf)\<lparr>task_queue := q\<rparr>) \<and>
    iq_inv ((hspi_rx_written w k buf udf)\<lparr>task_queue := q\<rparr>) \<and>
    iq_tasks ((hspi_rx_written w k buf udf)\<lparr>task_queue := q\<rparr>) = iq_tasks w @ [rx_task fns junk (args_addr w k)]"
proof -
  let ?w = "hspi_rx_written w k buf udf"
  have g: "hydra_pool_get (iq_crit w) (hspi_arg_pool w) = Some (args_addr w k, args_taken w k, iq_crit w)"
    using assms(2) by (simp add: args_free_def)
  have same: "w\<lparr>iq_crit := iq_crit w\<rparr> = w" by simp
  have slot: "hspi_rx_slot fns junk buf udf w =
      do { (queued, w5) \<leftarrow> hydra_interrupt_queue_set_next_task junk (fn_hspi_rx_callback fns) (args_addr w k)
             (fn_hspi_cleanup fns) ?w; Some w5 }"
    using args_addr_nonnull [OF assms(1,2)]
    by (simp add: hspi_rx_slot_def g Let_def hspi_rx_written_def same)
  have iq: "iq_inv ?w" "iq_tasks ?w = iq_tasks w" "iq_cap ?w = iq_cap w"
    using hspi_invD(1) [OF assms(1)] by (simp_all add: hspi_rx_written_def iq_inv_def iq_tasks_def iq_cap_def)
  then show ?thesis
    using set_next_task_room [of ?w junk "fn_hspi_rx_callback fns" "args_addr w k" "fn_hspi_cleanup fns"] assms(3,4)
    by (auto simp: slot rx_task_def)
qed

text \<open>The later branches of the interrupt handler change the interrupt flags only.\<close>

lemma irq_tail:
  "\<exists>fl. (let w2 = (if R8_HSPI_INT_FLAG w1 AND SRB_HSPI_IF_FIFO_OV b \<noteq> 0
               then clear_flag hw (SRB_HSPI_IF_FIFO_OV b) w1 else w1);
         w3 = (if R8_HSPI_INT_FLAG w2 AND SRB_HSPI_IF_B_DONE b \<noteq> 0
               then clear_flag hw (SRB_HSPI_IF_B_DONE b) w2 else w2) in w3) = w1\<lparr>R8_HSPI_INT_FLAG := fl\<rparr>"
  by (auto simp: clear_flag_def Let_def intro: exI [of _ "R8_HSPI_INT_FLAG w1"])

lemma irq_received:
  assumes "R8_HSPI_INT_FLAG w AND SRB_HSPI_IF_R_DONE b \<noteq> 0" and "hspi_irq_receive bd b hw fns junk w = Some w2"
  shows "\<exists>fl. HSPI_IRQHandler bd b hw fns junk w = Some (w2\<lparr>R8_HSPI_INT_FLAG := fl\<rparr>)"
  using assms irq_tail [of w2 b hw] by (auto simp: HSPI_IRQHandler_def Let_def)

lemma alloc_packet_ok:
  assumes "ramx_inv (POOL_BLOCK_NUM bd) (ramx_pool w)" and "crit_ok (iq_crit w)" and "POOL_BLOCK_SIZE bd \<noteq> 0"
  shows "\<exists>a rp. hspi_alloc_packet bd w = Some (a, w\<lparr>ramx_pool := rp\<rparr>) \<and>
    ramx_pool_alloc_bytes (POOL_BLOCK_NUM bd) (POOL_BLOCK_SIZE bd) (iq_crit w) (ramx_pool w)
      (ucast (hspi_packet_size w)) = Some (a, rp, iq_crit w) \<and> ramx_inv (POOL_BLOCK_NUM bd) rp \<and>
    (\<forall>x. 0 < ramx_owners (ramx_pool w) x \<longrightarrow> ramx_owners rp x = ramx_owners (ramx_pool w) x) \<and>
    (if a = 0 then rp = ramx_pool w
     else ramx_owners (ramx_pool w) a = 0 \<and> ramx_owners rp = (ramx_owners (ramx_pool w))(a := 1))"
proof -
  have same: "w\<lparr>iq_crit := iq_crit w\<rparr> = w" by simp
  from ramx_alloc_bytes_ok [OF assms, of "ucast (hspi_packet_size w)"] show ?thesis
    by (fastforce simp: hspi_alloc_packet_def same)
qed

text \<open>
  C13. A received packet is neither lost nor changed on its way to the user: the interrupt handler
  queues exactly one \<open>_hspi_rx_callback\<close> with the filled buffer, size and custom value of the
  sender's header, behind the tasks already there, and puts into the driver's variable and the DMA
  register of the same slot what a RAMX allocation of a packet returns: a buffer nobody owned, so
  never the filled one or another owned buffer, with the driver as its one owner, or null when RAMX is
  exhausted. The other slot is untouched and the filled buffer keeps its owners.
\<close>

theorem hspi_irq_queues_packet:
  assumes "hspi_inv bd w" and "args_free w k" and "length (iq_tasks w) < iq_cap w" and "length junk = 4"
    and "R8_HSPI_INT_FLAG w AND SRB_HSPI_IF_R_DONE b \<noteq> 0"
    and "R8_HSPI_RTX_STATUS w AND (SRB_HSPI_CRC_ERR b OR SRB_HSPI_NUM_MIS b) = 0"
    and "POOL_BLOCK_SIZE bd \<noteq> 0" and "unat sz < 2 ^ 13" and "unat cr < 2 ^ 13"
    and "(if R8_HSPI_RX_SC w AND SRB_HSPI_RX_TOG b \<noteq> 0 then R32_HSPI_UDF0 w else R32_HSPI_UDF1 w) = hspi_header sz cr"
    and "buf = (if R8_HSPI_RX_SC w AND SRB_HSPI_RX_TOG b \<noteq> 0 then hspi_rx_buffer_0 w else hspi_rx_buffer_1 w)"
  shows "\<exists>w' a. HSPI_IRQHandler bd b hw fns junk w = Some w' \<and> hspi_inv bd w' \<and>
    iq_tasks w' = iq_tasks w @ [rx_task fns junk (args_addr w k)] \<and>
    args_buffer (memory w') (args_addr w k) = buf \<and> args_size (memory w') (args_addr w k) = sz \<and>
    args_custom_register (memory w') (args_addr w k) = cr \<and>
    (0 < ramx_owners (ramx_pool w) buf \<longrightarrow> ramx_owners (ramx_pool w') buf = ramx_owners (ramx_pool w) buf) \<and>
    ramx_pool_alloc_bytes (POOL_BLOCK_NUM bd) (POOL_BLOCK_SIZE bd) (iq_crit w) (ramx_pool w)
      (ucast (hspi_packet_size w)) = Some (a, ramx_pool w', iq_crit w') \<and>
    (if a = 0 then ramx_pool w' = ramx_pool w
     else ramx_owners (ramx_pool w) a = 0 \<and> ramx_owners (ramx_pool w') = (ramx_owners (ramx_pool w))(a := 1)) \<and>
    (if R8_HSPI_RX_SC w AND SRB_HSPI_RX_TOG b \<noteq> 0
     then hspi_rx_buffer_0 w' = a \<and> R32_HSPI_RX_ADDR0 w' = a \<and>
       hspi_rx_buffer_1 w' = hspi_rx_buffer_1 w \<and> R32_HSPI_RX_ADDR1 w' = R32_HSPI_RX_ADDR1 w
     else hspi_rx_buffer_1 w' = a \<and> R32_HSPI_RX_ADDR1 w' = a \<and>
       hspi_rx_buffer_0 w' = hspi_rx_buffer_0 w \<and> R32_HSPI_RX_ADDR0 w' = R32_HSPI_RX_ADDR0 w)"
proof -
  note d = hspi_invD [OF assms(1)]
  define w0 where "w0 = clear_flag hw (SRB_HSPI_IF_R_DONE b) w"
  have w0: "hspi_inv bd w0" "args_free w0 k" "length (iq_tasks w0) < iq_cap w0" "iq_tasks w0 = iq_tasks w"
    using assms(1-3) by (simp_all add: w0_def clear_flag_def hspi_inv_def iq_inv_def args_free_def iq_tasks_def iq_cap_def)
  have addr: "args_addr w0 k = args_addr w k" by (simp add: w0_def clear_flag_def)
  define udf where "udf = hspi_header sz cr"
  let ?w1 = "hspi_rx_written w0 k buf udf"
  obtain q where q: "hspi_rx_slot fns junk buf udf w0 = Some (?w1\<lparr>task_queue := q\<rparr>)"
    "iq_inv (?w1\<lparr>task_queue := q\<rparr>)"
    "iq_tasks (?w1\<lparr>task_queue := q\<rparr>) = iq_tasks w @ [rx_task fns junk (args_addr w k)]"
    using hspi_rx_slot_queues [OF w0(1-3) assms(4), of fns buf udf] w0(4) addr by auto
  have r1: "ramx_pool (?w1\<lparr>task_queue := q\<rparr>) = ramx_pool w" "iq_crit (?w1\<lparr>task_queue := q\<rparr>) = iq_crit w"
    "hspi_packet_size (?w1\<lparr>task_queue := q\<rparr>) = hspi_packet_size w"
    by (simp_all add: hspi_rx_written_def w0_def clear_flag_def)
  obtain a rp where al: "hspi_alloc_packet bd (?w1\<lparr>task_queue := q\<rparr>) = Some (a, ?w1\<lparr>task_queue := q, ramx_pool := rp\<rparr>)"
    "ramx_pool_alloc_bytes (POOL_BLOCK_NUM bd) (POOL_BLOCK_SIZE bd) (iq_crit w) (ramx_pool w)
      (ucast (hspi_packet_size w)) = Some (a, rp, iq_crit w)"
    "ramx_inv (POOL_BLOCK_NUM bd) rp" "\<forall>x. 0 < ramx_owners (ramx_pool w) x \<longrightarrow> ramx_owners rp x = ramx_owners (ramx_pool w) x"
    "if a = 0 then rp = ramx_pool w
     else ramx_owners (ramx_pool w) a = 0 \<and> ramx_owners rp = (ramx_owners (ramx_pool w))(a := 1)"
    using alloc_packet_ok [of bd "?w1\<lparr>task_queue := q\<rparr>"] d(3,4) assms(7) unfolding r1 by auto
  define w2 where "w2 = (if R8_HSPI_RX_SC w AND SRB_HSPI_RX_TOG b \<noteq> 0
      then ?w1\<lparr>task_queue := q, ramx_pool := rp, hspi_rx_buffer_0 := a, R32_HSPI_RX_ADDR0 := a\<rparr>
      else ?w1\<lparr>task_queue := q, ramx_pool := rp, hspi_rx_buffer_1 := a, R32_HSPI_RX_ADDR1 := a\<rparr>)"
  have w0f: "R8_HSPI_RX_SC w0 = R8_HSPI_RX_SC w" "R8_HSPI_RTX_STATUS w0 = R8_HSPI_RTX_STATUS w"
    "R32_HSPI_UDF0 w0 = R32_HSPI_UDF0 w" "R32_HSPI_UDF1 w0 = R32_HSPI_UDF1 w"
    "hspi_rx_buffer_0 w0 = hspi_rx_buffer_0 w" "hspi_rx_buffer_1 w0 = hspi_rx_buffer_1 w"
    "R32_HSPI_RX_ADDR0 w0 = R32_HSPI_RX_ADDR0 w" "R32_HSPI_RX_ADDR1 w0 = R32_HSPI_RX_ADDR1 w"
    by (simp_all add: w0_def clear_flag_def)
  have rcv: "hspi_irq_receive bd b hw fns junk w = Some w2"
    using assms(6,10,11) q(1) al(1)
    by (auto simp: hspi_irq_receive_def w0_def [symmetric] w0f Let_def w2_def udf_def split: if_splits)
  obtain fl where irq: "HSPI_IRQHandler bd b hw fns junk w = Some (w2\<lparr>R8_HSPI_INT_FLAG := fl\<rparr>)"
    using irq_received [OF assms(5) rcv] by blast
  let ?w3 = "w2\<lparr>R8_HSPI_INT_FLAG := fl\<rparr>"
  have iq3: "task_queue ?w3 = q" "iq_crit ?w3 = iq_crit w" "ramx_pool ?w3 = rp"
    "hspi_arg_pool ?w3 = args_taken w k" "memory ?w3 = memory ?w1"
    by (auto simp: w2_def hspi_rx_written_def w0_def clear_flag_def)
  have "iq_inv ?w3" "iq_tasks ?w3 = iq_tasks w @ [rx_task fns junk (args_addr w k)]"
    using q(2,3) iq3(1,2) r1(2) by (simp_all add: iq_inv_def iq_tasks_def)
  moreover have "hspi_inv bd ?w3"
    using calculation(1) al(3) args_taken_inv [OF assms(1)] by (simp add: hspi_inv_def iq3 del: hspi_world.simps)
  moreover have "memory ?w1 = set_args_custom_register (args_addr w k) (hspi_scheduled_header_custom udf)
      (set_args_size (args_addr w k) (hspi_scheduled_header_size udf) (set_args_buffer (args_addr w k) buf (memory w)))"
    by (simp add: hspi_rx_written_def w0_def clear_flag_def)
  note args_written [OF this]
  moreover have "hspi_scheduled_header_size udf = sz" "hspi_scheduled_header_custom udf = cr"
    using assms(8,9) by (simp_all add: udf_def header_scheduled take_bit_u16_eq)
  moreover have "if R8_HSPI_RX_SC w AND SRB_HSPI_RX_TOG b \<noteq> 0
     then hspi_rx_buffer_0 ?w3 = a \<and> R32_HSPI_RX_ADDR0 ?w3 = a \<and>
       hspi_rx_buffer_1 ?w3 = hspi_rx_buffer_1 w \<and> R32_HSPI_RX_ADDR1 ?w3 = R32_HSPI_RX_ADDR1 w
     else hspi_rx_buffer_1 ?w3 = a \<and> R32_HSPI_RX_ADDR1 ?w3 = a \<and>
       hspi_rx_buffer_0 ?w3 = hspi_rx_buffer_0 w \<and> R32_HSPI_RX_ADDR0 ?w3 = R32_HSPI_RX_ADDR0 w"
    by (simp add: w2_def hspi_rx_written_def w0f)
  ultimately show ?thesis using irq al(2,4,5) iq3 by (intro exI [of _ ?w3] exI [of _ a]) simp
qed

text \<open>
  A packet that arrives while all argument structs are taken is dropped with its buffer: no task is
  queued, the slot gets a fresh buffer, and the old one stays allocated although nothing refers to it
  any more.
\<close>

theorem hspi_irq_drop_leaks_buffer:
  assumes "hspi_inv bd w" and "hydra_pool_get (iq_crit w) (hspi_arg_pool w) = Some (0, hspi_arg_pool w, iq_crit w)"
    and "R8_HSPI_INT_FLAG w AND SRB_HSPI_IF_R_DONE b \<noteq> 0"
    and "R8_HSPI_RTX_STATUS w AND (SRB_HSPI_CRC_ERR b OR SRB_HSPI_NUM_MIS b) = 0"
    and "R8_HSPI_RX_SC w AND SRB_HSPI_RX_TOG b \<noteq> 0"
    and "POOL_BLOCK_SIZE bd \<noteq> 0" and "0 < ramx_owners (ramx_pool w) (hspi_rx_buffer_0 w)"
  shows "\<exists>w' a rp. HSPI_IRQHandler bd b hw fns junk w = Some w' \<and> iq_tasks w' = iq_tasks w \<and>
    ramx_pool_alloc_bytes (POOL_BLOCK_NUM bd) (POOL_BLOCK_SIZE bd) (iq_crit w) (ramx_pool w)
      (ucast (hspi_packet_size w)) = Some (a, rp, iq_crit w) \<and> hspi_rx_buffer_0 w' = a \<and> ramx_pool w' = rp \<and>
    ramx_owners (ramx_pool w') (hspi_rx_buffer_0 w) = ramx_owners (ramx_pool w) (hspi_rx_buffer_0 w)"
proof -
  note d = hspi_invD [OF assms(1)]
  define w0 where "w0 = clear_flag hw (SRB_HSPI_IF_R_DONE b) w"
  have w0: "R8_HSPI_RX_SC w0 = R8_HSPI_RX_SC w" "R8_HSPI_RTX_STATUS w0 = R8_HSPI_RTX_STATUS w"
    "hspi_arg_pool w0 = hspi_arg_pool w" "ramx_pool w0 = ramx_pool w" "iq_crit w0 = iq_crit w"
    "task_queue w0 = task_queue w" "hspi_packet_size w0 = hspi_packet_size w" "hspi_rx_buffer_0 w0 = hspi_rx_buffer_0 w"
    by (simp_all add: w0_def clear_flag_def)
  have same: "w0\<lparr>iq_crit := iq_crit w0, hspi_arg_pool := hspi_arg_pool w0\<rparr> = w0" by simp
  have slot: "hspi_rx_slot fns junk (hspi_rx_buffer_0 w0) (R32_HSPI_UDF0 w0) w0 = Some w0"
    using assms(2) same by (simp add: hspi_rx_slot_def w0 [symmetric] Let_def)
  obtain a rp where al: "ramx_pool_alloc_bytes (POOL_BLOCK_NUM bd) (POOL_BLOCK_SIZE bd) (iq_crit w) (ramx_pool w)
      (ucast (hspi_packet_size w)) = Some (a, rp, iq_crit w)"
    "\<forall>x. 0 < ramx_owners (ramx_pool w) x \<longrightarrow> ramx_owners rp x = ramx_owners (ramx_pool w) x"
    using ramx_alloc_bytes_ok [OF d(3,4) assms(6)] by blast
  let ?w2 = "w0\<lparr>iq_crit := iq_crit w0, ramx_pool := rp, hspi_rx_buffer_0 := a, R32_HSPI_RX_ADDR0 := a\<rparr>"
  have rcv: "hspi_irq_receive bd b hw fns junk w = Some ?w2"
    using assms(4,5) slot al(1)
    by (simp add: hspi_irq_receive_def w0_def [symmetric] Let_def hspi_alloc_packet_def w0)
  obtain fl where irq: "HSPI_IRQHandler bd b hw fns junk w = Some (?w2\<lparr>R8_HSPI_INT_FLAG := fl\<rparr>)"
    using irq_received [OF assms(3) rcv] by blast
  have "iq_tasks (?w2\<lparr>R8_HSPI_INT_FLAG := fl\<rparr>) = iq_tasks w" by (simp add: iq_tasks_def w0)
  then show ?thesis using irq al assms(7)
    by (intro exI [of _ "?w2\<lparr>R8_HSPI_INT_FLAG := fl\<rparr>"] exI [of _ a] exI [of _ rp]) simp
qed


text \<open>The queued reception runs the user's handler on exactly what was recorded, then releases.\<close>

lemma hspi_rx_executed:
  assumes "hspi_inv bd w" and "iq_tasks w = rx_task fns junk a # ts" and "a \<noteq> 0" and "fns_ok fns" and "length var = 16"
  shows "\<exists>q. hydra_interrupt_queue_run (hspi_call b hw fns var env) var w = do {
      w2 \<leftarrow> user_rx_callback hw (args_buffer (memory w) a) (args_size (memory w) a)
        (args_custom_register (memory w) a) (w\<lparr>task_queue := q\<rparr>);
      hspi_cleanup a w2 } \<and> iq_tasks (w\<lparr>task_queue := q\<rparr>) = ts"
proof -
  let ?c = "hspi_call b hw fns var env"
  from run_first [OF hspi_invD(1) [OF assms(1)] assms(2,5), of ?c] obtain q where
    run: "hydra_interrupt_queue_run ?c var w = do {
      w2 \<leftarrow> ?c (fn_hspi_rx_callback fns) a (w\<lparr>task_queue := q\<rparr>);
      if fn_hspi_cleanup fns \<noteq> 0 then ?c (fn_hspi_cleanup fns) a w2 else Some w2 }"
    and q: "iq_tasks (w\<lparr>task_queue := q\<rparr>) = ts" unfolding rx_task_fields by blast
  have "hspi_rx_callback_task hw a (w\<lparr>task_queue := q\<rparr>) = map_option (Pair True)
      (user_rx_callback hw (args_buffer (memory w) a) (args_size (memory w) a)
        (args_custom_register (memory w) a) (w\<lparr>task_queue := q\<rparr>))"
    using assms(3) by (simp add: hspi_rx_callback_task_def map_conv_bind_option comp_def)
  then show ?thesis
    using run q hspi_call_fns [OF assms(4)]
    by (auto simp: option.map_comp comp_def map_conv_bind_option)
qed

section \<open>Concrete instances\<close>

definition demo_build :: hspi_build where
  "demo_build = \<lparr>POOL_BLOCK_NUM = 5, POOL_BLOCK_SIZE = 512\<rparr>"

definition demo_fns :: hspi_fns where
  "demo_fns = \<lparr>fn_hspi_send = 0x100, fn_hspi_rx_callback = 0x200, fn_hspi_cleanup = 0x300\<rparr>"

definition demo_sbits :: hspi_sbits where
  "demo_sbits = \<lparr>SRB_HSPI_MODE = 1, SRB_HSPI_MSK_SIZE = 6, SRB_HSPI_DAT8_MOD = 0, SRB_HSPI_DAT16_MOD = 2,
     SRB_HSPI_DAT32_MOD = 4, SRB_HSPI_HW_ACK = 8, SRB_HSPI_TX_TOG_EN = 16, SRB_HSPI_RX_TOG_EN = 32,
     SRB_HSPI_DUALDMA = 64, SRB_HSPI_REQ_FT = 1, SRB_HSPI_TCK_MOD = 2, SRB_HSPI_ACK_TX_MOD = 4,
     SRB_HSPI_ACK_CNT_SEL = 8, SRB_HSPI_ALL_CLR = 1, SRB_HSPI_TRX_RST = 2, SRB_HSPI_IE_FIFO_OV = 1,
     SRB_HSPI_IE_R_DONE = 2, SRB_HSPI_RX_TOG = 16, SRB_HSPI_TX_TOG = 16, SRB_HSPI_ENABLE = 4,
     SRB_HSPI_DMA_EN = 8, SRB_HSPI_IF_T_DONE = 1, SRB_HSPI_IF_R_DONE = 2, SRB_HSPI_IF_FIFO_OV = 4,
     SRB_HSPI_IF_B_DONE = 8, SRB_HSPI_CRC_ERR = 1, SRB_HSPI_NUM_MIS = 2\<rparr>"

definition demo_hw :: hspi_hw where
  "demo_hw = \<lparr>HSPI_DMA_Tx = (\<lambda>w. w\<lparr>R8_HSPI_INT_FLAG := 1\<rparr>), hw_step = id, bsp_wait_us_delay = (\<lambda>_ w. w),
     PFIC_EnableIRQ_hspi = id, int_flag_write = (\<lambda>old v. old AND NOT v),
     user_rx_callback = (\<lambda>_ _ _ w. Some w), user_err_callback = Some\<rparr>"

definition demo_hspi_world :: hspi_world where
  "demo_hspi_world = \<lparr>iq_crit = crit_init, task_queue = hydra_fifo_def 16 2,
     hspi_arg_pool = hydra_pool_def 0x20030000 9 2, ramx_pool = demo_ramx, memory = (\<lambda>_. 0),
     hspi_rx_buffer_0 = 0x20020600, hspi_rx_buffer_1 = 0x20020000, hspi_tx_buffer_0 = 0, hspi_tx_buffer_1 = 0,
     hspi_packet_size = 512, hspi_transmission_finished = True, R32_PA_DIR = 0, R32_PA_DRV = 0,
     R8_HSPI_CFG = 0, R8_HSPI_AUX = 0, R8_HSPI_CTRL = 0, R8_HSPI_INT_EN = 0, R8_HSPI_INT_FLAG = 2,
     R8_HSPI_RTX_STATUS = 0, R8_HSPI_RX_SC = 16, R8_HSPI_TX_SC = 0,
     R32_HSPI_UDF0 = hspi_header 100 77, R32_HSPI_UDF1 = 0, R32_HSPI_TX_ADDR0 = 0, R32_HSPI_TX_ADDR1 = 0,
     R32_HSPI_RX_ADDR0 = 0, R32_HSPI_RX_ADDR1 = 0, R16_HSPI_DMA_LEN0 = 0, R16_HSPI_DMA_LEN1 = 0,
     R16_HSPI_RX_LEN0 = 0, R16_HSPI_RX_LEN1 = 0, R16_HSPI_BURST_CFG = 0\<rparr>"

lemma demo_world_pools:
  "iq_crit demo_hspi_world = crit_init" "task_queue demo_hspi_world = hydra_fifo_def 16 2"
  "hspi_arg_pool demo_hspi_world = hydra_pool_def 0x20030000 9 2" "ramx_pool demo_hspi_world = demo_ramx"
  by (simp_all add: demo_hspi_world_def)

lemma demo_world_inv: "hspi_inv demo_build demo_hspi_world"
  using fifo_def_empty [of 2 16] demo_ramx_inv
  by (simp add: hspi_inv_def iq_inv_def demo_world_pools demo_build_def)
    (simp add: hydra_fifo_def_def hydra_pool_def_def pool_inv_def array_fits_def)

lemma demo_world_iq: "iq_tasks demo_hspi_world = []" "iq_cap demo_hspi_world = 2"
  using fifo_def_empty [of 2 16]
  by (simp_all add: iq_tasks_def iq_cap_def demo_world_pools) (simp add: hydra_fifo_def_def)

lemma demo_args_free: "args_free demo_hspi_world 0"
proof -
  have "hydra_pool_get crit_init (hydra_pool_def 0x20030000 9 2) =
      Some (0x20030000, (hydra_pool_def 0x20030000 9 2)\<lparr>pool_manager := [True, False]\<rparr>, crit_init)" by code_simp
  moreover have "(pool_manager (hydra_pool_def 0x20030000 9 2))[0 := True] = [True, False]"
    by (simp add: hydra_pool_def_def numeral_2_eq_2)
  moreover have "unat (pool_size (hydra_pool_def 0x20030000 9 2)) = 2" "\<not> pool_manager (hydra_pool_def 0x20030000 9 2) ! 0"
    "member_addr (hydra_pool_def 0x20030000 9 2) 0 = 0x20030000"
    by (simp_all add: hydra_pool_def_def array_addr_def)
  ultimately show ?thesis by (simp add: args_free_def demo_world_pools)
qed

lemma demo_run3: "3 \<in> run_starts 0 (xp_blocks demo_ramx)" "xp_refs demo_ramx ! 3 = 1"
  "ramx_address_in_pool demo_ramx (xblock_addr demo_ramx 3)"
proof -
  have "run_starts 0 [2, 2, 0, 1, 0] = {0, 3}" by code_simp
  then show "3 \<in> run_starts 0 (xp_blocks demo_ramx)" by (simp add: demo_ramx_def)
qed (simp_all add: demo_ramx_def ramx_address_in_pool_def array_addr_def)

lemma demo_run3_addr: "xblock_addr demo_ramx 3 = 0x20020600"
  by (simp add: demo_ramx_def array_addr_def)

theorem hspi_send_zero_copy_witness:
  "\<exists>w'. hspi_send demo_build demo_fns [0, 0, 0, 0] 0x20020600 100 77 demo_hspi_world = Some (True, w') \<and>
    iq_tasks w' = [send_task demo_fns [0, 0, 0, 0] 0x20030000] \<and>
    args_buffer (memory w') 0x20030000 = 0x20020600 \<and> args_size (memory w') 0x20030000 = 100"
proof -
  have a: "args_addr demo_hspi_world 0 = 0x20030000"
    by (simp add: demo_world_pools hydra_pool_def_def array_addr_def)
  show ?thesis
    using hspi_send_zero_copy [OF demo_world_inv demo_args_free, of 3 "[0, 0, 0, 0]" demo_fns 100 77]
      demo_run3 demo_run3_addr
    by (auto simp: demo_world_pools(4) demo_world_iq a)
qed

theorem hspi_send_full_queue_leaks_witness:
  "\<exists>w'. hspi_send demo_build demo_fns [0, 0, 0, 0] 0x20020600 100 77
      (demo_hspi_world\<lparr>task_queue := hydra_fifo_def 16 0\<rparr>) = Some (True, w') \<and>
    iq_tasks w' = [] \<and> pool_manager (hspi_arg_pool w') ! 0 \<and> xp_refs (ramx_pool w') ! 3 = 2"
proof -
  let ?w = "demo_hspi_world\<lparr>task_queue := hydra_fifo_def 16 0\<rparr>"
  have f: "fifo_inv (hydra_fifo_def 16 0)" "fifo_elems (hydra_fifo_def 16 0) = []"
    using fifo_def_empty [of 0 16] by simp_all
  then have iq: "iq_tasks ?w = []" "iq_cap ?w = 0" by (simp_all add: iq_tasks_def iq_cap_def) (simp add: hydra_fifo_def_def)
  have "hspi_inv demo_build ?w"
    using demo_world_inv f by (simp add: hspi_inv_def iq_inv_def) (simp add: hydra_fifo_def_def)
  moreover have "args_free ?w 0" using demo_args_free by (simp add: args_free_def)
  moreover have pools: "ramx_pool ?w = demo_ramx" by (simp add: demo_world_pools)
  ultimately show ?thesis
    using hspi_send_full_queue_leaks [of demo_build ?w 0 3 demo_fns "[0, 0, 0, 0]" 100 77]
      demo_run3 demo_run3_addr iq unfolding pools by auto
qed

theorem hspi_send_no_ramx_leaks_args_witness:
  "\<exists>w'. hspi_send demo_build demo_fns [0, 0, 0, 0] 0x1000 100 77 (demo_hspi_world\<lparr>hspi_packet_size := 1024\<rparr>) =
      Some (False, w') \<and> iq_tasks w' = [] \<and> pool_manager (hspi_arg_pool w') = [True, False]"
proof -
  let ?w = "demo_hspi_world\<lparr>hspi_packet_size := 1024\<rparr>"
  have inv: "hspi_inv demo_build ?w" using demo_world_inv by (simp add: hspi_inv_def iq_inv_def)
  have free: "args_free ?w 0" using demo_args_free by (simp add: args_free_def)
  have out: "\<not> ramx_address_in_pool (ramx_pool ?w) 0x1000"
    by (simp add: demo_world_pools demo_ramx_def ramx_address_in_pool_def)
  have "ramx_pool_alloc_bytes 5 512 crit_init demo_ramx 1024 = Some (0, demo_ramx, crit_init)" by code_simp
  then have "ramx_pool_alloc_bytes (POOL_BLOCK_NUM demo_build) (POOL_BLOCK_SIZE demo_build) (iq_crit ?w)
      (ramx_pool ?w) (ucast (hspi_packet_size ?w)) = Some (0, ramx_pool ?w, iq_crit ?w)"
    by (simp add: demo_world_pools demo_build_def)
  from hspi_send_no_ramx_leaks_args [OF inv free out this, of demo_fns "[0, 0, 0, 0]" 100 77] show ?thesis
    using demo_world_iq by (auto simp: iq_tasks_def demo_world_pools) (simp add: hydra_pool_def_def numeral_2_eq_2)
qed


text \<open>A world in which a transmission waits in the queue.\<close>

lemma demo_pending:
  obtains w where "hspi_inv demo_build w" "iq_tasks w = [send_task demo_fns [0, 0, 0, 0] (args_addr w 0)]"
    "pool_manager (hspi_arg_pool w) = [True, False]" "pool_size (hspi_arg_pool w) = 2" "ramx_pool w = demo_ramx"
    "args_buffer (memory w) (args_addr w 0) = 0x20020600" "args_size (memory w) (args_addr w 0) = 100"
    "args_custom_register (memory w) (args_addr w 0) = 77" "R8_HSPI_TX_SC w = 0" "args_addr w 0 = 0x20030000"
proof -
  define m where "m = set_args_custom_register 0x20030000 77 (set_args_size 0x20030000 100
    (set_args_buffer 0x20030000 0x20020600 (\<lambda>_. 0)))"
  define w where "w = demo_hspi_world\<lparr>hspi_arg_pool := args_taken demo_hspi_world 0, memory := m\<rparr>"
  have addr: "args_addr w 0 = 0x20030000"
    by (simp add: w_def demo_world_pools hydra_pool_def_def array_addr_def)
  have inv: "hspi_inv demo_build w"
    using demo_world_inv args_taken_inv [OF demo_world_inv, of 0] by (simp add: w_def hspi_inv_def iq_inv_def)
  have iq: "iq_inv w" "iq_tasks w = []" "iq_cap w = 2"
    using hspi_invD(1) [OF inv] demo_world_iq by (simp_all add: w_def iq_tasks_def iq_cap_def)
  obtain q where q: "iq_inv (w\<lparr>task_queue := q\<rparr>)"
    "iq_tasks (w\<lparr>task_queue := q\<rparr>) = [send_task demo_fns [0, 0, 0, 0] 0x20030000]"
    using set_next_task_room [OF iq(1), where in_use = "[0, 0, 0, 0]" and func = "fn_hspi_send demo_fns"
        and args = "0x20030000" and cleanup = "fn_hspi_cleanup demo_fns"]
      iq(2,3) by (auto simp: send_task_def)
  note m = args_written [OF m_def]
  have pm: "pool_manager (hspi_arg_pool w) = [True, False]" "pool_size (hspi_arg_pool w) = 2"
    by (simp_all add: w_def demo_world_pools hydra_pool_def_def) (simp add: numeral_2_eq_2)
  show ?thesis
    by (rule that [of "w\<lparr>task_queue := q\<rparr>"])
      (use inv q m addr pm in \<open>simp_all add: hspi_inv_def\<close>, simp_all add: w_def demo_world_pools,
        simp_all add: demo_hspi_world_def)
qed

lemma demo_hw_frame: "hw_frame demo_hw"
  unfolding hw_frame_def demo_hw_def using hw_only_flag hw_only_refl by simp

lemma demo_tx_ends: "tx_ends demo_sbits demo_hw"
  unfolding tx_ends_def by (intro allI exI [of _ 0]) (simp add: demo_hw_def demo_sbits_def)

theorem hspi_send_executed_witness:
  "\<exists>w w'. iq_tasks w = [send_task demo_fns [0, 0, 0, 0] 0x20030000] \<and>
    hydra_interrupt_queue_run (hspi_call demo_sbits demo_hw demo_fns (replicate 16 0) (\<lambda>_ _ _. None))
      (replicate 16 0) w = Some w' \<and> iq_tasks w' = [] \<and>
    R32_HSPI_TX_ADDR0 w' = 0x20020600 \<and> R32_HSPI_UDF0 w' = hspi_header 100 77"
proof -
  obtain w where w: "hspi_inv demo_build w" "iq_tasks w = [send_task demo_fns [0, 0, 0, 0] (args_addr w 0)]"
    "pool_manager (hspi_arg_pool w) = [True, False]" "pool_size (hspi_arg_pool w) = 2" "ramx_pool w = demo_ramx"
    "args_buffer (memory w) (args_addr w 0) = 0x20020600" "args_size (memory w) (args_addr w 0) = 100"
    "args_custom_register (memory w) (args_addr w 0) = 77" "R8_HSPI_TX_SC w = 0" "args_addr w 0 = 0x20030000" by (rule demo_pending)
  have eqs: "xblock_addr (ramx_pool w) 3 = 0x20020600" using w(5) demo_run3_addr by simp
  have pre: "0 < unat (pool_size (hspi_arg_pool w))" "pool_manager (hspi_arg_pool w) ! 0"
    "3 \<in> run_starts 0 (xp_blocks (ramx_pool w))"
    "args_buffer (memory w) (args_addr w 0) = xblock_addr (ramx_pool w) 3" "fns_ok demo_fns"
    using w demo_run3 eqs by (simp_all add: fns_ok_def demo_fns_def)
  from hspi_send_executed [OF w(1,2) pre(1-4) w(7,8) demo_hw_frame demo_tx_ends pre(5),
      of "replicate 16 0" "\<lambda>_ _ _. None"]
  obtain w' where w': "hydra_interrupt_queue_run (hspi_call demo_sbits demo_hw demo_fns (replicate 16 0) (\<lambda>_ _ _. None))
      (replicate 16 0) w = Some w'" "iq_tasks w' = []"
    "R32_HSPI_TX_ADDR0 w' = xblock_addr (ramx_pool w) 3" "R32_HSPI_UDF0 w' = hspi_header 100 77"
    using w(9) by (auto simp del: hspi_world.simps)
  show ?thesis
    by (intro exI [of _ w] exI [of _ w'] conjI) (use w w' demo_run3_addr in simp_all)
qed

theorem hspi_irq_queues_packet_witness:
  "\<exists>w'. HSPI_IRQHandler demo_build demo_sbits demo_hw demo_fns [0, 0, 0, 0] demo_hspi_world = Some w' \<and>
    iq_tasks w' = [rx_task demo_fns [0, 0, 0, 0] 0x20030000] \<and>
    args_buffer (memory w') 0x20030000 = 0x20020600 \<and> args_size (memory w') 0x20030000 = 100 \<and>
    args_custom_register (memory w') 0x20030000 = 77"
proof -
  have a: "args_addr demo_hspi_world 0 = 0x20030000"
    by (simp add: demo_world_pools hydra_pool_def_def array_addr_def)
  have w: "R8_HSPI_INT_FLAG demo_hspi_world = 2" "R8_HSPI_RTX_STATUS demo_hspi_world = 0"
    "R8_HSPI_RX_SC demo_hspi_world = 16" "R32_HSPI_UDF0 demo_hspi_world = hspi_header 100 77"
    "hspi_rx_buffer_0 demo_hspi_world = 0x20020600" by (simp_all add: demo_hspi_world_def)
  have b: "SRB_HSPI_IF_R_DONE demo_sbits = 2" "SRB_HSPI_RX_TOG demo_sbits = 16" by (simp_all add: demo_sbits_def)
  show ?thesis
    using hspi_irq_queues_packet [OF demo_world_inv demo_args_free, where junk = "[0, 0, 0, 0]" and b = demo_sbits
        and sz = 100 and cr = 77 and buf = "0x20020600" and hw = demo_hw and fns = demo_fns]
    by (auto simp: demo_world_iq w b a demo_build_def)
qed

theorem hspi_irq_drop_leaks_buffer_witness:
  "\<exists>w'. HSPI_IRQHandler demo_build demo_sbits demo_hw demo_fns [0, 0, 0, 0]
      (demo_hspi_world\<lparr>hspi_arg_pool := (hydra_pool_def 0x20030000 9 2)\<lparr>pool_manager := [True, True]\<rparr>\<rparr>) = Some w' \<and>
    iq_tasks w' = [] \<and> hspi_rx_buffer_0 w' = 0x20020400 \<and> ramx_owners (ramx_pool w') 0x20020600 = 1"
proof -
  let ?p = "(hydra_pool_def 0x20030000 9 2)\<lparr>pool_manager := [True, True]\<rparr>"
  let ?w = "demo_hspi_world\<lparr>hspi_arg_pool := ?p\<rparr>"
  have inv: "hspi_inv demo_build ?w"
    using demo_world_inv by (simp add: hspi_inv_def iq_inv_def)
      (simp add: hydra_pool_def_def pool_inv_def array_fits_def)
  have full: "hydra_pool_get (iq_crit ?w) (hspi_arg_pool ?w) = Some (0, hspi_arg_pool ?w, iq_crit ?w)"
    by (simp add: demo_world_pools) code_simp
  have w: "R8_HSPI_INT_FLAG ?w = 2" "R8_HSPI_RTX_STATUS ?w = 0" "R8_HSPI_RX_SC ?w = 16"
    "hspi_rx_buffer_0 ?w = 0x20020600" "ramx_pool ?w = demo_ramx" "iq_tasks ?w = []" "hspi_packet_size ?w = 512"
    "iq_crit ?w = crit_init"
    using demo_world_iq by (simp_all add: iq_tasks_def) (simp_all add: demo_hspi_world_def)
  have own: "ramx_owners demo_ramx 0x20020600 = 1"
    using ramx_owners_run [OF demo_ramx_inv demo_run3(1)] demo_run3 demo_run3_addr by simp
  have al: "ramx_pool_alloc_bytes 5 512 crit_init demo_ramx 512 = Some (0x20020400,
      demo_ramx\<lparr>xp_blocks := [2, 2, 1, 1, 0], xp_refs := [255, 255, 1, 1, 0], xp_blocks_used := 4\<rparr>, crit_init)"
    by code_simp
  show ?thesis
    using hspi_irq_drop_leaks_buffer [OF inv full, of demo_sbits demo_hw demo_fns "[0, 0, 0, 0]"] al own
    by (auto simp: w demo_build_def) (auto simp: demo_sbits_def)
qed

end
