(* ===== verification/Hspi_Histories.thy ===== *)
theory Hspi_Histories
  imports Hspi_Scheduled "HOL-Library.Multiset"
begin

text \<open>
  The scheduled HSPI driver over whole histories. \<open>hspi_step\<close> is one step of the system: an operation of the
  application, the interrupt, a run of the task queue, or what DMA and the application write to memory.
  The invariant accounts for every reference to a RAMX buffer: those of the DMA slots, those the application
  holds, and those in the argument structs of queued tasks. Its lemmas show that each step is
  carried out and keeps the account, so that no buffer is released or reused while something refers to it.
\<close>

section \<open>References to buffers\<close>

text \<open>\<open>D\<close>: the buffers of the DMA slots; \<open>R\<close>: all other references. A DMA buffer has no other reference.\<close>

definition refs_ok :: "(u32 \<Rightarrow> nat) \<Rightarrow> u32 multiset \<Rightarrow> u32 multiset \<Rightarrow> bool" where
  "refs_ok ow D R \<longleftrightarrow> (\<forall>a. count D a \<le> 1) \<and> (\<forall>a. count D a = 0 \<or> count R a = 0) \<and> (\<forall>a. count D a + count R a \<le> ow a)"

lemma refs_okD:
  assumes "refs_ok ow D R"
  shows "count D a \<le> 1" "count D a = 0 \<or> count R a = 0" "count D a + count R a \<le> ow a"
  using assms by (auto simp: refs_ok_def)

lemma refs_okI:
  "(\<And>a. count D a \<le> 1 \<and> (count D a = 0 \<or> count R a = 0) \<and> count D a + count R a \<le> ow a) \<Longrightarrow> refs_ok ow D R"
  by (simp add: refs_ok_def)

lemma refs_weaken:
  assumes "refs_ok ow D R" and "R' \<subseteq># R"
  shows "refs_ok ow D R'"
proof (rule refs_okI)
  fix a
  have "count R' a \<le> count R a" using assms(2) by (rule mset_subset_eq_count)
  then show "count D a \<le> 1 \<and> (count D a = 0 \<or> count R' a = 0) \<and> count D a + count R' a \<le> ow a"
    using refs_okD [OF assms(1), of a] by auto
qed

lemma refs_new:
  assumes "refs_ok ow D R" and "ow b = 0"
  shows "refs_ok (ow(b := 1)) D (add_mset b R)" "refs_ok (ow(b := 1)) (add_mset b D) R"
proof -
  have z: "count D b = 0" "count R b = 0" using refs_okD(3) [OF assms(1), of b] assms(2) by simp_all
  show "refs_ok (ow(b := 1)) D (add_mset b R)"
  proof (rule refs_okI)
    fix a show "count D a \<le> 1 \<and> (count D a = 0 \<or> count (add_mset b R) a = 0) \<and>
        count D a + count (add_mset b R) a \<le> (ow(b := 1)) a"
      using refs_okD [OF assms(1), of a] z by (cases "a = b") auto
  qed
  show "refs_ok (ow(b := 1)) (add_mset b D) R"
  proof (rule refs_okI)
    fix a show "count (add_mset b D) a \<le> 1 \<and> (count (add_mset b D) a = 0 \<or> count R a = 0) \<and>
        count (add_mset b D) a + count R a \<le> (ow(b := 1)) a"
      using refs_okD [OF assms(1), of a] z by (cases "a = b") auto
  qed
qed

lemma refs_share:
  assumes "refs_ok ow D R" and "b \<in># R"
  shows "refs_ok (ow(b := ow b + 1)) D (add_mset b R)"
proof -
  obtain R' where R: "R = add_mset b R'" using assms(2) by (blast dest: multi_member_split)
  show ?thesis
  proof (rule refs_okI)
    fix a show "count D a \<le> 1 \<and> (count D a = 0 \<or> count (add_mset b R) a = 0) \<and>
        count D a + count (add_mset b R) a \<le> (ow(b := ow b + 1)) a"
      using refs_okD [OF assms(1), of a] by (cases "a = b") (auto simp: R)
  qed
qed



lemma refs_owned:
  assumes "refs_ok ow D R" and "b \<in># D + R"
  shows "0 < ow b"
proof -
  obtain X where "D + R = add_mset b X" using assms(2) by (blast dest: multi_member_split)
  then have "count D b + count R b = Suc (count X b)" by (metis count_add_mset plus_multiset.rep_eq)
  then show ?thesis using refs_okD(3) [OF assms(1), of b] by simp
qed

text \<open>The null pointer, which a slot holds when RAMX was exhausted, is not a reference.\<close>

definition add_buf :: "u32 \<Rightarrow> u32 multiset \<Rightarrow> u32 multiset" where
  "add_buf b M = (if b = 0 then M else add_mset b M)"

definition nonnull :: "u32 multiset \<Rightarrow> u32 multiset" where
  "nonnull M = filter_mset (\<lambda>b. b \<noteq> 0) M"

lemma nonnull_simps [simp]:
  "nonnull {#} = {#}" "nonnull (add_mset b M) = add_buf b (nonnull M)"
  "nonnull (M + N) = nonnull M + nonnull N" "a \<in># nonnull M \<longleftrightarrow> a \<in># M \<and> a \<noteq> 0"
  by (simp_all add: nonnull_def add_buf_def)

lemma add_buf_simps [simp]: "b \<noteq> 0 \<Longrightarrow> add_buf b M = add_mset b M" "add_buf 0 M = M"
  "a \<in># add_buf b M \<longleftrightarrow> a = b \<and> a \<noteq> 0 \<or> a \<in># M"
  by (auto simp: add_buf_def)


lemma add_buf_weaken: "M \<subseteq># add_buf b M"
  by (simp add: add_buf_def)

section \<open>The argument structs stay apart\<close>

definition in_args :: "hydra_pool \<Rightarrow> u32 \<Rightarrow> bool" where
  "in_args p x \<longleftrightarrow> unat (x - pool_members p) < unat (pool_size p) * unat (pool_type_size p)"

definition in_ramx :: "nat \<Rightarrow> ramx_pool \<Rightarrow> u32 \<Rightarrow> bool" where
  "in_ramx bn p x \<longleftrightarrow> unat (x - xp_pool p) < bn * unat (xp_block_size p)"

text \<open>A byte of RAMX in a block that nobody owns, and a byte of an argument struct that is not in use.\<close>

definition free_ramx :: "nat \<Rightarrow> ramx_pool \<Rightarrow> u32 \<Rightarrow> bool" where
  "free_ramx bn p x \<longleftrightarrow> in_ramx bn p x \<and> xp_blocks p ! (unat (x - xp_pool p) div unat (xp_block_size p)) = 0"


text \<open>Writing a whole argument struct.\<close>

definition args_write :: "u32 \<Rightarrow> u32 \<Rightarrow> u16 \<Rightarrow> u16 \<Rightarrow> mem \<Rightarrow> mem" where
  "args_write p b n r m = set_args_custom_register p r (set_args_size p n (set_args_buffer p b m))"

lemma offset_less:
  fixes x y :: u32
  assumes "unat y \<le> unat x"
  shows "unat (x - y) = unat x - unat y"
  using assms by (subst unat_sub) (simp_all add: word_le_nat_alt)

lemma args_write_other:
  assumes "9 \<le> unat (x - p)"
  shows "args_write p b n r m x = m x"
proof -
  have o: "unat (x - (p + c)) = unat (x - p) - unat c" if "unat c \<le> 9" for c
    using offset_less [of c "x - p"] that assms by (simp add: diff_diff_eq)
  have "4 \<le> unat (x - (p + 1))" "2 \<le> unat (x - (p + 5))" "2 \<le> unat (x - (p + 7))"
    using o [of 1] o [of 5] o [of 7] assms by simp_all
  then show ?thesis
    by (simp add: args_write_def set_args_custom_register_def set_args_size_def set_args_buffer_def mem_write_other le32_def le16_def)
qed

lemma args_buffer_cong:
  assumes "\<And>i. i < 9 \<Longrightarrow> m' (a + of_nat i) = m (a + of_nat i)"
  shows "args_buffer m' a = args_buffer m a"
proof -
  have "mem_bytes m' (a + 1) 4 = mem_bytes m (a + 1) 4"
    unfolding mem_bytes_def
  proof (rule map_cong [OF refl])
    fix i assume "i \<in> set [0..<4]"
    then show "m' (a + 1 + of_nat i) = m (a + 1 + of_nat i)" using assms [of "Suc i"] by (simp add: add.assoc)
  qed
  then show ?thesis by (simp add: args_buffer_def load_u32_bytes)
qed

lemma member_byte:
  assumes "pool_inv p" and "k < unat (pool_size p)" and "i < unat (pool_type_size p)"
  shows "unat (member_addr p k + of_nat i - pool_members p) = k * unat (pool_type_size p) + i"
    and "in_args p (member_addr p k + of_nat i)"
proof -
  note o = array_offset [OF pool_invD(3) [OF assms(1)] assms(2)]
  have "i < 4294967296" using assms(3) by (rule order.strict_trans) (rule unat_u32_less)
  then have i: "unat (of_nat i :: u32) = i" by (rule unat_of_nat_u32)
  have "unat (of_nat k * pool_type_size p) + unat (of_nat i :: u32) < 2 ^ LENGTH(32)"
    using o assms(3) unfolding i by simp
  from unat_add_lem [THEN iffD1, OF this]
  show u: "unat (member_addr p k + of_nat i - pool_members p) = k * unat (pool_type_size p) + i"
    by (simp add: array_addr_def o(1) i)
  have "k * unat (pool_type_size p) + i < Suc k * unat (pool_type_size p)" using assms(3) by simp
  also have "\<dots> \<le> unat (pool_size p) * unat (pool_type_size p)" using assms(2) by (intro mult_le_mono1) simp
  finally show "in_args p (member_addr p k + of_nat i)" by (simp add: in_args_def u)
qed

lemma members_apart:
  assumes "pool_inv p" and "9 \<le> unat (pool_type_size p)" and "k < unat (pool_size p)" and "j < unat (pool_size p)"
    and "k \<noteq> j" and "i < 9"
  shows "9 \<le> unat (member_addr p k + of_nat i - member_addr p j)"
proof -
  let ?t = "unat (pool_type_size p)"
  let ?x = "member_addr p k + of_nat i - pool_members p" and ?y = "member_addr p j - pool_members p"
  have x: "unat ?x = k * ?t + i" by (rule member_byte(1)) (use assms in simp_all)
  have y: "unat ?y = j * ?t" using member_byte(1) [OF assms(1,4), of 0] assms(2) by simp
  have eq: "member_addr p k + of_nat i - member_addr p j = ?x - ?y" by simp
  show ?thesis
  proof (cases "j < k")
    case True
    then have "Suc j * ?t \<le> k * ?t" by (intro mult_le_mono1) simp
    then have "unat (?x - ?y) = k * ?t + i - j * ?t" using offset_less [of ?y ?x] x y by simp
    then show ?thesis unfolding eq using \<open>Suc j * ?t \<le> k * ?t\<close> assms(2) by simp
  next
    case False
    then have "Suc k * ?t \<le> j * ?t" using assms(5) by (intro mult_le_mono1) simp
    then have lt: "k * ?t + i < j * ?t" using assms(2,6) by simp
    have top: "j * ?t + ?t \<le> 2 ^ 32" using array_offset(2) [OF pool_invD(3) [OF assms(1)] assms(4)] by simp
    have "unat (?x - ?y) = 2 ^ 32 + (k * ?t + i) - j * ?t"
      using lt x y by (subst unat_sub_if') (simp add: not_le)
    then show ?thesis unfolding eq using top lt assms(2) by linarith
  qed
qed

lemma args_write_buffer:
  assumes "pool_inv p" and "9 \<le> unat (pool_type_size p)" and "k < unat (pool_size p)" and "j < unat (pool_size p)"
  shows "args_buffer (args_write (member_addr p j) b n r m) (member_addr p k) =
    (if k = j then b else args_buffer m (member_addr p k))"
proof (cases "k = j")
  case True
  then show ?thesis using args_written(1) [OF refl] by (simp add: args_write_def)
next
  case False
  then show ?thesis
    using members_apart [OF assms False] by (auto intro!: args_buffer_cong args_write_other)
qed


lemma args_frame:
  assumes "pool_inv p" and "9 \<le> unat (pool_type_size p)" and "\<And>x. in_args p x \<Longrightarrow> m' x = m x" and "pool_used p a"
  shows "args_buffer m' a = args_buffer m a"
proof -
  obtain k where k: "k < unat (pool_size p)" "a = member_addr p k" using assms(4) by (auto simp: pool_used_def)
  show ?thesis
  proof (rule args_buffer_cong)
    fix i :: nat assume "i < 9"
    then have "in_args p (a + of_nat i)" unfolding k(2) using assms(2) by (intro member_byte(2) [OF assms(1) k(1)]) simp
    then show "m' (a + of_nat i) = m (a + of_nat i)" by (rule assms(3))
  qed
qed

section \<open>The invariant\<close>

text \<open>What no operation changes: the places and sizes of the pools.\<close>

definition hspi_static :: "hspi_build \<Rightarrow> hspi_world \<Rightarrow> bool" where
  "hspi_static bd w \<longleftrightarrow> hspi_inv bd w \<and> 9 \<le> unat (pool_type_size (hspi_arg_pool w)) \<and>
     xp_block_size (ramx_pool w) = POOL_BLOCK_SIZE bd \<and>
     unat (hspi_packet_size w) \<le> 255 * unat (POOL_BLOCK_SIZE bd) \<and> 256 * unat (POOL_BLOCK_SIZE bd) \<le> 2 ^ 32 \<and>
     (\<forall>x. \<not> (in_args (hspi_arg_pool w) x \<and> in_ramx (POOL_BLOCK_NUM bd) (ramx_pool w) x))"

definition dma_buffers :: "hspi_world \<Rightarrow> u32 list" where
  "dma_buffers w = [hspi_rx_buffer_0 w, hspi_rx_buffer_1 w, hspi_tx_buffer_0 w, hspi_tx_buffer_1 w]"



definition driver_task :: "hspi_fns \<Rightarrow> hydra_interrupt_queue_task \<Rightarrow> bool" where
  "driver_task fns t \<longleftrightarrow> (task_task t = fn_hspi_send fns \<or> task_task t = fn_hspi_rx_callback fns) \<and>
     task_cleanup t = fn_hspi_cleanup fns"

text \<open>The argument structs in use by the tasks being executed (\<open>ex\<close>) and those queued.\<close>

definition args_held :: "u32 list \<Rightarrow> hspi_world \<Rightarrow> u32 list" where
  "args_held ex w = ex @ map task_args (iq_tasks w)"

definition hspi_refs :: "u32 list \<Rightarrow> u32 list \<Rightarrow> hspi_world \<Rightarrow> u32 multiset" where
  "hspi_refs ex hs w = nonnull (mset hs + image_mset (args_buffer (memory w)) (mset (args_held ex w)))"

text \<open>\<open>D\<close> is what the DMA slots refer to, \<open>hs\<close> the references of the application.\<close>

definition hspi_hist :: "hspi_build \<Rightarrow> hspi_fns \<Rightarrow> u32 multiset \<Rightarrow> u32 list \<Rightarrow> u32 list \<Rightarrow> hspi_world \<Rightarrow> bool" where
  "hspi_hist bd fns D ex hs w \<longleftrightarrow> hspi_static bd w \<and> (\<forall>t\<in>set (iq_tasks w). driver_task fns t) \<and>
     distinct (args_held ex w) \<and> (\<forall>a\<in>set (args_held ex w). pool_used (hspi_arg_pool w) a) \<and>
     refs_ok (ramx_owners (ramx_pool w)) D (hspi_refs ex hs w)"

lemma hspi_staticD:
  assumes "hspi_static bd w"
  shows "hspi_inv bd w" "iq_inv w" "pool_inv (hspi_arg_pool w)" "ramx_inv (POOL_BLOCK_NUM bd) (ramx_pool w)"
    "crit_ok (iq_crit w)" "9 \<le> unat (pool_type_size (hspi_arg_pool w))"
    "xp_block_size (ramx_pool w) = POOL_BLOCK_SIZE bd" "unat (hspi_packet_size w) \<le> 255 * unat (POOL_BLOCK_SIZE bd)"
    "\<And>x. in_args (hspi_arg_pool w) x \<Longrightarrow> \<not> in_ramx (POOL_BLOCK_NUM bd) (ramx_pool w) x" "POOL_BLOCK_SIZE bd \<noteq> 0"
    "256 * unat (POOL_BLOCK_SIZE bd) \<le> 2 ^ 32"
  using assms hspi_invD [of bd w] ramx_invD(6) [of "POOL_BLOCK_NUM bd" "ramx_pool w"]
  by (auto simp: hspi_static_def array_fits_def)

lemma hspi_histD:
  assumes "hspi_hist bd fns D ex hs w"
  shows "hspi_static bd w" "\<And>t. t \<in> set (iq_tasks w) \<Longrightarrow> driver_task fns t" "distinct (args_held ex w)"
    "\<And>a. a \<in> set (args_held ex w) \<Longrightarrow> pool_used (hspi_arg_pool w) a"
    "refs_ok (ramx_owners (ramx_pool w)) D (hspi_refs ex hs w)"
  using assms by (auto simp: hspi_hist_def)

text \<open>Changes that keep the account: registers, and memory outside the argument structs.\<close>

definition hspi_same :: "hspi_world \<Rightarrow> hspi_world \<Rightarrow> bool" where
  "hspi_same w w' \<longleftrightarrow> task_queue w' = task_queue w \<and> iq_crit w' = iq_crit w \<and> hspi_arg_pool w' = hspi_arg_pool w \<and>
     ramx_pool w' = ramx_pool w \<and> hspi_packet_size w' = hspi_packet_size w \<and>
     (\<forall>x. in_args (hspi_arg_pool w) x \<longrightarrow> memory w' x = memory w x)"

definition hspi_frame :: "hspi_world \<Rightarrow> hspi_world \<Rightarrow> bool" where
  "hspi_frame w w' \<longleftrightarrow> hspi_same w w' \<and> dma_buffers w' = dma_buffers w"

lemma frame_refl [simp]: "hspi_same w w" "hspi_frame w w"
  by (simp_all add: hspi_frame_def hspi_same_def)


lemma hist_frame:
  assumes "hspi_hist bd fns D ex hs w" and "hspi_same w w'"
  shows "hspi_hist bd fns D ex hs w'" and "a \<in> set (args_held ex w) \<Longrightarrow> args_buffer (memory w') a = args_buffer (memory w) a"
proof -
  note h = hspi_histD [OF assms(1)] and f = assms(2) [unfolded hspi_same_def]
  note d = hspi_staticD [OF h(1)]
  have iq: "iq_tasks w' = iq_tasks w" "iq_inv w' = iq_inv w" using f by (simp_all add: iq_tasks_def iq_inv_def)
  have held: "args_held ex w' = args_held ex w" by (simp add: args_held_def iq)
  have bufs: "args_buffer (memory w') a = args_buffer (memory w) a" if "a \<in> set (args_held ex w)" for a
    by (rule args_frame [OF d(3,6)]) (use f h(4) [OF that] in auto)
  then show "a \<in> set (args_held ex w) \<Longrightarrow> args_buffer (memory w') a = args_buffer (memory w) a" .
  from bufs have "hspi_refs ex hs w' = hspi_refs ex hs w"
    unfolding hspi_refs_def held by (metis (mono_tags, lifting) image_mset_cong set_mset_mset)
  moreover have "hspi_static bd w'" using h(1) f iq by (simp add: hspi_static_def hspi_inv_def)
  ultimately show "hspi_hist bd fns D ex hs w'" using assms(1) f iq held by (simp add: hspi_hist_def)
qed

lemma hist_weaken:
  assumes "hspi_hist bd fns D (a # ex) hs w"
  shows "hspi_hist bd fns D ex hs w"
  using assms by (auto simp: hspi_hist_def args_held_def hspi_refs_def intro: refs_weaken [OF _ add_buf_weaken])


section \<open>Allocation\<close>

lemma alloc_bytes_cases:
  assumes "hspi_static bd w"
  obtains (none) "ramx_pool_alloc_bytes (POOL_BLOCK_NUM bd) (POOL_BLOCK_SIZE bd) (iq_crit w) (ramx_pool w) n =
      Some (0, ramx_pool w, iq_crit w)"
  | (some) a rp where "ramx_pool_alloc_bytes (POOL_BLOCK_NUM bd) (POOL_BLOCK_SIZE bd) (iq_crit w) (ramx_pool w) n =
      Some (a, rp, iq_crit w)" "a \<noteq> 0" "ramx_inv (POOL_BLOCK_NUM bd) rp" "ramx_owners (ramx_pool w) a = 0"
      "ramx_owners rp = (ramx_owners (ramx_pool w))(a := 1)" "xp_pool rp = xp_pool (ramx_pool w)"
      "xp_block_size rp = xp_block_size (ramx_pool w)"
      "\<And>j. j < unat n \<Longrightarrow> unat n \<le> 255 * unat (POOL_BLOCK_SIZE bd) \<Longrightarrow>
         free_ramx (POOL_BLOCK_NUM bd) (ramx_pool w) (a + of_nat j)"
proof -
  note d = hspi_staticD [OF assms]
  let ?p = "ramx_pool w" and ?bn = "POOL_BLOCK_NUM bd" and ?bsz = "POOL_BLOCK_SIZE bd"
  obtain q where q: "div_round_up n ?bsz = Some q" using d(10) by (simp add: div_round_up_def)
  then have eq: "ramx_pool_alloc_bytes ?bn ?bsz (iq_crit w) ?p n = ramx_pool_alloc_blocks ?bn (iq_crit w) ?p (ucast q)"
    by (simp add: ramx_pool_alloc_bytes_def Let_def)
  show ?thesis
    using d(4,5)
  proof (cases rule: ramx_alloc_cases [where nb = "ucast q"])
    case none
    then show ?thesis using that(1) eq by simp
  next
    case (some i)
    note pos' = start_less [OF some(2,4)]
    note fits = ramx_invD(6) [OF d(4)]
    have bytes: "free_ramx ?bn ?p (xblock_addr ?p i + of_nat j)" if "j < unat n" "unat n \<le> 255 * unat ?bsz" for j
    proof -
      have pos: "0 < unat ?bsz" using d(10) by (simp add: unat_gt_0)
      have "unat n + unat ?bsz \<le> 2 ^ 32" using that(2) d(11) by linarith
      then obtain q' where "div_round_up n ?bsz = Some q'" "unat q' = (unat n + unat ?bsz - 1) div unat ?bsz"
        using div_round_up_unat [OF d(10)] by blast
      then have uq: "unat q = (unat n + unat ?bsz - 1) div unat ?bsz" using q by simp
      have "unat q \<le> 255" unfolding uq by (rule div_ceil_le [OF pos that(2)])
      then have u: "unat (ucast q :: u8) = unat q" by (simp add: unat_ucast_u32_u8)
      have "unat n \<le> unat q * unat ?bsz" unfolding uq by (rule div_ceil_bounds [OF pos])
      then have "i * unat ?bsz + j < (i + unat q) * unat ?bsz" using that(1) by (simp add: add_mult_distrib)
      then have "(i * unat ?bsz + j) div unat ?bsz < i + unat q" by (simp add: less_mult_imp_div_less)
      then have "j div unat ?bsz < unat (ucast q :: u8)" using pos by (simp add: u)
      then have "xp_blocks ?p ! (i + j div unat ?bsz) = 0" using some(3) by (simp add: free_at_def)
      then have status: "xp_blocks ?p ! ((i * unat ?bsz + j) div unat ?bsz) = 0" using pos by simp
      have "i * unat ?bsz + j < (i + unat q) * unat ?bsz"
        using \<open>unat n \<le> unat q * unat ?bsz\<close> that(1) by (simp add: add_mult_distrib)
      also have "\<dots> \<le> ?bn * unat ?bsz" using some(2) by (intro mult_le_mono1) (simp add: u)
      finally have lt: "i * unat ?bsz + j < ?bn * unat ?bsz" .
      have top: "?bn * unat ?bsz \<le> 2 ^ 32" using fits by (simp add: array_fits_def d(7))
      have "unat (of_nat j :: u32) = j" using lt top by (intro unat_of_nat_u32) simp
      moreover have off: "unat (of_nat i * xp_block_size ?p) = i * unat ?bsz" using array_offset(1) [OF fits pos'] by (simp add: d(7))
      ultimately have "unat (of_nat i * xp_block_size ?p) + unat (of_nat j :: u32) < 2 ^ LENGTH(32)" using lt top by simp
      from unat_add_lem [THEN iffD1, OF this] have "unat (xblock_addr ?p i + of_nat j - xp_pool ?p) = i * unat ?bsz + j"
        using \<open>unat (of_nat j :: u32) = j\<close> off by (simp add: array_addr_def)
      then show ?thesis using lt status by (simp add: free_ramx_def in_ramx_def d(7))
    qed
    show ?thesis
      using that(2) [OF _ array_addr_nonnull [OF fits pos'] xtake_run_inv(1) [OF d(4) some(2-4)]
          ramx_owners_xtake(2,1) [OF d(4) some(2-4)] _ _ bytes] some(1) eq
      by (simp add: xtake_run_def)
  qed
qed

section \<open>What each part of an operation does to the account\<close>

lemma iq_tasks_upd [simp]:
  "iq_tasks (w\<lparr>ramx_pool := rp\<rparr>) = iq_tasks w" "iq_tasks (w\<lparr>hspi_arg_pool := ap\<rparr>) = iq_tasks w"
  "iq_tasks (w\<lparr>memory := m\<rparr>) = iq_tasks w"
  by (simp_all add: iq_tasks_def)

lemma iq_inv_upd [simp]:
  "iq_inv (w\<lparr>ramx_pool := rp\<rparr>) = iq_inv w" "iq_inv (w\<lparr>hspi_arg_pool := ap\<rparr>) = iq_inv w"
  "iq_inv (w\<lparr>memory := m\<rparr>) = iq_inv w"
  by (simp_all add: iq_inv_def)

lemma static_ramx:
  assumes "hspi_static bd w" and "ramx_inv (POOL_BLOCK_NUM bd) rp" and "xp_pool rp = xp_pool (ramx_pool w)"
    and "xp_block_size rp = xp_block_size (ramx_pool w)"
  shows "hspi_static bd (w\<lparr>ramx_pool := rp\<rparr>)"
proof -
  have "in_ramx bn rp x = in_ramx bn (ramx_pool w) x" for bn x by (simp add: in_ramx_def assms(3,4))
  then show ?thesis using assms by (simp add: hspi_static_def hspi_inv_def)
qed

lemma hist_ramx:
  assumes "hspi_hist bd fns D ex hs w" and "ramx_inv (POOL_BLOCK_NUM bd) rp" and "xp_pool rp = xp_pool (ramx_pool w)"
    and "xp_block_size rp = xp_block_size (ramx_pool w)" and "refs_ok (ramx_owners rp) D' (hspi_refs ex hs' w)"
  shows "hspi_hist bd fns D' ex hs' (w\<lparr>ramx_pool := rp\<rparr>)"
  using assms static_ramx [of bd w rp] by (simp add: hspi_hist_def args_held_def hspi_refs_def)

lemma pool_taken:
  assumes "pool_inv p" and "k < unat (pool_size p)" and "\<not> pool_manager p ! k"
  defines "q \<equiv> p\<lparr>pool_manager := (pool_manager p)[k := True]\<rparr>"
  shows "pool_inv q" "pool_used p a \<Longrightarrow> pool_used q a" "pool_used q (member_addr p k)" "\<not> pool_used p (member_addr p k)"
    "in_args q x = in_args p x"
  using assms pool_used_set [OF assms(1,2)] pool_used_member [OF assms(1,2)]
  by (auto simp: q_def pool_inv_set in_args_def)

lemma hist_leak_args:
  assumes "hspi_hist bd fns D ex hs w" and "k < unat (pool_size (hspi_arg_pool w))" and "\<not> pool_manager (hspi_arg_pool w) ! k"
  shows "hspi_hist bd fns D ex hs (w\<lparr>hspi_arg_pool := args_taken w k\<rparr>)"
proof -
  note h = hspi_histD [OF assms(1)]
  note p = pool_taken [OF hspi_staticD(3) [OF h(1)] assms(2,3)]
  have "hspi_static bd (w\<lparr>hspi_arg_pool := args_taken w k\<rparr>)"
    using h(1) p(1,5) by (simp add: hspi_static_def hspi_inv_def)
  then show ?thesis using h p(2) by (auto simp: hspi_hist_def args_held_def hspi_refs_def)
qed

text \<open>A fresh argument struct filled in for buffer \<open>b\<close>.\<close>

lemma hist_args:
  fixes n r :: u16
  assumes "hspi_hist bd fns D ex hs w" and "k < unat (pool_size (hspi_arg_pool w))" and "\<not> pool_manager (hspi_arg_pool w) ! k"
    and "\<And>x. in_args (hspi_arg_pool w) x \<Longrightarrow> m x = memory w x" and "refs_ok (ramx_owners (ramx_pool w)) D' (add_buf b (hspi_refs ex hs w))"
  defines "w' \<equiv> w\<lparr>hspi_arg_pool := args_taken w k, memory := args_write (args_addr w k) b n r m\<rparr>"
  shows "hspi_hist bd fns D' (args_addr w k # ex) hs w'"
    and "a \<in> set (args_held ex w) \<Longrightarrow> args_buffer (memory w') a = args_buffer (memory w) a"
proof -
  note h = hspi_histD [OF assms(1)]
  note d = hspi_staticD [OF h(1)]
  note p = pool_taken [OF d(3) assms(2,3)]
  have static: "hspi_static bd w'" using h(1) p(1,5) by (simp add: w'_def hspi_static_def hspi_inv_def)
  have held: "args_held (args_addr w k # ex) w' = args_addr w k # args_held ex w" by (simp add: args_held_def w'_def)
  have new: "args_addr w k \<notin> set (args_held ex w)" using h(4) p(4) by blast
  have bufs: "args_buffer (memory w') a = args_buffer (memory w) a" if a: "a \<in> set (args_held ex w)" for a
  proof -
    obtain j where j: "j < unat (pool_size (hspi_arg_pool w))" "a = args_addr w j" using h(4) [OF a] by (auto simp: pool_used_def)
    then have "j \<noteq> k" using new a by blast
    then have "args_buffer (memory w') a = args_buffer m a"
      unfolding j(2) w'_def by (simp add: args_write_buffer [OF d(3,6) j(1) assms(2)])
    also have "\<dots> = args_buffer (memory w) a" by (rule args_frame [OF d(3,6) assms(4) h(4) [OF a]])
    finally show ?thesis .
  qed
  then show "a \<in> set (args_held ex w) \<Longrightarrow> args_buffer (memory w') a = args_buffer (memory w) a" .
  have "args_buffer (memory w') (args_addr w k) = b"
    by (simp add: w'_def args_write_buffer [OF d(3,6) assms(2,2)])
  moreover have "image_mset (args_buffer (memory w')) (mset (args_held ex w)) = image_mset (args_buffer (memory w)) (mset (args_held ex w))"
    using bufs by (intro image_mset_cong) simp
  ultimately have "hspi_refs (args_addr w k # ex) hs w' = add_buf b (hspi_refs ex hs w)"
    by (simp add: hspi_refs_def held add_buf_def)
  moreover have "distinct (args_held (args_addr w k # ex) w')" using h(3) new by (simp add: held)
  moreover have "\<forall>a\<in>set (args_held (args_addr w k # ex) w'). pool_used (hspi_arg_pool w') a"
    unfolding held using h(4) p(2,3) by (auto simp: w'_def)
  ultimately show "hspi_hist bd fns D' (args_addr w k # ex) hs w'"
    using static h(2) assms(5) by (simp add: hspi_hist_def) (simp add: w'_def)
qed

text \<open>Queueing hands the struct from the code that runs to the queue, or leaks it.\<close>

lemma hist_enqueue:
  assumes "hspi_hist bd fns D (a # ex) hs w" and "length junk = 4" and "f = fn_hspi_send fns \<or> f = fn_hspi_rx_callback fns"
  shows "\<exists>r q. hydra_interrupt_queue_set_next_task junk f a (fn_hspi_cleanup fns) w = Some (r, w\<lparr>task_queue := q\<rparr>) \<and>
    hspi_hist bd fns D ex hs (w\<lparr>task_queue := q\<rparr>)"
proof -
  note h = hspi_histD [OF assms(1)]
  note iq = hspi_staticD(2) [OF h(1)]
  show ?thesis
  proof (cases "length (iq_tasks w) < iq_cap w")
    case True
    let ?t = "\<lparr>task_in_use = junk, task_task = f, task_args = a, task_cleanup = fn_hspi_cleanup fns\<rparr>"
    obtain q where q: "hydra_interrupt_queue_set_next_task junk f a (fn_hspi_cleanup fns) w = Some (True, w\<lparr>task_queue := q\<rparr>)"
      "iq_inv (w\<lparr>task_queue := q\<rparr>)" "iq_tasks (w\<lparr>task_queue := q\<rparr>) = iq_tasks w @ [?t]"
      using set_next_task_room [OF iq True assms(2)] by blast
    let ?w = "w\<lparr>task_queue := q\<rparr>"
    have held: "mset (args_held ex ?w) = mset (args_held (a # ex) w)" by (simp add: args_held_def q(3))
    then have "distinct (args_held ex ?w)" using h(3) mset_eq_imp_distinct_iff by blast
    moreover have "set (args_held ex ?w) = set (args_held (a # ex) w)" using held by (metis set_mset_mset)
    moreover have "hspi_refs ex hs ?w = hspi_refs (a # ex) hs w" by (simp add: hspi_refs_def held)
    moreover have "hspi_static bd ?w" using h(1) q(2) by (simp add: hspi_static_def hspi_inv_def)
    moreover have "driver_task fns ?t" using assms(3) by (simp add: driver_task_def)
    ultimately have "hspi_hist bd fns D ex hs ?w" using h q(3) by (auto simp: hspi_hist_def)
    then show ?thesis using q(1) by blast
  next
    case False
    then have "length (iq_tasks w) = iq_cap w" using iq_tasks_cap [OF iq] by simp
    from set_next_task_full [OF iq this] hist_weaken [OF assms(1)] show ?thesis
      by (metis task_queue_same)
  qed
qed

lemma take_live:
  assumes "hspi_static bd w" and "0 < ramx_owners (ramx_pool w) b" and "ramx_owners (ramx_pool w) b < 255"
  shows "\<exists>rp. ramx_take_ownership (iq_crit w) (ramx_pool w) b = Some (rp, iq_crit w) \<and> ramx_inv (POOL_BLOCK_NUM bd) rp \<and>
    ramx_owners rp = (ramx_owners (ramx_pool w))(b := ramx_owners (ramx_pool w) b + 1) \<and>
    xp_pool rp = xp_pool (ramx_pool w) \<and> xp_block_size rp = xp_block_size (ramx_pool w)"
proof -
  note d = hspi_staticD [OF assms(1)]
  obtain i where i: "i \<in> run_starts 0 (xp_blocks (ramx_pool w))" "b = xblock_addr (ramx_pool w) i"
    "ramx_owners (ramx_pool w) b = unat (xp_refs (ramx_pool w) ! i)" using ramx_owners_pos [OF d(4) assms(2)] by metis
  have r: "unat (xp_refs (ramx_pool w) ! i + 1) = Suc (unat (xp_refs (ramx_pool w) ! i))"
    using assms(3) i(3) by (intro unat_u8_incr) simp
  then have "1 \<le> xp_refs (ramx_pool w) ! i + 1" by (simp add: unat_1_le)
  then show ?thesis
    using ramx_take_ownership_run [OF d(4,5) i(1)] xset_refs_inv(1) [OF d(4) i(1)] ramx_owners_xset [OF d(4) i(1)] i r
    by (simp add: xset_refs_def Let_def)
qed

lemma free_live:
  assumes "hspi_static bd w" and "0 < ramx_owners (ramx_pool w) b"
  shows "\<exists>rp. ramx_pool_free (iq_crit w) (ramx_pool w) b = Some (rp, iq_crit w) \<and> ramx_inv (POOL_BLOCK_NUM bd) rp \<and>
    ramx_owners rp = (ramx_owners (ramx_pool w))(b := ramx_owners (ramx_pool w) b - 1) \<and>
    xp_pool rp = xp_pool (ramx_pool w) \<and> xp_block_size rp = xp_block_size (ramx_pool w)"
proof -
  note d = hspi_staticD [OF assms(1)]
  obtain i where i: "i \<in> run_starts 0 (xp_blocks (ramx_pool w))" "b = xblock_addr (ramx_pool w) i"
    using ramx_owners_pos [OF d(4) assms(2)] by metis
  have run: "ramx_pool_free (iq_crit w) (ramx_pool w) b = Some (if xp_refs (ramx_pool w) ! i = 1 then xdrop_run (ramx_pool w) i
    else xset_refs (ramx_pool w) i (xp_refs (ramx_pool w) ! i - 1), iq_crit w)"
    unfolding i(2) by (rule ramx_pool_free_run [OF d(4,5) i(1)])
  have "rx_inv (POOL_BLOCK_NUM bd) (ramx_pool w, iq_crit w)" using d(4,5) by (simp add: rx_inv_def)
  moreover have "0 < rx_owners (ramx_pool w, iq_crit w) b" using assms(2) by (simp add: rx_owners_def)
  ultimately obtain rp c where "rx_free b (ramx_pool w, iq_crit w) = Some (rp, c)" "ramx_inv (POOL_BLOCK_NUM bd) rp"
    "ramx_owners rp = (ramx_owners (ramx_pool w))(b := ramx_owners (ramx_pool w) b - 1)"
    using rx.release_owned [of "POOL_BLOCK_NUM bd" "(ramx_pool w, iq_crit w)" b] by (force simp: rx_inv_def rx_owners_def)
  then show ?thesis using run by (auto simp: rx_free_def xset_refs_def xdrop_run_def Let_def)
qed







section \<open>The operations of the driver\<close>

text \<open>What may be sent: a buffer the sender refers to, or one outside RAMX, of up to a packet.\<close>

definition sendable :: "u32 \<Rightarrow> u16 \<Rightarrow> hspi_world \<Rightarrow> u32 set \<Rightarrow> bool" where
  "sendable buffer sz w bufs \<longleftrightarrow> sz \<le> hspi_packet_size w \<and>
     (buffer \<in> bufs \<and> ramx_owners (ramx_pool w) buffer < 255 \<or> \<not> ramx_address_in_pool (ramx_pool w) buffer)"

text \<open>What an operation leaves behind: the account, the DMA slots, and the structs of running tasks.\<close>

definition keeps :: "hspi_build \<Rightarrow> hspi_fns \<Rightarrow> u32 multiset \<Rightarrow> u32 list \<Rightarrow> u32 list \<Rightarrow> hspi_world \<Rightarrow> hspi_world \<Rightarrow> bool" where
  "keeps bd fns D ex hs w w' \<longleftrightarrow> hspi_hist bd fns D ex hs w' \<and> dma_buffers w' = dma_buffers w \<and>
     (\<forall>a\<in>set ex. args_buffer (memory w') a = args_buffer (memory w) a)"

lemma in_held: "a \<in> set ex \<Longrightarrow> a \<in> set (args_held ex w)"
  by (simp add: args_held_def)

lemma keeps_frame:
  assumes "hspi_hist bd fns D ex hs w" and "hspi_frame w w'"
  shows "keeps bd fns D ex hs w w'"
proof -
  have f: "hspi_same w w'" "dma_buffers w' = dma_buffers w" using assms(2) by (simp_all add: hspi_frame_def)
  have "args_buffer (memory w') a = args_buffer (memory w) a" if "a \<in> set ex" for a
    by (rule hist_frame(2) [OF assms(1) f(1) in_held [OF that]])
  then show ?thesis using hist_frame(1) [OF assms(1) f(1)] f(2) by (simp add: keeps_def)
qed

text \<open>The common end of sending and receiving: fill in the struct and queue the task.\<close>

lemma fill_and_queue:
  fixes n r :: u16
  assumes "hspi_hist bd fns D ex hs w" and "k < unat (pool_size (hspi_arg_pool w))" and "\<not> pool_manager (hspi_arg_pool w) ! k"
    and "\<And>x. in_args (hspi_arg_pool w) x \<Longrightarrow> m x = memory w x" and "refs_ok (ramx_owners (ramx_pool w)) D' (add_buf b (hspi_refs ex hs w))"
    and "length junk = 4" and "f = fn_hspi_send fns \<or> f = fn_hspi_rx_callback fns"
  defines "w' \<equiv> w\<lparr>hspi_arg_pool := args_taken w k, memory := args_write (args_addr w k) b n r m\<rparr>"
  shows "\<exists>q s. hydra_interrupt_queue_set_next_task junk f (args_addr w k) (fn_hspi_cleanup fns) w' = Some (q, w'\<lparr>task_queue := s\<rparr>) \<and>
    keeps bd fns D' ex hs w (w'\<lparr>task_queue := s\<rparr>)"
proof -
  note a = hist_args [OF assms(1-5), where n = n and r = r, folded w'_def]
  obtain q s where s: "hydra_interrupt_queue_set_next_task junk f (args_addr w k) (fn_hspi_cleanup fns) w' = Some (q, w'\<lparr>task_queue := s\<rparr>)"
    "hspi_hist bd fns D' ex hs (w'\<lparr>task_queue := s\<rparr>)"
    using hist_enqueue [OF a(1) assms(6,7)] by blast
  moreover have "dma_buffers (w'\<lparr>task_queue := s\<rparr>) = dma_buffers w" by (simp add: w'_def dma_buffers_def)
  ultimately show ?thesis using a(2) in_held by (auto simp: keeps_def)
qed

lemma ramx_first:
  "w\<lparr>ramx_pool := rp, hspi_arg_pool := ap\<rparr> = w\<lparr>hspi_arg_pool := ap, ramx_pool := rp\<rparr>" for w :: hspi_world
  by simp

lemma null_not_in_pool: "hspi_static bd w \<Longrightarrow> \<not> ramx_address_in_pool (ramx_pool w) 0"
  using ramx_invD(6) [OF hspi_staticD(4)] by (auto simp: ramx_address_in_pool_def array_fits_def)

lemma send_step:
  assumes "hspi_hist bd fns D ex hs w" and "sendable buffer sz w (insert 0 (set_mset (hspi_refs ex hs w)))" and "length junk = 4"
  shows "\<exists>r w'. hspi_send bd fns junk buffer sz cr w = Some (r, w') \<and> keeps bd fns D ex hs w w'"
proof -
  note h = hspi_histD [OF assms(1)]
  note d = hspi_staticD [OF h(1)]
  have same_world: "w\<lparr>iq_crit := iq_crit w, hspi_arg_pool := hspi_arg_pool w\<rparr> = w" by simp
  from d(3,5) show ?thesis
  proof (cases rule: pool_get_cases)
    case full
    then have "hspi_send bd fns junk buffer sz cr w = Some (False, w)"
      by (simp add: hspi_send_def same_world)
    then show ?thesis using keeps_frame [OF assms(1)] by fastforce
  next
    case (free k)
    have nn: "args_addr w k \<noteq> 0" by (rule array_addr_nonnull [OF pool_invD(3) [OF d(3)] free(1)])
    show ?thesis
    proof (cases "ramx_address_in_pool (ramx_pool w) buffer")
      case True
      then have nz: "buffer \<noteq> 0" using null_not_in_pool [OF h(1)] by auto
      with True have b: "buffer \<in># hspi_refs ex hs w" "ramx_owners (ramx_pool w) buffer < 255" using assms(2) by (auto simp: sendable_def)
      then have live: "0 < ramx_owners (ramx_pool w) buffer" by (intro refs_owned [OF h(5)]) simp
      obtain rp where rp: "ramx_take_ownership (iq_crit w) (ramx_pool w) buffer = Some (rp, iq_crit w)" "ramx_inv (POOL_BLOCK_NUM bd) rp"
        "ramx_owners rp = (ramx_owners (ramx_pool w))(buffer := ramx_owners (ramx_pool w) buffer + 1)"
        "xp_pool rp = xp_pool (ramx_pool w)" "xp_block_size rp = xp_block_size (ramx_pool w)"
        using take_live [OF h(1) live b(2)] by blast
      let ?w = "w\<lparr>ramx_pool := rp\<rparr>"
      have up: "refs_ok (ramx_owners rp) D (hspi_refs ex hs w)" "refs_ok (ramx_owners rp) D (add_mset buffer (hspi_refs ex hs w))"
        using refs_share [OF h(5) b(1)] rp(3) by (auto intro: refs_weaken)
      have hist: "hspi_hist bd fns D ex hs ?w" by (rule hist_ramx [OF assms(1) rp(2,4,5) up(1)])
      have r: "hspi_refs ex hs ?w = hspi_refs ex hs w" by (simp add: hspi_refs_def args_held_def)
      obtain q s where s: "hydra_interrupt_queue_set_next_task junk (fn_hspi_send fns) (args_addr ?w k) (fn_hspi_cleanup fns)
          (?w\<lparr>hspi_arg_pool := args_taken ?w k, memory := args_write (args_addr ?w k) buffer sz cr (memory w)\<rparr>) =
          Some (q, ?w\<lparr>hspi_arg_pool := args_taken ?w k, memory := args_write (args_addr ?w k) buffer sz cr (memory w), task_queue := s\<rparr>)"
        "keeps bd fns D ex hs ?w (?w\<lparr>hspi_arg_pool := args_taken ?w k, memory := args_write (args_addr ?w k) buffer sz cr (memory w), task_queue := s\<rparr>)"
        using fill_and_queue [OF hist, of k "memory w" D buffer junk "fn_hspi_send fns" sz cr] free(1,2) up(2) assms(3) nz by (auto simp: r)
      have "hspi_send bd fns junk buffer sz cr w =
          Some (True, ?w\<lparr>hspi_arg_pool := args_taken ?w k, memory := args_write (args_addr ?w k) buffer sz cr (memory w), task_queue := s\<rparr>)"
        using True nn s(1) by (simp add: hspi_send_def free(3) Let_def rp(1) args_write_def ramx_first)
      moreover have "keeps bd fns D ex hs w w'" if "keeps bd fns D ex hs ?w w'" for w'
        using that by (simp add: keeps_def dma_buffers_def)
      ultimately show ?thesis using s(2) by blast
    next
      case False
      from h(1) show ?thesis
      proof (cases rule: alloc_bytes_cases [where n = "ucast (hspi_packet_size w)"])
        case none
        have "hspi_send bd fns junk buffer sz cr w = Some (False, w\<lparr>hspi_arg_pool := args_taken w k\<rparr>)"
          using False nn none by (simp add: hspi_send_def free(3) Let_def hspi_alloc_packet_def)
        then show ?thesis using hist_leak_args [OF assms(1) free(1,2)] by (fastforce simp: keeps_def dma_buffers_def)
      next
        case (some a rp)
        let ?w = "w\<lparr>ramx_pool := rp\<rparr>" and ?m = "mem_copy a buffer (unat sz) (memory w)"
        have up: "refs_ok (ramx_owners rp) D (add_mset a (hspi_refs ex hs w))" using refs_new(1) [OF h(5) some(4)] some(5) by simp
        then have hist: "hspi_hist bd fns D ex hs ?w" by (intro hist_ramx [OF assms(1) some(3,6,7)]) (auto intro: refs_weaken)
        have r: "hspi_refs ex hs ?w = hspi_refs ex hs w" by (simp add: hspi_refs_def args_held_def)
        have frame: "?m x = memory w x" if "in_args (hspi_arg_pool w) x" for x
        proof (rule mem_copy_other, rule ccontr)
          assume "\<not> unat sz \<le> unat (x - a)"
          then have "unat (x - a) < unat (hspi_packet_size w)" using assms(2) by (simp add: sendable_def word_le_nat_alt)
          then have "free_ramx (POOL_BLOCK_NUM bd) (ramx_pool w) (a + of_nat (unat (x - a)))"
            using d(8) by (intro some(8)) (simp_all add: unat_ucast_u16_u32)
          then show False using d(9) [OF that] by (simp add: free_ramx_def)
        qed
        obtain q s where s: "hydra_interrupt_queue_set_next_task junk (fn_hspi_send fns) (args_addr ?w k) (fn_hspi_cleanup fns)
            (?w\<lparr>hspi_arg_pool := args_taken ?w k, memory := args_write (args_addr ?w k) a sz cr ?m\<rparr>) =
            Some (q, ?w\<lparr>hspi_arg_pool := args_taken ?w k, memory := args_write (args_addr ?w k) a sz cr ?m, task_queue := s\<rparr>)"
          "keeps bd fns D ex hs ?w (?w\<lparr>hspi_arg_pool := args_taken ?w k, memory := args_write (args_addr ?w k) a sz cr ?m, task_queue := s\<rparr>)"
          using fill_and_queue [OF hist, of k ?m D a junk "fn_hspi_send fns" sz cr] free(1,2) up assms(3) frame some(2) by (auto simp: r)
        have "hspi_send bd fns junk buffer sz cr w =
            Some (True, ?w\<lparr>hspi_arg_pool := args_taken ?w k, memory := args_write (args_addr ?w k) a sz cr ?m, task_queue := s\<rparr>)"
          using False nn s(1) some(1,2) by (simp add: hspi_send_def free(3) Let_def hspi_alloc_packet_def args_write_def ramx_first)
        moreover have "keeps bd fns D ex hs w w'" if "keeps bd fns D ex hs ?w w'" for w'
          using that by (simp add: keeps_def dma_buffers_def)
        ultimately show ?thesis using s(2) by blast
      qed
    qed
  qed
qed






section \<open>What the driver writes to memory\<close>





section \<open>The application\<close>

text \<open>What code that holds the references \<open>hs\<close> and may use the buffers \<open>B\<close> does: allocate, take
  ownership, give up a reference of its own, send, and change what is not the driver's. The same steps are
  those of the main program (with no \<open>B\<close>) and of a reception callback (with the buffer it is given).\<close>

inductive app_step :: "hspi_build \<Rightarrow> hspi_fns \<Rightarrow> u32 set \<Rightarrow> u32 list \<times> hspi_world \<Rightarrow> u32 list \<times> hspi_world \<Rightarrow> bool"
  for bd fns B where
  app_alloc: "ramx_pool_alloc_bytes (POOL_BLOCK_NUM bd) (POOL_BLOCK_SIZE bd) (iq_crit w) (ramx_pool w) n = Some (a, rp, c) \<Longrightarrow>
    app_step bd fns B (hs, w) (if a = 0 then hs else a # hs, w\<lparr>iq_crit := c, ramx_pool := rp\<rparr>)"
| app_take: "buf \<in> B \<union> set hs \<Longrightarrow> buf \<noteq> 0 \<Longrightarrow> ramx_owners (ramx_pool w) buf < 255 \<Longrightarrow>
    ramx_take_ownership (iq_crit w) (ramx_pool w) buf = Some (rp, c) \<Longrightarrow>
    app_step bd fns B (hs, w) (buf # hs, w\<lparr>iq_crit := c, ramx_pool := rp\<rparr>)"
| app_free: "buf \<in> set hs \<Longrightarrow> ramx_pool_free (iq_crit w) (ramx_pool w) buf = Some (rp, c) \<Longrightarrow>
    app_step bd fns B (hs, w) (remove1 buf hs, w\<lparr>iq_crit := c, ramx_pool := rp\<rparr>)"
| app_send: "sendable buf sz w (B \<union> set hs) \<Longrightarrow> length junk = 4 \<Longrightarrow> hspi_send bd fns junk buf sz cr w = Some (r, w') \<Longrightarrow>
    app_step bd fns B (hs, w) (hs, w')"
| app_frame: "hspi_frame w w' \<Longrightarrow> app_step bd fns B (hs, w) (hs, w')"

lemma crit_unchanged: "w\<lparr>iq_crit := iq_crit w, ramx_pool := rp\<rparr> = w\<lparr>ramx_pool := rp\<rparr>" for w :: hspi_world
  by simp




section \<open>The environment\<close>



text \<open>The reception callback, called with what the argument struct \<open>a\<close> says, takes any steps of an
  application that may use the buffer. It may end by freeing that buffer, as \<open>hspi_scheduled.h\<close> tells it
  to, if nobody else owns it by then (\<open>rx_frees\<close>; see \<open>hspi_documented_free_dangles\<close> for when somebody does).\<close>

definition rx_call :: "hspi_hw \<Rightarrow> u32 \<Rightarrow> hspi_world \<Rightarrow> hspi_world option" where
  "rx_call hw a w = user_rx_callback hw (args_buffer (memory w) a) (args_size (memory w) a) (args_custom_register (memory w) a) w"

inductive rx_handled :: "hspi_build \<Rightarrow> hspi_fns \<Rightarrow> hspi_hw \<Rightarrow> u32 \<Rightarrow> u32 list \<times> hspi_world \<Rightarrow> u32 list \<times> hspi_world \<Rightarrow> bool"
  for bd fns hw a where
  rx_uses: "rx_call hw a w = Some w' \<Longrightarrow> (app_step bd fns {args_buffer (memory w) a})\<^sup>*\<^sup>* (hs, w) (hs', w') \<Longrightarrow>
    rx_handled bd fns hw a (hs, w) (hs', w')"
| rx_frees: "rx_call hw a w = Some (w1\<lparr>iq_crit := c, ramx_pool := rp\<rparr>) \<Longrightarrow>
    (app_step bd fns {args_buffer (memory w) a})\<^sup>*\<^sup>* (hs, w) (hs', w1) \<Longrightarrow>
    ramx_owners (ramx_pool w1) (args_buffer (memory w) a) = 1 \<Longrightarrow>
    ramx_pool_free (iq_crit w1) (ramx_pool w1) (args_buffer (memory w) a) = Some (rp, c) \<Longrightarrow>
    rx_handled bd fns hw a (hs, w) (hs', w1\<lparr>iq_crit := c, ramx_pool := rp\<rparr>)"


section \<open>The interrupt and the task queue\<close>




text \<open>A run of the task queue starts by taking its first task, whose struct then is that of a running task.\<close>

lemma run_takes:
  assumes "hspi_hist bd fns D [] hs w" and "iq_tasks w = t # ts" and "length var = 16" and "fns_ok fns"
  shows "\<exists>v q. task_queue_read1 var w = Some (1, v, w\<lparr>task_queue := q\<rparr>) \<and>
    hspi_hist bd fns D [task_args t] hs (w\<lparr>task_queue := q\<rparr>) \<and> task_args t \<noteq> 0 \<and> driver_task fns t \<and>
    hydra_interrupt_queue_run (hspi_call b hw fns var env) var w = do {
      w2 \<leftarrow> hspi_call b hw fns var env (task_task t) (task_args t) (w\<lparr>task_queue := q\<rparr>);
      hspi_cleanup (task_args t) w2 }"
proof -
  note h = hspi_histD [OF assms(1)]
  note d = hspi_staticD [OF h(1)]
  from task_queue_read1_first [OF d(2) assms(2,3)] obtain v q where q: "task_queue_read1 var w = Some (1, v, w\<lparr>task_queue := q\<rparr>)"
    "task_of_bytes v = t" "iq_inv (w\<lparr>task_queue := q\<rparr>)" "iq_tasks (w\<lparr>task_queue := q\<rparr>) = ts" by blast
  have t: "driver_task fns t" using h(2) assms(2) by simp
  have "args_held [task_args t] (w\<lparr>task_queue := q\<rparr>) = args_held [] w" by (simp add: args_held_def q(4) assms(2))
  then have "hspi_hist bd fns D [task_args t] hs (w\<lparr>task_queue := q\<rparr>)"
    using assms(1) q(3,4) by (simp add: hspi_hist_def hspi_refs_def hspi_static_def hspi_inv_def assms(2))
  moreover have "pool_used (hspi_arg_pool w) (task_args t)" using h(4) by (simp add: args_held_def assms(2))
  then have "task_args t \<noteq> 0" using array_addr_nonnull [OF pool_invD(3) [OF d(3)]] by (auto simp: pool_used_def)
  moreover have "hydra_interrupt_queue_run (hspi_call b hw fns var env) var w = do {
      w2 \<leftarrow> hspi_call b hw fns var env (task_task t) (task_args t) (w\<lparr>task_queue := q\<rparr>);
      hspi_cleanup (task_args t) w2 }"
    using q(1,2) t hspi_call_fns(3,4) [OF assms(4)] by (simp add: hydra_interrupt_queue_run_def driver_task_def)
  ultimately show ?thesis using q(1) t by blast
qed



section \<open>Histories\<close>

text \<open>The references the application holds, and the world. A run whose first task is a received packet also
  hands over what the callback acquired or gave up.\<close>

inductive hspi_step :: "hspi_build \<Rightarrow> hspi_sbits \<Rightarrow> hspi_hw \<Rightarrow> hspi_fns \<Rightarrow> (u32 \<Rightarrow> u32 \<Rightarrow> hspi_world \<Rightarrow> hspi_world option) \<Rightarrow>
    u32 list \<times> hspi_world \<Rightarrow> u32 list \<times> hspi_world \<Rightarrow> bool" for bd b hw fns env where
  step_app: "app_step bd fns {} (hs, w) (hs', w') \<Longrightarrow> hspi_step bd b hw fns env (hs, w) (hs', w')"
| step_irq: "length junk = 4 \<Longrightarrow> HSPI_IRQHandler bd b hw fns junk w = Some w' \<Longrightarrow>
    hspi_step bd b hw fns env (hs, w) (hs, w')"
| step_run: "length var = 16 \<Longrightarrow> \<forall>t ts. iq_tasks w = t # ts \<longrightarrow> task_task t \<noteq> fn_hspi_rx_callback fns \<Longrightarrow>
    hydra_interrupt_queue_run (hspi_call b hw fns var env) var w = Some w' \<Longrightarrow>
    hspi_step bd b hw fns env (hs, w) (hs, w')"
| step_run_rx: "length var = 16 \<Longrightarrow> iq_tasks w = t # ts \<Longrightarrow> task_task t = fn_hspi_rx_callback fns \<Longrightarrow>
    task_queue_read1 var w = Some (n, v, w0) \<Longrightarrow> rx_handled bd fns hw (task_args t) (hs, w0) (hs', w1) \<Longrightarrow>
    hydra_interrupt_queue_run (hspi_call b hw fns var env) var w = Some w' \<Longrightarrow>
    hspi_step bd b hw fns env (hs, w) (hs', w')"

inductive_cases hspi_stepE: "hspi_step bd b hw fns env s s'"




section \<open>Initialisation\<close>

lemma frame_registers [simp]:
  "hspi_frame u (w\<lparr>R32_PA_DIR := v32\<rparr>) = hspi_frame u w" "hspi_frame u (w\<lparr>R32_PA_DRV := v32\<rparr>) = hspi_frame u w"
  "hspi_frame u (w\<lparr>R8_HSPI_CFG := v8\<rparr>) = hspi_frame u w" "hspi_frame u (w\<lparr>R8_HSPI_AUX := v8\<rparr>) = hspi_frame u w"
  "hspi_frame u (w\<lparr>R8_HSPI_CTRL := v8\<rparr>) = hspi_frame u w" "hspi_frame u (w\<lparr>R8_HSPI_INT_EN := v8\<rparr>) = hspi_frame u w"
  "hspi_frame u (w\<lparr>R8_HSPI_RX_SC := v8\<rparr>) = hspi_frame u w" "hspi_frame u (w\<lparr>R8_HSPI_TX_SC := v8\<rparr>) = hspi_frame u w"
  "hspi_frame u (w\<lparr>R32_HSPI_UDF0 := v32\<rparr>) = hspi_frame u w" "hspi_frame u (w\<lparr>R32_HSPI_UDF1 := v32\<rparr>) = hspi_frame u w"
  "hspi_frame u (w\<lparr>R32_HSPI_TX_ADDR0 := v32\<rparr>) = hspi_frame u w" "hspi_frame u (w\<lparr>R32_HSPI_TX_ADDR1 := v32\<rparr>) = hspi_frame u w"
  "hspi_frame u (w\<lparr>R32_HSPI_RX_ADDR0 := v32\<rparr>) = hspi_frame u w" "hspi_frame u (w\<lparr>R32_HSPI_RX_ADDR1 := v32\<rparr>) = hspi_frame u w"
  "hspi_frame u (w\<lparr>R16_HSPI_DMA_LEN0 := v16\<rparr>) = hspi_frame u w" "hspi_frame u (w\<lparr>R16_HSPI_DMA_LEN1 := v16\<rparr>) = hspi_frame u w"
  "hspi_frame u (w\<lparr>R16_HSPI_RX_LEN0 := v16\<rparr>) = hspi_frame u w" "hspi_frame u (w\<lparr>R16_HSPI_RX_LEN1 := v16\<rparr>) = hspi_frame u w"
  "hspi_frame u (w\<lparr>R16_HSPI_BURST_CFG := v16\<rparr>) = hspi_frame u w"
  by (simp_all add: hspi_frame_def hspi_same_def dma_buffers_def)








section \<open>Properties of every history\<close>




section \<open>The free that the header asks for\<close>

text \<open>
  \<open>hspi_scheduled.h\<close> tells the user to free the buffer the reception callback is given, but
  \<open>_hspi_cleanup\<close> frees it once more after the callback. When somebody else owns the buffer by then, the
  second free takes that owner's reference: a callback that sends the packet on and then frees it as
  documented leaves the queued transmission with a buffer that nobody owns.
\<close>

definition forward_and_free :: "hspi_build \<Rightarrow> hspi_fns \<Rightarrow> u8 list \<Rightarrow> u32 \<Rightarrow> u16 \<Rightarrow> u16 \<Rightarrow> hspi_world \<Rightarrow> hspi_world option" where
  "forward_and_free bd fns junk buf sz cr w = do {
     (r, w1) \<leftarrow> hspi_send bd fns junk buf sz cr w;
     (rp, c) \<leftarrow> ramx_pool_free (iq_crit w1) (ramx_pool w1) buf;
     Some (w1\<lparr>iq_crit := c, ramx_pool := rp\<rparr>) }"

theorem hspi_documented_free_dangles:
  assumes "hspi_hist bd fns D [] hs w" and "iq_tasks w = t # ts" and "task_task t = fn_hspi_rx_callback fns"
    and "user_rx_callback hw = forward_and_free bd fns junk" and "length junk = 4" and "length var = 16" and "fns_ok fns"
    and "buf = args_buffer (memory w) (task_args t)" and "ramx_owners (ramx_pool w) buf = 1"
    and "ramx_address_in_pool (ramx_pool w) buf" and "args_size (memory w) (task_args t) \<le> hspi_packet_size w"
    and "args_free w j" and "length (iq_tasks w) \<le> iq_cap w"
  shows "\<exists>w'. hydra_interrupt_queue_run (hspi_call b hw fns var env) var w = Some w' \<and>
    iq_tasks w' = ts @ [send_task fns junk (args_addr w j)] \<and> args_buffer (memory w') (args_addr w j) = buf \<and>
    ramx_owners (ramx_pool w') buf = 0"
proof -
  let ?a = "task_args t" and ?n = "args_size (memory w) (task_args t)" and ?r = "args_custom_register (memory w) (task_args t)"
  from task_queue_read1_first [OF hspi_staticD(2) [OF hspi_histD(1) [OF assms(1)]] assms(2,6)] obtain v' q' where
    q': "task_queue_read1 var w = Some (1, v', w\<lparr>task_queue := q'\<rparr>)" "iq_tasks (w\<lparr>task_queue := q'\<rparr>) = ts"
    "iq_cap (w\<lparr>task_queue := q'\<rparr>) = iq_cap w" by blast
  from run_takes [OF assms(1,2,6,7), of b hw env] obtain v q where
    read: "task_queue_read1 var w = Some (1, v, w\<lparr>task_queue := q\<rparr>)"
    and hist: "hspi_hist bd fns D [?a] hs (w\<lparr>task_queue := q\<rparr>)" and nn: "?a \<noteq> 0"
    and run: "hydra_interrupt_queue_run (hspi_call b hw fns var env) var w = do {
      w2 \<leftarrow> hspi_call b hw fns var env (task_task t) ?a (w\<lparr>task_queue := q\<rparr>);
      hspi_cleanup ?a w2 }" by blast
  define w0 where "w0 = w\<lparr>task_queue := q\<rparr>"
  have w0: "iq_tasks w0 = ts" "length (iq_tasks w0) < iq_cap w0" "ramx_pool w0 = ramx_pool w" "memory w0 = memory w"
    "hspi_arg_pool w0 = hspi_arg_pool w" "hspi_packet_size w0 = hspi_packet_size w" "iq_crit w0 = iq_crit w"
    using read q' assms(2,13) by (simp_all add: w0_def)
  note hist0 = hist [folded w0_def]
  note h = hspi_histD [OF hist0] and d = hspi_staticD [OF hspi_histD(1) [OF hist0]]
  have b: "buf \<noteq> 0" using assms(10) null_not_in_pool [OF h(1)] w0(3) by auto
  obtain i where i: "i \<in> run_starts 0 (xp_blocks (ramx_pool w0))" "buf = xblock_addr (ramx_pool w0) i"
    "ramx_owners (ramx_pool w0) buf = unat (xp_refs (ramx_pool w0) ! i)"
    using ramx_owners_pos [OF d(4), of buf] assms(9) w0(3) by (metis zero_less_one)
  then have refs: "xp_refs (ramx_pool w0) ! i < 255" using assms(9) w0(3) by (simp add: word_less_nat_alt)
  have free: "args_free w0 j" using assms(12) by (simp add: args_free_def w0)
  obtain w1 where w1: "hspi_send bd fns junk buf ?n ?r w0 = Some (True, w1)" "iq_tasks w1 = ts @ [send_task fns junk (args_addr w j)]"
    "args_buffer (memory w1) (args_addr w j) = buf" "ramx_owners (ramx_pool w1) buf = 2"
    using hspi_send_zero_copy [OF d(1) free i(1) _ refs w0(2) assms(5), of fns ?n ?r] assms(9,10) i(2) w0 by auto
  have "buf \<in># hspi_refs [?a] hs w0" using b by (simp add: hspi_refs_def args_held_def w0 assms(8))
  then have "sendable buf ?n w0 (insert 0 (set_mset (hspi_refs [?a] hs w0)))"
    using assms(9,11) by (simp add: sendable_def w0)
  from send_step [OF hist0 this assms(5), of ?r] w1(1) have k: "hspi_hist bd fns D [?a] hs w1"
    "args_buffer (memory w1) ?a = buf" by (auto simp: keeps_def w0 assms(8))
  note h1 = hspi_histD [OF k(1)]
  obtain rp where rp: "ramx_pool_free (iq_crit w1) (ramx_pool w1) buf = Some (rp, iq_crit w1)" "ramx_inv (POOL_BLOCK_NUM bd) rp"
    "ramx_owners rp = (ramx_owners (ramx_pool w1))(buf := ramx_owners (ramx_pool w1) buf - 1)"
    "xp_pool rp = xp_pool (ramx_pool w1)" "xp_block_size rp = xp_block_size (ramx_pool w1)"
    using free_live [OF h1(1), of buf] w1(4) by auto
  let ?w2 = "w1\<lparr>ramx_pool := rp\<rparr>"
  have st2: "hspi_static bd ?w2" by (rule static_ramx [OF h1(1) rp(2,4,5)])
  obtain rp' where rp': "ramx_pool_free (iq_crit w1) rp buf = Some (rp', iq_crit w1)" "ramx_owners rp' buf = 0"
    using free_live [OF st2, of buf] w1(4) rp(3) by auto
  obtain m where m: "m < unat (pool_size (hspi_arg_pool w1))" "pool_manager (hspi_arg_pool w1) ! m" "?a = args_addr w1 m"
    using h1(4) [of ?a] by (auto simp: args_held_def pool_used_def)
  note d1 = hspi_staticD [OF h1(1)]
  have cleanup: "\<exists>ap. hspi_cleanup ?a ?w2 = Some (?w2\<lparr>ramx_pool := rp', hspi_arg_pool := ap, iq_crit := iq_crit w1\<rparr>)"
    using pool_free_used [OF d1(3,5) m(1,2)]
    by (intro exI [of _ "(hspi_arg_pool w1)\<lparr>pool_manager := (pool_manager (hspi_arg_pool w1))[m := False]\<rparr>"])
      (simp add: hspi_cleanup_def k(2) rp'(1) flip: m(3))
  have "user_rx_callback hw buf ?n ?r w0 = Some ?w2"
    using w1(1) rp(1) by (simp add: assms(4) forward_and_free_def)
  then have "hspi_call b hw fns var env (task_task t) ?a w0 = Some ?w2"
    using nn hspi_call_fns(2) [OF assms(7)] by (simp add: assms(3,8) hspi_rx_callback_task_def w0)
  then show ?thesis
    using run cleanup w1(2,3) rp'(2) by (auto simp: iq_tasks_def simp flip: w0_def)
qed

section \<open>A concrete system\<close>
















end
