(* ===== verification/Usb_Types.thy ===== *)
theory Usb_Types
  imports Critical_Section
begin

text \<open>
  The types of the USB stack (\<open>usb/usb_types.h\<close>, \<open>usb/usb_descriptors.h\<close>, \<open>usb/usb_endpoints.h\<close> and
  the device of \<open>usb/usb_device.h\<close>) and the state both backends share: the critical section, raw
  memory (descriptors, endpoint buffers) and the two device objects.

  Handlers are function pointers in the code. A pointer is either one of the default handlers of
  \<open>usb_device.c\<close> or the address of a function of the user, whose effect is a parameter (\<open>usb_env\<close>).
  \<open>None\<close> stands for undefined behaviour or a call that does not return.

  The constants and struct layouts that come from the BSP and not from the repository are the
  record \<open>usb_consts\<close>; \<open>usb_consts_ok\<close> states the values the USB specification fixes for requests and
  descriptors and the properties of the control-register fields the code relies on.
\<close>

section \<open>Constants of the repository\<close>

definition ENDP_STATE_ACK :: u8 where "ENDP_STATE_ACK = 0x00"
definition ENDP_STATE_NAK :: u8 where "ENDP_STATE_NAK = 0x02"
definition ENDP_STATE_STALL :: u8 where "ENDP_STATE_STALL = 0x03"

definition USB_DESCR_TYP_BOS :: u8 where "USB_DESCR_TYP_BOS = 0x0f"
definition USB_DESCR_UNSUPPORTED :: u16 where "USB_DESCR_UNSUPPORTED = 0xffff"
definition INVALID_REQ_CODE :: u8 where "INVALID_REQ_CODE = 0xFF"
definition ENDPOINT_HALT :: u16 where "ENDPOINT_HALT = 0"

definition ep_OUT :: u8 where "ep_OUT = 0x00"
definition ep_IN :: u8 where "ep_IN = 0x80"

lemmas endp_state_defs = ENDP_STATE_ACK_def ENDP_STATE_NAK_def ENDP_STATE_STALL_def

text \<open>\<open>ENDPOINT_n_TX\<close> and \<open>ENDPOINT_n_RX\<close>, for \<open>n\<close> from 1 to 15.\<close>

definition ENDPOINT_TX :: "nat \<Rightarrow> u32" where "ENDPOINT_TX n = push_bit (2 * (n - 1)) 1"
definition ENDPOINT_RX :: "nat \<Rightarrow> u32" where "ENDPOINT_RX n = push_bit (2 * (n - 1) + 1) 1"

datatype TRANSACTION_STATUS = Ack | Nak | Stall | Nyet | Nrdy | Erdy

datatype USB_DEVICE_STATE = DETACHED | ATTACHED | POWERED | DEFAULT | ADDRESS | CONFIGURED | SUSPENDED

datatype USB_DEVICE_SPEED = SPEED_NONE | USB2_HIGHSPEED | USB2_FULLSPEED | USB2_LOWSPEED | USB30_SUPERSPEED

section \<open>Setup packets\<close>

record USB_SETUP =
  bRequestType :: u8
  bRequest :: u8
  wValue :: u16
  wIndex :: u16
  wLength :: u16

definition bb1 :: "u16 \<Rightarrow> u8" where "bb1 v = ucast v"
definition bb0 :: "u16 \<Rightarrow> u8" where "bb0 v = ucast (drop_bit 8 v)"

definition load_setup :: "mem \<Rightarrow> u32 \<Rightarrow> USB_SETUP" where
  "load_setup m p = \<lparr>bRequestType = m p, bRequest = m (p + 1), wValue = load_u16 m (p + 2),
     wIndex = load_u16 m (p + 4), wLength = load_u16 m (p + 6)\<rparr>"

lemma load_setup_write:
  "load_setup (mem_write a [b0, b1, b2, b3, b4, b5, b6, b7] m) a = \<lparr>bRequestType = b0, bRequest = b1,
     wValue = ucast b2 OR push_bit 8 (ucast b3), wIndex = ucast b4 OR push_bit 8 (ucast b5),
     wLength = ucast b6 OR push_bit 8 (ucast b7)\<rparr>"
proof -
  have at: "mem_write a [b0, b1, b2, b3, b4, b5, b6, b7] m (a + of_nat i) = [b0, b1, b2, b3, b4, b5, b6, b7] ! i" if "i < 8" for i
    using that by (intro mem_write_at) simp_all
  show ?thesis
    using at [of 0] at [of 1] at [of 2] at [of 3] at [of 4] at [of 5] at [of 6] at [of 7]
    by (simp add: load_setup_def load_u16_def add.assoc)
qed

section \<open>Endpoints and devices\<close>

record usb_endpoint =
  ep_buffer :: u32
  ep_max_burst :: u8
  ep_max_packet_size :: u16
  ep_max_packet_size_with_burst :: u16
  ep_state :: u8

datatype usb_handler = Default_handler | User_handler u32

record usb_endpoints =
  ep_tx :: "nat \<Rightarrow> usb_endpoint"
  ep_rx :: "nat \<Rightarrow> usb_endpoint"
  endp0_user_handled_control_request :: usb_handler
  endp0_passthrough_setup_callback :: usb_handler
  tx_complete :: "nat \<Rightarrow> usb_handler"
  rx_callback :: "nat \<Rightarrow> usb_handler"
  nak_callback :: usb_handler

record USB23_DEVICE_DESCRIPTORS =
  usb2_device_descr :: u32
  usb3_device_descr :: u32
  usb_device_qualifier_descr :: u32
  usb2_device_config_descrs :: u32
  usb3_device_config_descrs :: u32
  usb_string_descrs :: u32
  usb_bos_descr :: u32

record usb_device =
  dev_addr :: u8
  usb_descriptors :: USB23_DEVICE_DESCRIPTORS
  current_config :: u8
  current_interface :: u8
  dev_state :: USB_DEVICE_STATE
  dev_speed :: USB_DEVICE_SPEED
  endpoint_mask :: u32
  endpoints :: usb_endpoints

datatype usb_device_id = Usb_device_0 | Usb_device_1

record usb_world =
  usb_crit :: crit
  usb_memory :: mem
  usb_devices :: "usb_device_id \<Rightarrow> usb_device"

definition upd_device :: "usb_device_id \<Rightarrow> (usb_device \<Rightarrow> usb_device) \<Rightarrow> 'a usb_world_scheme \<Rightarrow> 'a usb_world_scheme" where
  "upd_device d f w = w\<lparr>usb_devices := (usb_devices w)(d := f (usb_devices w d))\<rparr>"

text \<open>\<open>endpoints.tx[n].state = v\<close> and the like.\<close>

definition upd_ep_tx :: "nat \<Rightarrow> (usb_endpoint \<Rightarrow> usb_endpoint) \<Rightarrow> usb_device \<Rightarrow> usb_device" where
  "upd_ep_tx n f v = v\<lparr>endpoints := (endpoints v)\<lparr>ep_tx := (ep_tx (endpoints v))(n := f (ep_tx (endpoints v) n))\<rparr>\<rparr>"

definition upd_ep_rx :: "nat \<Rightarrow> (usb_endpoint \<Rightarrow> usb_endpoint) \<Rightarrow> usb_device \<Rightarrow> usb_device" where
  "upd_ep_rx n f v = v\<lparr>endpoints := (endpoints v)\<lparr>ep_rx := (ep_rx (endpoints v))(n := f (ep_rx (endpoints v) n))\<rparr>\<rparr>"

lemma upd_device_simps [simp]:
  "usb_devices (upd_device d f w) e = (if e = d then f (usb_devices w d) else usb_devices w e)"
  "usb_memory (upd_device d f w) = usb_memory w" "usb_crit (upd_device d f w) = usb_crit w"
  "usb_world.more (upd_device d f w) = usb_world.more w"
  by (simp_all add: upd_device_def)

lemma upd_ep_simps [simp]:
  "ep_tx (endpoints (upd_ep_tx n f v)) i = (if i = n then f (ep_tx (endpoints v) n) else ep_tx (endpoints v) i)"
  "ep_rx (endpoints (upd_ep_tx n f v)) = ep_rx (endpoints v)"
  "ep_rx (endpoints (upd_ep_rx n f v)) i = (if i = n then f (ep_rx (endpoints v) n) else ep_rx (endpoints v) i)"
  "ep_tx (endpoints (upd_ep_rx n f v)) = ep_tx (endpoints v)"
  "endp0_user_handled_control_request (endpoints (upd_ep_tx n f v)) = endp0_user_handled_control_request (endpoints v)"
  "endp0_user_handled_control_request (endpoints (upd_ep_rx n f v)) = endp0_user_handled_control_request (endpoints v)"
  "tx_complete (endpoints (upd_ep_tx n f v)) = tx_complete (endpoints v)"
  "tx_complete (endpoints (upd_ep_rx n f v)) = tx_complete (endpoints v)"
  "rx_callback (endpoints (upd_ep_tx n f v)) = rx_callback (endpoints v)"
  "rx_callback (endpoints (upd_ep_rx n f v)) = rx_callback (endpoints v)"
  "dev_state (upd_ep_tx n f v) = dev_state v" "dev_state (upd_ep_rx n f v) = dev_state v"
  "dev_addr (upd_ep_tx n f v) = dev_addr v" "dev_addr (upd_ep_rx n f v) = dev_addr v"
  "dev_speed (upd_ep_tx n f v) = dev_speed v" "dev_speed (upd_ep_rx n f v) = dev_speed v"
  "usb_descriptors (upd_ep_tx n f v) = usb_descriptors v" "usb_descriptors (upd_ep_rx n f v) = usb_descriptors v"
  "endpoint_mask (upd_ep_tx n f v) = endpoint_mask v" "endpoint_mask (upd_ep_rx n f v) = endpoint_mask v"
  by (simp_all add: upd_ep_tx_def upd_ep_rx_def)

section \<open>The environment\<close>

datatype usb_irqn = USBHS_IRQn | USBSS_IRQn | LINK_IRQn

text \<open>What the user's handlers, the BSP and the hardware do: the handlers by address; the effect of a
  write to a flag register, which clears bits instead of storing them; the state after one more
  round of a polling loop.\<close>

record 'w usb_env =
  env_control_request :: "u32 \<Rightarrow> USB_SETUP \<Rightarrow> bool \<Rightarrow> 'w \<Rightarrow> (u16 \<times> u32 \<times> 'w) option"
  env_passthrough_setup :: "u32 \<Rightarrow> u32 \<Rightarrow> u16 \<Rightarrow> 'w \<Rightarrow> (u8 \<times> 'w) option"
  env_tx_complete :: "u32 \<Rightarrow> TRANSACTION_STATUS \<Rightarrow> 'w \<Rightarrow> 'w option"
  env_rx_callback :: "u32 \<Rightarrow> u32 \<Rightarrow> u16 \<Rightarrow> 'w \<Rightarrow> (u8 \<times> 'w) option"
  env_nak_callback :: "u32 \<Rightarrow> u8 \<Rightarrow> 'w \<Rightarrow> 'w option"
  env_bus_reset :: "u32 \<Rightarrow> 'w \<Rightarrow> 'w option"
  PFIC_EnableIRQ :: "usb_irqn \<Rightarrow> 'w \<Rightarrow> 'w"
  PFIC_DisableIRQ :: "usb_irqn \<Rightarrow> 'w \<Rightarrow> 'w"
  bsp_wait_ms_delay :: "u32 \<Rightarrow> 'w \<Rightarrow> 'w"
  bsp_wait_us_delay :: "u32 \<Rightarrow> 'w \<Rightarrow> 'w"
  poll_step :: "'w \<Rightarrow> 'w"
  usb_int_fg_write :: "u8 \<Rightarrow> u8 \<Rightarrow> u8"
  link_int_flag_write :: "u32 \<Rightarrow> u32 \<Rightarrow> u32"
  usb_status_write :: "u32 \<Rightarrow> u32 \<Rightarrow> u32"

section \<open>Constants of the BSP\<close>

datatype uep = UEP0 | UEP1 | UEP2 | UEP3 | UEP4 | UEP5 | UEP6 | UEP7

record usb_consts =
  USB_REQ_TYP_MASK :: u8
  USB_REQ_TYP_STANDARD :: u8
  USB_REQ_TYP_IN :: u8
  USB_GET_STATUS :: u8
  USB_CLEAR_FEATURE :: u8
  USB_SET_FEATURE :: u8
  USB_SET_ADDRESS :: u8
  USB_GET_DESCRIPTOR :: u8
  USB_GET_CONFIGURATION :: u8
  USB_SET_CONFIGURATION :: u8
  USB_GET_INTERFACE :: u8
  USB_SET_INTERFACE :: u8
  USB_DESCR_TYP_DEVICE :: u8
  USB_DESCR_TYP_CONFIG :: u8
  USB_DESCR_TYP_STRING :: u8
  sizeof_USB_DEV_DESCR :: u16
  off_DEV_bLength :: u32
  off_DEV_bMaxPacketSize0 :: u32
  off_CFG_wTotalLength :: u32
  UCST_HS :: u8
  UCST_FS :: u8
  UCST_LS :: u8
  RB_DEV_PU_EN :: u8
  RB_USB_INT_BUSY :: u8
  RB_USB_DMA_EN :: u8
  RB_USB_IE_SETUPACT :: u8
  RB_USB_IE_TRANS :: u8
  RB_USB_IE_SUSPEND :: u8
  RB_USB_IE_BUSRST :: u8
  RB_USB_IE_FIFOOV :: u8
  RB_USB_IE_DEV_NAK :: u8
  RB_USB_CLR_ALL :: u8
  RB_USB_RESET_SIE :: u8
  RB_UEP_TX_EN :: "uep \<Rightarrow> u8"
  RB_UEP_RX_EN :: "uep \<Rightarrow> u8"
  RB_UEP_T_TOG_0 :: u8
  RB_UEP_T_TOG_1 :: u8
  RB_UEP_R_TOG_0 :: u8
  RB_UEP_R_TOG_1 :: u8
  UEP_T_RES_ACK :: u8
  UEP_T_RES_NAK :: u8
  UEP_T_RES_STALL :: u8
  UEP_R_RES_ACK :: u8
  UEP_R_RES_NAK :: u8
  RB_UEP_TRES_MASK :: u8
  RB_UEP_RRES_MASK :: u8
  RB_DEV_ENDP_MASK :: u8
  RB_DEV_TOKEN_MASK :: u8
  RB_USB_ST_TOGOK :: u8
  RB_USB_ST_NAK :: u8
  RB_USB_IF_SETUOACT :: u8
  RB_USB_IF_TRANSFER :: u8
  RB_USB_IF_SUSPEND :: u8
  RB_USB_IF_FIFOOV :: u8
  RB_USB_IF_BUSRST :: u8

text \<open>The USB specification's request and descriptor codes.\<close>

definition usb_requests_ok :: "'a usb_consts_scheme \<Rightarrow> bool" where
  "usb_requests_ok k \<longleftrightarrow> USB_REQ_TYP_MASK k = 0x60 \<and> USB_REQ_TYP_STANDARD k = 0 \<and> USB_REQ_TYP_IN k = 0x80 \<and>
     USB_GET_STATUS k = 0 \<and> USB_CLEAR_FEATURE k = 1 \<and> USB_SET_FEATURE k = 3 \<and> USB_SET_ADDRESS k = 5 \<and>
     USB_GET_DESCRIPTOR k = 6 \<and> USB_GET_CONFIGURATION k = 8 \<and> USB_SET_CONFIGURATION k = 9 \<and>
     USB_GET_INTERFACE k = 10 \<and> USB_SET_INTERFACE k = 11 \<and>
     USB_DESCR_TYP_DEVICE k = 1 \<and> USB_DESCR_TYP_CONFIG k = 2 \<and> USB_DESCR_TYP_STRING k = 3"

text \<open>The response field of an endpoint control register holds the responses, which have the values
  of the \<open>ENDP_STATE_\<close> codes; the toggle lies outside it.\<close>

definition uep_fields_ok :: "'a usb_consts_scheme \<Rightarrow> bool" where
  "uep_fields_ok k \<longleftrightarrow> RB_UEP_TRES_MASK k = 3 \<and> RB_UEP_RRES_MASK k = 3 \<and>
     UEP_T_RES_ACK k = ENDP_STATE_ACK \<and> UEP_R_RES_ACK k = ENDP_STATE_ACK \<and>
     UEP_T_RES_NAK k = ENDP_STATE_NAK \<and> UEP_R_RES_NAK k = ENDP_STATE_NAK \<and>
     UEP_T_RES_STALL k = ENDP_STATE_STALL \<and>
     RB_UEP_T_TOG_0 k = 0 \<and> RB_UEP_R_TOG_0 k = 0 \<and>
     RB_UEP_T_TOG_1 k \<noteq> 0 \<and> RB_UEP_T_TOG_1 k AND 3 = 0 \<and> RB_UEP_R_TOG_1 k = RB_UEP_T_TOG_1 k"

text \<open>The fields of the interrupt status and flag registers do not overlap.\<close>

definition usb_status_ok :: "'a usb_consts_scheme \<Rightarrow> bool" where
  "usb_status_ok k \<longleftrightarrow> RB_DEV_ENDP_MASK k = 0xf \<and> RB_DEV_TOKEN_MASK k = 0x30 \<and>
     RB_USB_ST_TOGOK k = 0x40 \<and> RB_USB_ST_NAK k = 0x80 \<and>
     RB_USB_IF_TRANSFER k \<noteq> 0 \<and> RB_USB_IF_TRANSFER k AND RB_USB_IF_SETUOACT k = 0"

section \<open>Memory accesses through pointers\<close>

text \<open>Dereferencing \<open>NULL\<close> is undefined; so is \<open>memcpy\<close> from or to it.\<close>

definition non_null :: "u32 \<Rightarrow> unit option" where
  "non_null p = (if p = 0 then None else Some ())"

definition usb_memcpy :: "u32 \<Rightarrow> u32 \<Rightarrow> u16 \<Rightarrow> 'a usb_world_scheme \<Rightarrow> 'a usb_world_scheme option" where
  "usb_memcpy dst src n w =
     (if dst = 0 \<or> src = 0 then None
      else Some (w\<lparr>usb_memory := mem_copy dst src (unat n) (usb_memory w)\<rparr>))"

lemma non_null_Some [simp]: "non_null p = Some x \<longleftrightarrow> p \<noteq> 0" "p \<noteq> 0 \<Longrightarrow> non_null p = Some ()"
  by (auto simp: non_null_def)

lemma usb_memcpy_simps [simp]:
  "dst \<noteq> 0 \<Longrightarrow> src \<noteq> 0 \<Longrightarrow>
     usb_memcpy dst src n w = Some (w\<lparr>usb_memory := mem_copy dst src (unat n) (usb_memory w)\<rparr>)"
  by (simp add: usb_memcpy_def)

end
