(* ===== verification/Usb_Device.thy ===== *)
theory Usb_Device
  imports Usb_Types
begin

text \<open>
  \<open>usb/usb_device.c\<close> and \<open>.h\<close>: the device objects, their default handlers, the setters, and the
  operations by which the application drives endpoints. These last reach the backends through the
  function pointers of \<open>usb2_endpoints_backend_handled\<close> and \<open>usb3_endpoints_backend_handled\<close>, here the
  record \<open>usb_backends\<close>; the backends fill it in with their own definitions. The locale
  \<open>usb_tx_backend\<close> states what the device layer needs of a backend to transmit, and proves
  \<open>endp_tx_set_new_buffer\<close> for every backend that keeps the contract.
\<close>

section \<open>Handlers\<close>

definition default_endp0_user_handled_control_request :: u16 where
  "default_endp0_user_handled_control_request = 0xffff"

definition default_endp0_passthrough_setup_callback :: u8 where
  "default_endp0_passthrough_setup_callback = ENDP_STATE_ACK"

definition default_endp_rx_callback :: u8 where
  "default_endp_rx_callback = ENDP_STATE_STALL"

definition call_control_request ::
    "'w usb_env \<Rightarrow> usb_handler \<Rightarrow> USB_SETUP \<Rightarrow> bool \<Rightarrow> 'w \<Rightarrow> (u16 \<times> u32 \<times> 'w) option" where
  "call_control_request e h req with_buffer w = (case h of
     Default_handler \<Rightarrow> Some (default_endp0_user_handled_control_request, 0, w)
   | User_handler a \<Rightarrow> env_control_request e a req with_buffer w)"

definition call_passthrough_setup :: "'w usb_env \<Rightarrow> usb_handler \<Rightarrow> u32 \<Rightarrow> u16 \<Rightarrow> 'w \<Rightarrow> (u8 \<times> 'w) option" where
  "call_passthrough_setup e h ptr n w = (case h of
     Default_handler \<Rightarrow> Some (default_endp0_passthrough_setup_callback, w)
   | User_handler a \<Rightarrow> env_passthrough_setup e a ptr n w)"

definition call_tx_complete :: "'w usb_env \<Rightarrow> usb_handler \<Rightarrow> TRANSACTION_STATUS \<Rightarrow> 'w \<Rightarrow> 'w option" where
  "call_tx_complete e h st w = (case h of Default_handler \<Rightarrow> Some w | User_handler a \<Rightarrow> env_tx_complete e a st w)"

definition call_rx_callback :: "'w usb_env \<Rightarrow> usb_handler \<Rightarrow> u32 \<Rightarrow> u16 \<Rightarrow> 'w \<Rightarrow> (u8 \<times> 'w) option" where
  "call_rx_callback e h ptr n w = (case h of
     Default_handler \<Rightarrow> Some (default_endp_rx_callback, w)
   | User_handler a \<Rightarrow> env_rx_callback e a ptr n w)"

definition call_nak_callback :: "'w usb_env \<Rightarrow> usb_handler \<Rightarrow> u8 \<Rightarrow> 'w \<Rightarrow> 'w option" where
  "call_nak_callback e h ep w = (case h of Default_handler \<Rightarrow> Some w | User_handler a \<Rightarrow> env_nak_callback e a ep w)"

section \<open>The device objects\<close>

definition usb_endpoint_zero :: usb_endpoint where
  "usb_endpoint_zero = \<lparr>ep_buffer = 0, ep_max_burst = 0, ep_max_packet_size = 0,
     ep_max_packet_size_with_burst = 0, ep_state = 0\<rparr>"

text \<open>The initialiser of both \<open>usb_device_0\<close> and \<open>usb_device_1\<close>.\<close>

definition usb_device_initial :: usb_device where
  "usb_device_initial = \<lparr>dev_addr = 0,
     usb_descriptors = \<lparr>usb2_device_descr = 0, usb3_device_descr = 0, usb_device_qualifier_descr = 0,
       usb2_device_config_descrs = 0, usb3_device_config_descrs = 0, usb_string_descrs = 0, usb_bos_descr = 0\<rparr>,
     current_config = 0, current_interface = 0, dev_state = DETACHED, dev_speed = USB2_HIGHSPEED, endpoint_mask = 0,
     endpoints = \<lparr>ep_tx = (\<lambda>_. usb_endpoint_zero), ep_rx = (\<lambda>_. usb_endpoint_zero),
       endp0_user_handled_control_request = Default_handler, endp0_passthrough_setup_callback = Default_handler,
       tx_complete = (\<lambda>_. Default_handler), rx_callback = (\<lambda>_. Default_handler), nak_callback = Default_handler\<rparr>\<rparr>"

definition usb_device_set_addr :: "usb_device_id \<Rightarrow> u8 \<Rightarrow> 'a usb_world_scheme \<Rightarrow> 'a usb_world_scheme" where
  "usb_device_set_addr d a w = (if a \<le> 0x7f then upd_device d (\<lambda>v. v\<lparr>dev_addr := a\<rparr>) w else w)"

definition usb_device_set_usb2_device_descriptor ::
    "usb_device_id \<Rightarrow> u32 \<Rightarrow> 'a usb_world_scheme \<Rightarrow> 'a usb_world_scheme" where
  "usb_device_set_usb2_device_descriptor d p =
     upd_device d (\<lambda>v. v\<lparr>usb_descriptors := (usb_descriptors v)\<lparr>usb2_device_descr := p\<rparr>\<rparr>)"

definition usb_device_set_usb3_device_descriptor ::
    "usb_device_id \<Rightarrow> u32 \<Rightarrow> 'a usb_world_scheme \<Rightarrow> 'a usb_world_scheme" where
  "usb_device_set_usb3_device_descriptor d p =
     upd_device d (\<lambda>v. v\<lparr>usb_descriptors := (usb_descriptors v)\<lparr>usb3_device_descr := p\<rparr>\<rparr>)"

definition usb_device_set_device_qualifier_descriptor ::
    "usb_device_id \<Rightarrow> u32 \<Rightarrow> 'a usb_world_scheme \<Rightarrow> 'a usb_world_scheme" where
  "usb_device_set_device_qualifier_descriptor d p =
     upd_device d (\<lambda>v. v\<lparr>usb_descriptors := (usb_descriptors v)\<lparr>usb_device_qualifier_descr := p\<rparr>\<rparr>)"

definition usb_device_set_usb2_config_descriptors ::
    "usb_device_id \<Rightarrow> u32 \<Rightarrow> 'a usb_world_scheme \<Rightarrow> 'a usb_world_scheme" where
  "usb_device_set_usb2_config_descriptors d p =
     upd_device d (\<lambda>v. v\<lparr>usb_descriptors := (usb_descriptors v)\<lparr>usb2_device_config_descrs := p\<rparr>\<rparr>)"

definition usb_device_set_usb3_config_descriptors ::
    "usb_device_id \<Rightarrow> u32 \<Rightarrow> 'a usb_world_scheme \<Rightarrow> 'a usb_world_scheme" where
  "usb_device_set_usb3_config_descriptors d p =
     upd_device d (\<lambda>v. v\<lparr>usb_descriptors := (usb_descriptors v)\<lparr>usb3_device_config_descrs := p\<rparr>\<rparr>)"

definition usb_device_set_bos_descriptor ::
    "usb_device_id \<Rightarrow> u32 \<Rightarrow> 'a usb_world_scheme \<Rightarrow> 'a usb_world_scheme" where
  "usb_device_set_bos_descriptor d p =
     upd_device d (\<lambda>v. v\<lparr>usb_descriptors := (usb_descriptors v)\<lparr>usb_bos_descr := p\<rparr>\<rparr>)"

definition usb_device_set_string_descriptors ::
    "usb_device_id \<Rightarrow> u32 \<Rightarrow> 'a usb_world_scheme \<Rightarrow> 'a usb_world_scheme" where
  "usb_device_set_string_descriptors d p =
     upd_device d (\<lambda>v. v\<lparr>usb_descriptors := (usb_descriptors v)\<lparr>usb_string_descrs := p\<rparr>\<rparr>)"

definition usb_device_set_endpoint_mask ::
    "usb_device_id \<Rightarrow> u32 \<Rightarrow> 'a usb_world_scheme \<Rightarrow> 'a usb_world_scheme" where
  "usb_device_set_endpoint_mask d m = upd_device d (\<lambda>v. v\<lparr>endpoint_mask := m\<rparr>)"

section \<open>Driving endpoints\<close>

record 'w usb_backends =
  be_usb2_endp_tx_ready :: "u8 \<Rightarrow> u16 \<Rightarrow> 'w \<Rightarrow> 'w option"
  be_usb2_endp_rx_set_state_callback :: "u8 \<Rightarrow> 'w \<Rightarrow> 'w option"
  be_usb2_endp_tx_set_state_callback :: "u8 \<Rightarrow> 'w \<Rightarrow> 'w option"
  be_usb3_endp_tx_ready :: "u8 \<Rightarrow> u16 \<Rightarrow> 'w \<Rightarrow> 'w option"

definition be_tx_ready :: "'w usb_backends \<Rightarrow> USB_DEVICE_SPEED \<Rightarrow> u8 \<Rightarrow> u16 \<Rightarrow> 'w \<Rightarrow> 'w option" where
  "be_tx_ready be speed =
     (if speed = USB30_SUPERSPEED then be_usb3_endp_tx_ready be else be_usb2_endp_tx_ready be)"

text \<open>The early return for endpoint 0 without a buffer leaves the critical section open, as in the
  code. An endpoint number above 15 is outside the arrays.\<close>

definition endp_tx_set_new_buffer ::
    "('a usb_world_scheme) usb_backends \<Rightarrow> usb_device_id \<Rightarrow> u8 \<Rightarrow> u32 \<Rightarrow> u16 \<Rightarrow> 'a usb_world_scheme \<Rightarrow>
     (bool \<times> 'a usb_world_scheme) option" where
  "endp_tx_set_new_buffer be d endp_num ptr n w =
     (if 16 \<le> endp_num then None
      else
        let w1 = w\<lparr>usb_crit := bsp_enter_critical (usb_crit w)\<rparr>;
            ep = ep_tx (endpoints (usb_devices w1 d)) (unat endp_num)
        in if ep_max_packet_size_with_burst ep < n \<or> ptr = 0
           then Some (False, w1\<lparr>usb_crit := bsp_exit_critical (usb_crit w1)\<rparr>)
           else
             let w2 = upd_device d (upd_ep_tx (unat endp_num) (\<lambda>p. p\<lparr>ep_buffer := ptr\<rparr>)) w1;
                 buf0 = ep_buffer (ep_rx (endpoints (usb_devices w2 d)) 0)
             in if endp_num = 0 \<and> buf0 = 0 then Some (False, w2)
                else do {
                  w3 \<leftarrow> (if endp_num = 0 then usb_memcpy buf0 ptr n w2 else Some w2);
                  w4 \<leftarrow> be_tx_ready be (dev_speed (usb_devices w3 d)) endp_num n w3;
                  Some (True, w4\<lparr>usb_crit := bsp_exit_critical (usb_crit w4)\<rparr>) })"

definition endp_rx_set_state ::
    "('a usb_world_scheme) usb_backends \<Rightarrow> usb_device_id \<Rightarrow> u8 \<Rightarrow> u8 \<Rightarrow> 'a usb_world_scheme \<Rightarrow>
     'a usb_world_scheme option" where
  "endp_rx_set_state be d endp_num st w =
     (if 16 \<le> endp_num then None
      else let w1 = upd_device d (upd_ep_rx (unat endp_num) (\<lambda>p. p\<lparr>ep_state := st\<rparr>)) w
        in if dev_speed (usb_devices w1 d) = USB30_SUPERSPEED then Some w1
           else be_usb2_endp_rx_set_state_callback be endp_num w1)"

definition endp_tx_set_state ::
    "('a usb_world_scheme) usb_backends \<Rightarrow> usb_device_id \<Rightarrow> u8 \<Rightarrow> u8 \<Rightarrow> 'a usb_world_scheme \<Rightarrow>
     'a usb_world_scheme option" where
  "endp_tx_set_state be d endp_num st w =
     (if 16 \<le> endp_num then None
      else let w1 = upd_device d (upd_ep_tx (unat endp_num) (\<lambda>p. p\<lparr>ep_state := st\<rparr>)) w
        in if dev_speed (usb_devices w1 d) = USB30_SUPERSPEED then Some w1
           else be_usb2_endp_tx_set_state_callback be endp_num w1)"

section \<open>The contract of a transmitting backend\<close>

text \<open>\<open>able i n w\<close> is what the backend asks of endpoint \<open>i\<close> to send \<open>n\<close> bytes, \<open>armed i a n w\<close> that it is
  about to send the \<open>n\<close> bytes at \<open>a\<close>.\<close>

locale usb_tx_backend =
  fixes ready :: "u8 \<Rightarrow> u16 \<Rightarrow> 'a usb_world_scheme \<Rightarrow> 'a usb_world_scheme option"
    and able :: "nat \<Rightarrow> u16 \<Rightarrow> 'a usb_world_scheme \<Rightarrow> bool"
    and armed :: "nat \<Rightarrow> u32 \<Rightarrow> u16 \<Rightarrow> 'a usb_world_scheme \<Rightarrow> bool"
    and current :: "'a usb_world_scheme \<Rightarrow> usb_device_id"
  assumes ready_ok: "able (unat e) n w \<Longrightarrow> ep_buffer (ep_tx (endpoints (usb_devices w (current w))) (unat e)) \<noteq> 0 \<Longrightarrow>
      \<exists>w'. ready e n w = Some w' \<and>
      armed (unat e) (ep_buffer (ep_tx (endpoints (usb_devices w (current w))) (unat e))) n w' \<and>
      usb_crit w' = usb_crit w \<and> usb_memory w' = usb_memory w \<and> usb_devices w' = usb_devices w \<and> current w' = current w"
    and able_range: "able i n w \<Longrightarrow> i \<in> {1..15}"
    and able_frame: "able i n (w\<lparr>usb_crit := c, usb_devices := (usb_devices w)(d := upd_ep_tx i (\<lambda>p. p\<lparr>ep_buffer := b\<rparr>) (usb_devices w d))\<rparr>) = able i n w"
    and current_frame: "current (w\<lparr>usb_crit := c\<rparr>) = current w" "current (w\<lparr>usb_devices := f\<rparr>) = current w"
    and armed_frame: "armed i a n (w\<lparr>usb_crit := c\<rparr>) = armed i a n w"
begin

lemma set_new_buffer_sends:
  assumes "be_tx_ready be (dev_speed (usb_devices w d)) = ready" and "current w = d"
    and "able (unat e) n w" and "crit_ok (usb_crit w)" and "ptr \<noteq> 0"
    and "n \<le> ep_max_packet_size_with_burst (ep_tx (endpoints (usb_devices w d)) (unat e))"
  shows "\<exists>w'. endp_tx_set_new_buffer be d e ptr n w = Some (True, w') \<and> armed (unat e) ptr n w' \<and>
    usb_crit w' = usb_crit w \<and> usb_memory w' = usb_memory w \<and> current w' = d \<and>
    usb_devices w' = (usb_devices w)(d := upd_ep_tx (unat e) (\<lambda>p. p\<lparr>ep_buffer := ptr\<rparr>) (usb_devices w d))"
proof -
  let ?f = "(usb_devices w)(d := upd_ep_tx (unat e) (\<lambda>p. p\<lparr>ep_buffer := ptr\<rparr>) (usb_devices w d))"
  let ?w = "w\<lparr>usb_crit := bsp_enter_critical (usb_crit w), usb_devices := ?f\<rparr>"
  have e: "\<not> 16 \<le> e" "e \<noteq> 0" using able_range [OF assms(3)] by (auto simp: word_le_nat_alt)
  have "able (unat e) n ?w" using assms(3) by (simp add: able_frame)
  from ready_ok [OF this] obtain w1 where r: "ready e n ?w = Some w1"
    "armed (unat e) ptr n w1" "usb_crit w1 = usb_crit ?w"
    "usb_memory w1 = usb_memory ?w" "usb_devices w1 = usb_devices ?w" "current w1 = current ?w"
    using assms(2,5) by (auto simp: current_frame)
  have "endp_tx_set_new_buffer be d e ptr n w = Some (True, w1\<lparr>usb_crit := bsp_exit_critical (usb_crit w1)\<rparr>)"
    using e assms(1,5,6) r(1)
    by (simp add: endp_tx_set_new_buffer_def Let_def upd_device_def)
  then show ?thesis using r assms(2,4) by (simp add: armed_frame current_frame)
qed

end

text \<open>A request that is too large or has no data is refused and changes nothing.\<close>

lemma set_new_buffer_refuses:
  assumes "crit_ok (usb_crit w)" and "e < 16"
    and "ptr = 0 \<or> ep_max_packet_size_with_burst (ep_tx (endpoints (usb_devices w d)) (unat e)) < n"
  shows "endp_tx_set_new_buffer be d e ptr n w = Some (False, w)"
proof -
  have same: "w\<lparr>usb_crit := usb_crit w\<rparr> = w" by simp
  show ?thesis using assms same by (auto simp: endp_tx_set_new_buffer_def Let_def not_le)
qed

text \<open>
  \<open>endp_tx_set_new_buffer\<close> on endpoint 0 before its buffer is set returns \<open>false\<close> without leaving
  the critical section it entered: the nesting counter stays one higher and interrupts stay off.
\<close>

theorem endp0_without_buffer_keeps_interrupts_off:
  assumes "ep_buffer (ep_rx (endpoints (usb_devices w d)) 0) = 0" and "ptr \<noteq> 0"
    and "n \<le> ep_max_packet_size_with_burst (ep_tx (endpoints (usb_devices w d)) 0)"
  shows "\<exists>w'. endp_tx_set_new_buffer be d 0 ptr n w = Some (False, w') \<and>
    bsp_critical_nesting (usb_crit w') = bsp_critical_nesting (usb_crit w) + 1 \<and>
    bsp_irq (usb_crit w') = Bsp_disable_interrupt"
proof -
  have n: "(ep_max_packet_size_with_burst (ep_tx (endpoints (usb_devices w d)) 0) < n) = False"
    using assms(3) by (simp add: not_less)
  show ?thesis using assms(1,2) by (simp add: endp_tx_set_new_buffer_def Let_def n)
qed

definition demo_usb_world :: usb_world where
  "demo_usb_world = \<lparr>usb_crit = crit_init, usb_memory = (\<lambda>_. 0), usb_devices = (\<lambda>_. usb_device_initial)\<rparr>"

text \<open>User functions that do nothing, and answer \<open>st\<close> to received packets.\<close>

definition demo_env :: "u8 \<Rightarrow> 'w usb_env" where
  "demo_env st = \<lparr>env_control_request = (\<lambda>_ _ _ w. Some (0xffff, 0, w)), env_passthrough_setup = (\<lambda>_ _ _ w. Some (st, w)),
     env_tx_complete = (\<lambda>_ _ w. Some w), env_rx_callback = (\<lambda>_ _ _ w. Some (st, w)), env_nak_callback = (\<lambda>_ _ w. Some w),
     env_bus_reset = (\<lambda>_ w. Some w), PFIC_EnableIRQ = (\<lambda>_ w. w), PFIC_DisableIRQ = (\<lambda>_ w. w),
     bsp_wait_ms_delay = (\<lambda>_ w. w), bsp_wait_us_delay = (\<lambda>_ w. w), poll_step = (\<lambda>w. w),
     usb_int_fg_write = (\<lambda>old v. old AND NOT v), link_int_flag_write = (\<lambda>old v. old AND NOT v),
     usb_status_write = (\<lambda>old v. old AND NOT v)\<rparr>"

theorem endp0_without_buffer_keeps_interrupts_off_witness:
  "\<forall>be. \<exists>w'. endp_tx_set_new_buffer be Usb_device_0 0 0x20020000 0 demo_usb_world = Some (False, w') \<and>
    bsp_critical_nesting (usb_crit w') = 1 \<and> bsp_irq (usb_crit w') = Bsp_disable_interrupt"
  using endp0_without_buffer_keeps_interrupts_off [of demo_usb_world Usb_device_0 "0x20020000" 0]
  by (simp add: demo_usb_world_def usb_device_initial_def usb_endpoint_zero_def crit_init_def)

end
