(* ===== verification/Usb2_Regs.thy ===== *)
theory Usb2_Regs
  imports Usb_Device
begin

text \<open>
  The state of the USB 2.0 backend: the variables of \<open>usb/usb20.c\<close> and the controller's registers,
  and \<open>usb/usb2_utils.h\<close>, which maps endpoint numbers to registers. The controller has eight register
  banks (\<open>uep\<close>) for sixteen endpoint numbers, so several numbers share a bank; a function of the
  header that returns the address of a register returns its name here, and \<open>None\<close> for \<open>NULL\<close>.
  Endpoint 0 has one DMA address register for both directions.
\<close>

datatype uep_mod = R8_UEP4_1_MOD | R8_UEP2_3_MOD | R8_UEP5_6_MOD | R8_UEP7_MOD
datatype ctrl_reg = UEP_TX_CTRL uep | UEP_RX_CTRL uep
datatype dma_reg = UEP0_RT_DMA | UEP_TX_DMA uep | UEP_RX_DMA uep

record usb2_world = usb_world +
  usb2_backend_current_device :: usb_device_id
  desc_head :: u32
  endp0_current_transfer_size :: u16
  endp0_remaining_bytes :: u16
  ep0_passthrough_enabled :: bool
  endp_tx_remaining_bytes :: "nat \<Rightarrow> u16"
  usb_setup_req :: USB_SETUP
  usb_setup_req_data_size :: u16
  usb2_endp0_max_packet_size :: u16
  usb2_device_handle_bus_reset :: usb_handler
  R8_USB_CTRL :: u8
  R8_USB_INT_EN :: u8
  R8_USB_DEV_AD :: u8
  R8_USB_INT_FG :: u8
  R8_USB_INT_ST :: u8
  R16_USB_RX_LEN :: u16
  R8_UEP_MOD :: "uep_mod \<Rightarrow> u8"
  R8_UEP_CTRL :: "ctrl_reg \<Rightarrow> u8"
  R32_UEP_DMA :: "dma_reg \<Rightarrow> u32"
  R16_UEP_T_LEN :: "uep \<Rightarrow> u16"
  R16_UEP_MAX_LEN :: "uep \<Rightarrow> u16"

type_synonym 'a usb2_state = "'a usb2_world_scheme"

abbreviation dev2 :: "'a usb2_world_scheme \<Rightarrow> usb_device" where
  "dev2 w \<equiv> usb_devices w (usb2_backend_current_device w)"

abbreviation rx0_buffer2 :: "'a usb2_world_scheme \<Rightarrow> u32" where
  "rx0_buffer2 w \<equiv> ep_buffer (ep_rx (endpoints (dev2 w)) 0)"

definition upd_dev2 :: "(usb_device \<Rightarrow> usb_device) \<Rightarrow> 'a usb2_world_scheme \<Rightarrow> 'a usb2_world_scheme" where
  "upd_dev2 f w = upd_device (usb2_backend_current_device w) f w"

definition wr_ctrl :: "ctrl_reg \<Rightarrow> u8 \<Rightarrow> 'a usb2_world_scheme \<Rightarrow> 'a usb2_world_scheme" where
  "wr_ctrl r v w = w\<lparr>R8_UEP_CTRL := (R8_UEP_CTRL w)(r := v)\<rparr>"

definition wr_dma :: "dma_reg \<Rightarrow> u32 \<Rightarrow> 'a usb2_world_scheme \<Rightarrow> 'a usb2_world_scheme" where
  "wr_dma r v w = w\<lparr>R32_UEP_DMA := (R32_UEP_DMA w)(r := v)\<rparr>"

definition wr_tlen :: "uep \<Rightarrow> u16 \<Rightarrow> 'a usb2_world_scheme \<Rightarrow> 'a usb2_world_scheme" where
  "wr_tlen r v w = w\<lparr>R16_UEP_T_LEN := (R16_UEP_T_LEN w)(r := v)\<rparr>"

section \<open>\<open>usb2_utils.h\<close>\<close>

definition usb2_is_address_valid :: "u8 \<Rightarrow> bool" where
  "usb2_is_address_valid address \<longleftrightarrow> address \<le> 0x7f"

definition usb2_set_device_address :: "u8 \<Rightarrow> 'a usb2_world_scheme \<Rightarrow> bool \<times> 'a usb2_world_scheme" where
  "usb2_set_device_address address w =
     (if usb2_is_address_valid address then (True, w\<lparr>R8_USB_DEV_AD := address\<rparr>) else (False, w))"

text \<open>The \<open>switch\<close> all the look-ups share.\<close>

definition endp_bank :: "u8 \<Rightarrow> uep option" where
  "endp_bank endp_num =
     (if endp_num = 0 then Some UEP0
      else if endp_num = 1 \<or> endp_num = 9 then Some UEP1
      else if endp_num = 2 \<or> endp_num = 10 then Some UEP2
      else if endp_num = 3 \<or> endp_num = 11 then Some UEP3
      else if endp_num = 4 \<or> endp_num = 8 \<or> endp_num = 12 then Some UEP4
      else if endp_num = 5 \<or> endp_num = 13 then Some UEP5
      else if endp_num = 6 \<or> endp_num = 14 then Some UEP6
      else if endp_num = 7 \<or> endp_num = 15 then Some UEP7
      else None)"

definition usb2_get_rx_endpoint_ctrl_reg :: "u8 \<Rightarrow> ctrl_reg option" where
  "usb2_get_rx_endpoint_ctrl_reg endp_num = map_option UEP_RX_CTRL (endp_bank endp_num)"

definition usb2_get_tx_endpoint_ctrl_reg :: "u8 \<Rightarrow> ctrl_reg option" where
  "usb2_get_tx_endpoint_ctrl_reg endp_num = map_option UEP_TX_CTRL (endp_bank endp_num)"

definition usb2_get_tx_endpoint_addr_reg :: "u8 \<Rightarrow> dma_reg option" where
  "usb2_get_tx_endpoint_addr_reg endp_num =
     map_option (\<lambda>u. if u = UEP0 then UEP0_RT_DMA else UEP_TX_DMA u) (endp_bank endp_num)"

definition usb2_get_rx_endpoint_addr_reg :: "u8 \<Rightarrow> dma_reg option" where
  "usb2_get_rx_endpoint_addr_reg endp_num =
     map_option (\<lambda>u. if u = UEP0 then UEP0_RT_DMA else UEP_RX_DMA u) (endp_bank endp_num)"

definition usb2_get_tx_endpoint_len_reg :: "u8 \<Rightarrow> uep option" where
  "usb2_get_tx_endpoint_len_reg = endp_bank"

text \<open>\<open>usb2_get_mod_reg\<close> returns the receive control register, as its body does.\<close>

definition usb2_get_mod_reg :: "u8 \<Rightarrow> ctrl_reg option" where
  "usb2_get_mod_reg endp_num = map_option UEP_RX_CTRL (endp_bank endp_num)"

section \<open>Reading back what was written\<close>

named_theorems usb2_regs \<open>reads of the backend's state after its writes\<close>

lemma wr_simps [simp, usb2_regs]:
  "R8_UEP_CTRL (wr_ctrl r v w) = (R8_UEP_CTRL w)(r := v)" "R32_UEP_DMA (wr_ctrl r v w) = R32_UEP_DMA w"
  "R16_UEP_T_LEN (wr_ctrl r v w) = R16_UEP_T_LEN w" "usb_devices (wr_ctrl r v w) = usb_devices w"
  "usb_memory (wr_ctrl r v w) = usb_memory w" "usb_crit (wr_ctrl r v w) = usb_crit w"
  "usb2_backend_current_device (wr_ctrl r v w) = usb2_backend_current_device w"
  "endp_tx_remaining_bytes (wr_ctrl r v w) = endp_tx_remaining_bytes w"
  "usb_setup_req (wr_ctrl r v w) = usb_setup_req w" "desc_head (wr_ctrl r v w) = desc_head w"
  "endp0_remaining_bytes (wr_ctrl r v w) = endp0_remaining_bytes w"
  "endp0_current_transfer_size (wr_ctrl r v w) = endp0_current_transfer_size w"
  "usb2_endp0_max_packet_size (wr_ctrl r v w) = usb2_endp0_max_packet_size w"
  "R8_USB_DEV_AD (wr_ctrl r v w) = R8_USB_DEV_AD w" "R16_UEP_MAX_LEN (wr_ctrl r v w) = R16_UEP_MAX_LEN w"
  "R8_UEP_MOD (wr_ctrl r v w) = R8_UEP_MOD w"
  "R32_UEP_DMA (wr_dma d a w) = (R32_UEP_DMA w)(d := a)" "R8_UEP_CTRL (wr_dma d a w) = R8_UEP_CTRL w"
  "R16_UEP_T_LEN (wr_dma d a w) = R16_UEP_T_LEN w" "usb_devices (wr_dma d a w) = usb_devices w"
  "usb_memory (wr_dma d a w) = usb_memory w" "usb_crit (wr_dma d a w) = usb_crit w"
  "usb2_backend_current_device (wr_dma d a w) = usb2_backend_current_device w"
  "endp_tx_remaining_bytes (wr_dma d a w) = endp_tx_remaining_bytes w"
  "usb_setup_req (wr_dma d a w) = usb_setup_req w" "desc_head (wr_dma d a w) = desc_head w"
  "endp0_remaining_bytes (wr_dma d a w) = endp0_remaining_bytes w"
  "endp0_current_transfer_size (wr_dma d a w) = endp0_current_transfer_size w"
  "usb2_endp0_max_packet_size (wr_dma d a w) = usb2_endp0_max_packet_size w"
  "R8_USB_DEV_AD (wr_dma d a w) = R8_USB_DEV_AD w" "R16_UEP_MAX_LEN (wr_dma d a w) = R16_UEP_MAX_LEN w"
  "R8_UEP_MOD (wr_dma d a w) = R8_UEP_MOD w"
  "R16_UEP_T_LEN (wr_tlen u n w) = (R16_UEP_T_LEN w)(u := n)" "R8_UEP_CTRL (wr_tlen u n w) = R8_UEP_CTRL w"
  "R32_UEP_DMA (wr_tlen u n w) = R32_UEP_DMA w" "usb_devices (wr_tlen u n w) = usb_devices w"
  "usb_memory (wr_tlen u n w) = usb_memory w" "usb_crit (wr_tlen u n w) = usb_crit w"
  "usb2_backend_current_device (wr_tlen u n w) = usb2_backend_current_device w"
  "endp_tx_remaining_bytes (wr_tlen u n w) = endp_tx_remaining_bytes w"
  "usb_setup_req (wr_tlen u n w) = usb_setup_req w" "desc_head (wr_tlen u n w) = desc_head w"
  "endp0_remaining_bytes (wr_tlen u n w) = endp0_remaining_bytes w"
  "endp0_current_transfer_size (wr_tlen u n w) = endp0_current_transfer_size w"
  "usb2_endp0_max_packet_size (wr_tlen u n w) = usb2_endp0_max_packet_size w"
  "R8_USB_DEV_AD (wr_tlen u n w) = R8_USB_DEV_AD w" "R16_UEP_MAX_LEN (wr_tlen u n w) = R16_UEP_MAX_LEN w"
  "R8_UEP_MOD (wr_tlen u n w) = R8_UEP_MOD w"
  by (simp_all add: wr_ctrl_def wr_dma_def wr_tlen_def)

lemma upd_device2_simps [simp, usb2_regs]:
  "usb2_backend_current_device (upd_device d f w) = usb2_backend_current_device w"
  "R8_UEP_CTRL (upd_device d f w) = R8_UEP_CTRL w" "R32_UEP_DMA (upd_device d f w) = R32_UEP_DMA w"
  "R16_UEP_T_LEN (upd_device d f w) = R16_UEP_T_LEN w" "R16_UEP_MAX_LEN (upd_device d f w) = R16_UEP_MAX_LEN w"
  "R8_UEP_MOD (upd_device d f w) = R8_UEP_MOD w"
  "usb_setup_req (upd_device d f w) = usb_setup_req w"
  "R8_USB_DEV_AD (upd_device d f w) = R8_USB_DEV_AD w" "desc_head (upd_device d f w) = desc_head w"
  "endp0_remaining_bytes (upd_device d f w) = endp0_remaining_bytes w"
  "endp0_current_transfer_size (upd_device d f w) = endp0_current_transfer_size w"
  "usb2_endp0_max_packet_size (upd_device d f w) = usb2_endp0_max_packet_size w"
  "endp_tx_remaining_bytes (upd_device d f w) = endp_tx_remaining_bytes w"
  "usb_setup_req_data_size (upd_device d f w) = usb_setup_req_data_size w"
  by (simp_all add: upd_device_def)

lemma upd_dev2_common [simp, usb2_regs]:
  "usb_devices (upd_dev2 f w) = (usb_devices w)(usb2_backend_current_device w := f (dev2 w))"
  "usb_memory (upd_dev2 f w) = usb_memory w" "usb_crit (upd_dev2 f w) = usb_crit w"
  "usb2_backend_current_device (upd_dev2 f w) = usb2_backend_current_device w"
  "R8_UEP_CTRL (upd_dev2 f w) = R8_UEP_CTRL w" "R32_UEP_DMA (upd_dev2 f w) = R32_UEP_DMA w"
  "R16_UEP_T_LEN (upd_dev2 f w) = R16_UEP_T_LEN w" "R16_UEP_MAX_LEN (upd_dev2 f w) = R16_UEP_MAX_LEN w"
  "R8_UEP_MOD (upd_dev2 f w) = R8_UEP_MOD w"
  "usb_setup_req (upd_dev2 f w) = usb_setup_req w"
  "R8_USB_DEV_AD (upd_dev2 f w) = R8_USB_DEV_AD w" "desc_head (upd_dev2 f w) = desc_head w"
  "endp0_remaining_bytes (upd_dev2 f w) = endp0_remaining_bytes w"
  "endp0_current_transfer_size (upd_dev2 f w) = endp0_current_transfer_size w"
  "usb2_endp0_max_packet_size (upd_dev2 f w) = usb2_endp0_max_packet_size w"
  "endp_tx_remaining_bytes (upd_dev2 f w) = endp_tx_remaining_bytes w"
  by (simp_all add: upd_dev2_def fun_eq_iff)

lemma bank_Some:
  assumes "e < 16"
  obtains u where "endp_bank e = Some u"
proof -
  have "unat e < 16" using assms by (simp add: word_less_nat_alt)
  then have "unat e \<in> {0,1,2,3,4,5,6,7,8,9,10,11,12,13,14,15}"
    unfolding insert_iff empty_iff by presburger
  moreover have "e = of_nat (unat e)" by simp
  ultimately have "endp_bank e \<noteq> None"
    by (elim insertE emptyE) (simp_all add: endp_bank_def word_unat_eq_iff)
  then show ?thesis using that by blast
qed

lemma bank_small: "unat e \<in> {1..7} \<Longrightarrow> endp_bank e = Some ([UEP0, UEP1, UEP2, UEP3, UEP4, UEP5, UEP6, UEP7] ! unat e)"
proof -
  assume "unat e \<in> {1..7}"
  then have "unat e \<in> {1,2,3,4,5,6,7}" by auto
  then show ?thesis by (elim insertE emptyE) (simp_all add: endp_bank_def word_unat_eq_iff)
qed

lemma bank_UEP0: "endp_bank e = Some UEP0 \<longleftrightarrow> e = 0"
  by (auto simp: endp_bank_def split: if_splits)

lemma wr_more_simps [simp]:
  "usb2_world.more (wr_ctrl r v w) = usb2_world.more w" "ep0_passthrough_enabled (wr_ctrl r v w) = ep0_passthrough_enabled w"
  "usb2_world.more (wr_dma d a w) = usb2_world.more w" "ep0_passthrough_enabled (wr_dma d a w) = ep0_passthrough_enabled w"
  "usb2_world.more (wr_tlen u n w) = usb2_world.more w" "ep0_passthrough_enabled (wr_tlen u n w) = ep0_passthrough_enabled w"
  "usb2_world.more (upd_dev2 f w) = usb2_world.more w" "ep0_passthrough_enabled (upd_dev2 f w) = ep0_passthrough_enabled w"
  by (simp_all add: wr_ctrl_def wr_dma_def wr_tlen_def upd_dev2_def upd_device_def)

end
