(* ===== verification/Usb2.thy ===== *)
theory Usb2
  imports Usb2_Regs
begin

text \<open>
  \<open>usb/usb20.c\<close>: every operation of the USB 2.0 backend, in the order of the file. \<open>k\<close> is the record
  of BSP constants, \<open>e\<close> the environment (user handlers, BSP functions, flag registers). Register
  variables of the C code (\<open>_RX_CTRL\<close>, \<open>_TX_CTRL\<close>) are read at the start of a handler and written back
  at its end, also across calls of user handlers, and so they are here.
\<close>

section \<open>Start and stop\<close>

definition usb2_device_deinit ::
    "usb_consts \<Rightarrow> ('a usb2_world_scheme) usb_env \<Rightarrow> 'a usb2_world_scheme \<Rightarrow> 'a usb2_world_scheme" where
  "usb2_device_deinit k e w =
     (let w1 = PFIC_DisableIRQ e USBHS_IRQn w
      in w1\<lparr>R8_USB_CTRL := RB_USB_CLR_ALL k OR RB_USB_RESET_SIE k\<rparr>)"

text \<open>The incompatibility table: pairs of endpoint bits of one direction that share a bank.\<close>

definition usb2_incompatibles_endpoints :: "u32 list" where
  "usb2_incompatibles_endpoints =
    [ENDPOINT_TX 1 OR ENDPOINT_TX 9, ENDPOINT_TX 2 OR ENDPOINT_TX 10, ENDPOINT_TX 3 OR ENDPOINT_TX 11,
     ENDPOINT_TX 4 OR ENDPOINT_TX 12, ENDPOINT_TX 5 OR ENDPOINT_TX 13, ENDPOINT_TX 6 OR ENDPOINT_TX 14,
     ENDPOINT_TX 7 OR ENDPOINT_TX 15,
     ENDPOINT_RX 1 OR ENDPOINT_RX 9, ENDPOINT_RX 2 OR ENDPOINT_RX 10, ENDPOINT_RX 3 OR ENDPOINT_RX 11,
     ENDPOINT_RX 4 OR ENDPOINT_RX 12, ENDPOINT_RX 5 OR ENDPOINT_RX 13, ENDPOINT_RX 6 OR ENDPOINT_RX 14,
     ENDPOINT_RX 7 OR ENDPOINT_RX 15,
     ENDPOINT_RX 8 OR ENDPOINT_RX 4, ENDPOINT_TX 8 OR ENDPOINT_TX 4,
     ENDPOINT_RX 8 OR ENDPOINT_RX 12, ENDPOINT_TX 8 OR ENDPOINT_TX 12]"

definition USB2_EP_MAX_PACKET_SIZE :: u16 where "USB2_EP_MAX_PACKET_SIZE = 1024"

definition uep_mod_reg :: "uep \<Rightarrow> uep_mod" where
  "uep_mod_reg u = (if u = UEP2 \<or> u = UEP3 then R8_UEP2_3_MOD
     else if u = UEP5 \<or> u = UEP6 then R8_UEP5_6_MOD
     else if u = UEP7 then R8_UEP7_MOD else R8_UEP4_1_MOD)"

definition or_mod :: "uep \<Rightarrow> u8 \<Rightarrow> 'a usb2_world_scheme \<Rightarrow> 'a usb2_world_scheme" where
  "or_mod u v w = w\<lparr>R8_UEP_MOD := (R8_UEP_MOD w)(uep_mod_reg u := R8_UEP_MOD w (uep_mod_reg u) OR v)\<rparr>"

text \<open>The blocks of \<open>usb2_setup_endpoints_in_mask\<close>, one per endpoint and direction: bank \<open>u\<close> serves
  endpoint \<open>n\<close>. \<open>Inl\<close> is the early return for a receive buffer larger than the controller takes.\<close>

definition usb2_setup_tx :: "usb_consts \<Rightarrow> u32 \<Rightarrow> uep \<Rightarrow> nat \<Rightarrow> 'a usb2_world_scheme \<Rightarrow>
    'a usb2_world_scheme + 'a usb2_world_scheme" where
  "usb2_setup_tx k msk u n w =
     (if msk AND ENDPOINT_TX n \<noteq> 0 then
        let ep = ep_tx (endpoints (dev2 w)) n;
            w1 = or_mod u (RB_UEP_TX_EN k u) w;
            w2 = wr_dma (UEP_TX_DMA u) (ep_buffer ep) w1;
            w3 = wr_tlen u 0 w2
        in Inr (wr_ctrl (UEP_TX_CTRL u) (ep_state ep OR RB_UEP_T_TOG_0 k) w3)
      else Inr w)"

definition usb2_setup_rx :: "usb_consts \<Rightarrow> u32 \<Rightarrow> uep \<Rightarrow> nat \<Rightarrow> 'a usb2_world_scheme \<Rightarrow>
    'a usb2_world_scheme + 'a usb2_world_scheme" where
  "usb2_setup_rx k msk u n w =
     (if msk AND ENDPOINT_RX n \<noteq> 0 then
        let ep = ep_rx (endpoints (dev2 w)) n in
        if USB2_EP_MAX_PACKET_SIZE < ep_max_packet_size ep then Inl w
        else
          let w1 = or_mod u (RB_UEP_RX_EN k u) w;
              w2 = wr_dma (UEP_RX_DMA u) (ep_buffer ep) w1;
              w3 = w2\<lparr>R16_UEP_MAX_LEN := (R16_UEP_MAX_LEN w2)(u := ep_max_packet_size ep)\<rparr>
          in Inr (wr_ctrl (UEP_RX_CTRL u) (ep_state ep OR RB_UEP_R_TOG_0 k) w3)
      else Inr w)"

primrec run_blocks :: "('w \<Rightarrow> 'w + 'w) list \<Rightarrow> 'w \<Rightarrow> 'w + 'w" where
  "run_blocks [] w = Inr w"
| "run_blocks (b # bs) w = (case b w of Inl w1 \<Rightarrow> Inl w1 | Inr w1 \<Rightarrow> run_blocks bs w1)"

definition usb2_setup_blocks_1_2 :: "usb_consts \<Rightarrow> u32 \<Rightarrow> ('a usb2_world_scheme \<Rightarrow>
    'a usb2_world_scheme + 'a usb2_world_scheme) list" where
  "usb2_setup_blocks_1_2 k msk =
    [usb2_setup_tx k msk UEP1 1, usb2_setup_tx k msk UEP1 9,
     usb2_setup_rx k msk UEP1 1, usb2_setup_rx k msk UEP1 9,
     usb2_setup_tx k msk UEP2 2, usb2_setup_tx k msk UEP2 10,
     usb2_setup_rx k msk UEP2 2, usb2_setup_rx k msk UEP2 10]"

definition usb2_setup_blocks_3_4 :: "usb_consts \<Rightarrow> u32 \<Rightarrow> ('a usb2_world_scheme \<Rightarrow>
    'a usb2_world_scheme + 'a usb2_world_scheme) list" where
  "usb2_setup_blocks_3_4 k msk =
    [usb2_setup_tx k msk UEP3 3, usb2_setup_tx k msk UEP3 11,
     usb2_setup_rx k msk UEP3 3, usb2_setup_rx k msk UEP3 11,
     usb2_setup_tx k msk UEP4 4, usb2_setup_tx k msk UEP4 8, usb2_setup_tx k msk UEP4 12,
     usb2_setup_rx k msk UEP4 4, usb2_setup_rx k msk UEP4 8, usb2_setup_rx k msk UEP4 12]"

definition usb2_setup_blocks_5_7 :: "usb_consts \<Rightarrow> u32 \<Rightarrow> ('a usb2_world_scheme \<Rightarrow>
    'a usb2_world_scheme + 'a usb2_world_scheme) list" where
  "usb2_setup_blocks_5_7 k msk =
    [usb2_setup_tx k msk UEP5 5, usb2_setup_tx k msk UEP5 13,
     usb2_setup_rx k msk UEP5 5, usb2_setup_rx k msk UEP5 13,
     usb2_setup_tx k msk UEP6 6, usb2_setup_tx k msk UEP6 14,
     usb2_setup_rx k msk UEP6 6, usb2_setup_rx k msk UEP6 14,
     usb2_setup_tx k msk UEP7 7, usb2_setup_tx k msk UEP7 15,
     usb2_setup_rx k msk UEP7 7, usb2_setup_rx k msk UEP7 15]"

definition usb2_setup_endpoints_in_mask :: "usb_consts \<Rightarrow> u32 \<Rightarrow> 'a usb2_world_scheme \<Rightarrow> 'a usb2_world_scheme" where
  "usb2_setup_endpoints_in_mask k msk w =
     (if \<exists>x \<in> set usb2_incompatibles_endpoints. msk AND x = x then w
      else case run_blocks (usb2_setup_blocks_1_2 k msk @ usb2_setup_blocks_3_4 k msk @ usb2_setup_blocks_5_7 k msk) w
        of Inl w1 \<Rightarrow> w1 | Inr w1 \<Rightarrow> w1)"

definition usb2_setup_endpoints :: "usb_consts \<Rightarrow> 'a usb2_world_scheme \<Rightarrow> 'a usb2_world_scheme" where
  "usb2_setup_endpoints k w =
     (let w1 = wr_dma UEP0_RT_DMA (rx0_buffer2 w) w;
          w2 = w1\<lparr>R16_UEP_MAX_LEN := (R16_UEP_MAX_LEN w1)(UEP0 := 64)\<rparr>;
          w3 = wr_tlen UEP0 0 w2;
          w4 = wr_ctrl (UEP_TX_CTRL UEP0) (UEP_T_RES_NAK k OR RB_UEP_T_TOG_0 k) w3;
          w5 = wr_ctrl (UEP_RX_CTRL UEP0) (UEP_R_RES_NAK k OR RB_UEP_R_TOG_0 k) w4
      in usb2_setup_endpoints_in_mask k (endpoint_mask (dev2 w5)) w5)"

definition usb2_reset_endpoints :: "usb_consts \<Rightarrow> 'a usb2_world_scheme \<Rightarrow> 'a usb2_world_scheme" where
  "usb2_reset_endpoints k = usb2_setup_endpoints k"

definition usb2_device_init ::
    "usb_consts \<Rightarrow> ('a usb2_world_scheme) usb_env \<Rightarrow> 'a usb2_world_scheme \<Rightarrow> 'a usb2_world_scheme option" where
  "usb2_device_init k e w =
     (let w1 = PFIC_EnableIRQ e USBHS_IRQn w;
          speed = dev_speed (dev2 w1)
      in if speed \<notin> {USB2_HIGHSPEED, USB2_FULLSPEED, USB2_LOWSPEED} then Some (usb2_device_deinit k e w1)
         else
           let w2 = w1\<lparr>R8_USB_CTRL := (if speed = USB2_HIGHSPEED then UCST_HS k
                         else if speed = USB2_FULLSPEED then UCST_FS k else UCST_LS k)\<rparr>;
               w3 = w2\<lparr>R8_USB_CTRL := R8_USB_CTRL w2 OR (RB_DEV_PU_EN k OR RB_USB_INT_BUSY k OR RB_USB_DMA_EN k)\<rparr>;
               w4 = w3\<lparr>R8_USB_INT_EN := RB_USB_IE_SETUPACT k OR RB_USB_IE_TRANS k OR RB_USB_IE_SUSPEND k
                         OR RB_USB_IE_BUSRST k OR RB_USB_IE_FIFOOV k\<rparr>;
               w5 = upd_dev2 (\<lambda>v. v\<lparr>dev_addr := 0, dev_state := POWERED\<rparr>) w4;
               descr = usb2_device_descr (usb_descriptors (dev2 w5))
           in if descr = 0 then None
              else Some (usb2_setup_endpoints k
                (w5\<lparr>usb2_endp0_max_packet_size := ucast (usb_memory w5 (descr + off_DEV_bMaxPacketSize0 k))\<rparr>)))"

definition usb2_ep0_passthrough_enabled :: "bool \<Rightarrow> 'a usb2_world_scheme \<Rightarrow> 'a usb2_world_scheme" where
  "usb2_ep0_passthrough_enabled enable w = w\<lparr>ep0_passthrough_enabled := enable\<rparr>"

section \<open>Endpoint 0, setup stage\<close>

definition usb2_ep0_set_configuration_callback :: "usb_consts \<Rightarrow> 'a usb2_world_scheme \<Rightarrow> 'a usb2_world_scheme" where
  "usb2_ep0_set_configuration_callback k = usb2_reset_endpoints k"

definition usb2_ep0_next_data_packet_size :: "'a usb2_world_scheme \<Rightarrow> u16" where
  "usb2_ep0_next_data_packet_size w = min (endp0_remaining_bytes w) (usb2_endp0_max_packet_size w)"

text \<open>The code all \<open>GET_DESCRIPTOR\<close> branches share: remember what is to be sent, copy its first packet.\<close>

definition usb2_ep0_start_in :: "u32 \<Rightarrow> u16 \<Rightarrow> 'a usb2_world_scheme \<Rightarrow> (u16 \<times> 'a usb2_world_scheme) option" where
  "usb2_ep0_start_in head n w =
     (let w1 = w\<lparr>desc_head := head, endp0_remaining_bytes := n\<rparr>;
          len = usb2_ep0_next_data_packet_size w1
      in do { w2 \<leftarrow> usb_memcpy (rx0_buffer2 w1) (desc_head w1) len w1; Some (len, w2) })"

definition usb2_ep0_get_descriptor :: "usb_consts \<Rightarrow> 'a usb2_world_scheme \<Rightarrow> (u16 \<times> 'a usb2_world_scheme) option" where
  "usb2_ep0_get_descriptor k w =
     (let req = usb_setup_req w; ds = usb_descriptors (dev2 w); m = usb_memory w; typ = bb0 (wValue req) in
      if typ = USB_DESCR_TYP_DEVICE k then
        (if usb2_device_descr ds \<noteq> 0 then
           let bLength = ucast (m (usb2_device_descr ds + off_DEV_bLength k))
           in usb2_ep0_start_in (usb2_device_descr ds) (if wLength req < bLength then wLength req else bLength) w
         else Some (0, w))
      else if typ = USB_DESCR_TYP_CONFIG k then
        (if usb2_device_config_descrs ds = 0 then None
         else
           let cfg = load_u32 m (usb2_device_config_descrs ds) in
           if cfg \<noteq> 0 then
             let total = load_u16 m (cfg + off_CFG_wTotalLength k)
             in usb2_ep0_start_in cfg (if wLength req < total then wLength req else total) w
           else Some (0, w))
      else if typ = USB_DESCR_TYP_STRING k then
        (if usb_string_descrs ds \<noteq> 0 then
           let str = load_u32 m (usb_string_descrs ds + 4 * ucast (bb1 (wValue req))) in
           if str = 0 then None else usb2_ep0_start_in str (ucast (m str)) w
         else Some (0, w))
      else Some (0xffff, w))"

definition usb2_ep0_standard_request :: "usb_consts \<Rightarrow> 'a usb2_world_scheme \<Rightarrow> (u16 \<times> 'a usb2_world_scheme) option" where
  "usb2_ep0_standard_request k w =
     (let req = usb_setup_req w in
      if bRequest req = USB_GET_DESCRIPTOR k then usb2_ep0_get_descriptor k w
      else if bRequest req = USB_SET_ADDRESS k then
        Some (0, (upd_dev2 (\<lambda>v. v\<lparr>dev_addr := bb1 (wValue req)\<rparr>) w)\<lparr>endp0_remaining_bytes := wLength req\<rparr>)
      else if bRequest req = USB_SET_CONFIGURATION k then
        let w1 = upd_dev2 (\<lambda>v. v\<lparr>current_config := bb1 (wValue req)\<rparr>) w;
            w2 = usb2_ep0_set_configuration_callback k w1
        in Some (0, if bb1 (wValue req) \<noteq> 0 then upd_dev2 (\<lambda>v. v\<lparr>dev_state := CONFIGURED\<rparr>) w2 else w2)
      else if bRequest req = USB_SET_FEATURE k then
        Some (0, if wValue req = ENDPOINT_HALT then usb2_reset_endpoints k w else w)
      else Some (0, w))"

text \<open>Requests left to the user. The flag tells the early returns, which skip the last assignment of
  \<open>usb2_ep0_request_handler\<close>.\<close>

definition usb2_ep0_user_request ::
    "usb_consts \<Rightarrow> ('a usb2_world_scheme) usb_env \<Rightarrow> 'a usb2_world_scheme \<Rightarrow> (u16 \<times> bool \<times> 'a usb2_world_scheme) option" where
  "usb2_ep0_user_request k e w =
     (let req = usb_setup_req w; h = endp0_user_handled_control_request (endpoints (dev2 w)) in
      if bRequestType req AND USB_REQ_TYP_IN k \<noteq> 0 then do {
        (len, buffer, w1) \<leftarrow> call_control_request e h req True w;
        if 0 < len then
          (if buffer = 0 then Some (0xffff, True, w1)
           else do { (len1, w2) \<leftarrow> usb2_ep0_start_in buffer len w1; Some (len1, False, w2) })
        else Some (len, False, w1) }
      else if wLength req = 0 then do {
        (_, _, w1) \<leftarrow> call_control_request e h req False w;
        Some (0, True, w1) }
      else Some (wLength req, False, w\<lparr>endp0_remaining_bytes := wLength req\<rparr>))"

definition usb2_ep0_request_handler ::
    "usb_consts \<Rightarrow> ('a usb2_world_scheme) usb_env \<Rightarrow> 'a usb2_world_scheme \<Rightarrow> (u16 \<times> 'a usb2_world_scheme) option" where
  "usb2_ep0_request_handler k e w = do {
     (len, returned, w1) \<leftarrow>
       (if drop_bit 6 (bRequestType (usb_setup_req w) AND USB_REQ_TYP_MASK k) = USB_REQ_TYP_STANDARD k
        then do { (len, w1) \<leftarrow> usb2_ep0_standard_request k w; Some (len, False, w1) }
        else usb2_ep0_user_request k e w);
     Some (len, if returned then w1 else w1\<lparr>endp0_current_transfer_size := endp0_remaining_bytes w1\<rparr>) }"

definition usb2_ep0_setup_stage_handler ::
    "usb_consts \<Rightarrow> ('a usb2_world_scheme) usb_env \<Rightarrow> 'a usb2_world_scheme \<Rightarrow> 'a usb2_world_scheme option" where
  "usb2_ep0_setup_stage_handler k e w = do {
     (len, w1) \<leftarrow> usb2_ep0_request_handler k e w;
     let rx = R8_UEP_CTRL w1 (UEP_RX_CTRL UEP0);
     let tx = R8_UEP_CTRL w1 (UEP_TX_CTRL UEP0);
     let (rx, tx, w2) =
       (if bRequestType (usb_setup_req w1) AND USB_REQ_TYP_IN k \<noteq> 0 then
          (if len \<noteq> 0xffff then (rx, UEP_T_RES_ACK k OR RB_UEP_T_TOG_1 k, wr_tlen UEP0 len w1)
           else (UEP_R_RES_ACK k OR RB_UEP_R_TOG_1 k, UEP_T_RES_STALL k, wr_tlen UEP0 0 w1))
        else
          (if wLength (usb_setup_req w1) = 0 then (rx, UEP_T_RES_ACK k OR RB_UEP_T_TOG_1 k, wr_tlen UEP0 0 w1)
           else (UEP_R_RES_ACK k OR RB_UEP_R_TOG_1 k, tx, w1)));
     Some (wr_ctrl (UEP_RX_CTRL UEP0) rx (wr_ctrl (UEP_TX_CTRL UEP0) tx w2)) }"

section \<open>Endpoint 0, data and status stages\<close>

text \<open>\<open>x & ~msk | v\<close>.\<close>

definition set_res :: "u8 \<Rightarrow> u8 \<Rightarrow> u8 \<Rightarrow> u8" where
  "set_res msk v x = (x AND NOT msk) OR v"

definition usb2_ep0_in_handler :: "usb_consts \<Rightarrow> 'a usb2_world_scheme \<Rightarrow> 'a usb2_world_scheme option" where
  "usb2_ep0_in_handler k w =
     (let rx = R8_UEP_CTRL w (UEP_RX_CTRL UEP0);
          tx = R8_UEP_CTRL w (UEP_TX_CTRL UEP0)
      in do {
        (rx, tx, w5) \<leftarrow>
          (if bRequestType (usb_setup_req w) AND USB_REQ_TYP_IN k \<noteq> 0 then
             let len = usb2_ep0_next_data_packet_size w;
                 w1 = w\<lparr>endp0_remaining_bytes := endp0_remaining_bytes w - len\<rparr>;
                 w2 = w1\<lparr>desc_head := desc_head w1 + ucast len\<rparr>
             in if endp0_remaining_bytes w2 = 0 then
                  (if usb2_endp0_max_packet_size w2 = 0 then None
                   else if endp0_current_transfer_size w2 mod usb2_endp0_max_packet_size w2 = 0 \<and> len \<noteq> 0
                   then Some (rx, set_res (RB_UEP_TRES_MASK k) (UEP_T_RES_ACK k) tx XOR RB_UEP_T_TOG_1 k,
                     wr_tlen UEP0 0 w2)
                   else Some (UEP_R_RES_ACK k OR RB_UEP_R_TOG_1 k, set_res (RB_UEP_TRES_MASK k) (UEP_T_RES_NAK k) tx,
                     w2\<lparr>desc_head := 0\<rparr>))
                else
                  let len2 = usb2_ep0_next_data_packet_size w2 in do {
                    w3 \<leftarrow> usb_memcpy (rx0_buffer2 w2) (desc_head w2) len2 w2;
                    Some (rx, set_res (RB_UEP_TRES_MASK k) (UEP_T_RES_ACK k) tx XOR RB_UEP_T_TOG_1 k,
                      wr_tlen UEP0 len2 w3) }
           else
             let w3 =
               (if bRequest (usb_setup_req w) = USB_SET_ADDRESS k then
                  (case usb2_set_device_address (dev_addr (dev2 w)) w of
                     (ok, w2) \<Rightarrow> if ok then upd_dev2 (\<lambda>v. v\<lparr>dev_state := ADDRESS\<rparr>) w2 else w2)
                else w)
             in Some (UEP_T_RES_ACK k OR RB_UEP_T_TOG_1 k, set_res (RB_UEP_TRES_MASK k) (UEP_T_RES_NAK k) tx,
               wr_tlen UEP0 0 w3));
        Some (wr_ctrl (UEP_RX_CTRL UEP0) rx (wr_ctrl (UEP_TX_CTRL UEP0) tx w5)) })"

definition usb2_ep0_out_handler ::
    "usb_consts \<Rightarrow> ('a usb2_world_scheme) usb_env \<Rightarrow> 'a usb2_world_scheme \<Rightarrow> 'a usb2_world_scheme option" where
  "usb2_ep0_out_handler k e w =
     (let rx = R8_UEP_CTRL w (UEP_RX_CTRL UEP0);
          tx = R8_UEP_CTRL w (UEP_TX_CTRL UEP0)
      in do {
        (rx, tx, w5) \<leftarrow>
          (if bRequestType (usb_setup_req w) AND USB_REQ_TYP_IN k \<noteq> 0 then
             (if 0 < usb2_ep0_next_data_packet_size w
              then Some (set_res (RB_UEP_TRES_MASK k) (UEP_T_RES_NAK k) rx, tx, w)
              else Some (UEP_R_RES_ACK k, set_res (RB_UEP_TRES_MASK k) (UEP_T_RES_NAK k) tx, wr_tlen UEP0 0 w))
           else
             let w1 = w\<lparr>endp0_remaining_bytes := endp0_remaining_bytes w - R16_USB_RX_LEN w\<rparr>
             in if endp0_remaining_bytes w1 = 0 then
                  let w2 = wr_tlen UEP0 0 (wr_dma UEP0_RT_DMA (rx0_buffer2 w1) w1) in do {
                    (_, _, w3) \<leftarrow> call_control_request e (endp0_user_handled_control_request (endpoints (dev2 w2)))
                      (usb_setup_req w2) False w2;
                    Some (rx, UEP_T_RES_ACK k OR RB_UEP_T_TOG_1 k, w3) }
                else
                  Some (set_res (RB_UEP_TRES_MASK k) (UEP_T_RES_ACK k) rx XOR RB_UEP_R_TOG_1 k, tx,
                    wr_dma UEP0_RT_DMA (R32_UEP_DMA w1 UEP0_RT_DMA + ucast (R16_USB_RX_LEN w1)) w1));
        Some (wr_ctrl (UEP_RX_CTRL UEP0) rx (wr_ctrl (UEP_TX_CTRL UEP0) tx w5)) })"

section \<open>The other endpoints\<close>

definition usb2_in_transfer_handler ::
    "usb_consts \<Rightarrow> ('a usb2_world_scheme) usb_env \<Rightarrow> u8 \<Rightarrow> 'a usb2_world_scheme \<Rightarrow> 'a usb2_world_scheme option" where
  "usb2_in_transfer_handler k e endp_num w = do {
     let n = unat endp_num;
     let d = usb2_backend_current_device w;
     tx_ctrl \<leftarrow> usb2_get_tx_endpoint_ctrl_reg endp_num;
     rx_ctrl \<leftarrow> usb2_get_rx_endpoint_ctrl_reg endp_num;
     t_len \<leftarrow> usb2_get_tx_endpoint_len_reg endp_num;
     addr \<leftarrow> usb2_get_tx_endpoint_addr_reg endp_num;
     let tx = R8_UEP_CTRL w tx_ctrl;
     let rx = R8_UEP_CTRL w rx_ctrl;
     let req = usb_setup_req w;
     (rx, w6) \<leftarrow>
       (if R32_UEP_DMA w addr \<noteq> 0 then
          let mps = ep_max_packet_size (ep_tx (endpoints (dev2 w)) n);
              len = (if mps < endp_tx_remaining_bytes w n then mps else endp_tx_remaining_bytes w n);
              w1 = w\<lparr>usb_setup_req_data_size := usb_setup_req_data_size w + len\<rparr>;
              w2 = w1\<lparr>endp_tx_remaining_bytes := (endp_tx_remaining_bytes w1)(n := endp_tx_remaining_bytes w1 n - len)\<rparr>
          in if endp_tx_remaining_bytes w2 n = 0 then do {
               let w3 = wr_tlen t_len 0 w2;
               let (rx, tx) =
                 (if endp_num = 0 \<and> bRequestType req AND USB_REQ_TYP_IN k = 0
                  then (UEP_R_RES_ACK k OR RB_UEP_R_TOG_0 k, UEP_T_RES_NAK k OR RB_UEP_T_TOG_0 k)
                  else if endp_num = 0 \<and> bRequestType req AND USB_REQ_TYP_IN k \<noteq> 0 \<and>
                    (wLength req \<le> usb_setup_req_data_size w3 \<or> len < mps)
                  then (UEP_R_RES_ACK k OR RB_UEP_R_TOG_1 k, UEP_T_RES_NAK k OR RB_UEP_T_TOG_1 k)
                  else (rx, tx XOR RB_UEP_T_TOG_1 k));
               let w4 = wr_ctrl tx_ctrl (set_res (RB_UEP_TRES_MASK k) (UEP_T_RES_NAK k) tx) w3;
               w5 \<leftarrow> call_tx_complete e (tx_complete (endpoints (dev2 w4)) n) Ack w4;
               Some (rx, if endp_num \<noteq> 0 then wr_dma addr (ep_buffer (ep_tx (endpoints (usb_devices w5 d)) n)) w5 else w5) }
             else
               let w3 = wr_dma addr (R32_UEP_DMA w2 addr + ucast len) w2
               in Some (rx, wr_ctrl tx_ctrl (set_res (RB_UEP_TRES_MASK k) (UEP_T_RES_ACK k) tx XOR RB_UEP_T_TOG_1 k) w3)
        else Some (rx, wr_ctrl tx_ctrl (set_res (RB_UEP_TRES_MASK k) (UEP_T_RES_NAK k) tx) w));
     Some (wr_ctrl rx_ctrl rx w6) }"

definition usb2_out_transfer_handler ::
    "usb_consts \<Rightarrow> ('a usb2_world_scheme) usb_env \<Rightarrow> u8 \<Rightarrow> u16 \<Rightarrow> 'a usb2_world_scheme \<Rightarrow> 'a usb2_world_scheme option" where
  "usb2_out_transfer_handler k e endp_num num_bytes_received w = do {
     let n = unat endp_num;
     let d = usb2_backend_current_device w;
     rx_ctrl \<leftarrow> usb2_get_rx_endpoint_ctrl_reg endp_num;
     tx_ctrl \<leftarrow> usb2_get_tx_endpoint_ctrl_reg endp_num;
     addr \<leftarrow> usb2_get_rx_endpoint_addr_reg endp_num;
     let rx = R8_UEP_CTRL w rx_ctrl;
     let req = usb_setup_req w;
     let buf = ep_buffer (ep_rx (endpoints (dev2 w)) n);
     (rx, w6) \<leftarrow>
       (if buf \<noteq> 0 then do {
          let w1 = (if endp_num = 0
            then w\<lparr>usb_setup_req_data_size := usb_setup_req_data_size w + num_bytes_received\<rparr> else w);
          (st, w2) \<leftarrow> call_rx_callback e (rx_callback (endpoints (dev2 w1)) n) buf num_bytes_received w1;
          let w3 = upd_device d (upd_ep_rx n (\<lambda>p. p\<lparr>ep_state := st\<rparr>)) w2;
          let w4 = wr_dma addr (ep_buffer (ep_rx (endpoints (usb_devices w3 d)) n)) w3;
          let req = usb_setup_req w4;
          Some
            (if endp_num = 0 \<and> bRequestType req AND USB_REQ_TYP_IN k \<noteq> 0
             then (UEP_R_RES_ACK k OR RB_UEP_R_TOG_0 k, wr_ctrl tx_ctrl (UEP_T_RES_NAK k OR RB_UEP_T_TOG_0 k) w4)
             else if endp_num = 0 \<and> bRequestType req AND USB_REQ_TYP_IN k = 0 \<and>
               wLength req \<le> usb_setup_req_data_size w4
             then (UEP_R_RES_NAK k OR RB_UEP_R_TOG_1 k, wr_ctrl tx_ctrl (UEP_T_RES_NAK k OR RB_UEP_T_TOG_1 k) w4)
             else
               (let r = set_res (RB_UEP_RRES_MASK k) st rx
                in if st = ENDP_STATE_ACK then r XOR RB_UEP_T_TOG_1 k else r, w4)) }
        else Some (set_res (RB_UEP_RRES_MASK k) (UEP_T_RES_NAK k) rx, w));
     Some (wr_ctrl rx_ctrl rx w6) }"

section \<open>What the device layer calls\<close>

definition usb2_endp_rx_set_state_callback ::
    "usb_consts \<Rightarrow> u8 \<Rightarrow> 'a usb2_world_scheme \<Rightarrow> 'a usb2_world_scheme option" where
  "usb2_endp_rx_set_state_callback k endp_num w = do {
     let st = ep_state (ep_rx (endpoints (dev2 w)) (unat endp_num));
     r \<leftarrow> usb2_get_rx_endpoint_ctrl_reg endp_num;
     let rx = R8_UEP_CTRL w r;
     let rx = (if rx AND RB_UEP_RRES_MASK k \<noteq> UEP_R_RES_ACK k \<and> st = ENDP_STATE_ACK
       then rx XOR RB_UEP_T_TOG_1 k else rx);
     Some (wr_ctrl r (set_res (RB_UEP_TRES_MASK k) st rx) w) }"

definition usb2_endp_tx_set_state_callback ::
    "usb_consts \<Rightarrow> u8 \<Rightarrow> 'a usb2_world_scheme \<Rightarrow> 'a usb2_world_scheme option" where
  "usb2_endp_tx_set_state_callback k endp_num w = do {
     let st = ep_state (ep_tx (endpoints (dev2 w)) (unat endp_num));
     r \<leftarrow> usb2_get_tx_endpoint_ctrl_reg endp_num;
     Some (wr_ctrl r (set_res (RB_UEP_TRES_MASK k) st (R8_UEP_CTRL w r)) w) }"

definition usb2_enable_nak :: "usb_consts \<Rightarrow> bool \<Rightarrow> 'a usb2_world_scheme \<Rightarrow> 'a usb2_world_scheme" where
  "usb2_enable_nak k enable w =
     w\<lparr>R8_USB_INT_EN := (if enable then R8_USB_INT_EN w OR RB_USB_IE_DEV_NAK k
        else R8_USB_INT_EN w AND NOT (RB_USB_IE_DEV_NAK k))\<rparr>"

definition usb2_endp_tx_ready ::
    "usb_consts \<Rightarrow> u8 \<Rightarrow> u16 \<Rightarrow> 'a usb2_world_scheme \<Rightarrow> 'a usb2_world_scheme option" where
  "usb2_endp_tx_ready k endp_num n w = do {
     let i = unat endp_num;
     let endp = ep_tx (endpoints (dev2 w)) i;
     tx_ctrl \<leftarrow> usb2_get_tx_endpoint_ctrl_reg endp_num;
     t_len \<leftarrow> usb2_get_tx_endpoint_len_reg endp_num;
     addr \<leftarrow> usb2_get_tx_endpoint_addr_reg endp_num;
     let tx = R8_UEP_CTRL w tx_ctrl;
     let w1 = w\<lparr>endp_tx_remaining_bytes := (endp_tx_remaining_bytes w)(i := n)\<rparr>;
     let w2 = (if endp_num \<noteq> 0 then wr_dma addr (ep_buffer endp) w1 else w1);
     let len = (if ep_max_packet_size endp < endp_tx_remaining_bytes w2 i then ep_max_packet_size endp
       else endp_tx_remaining_bytes w2 i);
     let w3 = wr_tlen t_len len w2;
     Some (wr_ctrl tx_ctrl (set_res (RB_UEP_TRES_MASK k) (UEP_T_RES_ACK k) tx) w3) }"

text \<open>The function pointers the device layer calls; those of the USB 3.0 backend are given.\<close>

definition usb2_endpoints_backend_handled ::
    "usb_consts \<Rightarrow> (u8 \<Rightarrow> u16 \<Rightarrow> 'a usb2_world_scheme \<Rightarrow> 'a usb2_world_scheme option) \<Rightarrow>
     ('a usb2_world_scheme) usb_backends" where
  "usb2_endpoints_backend_handled k ready3 = \<lparr>be_usb2_endp_tx_ready = usb2_endp_tx_ready k,
     be_usb2_endp_rx_set_state_callback = usb2_endp_rx_set_state_callback k,
     be_usb2_endp_tx_set_state_callback = usb2_endp_tx_set_state_callback k,
     be_usb3_endp_tx_ready = ready3\<rparr>"

section \<open>The interrupt handler\<close>

definition PID_OUT :: u8 where "PID_OUT = 0"
definition PID_SOF :: u8 where "PID_SOF = 1"
definition PID_IN :: u8 where "PID_IN = 2"

text \<open>\<open>R8_USB_INT_FG = v\<close>.\<close>

definition write_int_fg :: "('a usb2_world_scheme) usb_env \<Rightarrow> u8 \<Rightarrow> 'a usb2_world_scheme \<Rightarrow> 'a usb2_world_scheme" where
  "write_int_fg e v w = w\<lparr>R8_USB_INT_FG := usb_int_fg_write e (R8_USB_INT_FG w) v\<rparr>"

definition usb2_passthrough_setup ::
    "usb_consts \<Rightarrow> ('a usb2_world_scheme) usb_env \<Rightarrow> 'a usb2_world_scheme \<Rightarrow> 'a usb2_world_scheme option" where
  "usb2_passthrough_setup k e w = do {
     (st, w1) \<leftarrow> call_passthrough_setup e (endp0_passthrough_setup_callback (endpoints (dev2 w))) (rx0_buffer2 w) 8 w;
     let w2 = upd_device (usb2_backend_current_device w) (upd_ep_rx 0 (\<lambda>p. p\<lparr>ep_state := st\<rparr>)) w1;
     let rx = set_res (RB_UEP_RRES_MASK k) st (R8_UEP_CTRL w2 (UEP_RX_CTRL UEP0));
     let rx = (if st = ENDP_STATE_ACK then rx XOR RB_UEP_T_TOG_1 k else rx);
     Some (wr_ctrl (UEP_RX_CTRL UEP0) rx (wr_ctrl (UEP_TX_CTRL UEP0) (UEP_T_RES_NAK k OR RB_UEP_T_TOG_1 k) w2)) }"

definition usb2_irq_setup ::
    "usb_consts \<Rightarrow> ('a usb2_world_scheme) usb_env \<Rightarrow> 'a usb2_world_scheme \<Rightarrow> 'a usb2_world_scheme option" where
  "usb2_irq_setup k e w =
     (if rx0_buffer2 w = 0 then None
      else do {
        let w1 = w\<lparr>usb_setup_req := load_setup (usb_memory w) (rx0_buffer2 w), usb_setup_req_data_size := 0\<rparr>;
        w2 \<leftarrow> (if ep0_passthrough_enabled w1 then usb2_passthrough_setup k e w1 else usb2_ep0_setup_stage_handler k e w1);
        Some (write_int_fg e (R8_USB_INT_FG w2) w2) })"

definition usb2_irq_transfer ::
    "usb_consts \<Rightarrow> ('a usb2_world_scheme) usb_env \<Rightarrow> u16 \<Rightarrow> u8 \<Rightarrow> u8 \<Rightarrow> bool \<Rightarrow> 'a usb2_world_scheme \<Rightarrow>
     'a usb2_world_scheme option" where
  "usb2_irq_transfer k e num_bytes_received endp pid togok w =
     (if pid = PID_OUT \<and> \<not> togok then Some (write_int_fg e (RB_USB_IF_TRANSFER k) w)
      else do {
        w1 \<leftarrow>
          (if pid = PID_IN then
             (if endp \<noteq> 0 \<or> ep0_passthrough_enabled w then usb2_in_transfer_handler k e endp w
              else usb2_ep0_in_handler k w)
           else if pid = PID_OUT then
             (if endp \<noteq> 0 \<or> ep0_passthrough_enabled w then usb2_out_transfer_handler k e endp num_bytes_received w
              else usb2_ep0_out_handler k e w)
           else Some w);
        Some (write_int_fg e (RB_USB_IF_TRANSFER k) w1) })"

definition usb2_irq_bus_reset ::
    "usb_consts \<Rightarrow> ('a usb2_world_scheme) usb_env \<Rightarrow> 'a usb2_world_scheme \<Rightarrow> 'a usb2_world_scheme option" where
  "usb2_irq_bus_reset k e w = do {
     w1 \<leftarrow> (case usb2_device_handle_bus_reset w of Default_handler \<Rightarrow> Some w | User_handler a \<Rightarrow> env_bus_reset e a w);
     let w2 = snd (usb2_set_device_address 0 w1);
     let w3 = upd_dev2 (\<lambda>v. v\<lparr>dev_addr := 0\<rparr>) w2;
     let w4 = usb2_setup_endpoints k w3;
     let w5 = upd_dev2 (\<lambda>v. v\<lparr>dev_state := DEFAULT\<rparr>) w4;
     Some (write_int_fg e (RB_USB_IF_BUSRST k) w5) }"

definition USBHS_IRQHandler ::
    "usb_consts \<Rightarrow> ('a usb2_world_scheme) usb_env \<Rightarrow> 'a usb2_world_scheme \<Rightarrow> 'a usb2_world_scheme option" where
  "USBHS_IRQHandler k e w =
     (let num_bytes_received = R16_USB_RX_LEN w;
          endp = (R8_USB_INT_ST w AND RB_DEV_ENDP_MASK k) AND 0xf;
          pid = drop_bit 4 (R8_USB_INT_ST w AND RB_DEV_TOKEN_MASK k);
          event = R8_USB_INT_FG w;
          togok = (R8_USB_INT_ST w AND RB_USB_ST_TOGOK k \<noteq> 0)
      in if event AND RB_USB_IF_SETUOACT k = 0 \<and> R8_USB_INT_ST w AND RB_USB_ST_NAK k \<noteq> 0 then do {
           w1 \<leftarrow> call_nak_callback e (nak_callback (endpoints (dev2 w))) endp w;
           Some (write_int_fg e (R8_USB_INT_FG w1) w1) }
         else if event AND RB_USB_IF_SETUOACT k \<noteq> 0 \<and> dev_state (dev2 w) \<noteq> POWERED then usb2_irq_setup k e w
         else if event AND RB_USB_IF_TRANSFER k \<noteq> 0 \<and> dev_state (dev2 w) \<noteq> POWERED
           then usb2_irq_transfer k e num_bytes_received endp pid togok w
         else if event AND RB_USB_IF_SUSPEND k \<noteq> 0 then Some (write_int_fg e (RB_USB_IF_SUSPEND k) w)
         else if event AND RB_USB_IF_FIFOOV k \<noteq> 0 then Some w
         else if event AND RB_USB_IF_BUSRST k \<noteq> 0 then usb2_irq_bus_reset k e w
         else Some w)"

section \<open>Fields of the control registers\<close>

lemma set_res_AND_mask: "v AND NOT m = 0 \<Longrightarrow> set_res m v x AND m = v"
  unfolding set_res_def by (auto simp: bit_eq_iff bit_simps)

lemma set_res_other: "v AND t = 0 \<Longrightarrow> t AND m = 0 \<Longrightarrow> set_res m v x AND t = x AND t"
  unfolding set_res_def by (auto simp: bit_eq_iff bit_simps)

lemma XOR_AND_other: "t AND m = (0 :: 'a :: len word) \<Longrightarrow> (x XOR t) AND m = x AND m"
  by (auto simp: bit_eq_iff bit_simps)

lemma XOR_AND_same: "(x XOR t) AND t = (NOT x) AND (t :: 'a :: len word)"
  by (auto simp: bit_eq_iff bit_simps)

lemma toggled:
  assumes "x AND t = (if b then t else (0 :: 'a :: len word))"
  shows "(x XOR t) AND t = (if \<not> b then t else 0)"
proof (cases b)
  case True
  with assms have "x AND t = t" by simp
  then have "(NOT x) AND t = 0" by (auto simp: bit_eq_iff bit_simps)
  then show ?thesis using True by (simp add: XOR_AND_same)
next
  case False
  with assms have "x AND t = 0" by simp
  then have "(NOT x) AND t = t" by (auto simp: bit_eq_iff bit_simps)
  then show ?thesis using False by (simp add: XOR_AND_same)
qed

lemma uep_tog_ok:
  assumes "uep_fields_ok k"
  shows "set_res (RB_UEP_TRES_MASK k) (UEP_T_RES_ACK k) x AND RB_UEP_T_TOG_1 k = x AND RB_UEP_T_TOG_1 k"
    "(x XOR RB_UEP_T_TOG_1 k) AND RB_UEP_TRES_MASK k = x AND RB_UEP_TRES_MASK k"
    "set_res (RB_UEP_TRES_MASK k) (UEP_T_RES_ACK k) x AND RB_UEP_TRES_MASK k = UEP_T_RES_ACK k"
    "set_res (RB_UEP_TRES_MASK k) (UEP_T_RES_NAK k) x AND RB_UEP_TRES_MASK k = UEP_T_RES_NAK k"
    "RB_UEP_T_TOG_1 k \<noteq> 0"
  using assms
  by (simp_all add: uep_fields_ok_def set_res_other XOR_AND_other set_res_AND_mask endp_state_defs)

section \<open>A concrete controller\<close>

text \<open>Values that satisfy the hypotheses on the BSP's constants, and a device whose descriptor of 18
  bytes at \<open>0x1000\<close> is sent in packets of 8.\<close>

definition demo_consts :: usb_consts where
  "demo_consts = \<lparr>USB_REQ_TYP_MASK = 0x60, USB_REQ_TYP_STANDARD = 0, USB_REQ_TYP_IN = 0x80, USB_GET_STATUS = 0,
     USB_CLEAR_FEATURE = 1, USB_SET_FEATURE = 3, USB_SET_ADDRESS = 5, USB_GET_DESCRIPTOR = 6,
     USB_GET_CONFIGURATION = 8, USB_SET_CONFIGURATION = 9, USB_GET_INTERFACE = 10, USB_SET_INTERFACE = 11,
     USB_DESCR_TYP_DEVICE = 1, USB_DESCR_TYP_CONFIG = 2, USB_DESCR_TYP_STRING = 3, sizeof_USB_DEV_DESCR = 18,
     off_DEV_bLength = 0, off_DEV_bMaxPacketSize0 = 7, off_CFG_wTotalLength = 2,
     UCST_HS = 0x40, UCST_FS = 0, UCST_LS = 0x20, RB_DEV_PU_EN = 0x10, RB_USB_INT_BUSY = 8, RB_USB_DMA_EN = 1,
     RB_USB_IE_SETUPACT = 0x20, RB_USB_IE_TRANS = 2, RB_USB_IE_SUSPEND = 4, RB_USB_IE_BUSRST = 1,
     RB_USB_IE_FIFOOV = 0x10, RB_USB_IE_DEV_NAK = 0x80, RB_USB_CLR_ALL = 2, RB_USB_RESET_SIE = 4,
     RB_UEP_TX_EN = (\<lambda>u. if u \<in> {UEP1, UEP3, UEP6} then 0x40 else 4),
     RB_UEP_RX_EN = (\<lambda>u. if u \<in> {UEP1, UEP3, UEP6} then 0x80 else 8),
     RB_UEP_T_TOG_0 = 0, RB_UEP_T_TOG_1 = 8, RB_UEP_R_TOG_0 = 0, RB_UEP_R_TOG_1 = 8,
     UEP_T_RES_ACK = 0, UEP_T_RES_NAK = 2, UEP_T_RES_STALL = 3, UEP_R_RES_ACK = 0, UEP_R_RES_NAK = 2,
     RB_UEP_TRES_MASK = 3, RB_UEP_RRES_MASK = 3, RB_DEV_ENDP_MASK = 0xf, RB_DEV_TOKEN_MASK = 0x30,
     RB_USB_ST_TOGOK = 0x40, RB_USB_ST_NAK = 0x80, RB_USB_IF_SETUOACT = 0x20, RB_USB_IF_TRANSFER = 2,
     RB_USB_IF_SUSPEND = 4, RB_USB_IF_FIFOOV = 0x10, RB_USB_IF_BUSRST = 1\<rparr>"

definition demo_usb2 :: usb2_world where
  "demo_usb2 = \<lparr>usb_crit = crit_init, usb_memory = (\<lambda>a. if a = 0x1000 then 18 else ucast a),
     usb_devices = (\<lambda>_. upd_ep_rx 0 (\<lambda>p. p\<lparr>ep_buffer := 0x20020000\<rparr>)
       (usb_device_initial\<lparr>dev_state := DEFAULT,
          usb_descriptors := (usb_descriptors usb_device_initial)\<lparr>usb2_device_descr := 0x1000\<rparr>\<rparr>)),
     usb2_backend_current_device = Usb_device_0, desc_head = 0, endp0_current_transfer_size = 0,
     endp0_remaining_bytes = 0, ep0_passthrough_enabled = False, endp_tx_remaining_bytes = (\<lambda>_. 0),
     usb_setup_req = \<lparr>bRequestType = 0x80, bRequest = 6, wValue = 0x100, wIndex = 0, wLength = 64\<rparr>,
     usb_setup_req_data_size = 0, usb2_endp0_max_packet_size = 8, usb2_device_handle_bus_reset = Default_handler,
     R8_USB_CTRL = 0, R8_USB_INT_EN = 0, R8_USB_DEV_AD = 0, R8_USB_INT_FG = 0, R8_USB_INT_ST = 0, R16_USB_RX_LEN = 0,
     R8_UEP_MOD = (\<lambda>_. 0), R8_UEP_CTRL = (\<lambda>_. 2), R32_UEP_DMA = (\<lambda>_. 0x20020000), R16_UEP_T_LEN = (\<lambda>_. 0),
     R16_UEP_MAX_LEN = (\<lambda>_. 0)\<rparr>"

lemma demo_consts_ok: "usb_requests_ok demo_consts" "uep_fields_ok demo_consts" "usb_status_ok demo_consts"
  by (simp_all add: usb_requests_ok_def uep_fields_ok_def usb_status_ok_def demo_consts_def endp_state_defs)

end
