(* ===== verification/Usb_Packets.thy ===== *)
theory Usb_Packets
  imports C_Base
begin

text \<open>
  How a USB transfer splits its data: the reference \<open>data_packets\<close> the control endpoints of both
  backends are compared with. A transfer ends with the first packet shorter than the maximum packet
  size, so data that fills its last packet is followed by an empty one.
\<close>

function data_packets :: "nat \<Rightarrow> 'a list \<Rightarrow> 'a list list" where
  "data_packets m xs = (if m = 0 \<or> length xs < m then [xs] else take m xs # data_packets m (drop m xs))"
  by pat_completeness auto
termination by (relation "measure (\<lambda>(m, xs). length xs)") auto

declare data_packets.simps [simp del]

lemma data_packets_short: "length xs < m \<Longrightarrow> data_packets m xs = [xs]"
  by (simp add: data_packets.simps)

lemma data_packets_more: "0 < m \<Longrightarrow> m \<le> length xs \<Longrightarrow> data_packets m xs = take m xs # data_packets m (drop m xs)"
  by (subst data_packets.simps) simp

lemma concat_data_packets: "concat (data_packets m xs) = xs"
  by (induction m xs rule: data_packets.induct) (subst data_packets.simps, simp)

lemma length_data_packets: "0 < m \<Longrightarrow> length (data_packets m xs) = length xs div m + 1"
proof (induction m xs rule: data_packets.induct)
  case (1 m xs)
  show ?case
  proof (cases "length xs < m")
    case True
    then show ?thesis by (simp add: data_packets_short)
  next
    case False
    then have "length xs div m = (length xs - m) div m + 1" using 1(2) by (simp add: le_div_geq)
    then show ?thesis using False 1 by (simp add: data_packets_more)
  qed
qed

lemma data_packets_ne: "data_packets m xs \<noteq> []"
  by (subst data_packets.simps) simp

lemma data_packets_full: "0 < m \<Longrightarrow> p \<in> set (butlast (data_packets m xs)) \<Longrightarrow> length p = m"
proof (induction m xs rule: data_packets.induct)
  case (1 m xs)
  show ?case
  proof (cases "length xs < m")
    case True
    then show ?thesis using 1(3) by (simp add: data_packets_short)
  next
    case False
    then have "p = take m xs \<or> p \<in> set (butlast (data_packets m (drop m xs)))"
      using 1(2,3) data_packets_ne [of m "drop m xs"] by (simp add: data_packets_more)
    then show ?thesis using False 1(1,2) by auto
  qed
qed

lemma data_packets_last: "0 < m \<Longrightarrow> length (last (data_packets m xs)) < m"
proof (induction m xs rule: data_packets.induct)
  case (1 m xs)
  show ?case
  proof (cases "length xs < m")
    case True
    then show ?thesis by (simp add: data_packets_short)
  next
    case False
    then show ?thesis using 1 data_packets_ne [of m "drop m xs"] by (simp add: data_packets_more)
  qed
qed

text \<open>Data toggles alternate, from the given one.\<close>

primrec with_toggles :: "bool \<Rightarrow> 'a list \<Rightarrow> (bool \<times> 'a) list" where
  "with_toggles t [] = []"
| "with_toggles t (x # xs) = (t, x) # with_toggles (\<not> t) xs"

lemma map_snd_with_toggles [simp]: "map snd (with_toggles t xs) = xs"
  by (induction xs arbitrary: t) simp_all

section \<open>Regions of memory\<close>

lemma take_mem_bytes: "n \<le> k \<Longrightarrow> take n (mem_bytes m a k) = mem_bytes m a n"
  by (rule nth_equalityI) (simp_all add: mem_bytes_def)

lemma drop_mem_bytes: "n \<le> k \<Longrightarrow> drop n (mem_bytes m a k) = mem_bytes m (a + of_nat n) (k - n)"
  using mem_bytes_append [of m a n "k - n"] by simp

lemma mem_bytes_copy_apart:
  "apart a n dst k \<Longrightarrow> l \<le> k \<Longrightarrow> mem_bytes (mem_copy dst src l m) a n = mem_bytes m a n"
  by (rule nth_equalityI) (auto simp: mem_bytes_def mem_copy_def apart_def dest: spec)

lemma mem_bytes_copied [simp]:
  "mem_bytes (mem_copy dst src (unat (l :: u16)) m) dst (unat l) = mem_bytes m src (unat l)"
  by (intro mem_bytes_copy_dst order.strict_implies_order order.strict_trans [OF unat_u16_less]) simp

lemma apart_drop: "apart a n b k \<Longrightarrow> i \<le> n \<Longrightarrow> apart (a + of_nat i) (n - i) b k"
  unfolding apart_def
proof (intro allI impI)
  fix j assume "\<forall>i<n. k \<le> unat (a + of_nat i - b)" "i \<le> n" "j < n - i"
  then have "i + j < n" by linarith
  with \<open>\<forall>i<n. _\<close> have "k \<le> unat (a + of_nat (i + j) - b)" by blast
  then show "k \<le> unat (a + of_nat i + of_nat j - b)" unfolding of_nat_add add.assoc .
qed

text \<open>What writing a region leaves alone.\<close>

definition same_outside :: "u32 \<Rightarrow> nat \<Rightarrow> mem \<Rightarrow> mem \<Rightarrow> bool" where
  "same_outside b n m m' \<longleftrightarrow> (\<forall>a. n \<le> unat (a - b) \<longrightarrow> m' a = m a)"

lemma same_outside_refl [simp]: "same_outside b n m m"
  by (simp add: same_outside_def)

lemma same_outside_trans: "same_outside b n m m' \<Longrightarrow> same_outside b n m' m'' \<Longrightarrow> same_outside b n m m''"
  by (simp add: same_outside_def)

lemma same_outside_copy: "k \<le> n \<Longrightarrow> same_outside b n m (mem_copy b s k m)"
  by (simp add: same_outside_def mem_copy_def)

lemma same_outside_write: "length bs \<le> n \<Longrightarrow> same_outside b n m (mem_write b bs m)"
  by (simp add: same_outside_def mem_write_def)

lemma same_outside_at: "same_outside b n m m' \<Longrightarrow> apart a k b n \<Longrightarrow> i < k \<Longrightarrow> m' (a + of_nat i) = m (a + of_nat i)"
  by (simp add: same_outside_def apart_def)

lemma same_outside_bytes: "same_outside b n m m' \<Longrightarrow> apart a k b n \<Longrightarrow> mem_bytes m' a k = mem_bytes m a k"
  by (rule nth_equalityI) (simp_all add: mem_bytes_def same_outside_at)

lemma mem_bytes_at: "mem_bytes m a (length bs) = bs \<Longrightarrow> i < length bs \<Longrightarrow> m (a + of_nat i) = bs ! i"
proof -
  assume "mem_bytes m a (length bs) = bs" and "i < length bs"
  moreover have "mem_bytes m a (length bs) ! i = m (a + of_nat i)" using \<open>i < length bs\<close> by (simp add: mem_bytes_def)
  ultimately show ?thesis by simp
qed

end
