(* ===== verification/Usb2_Bulk.thy ===== *)
theory Usb2_Bulk
  imports Usb2 Usb_Packets
begin

text \<open>
  Transfers on the endpoints above 0 of the USB 2.0 backend. The host's side of an IN transfer is
  \<open>usb2_in_packets\<close>: each IN token reads the armed packet (its toggle, and \<open>T_LEN\<close> bytes from the
  endpoint's DMA address) and ends with the interrupt. The lemmas show how many bytes of a buffer
  reach the host, in which packets, and that \<open>tx_complete\<close> is called once, after the last one.
\<close>

section \<open>An IN token on the bus\<close>

definition usb2_in_token :: "usb_consts \<Rightarrow> uep \<Rightarrow> 'a usb2_world_scheme \<Rightarrow> (bool \<times> u8 list) option" where
  "usb2_in_token k u w =
     (let tx = R8_UEP_CTRL w (UEP_TX_CTRL u) in
      if tx AND RB_UEP_TRES_MASK k = UEP_T_RES_ACK k
      then Some (tx AND RB_UEP_T_TOG_1 k = RB_UEP_T_TOG_1 k,
        mem_bytes (usb_memory w) (R32_UEP_DMA w (UEP_TX_DMA u)) (unat (R16_UEP_T_LEN w u)))
      else None)"

text \<open>The interrupt that ends the transaction: the hardware has set the status and flag registers.\<close>

definition usb2_in_event ::
    "usb_consts \<Rightarrow> ('a usb2_world_scheme) usb_env \<Rightarrow> u8 \<Rightarrow> 'a usb2_world_scheme \<Rightarrow> 'a usb2_world_scheme option" where
  "usb2_in_event k e ep w =
     USBHS_IRQHandler k e (w\<lparr>R8_USB_INT_ST := ep OR push_bit 4 PID_IN, R8_USB_INT_FG := RB_USB_IF_TRANSFER k\<rparr>)"

primrec usb2_in_packets ::
    "usb_consts \<Rightarrow> ('a usb2_world_scheme) usb_env \<Rightarrow> u8 \<Rightarrow> uep \<Rightarrow> nat \<Rightarrow> 'a usb2_world_scheme \<Rightarrow>
     ((bool \<times> u8 list) list \<times> 'a usb2_world_scheme) option" where
  "usb2_in_packets k e ep u 0 w = Some ([], w)"
| "usb2_in_packets k e ep u (Suc n) w = do {
     p \<leftarrow> usb2_in_token k u w;
     w1 \<leftarrow> usb2_in_event k e ep w;
     (ps, w2) \<leftarrow> usb2_in_packets k e ep u n w1;
     Some (p # ps, w2) }"

lemma int_st_fields:
  assumes "ep < 16"
  shows "(ep OR push_bit 4 PID_IN) AND 0x80 = 0" "((ep OR push_bit 4 PID_IN) AND 0xf) AND 0xf = ep"
    "drop_bit 4 ((ep OR push_bit 4 PID_IN) AND 0x30) = PID_IN" "ep AND 0xf = ep"
proof -
  have "unat ep < 16" using assms by (simp add: word_less_nat_alt)
  then have "unat ep \<in> {0,1,2,3,4,5,6,7,8,9,10,11,12,13,14,15}"
    unfolding insert_iff empty_iff by presburger
  moreover have "ep = of_nat (unat ep)" by simp
  ultimately have e: "ep \<in> {0,1,2,3,4,5,6,7,8,9,10,11,12,13,14,15}"
    by (elim insertE emptyE) (simp_all add: word_unat_eq_iff)
  then show "(ep OR push_bit 4 PID_IN) AND 0x80 = 0" "((ep OR push_bit 4 PID_IN) AND 0xf) AND 0xf = ep"
    "drop_bit 4 ((ep OR push_bit 4 PID_IN) AND 0x30) = PID_IN" "ep AND 0xf = ep"
    by (elim insertE emptyE; simp add: PID_IN_def)+
qed

lemma in_event_handler:
  assumes "usb_status_ok k" and "ep < 16" and "ep \<noteq> 0" and "dev_state (dev2 w) \<noteq> POWERED"
  shows "usb2_in_event k e ep w = do {
      w1 \<leftarrow> usb2_in_transfer_handler k e ep
        (w\<lparr>R8_USB_INT_ST := ep OR push_bit 4 PID_IN, R8_USB_INT_FG := RB_USB_IF_TRANSFER k\<rparr>);
      Some (write_int_fg e (RB_USB_IF_TRANSFER k) w1) }"
  using assms int_st_fields [OF assms(2)]
  by (simp add: usb2_in_event_def USBHS_IRQHandler_def Let_def usb_status_ok_def usb2_irq_transfer_def
      PID_IN_def PID_OUT_def)

section \<open>Packets of a bulk transfer\<close>

text \<open>The backend does not end a transfer that fills its last packet with an empty one.\<close>

function bulk_packets :: "nat \<Rightarrow> 'a list \<Rightarrow> 'a list list" where
  "bulk_packets m xs = (if m = 0 \<or> length xs \<le> m then [xs] else take m xs # bulk_packets m (drop m xs))"
  by pat_completeness auto
termination by (relation "measure (\<lambda>(m, xs). length xs)") auto

declare bulk_packets.simps [simp del]

lemma bulk_packets_short: "length xs \<le> m \<Longrightarrow> bulk_packets m xs = [xs]"
  by (simp add: bulk_packets.simps)

lemma bulk_packets_more: "0 < m \<Longrightarrow> m < length xs \<Longrightarrow> bulk_packets m xs = take m xs # bulk_packets m (drop m xs)"
  by (subst bulk_packets.simps) simp

lemma concat_bulk_packets: "concat (bulk_packets m xs) = xs"
  by (induction m xs rule: bulk_packets.induct) (subst bulk_packets.simps, simp)

lemma bulk_packets_ne: "bulk_packets m xs \<noteq> []"
  by (subst bulk_packets.simps) simp

text \<open>\<open>r\<close> bytes are left, counted by packets of which the armed one, at \<open>a\<close>, has \<open>l\<close> bytes.\<close>

definition bulk_sending :: "usb_consts \<Rightarrow> u8 \<Rightarrow> uep \<Rightarrow> u32 \<Rightarrow> u16 \<Rightarrow> u16 \<Rightarrow> bool \<Rightarrow> 'a usb2_world_scheme \<Rightarrow> bool" where
  "bulk_sending k ep u a r l tog w \<longleftrightarrow>
     endp_tx_remaining_bytes w (unat ep) = r \<and> R32_UEP_DMA w (UEP_TX_DMA u) = a \<and> a \<noteq> 0 \<and> R16_UEP_T_LEN w u = l \<and>
     R8_UEP_CTRL w (UEP_TX_CTRL u) AND RB_UEP_TRES_MASK k = UEP_T_RES_ACK k \<and>
     R8_UEP_CTRL w (UEP_TX_CTRL u) AND RB_UEP_T_TOG_1 k = (if tog then RB_UEP_T_TOG_1 k else 0)"

text \<open>Nothing left: the endpoint answers NAK until it is given data again, with toggle \<open>tog\<close>.\<close>

definition bulk_idle :: "usb_consts \<Rightarrow> u8 \<Rightarrow> uep \<Rightarrow> bool \<Rightarrow> 'a usb2_world_scheme \<Rightarrow> bool" where
  "bulk_idle k ep u tog w \<longleftrightarrow>
     endp_tx_remaining_bytes w (unat ep) = 0 \<and> R16_UEP_T_LEN w u = 0 \<and>
     R8_UEP_CTRL w (UEP_TX_CTRL u) AND RB_UEP_TRES_MASK k = UEP_T_RES_NAK k \<and>
     R8_UEP_CTRL w (UEP_TX_CTRL u) AND RB_UEP_T_TOG_1 k = (if tog then RB_UEP_T_TOG_1 k else 0)"

text \<open>What the last interrupt does once the endpoint is idle: the user's handler, then the registers.\<close>

definition bulk_complete ::
    "usb_consts \<Rightarrow> ('a usb2_world_scheme) usb_env \<Rightarrow> u8 \<Rightarrow> uep \<Rightarrow> u8 \<Rightarrow> 'a usb2_world_scheme \<Rightarrow> 'a usb2_world_scheme option" where
  "bulk_complete k e ep u rx w = do {
     w1 \<leftarrow> call_tx_complete e (tx_complete (endpoints (dev2 w)) (unat ep)) Ack w;
     Some (write_int_fg e (RB_USB_IF_TRANSFER k) (wr_ctrl (UEP_RX_CTRL u) rx
       (wr_dma (UEP_TX_DMA u) (ep_buffer (ep_tx (endpoints (usb_devices w1 (usb2_backend_current_device w))) (unat ep))) w1))) }"

text \<open>Bank \<open>u\<close> serves endpoint \<open>ep\<close>, and the registers are laid out as the code assumes.\<close>

definition bulk_endpoint :: "usb_consts \<Rightarrow> u8 \<Rightarrow> uep \<Rightarrow> bool" where
  "bulk_endpoint k ep u \<longleftrightarrow> uep_fields_ok k \<and> usb_status_ok k \<and> ep < 16 \<and> ep \<noteq> 0 \<and> endp_bank ep = Some u"

lemma bulk_endpoint_regs:
  assumes "bulk_endpoint k ep u"
  shows "usb2_get_tx_endpoint_ctrl_reg ep = Some (UEP_TX_CTRL u)" "usb2_get_rx_endpoint_ctrl_reg ep = Some (UEP_RX_CTRL u)"
    "usb2_get_tx_endpoint_len_reg ep = Some u" "usb2_get_tx_endpoint_addr_reg ep = Some (UEP_TX_DMA u)"
    "usb2_get_rx_endpoint_addr_reg ep = Some (UEP_RX_DMA u)"
  using assms bank_UEP0 [of ep]
  by (auto simp: bulk_endpoint_def usb2_get_tx_endpoint_ctrl_reg_def usb2_get_rx_endpoint_ctrl_reg_def
      usb2_get_tx_endpoint_len_reg_def usb2_get_tx_endpoint_addr_reg_def usb2_get_rx_endpoint_addr_reg_def)

definition bulk_keeps :: "'a usb2_world_scheme \<Rightarrow> 'a usb2_world_scheme \<Rightarrow> bool" where
  "bulk_keeps w w' \<longleftrightarrow> usb_devices w' = usb_devices w \<and> usb2_backend_current_device w' = usb2_backend_current_device w \<and>
     usb_memory w' = usb_memory w \<and> usb_crit w' = usb_crit w \<and> usb2_world.more w' = usb2_world.more w"

lemma bulk_keeps_trans [trans]: "bulk_keeps w w1 \<Longrightarrow> bulk_keeps w1 w2 \<Longrightarrow> bulk_keeps w w2"
  by (simp add: bulk_keeps_def)

definition bulk_ready :: "u8 \<Rightarrow> u16 \<Rightarrow> 'a usb2_world_scheme \<Rightarrow> bool" where
  "bulk_ready ep mps w \<longleftrightarrow> dev_state (dev2 w) \<noteq> POWERED \<and> ep_max_packet_size (ep_tx (endpoints (dev2 w)) (unat ep)) = mps"

lemma bulk_token:
  assumes "bulk_endpoint k ep u" and "bulk_sending k ep u a r l tog w"
  shows "usb2_in_token k u w = Some (tog, mem_bytes (usb_memory w) a (unat l))"
  using assms uep_tog_ok(5) [of k] by (simp add: usb2_in_token_def bulk_sending_def bulk_endpoint_def Let_def)

text \<open>A packet that is not the last: the next one is armed behind it, with the other toggle and the
  same length.\<close>

lemma bulk_more:
  assumes e: "bulk_endpoint k ep u" and s: "bulk_sending k ep u a r l tog w" and w: "bulk_ready ep mps w"
    and r: "mps < r" and a: "a + ucast mps \<noteq> 0"
  shows "\<exists>w'. usb2_in_event k e ep w = Some w' \<and> bulk_sending k ep u (a + ucast mps) (r - mps) l (\<not> tog) w' \<and>
    bulk_ready ep mps w' \<and> bulk_keeps w w'"
proof -
  let ?tx = "R8_UEP_CTRL w (UEP_TX_CTRL u)"
  let ?tx' = "set_res (RB_UEP_TRES_MASK k) (UEP_T_RES_ACK k) ?tx XOR RB_UEP_T_TOG_1 k"
  have k: "uep_fields_ok k" "usb_status_ok k" "ep < 16" "ep \<noteq> 0" using e by (simp_all add: bulk_endpoint_def)
  have r0: "r - mps \<noteq> 0" using r by auto
  have tx: "?tx' AND RB_UEP_TRES_MASK k = UEP_T_RES_ACK k"
    "?tx' AND RB_UEP_T_TOG_1 k = (if \<not> tog then RB_UEP_T_TOG_1 k else 0)"
    using uep_tog_ok [OF k(1)] toggled [of "set_res (RB_UEP_TRES_MASK k) (UEP_T_RES_ACK k) ?tx" "RB_UEP_T_TOG_1 k" tog] s
    by (simp_all add: bulk_sending_def)
  show ?thesis
    using s w r r0 a tx k(4) bulk_endpoint_regs [OF e]
    by (simp add: in_event_handler [OF k(2-4)] bulk_sending_def bulk_ready_def usb2_in_transfer_handler_def Let_def
        write_int_fg_def bulk_keeps_def)
qed

text \<open>The last packet: the endpoint goes idle, then the user's handler is called, once.\<close>

lemma uep_tog_nak:
  assumes "uep_fields_ok k"
  shows "set_res (RB_UEP_TRES_MASK k) (UEP_T_RES_NAK k) x AND RB_UEP_T_TOG_1 k = x AND RB_UEP_T_TOG_1 k"
proof (rule set_res_other)
  let ?t = "RB_UEP_T_TOG_1 k"
  have t: "?t AND 3 = 0" using assms by (simp add: uep_fields_ok_def)
  have "?t AND 2 = (?t AND 3) AND 2" by (simp add: and.assoc)
  then have "2 AND ?t = 0" using t by (simp add: and.commute)
  then show "UEP_T_RES_NAK k AND ?t = 0" using assms by (simp add: uep_fields_ok_def endp_state_defs)
  show "?t AND RB_UEP_TRES_MASK k = 0" using t assms by (simp add: uep_fields_ok_def)
qed

lemma bulk_last:
  assumes e: "bulk_endpoint k ep u" and s: "bulk_sending k ep u a r l tog w" and w: "bulk_ready ep mps w" and r: "r \<le> mps"
  shows "\<exists>w1. usb2_in_event k e ep w = bulk_complete k e ep u (R8_UEP_CTRL w (UEP_RX_CTRL u)) w1 \<and>
    bulk_idle k ep u (\<not> tog) w1 \<and> bulk_keeps w w1"
proof -
  let ?tx = "R8_UEP_CTRL w (UEP_TX_CTRL u)"
  let ?tx' = "set_res (RB_UEP_TRES_MASK k) (UEP_T_RES_NAK k) (?tx XOR RB_UEP_T_TOG_1 k)"
  let ?w = "w\<lparr>R8_USB_INT_ST := ep OR push_bit 4 PID_IN, R8_USB_INT_FG := RB_USB_IF_TRANSFER k,
    usb_setup_req_data_size := usb_setup_req_data_size w + r,
    endp_tx_remaining_bytes := (endp_tx_remaining_bytes w)(unat ep := 0)\<rparr>"
  let ?w1 = "wr_ctrl (UEP_TX_CTRL u) ?tx' (wr_tlen u 0 ?w)"
  have k: "uep_fields_ok k" "usb_status_ok k" "ep < 16" "ep \<noteq> 0" using e by (simp_all add: bulk_endpoint_def)
  have nr: "(mps < r) = False" using r by auto
  have tx: "?tx' AND RB_UEP_TRES_MASK k = UEP_T_RES_NAK k"
    "?tx' AND RB_UEP_T_TOG_1 k = (if \<not> tog then RB_UEP_T_TOG_1 k else 0)"
    using uep_tog_ok [OF k(1)] uep_tog_nak [OF k(1)] toggled [of ?tx "RB_UEP_T_TOG_1 k" tog] s
    by (simp_all add: bulk_sending_def)
  have "usb2_in_event k e ep w = bulk_complete k e ep u (R8_UEP_CTRL w (UEP_RX_CTRL u)) ?w1"
    using s w nr k(4) bulk_endpoint_regs [OF e]
    by (simp add: in_event_handler [OF k(2-4)] bulk_sending_def bulk_ready_def usb2_in_transfer_handler_def Let_def
        bulk_complete_def)
  moreover have "bulk_idle k ep u (\<not> tog) ?w1" using tx by (simp add: bulk_idle_def)
  moreover have "bulk_keeps w ?w1" by (simp add: bulk_keeps_def)
  ultimately show ?thesis by (intro exI [of _ ?w1]) simp
qed

text \<open>A whole transfer: \<open>j\<close> packets before the last one.\<close>

lemma bulk_run:
  assumes "bulk_endpoint k ep u" and "bulk_sending k ep u a r l tog w" and "bulk_ready ep mps w"
    and "j * unat mps < unat r \<or> j = 0" and "unat r \<le> Suc j * unat mps" and "0 < j \<Longrightarrow> l = mps" and "l \<le> mps" and "mps \<noteq> 0"
    and "unat a + unat r < 2 ^ 32"
  shows "\<exists>ps p w1 w2 tog'. usb2_in_packets k e ep u j w = Some (ps, w1) \<and> usb2_in_token k u w1 = Some p \<and>
    ps @ [p] = with_toggles tog (bulk_packets (unat mps) (mem_bytes (usb_memory w) a (j * unat mps + unat l))) \<and>
    (\<exists>rx. usb2_in_event k e ep w1 = bulk_complete k e ep u rx w2) \<and> bulk_idle k ep u (\<not> fst p) w2 \<and> bulk_keeps w w2"
  using assms(2-9)
proof (induction j arbitrary: a r tog w)
  case 0
  have r: "r \<le> mps" using 0(4) by (simp add: word_le_nat_alt)
  have l: "unat l \<le> unat mps" using 0(6) by (simp add: word_le_nat_alt)
  from bulk_last [OF assms(1) 0(1,2) r, of e] bulk_token [OF assms(1) 0(1)] l
  show ?case by (fastforce simp: bulk_packets_short)
next
  case (Suc j)
  have pos: "0 < unat mps" using Suc.prems(7) by (simp add: unat_gt_0)
  have l: "l = mps" using Suc.prems(5) by simp
  have more: "unat mps < unat r" using Suc.prems(3) pos by (auto intro: order.strict_trans1 [rotated])
  then have r: "mps < r" by (simp add: word_less_nat_alt)
  have ur: "unat (r - mps) = unat r - unat mps" using r by (simp add: unat_sub)
  have ua: "unat (a + ucast mps) = unat a + unat mps"
    using Suc.prems(8) more by (subst unat_add_lem [THEN iffD1]) simp_all
  have a: "a + ucast mps \<noteq> 0" using ua pos by (metis add_is_0 less_numeral_extra(3) unat_0)
  from bulk_more [OF assms(1) Suc.prems(1,2) r a, of e] obtain w1 where w1: "usb2_in_event k e ep w = Some w1"
    "bulk_sending k ep u (a + ucast mps) (r - mps) l (\<not> tog) w1" "bulk_ready ep mps w1" "bulk_keeps w w1"
    by blast
  have c: "j * unat mps < unat (r - mps) \<or> j = 0" "unat (r - mps) \<le> Suc j * unat mps"
    "unat (a + ucast mps) + unat (r - mps) < 2 ^ 32"
    using Suc.prems(3,4,8) more by (simp_all add: ur ua less_diff_conv add.commute)
  from Suc.IH [OF w1(2,3) c(1,2) _ Suc.prems(6,7) c(3)] l obtain ps p w2 w3 where w2:
    "usb2_in_packets k e ep u j w1 = Some (ps, w2)" "usb2_in_token k u w2 = Some p"
    "ps @ [p] = with_toggles (\<not> tog) (bulk_packets (unat mps) (mem_bytes (usb_memory w1) (a + ucast mps) (j * unat mps + unat l)))"
    "\<exists>rx. usb2_in_event k e ep w2 = bulk_complete k e ep u rx w3" "bulk_idle k ep u (\<not> fst p) w3"
    "bulk_keeps w1 w3" by blast
  have m1: "usb_memory w1 = usb_memory w" using w1(4) by (simp add: bulk_keeps_def)
  have run: "usb2_in_packets k e ep u (Suc j) w = Some ((tog, mem_bytes (usb_memory w) a (unat mps)) # ps, w2)"
    using bulk_token [OF assms(1) Suc.prems(1)] w1(1) w2(1) l by simp
  have lt: "unat mps < Suc j * unat mps + unat l" using l pos by simp
  have "bulk_packets (unat mps) (mem_bytes (usb_memory w) a (Suc j * unat mps + unat l)) =
      mem_bytes (usb_memory w) a (unat mps) #
      bulk_packets (unat mps) (mem_bytes (usb_memory w) (a + ucast mps) (j * unat mps + unat l))"
    using lt pos by (simp add: bulk_packets_more take_mem_bytes drop_mem_bytes)
  then have "((tog, mem_bytes (usb_memory w) a (unat mps)) # ps) @ [p] =
      with_toggles tog (bulk_packets (unat mps) (mem_bytes (usb_memory w) a (Suc j * unat mps + unat l)))"
    using w2(3) m1 by simp
  with run w2(2,4,5) bulk_keeps_trans [OF w1(4) w2(6)] show ?case by blast
qed

section \<open>From the application's buffer to the host\<close>

text \<open>What the backend needs to send on endpoint \<open>i\<close>, whose next data toggle is \<open>tog\<close>, and that it is set
  up to send \<open>n\<close> bytes.\<close>

definition usb2_able :: "usb_consts \<Rightarrow> u16 \<Rightarrow> bool \<Rightarrow> nat \<Rightarrow> u16 \<Rightarrow> 'a usb2_world_scheme \<Rightarrow> bool" where
  "usb2_able k mps tog i n w \<longleftrightarrow> i \<in> {1..15} \<and> uep_fields_ok k \<and> bulk_ready (of_nat i) mps w \<and>
     (\<forall>u. endp_bank (of_nat i) = Some u \<longrightarrow>
       R8_UEP_CTRL w (UEP_TX_CTRL u) AND RB_UEP_T_TOG_1 k = (if tog then RB_UEP_T_TOG_1 k else 0))"

definition usb2_armed :: "usb_consts \<Rightarrow> u16 \<Rightarrow> bool \<Rightarrow> nat \<Rightarrow> u32 \<Rightarrow> u16 \<Rightarrow> 'a usb2_world_scheme \<Rightarrow> bool" where
  "usb2_armed k mps tog i a n w \<longleftrightarrow>
     (\<forall>u. endp_bank (of_nat i) = Some u \<longrightarrow> bulk_sending k (of_nat i) u a n (min n mps) tog w)"

lemma usb2_tx_ready_arms:
  assumes "usb2_able k mps tog (unat ep) n w" and "ep_buffer (ep_tx (endpoints (dev2 w)) (unat ep)) \<noteq> 0"
  shows "\<exists>w'. usb2_endp_tx_ready k ep n w = Some w' \<and>
    usb2_armed k mps tog (unat ep) (ep_buffer (ep_tx (endpoints (dev2 w)) (unat ep))) n w' \<and>
    usb_crit w' = usb_crit w \<and> usb_memory w' = usb_memory w \<and> usb_devices w' = usb_devices w \<and>
    usb2_backend_current_device w' = usb2_backend_current_device w"
proof -
  have r: "unat ep \<in> {1..15}" and k: "uep_fields_ok k" and b: "bulk_ready ep mps w"
    using assms(1) by (simp_all add: usb2_able_def)
  then have ep: "ep < 16" "ep \<noteq> 0" by (auto simp: word_less_nat_alt)
  obtain u where u: "endp_bank ep = Some u" using bank_Some [OF ep(1)] .
  have "u \<noteq> UEP0" using u ep(2) bank_UEP0 [of ep] by auto
  then have regs: "usb2_get_tx_endpoint_ctrl_reg ep = Some (UEP_TX_CTRL u)" "usb2_get_tx_endpoint_len_reg ep = Some u"
    "usb2_get_tx_endpoint_addr_reg ep = Some (UEP_TX_DMA u)"
    using u by (simp_all add: usb2_get_tx_endpoint_ctrl_reg_def usb2_get_tx_endpoint_len_reg_def usb2_get_tx_endpoint_addr_reg_def)
  have tog: "R8_UEP_CTRL w (UEP_TX_CTRL u) AND RB_UEP_T_TOG_1 k = (if tog then RB_UEP_T_TOG_1 k else 0)"
    using assms(1) u by (simp add: usb2_able_def)
  have mn: "(if mps < n then mps else n) = min n mps" by (auto simp: min_def)
  show ?thesis
    using regs ep(2) b assms(2) tog uep_tog_ok [OF k] u
    by (simp add: usb2_endp_tx_ready_def Let_def usb2_armed_def bulk_sending_def bulk_ready_def mn)
qed

interpretation usb2_tx: usb_tx_backend "usb2_endp_tx_ready k" "usb2_able k mps tog" "usb2_armed k mps tog"
    usb2_backend_current_device for k mps tog
  by unfold_locales
    (auto simp: usb2_tx_ready_arms, auto simp: usb2_able_def usb2_armed_def bulk_ready_def bulk_sending_def split: if_splits)

text \<open>How many bytes the packets of a transfer carry: every packet but that of a transfer of one packet
  has the maximum size, as the length register is set once, for the first.\<close>

definition bulk_length :: "nat \<Rightarrow> nat \<Rightarrow> nat" where
  "bulk_length mps n = (n - 1) div mps * mps + min n mps"

lemma bulk_length_short: "n \<le> mps \<Longrightarrow> bulk_length mps n = n"
  by (cases "n = mps") (auto simp: bulk_length_def)

lemma bulk_length_multiple:
  assumes "0 < mps" and "n mod mps = 0"
  shows "bulk_length mps n = n"
proof (cases "n div mps")
  case 0
  then show ?thesis using assms by (simp add: bulk_length_short div_eq_0_iff)
next
  case (Suc q)
  then have n: "n = mps + q * mps" using assms(2) div_mult_mod_eq [of n mps] by simp
  have "(n - 1) div mps = q" by (rule div_nat_eqI) (use n assms(1) in \<open>simp_all add: algebra_simps\<close>)
  then show ?thesis using n by (simp add: bulk_length_def)
qed

lemma bulk_length_over:
  assumes "0 < mps" and "mps < n" and "n mod mps \<noteq> 0"
  shows "bulk_length mps n = n + (mps - n mod mps)"
proof -
  define d r where "d = n div mps" and "r = n mod mps"
  have n: "n = mps * d + r" "r < mps" "r \<noteq> 0" using assms by (simp_all add: d_def r_def)
  have "(n - 1) div mps = d" by (rule div_nat_eqI) (use n in \<open>simp_all\<close>)
  then show ?thesis using n assms(2) unfolding bulk_length_def r_def [symmetric] by (simp add: mult.commute)
qed

lemma bulk_length_cover:
  assumes "0 < mps"
  shows "(n - 1) div mps * mps < n \<or> (n - 1) div mps = 0" "n \<le> Suc ((n - 1) div mps) * mps" "0 < (n - 1) div mps \<Longrightarrow> mps \<le> n"
proof -
  define q where "q = (n - 1) div mps * mps"
  have "n - 1 = q + (n - 1) mod mps" by (simp add: q_def)
  moreover have "(n - 1) mod mps < mps" using assms by simp
  ultimately have "n \<le> q + mps" "q < n \<or> q = 0" by linarith+
  then show "n \<le> Suc ((n - 1) div mps) * mps" "(n - 1) div mps * mps < n \<or> (n - 1) div mps = 0"
    using assms by (auto simp: q_def)
  show "0 < (n - 1) div mps \<Longrightarrow> mps \<le> n" using assms by (auto simp: div_greater_zero_iff)
qed

lemma usb2_bulk_transfer:
  assumes e: "bulk_endpoint k ep u" and a: "usb2_armed k mps tog (unat ep) a n w" and w: "bulk_ready ep mps w"
    and mps: "mps \<noteq> 0" and fit: "unat a + unat n < 2 ^ 32"
  shows "\<exists>ps p w1 w2. usb2_in_packets k e ep u ((unat n - 1) div unat mps) w = Some (ps, w1) \<and> usb2_in_token k u w1 = Some p \<and>
    ps @ [p] = with_toggles tog (bulk_packets (unat mps) (mem_bytes (usb_memory w) a (bulk_length (unat mps) (unat n)))) \<and>
    (\<exists>rx. usb2_in_event k e ep w1 = bulk_complete k e ep u rx w2) \<and> bulk_idle k ep u (\<not> fst p) w2 \<and> bulk_keeps w w2"
proof -
  let ?j = "(unat n - 1) div unat mps"
  have pos: "0 < unat mps" using mps by (simp add: unat_gt_0)
  have s: "bulk_sending k ep u a n (min n mps) tog w" using e a by (simp add: usb2_armed_def bulk_endpoint_def)
  have um: "unat (min n mps) = min (unat n) (unat mps)" by (auto simp: min_def word_le_nat_alt)
  have l: "0 < ?j \<Longrightarrow> min n mps = mps"
    using bulk_length_cover(3) [OF pos, of "unat n"] by (simp add: min_absorb2 word_le_nat_alt)
  have "?j * unat mps + unat (min n mps) = bulk_length (unat mps) (unat n)" by (simp add: bulk_length_def um)
  with bulk_run [OF e s w bulk_length_cover(1,2) [OF pos] l min.cobounded2 mps fit, of e] show ?thesis by auto
qed

lemma set_new_buffer_more:
  assumes "endp_tx_set_new_buffer (usb2_endpoints_backend_handled k ready3) d ep ptr n w = Some (True, w')"
    and "ep \<noteq> 0" and "dev_speed (usb_devices w d) \<noteq> USB30_SUPERSPEED"
  shows "usb2_world.more w' = usb2_world.more w"
proof -
  have "usb2_world.more w2 = usb2_world.more w1" if "usb2_endp_tx_ready k ep n w1 = Some w2" for w1 w2 :: "'a usb2_world_scheme"
    using that assms(2) by (auto simp: usb2_endp_tx_ready_def Let_def bind_eq_Some_conv split: if_splits)
  then show ?thesis using assms
    by (auto simp: endp_tx_set_new_buffer_def Let_def be_tx_ready_def usb2_endpoints_backend_handled_def bind_eq_Some_conv
        upd_device_def split: if_splits)
qed

lemma usb2_bulk_send:
  assumes e: "bulk_endpoint k ep u" and d: "usb2_backend_current_device w = d" "dev_speed (usb_devices w d) \<noteq> USB30_SUPERSPEED"
    "dev_state (usb_devices w d) \<noteq> POWERED" and c: "crit_ok (usb_crit w)"
    and mps: "ep_max_packet_size (ep_tx (endpoints (usb_devices w d)) (unat ep)) = mps" "mps \<noteq> 0"
    and n: "n \<le> ep_max_packet_size_with_burst (ep_tx (endpoints (usb_devices w d)) (unat ep))"
    and ptr: "ptr \<noteq> 0" "unat ptr + unat n < 2 ^ 32"
    and tog: "R8_UEP_CTRL w (UEP_TX_CTRL u) AND RB_UEP_T_TOG_1 k = (if tog then RB_UEP_T_TOG_1 k else 0)"
  shows "\<exists>w0 ps p w1 w2 rx. endp_tx_set_new_buffer (usb2_endpoints_backend_handled k ready3) d ep ptr n w = Some (True, w0) \<and>
    usb2_in_packets k e ep u ((unat n - 1) div unat mps) w0 = Some (ps, w1) \<and> usb2_in_token k u w1 = Some p \<and>
    ps @ [p] = with_toggles tog (bulk_packets (unat mps) (mem_bytes (usb_memory w) ptr (bulk_length (unat mps) (unat n)))) \<and>
    usb2_in_event k e ep w1 = bulk_complete k e ep u rx w2 \<and> bulk_idle k ep u (\<not> fst p) w2 \<and>
    bulk_keeps (w\<lparr>usb_devices := (usb_devices w)(d := upd_ep_tx (unat ep) (\<lambda>p. p\<lparr>ep_buffer := ptr\<rparr>) (usb_devices w d))\<rparr>) w2"
proof -
  have k: "uep_fields_ok k" "usb_status_ok k" "ep < 16" "ep \<noteq> 0" "endp_bank ep = Some u"
    using e by (simp_all add: bulk_endpoint_def)
  have r: "unat ep \<in> {1..15}" using k(3,4) by (auto simp: word_less_nat_alt unat_eq_zero Suc_le_eq unat_gt_0)
  have able: "usb2_able k mps tog (unat ep) n w"
    using r k d mps tog by (simp add: usb2_able_def bulk_ready_def)
  have "be_tx_ready (usb2_endpoints_backend_handled k ready3) (dev_speed (usb_devices w d)) = usb2_endp_tx_ready k"
    using d(2) by (simp add: be_tx_ready_def usb2_endpoints_backend_handled_def)
  from usb2_tx.set_new_buffer_sends [OF this d(1) able c ptr(1) n] obtain w0 where w0:
    "endp_tx_set_new_buffer (usb2_endpoints_backend_handled k ready3) d ep ptr n w = Some (True, w0)"
    "usb2_armed k mps tog (unat ep) ptr n w0" "usb_crit w0 = usb_crit w" "usb_memory w0 = usb_memory w"
    "usb2_backend_current_device w0 = d"
    "usb_devices w0 = (usb_devices w)(d := upd_ep_tx (unat ep) (\<lambda>p. p\<lparr>ep_buffer := ptr\<rparr>) (usb_devices w d))" by blast
  have "usb2_world.more w0 = usb2_world.more w" by (rule set_new_buffer_more [OF w0(1) k(4) d(2)])
  then have kp: "bulk_keeps (w\<lparr>usb_devices := (usb_devices w)(d := upd_ep_tx (unat ep) (\<lambda>p. p\<lparr>ep_buffer := ptr\<rparr>) (usb_devices w d))\<rparr>) w0"
    using w0(3-6) d(1) by (simp add: bulk_keeps_def)
  have "bulk_ready ep mps w0" using w0(5,6) d(3) mps(1) by (simp add: bulk_ready_def)
  from usb2_bulk_transfer [OF e w0(2) this mps(2) ptr(2), of e] obtain ps p w1 w2 rx where
    "usb2_in_packets k e ep u ((unat n - 1) div unat mps) w0 = Some (ps, w1)" "usb2_in_token k u w1 = Some p"
    "ps @ [p] = with_toggles tog (bulk_packets (unat mps) (mem_bytes (usb_memory w0) ptr (bulk_length (unat mps) (unat n))))"
    "usb2_in_event k e ep w1 = bulk_complete k e ep u rx w2" "bulk_idle k ep u (\<not> fst p) w2" "bulk_keeps w0 w2" by blast
  then show ?thesis unfolding w0(4) using w0(1) bulk_keeps_trans [OF kp] by blast
qed

text \<open>
  C11. Bulk IN: a buffer given to \<open>endp_tx_set_new_buffer\<close> whose size is at most one packet or a
  multiple of the packet size reaches the host byte for byte, in packets of the maximum size with
  alternating toggles; the interrupt after the last packet leaves the endpoint idle with the next
  toggle and only then calls the endpoint's \<open>tx_complete\<close>, once.
\<close>

theorem usb2_bulk_in_delivers:
  assumes "bulk_endpoint k ep u" and "usb2_backend_current_device w = d" and "dev_speed (usb_devices w d) \<noteq> USB30_SUPERSPEED"
    and "dev_state (usb_devices w d) \<noteq> POWERED" and "crit_ok (usb_crit w)"
    and "ep_max_packet_size (ep_tx (endpoints (usb_devices w d)) (unat ep)) = mps" and "mps \<noteq> 0"
    and "n \<le> ep_max_packet_size_with_burst (ep_tx (endpoints (usb_devices w d)) (unat ep))"
    and "ptr \<noteq> 0" and "unat ptr + unat n < 2 ^ 32"
    and "R8_UEP_CTRL w (UEP_TX_CTRL u) AND RB_UEP_T_TOG_1 k = (if tog then RB_UEP_T_TOG_1 k else 0)"
    and "n \<le> mps \<or> unat n mod unat mps = 0"
  shows "\<exists>w0 ps p w1 w2 rx. endp_tx_set_new_buffer (usb2_endpoints_backend_handled k ready3) d ep ptr n w = Some (True, w0) \<and>
    usb2_in_packets k e ep u ((unat n - 1) div unat mps) w0 = Some (ps, w1) \<and> usb2_in_token k u w1 = Some p \<and>
    ps @ [p] = with_toggles tog (bulk_packets (unat mps) (mem_bytes (usb_memory w) ptr (unat n))) \<and>
    usb2_in_event k e ep w1 = bulk_complete k e ep u rx w2 \<and> bulk_idle k ep u (\<not> fst p) w2 \<and> usb_crit w2 = usb_crit w"
proof -
  have "bulk_length (unat mps) (unat n) = unat n"
    using assms(7,12) bulk_length_short [of "unat n" "unat mps"] bulk_length_multiple [of "unat mps" "unat n"]
    by (auto simp: word_le_nat_alt unat_gt_0)
  with usb2_bulk_send [OF assms(1-11), of ready3 e] show ?thesis by (fastforce simp: bulk_keeps_def)
qed

definition demo_bulk :: "u16 \<Rightarrow> usb2_world" where
  "demo_bulk burst = upd_dev2 (upd_ep_tx 1 (\<lambda>p. p\<lparr>ep_max_packet_size := 4, ep_max_packet_size_with_burst := burst\<rparr>)) demo_usb2"

lemma demo_bulk_ok:
  "bulk_endpoint demo_consts 1 UEP1" "usb2_backend_current_device (demo_bulk b) = Usb_device_0"
  "dev_speed (usb_devices (demo_bulk b) Usb_device_0) \<noteq> USB30_SUPERSPEED"
  "dev_state (usb_devices (demo_bulk b) Usb_device_0) \<noteq> POWERED" "crit_ok (usb_crit (demo_bulk b))"
  "ep_max_packet_size (ep_tx (endpoints (usb_devices (demo_bulk b) Usb_device_0)) (unat (1 :: u8))) = 4"
  "ep_max_packet_size_with_burst (ep_tx (endpoints (usb_devices (demo_bulk b) Usb_device_0)) (unat (1 :: u8))) = b"
  "R8_UEP_CTRL (demo_bulk b) (UEP_TX_CTRL UEP1) AND RB_UEP_T_TOG_1 demo_consts = (if False then RB_UEP_T_TOG_1 demo_consts else 0)"
  "usb_memory (demo_bulk b) = usb_memory demo_usb2" "usb_crit (demo_bulk b) = crit_init"
  using demo_consts_ok
  by (simp_all add: bulk_endpoint_def endp_bank_def demo_bulk_def)
    (simp_all add: demo_usb2_def usb_device_initial_def upd_ep_tx_def upd_ep_rx_def crit_init_def crit_ok_def demo_consts_def)

theorem usb2_bulk_in_delivers_witness:
  "\<forall>e r3. \<exists>w0 ps p w1 w2 rx.
    endp_tx_set_new_buffer (usb2_endpoints_backend_handled demo_consts r3) Usb_device_0 1 0x2000 8 (demo_bulk 16) = Some (True, w0) \<and>
    usb2_in_packets demo_consts e 1 UEP1 1 w0 = Some (ps, w1) \<and> usb2_in_token demo_consts UEP1 w1 = Some p \<and>
    ps @ [p] = [(False, [0, 1, 2, 3]), (True, [4, 5, 6, 7])] \<and>
    usb2_in_event demo_consts e 1 w1 = bulk_complete demo_consts e 1 UEP1 rx w2 \<and> bulk_idle demo_consts 1 UEP1 (\<not> fst p) w2"
proof (intro allI)
  fix e r3
  have bp: "bulk_packets 4 (mem_bytes (usb_memory demo_usb2) 0x2000 8) = [[0, 1, 2, 3], [4, 5, 6, 7]]"
    by (simp add: mem_bytes_def demo_usb2_def bulk_packets_short bulk_packets_more upt_conv_Cons)
  have "\<exists>w0 ps p w1 w2 rx.
    endp_tx_set_new_buffer (usb2_endpoints_backend_handled demo_consts r3) Usb_device_0 1 0x2000 8 (demo_bulk 16) = Some (True, w0) \<and>
    usb2_in_packets demo_consts e 1 UEP1 ((unat (8 :: u16) - 1) div unat (4 :: u16)) w0 = Some (ps, w1) \<and>
    usb2_in_token demo_consts UEP1 w1 = Some p \<and>
    ps @ [p] = with_toggles False (bulk_packets (unat (4 :: u16)) (mem_bytes (usb_memory (demo_bulk 16)) 0x2000 (unat (8 :: u16)))) \<and>
    usb2_in_event demo_consts e 1 w1 = bulk_complete demo_consts e 1 UEP1 rx w2 \<and> bulk_idle demo_consts 1 UEP1 (\<not> fst p) w2 \<and>
    usb_crit w2 = usb_crit (demo_bulk 16)"
    by (rule usb2_bulk_in_delivers [OF demo_bulk_ok(1-6) _ _ _ _ demo_bulk_ok(8)]) (simp_all add: demo_bulk_ok(7) [simplified])
  then show "\<exists>w0 ps p w1 w2 rx.
    endp_tx_set_new_buffer (usb2_endpoints_backend_handled demo_consts r3) Usb_device_0 1 0x2000 8 (demo_bulk 16) = Some (True, w0) \<and>
    usb2_in_packets demo_consts e 1 UEP1 1 w0 = Some (ps, w1) \<and> usb2_in_token demo_consts UEP1 w1 = Some p \<and>
    ps @ [p] = [(False, [0, 1, 2, 3]), (True, [4, 5, 6, 7])] \<and>
    usb2_in_event demo_consts e 1 w1 = bulk_complete demo_consts e 1 UEP1 rx w2 \<and> bulk_idle demo_consts 1 UEP1 (\<not> fst p) w2"
    using bp by (simp add: demo_bulk_ok(9) del: usb2_in_packets.simps) blast
qed

text \<open>
  C34. The length register is not updated before the last packet, so a buffer larger than a packet
  whose size is not a multiple of the packet size is sent with a full last packet: the host
  receives up to \<open>mps - 1\<close> bytes that lie behind the buffer in memory.
\<close>

theorem usb2_bulk_in_overreads:
  assumes "bulk_endpoint k ep u" and "usb2_backend_current_device w = d" and "dev_speed (usb_devices w d) \<noteq> USB30_SUPERSPEED"
    and "dev_state (usb_devices w d) \<noteq> POWERED" and "crit_ok (usb_crit w)"
    and "ep_max_packet_size (ep_tx (endpoints (usb_devices w d)) (unat ep)) = mps" and "mps \<noteq> 0"
    and "n \<le> ep_max_packet_size_with_burst (ep_tx (endpoints (usb_devices w d)) (unat ep))"
    and "ptr \<noteq> 0" and "unat ptr + unat n < 2 ^ 32"
    and "R8_UEP_CTRL w (UEP_TX_CTRL u) AND RB_UEP_T_TOG_1 k = (if tog then RB_UEP_T_TOG_1 k else 0)"
    and "mps < n" and "unat n mod unat mps \<noteq> 0"
  shows "\<exists>w0 ps p w1. endp_tx_set_new_buffer (usb2_endpoints_backend_handled k ready3) d ep ptr n w = Some (True, w0) \<and>
    usb2_in_packets k e ep u ((unat n - 1) div unat mps) w0 = Some (ps, w1) \<and> usb2_in_token k u w1 = Some p \<and>
    concat (map snd (ps @ [p])) = mem_bytes (usb_memory w) ptr (unat n + (unat mps - unat n mod unat mps))"
proof -
  have len: "bulk_length (unat mps) (unat n) = unat n + (unat mps - unat n mod unat mps)"
    by (rule bulk_length_over) (use assms(7,12,13) in \<open>simp_all add: unat_gt_0 word_less_nat_alt\<close>)
  obtain w0 ps p w1 where *: "endp_tx_set_new_buffer (usb2_endpoints_backend_handled k ready3) d ep ptr n w = Some (True, w0)"
    "usb2_in_packets k e ep u ((unat n - 1) div unat mps) w0 = Some (ps, w1)" "usb2_in_token k u w1 = Some p"
    "ps @ [p] = with_toggles tog (bulk_packets (unat mps) (mem_bytes (usb_memory w) ptr (bulk_length (unat mps) (unat n))))"
    using usb2_bulk_send [OF assms(1-11), of ready3 e] by blast
  have "concat (map snd (ps @ [p])) = mem_bytes (usb_memory w) ptr (unat n + (unat mps - unat n mod unat mps))"
    unfolding *(4) map_snd_with_toggles concat_bulk_packets len ..
  with *(1-3) show ?thesis by blast
qed

theorem usb2_bulk_in_overreads_witness:
  "\<forall>e r3. \<exists>w0 ps p w1.
    endp_tx_set_new_buffer (usb2_endpoints_backend_handled demo_consts r3) Usb_device_0 1 0x2000 5 (demo_bulk 16) = Some (True, w0) \<and>
    usb2_in_packets demo_consts e 1 UEP1 1 w0 = Some (ps, w1) \<and> usb2_in_token demo_consts UEP1 w1 = Some p \<and>
    concat (map snd (ps @ [p])) = [0, 1, 2, 3, 4, 5, 6, 7]"
proof (intro allI)
  fix e r3
  have bytes: "mem_bytes (usb_memory demo_usb2) 0x2000 8 = [0, 1, 2, 3, 4, 5, 6, 7]"
    by (simp add: mem_bytes_def demo_usb2_def upt_conv_Cons)
  have "\<exists>w0 ps p w1.
    endp_tx_set_new_buffer (usb2_endpoints_backend_handled demo_consts r3) Usb_device_0 1 0x2000 5 (demo_bulk 16) = Some (True, w0) \<and>
    usb2_in_packets demo_consts e 1 UEP1 ((unat (5 :: u16) - 1) div unat (4 :: u16)) w0 = Some (ps, w1) \<and>
    usb2_in_token demo_consts UEP1 w1 = Some p \<and>
    concat (map snd (ps @ [p])) =
      mem_bytes (usb_memory (demo_bulk 16)) 0x2000 (unat (5 :: u16) + (unat (4 :: u16) - unat (5 :: u16) mod unat (4 :: u16)))"
    by (rule usb2_bulk_in_overreads [OF demo_bulk_ok(1-6) _ _ _ _ demo_bulk_ok(8)]) (simp_all add: demo_bulk_ok(7) [simplified])
  then show "\<exists>w0 ps p w1.
    endp_tx_set_new_buffer (usb2_endpoints_backend_handled demo_consts r3) Usb_device_0 1 0x2000 5 (demo_bulk 16) = Some (True, w0) \<and>
    usb2_in_packets demo_consts e 1 UEP1 1 w0 = Some (ps, w1) \<and> usb2_in_token demo_consts UEP1 w1 = Some p \<and>
    concat (map snd (ps @ [p])) = [0, 1, 2, 3, 4, 5, 6, 7]"
    using bytes by (simp add: demo_bulk_ok(9) del: usb2_in_packets.simps)
qed

end
