(* ===== verification/Usb2_Receive.thy ===== *)
theory Usb2_Receive
  imports Usb2_Bulk
begin

text \<open>
  Reception on the endpoints above 0 of the USB 2.0 backend, and how the application delays it:
  a receive handler that answers NAK keeps the host waiting until \<open>endp_rx_set_state\<close> acknowledges.
  The lemmas show that this late acknowledgement leaves the backend exactly as an immediate one, and
  where the interrupt of the other direction undoes it.
\<close>

section \<open>Response and toggle\<close>

lemma set_res_set_res_toggle:
  assumes "t AND m = 0" and "v AND NOT m = 0"
  shows "set_res m 0 (set_res m v x XOR t) = set_res m 0 x XOR t"
  using assms unfolding set_res_def by (intro bit_word_eqI) (auto simp: bit_eq_iff bit_simps)

lemma set_res_idem: "v AND NOT m = 0 \<Longrightarrow> set_res m v (set_res m v x) = set_res m v x"
  unfolding set_res_def by (intro bit_word_eqI) (auto simp: bit_eq_iff bit_simps)

lemma rx_toggle_other:
  assumes "t AND m = 0"
  shows "(set_res m 0 x XOR t) AND m = 0" "set_res m 0 (set_res m 0 x XOR t) = set_res m 0 x XOR t"
  using assms unfolding set_res_def by (auto intro!: bit_word_eqI simp: bit_eq_iff bit_simps)

lemma NOT_AND_cong: "s AND t = x AND t \<Longrightarrow> NOT s AND t = NOT x AND t" for s t x :: "'a :: len word"
  by (auto simp: bit_eq_iff bit_simps)

section \<open>One received packet\<close>

text \<open>What the handler of a received packet leaves: the handler's answer \<open>st\<close> as the state of the
  endpoint, the DMA address back at the buffer, and the response, with the other toggle after ACK.\<close>

definition rx_answered ::
    "usb_consts \<Rightarrow> u8 \<Rightarrow> uep \<Rightarrow> u8 \<Rightarrow> u8 \<Rightarrow> usb_device_id \<Rightarrow> 'a usb2_world_scheme \<Rightarrow> 'a usb2_world_scheme" where
  "rx_answered k ep u rx st d w =
     (let w1 = upd_device d (upd_ep_rx (unat ep) (\<lambda>p. p\<lparr>ep_state := st\<rparr>)) w;
          w2 = wr_dma (UEP_RX_DMA u) (ep_buffer (ep_rx (endpoints (usb_devices w1 d)) (unat ep))) w1;
          r = set_res (RB_UEP_RRES_MASK k) st rx
      in wr_ctrl (UEP_RX_CTRL u) (if st = ENDP_STATE_ACK then r XOR RB_UEP_T_TOG_1 k else r) w2)"

lemma out_handler_answers:
  assumes e: "bulk_endpoint k ep u" and d: "usb2_backend_current_device w = d"
    and buf: "ep_buffer (ep_rx (endpoints (usb_devices w d)) (unat ep)) = buf" "buf \<noteq> 0"
    and cb: "call_rx_callback e (rx_callback (endpoints (usb_devices w d)) (unat ep)) buf n w = Some (st, w1)"
  shows "usb2_out_transfer_handler k e ep n w = Some (rx_answered k ep u (R8_UEP_CTRL w (UEP_RX_CTRL u)) st d w1)"
proof -
  have "ep \<noteq> 0" using e by (simp add: bulk_endpoint_def)
  then show ?thesis
    using d buf cb bulk_endpoint_regs [OF e]
    by (simp add: usb2_out_transfer_handler_def rx_answered_def Let_def)
qed

lemma rx_set_state_ack:
  assumes e: "bulk_endpoint k ep u" and d: "usb2_backend_current_device w = d"
    and sp: "dev_speed (usb_devices w d) \<noteq> USB30_SUPERSPEED"
  shows "endp_rx_set_state (usb2_endpoints_backend_handled k r3) d ep ENDP_STATE_ACK w =
    (let w1 = upd_device d (upd_ep_rx (unat ep) (\<lambda>p. p\<lparr>ep_state := ENDP_STATE_ACK\<rparr>)) w;
         rx = R8_UEP_CTRL w (UEP_RX_CTRL u)
     in Some (wr_ctrl (UEP_RX_CTRL u) (set_res (RB_UEP_TRES_MASK k) ENDP_STATE_ACK
       (if rx AND RB_UEP_RRES_MASK k \<noteq> UEP_R_RES_ACK k then rx XOR RB_UEP_T_TOG_1 k else rx)) w1))"
proof -
  have "\<not> 16 \<le> ep" using e by (simp add: bulk_endpoint_def not_le)
  then show ?thesis
    using d sp bulk_endpoint_regs [OF e]
    by (simp add: endp_rx_set_state_def usb2_endpoints_backend_handled_def usb2_endp_rx_set_state_callback_def Let_def)
qed

text \<open>
  C20. A delayed acknowledgement is an immediate one: if the receive handler answers NAK to a packet and
  the application acknowledges it later with \<open>endp_rx_set_state\<close>, the whole state of the stack is
  the one an ACK from the handler leaves, so the data toggle moves exactly once per packet; until
  then the endpoint answers NAK with the old toggle, and acknowledging twice changes nothing.
\<close>

theorem usb2_delayed_ack:
  assumes "bulk_endpoint k ep u" and "usb2_backend_current_device w = d" and "dev_speed (usb_devices w1 d) \<noteq> USB30_SUPERSPEED"
    and "ep_buffer (ep_rx (endpoints (usb_devices w d)) (unat ep)) = buf" and "buf \<noteq> 0"
    and "call_rx_callback e1 (rx_callback (endpoints (usb_devices w d)) (unat ep)) buf n w = Some (ENDP_STATE_ACK, w1)"
    and "call_rx_callback e2 (rx_callback (endpoints (usb_devices w d)) (unat ep)) buf n w = Some (ENDP_STATE_NAK, w1)"
    and "usb2_backend_current_device w1 = d"
  shows "\<exists>wA wN. usb2_out_transfer_handler k e1 ep n w = Some wA \<and> usb2_out_transfer_handler k e2 ep n w = Some wN \<and>
    endp_rx_set_state (usb2_endpoints_backend_handled k r3) d ep ENDP_STATE_ACK wN = Some wA \<and>
    endp_rx_set_state (usb2_endpoints_backend_handled k r3) d ep ENDP_STATE_ACK wA = Some wA \<and>
    R8_UEP_CTRL wN (UEP_RX_CTRL u) AND RB_UEP_RRES_MASK k = UEP_R_RES_NAK k \<and>
    R8_UEP_CTRL wN (UEP_RX_CTRL u) AND RB_UEP_R_TOG_1 k = R8_UEP_CTRL w (UEP_RX_CTRL u) AND RB_UEP_R_TOG_1 k \<and>
    R8_UEP_CTRL wA (UEP_RX_CTRL u) AND RB_UEP_RRES_MASK k = UEP_R_RES_ACK k \<and>
    R8_UEP_CTRL wA (UEP_RX_CTRL u) AND RB_UEP_R_TOG_1 k = NOT (R8_UEP_CTRL w (UEP_RX_CTRL u)) AND RB_UEP_R_TOG_1 k"
proof -
  let ?rx = "R8_UEP_CTRL w (UEP_RX_CTRL u)"
  let ?A = "rx_answered k ep u ?rx ENDP_STATE_ACK d w1" and ?N = "rx_answered k ep u ?rx ENDP_STATE_NAK d w1"
  let ?be = "usb2_endpoints_backend_handled k r3"
  have k: "uep_fields_ok k" using assms(1) by (simp add: bulk_endpoint_def)
  have h: "usb2_out_transfer_handler k e1 ep n w = Some ?A" "usb2_out_transfer_handler k e2 ep n w = Some ?N"
    using out_handler_answers [OF assms(1,2,4,5)] assms(6,7) by simp_all
  let ?r = "set_res 3 0 ?rx XOR RB_UEP_T_TOG_1 k"
  have f: "RB_UEP_TRES_MASK k = 3" "RB_UEP_RRES_MASK k = 3" "UEP_R_RES_ACK k = 0" "UEP_R_RES_NAK k = 2"
    "RB_UEP_R_TOG_1 k = RB_UEP_T_TOG_1 k" and t: "RB_UEP_T_TOG_1 k AND 3 = 0"
    using k by (simp_all add: uep_fields_ok_def endp_state_defs)
  have regs: "R8_UEP_CTRL ?A (UEP_RX_CTRL u) = ?r" "R8_UEP_CTRL ?N (UEP_RX_CTRL u) = set_res 3 2 ?rx"
    by (simp_all add: rx_answered_def Let_def f endp_state_defs)
  have NT: "set_res 3 2 ?rx AND 3 = 2" by (rule set_res_AND_mask) simp
  have late: "set_res 3 0 (set_res 3 2 ?rx XOR RB_UEP_T_TOG_1 k) = ?r" by (rule set_res_set_res_toggle [OF t]) simp
  have cur: "usb2_backend_current_device ?A = d" "usb2_backend_current_device ?N = d"
    "dev_speed (usb_devices ?A d) \<noteq> USB30_SUPERSPEED" "dev_speed (usb_devices ?N d) \<noteq> USB30_SUPERSPEED"
    using assms(3,8) by (simp_all add: rx_answered_def Let_def)
  have "endp_rx_set_state ?be d ep ENDP_STATE_ACK ?N = Some ?A"
    unfolding rx_set_state_ack [OF assms(1) cur(2,4)] unfolding Let_def regs f NT
    by (simp add: late endp_state_defs) (simp add: rx_answered_def Let_def f endp_state_defs wr_ctrl_def wr_dma_def upd_device_def upd_ep_rx_def)
  moreover have "endp_rx_set_state ?be d ep ENDP_STATE_ACK ?A = Some ?A"
    unfolding rx_set_state_ack [OF assms(1) cur(1,3)] unfolding Let_def regs f
    by (simp add: rx_toggle_other [OF t] endp_state_defs)
      (simp add: rx_answered_def Let_def f endp_state_defs wr_ctrl_def wr_dma_def upd_device_def upd_ep_rx_def)
  moreover have "set_res 3 2 ?rx AND RB_UEP_T_TOG_1 k = ?rx AND RB_UEP_T_TOG_1 k"
    using uep_tog_nak [OF k, of ?rx] k by (simp add: uep_fields_ok_def endp_state_defs)
  moreover have "?r AND RB_UEP_T_TOG_1 k = NOT ?rx AND RB_UEP_T_TOG_1 k"
    unfolding XOR_AND_same by (rule NOT_AND_cong, rule set_res_other) (simp_all add: t)
  ultimately show ?thesis
    using h regs NT rx_toggle_other [OF t] by (simp add: f)
qed

definition demo_rx :: usb2_world where
  "demo_rx = upd_dev2 (\<lambda>v. (upd_ep_rx 1 (\<lambda>p. p\<lparr>ep_buffer := 0x20021000\<rparr>) v)
     \<lparr>endpoints := (endpoints (upd_ep_rx 1 (\<lambda>p. p\<lparr>ep_buffer := 0x20021000\<rparr>) v))\<lparr>rx_callback := (\<lambda>_. User_handler 1)\<rparr>\<rparr>)
     (wr_ctrl (UEP_RX_CTRL UEP1) 0 demo_usb2)"

lemma demo_rx_ok:
  "usb2_backend_current_device demo_rx = Usb_device_0" "dev_speed (usb_devices demo_rx Usb_device_0) \<noteq> USB30_SUPERSPEED"
  "ep_buffer (ep_rx (endpoints (usb_devices demo_rx Usb_device_0)) (unat (1 :: u8))) = 0x20021000"
  "call_rx_callback (demo_env st) (rx_callback (endpoints (usb_devices demo_rx Usb_device_0)) (unat (1 :: u8))) 0x20021000 n demo_rx
    = Some (st, demo_rx)"
  "R8_UEP_CTRL demo_rx (UEP_RX_CTRL UEP1) = 0"
  by (simp_all add: demo_rx_def demo_usb2_def usb_device_initial_def upd_ep_rx_def call_rx_callback_def demo_env_def)

theorem usb2_delayed_ack_witness:
  "\<forall>r3. \<exists>wA wN. usb2_out_transfer_handler demo_consts (demo_env ENDP_STATE_ACK) 1 5 demo_rx = Some wA \<and>
    usb2_out_transfer_handler demo_consts (demo_env ENDP_STATE_NAK) 1 5 demo_rx = Some wN \<and>
    endp_rx_set_state (usb2_endpoints_backend_handled demo_consts r3) Usb_device_0 1 ENDP_STATE_ACK wN = Some wA \<and>
    R8_UEP_CTRL wN (UEP_RX_CTRL UEP1) AND 3 = 2 \<and> R8_UEP_CTRL wA (UEP_RX_CTRL UEP1) AND 8 = 8"
proof
  fix r3
  have k: "RB_UEP_RRES_MASK demo_consts = 3" "UEP_R_RES_NAK demo_consts = 2" "RB_UEP_R_TOG_1 demo_consts = 8"
    by (simp_all add: demo_consts_def)
  from usb2_delayed_ack [OF demo_bulk_ok(1) demo_rx_ok(1,2,3) _ demo_rx_ok(4) demo_rx_ok(4) demo_rx_ok(1), of 5 r3]
  show "\<exists>wA wN. usb2_out_transfer_handler demo_consts (demo_env ENDP_STATE_ACK) 1 5 demo_rx = Some wA \<and>
    usb2_out_transfer_handler demo_consts (demo_env ENDP_STATE_NAK) 1 5 demo_rx = Some wN \<and>
    endp_rx_set_state (usb2_endpoints_backend_handled demo_consts r3) Usb_device_0 1 ENDP_STATE_ACK wN = Some wA \<and>
    R8_UEP_CTRL wN (UEP_RX_CTRL UEP1) AND 3 = 2 \<and> R8_UEP_CTRL wA (UEP_RX_CTRL UEP1) AND 8 = 8"
    by (auto simp: k demo_rx_ok(5))
qed

text \<open>
  The interrupt of an IN transfer writes back the receive control register it read at its start,
  so a \<open>tx_complete\<close> handler that acknowledges the OUT direction of the same bank is undone: the
  endpoint's state says ACK while the controller keeps answering NAK.
\<close>

theorem usb2_ack_in_tx_complete_lost:
  assumes "bulk_endpoint k ep u" and "bulk_sending k ep u a r l tog w" and "bulk_ready ep mps w" and "r \<le> mps"
    and "tx_complete (endpoints (dev2 w)) (unat ep) = User_handler h" and "dev_speed (dev2 w) \<noteq> USB30_SUPERSPEED"
    and "\<forall>v. env_tx_complete e h Ack v =
      endp_rx_set_state (usb2_endpoints_backend_handled k r3) (usb2_backend_current_device w) ep ENDP_STATE_ACK v"
    and "R8_UEP_CTRL w (UEP_RX_CTRL u) AND RB_UEP_RRES_MASK k = UEP_R_RES_NAK k"
  shows "\<exists>w'. usb2_in_event k e ep w = Some w' \<and>
    ep_state (ep_rx (endpoints (usb_devices w' (usb2_backend_current_device w))) (unat ep)) = ENDP_STATE_ACK \<and>
    R8_UEP_CTRL w' (UEP_RX_CTRL u) AND RB_UEP_RRES_MASK k = UEP_R_RES_NAK k"
proof -
  from bulk_last [OF assms(1-4), of e] obtain w1 where w1:
    "usb2_in_event k e ep w = bulk_complete k e ep u (R8_UEP_CTRL w (UEP_RX_CTRL u)) w1"
    "usb_devices w1 = usb_devices w" "usb2_backend_current_device w1 = usb2_backend_current_device w"
    unfolding bulk_keeps_def by blast
  have "dev_speed (usb_devices w1 (usb2_backend_current_device w)) \<noteq> USB30_SUPERSPEED" using assms(6) w1(2) by simp
  from rx_set_state_ack [OF assms(1) w1(3) this, of r3] show ?thesis
    using w1 assms(5,7,8) by (simp add: bulk_complete_def call_tx_complete_def Let_def write_int_fg_def)
qed

definition demo_ack_env :: "(u8 \<Rightarrow> u16 \<Rightarrow> usb2_world \<Rightarrow> usb2_world option) \<Rightarrow> usb2_world usb_env" where
  "demo_ack_env r3 = (demo_env 0)\<lparr>env_tx_complete := (\<lambda>_ _.
     endp_rx_set_state (usb2_endpoints_backend_handled demo_consts r3) Usb_device_0 1 ENDP_STATE_ACK)\<rparr>"

definition demo_sending :: usb2_world where
  "demo_sending = upd_dev2 (\<lambda>v. v\<lparr>endpoints := (endpoints v)\<lparr>tx_complete := (\<lambda>_. User_handler 1)\<rparr>\<rparr>)
     (wr_ctrl (UEP_TX_CTRL UEP1) 0 demo_usb2)"

theorem usb2_ack_in_tx_complete_lost_witness:
  "\<forall>r3. \<exists>w'. usb2_in_event demo_consts (demo_ack_env r3) 1 demo_sending = Some w' \<and>
    ep_state (ep_rx (endpoints (usb_devices w' Usb_device_0)) 1) = ENDP_STATE_ACK \<and> R8_UEP_CTRL w' (UEP_RX_CTRL UEP1) AND 3 = 2"
proof
  fix r3
  have s: "bulk_sending demo_consts 1 UEP1 0x20020000 0 0 False demo_sending" "bulk_ready 1 0 demo_sending"
    "tx_complete (endpoints (dev2 demo_sending)) (unat (1 :: u8)) = User_handler 1"
    "dev_speed (dev2 demo_sending) \<noteq> USB30_SUPERSPEED" "usb2_backend_current_device demo_sending = Usb_device_0"
    "R8_UEP_CTRL demo_sending (UEP_RX_CTRL UEP1) AND RB_UEP_RRES_MASK demo_consts = UEP_R_RES_NAK demo_consts"
    by (simp_all add: bulk_sending_def bulk_ready_def demo_sending_def)
      (simp_all add: demo_usb2_def demo_consts_def usb_device_initial_def upd_ep_rx_def usb_endpoint_zero_def)
  have "\<forall>v. env_tx_complete (demo_ack_env r3) 1 Ack v =
      endp_rx_set_state (usb2_endpoints_backend_handled demo_consts r3) (usb2_backend_current_device demo_sending) 1 ENDP_STATE_ACK v"
    by (simp add: demo_ack_env_def s(5))
  from usb2_ack_in_tx_complete_lost [OF demo_bulk_ok(1) s(1,2) order_refl s(3,4) this s(6)]
  show "\<exists>w'. usb2_in_event demo_consts (demo_ack_env r3) 1 demo_sending = Some w' \<and>
    ep_state (ep_rx (endpoints (usb_devices w' Usb_device_0)) 1) = ENDP_STATE_ACK \<and> R8_UEP_CTRL w' (UEP_RX_CTRL UEP1) AND 3 = 2"
    by (auto simp: s(5) demo_consts_def)
qed

end
