(* ===== verification/Usb_Abstract.thy ===== *)
theory Usb_Abstract
  imports Usb_Packets Usb_Types
begin

text \<open>
  What a USB host sees of a device while it enumerates it, over either backend: requests, two abstract devices that
  answer them, and the interface \<open>enumerable_device\<close> of a backend. \<open>abs_request\<close> is the device as both backends
  implement it, the contract of the interface: one request is answered so, and the backend is ready for the next.
  \<open>usb_spec\<close> is the device of chapter 9 of the USB specification. The backends depart from it on address 0 and on the
  return to configuration 0 (\<open>conforming\<close> excludes both), and accept what it leaves open or wants refused (where \<open>usb_spec\<close>
  is \<open>None\<close>); on every other script a backend refines it (\<open>requests_conform\<close>).
\<close>

section \<open>Requests\<close>

text \<open>What a host may ask while it enumerates a device. A descriptor is selected by the \<open>wValue\<close> of the request, its
  type in the high byte and its index in the low one; \<open>j\<close> is the number of packets the host reads.\<close>

datatype enum_request = Read_descriptor u16 u16 nat | Set_address u8 | Set_configuration u8

text \<open>An address, a state and a configuration; descriptors come from a table \<open>D\<close>, and \<open>send\<close> is how the bus carries
  data in packets.\<close>

record usb_abstract =
  abs_address :: u8
  abs_state :: USB_DEVICE_STATE
  abs_config :: u8

section \<open>The device as the backends implement it\<close>

text \<open>\<open>SET_ADDRESS\<close> enters the state \<open>ADDRESS\<close> whatever the address is, and \<open>SET_CONFIGURATION\<close> of 0 keeps the state.\<close>

fun abs_request :: "(u8 list \<Rightarrow> 'p list) \<Rightarrow> (u16 \<Rightarrow> u8 list) \<Rightarrow> enum_request \<Rightarrow> usb_abstract \<Rightarrow> 'p list \<times> usb_abstract" where
  "abs_request send D (Read_descriptor v n j) s = (send (take (unat n) (D v)), s)"
| "abs_request send D (Set_address a) s = ([], s\<lparr>abs_address := a, abs_state := ADDRESS\<rparr>)"
| "abs_request send D (Set_configuration c) s = ([], s\<lparr>abs_config := c, abs_state := if c = 0 then abs_state s else CONFIGURED\<rparr>)"

primrec abs_requests :: "(u8 list \<Rightarrow> 'p list) \<Rightarrow> (u16 \<Rightarrow> u8 list) \<Rightarrow> enum_request list \<Rightarrow> usb_abstract \<Rightarrow> 'p list list \<times> usb_abstract" where
  "abs_requests send D [] s = ([], s)"
| "abs_requests send D (r # rs) s =
     (case abs_request send D r s of (ps, s1) \<Rightarrow> case abs_requests send D rs s1 of (pss, s2) \<Rightarrow> (ps # pss, s2))"

section \<open>The device of the USB specification\<close>

text \<open>Sections 9.4.3, 9.4.6 and 9.4.7: \<open>None\<close> where the specification leaves the behaviour open (\<open>SET_ADDRESS\<close> of a configured
  device or to an address beyond 127, \<open>SET_CONFIGURATION\<close> before an address is set) or wants the request refused (a
  configuration the device does not have; \<open>valid\<close> are those it has). Address 0 leads back to the default state, configuration
  0 to the address state.\<close>

fun usb_spec :: "(u8 list \<Rightarrow> 'p list) \<Rightarrow> (u16 \<Rightarrow> u8 list) \<Rightarrow> u8 set \<Rightarrow> enum_request \<Rightarrow> usb_abstract \<Rightarrow> ('p list \<times> usb_abstract) option" where
  "usb_spec send D valid (Read_descriptor v n j) s = Some (send (take (unat n) (D v)), s)"
| "usb_spec send D valid (Set_address a) s =
     (if a \<le> 127 \<and> abs_state s \<in> {DEFAULT, ADDRESS}
      then Some ([], s\<lparr>abs_address := a, abs_state := if a = 0 then DEFAULT else ADDRESS\<rparr>) else None)"
| "usb_spec send D valid (Set_configuration c) s =
     (if abs_state s \<in> {ADDRESS, CONFIGURED} \<and> (c = 0 \<or> c \<in> valid)
      then Some ([], s\<lparr>abs_config := c, abs_state := if c = 0 then ADDRESS else CONFIGURED\<rparr>) else None)"

text \<open>The device after a reset of the bus.\<close>

definition usb_default :: usb_abstract where
  "usb_default = \<lparr>abs_address = 0, abs_state = DEFAULT, abs_config = 0\<rparr>"

text \<open>What of a state the specification speaks about: a device has a configuration only while it is configured.\<close>

definition usb_view :: "usb_abstract \<Rightarrow> usb_abstract" where
  "usb_view s = (if abs_state s = CONFIGURED then s else s\<lparr>abs_config := 0\<rparr>)"

text \<open>The requests on which the backends do as the specification says: no address 0, and no return to the address state.\<close>

definition conforming :: "enum_request \<Rightarrow> usb_abstract \<Rightarrow> bool" where
  "conforming r s = (case r of Read_descriptor _ _ _ \<Rightarrow> True | Set_address a \<Rightarrow> a \<noteq> 0
     | Set_configuration c \<Rightarrow> c = 0 \<longrightarrow> abs_state s \<noteq> CONFIGURED)"

lemma conforming_request:
  assumes "usb_spec send D valid r (usb_view s) = Some (ps, s')" and "conforming r (usb_view s)"
  shows "fst (abs_request send D r s) = ps \<and> usb_view (snd (abs_request send D r s)) = s'"
proof -
  have v: "abs_state (usb_view s) = abs_state s" by (simp add: usb_view_def)
  show ?thesis
    using assms v by (cases r) (auto simp: conforming_def usb_view_def split: if_splits)
qed

text \<open>Where they do not: back from configuration 0 the backends stay configured, and address 0 makes them addressed.\<close>

lemma conforming_needed:
  "usb_spec send D valid (Set_configuration 0) \<lparr>abs_address = a, abs_state = CONFIGURED, abs_config = c\<rparr> =
     Some ([], \<lparr>abs_address = a, abs_state = ADDRESS, abs_config = 0\<rparr>)"
  "abs_request send D (Set_configuration 0) \<lparr>abs_address = a, abs_state = CONFIGURED, abs_config = c\<rparr> =
     ([], \<lparr>abs_address = a, abs_state = CONFIGURED, abs_config = 0\<rparr>)"
  "usb_spec send D valid (Set_address 0) usb_default = Some ([], usb_default)"
  "abs_request send D (Set_address 0) usb_default = ([], usb_default\<lparr>abs_state := ADDRESS\<rparr>)"
  by (simp_all add: usb_default_def)

section \<open>Scripts\<close>

text \<open>A script of requests to a device whose answer to one is \<open>request\<close>, or of other events with answers.\<close>

primrec run_requests :: "('r \<Rightarrow> 'w \<Rightarrow> ('o \<times> 'w) option) \<Rightarrow> 'r list \<Rightarrow> 'w \<Rightarrow> ('o list \<times> 'w) option" where
  "run_requests request [] w = Some ([], w)"
| "run_requests request (r # rs) w = do {
     (ps, w1) \<leftarrow> request r w;
     (pss, w2) \<leftarrow> run_requests request rs w1;
     Some (ps # pss, w2) }"

lemma run_requests_append: "run_requests request (rs @ qs) w = do {
    (ps, w1) \<leftarrow> run_requests request rs w;
    (pss, w2) \<leftarrow> run_requests request qs w1;
    Some (ps @ pss, w2) }"
  by (induction rs arbitrary: w) (auto simp: bind_eq_Some_conv split: Option.bind_splits)

text \<open>The setup packets of the requests, and their bytes on the bus.\<close>

definition get_descriptor_req :: "usb_consts \<Rightarrow> u16 \<Rightarrow> u16 \<Rightarrow> USB_SETUP" where
  "get_descriptor_req k v n = \<lparr>bRequestType = 0x80, bRequest = USB_GET_DESCRIPTOR k, wValue = v,
     wIndex = (if bb0 v = USB_DESCR_TYP_STRING k \<and> bb1 v \<noteq> 0 then 0x409 else 0), wLength = n\<rparr>"

lemma bb_join: "v = push_bit 8 (ucast (bb0 v)) OR ucast (bb1 v)"
  by (rule bit_word_eqI) (auto simp: bb0_def bb1_def bit_simps)

text \<open>The descriptors a device has: one of each type but the strings, of which it has those the table gives.\<close>

definition descr_selected :: "usb_consts \<Rightarrow> u8 set \<Rightarrow> (u16 \<Rightarrow> u8 list) \<Rightarrow> u16 \<Rightarrow> bool" where
  "descr_selected k typs D v \<longleftrightarrow> bb0 v \<in> typs \<and> bb1 v = 0 \<or> bb0 v = USB_DESCR_TYP_STRING k \<and> D v \<noteq> []"

definition set_address_req :: "usb_consts \<Rightarrow> u8 \<Rightarrow> USB_SETUP" where
  "set_address_req k a = \<lparr>bRequestType = 0, bRequest = USB_SET_ADDRESS k, wValue = ucast a, wIndex = 0, wLength = 0\<rparr>"

definition set_configuration_req :: "usb_consts \<Rightarrow> u8 \<Rightarrow> USB_SETUP" where
  "set_configuration_req k c = \<lparr>bRequestType = 0, bRequest = USB_SET_CONFIGURATION k, wValue = ucast c, wIndex = 0, wLength = 0\<rparr>"

lemma bb1_ucast [simp]: "bb1 (ucast x) = x"
  by (rule bit_word_eqI) (auto simp: bb1_def bit_unsigned_iff)

definition setup_bytes :: "USB_SETUP \<Rightarrow> u8 list" where
  "setup_bytes r = [bRequestType r, bRequest r] @ le16 (wValue r) @ le16 (wIndex r) @ le16 (wLength r)"

lemma load_setup_bytes: "load_setup (mem_write a (setup_bytes r) m) a = r"
  by (simp add: setup_bytes_def le16_def load_setup_write of_le16_le16)

text \<open>The bytes the host reads, and the state the device ends in, do not depend on how the bus packs data, nor on how
  many packets that takes.\<close>

fun request_kind :: "enum_request \<Rightarrow> enum_request" where
  "request_kind (Read_descriptor t n j) = Read_descriptor t n 0"
| "request_kind r = r"

definition read_bytes :: "('p \<Rightarrow> 'b list) \<Rightarrow> 'p list list \<Rightarrow> 'b list list" where
  "read_bytes byt pss = map (\<lambda>ps. concat (map byt ps)) pss"

lemma abs_request_kind:
  assumes "\<And>bs. concat (map byt (send bs)) = bs" and "\<And>bs. concat (map byt' (send' bs)) = bs" and "request_kind r = request_kind r'"
  shows "snd (abs_request send D r s) = snd (abs_request send' D r' s)"
    "concat (map byt (fst (abs_request send D r s))) = concat (map byt' (fst (abs_request send' D r' s)))"
  using assms by (cases r; cases r'; simp)+

lemma abs_requests_kind:
  assumes "\<And>bs. concat (map byt (send bs)) = bs" and "\<And>bs. concat (map byt' (send' bs)) = bs"
    and "map request_kind rs = map request_kind rs'"
  shows "read_bytes byt (fst (abs_requests send D rs s)) = read_bytes byt' (fst (abs_requests send' D rs' s)) \<and>
    snd (abs_requests send D rs s) = snd (abs_requests send' D rs' s)"
  using assms(3)
proof (induction rs arbitrary: rs' s)
  case (Cons r rs)
  then obtain q qs where q: "rs' = q # qs" "request_kind r = request_kind q" "map request_kind rs = map request_kind qs" by auto
  note one = abs_request_kind [OF assms(1,2) q(2), of D s]
  from Cons.IH [OF q(3), of "snd (abs_request send D r s)"] one show ?case
    unfolding q(1) by (simp add: read_bytes_def split_beta)
qed (simp add: read_bytes_def)

section \<open>Simulation\<close>

text \<open>Every event the specification allows is taken by the program with the same answer, and leaves them related.\<close>

locale forward_simulation =
  fixes step :: "'r \<Rightarrow> 'w \<Rightarrow> ('o \<times> 'w) option"
    and spec :: "'r \<Rightarrow> 's \<Rightarrow> ('o \<times> 's) option"
    and sim :: "'s \<Rightarrow> 'w \<Rightarrow> bool"
  assumes simulates: "sim s w \<Longrightarrow> spec r s = Some (out, s') \<Longrightarrow> \<exists>w'. step r w = Some (out, w') \<and> sim s' w'"
begin

lemma runs: "sim s w \<Longrightarrow> run_requests spec rs s = Some (outs, s') \<Longrightarrow> \<exists>w'. run_requests step rs w = Some (outs, w') \<and> sim s' w'"
proof (induction rs arbitrary: s w outs)
  case (Cons r rs)
  from Cons.prems(2) obtain out s1 os where s1: "spec r s = Some (out, s1)" "run_requests spec rs s1 = Some (os, s')" "outs = out # os"
    by (auto simp: bind_eq_Some_conv)
  from simulates [OF Cons.prems(1) s1(1)] obtain w1 where "step r w = Some (out, w1)" "sim s1 w1" by blast
  with Cons.IH [OF this(2) s1(2)] s1(3) show ?case by auto
qed simp

end

section \<open>The interface of a backend\<close>

text \<open>What is asked of a backend: it takes the requests \<open>ok\<close> and answers them as \<open>abs_request\<close>, or, of those,
  the conforming ones as the specification.\<close>

definition abs_step :: "(enum_request \<Rightarrow> bool) \<Rightarrow> (u8 list \<Rightarrow> 'p list) \<Rightarrow> (u16 \<Rightarrow> u8 list) \<Rightarrow> enum_request \<Rightarrow> usb_abstract \<Rightarrow>
    ('p list \<times> usb_abstract) option" where
  "abs_step ok send D r s = (if ok r then Some (abs_request send D r s) else None)"

definition spec_step :: "(enum_request \<Rightarrow> bool) \<Rightarrow> (u8 list \<Rightarrow> 'p list) \<Rightarrow> (u16 \<Rightarrow> u8 list) \<Rightarrow> u8 set \<Rightarrow> enum_request \<Rightarrow> usb_abstract \<Rightarrow>
    ('p list \<times> usb_abstract) option" where
  "spec_step ok send D valid r s = (if ok r \<and> conforming r s then usb_spec send D valid r s else None)"

lemma run_abs_steps: "\<forall>r \<in> set rs. ok r \<Longrightarrow> run_requests (abs_step ok send D) rs s = Some (abs_requests send D rs s)"
  by (induction rs arbitrary: s) (auto simp: abs_step_def split: prod.splits)

text \<open>\<open>ready w0 w\<close>: a device started as \<open>w0\<close> is in state \<open>w\<close> and takes requests.\<close>

locale enumerable_device =
  fixes request :: "enum_request \<Rightarrow> 'w \<Rightarrow> ('p list \<times> 'w) option"
    and send :: "u8 list \<Rightarrow> 'p list"
    and D :: "u16 \<Rightarrow> u8 list"
    and abs :: "'w \<Rightarrow> usb_abstract"
    and ready :: "'w \<Rightarrow> 'w \<Rightarrow> bool"
    and ok :: "enum_request \<Rightarrow> bool"
  assumes answers: "ready w0 w \<Longrightarrow> ok r \<Longrightarrow>
    \<exists>ps w'. request r w = Some (ps, w') \<and> (ps, abs w') = abs_request send D r (abs w) \<and> ready w0 w'"

begin

lemma answers_step:
  "ready w0 w \<and> s = abs w \<Longrightarrow> abs_step ok send D r s = Some (ps, s') \<Longrightarrow> \<exists>w'. request r w = Some (ps, w') \<and> ready w0 w' \<and> s' = abs w'"
  using answers [of w0 w r] by (auto simp: abs_step_def split: if_splits)

lemma conforms_step:
  assumes "ready w0 w \<and> s = usb_view (abs w)" and "spec_step ok send D valid r s = Some (ps, s')"
  shows "\<exists>w'. request r w = Some (ps, w') \<and> ready w0 w' \<and> s' = usb_view (abs w')"
proof -
  have a: "ok r" "conforming r (usb_view (abs w))" "usb_spec send D valid r (usb_view (abs w)) = Some (ps, s')"
    using assms by (auto simp: spec_step_def split: if_splits)
  from answers [of w0 w r] a(1) assms(1) obtain qs w' where "request r w = Some (qs, w')"
    "(qs, abs w') = abs_request send D r (abs w)" "ready w0 w'" by blast
  then show ?thesis using conforming_request [OF a(3,2)] by (metis fst_conv snd_conv)
qed

end

sublocale enumerable_device \<subseteq> requests: forward_simulation request "abs_step ok send D" "\<lambda>s w. ready w0 w \<and> s = abs w" for w0
  by unfold_locales (rule answers_step)

sublocale enumerable_device \<subseteq> spec: forward_simulation request "spec_step ok send D valid" "\<lambda>s w. ready w0 w \<and> s = usb_view (abs w)"
  for w0 valid
  by unfold_locales (rule conforms_step)

context enumerable_device
begin

text \<open>A script the specification defines, and that avoids the three departures, is answered as it says.\<close>

lemma requests_conform:
  assumes "ready w0 w" and "run_requests (spec_step ok send D valid) rs (usb_view (abs w)) = Some (pss, s')"
  shows "\<exists>w'. run_requests request rs w = Some (pss, w') \<and> usb_view (abs w') = s' \<and> ready w0 w'"
  using spec.runs [OF _ assms(2)] assms(1) by blast

lemma requests_refine:
  assumes "ready w0 w" and "\<forall>r \<in> set rs. ok r"
  shows "\<exists>pss w'. run_requests request rs w = Some (pss, w') \<and> (pss, abs w') = abs_requests send D rs (abs w) \<and> ready w0 w'"
proof -
  obtain pss s' where s: "abs_requests send D rs (abs w) = (pss, s')" by fastforce
  from requests.runs [where s = "abs w" and w = w and rs = rs and outs = pss and s' = s'] assms s obtain w' where "run_requests request rs w = Some (pss, w')" "ready w0 w'" "s' = abs w'"
    by (auto simp: run_abs_steps)
  then show ?thesis using s by auto
qed

end

end
