(* ===== verification/Usb2_Stream.thy ===== *)
theory Usb2_Stream
  imports Usb2_Receive Usb_Abstract
begin

text \<open>
  A stream of packets to a USB 2.0 OUT endpoint, over a bus that loses handshakes, while the firmware accepts packets at its own
  pace. The host repeats a packet until it is acknowledged and then flips its toggle; the controller answers as the control register
  says and tells whether the toggle was the expected one. The backend simulates an alternating-bit receiver (\<open>oc_step\<close>), which takes
  every packet exactly once.
\<close>

section \<open>The bus\<close>

text \<open>An OUT transaction with toggle \<open>t\<close>: an endpoint that answers ACK stores the packet and raises the interrupt.\<close>

definition usb2_out_token ::
    "usb_consts \<Rightarrow> ('a usb2_world_scheme) usb_env \<Rightarrow> u8 \<Rightarrow> uep \<Rightarrow> bool \<Rightarrow> u8 list \<Rightarrow> 'a usb2_world_scheme \<Rightarrow> (bool \<times> 'a usb2_world_scheme) option" where
  "usb2_out_token k e ep u t p w =
     (let rx = R8_UEP_CTRL w (UEP_RX_CTRL u) in
      if rx AND RB_UEP_RRES_MASK k = UEP_R_RES_ACK k
      then map_option (Pair True) (USBHS_IRQHandler k e
        (w\<lparr>usb_memory := mem_write (R32_UEP_DMA w (UEP_RX_DMA u)) p (usb_memory w), R8_USB_INT_FG := RB_USB_IF_TRANSFER k,
           R8_USB_INT_ST := ep OR push_bit 4 PID_OUT OR (if (rx AND RB_UEP_R_TOG_1 k \<noteq> 0) = t then RB_USB_ST_TOGOK k else 0),
           R16_USB_RX_LEN := of_nat (length p)\<rparr>))
      else Some (False, w))"

text \<open>The host's next packets and toggle, beside the device. An attempt may lose its handshake; the firmware may acknowledge at any time.\<close>

datatype out_event = Attempt bool | Acknowledge

fun usb2_out_event :: "usb_consts \<Rightarrow> ('a usb2_world_scheme) usb_env \<Rightarrow> (u8 \<Rightarrow> u16 \<Rightarrow> 'a usb2_world_scheme \<Rightarrow> 'a usb2_world_scheme option) \<Rightarrow>
    u8 \<Rightarrow> uep \<Rightarrow> out_event \<Rightarrow> u8 list list \<times> bool \<times> 'a usb2_world_scheme \<Rightarrow> (bool \<times> u8 list list \<times> bool \<times> 'a usb2_world_scheme) option" where
  "usb2_out_event k e r3 ep u (Attempt lost) (ps, t, w) = (case ps of
     [] \<Rightarrow> Some (False, ps, t, w)
   | p # qs \<Rightarrow> do {
       (ack, w1) \<leftarrow> usb2_out_token k e ep u t p w;
       Some (if ack \<and> \<not> lost then (True, qs, \<not> t, w1) else (False, ps, t, w1)) })"
| "usb2_out_event k e r3 ep u Acknowledge (ps, t, w) = do {
     w1 \<leftarrow> endp_rx_set_state (usb2_endpoints_backend_handled k r3) (usb2_backend_current_device w) ep ENDP_STATE_ACK w;
     Some (True, ps, t, w1) }"

section \<open>The alternating-bit receiver\<close>

record 'a out_channel =
  oc_packets :: "u8 list list"
  oc_host :: bool
  oc_device :: bool
  oc_busy :: bool
  oc_firmware :: 'a

text \<open>A packet with the expected toggle is given to the firmware (\<open>f\<close>), which may need time (\<open>busy\<close>); the toggle moves when it accepts.\<close>

fun oc_step :: "(u8 list \<Rightarrow> 'a \<Rightarrow> bool) \<Rightarrow> (u8 list \<Rightarrow> 'a \<Rightarrow> 'a) \<Rightarrow> out_event \<Rightarrow> 'a out_channel \<Rightarrow> (bool \<times> 'a out_channel) option" where
  "oc_step busy f (Attempt lost) s = (case oc_packets s of
     [] \<Rightarrow> Some (False, s)
   | p # ps \<Rightarrow>
       if oc_busy s then Some (False, s)
       else
         let s1 = (if oc_host s = oc_device s
           then s\<lparr>oc_device := (if busy p (oc_firmware s) then oc_device s else \<not> oc_device s), oc_busy := busy p (oc_firmware s),
             oc_firmware := f p (oc_firmware s)\<rparr>
           else s)
         in Some (if lost then (False, s1) else (True, s1\<lparr>oc_packets := ps, oc_host := \<not> oc_host s\<rparr>)))"
| "oc_step busy f Acknowledge s =
     Some (True, if oc_busy s then s\<lparr>oc_device := \<not> oc_device s, oc_busy := False\<rparr> else s)"

text \<open>What the host has sent of \<open>P\<close> and what the firmware got agree, but for the handshake of the last packet.\<close>

definition oc_synced :: "(u8 list \<Rightarrow> 'a \<Rightarrow> 'a) \<Rightarrow> u8 list list \<Rightarrow> 'a \<Rightarrow> 'a out_channel \<Rightarrow> bool" where
  "oc_synced f P x s \<longleftrightarrow> (\<exists>m \<le> length P. oc_firmware s = fold f (take m P) x \<and>
     (if oc_host s = (oc_device s \<noteq> oc_busy s) then oc_packets s = drop m P else 0 < m \<and> oc_packets s = drop (m - 1) P))"

lemma oc_step_synced:
  assumes "oc_synced f P x s" and "oc_step busy f ev s = Some (out, s')"
  shows "oc_synced f P x s'"
proof -
  from assms(1) obtain m where m: "m \<le> length P" "oc_firmware s = fold f (take m P) x"
    "if oc_host s = (oc_device s \<noteq> oc_busy s) then oc_packets s = drop m P else 0 < m \<and> oc_packets s = drop (m - 1) P"
    by (auto simp: oc_synced_def)
  have taken: "m < length P \<and> fold f (take (Suc m) P) x = f p (oc_firmware s) \<and> drop (Suc m) P = ps" if "drop m P = p # ps" for p ps
  proof -
    have l: "m < length P" using that by (metis drop_eq_Nil2 list.distinct(1) not_le)
    then have "P ! m = p" "drop (Suc m) P = ps" using that by (simp_all add: Cons_nth_drop_Suc [symmetric])
    then show ?thesis using l m(2) by (simp add: take_Suc_conv_app_nth)
  qed
  show ?thesis
  proof (cases ev)
    case (Attempt lost)
    show ?thesis
    proof (cases "oc_packets s")
      case Nil
      then show ?thesis using assms Attempt by simp
    next
      case (Cons p ps)
      consider "oc_busy s" | (fresh) "\<not> oc_busy s" "oc_host s = oc_device s" | (old) "\<not> oc_busy s" "oc_host s \<noteq> oc_device s" by blast
      then show ?thesis
      proof cases
        case 1
        then show ?thesis using assms Attempt Cons by simp
      next
        case fresh
        then have d: "drop m P = p # ps" using m(3) Cons by simp
        note n = taken [OF d]
        show ?thesis
          unfolding oc_synced_def
          by (rule exI [of _ "Suc m"]) (use assms(2) Attempt Cons fresh n d in \<open>auto simp: Let_def split: if_splits\<close>)
      next
        case old
        then have d: "0 < m" "drop (m - 1) P = p # ps" using m(3) Cons by auto
        then have "drop m P = ps" by (metis Suc_diff_1 drop_Suc list.sel(3) tl_drop)
        then show ?thesis
          unfolding oc_synced_def
          by (intro exI [of _ m]) (use assms(2) Attempt Cons old m d in \<open>auto simp: Let_def split: if_splits\<close>)
      qed
    qed
  next
    case Acknowledge
    then have "s' = (if oc_busy s then s\<lparr>oc_device := \<not> oc_device s, oc_busy := False\<rparr> else s)" using assms(2) by simp
    then show ?thesis using assms(1) unfolding oc_synced_def by (cases "oc_busy s") auto
  qed
qed

lemma oc_run_synced:
  "oc_synced f P x s \<Longrightarrow> run_requests (oc_step busy f) evs s = Some (outs, s') \<Longrightarrow> oc_synced f P x s'"
  by (induction evs arbitrary: s outs) (auto simp: bind_eq_Some_conv dest: oc_step_synced)

text \<open>A bus that loses nothing for as many rounds as there are packets delivers them all.\<close>

definition oc_rounds :: "nat \<Rightarrow> out_event list" where
  "oc_rounds n = concat (replicate n [Acknowledge, Attempt False])"

lemma oc_rounds_packets:
  "run_requests (oc_step busy f) (oc_rounds n) s = Some (outs, s') \<Longrightarrow> oc_packets s' = drop n (oc_packets s)"
proof (induction n arbitrary: s outs)
  case (Suc n)
  let ?s = "if oc_busy s then s\<lparr>oc_device := \<not> oc_device s, oc_busy := False\<rparr> else s"
  from Suc.prems obtain out s1 os where s1: "oc_step busy f (Attempt False) ?s = Some (out, s1)"
    "run_requests (oc_step busy f) (oc_rounds n) s1 = Some (os, s')"
    by (auto simp: oc_rounds_def bind_eq_Some_conv simp del: oc_step.simps(1))
  have "oc_packets s1 = tl (oc_packets s)"
    using s1(1) by (cases "oc_busy s"; cases "oc_packets s") (auto simp: Let_def)
  then show ?case using Suc.IH [OF s1(2)] by (simp add: drop_Suc)
qed (simp add: oc_rounds_def)

lemma oc_delivered:
  assumes "oc_synced f P x s" and "run_requests (oc_step busy f) (oc_rounds (length P)) s = Some (outs, s')"
  shows "oc_packets s' = [] \<and> oc_firmware s' = fold f P x"
proof -
  have "length (oc_packets s) \<le> length P" using assms(1) by (auto simp: oc_synced_def split: if_splits)
  then have e: "oc_packets s' = []" using oc_rounds_packets [OF assms(2)] by simp
  from oc_run_synced [OF assms] obtain m where m: "m \<le> length P" "oc_firmware s' = fold f (take m P) x"
    "oc_packets s' = drop m P \<or> 0 < m \<and> oc_packets s' = drop (m - 1) P"
    unfolding oc_synced_def by (auto split: if_splits)
  then have "length P \<le> m" using e by auto
  then show ?thesis using e m by simp
qed

lemma oc_total: "\<exists>outs s'. run_requests (oc_step busy f) evs s = Some (outs, s')"
proof (induction evs arbitrary: s)
  case (Cons ev evs)
  have "oc_step busy f ev s \<noteq> None" by (cases ev) (auto simp: Let_def split: list.split)
  then obtain out s1 where "oc_step busy f ev s = Some (out, s1)" by auto
  with Cons.IH [of s1] show ?case by auto
qed simp

section \<open>The backend as a receiver\<close>

text \<open>The firmware's handler takes the packet into its own state and answers NAK when it needs time.\<close>

definition rx_accepts :: "(u8 list \<Rightarrow> 'a \<Rightarrow> bool) \<Rightarrow> (u8 list \<Rightarrow> 'a \<Rightarrow> 'a) \<Rightarrow> u32 \<Rightarrow> ('a usb2_world_scheme) usb_env \<Rightarrow> bool" where
  "rx_accepts busy f h e \<longleftrightarrow> (\<forall>a n w. env_rx_callback e h a n w =
     (let p = mem_bytes (usb_memory w) a (unat n) in
      Some (if busy p (usb2_world.more w) then ENDP_STATE_NAK else ENDP_STATE_ACK, usb2_world.more_update (f p) w)))"

text \<open>The endpoint is configured.\<close>

definition out_configured :: "u8 \<Rightarrow> u32 \<Rightarrow> u32 \<Rightarrow> 'a usb2_world_scheme \<Rightarrow> bool" where
  "out_configured ep b h w \<longleftrightarrow> dev_state (dev2 w) \<noteq> POWERED \<and> dev_speed (dev2 w) \<noteq> USB30_SUPERSPEED \<and>
     ep_buffer (ep_rx (endpoints (dev2 w)) (unat ep)) = b \<and> b \<noteq> 0 \<and> rx_callback (endpoints (dev2 w)) (unat ep) = User_handler h"

text \<open>The toggle and the response the controller expects and gives.\<close>

definition out_receiving :: "usb_consts \<Rightarrow> u8 \<Rightarrow> uep \<Rightarrow> u32 \<Rightarrow> u32 \<Rightarrow> bool \<Rightarrow> bool \<Rightarrow> 'a usb2_world_scheme \<Rightarrow> bool" where
  "out_receiving k ep u b h tog busy w \<longleftrightarrow> out_configured ep b h w \<and> R32_UEP_DMA w (UEP_RX_DMA u) = b \<and>
     R8_UEP_CTRL w (UEP_RX_CTRL u) AND RB_UEP_RRES_MASK k = (if busy then UEP_R_RES_NAK k else UEP_R_RES_ACK k) \<and>
     R8_UEP_CTRL w (UEP_RX_CTRL u) AND RB_UEP_R_TOG_1 k = (if tog then RB_UEP_R_TOG_1 k else 0)"

definition out_serves :: "usb_consts \<Rightarrow> u8 \<Rightarrow> uep \<Rightarrow> u32 \<Rightarrow> u32 \<Rightarrow> 'a out_channel \<Rightarrow> u8 list list \<times> bool \<times> 'a usb2_world_scheme \<Rightarrow> bool" where
  "out_serves k ep u b h s x \<longleftrightarrow> (case x of (ps, t, w) \<Rightarrow> ps = oc_packets s \<and> t = oc_host s \<and> list_all (\<lambda>p. length p < 65536) ps \<and>
     out_receiving k ep u b h (oc_device s) (oc_busy s) w \<and> usb2_world.more w = oc_firmware s)"

lemma out_status_fields:
  assumes "ep < 16"
  shows "(ep OR push_bit 4 PID_OUT OR (if c then 0x40 else 0)) AND 0x80 = 0" "((ep OR push_bit 4 PID_OUT OR (if c then 0x40 else 0)) AND 0xf) AND 0xf = ep"
    "drop_bit 4 ((ep OR push_bit 4 PID_OUT OR (if c then 0x40 else 0)) AND 0x30) = PID_OUT"
    "(ep OR push_bit 4 PID_OUT OR (if c then 0x40 else 0)) AND 0x40 \<noteq> 0 \<longleftrightarrow> c"
proof -
  have "unat ep < 16" using assms by (simp add: word_less_nat_alt)
  then have "unat ep \<in> {0,1,2,3,4,5,6,7,8,9,10,11,12,13,14,15}"
    unfolding insert_iff empty_iff by presburger
  moreover have "ep = of_nat (unat ep)" by simp
  ultimately have e: "ep \<in> {0,1,2,3,4,5,6,7,8,9,10,11,12,13,14,15}"
    by (elim insertE emptyE) (simp_all add: word_unat_eq_iff)
  then show "(ep OR push_bit 4 PID_OUT OR (if c then 0x40 else 0)) AND 0x80 = 0" "((ep OR push_bit 4 PID_OUT OR (if c then 0x40 else 0)) AND 0xf) AND 0xf = ep"
    "drop_bit 4 ((ep OR push_bit 4 PID_OUT OR (if c then 0x40 else 0)) AND 0x30) = PID_OUT"
    "(ep OR push_bit 4 PID_OUT OR (if c then 0x40 else 0)) AND 0x40 \<noteq> 0 \<longleftrightarrow> c"
    by (cases c; elim insertE emptyE; simp add: PID_OUT_def)+
qed

text \<open>The interrupt: a packet with the wrong toggle is dropped, the others go to the handler.\<close>

lemma out_irq:
  assumes "bulk_endpoint k ep u" and "dev_state (dev2 w) \<noteq> POWERED" and "R8_USB_INT_FG w = RB_USB_IF_TRANSFER k"
    and "R8_USB_INT_ST w = ep OR push_bit 4 PID_OUT OR (if c then RB_USB_ST_TOGOK k else 0)"
  shows "USBHS_IRQHandler k e w =
    (if c then map_option (write_int_fg e (RB_USB_IF_TRANSFER k)) (usb2_out_transfer_handler k e ep (R16_USB_RX_LEN w) w)
     else Some (write_int_fg e (RB_USB_IF_TRANSFER k) w))"
proof -
  have s: "ep < 16" "ep \<noteq> 0" "RB_DEV_ENDP_MASK k = 0xf" "RB_DEV_TOKEN_MASK k = 0x30" "RB_USB_ST_TOGOK k = 0x40" "RB_USB_ST_NAK k = 0x80"
    "RB_USB_IF_TRANSFER k \<noteq> 0" "RB_USB_IF_TRANSFER k AND RB_USB_IF_SETUOACT k = 0"
    using assms(1) by (auto simp: bulk_endpoint_def usb_status_ok_def)
  note f = out_status_fields [OF s(1), of c]
  show ?thesis
    unfolding USBHS_IRQHandler_def Let_def assms(3,4) s(3-6) f(1-3) f(4)
    using s(2,7,8) assms(2) by (cases c) (simp_all add: usb2_irq_transfer_def PID_OUT_def PID_IN_def map_option_case bind_eq_Some_conv split: option.split)
qed

lemma receiving_fg [simp]: "out_receiving k ep u b h tog busy (write_int_fg e v w) = out_receiving k ep u b h tog busy w"
  "usb2_world.more (write_int_fg e v w) = usb2_world.more w"
  by (simp_all add: out_receiving_def out_configured_def write_int_fg_def)

lemma answered_receiving:
  assumes e: "bulk_endpoint k ep u" and c: "out_configured ep b h w" and d: "usb2_backend_current_device w = d"
    and t: "rx AND RB_UEP_R_TOG_1 k = (if tog then RB_UEP_R_TOG_1 k else 0)"
  shows "out_receiving k ep u b h (if busy then tog else \<not> tog) busy (rx_answered k ep u rx (if busy then ENDP_STATE_NAK else ENDP_STATE_ACK) d w)"
    "usb2_world.more (rx_answered k ep u rx st d w) = usb2_world.more w"
proof -
  have k: "uep_fields_ok k" using e by (simp add: bulk_endpoint_def)
  have f: "RB_UEP_TRES_MASK k = 3" "RB_UEP_RRES_MASK k = 3" "UEP_R_RES_ACK k = 0" "UEP_R_RES_NAK k = 2"
    "RB_UEP_R_TOG_1 k = RB_UEP_T_TOG_1 k" "UEP_T_RES_ACK k = 0" "UEP_T_RES_NAK k = 2" and t3: "RB_UEP_T_TOG_1 k AND 3 = 0"
    using k by (simp_all add: uep_fields_ok_def endp_state_defs)
  let ?w = "rx_answered k ep u rx (if busy then ENDP_STATE_NAK else ENDP_STATE_ACK) d w"
  have r: "R8_UEP_CTRL ?w (UEP_RX_CTRL u) = (if busy then set_res 3 2 rx else set_res 3 0 rx XOR RB_UEP_T_TOG_1 k)"
    by (simp add: rx_answered_def Let_def f endp_state_defs)
  have "set_res 3 2 rx AND 3 = 2" "set_res 3 2 rx AND RB_UEP_T_TOG_1 k = rx AND RB_UEP_T_TOG_1 k"
    "set_res 3 0 rx AND RB_UEP_T_TOG_1 k = rx AND RB_UEP_T_TOG_1 k"
    using set_res_AND_mask [of 2 3 rx] uep_tog_nak [OF k, of rx] uep_tog_ok(1) [OF k, of rx] by (simp_all add: f)
  then have "R8_UEP_CTRL ?w (UEP_RX_CTRL u) AND 3 = (if busy then 2 else 0)"
    "R8_UEP_CTRL ?w (UEP_RX_CTRL u) AND RB_UEP_T_TOG_1 k = (if (if busy then tog else \<not> tog) then RB_UEP_T_TOG_1 k else 0)"
    unfolding r using rx_toggle_other(1) [OF t3] toggled [of "set_res 3 0 rx" "RB_UEP_T_TOG_1 k" tog] t by (simp_all add: f)
  moreover have "R32_UEP_DMA ?w (UEP_RX_DMA u) = b" "out_configured ep b h ?w"
    using c d by (simp_all add: rx_answered_def Let_def out_configured_def)
  ultimately show "out_receiving k ep u b h (if busy then tog else \<not> tog) busy ?w" by (simp add: out_receiving_def f)
  show "usb2_world.more (rx_answered k ep u rx st d w) = usb2_world.more w"
    by (simp add: rx_answered_def Let_def wr_ctrl_def wr_dma_def upd_device_def)
qed

text \<open>One OUT transaction.\<close>

lemma token_busy:
  assumes "bulk_endpoint k ep u" and "out_receiving k ep u b h tog True w"
  shows "usb2_out_token k e ep u t p w = Some (False, w)"
  using assms by (simp add: usb2_out_token_def out_receiving_def bulk_endpoint_def uep_fields_ok_def endp_state_defs)

lemma token_taken:
  assumes e: "bulk_endpoint k ep u" and w: "out_receiving k ep u b h tog False w" and a: "rx_accepts busy f h e" and l: "length p < 65536"
  shows "\<exists>w'. usb2_out_token k e ep u t p w = Some (True, w') \<and>
    (if t = tog then usb2_world.more w' = f p (usb2_world.more w) \<and>
       out_receiving k ep u b h (if busy p (usb2_world.more w) then tog else \<not> tog) (busy p (usb2_world.more w)) w'
     else usb2_world.more w' = usb2_world.more w \<and> out_receiving k ep u b h tog False w')"
proof -
  have k: "uep_fields_ok k" using e by (simp add: bulk_endpoint_def)
  have c: "out_configured ep b h w" "R32_UEP_DMA w (UEP_RX_DMA u) = b" "R8_UEP_CTRL w (UEP_RX_CTRL u) AND RB_UEP_RRES_MASK k = UEP_R_RES_ACK k"
    "R8_UEP_CTRL w (UEP_RX_CTRL u) AND RB_UEP_R_TOG_1 k = (if tog then RB_UEP_R_TOG_1 k else 0)"
    using w by (simp_all add: out_receiving_def)
  have nz: "RB_UEP_R_TOG_1 k \<noteq> 0" using k by (simp add: uep_fields_ok_def)
  have tg: "R8_UEP_CTRL w (UEP_RX_CTRL u) AND RB_UEP_R_TOG_1 k \<noteq> 0 \<longleftrightarrow> tog" using c(4) nz by simp
  let ?v = "w\<lparr>usb_memory := mem_write b p (usb_memory w), R8_USB_INT_FG := RB_USB_IF_TRANSFER k,
     R8_USB_INT_ST := ep OR push_bit 4 PID_OUT OR (if tog = t then RB_USB_ST_TOGOK k else 0), R16_USB_RX_LEN := of_nat (length p)\<rparr>"
  have tok: "usb2_out_token k e ep u t p w = map_option (Pair True) (USBHS_IRQHandler k e ?v)"
    by (simp add: usb2_out_token_def c(2,3) tg)
  have v: "out_configured ep b h ?v" using c(1) by (simp add: out_configured_def)
  then have st: "dev_state (dev2 ?v) \<noteq> POWERED" by (simp add: out_configured_def)
  have irq: "USBHS_IRQHandler k e ?v = (if tog = t then map_option (write_int_fg e (RB_USB_IF_TRANSFER k))
      (usb2_out_transfer_handler k e ep (R16_USB_RX_LEN ?v) ?v) else Some (write_int_fg e (RB_USB_IF_TRANSFER k) ?v))"
    by (rule out_irq [OF e st]) simp_all
  show ?thesis
  proof (cases "tog = t")
    case False
    have "out_receiving k ep u b h tog False ?v" using w by (simp add: out_receiving_def out_configured_def)
    moreover have "usb2_out_token k e ep u t p w = Some (True, write_int_fg e (RB_USB_IF_TRANSFER k) ?v)"
      using tok irq False by simp
    ultimately show ?thesis using False by (intro exI [of _ "write_int_fg e (RB_USB_IF_TRANSFER k) ?v"]) simp
  next
    case True
    let ?d = "usb2_backend_current_device w" and ?x = "usb2_world.more w"
    let ?st = "if busy p ?x then ENDP_STATE_NAK else ENDP_STATE_ACK"
    let ?v1 = "usb2_world.more_update (f p) ?v"
    have len: "unat (R16_USB_RX_LEN ?v) = length p" using l by (simp add: unsigned_of_nat take_bit_nat_eq_self)
    have bts: "mem_bytes (usb_memory ?v) b (length p) = p" using l by (simp add: mem_bytes_write)
    have cf: "ep_buffer (ep_rx (endpoints (usb_devices ?v ?d)) (unat ep)) = b" "b \<noteq> 0"
      "rx_callback (endpoints (usb_devices ?v ?d)) (unat ep) = User_handler h" using c(1) by (simp_all add: out_configured_def)
    have "call_rx_callback e (rx_callback (endpoints (usb_devices ?v ?d)) (unat ep)) b (R16_USB_RX_LEN ?v) ?v = Some (?st, ?v1)"
      unfolding cf(3) call_rx_callback_def usb_handler.case a [unfolded rx_accepts_def, rule_format] len bts by (simp add: Let_def)
    from out_handler_answers [OF e _ cf(1,2) this] have
      o: "usb2_out_transfer_handler k e ep (R16_USB_RX_LEN ?v) ?v = Some (rx_answered k ep u (R8_UEP_CTRL w (UEP_RX_CTRL u)) ?st ?d ?v1)" by simp
    have v1: "out_configured ep b h ?v1" using v by (simp add: out_configured_def)
    note r = answered_receiving(1) [OF e v1 _ c(4), where busy = "busy p ?x" and d = ?d] answered_receiving(2) [OF e v1 _ c(4)]
    have "usb2_out_token k e ep u t p w =
        Some (True, write_int_fg e (RB_USB_IF_TRANSFER k) (rx_answered k ep u (R8_UEP_CTRL w (UEP_RX_CTRL u)) ?st ?d ?v1))"
      using tok irq o True by simp
    then show ?thesis
      using True r by (intro exI [of _ "write_int_fg e (RB_USB_IF_TRANSFER k) (rx_answered k ep u (R8_UEP_CTRL w (UEP_RX_CTRL u)) ?st ?d ?v1)"]) auto
  qed
qed

text \<open>The firmware acknowledges, late or again.\<close>

lemma acknowledge_receiving:
  assumes e: "bulk_endpoint k ep u" and w: "out_receiving k ep u b h tog busy w"
  shows "\<exists>w'. endp_rx_set_state (usb2_endpoints_backend_handled k r3) (usb2_backend_current_device w) ep ENDP_STATE_ACK w = Some w' \<and>
    usb2_world.more w' = usb2_world.more w \<and> out_receiving k ep u b h (if busy then \<not> tog else tog) False w'"
proof -
  have k: "uep_fields_ok k" using e by (simp add: bulk_endpoint_def)
  have f: "RB_UEP_TRES_MASK k = 3" "RB_UEP_RRES_MASK k = 3" "UEP_R_RES_ACK k = 0" "UEP_R_RES_NAK k = 2"
    "RB_UEP_R_TOG_1 k = RB_UEP_T_TOG_1 k" "UEP_T_RES_ACK k = 0" "ENDP_STATE_ACK = 0" and t3: "RB_UEP_T_TOG_1 k AND 3 = 0"
    using k by (simp_all add: uep_fields_ok_def endp_state_defs)
  let ?d = "usb2_backend_current_device w" and ?rx = "R8_UEP_CTRL w (UEP_RX_CTRL u)"
  have c: "out_configured ep b h w" "R32_UEP_DMA w (UEP_RX_DMA u) = b" "?rx AND 3 = (if busy then 2 else 0)"
    "?rx AND RB_UEP_T_TOG_1 k = (if tog then RB_UEP_T_TOG_1 k else 0)"
    using w by (simp_all add: out_receiving_def f)
  let ?r = "set_res 3 0 (if busy then ?rx XOR RB_UEP_T_TOG_1 k else ?rx)"
  let ?w = "wr_ctrl (UEP_RX_CTRL u) ?r (upd_device ?d (upd_ep_rx (unat ep) (\<lambda>p. p\<lparr>ep_state := ENDP_STATE_ACK\<rparr>)) w)"
  have "endp_rx_set_state (usb2_endpoints_backend_handled k r3) ?d ep ENDP_STATE_ACK w = Some ?w"
    using c(1,3) by (subst rx_set_state_ack [OF e refl]) (auto simp: out_configured_def f Let_def)
  moreover have "?r AND 3 = 0" by (rule set_res_AND_mask) simp
  moreover have "?r AND RB_UEP_T_TOG_1 k = (if (if busy then \<not> tog else tog) then RB_UEP_T_TOG_1 k else 0)"
    using c(4) toggled [OF c(4)] uep_tog_ok(1) [OF k] by (simp add: f)
  moreover have "out_configured ep b h ?w" using c(1) by (simp add: out_configured_def)
  moreover have "usb2_world.more ?w = usb2_world.more w" by (simp add: wr_ctrl_def upd_device_def)
  ultimately show ?thesis using c(2) by (intro exI [of _ ?w]) (simp add: out_receiving_def f)
qed

interpretation usb2_out: forward_simulation "usb2_out_event k e r3 ep u" "oc_step busy f"
    "\<lambda>s x. out_serves k ep u b h s x \<and> bulk_endpoint k ep u \<and> rx_accepts busy f h e"
  for k e r3 ep u b h busy f
proof
  fix s s' :: "'a out_channel" and x ev out
  assume a: "out_serves k ep u b h s x \<and> bulk_endpoint k ep u \<and> rx_accepts busy f h e" and st: "oc_step busy f ev s = Some (out, s')"
  obtain ps t w where x: "x = (ps, t, w)" by (cases x)
  from a [unfolded x out_serves_def prod.case] have s: "ps = oc_packets s" "t = oc_host s" "list_all (\<lambda>p. length p < 65536) ps"
    "out_receiving k ep u b h (oc_device s) (oc_busy s) w" "usb2_world.more w = oc_firmware s" and e: "bulk_endpoint k ep u" "rx_accepts busy f h e"
    by blast+
  have "\<exists>x'. usb2_out_event k e r3 ep u ev x = Some (out, x') \<and> out_serves k ep u b h s' x'"
  proof (cases ev)
    case Acknowledge
    from acknowledge_receiving [OF e(1) s(4), of r3] st show ?thesis
      using s by (auto simp: Acknowledge x out_serves_def)
  next
    case (Attempt lost)
    show ?thesis
    proof (cases ps)
      case Nil
      then show ?thesis using st s(1) a by (simp add: Attempt x)
    next
      case (Cons p qs)
      then have q: "oc_packets s = p # qs" using s(1) by simp
      show ?thesis
      proof (cases "oc_busy s")
        case True
        with st have "out = False" "s' = s" by (simp_all add: Attempt q)
        have "out_receiving k ep u b h (oc_device s) True w" using s(4) True by simp
        from token_busy [OF e(1) this, of e t p] a \<open>out = False\<close> \<open>s' = s\<close> show ?thesis by (simp add: Attempt x Cons)
      next
        case False
        have "length p < 65536" using s(3) Cons by simp
        with token_taken [OF e(1) _ e(2), where tog = "oc_device s" and w = w and p = p and t = t] s(4) [unfolded eq_False [THEN iffD2, OF False]] obtain w' where "usb2_out_token k e ep u t p w = Some (True, w')"
          "if t = oc_device s then usb2_world.more w' = f p (oc_firmware s) \<and>
             out_receiving k ep u b h (if busy p (oc_firmware s) then oc_device s else \<not> oc_device s) (busy p (oc_firmware s)) w'
           else usb2_world.more w' = oc_firmware s \<and> out_receiving k ep u b h (oc_device s) False w'" unfolding s(5) by blast
        then show ?thesis
          using st s(2-5) False q by (cases "t = oc_device s"; cases lost) (auto simp: Attempt x Cons out_serves_def Let_def)
      qed
    qed
  qed
  then show "\<exists>x'. usb2_out_event k e r3 ep u ev x = Some (out, x') \<and> out_serves k ep u b h s' x' \<and> bulk_endpoint k ep u \<and> rx_accepts busy f h e"
    using e by blast
qed

section \<open>Exactly once\<close>

lemma out_events_run:
  assumes "bulk_endpoint k ep u" and "out_receiving k ep u b h t False w" and "rx_accepts busy f h e" and "\<forall>p \<in> set P. length p < 65536"
    and "run_requests (oc_step busy f) evs \<lparr>oc_packets = P, oc_host = t, oc_device = t, oc_busy = False, oc_firmware = usb2_world.more w\<rparr>
      = Some (outs, s')"
  shows "\<exists>w'. run_requests (usb2_out_event k e r3 ep u) evs (P, t, w) = Some (outs, oc_packets s', oc_host s', w') \<and>
    usb2_world.more w' = oc_firmware s'"
proof -
  have "out_serves k ep u b h \<lparr>oc_packets = P, oc_host = t, oc_device = t, oc_busy = False, oc_firmware = usb2_world.more w\<rparr> (P, t, w)"
    using assms(2,4) by (simp add: out_serves_def list_all_iff)
  with usb2_out.runs [OF _ assms(5), of k ep u b h "(P, t, w)" e r3] assms(1,3) show ?thesis
    unfolding out_serves_def by fastforce
qed

text \<open>
  C6. The packets of a USB 2.0 OUT stream reach the firmware exactly once and in order. In every history of attempts, of which
  any may lose its handshake, and of acknowledgements, early, late or repeated, the handler has taken the packets of \<open>P\<close> up to some
  \<open>m\<close>, and the host is to send the rest, or once more the last one taken. When the bus then loses no more handshakes and the
  firmware acknowledges, the handler has all of \<open>P\<close> after as many rounds as there are packets.
\<close>

theorem usb2_out_exactly_once:
  assumes "bulk_endpoint k ep u" and "out_receiving k ep u b h t False w" and "rx_accepts busy f h e" and "\<forall>p \<in> set P. length p < 65536"
  shows "(\<exists>outs m P' t' w'. run_requests (usb2_out_event k e r3 ep u) evs (P, t, w) = Some (outs, P', t', w') \<and> m \<le> length P \<and>
      usb2_world.more w' = fold f (take m P) (usb2_world.more w) \<and> (P' = drop m P \<or> 0 < m \<and> P' = drop (m - 1) P)) \<and>
    (\<exists>outs t' w'. run_requests (usb2_out_event k e r3 ep u) (evs @ oc_rounds (length P)) (P, t, w) = Some (outs, [], t', w') \<and>
      usb2_world.more w' = fold f P (usb2_world.more w))"
proof -
  let ?x = "usb2_world.more w"
  let ?s = "\<lparr>oc_packets = P, oc_host = t, oc_device = t, oc_busy = False, oc_firmware = ?x\<rparr>"
  have start: "oc_synced f P ?x ?s" unfolding oc_synced_def by (rule exI [of _ 0]) simp
  from oc_total [of busy f evs ?s] obtain outs s1 where s1: "run_requests (oc_step busy f) evs ?s = Some (outs, s1)" by blast
  from oc_total [of busy f "oc_rounds (length P)" s1] obtain os s2 where
    s2: "run_requests (oc_step busy f) (oc_rounds (length P)) s1 = Some (os, s2)" by blast
  have all: "run_requests (oc_step busy f) (evs @ oc_rounds (length P)) ?s = Some (outs @ os, s2)"
    using s1 s2 by (simp add: run_requests_append)
  note sync = oc_run_synced [OF start s1]
  note d = oc_delivered [OF sync s2]
  show ?thesis
    using out_events_run [OF assms s1, of r3] out_events_run [OF assms all, of r3] sync d
    unfolding oc_synced_def by (fastforce split: if_splits)
qed

text \<open>A firmware that keeps the packets it gets and needs time for every second one.\<close>

definition demo_keep :: "(u8 list list usb2_world_scheme) usb_env" where
  "demo_keep = (demo_env 0)\<lparr>env_rx_callback := (\<lambda>_ a n w. Some (if even (length (usb2_world.more w)) then ENDP_STATE_NAK else ENDP_STATE_ACK,
     usb2_world.more_update (\<lambda>x. x @ [mem_bytes (usb_memory w) a (unat n)]) w))\<rparr>"

definition demo_out :: "u8 list list usb2_world_scheme" where
  "demo_out = usb2_world.extend (demo_rx\<lparr>R32_UEP_DMA := (\<lambda>_. 0x20021000)\<rparr>) []"

lemma demo_out_ok: "out_receiving demo_consts 1 UEP1 0x20021000 1 False False demo_out" "usb2_world.more demo_out = []"
  "rx_accepts (\<lambda>_ x. even (length x)) (\<lambda>p x. x @ [p]) 1 demo_keep"
  by (simp_all add: out_receiving_def out_configured_def demo_out_def demo_rx_def demo_usb2_def usb_device_initial_def upd_ep_rx_def
      usb2_world.extend_def demo_consts_def rx_accepts_def demo_keep_def)

theorem usb2_out_exactly_once_witness:
  "\<forall>r3. \<exists>outs t' w'. run_requests (usb2_out_event demo_consts demo_keep r3 1 UEP1)
     ([Attempt True, Attempt False, Acknowledge, Attempt False, Attempt True] @ oc_rounds 3) ([[1, 2], [3], [4]], False, demo_out)
       = Some (outs, [], t', w') \<and> usb2_world.more w' = [[1, 2], [3], [4]]"
proof
  fix r3
  let ?P = "[[1, 2], [3], [4]] :: u8 list list"
  have small: "\<forall>p \<in> set ?P. length p < 65536" and l: "length ?P = 3" and f: "fold (\<lambda>p x. x @ [p]) ?P [] = ?P" by simp_all
  show "\<exists>outs t' w'. run_requests (usb2_out_event demo_consts demo_keep r3 1 UEP1)
     ([Attempt True, Attempt False, Acknowledge, Attempt False, Attempt True] @ oc_rounds 3) (?P, False, demo_out)
       = Some (outs, [], t', w') \<and> usb2_world.more w' = ?P"
    by (rule usb2_out_exactly_once [OF demo_bulk_ok(1) demo_out_ok(1,3) small, THEN conjunct2, unfolded l demo_out_ok(2) f])
qed

end
