(* ===== verification/Usb_Descriptors.thy ===== *)
theory Usb_Descriptors
  imports Usb_Types
begin

text \<open>
  The descriptor structs: those of \<open>usb/usb_descriptors.h\<close>, and the four of the BSP (\<open>USB_DEV_DESCR\<close>,
  \<open>USB_CFG_DESCR\<close>, \<open>USB_ITF_DESCR\<close>, \<open>USB_ENDP_DESCR\<close>) the firmware fills in. The layout of the latter is a
  parameter (\<open>usb_layout\<close>) of which \<open>usb_layout_ok\<close> says that it is that of the USB specification, as the
  structs are packed. A host takes the bytes apart by the length each descriptor starts with:
  \<open>split_descriptors\<close>, which is proved to be the inverse of writing descriptors one after the other.
\<close>

section \<open>Constants and structs of \<open>usb_descriptors.h\<close>\<close>

definition ENDPOINT_DESCRIPTOR_ADDRESS_IN :: u8 where "ENDPOINT_DESCRIPTOR_ADDRESS_IN = push_bit 7 1"
definition ENDPOINT_DESCRIPTOR_ADDRESS_OUT :: u8 where "ENDPOINT_DESCRIPTOR_ADDRESS_OUT = push_bit 7 0"
definition ENDPOINT_DESCRIPTOR_ADDRESS_MASK :: u8 where "ENDPOINT_DESCRIPTOR_ADDRESS_MASK = 0x8f"
definition ENDPOINT_DESCRIPTOR_BULK_TRANSFER :: u8 where "ENDPOINT_DESCRIPTOR_BULK_TRANSFER = 0x02"

lemmas endpoint_descriptor_defs = ENDPOINT_DESCRIPTOR_ADDRESS_IN_def ENDPOINT_DESCRIPTOR_ADDRESS_OUT_def
  ENDPOINT_DESCRIPTOR_ADDRESS_MASK_def ENDPOINT_DESCRIPTOR_BULK_TRANSFER_def

record USB_STRING_DESCR =
  sd_bLength :: u8
  sd_bDescriptorType :: u8

definition string_descr_bytes :: "USB_STRING_DESCR \<Rightarrow> u8 list" where
  "string_descr_bytes d = [sd_bLength d, sd_bDescriptorType d]"

record USB_ENDP_COMPANION_DESCR =
  ec_bLength :: u8
  ec_bDescriptorType :: u8
  ec_bMaxBurst :: u8
  ec_bmAttributes :: u8
  ec_wBytesPerInterval :: u16

definition endp_companion_bytes :: "USB_ENDP_COMPANION_DESCR \<Rightarrow> u8 list" where
  "endp_companion_bytes d = [ec_bLength d, ec_bDescriptorType d, ec_bMaxBurst d, ec_bmAttributes d] @ le16 (ec_wBytesPerInterval d)"

record USB_BOS_DESCR =
  bos_bLength :: u8
  bos_bDescriptorType :: u8
  bos_wTotalLength :: u16
  bos_bNumDeviceCaps :: u8

definition bos_bytes :: "USB_BOS_DESCR \<Rightarrow> u8 list" where
  "bos_bytes d = [bos_bLength d, bos_bDescriptorType d] @ le16 (bos_wTotalLength d) @ [bos_bNumDeviceCaps d]"

record USB_BOS_DEVICE_CAPABILITY_DESCR =
  cap_bLength :: u8
  cap_bDescriptorType :: u8
  cap_bDevCapabilityType :: u8

definition capability_bytes :: "'a USB_BOS_DEVICE_CAPABILITY_DESCR_scheme \<Rightarrow> u8 list" where
  "capability_bytes d = [cap_bLength d, cap_bDescriptorType d, cap_bDevCapabilityType d]"

record USB_BOS_USB2_EXTENSION = USB_BOS_DEVICE_CAPABILITY_DESCR +
  ext_bmAttributes :: u32

definition usb2_extension_bytes :: "USB_BOS_USB2_EXTENSION \<Rightarrow> u8 list" where
  "usb2_extension_bytes d = capability_bytes d @ le32 (ext_bmAttributes d)"

record USB_BOS_SUPERSPEED_USB_DEVICE_CAPABILITY = USB_BOS_DEVICE_CAPABILITY_DESCR +
  ss_bmAttributes :: u8
  ss_wSpeedsSupported :: u16
  ss_bFunctionalitySupport :: u8
  ss_bU1DevExitLat :: u8
  ss_wU2DevExitLat :: u16

definition superspeed_capability_bytes :: "USB_BOS_SUPERSPEED_USB_DEVICE_CAPABILITY \<Rightarrow> u8 list" where
  "superspeed_capability_bytes d = capability_bytes d @ [ss_bmAttributes d] @ le16 (ss_wSpeedsSupported d) @
     [ss_bFunctionalitySupport d, ss_bU1DevExitLat d] @ le16 (ss_wU2DevExitLat d)"

text \<open>The sizes and the offset of \<open>wTotalLength\<close> that \<open>usb30.c\<close> reads.\<close>

lemma descr_sizes:
  "length (string_descr_bytes s) = 2" "length (endp_companion_bytes c) = 6" "length (bos_bytes b) = 5"
  "length (usb2_extension_bytes x) = 7" "length (superspeed_capability_bytes y) = 10"
  by (simp_all add: string_descr_bytes_def endp_companion_bytes_def bos_bytes_def usb2_extension_bytes_def
      superspeed_capability_bytes_def capability_bytes_def)

lemma bos_wTotalLength_read: "load_u16 (mem_write a (bos_bytes b @ rest) m) (a + 2) = bos_wTotalLength b"
proof -
  have at: "mem_write a (bos_bytes b @ rest) m (a + 2) = ucast (bos_wTotalLength b)"
    "mem_write a (bos_bytes b @ rest) m (a + 3) = ucast (drop_bit 8 (bos_wTotalLength b))"
    using mem_write_at [of 2 "bos_bytes b @ rest" a m] mem_write_at [of 3 "bos_bytes b @ rest" a m]
    by (simp_all add: bos_bytes_def le16_def)
  then show ?thesis by (simp add: load_u16_def add.assoc of_le16_le16)
qed

section \<open>Structs of the BSP\<close>

record USB_DEV_DESCR =
  dd_bLength :: u8
  dd_bDescriptorType :: u8
  dd_bcdUSB :: u16
  dd_bDeviceClass :: u8
  dd_bDeviceSubClass :: u8
  dd_bDeviceProtocol :: u8
  dd_bMaxPacketSize0 :: u8
  dd_idVendor :: u16
  dd_idProduct :: u16
  dd_bcdDevice :: u16
  dd_iManufacturer :: u8
  dd_iProduct :: u8
  dd_iSerialNumber :: u8
  dd_bNumConfigurations :: u8

record USB_CFG_DESCR =
  cd_bLength :: u8
  cd_bDescriptorType :: u8
  cd_wTotalLength :: u16
  cd_bNumInterfaces :: u8
  cd_bConfigurationValue :: u8
  cd_iConfiguration :: u8
  cd_bmAttributes :: u8
  cd_MaxPower :: u8

record USB_ITF_DESCR =
  id_bLength :: u8
  id_bDescriptorType :: u8
  id_bInterfaceNumber :: u8
  id_bAlternateSetting :: u8
  id_bNumEndpoints :: u8
  id_bInterfaceClass :: u8
  id_bInterfaceSubClass :: u8
  id_bInterfaceProtocol :: u8
  id_iInterface :: u8

record USB_ENDP_DESCR =
  ed_bLength :: u8
  ed_bDescriptorType :: u8
  ed_bEndpointAddress :: u8
  ed_bmAttributes :: u8
  ed_wMaxPacketSizeL :: u8
  ed_wMaxPacketSizeH :: u8
  ed_bInterval :: u8

text \<open>How the compiler lays them out, and what \<open>sizeof\<close> gives.\<close>

record usb_layout =
  lay_DEV :: "USB_DEV_DESCR \<Rightarrow> u8 list"
  lay_CFG :: "USB_CFG_DESCR \<Rightarrow> u8 list"
  lay_ITF :: "USB_ITF_DESCR \<Rightarrow> u8 list"
  lay_ENDP :: "USB_ENDP_DESCR \<Rightarrow> u8 list"
  sizeof_DEV :: nat
  sizeof_CFG :: nat
  sizeof_ITF :: nat
  sizeof_ENDP :: nat

definition usb_layout_ok :: "'a usb_consts_scheme \<Rightarrow> usb_layout \<Rightarrow> bool" where
  "usb_layout_ok k L \<longleftrightarrow>
     (\<forall>d. lay_DEV L d = [dd_bLength d, dd_bDescriptorType d] @ le16 (dd_bcdUSB d) @ [dd_bDeviceClass d, dd_bDeviceSubClass d,
        dd_bDeviceProtocol d, dd_bMaxPacketSize0 d] @ le16 (dd_idVendor d) @ le16 (dd_idProduct d) @ le16 (dd_bcdDevice d) @
        [dd_iManufacturer d, dd_iProduct d, dd_iSerialNumber d, dd_bNumConfigurations d]) \<and>
     (\<forall>d. lay_CFG L d = [cd_bLength d, cd_bDescriptorType d] @ le16 (cd_wTotalLength d) @ [cd_bNumInterfaces d,
        cd_bConfigurationValue d, cd_iConfiguration d, cd_bmAttributes d, cd_MaxPower d]) \<and>
     (\<forall>d. lay_ITF L d = [id_bLength d, id_bDescriptorType d, id_bInterfaceNumber d, id_bAlternateSetting d, id_bNumEndpoints d,
        id_bInterfaceClass d, id_bInterfaceSubClass d, id_bInterfaceProtocol d, id_iInterface d]) \<and>
     (\<forall>d. lay_ENDP L d = [ed_bLength d, ed_bDescriptorType d, ed_bEndpointAddress d, ed_bmAttributes d, ed_wMaxPacketSizeL d,
        ed_wMaxPacketSizeH d, ed_bInterval d]) \<and>
     sizeof_DEV L = 18 \<and> sizeof_CFG L = 9 \<and> sizeof_ITF L = 9 \<and> sizeof_ENDP L = 7 \<and>
     off_DEV_bLength k = 0 \<and> off_DEV_bMaxPacketSize0 k = 7 \<and> off_CFG_wTotalLength k = 2"

section \<open>Taking descriptors apart\<close>

function split_descriptors :: "u8 list \<Rightarrow> u8 list list option" where
  "split_descriptors [] = Some []"
| "split_descriptors (l # bs) =
     (if l < 2 \<or> length bs < unat l - 1 then None
      else map_option (Cons (l # take (unat l - 1) bs)) (split_descriptors (drop (unat l - 1) bs)))"
  by pat_completeness auto
termination by (relation "measure length") auto

definition descriptor_ok :: "u8 list \<Rightarrow> bool" where
  "descriptor_ok d \<longleftrightarrow> 2 \<le> length d \<and> length d = unat (hd d)"

lemma split_descriptors_Cons:
  assumes "descriptor_ok d"
  shows "split_descriptors (d @ bs) = map_option (Cons d) (split_descriptors bs)"
proof (cases d)
  case (Cons l xs)
  then have "unat l = Suc (length xs)" "2 \<le> unat l" using assms by (simp_all add: descriptor_ok_def)
  then show ?thesis using Cons by (auto simp: word_less_nat_alt)
qed (use assms in \<open>simp add: descriptor_ok_def\<close>)

text \<open>Writing descriptors and taking them apart are inverse to each other.\<close>

theorem split_descriptors_iff: "split_descriptors bs = Some ds \<longleftrightarrow> concat ds = bs \<and> list_all descriptor_ok ds"
proof
  assume "split_descriptors bs = Some ds"
  then show "concat ds = bs \<and> list_all descriptor_ok ds"
  proof (induction bs arbitrary: ds rule: split_descriptors.induct)
    case 1
    then show ?case by simp
  next
    case (2 l bs)
    then obtain es where l: "\<not> (l < 2 \<or> length bs < unat l - 1)" and es: "split_descriptors (drop (unat l - 1) bs) = Some es"
      "ds = (l # take (unat l - 1) bs) # es" by (auto split: if_splits)
    have "descriptor_ok (l # take (unat l - 1) bs)" using l by (auto simp: descriptor_ok_def word_less_nat_alt)
    with 2(1) [OF l es(1)] es(2) show ?case by simp
  qed
next
  assume "concat ds = bs \<and> list_all descriptor_ok ds"
  then show "split_descriptors bs = Some ds"
    by (induction ds arbitrary: bs) (auto simp: split_descriptors_Cons)
qed

end
