(* ===== verification/Usb2_Control.thy ===== *)
theory Usb2_Control
  imports Usb2 Usb_Packets
begin

text \<open>
  Control transfers of the USB 2.0 backend. The host's side is \<open>ep0_in_packets\<close>: each IN token on
  endpoint 0 reads the armed packet (its data toggle, and \<open>R16_UEP0_T_LEN\<close> bytes from the DMA address)
  and ends with the interrupt that runs \<open>usb2_ep0_in_handler\<close>. The lemmas show that the data stage
  sends exactly \<open>data_packets\<close> of the descriptor, and that an address takes effect only after its
  status stage.
\<close>

section \<open>The host's side of a control IN transfer\<close>

definition ep0_in_token :: "usb_consts \<Rightarrow> 'a usb2_world_scheme \<Rightarrow> (bool \<times> u8 list) option" where
  "ep0_in_token k w =
     (let tx = R8_UEP_CTRL w (UEP_TX_CTRL UEP0) in
      if tx AND RB_UEP_TRES_MASK k = UEP_T_RES_ACK k
      then Some (tx AND RB_UEP_T_TOG_1 k = RB_UEP_T_TOG_1 k,
        mem_bytes (usb_memory w) (R32_UEP_DMA w UEP0_RT_DMA) (unat (R16_UEP_T_LEN w UEP0)))
      else None)"

primrec ep0_in_packets ::
    "usb_consts \<Rightarrow> nat \<Rightarrow> 'a usb2_world_scheme \<Rightarrow> ((bool \<times> u8 list) list \<times> 'a usb2_world_scheme) option" where
  "ep0_in_packets k 0 w = Some ([], w)"
| "ep0_in_packets k (Suc n) w = do {
     p \<leftarrow> ep0_in_token k w;
     w1 \<leftarrow> usb2_ep0_in_handler k w;
     (ps, w2) \<leftarrow> ep0_in_packets k n w1;
     Some (p # ps, w2) }"

text \<open>The status stage is armed: nothing more to send, the host's empty OUT packet is awaited.\<close>

definition ep0_status_out_ready :: "usb_consts \<Rightarrow> 'a usb2_world_scheme \<Rightarrow> bool" where
  "ep0_status_out_ready k w \<longleftrightarrow>
     R8_UEP_CTRL w (UEP_TX_CTRL UEP0) AND RB_UEP_TRES_MASK k = UEP_T_RES_NAK k \<and>
     R8_UEP_CTRL w (UEP_RX_CTRL UEP0) = UEP_R_RES_ACK k OR RB_UEP_R_TOG_1 k \<and> endp0_remaining_bytes w = 0"

text \<open>In the middle of a data stage: \<open>r\<close> bytes at \<open>head\<close> of memory \<open>m\<close> are left, the next packet of
  them is armed with toggle \<open>tog\<close>.\<close>

definition ep0_sending :: "usb_consts \<Rightarrow> mem \<Rightarrow> u32 \<Rightarrow> u16 \<Rightarrow> bool \<Rightarrow> 'a usb2_world_scheme \<Rightarrow> bool" where
  "ep0_sending k m head r tog w \<longleftrightarrow>
     (let mps = usb2_endp0_max_packet_size w; buf = rx0_buffer2 w; tx = R8_UEP_CTRL w (UEP_TX_CTRL UEP0) in
      mps \<noteq> 0 \<and> buf \<noteq> 0 \<and> R32_UEP_DMA w UEP0_RT_DMA = buf \<and>
      bRequestType (usb_setup_req w) AND USB_REQ_TYP_IN k \<noteq> 0 \<and>
      desc_head w = head \<and> head \<noteq> 0 \<and> unat head + unat r < 2 ^ 32 \<and> endp0_remaining_bytes w = r \<and>
      endp0_current_transfer_size w mod mps = r mod mps \<and>
      R16_UEP_T_LEN w UEP0 = min r mps \<and>
      mem_bytes (usb_memory w) buf (unat (min r mps)) = mem_bytes m head (unat (min r mps)) \<and>
      mem_bytes (usb_memory w) head (unat r) = mem_bytes m head (unat r) \<and>
      apart head (unat r) buf (unat mps) \<and>
      tx AND RB_UEP_TRES_MASK k = UEP_T_RES_ACK k \<and>
      tx AND RB_UEP_T_TOG_1 k = (if tog then RB_UEP_T_TOG_1 k else 0))"

text \<open>The three outcomes of the handler for a completed IN transaction of an IN request.\<close>

lemma ep0_in_done:
  assumes "bRequestType (usb_setup_req w) AND USB_REQ_TYP_IN k \<noteq> 0" and "usb2_endp0_max_packet_size w \<noteq> 0"
    and "endp0_remaining_bytes w = usb2_ep0_next_data_packet_size w"
    and "endp0_current_transfer_size w mod usb2_endp0_max_packet_size w \<noteq> 0 \<or> usb2_ep0_next_data_packet_size w = 0"
  shows "\<exists>w'. usb2_ep0_in_handler k w = Some w' \<and>
    R8_UEP_CTRL w' (UEP_TX_CTRL UEP0) = set_res (RB_UEP_TRES_MASK k) (UEP_T_RES_NAK k) (R8_UEP_CTRL w (UEP_TX_CTRL UEP0)) \<and>
    R8_UEP_CTRL w' (UEP_RX_CTRL UEP0) = UEP_R_RES_ACK k OR RB_UEP_R_TOG_1 k \<and> endp0_remaining_bytes w' = 0"
  using assms by (auto simp: usb2_ep0_in_handler_def Let_def)

lemma ep0_in_last:
  assumes k: "uep_fields_ok k" and s: "ep0_sending k m head r tog w" and r: "r < usb2_endp0_max_packet_size w"
  shows "\<exists>w'. usb2_ep0_in_handler k w = Some w' \<and> ep0_status_out_ready k w'"
proof -
  let ?mps = "usb2_endp0_max_packet_size w"
  have s': "bRequestType (usb_setup_req w) AND USB_REQ_TYP_IN k \<noteq> 0" "?mps \<noteq> 0" "endp0_remaining_bytes w = r"
    "endp0_current_transfer_size w mod ?mps = r mod ?mps"
    using s by (simp_all add: ep0_sending_def Let_def)
  have len: "usb2_ep0_next_data_packet_size w = r"
    using r s'(3) by (simp add: usb2_ep0_next_data_packet_size_def)
  have "endp0_current_transfer_size w mod ?mps \<noteq> 0 \<or> r = 0"
    using s'(4) r by (simp add: mod_word_less)
  with ep0_in_done [OF s'(1,2)] s'(3) len show ?thesis
    using uep_tog_ok [OF k] by (fastforce simp: ep0_status_out_ready_def)
qed

text \<open>One full packet sent: the next one is armed with the other toggle.\<close>

lemma ep0_in_next:
  assumes k: "uep_fields_ok k" and s: "ep0_sending k m head r tog w" and r: "usb2_endp0_max_packet_size w \<le> r"
  shows "\<exists>w'. usb2_ep0_in_handler k w = Some w' \<and>
    ep0_sending k m (head + ucast (usb2_endp0_max_packet_size w)) (r - usb2_endp0_max_packet_size w) (\<not> tog) w' \<and>
    usb2_endp0_max_packet_size w' = usb2_endp0_max_packet_size w"
proof -
  let ?mps = "usb2_endp0_max_packet_size w"
  let ?tx = "R8_UEP_CTRL w (UEP_TX_CTRL UEP0)" and ?rx = "R8_UEP_CTRL w (UEP_RX_CTRL UEP0)"
  let ?h = "head + ucast ?mps" and ?r = "r - ?mps" and ?buf = "rx0_buffer2 w"
  have d: "bRequestType (usb_setup_req w) AND USB_REQ_TYP_IN k \<noteq> 0" "?mps \<noteq> 0" "endp0_remaining_bytes w = r"
    "endp0_current_transfer_size w mod ?mps = r mod ?mps" "desc_head w = head" "head \<noteq> 0" "?buf \<noteq> 0"
    "R32_UEP_DMA w UEP0_RT_DMA = ?buf" "unat head + unat r < 2 ^ 32"
    "mem_bytes (usb_memory w) head (unat r) = mem_bytes m head (unat r)"
    "apart head (unat r) ?buf (unat ?mps)"
    "?tx AND RB_UEP_T_TOG_1 k = (if tog then RB_UEP_T_TOG_1 k else 0)"
    using s by (simp_all add: ep0_sending_def Let_def)
  have le: "unat ?mps \<le> unat r" using r by (simp add: word_le_nat_alt)
  have ur: "unat ?r = unat r - unat ?mps" using r by (simp add: unat_sub)
  have uh: "unat ?h = unat head + unat ?mps"
    using d(9) le by (subst unat_add_lem [THEN iffD1]) simp_all
  have sum: "unat head + unat ?mps + (unat r - unat ?mps) < 4294967296" using d(9) le by simp
  have h0: "?h \<noteq> 0" using uh d(6) by (metis add_is_0 unat_0 unat_eq_zero)
  have len: "usb2_ep0_next_data_packet_size w = ?mps"
    using r d(3) by (simp add: usb2_ep0_next_data_packet_size_def min_def)
  have mods: "endp0_current_transfer_size w mod ?mps = ?r mod ?mps"
    unfolding d(4) by (simp add: word_unat_eq_iff unat_mod ur le_mod_geq le)
  have ofm: "(of_nat (unat ?mps) :: u32) = ucast ?mps" by simp
  have rest: "mem_bytes (usb_memory w) ?h (unat ?r) = mem_bytes m ?h (unat ?r)"
    using arg_cong [OF d(10), of "drop (unat ?mps)"] unfolding drop_mem_bytes [OF le] ur ofm .
  have ap: "apart ?h (unat ?r) ?buf (unat ?mps)"
    using apart_drop [OF d(11) le] unfolding ur ofm .
  have tx: "(set_res (RB_UEP_TRES_MASK k) (UEP_T_RES_ACK k) ?tx XOR RB_UEP_T_TOG_1 k) AND RB_UEP_TRES_MASK k = UEP_T_RES_ACK k"
    "(set_res (RB_UEP_TRES_MASK k) (UEP_T_RES_ACK k) ?tx XOR RB_UEP_T_TOG_1 k) AND RB_UEP_T_TOG_1 k =
      (if \<not> tog then RB_UEP_T_TOG_1 k else 0)"
    using uep_tog_ok [OF k] toggled [of "set_res (RB_UEP_TRES_MASK k) (UEP_T_RES_ACK k) ?tx" "RB_UEP_T_TOG_1 k" tog] d(12)
    by simp_all
  show ?thesis
  proof (cases "r = ?mps")
    case True
    then have "r mod ?mps = 0" by (simp add: word_unat_eq_iff unat_mod)
    let ?w = "wr_ctrl (UEP_RX_CTRL UEP0) ?rx (wr_ctrl (UEP_TX_CTRL UEP0)
      (set_res (RB_UEP_TRES_MASK k) (UEP_T_RES_ACK k) ?tx XOR RB_UEP_T_TOG_1 k)
      (wr_tlen UEP0 0 (w\<lparr>endp0_remaining_bytes := 0, desc_head := ?h\<rparr>)))"
    have "usb2_ep0_in_handler k w = Some ?w"
      using d True len \<open>r mod ?mps = 0\<close> by (simp add: usb2_ep0_in_handler_def Let_def)
    moreover have "ep0_sending k m ?h ?r (\<not> tog) ?w"
      using d True h0 uh ur mods rest ap tx sum by (simp add: ep0_sending_def Let_def)
    ultimately show ?thesis by simp
  next
    case False
    have r0: "?r \<noteq> 0" using False by simp
    let ?l = "min ?r ?mps"
    let ?m = "mem_copy ?buf ?h (unat ?l) (usb_memory w)"
    let ?w = "wr_ctrl (UEP_RX_CTRL UEP0) ?rx (wr_ctrl (UEP_TX_CTRL UEP0)
      (set_res (RB_UEP_TRES_MASK k) (UEP_T_RES_ACK k) ?tx XOR RB_UEP_T_TOG_1 k)
      (wr_tlen UEP0 ?l (w\<lparr>endp0_remaining_bytes := ?r, desc_head := ?h, usb_memory := ?m\<rparr>)))"
    have "usb2_ep0_in_handler k w = Some ?w"
      using d r0 len h0 by (simp add: usb2_ep0_in_handler_def Let_def) (simp add: usb2_ep0_next_data_packet_size_def)
    moreover have "mem_bytes ?m ?h (unat ?r) = mem_bytes m ?h (unat ?r)"
      using rest mem_bytes_copy_apart [OF ap, of "unat ?l"] by (simp add: word_le_nat_alt [symmetric])
    moreover have "mem_bytes ?m ?buf (unat ?l) = mem_bytes m ?h (unat ?l)"
    proof -
      have "unat ?l \<le> unat ?r" by (simp add: word_le_nat_alt [symmetric])
      from arg_cong [OF rest, of "take (unat ?l)"] show ?thesis
        using \<open>unat ?l \<le> unat ?r\<close> by (simp add: take_mem_bytes)
    qed
    ultimately show ?thesis
      using d h0 uh ur mods ap tx sum by (simp add: ep0_sending_def Let_def)
  qed
qed

lemma ep0_in_all:
  assumes k: "uep_fields_ok k" and s: "ep0_sending k m head r tog w"
  shows "\<exists>w'. ep0_in_packets k (unat r div unat (usb2_endp0_max_packet_size w) + 1) w =
      Some (with_toggles tog (data_packets (unat (usb2_endp0_max_packet_size w)) (mem_bytes m head (unat r))), w') \<and>
    ep0_status_out_ready k w'"
  using s
proof (induction "unat r" arbitrary: head r tog w rule: less_induct)
  case less
  let ?mps = "usb2_endp0_max_packet_size w"
  let ?x = "R8_UEP_CTRL w (UEP_TX_CTRL UEP0) AND RB_UEP_T_TOG_1 k"
  have pos: "0 < unat ?mps" using less.prems by (simp add: ep0_sending_def Let_def unat_gt_0)
  have tok: "ep0_in_token k w = Some (tog, mem_bytes m head (unat (min r ?mps)))"
    using less.prems uep_tog_ok(5) [OF k] by (simp add: ep0_sending_def Let_def ep0_in_token_def)
  show ?case
  proof (cases "r < ?mps")
    case True
    then have lt: "unat r < unat ?mps" by (simp add: word_less_nat_alt)
    from ep0_in_last [OF k less.prems True] show ?thesis
      using tok lt True by (auto simp: data_packets_short)
  next
    case False
    then have le: "?mps \<le> r" by simp
    have ge: "?mps \<le> r" "unat ?mps \<le> unat r" using le le [unfolded word_le_nat_alt] .
    let ?h = "head + ucast ?mps" and ?r = "r - ?mps"
    have ur: "unat ?r = unat r - unat ?mps" using ge(1) by (simp add: unat_sub)
    from ep0_in_next [OF k less.prems ge(1)] obtain w1 where w1: "usb2_ep0_in_handler k w = Some w1"
      "ep0_sending k m ?h ?r (\<not> tog) w1" "usb2_endp0_max_packet_size w1 = ?mps" by blast
    have "unat ?r < unat r" using ur pos ge(2) by simp
    from less.hyps [OF this w1(2)] obtain w2 where w2:
      "ep0_in_packets k (unat ?r div unat ?mps + 1) w1 =
        Some (with_toggles (\<not> tog) (data_packets (unat ?mps) (mem_bytes m ?h (unat ?r))), w2)"
      "ep0_status_out_ready k w2" unfolding w1(3) by blast
    have n: "unat r div unat ?mps + 1 = Suc (unat ?r div unat ?mps + 1)"
      using ge(2) pos by (simp add: ur le_div_geq)
    have dp: "data_packets (unat ?mps) (mem_bytes m head (unat r)) =
        mem_bytes m head (unat ?mps) # data_packets (unat ?mps) (mem_bytes m ?h (unat ?r))"
      using ge(2) pos by (simp add: data_packets_more take_mem_bytes drop_mem_bytes ur)
    have mn: "min r ?mps = ?mps" using ge(1) by (rule min.absorb2)
    define N where "N = unat ?r div unat ?mps + 1"
    show ?thesis unfolding n dp N_def [symmetric] ep0_in_packets.simps(2)
      using tok w1(1) w2 unfolding mn N_def [symmetric] by simp
  qed
qed

section \<open>Requests for a descriptor\<close>

text \<open>What a request for a descriptor asks for: where it is, and how many bytes of it, at most \<open>wLength\<close>. Only
  a string is sent whole, whatever \<open>wLength\<close> says.\<close>

definition requested_descriptor :: "usb_consts \<Rightarrow> 'a usb2_world_scheme \<Rightarrow> (u32 \<times> u16) option" where
  "requested_descriptor k w =
     (let req = usb_setup_req w; ds = usb_descriptors (dev2 w); m = usb_memory w in
      if bb0 (wValue req) = USB_DESCR_TYP_DEVICE k \<and> usb2_device_descr ds \<noteq> 0
      then Some (usb2_device_descr ds, min (wLength req) (ucast (m (usb2_device_descr ds + off_DEV_bLength k))))
      else if bb0 (wValue req) = USB_DESCR_TYP_CONFIG k \<and> usb2_device_config_descrs ds \<noteq> 0 \<and>
        load_u32 m (usb2_device_config_descrs ds) \<noteq> 0
      then let cfg = load_u32 m (usb2_device_config_descrs ds)
        in Some (cfg, min (wLength req) (load_u16 m (cfg + off_CFG_wTotalLength k)))
      else if bb0 (wValue req) = USB_DESCR_TYP_STRING k \<and> usb_string_descrs ds \<noteq> 0 \<and>
        load_u32 m (usb_string_descrs ds + 4 * ucast (bb1 (wValue req))) \<noteq> 0
      then let str = load_u32 m (usb_string_descrs ds + 4 * ucast (bb1 (wValue req)))
        in Some (str, ucast (m str))
      else None)"

lemma get_descriptor_starts:
  assumes "usb_requests_ok k" and "requested_descriptor k w = Some (head, n)"
  shows "usb2_ep0_get_descriptor k w = usb2_ep0_start_in head n w \<and> head \<noteq> 0"
proof -
  have "USB_DESCR_TYP_DEVICE k = 1" "USB_DESCR_TYP_CONFIG k = 2" "USB_DESCR_TYP_STRING k = 3"
    using assms(1) by (simp_all add: usb_requests_ok_def)
  then show ?thesis
    using assms(2) by (auto simp: usb2_ep0_get_descriptor_def requested_descriptor_def Let_def min_def not_less
        split: if_splits)
qed

lemma setup_stage_starts:
  assumes k: "usb_requests_ok k" "uep_fields_ok k"
    and req: "bRequestType (usb_setup_req w) = 0x80" "bRequest (usb_setup_req w) = USB_GET_DESCRIPTOR k"
    and d: "requested_descriptor k w = Some (head, n)"
    and mps: "usb2_endp0_max_packet_size w \<noteq> 0" "usb2_endp0_max_packet_size w \<le> 64"
    and buf: "rx0_buffer2 w \<noteq> 0" "R32_UEP_DMA w UEP0_RT_DMA = rx0_buffer2 w"
    and mem: "unat head + unat n < 2 ^ 32" "apart head (unat n) (rx0_buffer2 w) (unat (usb2_endp0_max_packet_size w))"
  shows "\<exists>w1. usb2_ep0_setup_stage_handler k e w = Some w1 \<and> ep0_sending k (usb_memory w) head n True w1 \<and>
    usb2_endp0_max_packet_size w1 = usb2_endp0_max_packet_size w"
proof -
  let ?mps = "usb2_endp0_max_packet_size w" and ?buf = "rx0_buffer2 w"
  let ?l = "min n ?mps"
  let ?m = "mem_copy ?buf head (unat ?l) (usb_memory w)"
  let ?w = "w\<lparr>desc_head := head, endp0_remaining_bytes := n, usb_memory := ?m, endp0_current_transfer_size := n\<rparr>"
  from get_descriptor_starts [OF k(1) d] have g: "usb2_ep0_get_descriptor k w = usb2_ep0_start_in head n w" "head \<noteq> 0"
    by simp_all
  have st: "usb2_ep0_start_in head n w =
      Some (?l, w\<lparr>desc_head := head, endp0_remaining_bytes := n, usb_memory := ?m\<rparr>)"
    using g(2) buf(1) by (simp add: usb2_ep0_start_in_def Let_def usb2_ep0_next_data_packet_size_def)
  have std: "drop_bit 6 (bRequestType (usb_setup_req w) AND USB_REQ_TYP_MASK k) = USB_REQ_TYP_STANDARD k"
    "bRequestType (usb_setup_req w) AND USB_REQ_TYP_IN k \<noteq> 0"
    using k(1) req(1) by (simp_all add: usb_requests_ok_def)
  have h: "usb2_ep0_request_handler k e w = Some (?l, ?w)"
    using std g(1) st req(2) by (simp add: usb2_ep0_request_handler_def usb2_ep0_standard_request_def Let_def)
  have lle: "?l \<le> 64" by (rule order_trans [OF min.cobounded2 mps(2)])
  have "?l \<noteq> 0xffff"
  proof
    assume "?l = 0xffff"
    with lle have "(0xffff :: u16) \<le> 64" by simp
    then show False by simp
  qed
  then have "usb2_ep0_setup_stage_handler k e w =
      Some (wr_ctrl (UEP_RX_CTRL UEP0) (R8_UEP_CTRL w (UEP_RX_CTRL UEP0))
        (wr_ctrl (UEP_TX_CTRL UEP0) (UEP_T_RES_ACK k OR RB_UEP_T_TOG_1 k) (wr_tlen UEP0 ?l ?w)))" (is "_ = Some ?w1")
    using h std(2) by (simp add: usb2_ep0_setup_stage_handler_def Let_def)
  moreover have "ep0_sending k (usb_memory w) head n True ?w1"
    using mps(1) buf g(2) mem std(2) k(2)
      mem_bytes_copy_apart [OF mem(2), of "unat ?l" head "usb_memory w"]
    by (simp add: ep0_sending_def Let_def uep_fields_ok_def endp_state_defs word_le_nat_alt [symmetric])
  ultimately show ?thesis by simp
qed

text \<open>
  \<open>GET_DESCRIPTOR\<close>: after the setup stage of a request for the device, configuration or a string
  descriptor, the IN transactions of the data stage return exactly the first \<open>min(wLength, size)\<close>
  bytes of the descriptor, in packets of the maximum size ended by a short, possibly empty, packet,
  with toggles alternating from DATA1; after the last one the status stage is armed.
\<close>

theorem usb2_get_descriptor_sends:
  assumes "usb_requests_ok k" and "uep_fields_ok k"
    and "bRequestType (usb_setup_req w) = 0x80" and "bRequest (usb_setup_req w) = USB_GET_DESCRIPTOR k"
    and "requested_descriptor k w = Some (head, n)"
    and "usb2_endp0_max_packet_size w = mps" and "mps \<noteq> 0" and "mps \<le> 64"
    and "rx0_buffer2 w \<noteq> 0" and "R32_UEP_DMA w UEP0_RT_DMA = rx0_buffer2 w"
    and "unat head + unat n < 2 ^ 32" and "apart head (unat n) (rx0_buffer2 w) (unat mps)"
  shows "\<exists>w1 w2. usb2_ep0_setup_stage_handler k e w = Some w1 \<and>
    ep0_in_packets k (unat n div unat mps + 1) w1 =
      Some (with_toggles True (data_packets (unat mps) (mem_bytes (usb_memory w) head (unat n))), w2) \<and>
    ep0_status_out_ready k w2"
proof -
  from setup_stage_starts [OF assms(1-5), of e] assms(6-12) obtain w1 where w1:
    "usb2_ep0_setup_stage_handler k e w = Some w1" "ep0_sending k (usb_memory w) head n True w1"
    "usb2_endp0_max_packet_size w1 = mps" by auto
  from ep0_in_all [OF assms(2) w1(2)] show ?thesis using w1 by auto
qed

theorem usb2_get_descriptor_sends_witness:
  "\<forall>e. \<exists>w1 w2. usb2_ep0_setup_stage_handler demo_consts e demo_usb2 = Some w1 \<and>
    ep0_in_packets demo_consts 3 w1 = Some
      ([(True, [18, 1, 2, 3, 4, 5, 6, 7]), (False, [8, 9, 10, 11, 12, 13, 14, 15]), (True, [16, 17])], w2) \<and>
    ep0_status_out_ready demo_consts w2"
proof
  fix e
  have w: "rx0_buffer2 demo_usb2 = 0x20020000" "usb2_endp0_max_packet_size demo_usb2 = 8"
    "R32_UEP_DMA demo_usb2 UEP0_RT_DMA = 0x20020000" "bRequestType (usb_setup_req demo_usb2) = 0x80"
    "bRequest (usb_setup_req demo_usb2) = USB_GET_DESCRIPTOR demo_consts"
    "requested_descriptor demo_consts demo_usb2 = Some (0x1000, 18)"
    by (simp_all add: demo_usb2_def demo_consts_def requested_descriptor_def bb0_def)
  have ap: "apart 0x1000 (unat (18 :: u16)) (0x20020000 :: u32) (unat (8 :: u16))"
    by (rule apart_after [where d = "0x2001F000"]) simp_all
  have dp: "data_packets 8 (mem_bytes (usb_memory demo_usb2) 0x1000 18) =
      [[18, 1, 2, 3, 4, 5, 6, 7], [8, 9, 10, 11, 12, 13, 14, 15], [16, 17]]"
    by (simp add: mem_bytes_def demo_usb2_def data_packets_short data_packets_more upt_conv_Cons)
  show "\<exists>w1 w2. usb2_ep0_setup_stage_handler demo_consts e demo_usb2 = Some w1 \<and>
      ep0_in_packets demo_consts 3 w1 = Some
        ([(True, [18, 1, 2, 3, 4, 5, 6, 7]), (False, [8, 9, 10, 11, 12, 13, 14, 15]), (True, [16, 17])], w2) \<and>
      ep0_status_out_ready demo_consts w2"
    using usb2_get_descriptor_sends [OF demo_consts_ok(1,2) w(4-6) w(2), of e] w ap dp
    by (simp del: ep0_in_packets.simps)
qed

section \<open>The address\<close>

text \<open>
  \<open>SET_ADDRESS\<close> takes effect only after its status stage: the setup stage arms an empty IN packet
  and leaves the controller's address, and the interrupt at the end of that packet sets it to the
  address of the request, provided it is at most 127; otherwise the address and the device's state
  stay as they were.
\<close>

theorem usb2_set_address_after_status:
  assumes "usb_requests_ok k" and "uep_fields_ok k"
    and "bRequestType (usb_setup_req w) = 0" and "bRequest (usb_setup_req w) = USB_SET_ADDRESS k"
    and "wLength (usb_setup_req w) = 0" and "a = bb1 (wValue (usb_setup_req w))"
  shows "\<exists>w1 w2. usb2_ep0_setup_stage_handler k e w = Some w1 \<and>
    R8_USB_DEV_AD w1 = R8_USB_DEV_AD w \<and> ep0_in_token k w1 = Some (True, []) \<and>
    usb2_ep0_in_handler k w1 = Some w2 \<and>
    (if a \<le> 127 then R8_USB_DEV_AD w2 = a \<and> dev_state (dev2 w2) = ADDRESS
     else R8_USB_DEV_AD w2 = R8_USB_DEV_AD w \<and> dev_state (dev2 w2) = dev_state (dev2 w))"
proof -
  let ?w = "(upd_dev2 (\<lambda>v. v\<lparr>dev_addr := a\<rparr>) w)\<lparr>endp0_remaining_bytes := 0, endp0_current_transfer_size := 0\<rparr>"
  let ?w1 = "wr_ctrl (UEP_RX_CTRL UEP0) (R8_UEP_CTRL w (UEP_RX_CTRL UEP0))
    (wr_ctrl (UEP_TX_CTRL UEP0) (UEP_T_RES_ACK k OR RB_UEP_T_TOG_1 k) (wr_tlen UEP0 0 ?w))"
  have r: "USB_SET_ADDRESS k \<noteq> USB_GET_DESCRIPTOR k" "drop_bit 6 (0 AND USB_REQ_TYP_MASK k) = USB_REQ_TYP_STANDARD k"
    using assms(1) by (simp_all add: usb_requests_ok_def)
  have s: "usb2_ep0_setup_stage_handler k e w = Some ?w1"
    using assms(3-6) r
    by (simp add: usb2_ep0_setup_stage_handler_def usb2_ep0_request_handler_def usb2_ep0_standard_request_def Let_def)
  have t: "ep0_in_token k ?w1 = Some (True, [])"
    using assms(2) by (simp add: ep0_in_token_def Let_def uep_fields_ok_def endp_state_defs)
  obtain w2 where "usb2_ep0_in_handler k ?w1 = Some w2"
    "if a \<le> 127 then R8_USB_DEV_AD w2 = a \<and> dev_state (dev2 w2) = ADDRESS
     else R8_USB_DEV_AD w2 = R8_USB_DEV_AD w \<and> dev_state (dev2 w2) = dev_state (dev2 w)"
    using assms(3,4)
    by (simp add: usb2_ep0_in_handler_def Let_def usb2_set_device_address_def usb2_is_address_valid_def)
  then show ?thesis using s t by (intro exI [of _ ?w1] exI [of _ w2]) simp
qed

theorem usb2_set_address_after_status_witness:
  "\<forall>e. \<exists>w1 w2. usb2_ep0_setup_stage_handler demo_consts e
      (demo_usb2\<lparr>usb_setup_req := \<lparr>bRequestType = 0, bRequest = 5, wValue = 7, wIndex = 0, wLength = 0\<rparr>\<rparr>) = Some w1 \<and>
    R8_USB_DEV_AD w1 = 0 \<and> usb2_ep0_in_handler demo_consts w1 = Some w2 \<and> R8_USB_DEV_AD w2 = 7"
  using usb2_set_address_after_status [OF demo_consts_ok(1,2),
    of "demo_usb2\<lparr>usb_setup_req := \<lparr>bRequestType = 0, bRequest = 5, wValue = 7, wIndex = 0, wLength = 0\<rparr>\<rparr>" 7]
  by (simp add: bb1_def) (fastforce simp: demo_usb2_def demo_consts_def)

end
