(* ===== verification/Usb2_Endpoints.thy ===== *)
theory Usb2_Endpoints
  imports Usb2
begin

text \<open>
  The configuration of the endpoints. Sixteen endpoint numbers share eight register banks, so
  \<open>usb2_setup_endpoints_in_mask\<close> has to refuse every mask that asks one bank for two endpoints of the
  same direction; the lemmas show that its table of pairs does so exactly, and that every endpoint of
  an accepted mask finds its own settings in its registers, whatever blocks ran after its own.
\<close>

section \<open>The blocks as data\<close>

definition endpoint_bit :: "bool \<Rightarrow> nat \<Rightarrow> u32" where
  "endpoint_bit tx n = (if tx then ENDPOINT_TX n else ENDPOINT_RX n)"

definition in_mask :: "u32 \<Rightarrow> bool \<Rightarrow> nat \<Rightarrow> bool" where
  "in_mask m tx n \<longleftrightarrow> m AND endpoint_bit tx n \<noteq> 0"

definition setup_plan :: "(bool \<times> uep \<times> nat) list" where
  "setup_plan =
    [(True, UEP1, 1), (True, UEP1, 9), (False, UEP1, 1), (False, UEP1, 9),
     (True, UEP2, 2), (True, UEP2, 10), (False, UEP2, 2), (False, UEP2, 10),
     (True, UEP3, 3), (True, UEP3, 11), (False, UEP3, 3), (False, UEP3, 11),
     (True, UEP4, 4), (True, UEP4, 8), (True, UEP4, 12), (False, UEP4, 4), (False, UEP4, 8), (False, UEP4, 12),
     (True, UEP5, 5), (True, UEP5, 13), (False, UEP5, 5), (False, UEP5, 13),
     (True, UEP6, 6), (True, UEP6, 14), (False, UEP6, 6), (False, UEP6, 14),
     (True, UEP7, 7), (True, UEP7, 15), (False, UEP7, 7), (False, UEP7, 15)]"

definition setup_block :: "usb_consts \<Rightarrow> u32 \<Rightarrow> bool \<times> uep \<times> nat \<Rightarrow> 'a usb2_world_scheme \<Rightarrow>
    'a usb2_world_scheme + 'a usb2_world_scheme" where
  "setup_block k m = (\<lambda>(tx, u, n). if tx then usb2_setup_tx k m u n else usb2_setup_rx k m u n)"

definition incompatible_pairs :: "(bool \<times> nat \<times> nat) list" where
  "incompatible_pairs =
    [(True, 1, 9), (True, 2, 10), (True, 3, 11), (True, 4, 12), (True, 5, 13), (True, 6, 14), (True, 7, 15),
     (False, 1, 9), (False, 2, 10), (False, 3, 11), (False, 4, 12), (False, 5, 13), (False, 6, 14), (False, 7, 15),
     (False, 8, 4), (True, 8, 4), (False, 8, 12), (True, 8, 12)]"

lemma blocks_plan:
  "usb2_setup_blocks_1_2 k m @ usb2_setup_blocks_3_4 k m @ usb2_setup_blocks_5_7 k m = map (setup_block k m) setup_plan"
  by (simp add: usb2_setup_blocks_1_2_def usb2_setup_blocks_3_4_def usb2_setup_blocks_5_7_def setup_plan_def setup_block_def)

lemma table_pairs:
  "usb2_incompatibles_endpoints = map (\<lambda>(tx, i, j). endpoint_bit tx i OR endpoint_bit tx j) incompatible_pairs"
  by (simp add: usb2_incompatibles_endpoints_def incompatible_pairs_def endpoint_bit_def)

lemma plan_bank: "n \<in> {1..15} \<Longrightarrow> (tx, u, n) \<in> set setup_plan \<longleftrightarrow> endp_bank (of_nat n) = Some u"
proof -
  assume "n \<in> {1..15}"
  then have "n \<in> {1,2,3,4,5,6,7,8,9,10,11,12,13,14,15}" unfolding insert_iff empty_iff atLeastAtMost_iff by presburger
  then show ?thesis by (elim insertE emptyE) (auto simp: setup_plan_def endp_bank_def)
qed

lemma plan_range: "(tx, u, n) \<in> set setup_plan \<Longrightarrow> n \<in> {1..15}"
  by (auto simp: setup_plan_def)

lemma pairs_complete:
  assumes "(tx, u, i) \<in> set setup_plan" and "(tx, u, j) \<in> set setup_plan" and "i \<noteq> j"
  shows "(tx, i, j) \<in> set incompatible_pairs \<or> (tx, j, i) \<in> set incompatible_pairs"
proof -
  have H: "list_all (\<lambda>(d, u, i). list_all (\<lambda>(d', u', j). d = d' \<and> u = u' \<and> i \<noteq> j \<longrightarrow>
      (d, i, j) \<in> set incompatible_pairs \<or> (d, j, i) \<in> set incompatible_pairs) setup_plan) setup_plan" by code_simp
  from bspec [OF H [unfolded list_all_iff] assms(1)]
  have "\<forall>x \<in> set setup_plan. case x of (d', u', j) \<Rightarrow> tx = d' \<and> u = u' \<and> i \<noteq> j \<longrightarrow>
      (tx, i, j) \<in> set incompatible_pairs \<or> (tx, j, i) \<in> set incompatible_pairs"
    by (simp only: prod.case)
  from bspec [OF this assms(2)] assms(3) show ?thesis by (simp only: prod.case simp_thms)
qed

lemma pairs_sound:
  assumes "(tx, i, j) \<in> set incompatible_pairs"
  shows "i \<noteq> j \<and> i \<in> {1..15} \<and> j \<in> {1..15} \<and> endp_bank (of_nat i) = endp_bank (of_nat j)"
proof -
  have H: "list_all (\<lambda>(d, i, j). i \<noteq> j \<and> 1 \<le> i \<and> i \<le> 15 \<and> 1 \<le> j \<and> j \<le> 15 \<and>
      endp_bank (of_nat i) = endp_bank (of_nat j)) incompatible_pairs" by code_simp
  from bspec [OF H [unfolded list_all_iff] assms] show ?thesis by (simp only: prod.case atLeastAtMost_iff simp_thms)
qed

section \<open>Single bits of the mask\<close>

lemma endpoint_bit_single: "endpoint_bit tx n = push_bit (if tx then 2 * (n - 1) else 2 * (n - 1) + 1) 1"
  by (simp add: endpoint_bit_def ENDPOINT_TX_def ENDPOINT_RX_def)

lemma AND_self_iff: "m AND x = x \<longleftrightarrow> (\<forall>n < LENGTH('a). bit x n \<longrightarrow> bit m n)" for m x :: "'a :: len word"
proof
  assume eq: "m AND x = x"
  have "bit x n \<longleftrightarrow> bit m n \<and> bit x n" for n
    using arg_cong [OF eq, of "\<lambda>y. bit y n"] by (simp add: bit_and_iff)
  then show "\<forall>n < LENGTH('a). bit x n \<longrightarrow> bit m n" by blast
qed (auto intro!: bit_word_eqI simp: bit_and_iff)

lemma AND_zero_iff: "m AND x = 0 \<longleftrightarrow> (\<forall>n < LENGTH('a). \<not> (bit m n \<and> bit x n))" for m x :: "'a :: len word"
proof
  assume eq: "m AND x = 0"
  show "\<forall>n < LENGTH('a). \<not> (bit m n \<and> bit x n)"
    using arg_cong [OF eq, of "\<lambda>y. bit y n" for n] by (simp add: bit_and_iff)
qed (auto intro!: bit_word_eqI simp: bit_and_iff)

lemma pair_in_mask:
  assumes "i \<in> {1..15}" and "j \<in> {1..15}"
  shows "m AND (endpoint_bit tx i OR endpoint_bit tx j) = endpoint_bit tx i OR endpoint_bit tx j \<longleftrightarrow>
    in_mask m tx i \<and> in_mask m tx j"
proof -
  define a b where "a = (if tx then 2 * (i - 1) else 2 * (i - 1) + 1)" and "b = (if tx then 2 * (j - 1) else 2 * (j - 1) + 1)"
  have ab: "a < 32" "b < 32" using assms by (auto simp: a_def b_def)
  have "(m AND (push_bit a 1 OR push_bit b 1) = push_bit a 1 OR push_bit b 1) \<longleftrightarrow> bit m a \<and> bit m b"
    using ab by (auto simp: AND_self_iff bit_or_iff bit_exp_iff)
  moreover have "m AND push_bit c 1 \<noteq> 0 \<longleftrightarrow> bit m c" if "c < 32" for c
    using that by (auto simp: AND_zero_iff bit_exp_iff)
  ultimately show ?thesis using ab by (simp add: in_mask_def endpoint_bit_single a_def b_def)
qed

text \<open>Two endpoints of one direction ask for one bank.\<close>

definition bank_conflict :: "u32 \<Rightarrow> bool" where
  "bank_conflict m \<longleftrightarrow> (\<exists>tx. \<exists>i \<in> {1..15}. \<exists>j \<in> {1..15}. i \<noteq> j \<and> endp_bank (of_nat i) = endp_bank (of_nat j) \<and>
     in_mask m tx i \<and> in_mask m tx j)"

lemma table_exact: "(\<exists>x \<in> set usb2_incompatibles_endpoints. m AND x = x) \<longleftrightarrow> bank_conflict m"
proof
  assume "\<exists>x \<in> set usb2_incompatibles_endpoints. m AND x = x"
  then obtain tx i j where p: "(tx, i, j) \<in> set incompatible_pairs"
    "m AND (endpoint_bit tx i OR endpoint_bit tx j) = endpoint_bit tx i OR endpoint_bit tx j"
    by (auto simp: table_pairs)
  then show "bank_conflict m"
    using pairs_sound [OF p(1)] pair_in_mask [of i j m tx] unfolding bank_conflict_def by blast
next
  assume "bank_conflict m"
  then obtain tx i j where c: "i \<in> {1..15}" "j \<in> {1..15}" "i \<noteq> j" "endp_bank (of_nat i) = endp_bank (of_nat j)"
    "in_mask m tx i" "in_mask m tx j" unfolding bank_conflict_def by blast
  have "(of_nat i :: u8) < 16"
    using c(1) by (simp add: word_less_nat_alt unat_of_nat)
  then obtain u where "endp_bank (of_nat i) = Some u" by (rule bank_Some)
  then have "(tx, u, i) \<in> set setup_plan" "(tx, u, j) \<in> set setup_plan"
    using c by (simp_all add: plan_bank)
  from pairs_complete [OF this c(3)] obtain a b where ab: "(tx, a, b) \<in> set incompatible_pairs"
    "a \<in> {1..15}" "b \<in> {1..15}" "in_mask m tx a" "in_mask m tx b" using c by blast
  then have "endpoint_bit tx a OR endpoint_bit tx b \<in> set usb2_incompatibles_endpoints"
    by (force simp: table_pairs)
  then show "\<exists>x \<in> set usb2_incompatibles_endpoints. m AND x = x"
    using ab pair_in_mask [of a b m tx] by blast
qed

section \<open>What the blocks program\<close>

text \<open>What a bank holds for one direction: buffer address, length and control register; and whether the
  bank's mode register enables the direction.\<close>

definition ep_regs :: "bool \<Rightarrow> uep \<Rightarrow> 'a usb2_world_scheme \<Rightarrow> u32 \<times> u16 \<times> u8" where
  "ep_regs tx u w =
     (if tx then (R32_UEP_DMA w (UEP_TX_DMA u), R16_UEP_T_LEN w u, R8_UEP_CTRL w (UEP_TX_CTRL u))
      else (R32_UEP_DMA w (UEP_RX_DMA u), R16_UEP_MAX_LEN w u, R8_UEP_CTRL w (UEP_RX_CTRL u)))"

definition ep_enabled :: "usb_consts \<Rightarrow> bool \<Rightarrow> uep \<Rightarrow> 'a usb2_world_scheme \<Rightarrow> bool" where
  "ep_enabled k tx u w \<longleftrightarrow>
     (let en = (if tx then RB_UEP_TX_EN k u else RB_UEP_RX_EN k u) in R8_UEP_MOD w (uep_mod_reg u) AND en = en)"

definition ep_programmed :: "usb_consts \<Rightarrow> usb_device \<Rightarrow> bool \<Rightarrow> uep \<Rightarrow> nat \<Rightarrow> 'a usb2_world_scheme \<Rightarrow> bool" where
  "ep_programmed k v tx u n w \<longleftrightarrow> ep_enabled k tx u w \<and>
     (if tx then
        (let ep = ep_tx (endpoints v) n in
         ep_regs True u w = (ep_buffer ep, 0, ep_state ep OR RB_UEP_T_TOG_0 k))
      else
        (let ep = ep_rx (endpoints v) n in
         ep_regs False u w = (ep_buffer ep, ep_max_packet_size ep, ep_state ep OR RB_UEP_R_TOG_0 k)))"

lemma or_mod_simps [simp]:
  "R8_UEP_CTRL (or_mod u v w) = R8_UEP_CTRL w" "R32_UEP_DMA (or_mod u v w) = R32_UEP_DMA w"
  "R16_UEP_T_LEN (or_mod u v w) = R16_UEP_T_LEN w" "R16_UEP_MAX_LEN (or_mod u v w) = R16_UEP_MAX_LEN w"
  "usb_devices (or_mod u v w) = usb_devices w" "usb2_backend_current_device (or_mod u v w) = usb2_backend_current_device w"
  by (simp_all add: or_mod_def)

text \<open>Enabling only ever sets bits.\<close>

lemma or_mod_enabled:
  "ep_enabled k tx u w \<Longrightarrow> ep_enabled k tx u (or_mod u' v w)"
  "ep_enabled k True u (or_mod u (RB_UEP_TX_EN k u) w)" "ep_enabled k False u (or_mod u (RB_UEP_RX_EN k u) w)"
proof -
  have absorb: "(x OR en) AND en = en" for x en :: u8 by (rule bit_word_eqI) (auto simp: bit_simps)
  have mono: "(x OR y) AND en = en" if "x AND en = en" for x y en :: u8
  proof (rule bit_word_eqI)
    fix n assume "n < LENGTH(8)"
    then show "bit ((x OR y) AND en) n = bit en n"
      using arg_cong [OF that, of "\<lambda>z. bit z n"] by (auto simp: bit_simps)
  qed
  show "ep_enabled k tx u w \<Longrightarrow> ep_enabled k tx u (or_mod u' v w)"
    by (cases tx; cases "uep_mod_reg u = uep_mod_reg u'") (simp_all add: ep_enabled_def or_mod_def Let_def mono)
  show "ep_enabled k True u (or_mod u (RB_UEP_TX_EN k u) w)" "ep_enabled k False u (or_mod u (RB_UEP_RX_EN k u) w)"
    by (simp_all add: ep_enabled_def or_mod_def absorb)
qed

text \<open>One block: it programs its own endpoint and leaves the settings of every other bank and of the
  other direction alone.\<close>

lemma setup_block_step:
  assumes "\<not> tx \<Longrightarrow> in_mask m tx n \<Longrightarrow> ep_max_packet_size (ep_rx (endpoints (dev2 w)) n) \<le> USB2_EP_MAX_PACKET_SIZE"
  shows "\<exists>w'. setup_block k m (tx, u, n) w = Inr w' \<and> dev2 w' = dev2 w \<and>
    (in_mask m tx n \<longrightarrow> ep_programmed k (dev2 w) tx u n w') \<and>
    (\<forall>tx' u'. \<not> in_mask m tx n \<or> (tx', u') \<noteq> (tx, u) \<longrightarrow> ep_regs tx' u' w' = ep_regs tx' u' w) \<and>
    (\<forall>tx' u'. ep_enabled k tx' u' w \<longrightarrow> ep_enabled k tx' u' w')"
proof (cases "in_mask m tx n")
  case False
  then have "setup_block k m (tx, u, n) w = Inr w"
    by (cases tx) (simp_all add: setup_block_def usb2_setup_tx_def usb2_setup_rx_def in_mask_def endpoint_bit_def)
  then show ?thesis using False by simp
next
  case True
  note in_m = True
  show ?thesis
  proof (cases tx)
    case True
    let ?ep = "ep_tx (endpoints (dev2 w)) n"
    let ?w1 = "or_mod u (RB_UEP_TX_EN k u) w"
    let ?w = "wr_ctrl (UEP_TX_CTRL u) (ep_state ?ep OR RB_UEP_T_TOG_0 k)
      (wr_tlen u 0 (wr_dma (UEP_TX_DMA u) (ep_buffer ?ep) ?w1))"
    have "setup_block k m (tx, u, n) w = Inr ?w"
      using True in_m by (simp add: setup_block_def usb2_setup_tx_def in_mask_def endpoint_bit_def Let_def)
    moreover have "ep_enabled k tx' u' ?w = ep_enabled k tx' u' ?w1" for tx' u' by (simp add: ep_enabled_def)
    ultimately show ?thesis using True in_m by (simp add: ep_programmed_def ep_regs_def or_mod_enabled Let_def)
  next
    case False
    let ?ep = "ep_rx (endpoints (dev2 w)) n"
    let ?w1 = "or_mod u (RB_UEP_RX_EN k u) w"
    let ?w2 = "wr_dma (UEP_RX_DMA u) (ep_buffer ?ep) ?w1"
    let ?w = "wr_ctrl (UEP_RX_CTRL u) (ep_state ?ep OR RB_UEP_R_TOG_0 k)
      (?w2\<lparr>R16_UEP_MAX_LEN := (R16_UEP_MAX_LEN ?w2)(u := ep_max_packet_size ?ep)\<rparr>)"
    have "\<not> USB2_EP_MAX_PACKET_SIZE < ep_max_packet_size ?ep" using assms False in_m by simp
    then have "setup_block k m (tx, u, n) w = Inr ?w"
      using False in_m by (simp add: setup_block_def usb2_setup_rx_def in_mask_def endpoint_bit_def Let_def)
    moreover have "ep_enabled k tx' u' ?w = ep_enabled k tx' u' ?w1" for tx' u' by (simp add: ep_enabled_def)
    ultimately show ?thesis using False in_m by (simp add: ep_programmed_def ep_regs_def or_mod_enabled Let_def)
  qed
qed

text \<open>The blocks that run: those before the first receive endpoint of the mask with packets the controller
  cannot take, at which the code returns.\<close>

definition fits :: "u32 \<Rightarrow> usb_device \<Rightarrow> bool \<times> uep \<times> nat \<Rightarrow> bool" where
  "fits m v = (\<lambda>(tx, u, n). tx \<or> \<not> in_mask m tx n \<or> ep_max_packet_size (ep_rx (endpoints v) n) \<le> USB2_EP_MAX_PACKET_SIZE)"

definition accepted_plan :: "u32 \<Rightarrow> usb_device \<Rightarrow> (bool \<times> uep \<times> nat) list" where
  "accepted_plan m v = takeWhile (fits m v) setup_plan"

lemma run_blocks_append: "run_blocks (xs @ ys) w = (case run_blocks xs w of Inl v \<Rightarrow> Inl v | Inr v \<Rightarrow> run_blocks ys v)"
  by (induction xs arbitrary: w) (auto split: sum.split)

lemma run_blocks_program:
  assumes "\<And>d. d \<in> set ds \<Longrightarrow> fits m (dev2 w) d"
    and "\<And>tx u i j. (tx, u, i) \<in> set ds \<Longrightarrow> (tx, u, j) \<in> set ds \<Longrightarrow> in_mask m tx i \<Longrightarrow> in_mask m tx j \<Longrightarrow> i = j"
  shows "\<exists>w'. run_blocks (map (setup_block k m) ds) w = Inr w' \<and> dev2 w' = dev2 w \<and>
    (\<forall>(tx, u, n) \<in> set ds. in_mask m tx n \<longrightarrow> ep_programmed k (dev2 w) tx u n w') \<and>
    (\<forall>tx u. (\<forall>n. in_mask m tx n \<longrightarrow> (tx, u, n) \<notin> set ds) \<longrightarrow> ep_regs tx u w' = ep_regs tx u w)"
  using assms
proof (induction ds rule: rev_induct)
  case Nil
  then show ?case by simp
next
  case (snoc d ds)
  obtain tx u n where d: "d = (tx, u, n)" by (cases d)
  have sub: "x \<in> set ds \<Longrightarrow> x \<in> set (ds @ [d])" for x by simp
  have "i = j" if "(tx, u, i) \<in> set ds" "(tx, u, j) \<in> set ds" "in_mask m tx i" "in_mask m tx j" for tx u i j
    using snoc.prems(2) [OF sub [OF that(1)] sub [OF that(2)] that(3,4)] .
  then obtain w1 where w1: "run_blocks (map (setup_block k m) ds) w = Inr w1" "dev2 w1 = dev2 w"
    "\<forall>(tx, u, n) \<in> set ds. in_mask m tx n \<longrightarrow> ep_programmed k (dev2 w) tx u n w1"
    "\<And>tx u. \<forall>n. in_mask m tx n \<longrightarrow> (tx, u, n) \<notin> set ds \<Longrightarrow> ep_regs tx u w1 = ep_regs tx u w"
    using snoc.IH [OF snoc.prems(1) [OF sub]] by blast
  have "fits m (dev2 w) (tx, u, n)" using snoc.prems(1) [of d] d by simp
  then have "\<not> tx \<Longrightarrow> in_mask m tx n \<Longrightarrow> ep_max_packet_size (ep_rx (endpoints (dev2 w1)) n) \<le> USB2_EP_MAX_PACKET_SIZE"
    by (simp add: fits_def w1(2))
  from setup_block_step [OF this, where k = k and u = u] obtain w2 where w2: "setup_block k m (tx, u, n) w1 = Inr w2" "dev2 w2 = dev2 w1"
    "in_mask m tx n \<Longrightarrow> ep_programmed k (dev2 w1) tx u n w2"
    "\<And>tx' u'. \<not> in_mask m tx n \<or> (tx', u') \<noteq> (tx, u) \<Longrightarrow> ep_regs tx' u' w2 = ep_regs tx' u' w1"
    "\<And>tx' u'. ep_enabled k tx' u' w1 \<Longrightarrow> ep_enabled k tx' u' w2"
    by blast
  have "ep_programmed k (dev2 w) tx' u' i w2" if i: "(tx', u', i) \<in> set (ds @ [d])" "in_mask m tx' i" for tx' u' i
  proof (cases "in_mask m tx n \<and> (tx', u') = (tx, u)")
    case True
    then have "i = n" using snoc.prems(2) [of tx u i n] i d by auto
    then show ?thesis using True w1(2) w2(3) by simp
  next
    case False
    have "(tx', u', i) \<in> set ds" using False i d by auto
    then have "ep_programmed k (dev2 w) tx' u' i w1"
      using bspec [OF w1(3), of "(tx', u', i)"] i(2) by (simp only: prod.case simp_thms)
    moreover have "ep_regs tx' u' w2 = ep_regs tx' u' w1"
      by (rule w2(4)) (use False in \<open>simp only: de_Morgan_conj simp_thms\<close>)
    ultimately show ?thesis using w2(5) [of tx' u'] by (cases tx') (simp_all add: ep_programmed_def)
  qed
  then have "\<forall>x \<in> set (ds @ [d]). case x of (tx, u, n) \<Rightarrow> in_mask m tx n \<longrightarrow> ep_programmed k (dev2 w) tx u n w2"
    by (intro ballI) (simp only: split_paired_all prod.case, blast)
  moreover have "\<forall>tx' u'. (\<forall>n. in_mask m tx' n \<longrightarrow> (tx', u', n) \<notin> set (ds @ [d])) \<longrightarrow> ep_regs tx' u' w2 = ep_regs tx' u' w"
  proof (intro allI impI)
    fix tx' u'
    assume free: "\<forall>n. in_mask m tx' n \<longrightarrow> (tx', u', n) \<notin> set (ds @ [d])"
    have "\<not> in_mask m tx n \<or> (tx', u') \<noteq> (tx, u)" using spec [OF free, of n] d by (cases tx; cases tx') auto
    then have "ep_regs tx' u' w2 = ep_regs tx' u' w1" by (rule w2(4))
    then show "ep_regs tx' u' w2 = ep_regs tx' u' w" using w1(4) free by simp
  qed
  moreover have "run_blocks (map (setup_block k m) (ds @ [d])) w = Inr w2"
    by (simp add: run_blocks_append w1(1) w2(1) d)
  ultimately show ?case using w1(2) w2(2) by (intro exI [of _ w2]) (simp only: simp_thms)
qed

text \<open>The blocks up to the first that does not fit decide.\<close>

lemma run_blocks_stop:
  assumes "run_blocks (map (setup_block k m) (accepted_plan m (dev2 w))) w = Inr w'" and "dev2 w' = dev2 w"
  shows "(case run_blocks (map (setup_block k m) setup_plan) w of Inl v \<Rightarrow> v | Inr v \<Rightarrow> v) = w'"
proof -
  have plan: "setup_plan = accepted_plan m (dev2 w) @ dropWhile (fits m (dev2 w)) setup_plan"
    by (simp add: accepted_plan_def)
  show ?thesis
  proof (cases "dropWhile (fits m (dev2 w)) setup_plan")
    case Nil
    then have "accepted_plan m (dev2 w) = setup_plan" using plan by (simp del: dropWhile_eq_Nil_conv)
    then show ?thesis using assms(1) by simp
  next
    case (Cons d ds)
    then have "\<not> fits m (dev2 w) d" by (metis hd_dropWhile list.distinct(1) list.sel(1))
    then have "setup_block k m d w' = Inl w'"
      by (cases d) (auto simp: fits_def setup_block_def usb2_setup_rx_def assms(2) in_mask_def endpoint_bit_def Let_def not_le)
    then show ?thesis
      by (subst plan) (simp add: run_blocks_append assms(1) Cons)
  qed
qed

lemma setup_mask_result:
  fixes w :: "'a usb2_world_scheme" and k :: usb_consts
  assumes "\<not> bank_conflict m"
  defines "w' \<equiv> usb2_setup_endpoints_in_mask k m w"
  shows "\<forall>(tx, u, n) \<in> set (accepted_plan m (dev2 w)). in_mask m tx n \<longrightarrow> ep_programmed k (dev2 w) tx u n w'"
    and "\<forall>tx u. (\<forall>n. in_mask m tx n \<longrightarrow> (tx, u, n) \<notin> set (accepted_plan m (dev2 w))) \<longrightarrow> ep_regs tx u w' = ep_regs tx u w"
proof -
  let ?ds = "accepted_plan m (dev2 w)"
  have sub: "d \<in> set ?ds \<Longrightarrow> d \<in> set setup_plan \<and> fits m (dev2 w) d" for d
    unfolding accepted_plan_def by (rule set_takeWhileD)
  have uniq: "i = j" if "(tx, u, i) \<in> set ?ds" "(tx, u, j) \<in> set ?ds" "in_mask m tx i" "in_mask m tx j" for tx u i j
    using assms(1) that sub [OF that(1)] sub [OF that(2)] plan_range [of tx u i] plan_range [of tx u j]
    unfolding bank_conflict_def by (metis plan_bank)
  note prog = run_blocks_program [where ds = ?ds and m = m and w = w and k = k]
  obtain v where v: "run_blocks (map (setup_block k m) ?ds) w = Inr v" "dev2 v = dev2 w"
    "\<forall>(tx, u, n) \<in> set ?ds. in_mask m tx n \<longrightarrow> ep_programmed k (dev2 w) tx u n v"
    "\<forall>tx u. (\<forall>n. in_mask m tx n \<longrightarrow> (tx, u, n) \<notin> set ?ds) \<longrightarrow> ep_regs tx u v = ep_regs tx u w"
    by (rule exE [OF prog], use sub in blast, use uniq in blast) blast
  have "w' = v"
    unfolding w'_def usb2_setup_endpoints_in_mask_def blocks_plan table_exact using assms(1) run_blocks_stop [OF v(1,2)] by simp
  then show "\<forall>(tx, u, n) \<in> set ?ds. in_mask m tx n \<longrightarrow> ep_programmed k (dev2 w) tx u n w'"
    and "\<forall>tx u. (\<forall>n. in_mask m tx n \<longrightarrow> (tx, u, n) \<notin> set ?ds) \<longrightarrow> ep_regs tx u w' = ep_regs tx u w"
    using v(3,4) by simp_all
qed

lemma accepted_all:
  assumes "\<forall>n \<in> {1..15}. in_mask m False n \<longrightarrow> ep_max_packet_size (ep_rx (endpoints v) n) \<le> 1024"
  shows "accepted_plan m v = setup_plan"
proof -
  have "fits m v d" if "d \<in> set setup_plan" for d
  proof (cases d)
    case (fields tx u n)
    then have "n \<in> {1..15}" using that plan_range by blast
    then show ?thesis using assms by (cases tx) (simp_all add: fits_def USB2_EP_MAX_PACKET_SIZE_def fields)
  qed
  then show ?thesis by (simp add: accepted_plan_def takeWhile_eq_all_conv)
qed

lemma setup_mask_programs:
  assumes "\<forall>n \<in> {1..15}. in_mask m False n \<longrightarrow> ep_max_packet_size (ep_rx (endpoints (dev2 w)) n) \<le> 1024"
    and "\<not> bank_conflict m" and "n \<in> {1..15}" and "endp_bank (of_nat n) = Some u" and "in_mask m tx n"
  shows "ep_programmed k (dev2 w) tx u n (usb2_setup_endpoints_in_mask k m w)"
proof -
  have "(tx, u, n) \<in> set (accepted_plan m (dev2 w))" using assms(1,3,4) by (simp add: accepted_all plan_bank)
  from bspec [OF setup_mask_result(1) [OF assms(2)] this] assms(5) show ?thesis by (simp only: prod.case simp_thms)
qed

text \<open>
  C16. Endpoint configuration, for every mask and every endpoint table: a mask that asks one register bank
  for two endpoints of one direction is refused without touching anything. For every other mask the setup
  runs in the order of \<open>setup_plan\<close> up to the first receive endpoint of the mask with packets of more than
  1024 bytes, where the code returns: each endpoint of the mask before that one finds its own buffer
  address, length and state in the registers the look-up functions return for it and its direction enabled
  in the bank's mode register, and for that one and those after it these registers are as before.
\<close>

theorem usb2_setup_endpoints_exact:
  "if bank_conflict m then usb2_setup_endpoints_in_mask k m w = w
   else \<forall>tx. \<forall>n \<in> {1..15}. \<forall>u. endp_bank (of_nat n) = Some u \<and> in_mask m tx n \<longrightarrow>
     (if (tx, u, n) \<in> set (accepted_plan m (dev2 w))
      then ep_programmed k (dev2 w) tx u n (usb2_setup_endpoints_in_mask k m w)
      else ep_regs tx u (usb2_setup_endpoints_in_mask k m w) = ep_regs tx u w)"
proof (cases "bank_conflict m")
  case True
  then show ?thesis using table_exact [of m] by (simp add: usb2_setup_endpoints_in_mask_def)
next
  case False
  note res = setup_mask_result [OF False, where k = k and w = w]
  have "if (tx, u, n) \<in> set (accepted_plan m (dev2 w))
      then ep_programmed k (dev2 w) tx u n (usb2_setup_endpoints_in_mask k m w)
      else ep_regs tx u (usb2_setup_endpoints_in_mask k m w) = ep_regs tx u w"
    if n: "n \<in> {1..15}" "endp_bank (of_nat n) = Some u" "in_mask m tx n" for tx n u
  proof (cases "(tx, u, n) \<in> set (accepted_plan m (dev2 w))")
    case True
    from bspec [OF res(1) this] n(3) True show ?thesis by (simp only: prod.case simp_thms if_True)
  next
    case out: False
    have "(tx, u, i) \<notin> set (accepted_plan m (dev2 w))" if "in_mask m tx i" for i
    proof
      assume i: "(tx, u, i) \<in> set (accepted_plan m (dev2 w))"
      then have "(tx, u, i) \<in> set setup_plan" unfolding accepted_plan_def by (rule set_takeWhileD [THEN conjunct1])
      then have "i \<in> {1..15}" "endp_bank (of_nat i) = Some u" using plan_range plan_bank by blast+
      then have "i = n" using False n that unfolding bank_conflict_def by metis
      then show False using i out by simp
    qed
    then show ?thesis using res(2) out by simp
  qed
  then show ?thesis using False by simp
qed

theorem usb2_setup_endpoints_exact_witness:
  "usb2_setup_endpoints_in_mask demo_consts (ENDPOINT_TX 4 OR ENDPOINT_TX 12) demo_usb2 = demo_usb2 \<and>
   R32_UEP_DMA (usb2_setup_endpoints_in_mask demo_consts (ENDPOINT_TX 9 OR ENDPOINT_RX 1)
      (upd_dev2 (upd_ep_tx 9 (\<lambda>p. p\<lparr>ep_buffer := 0x20021000\<rparr>)) demo_usb2)) (UEP_TX_DMA UEP1) = 0x20021000"
proof -
  have c: "bank_conflict (ENDPOINT_TX 4 OR ENDPOINT_TX 12)"
    unfolding table_exact [symmetric] by (rule bexI [of _ "ENDPOINT_TX 4 OR ENDPOINT_TX 12"])
      (simp_all add: usb2_incompatibles_endpoints_def)
  have nc: "\<not> bank_conflict (ENDPOINT_TX 9 OR ENDPOINT_RX 1)"
    unfolding table_exact [symmetric] by (simp add: usb2_incompatibles_endpoints_def ENDPOINT_TX_def ENDPOINT_RX_def)
  let ?w = "upd_dev2 (upd_ep_tx 9 (\<lambda>p. p\<lparr>ep_buffer := 0x20021000\<rparr>)) demo_usb2"
  have "usb2_setup_endpoints_in_mask demo_consts (ENDPOINT_TX 4 OR ENDPOINT_TX 12) demo_usb2 = demo_usb2"
    using usb2_setup_endpoints_exact [of "ENDPOINT_TX 4 OR ENDPOINT_TX 12" demo_consts demo_usb2] c by simp
  moreover have "ep_programmed demo_consts (dev2 ?w) True UEP1 9
      (usb2_setup_endpoints_in_mask demo_consts (ENDPOINT_TX 9 OR ENDPOINT_RX 1) ?w)"
  proof -
    have "in_mask (ENDPOINT_TX 9 OR ENDPOINT_RX 1) True 9"
      by (simp add: in_mask_def endpoint_bit_def ENDPOINT_TX_def ENDPOINT_RX_def)
    moreover have "endp_bank (of_nat 9) = Some UEP1" by (simp add: endp_bank_def)
    moreover have "(True, UEP1, 9) \<in> set (accepted_plan (ENDPOINT_TX 9 OR ENDPOINT_RX 1) (dev2 ?w))"
      by (simp add: accepted_plan_def setup_plan_def fits_def)
    moreover have "(9 :: nat) \<in> {1..15}" by simp
    ultimately show ?thesis
      using usb2_setup_endpoints_exact [of "ENDPOINT_TX 9 OR ENDPOINT_RX 1" demo_consts ?w] nc by (metis (full_types))
  qed
  ultimately show ?thesis by (simp add: ep_programmed_def ep_regs_def Let_def)
qed

end
