(* ===== verification/Usb2_Address.thy ===== *)
theory Usb2_Address
  imports Usb2_Endpoints
begin

text \<open>
  The device address over every history of the USB 2.0 backend. \<open>usb2_step\<close> is one step of the
  backend: an interrupt, a call from the application, or the hardware changing its status registers
  and the memory it writes to. The invariant is the part of the USB device state machine the backend
  is responsible for: the controller's address is one of the bus, and a device in the Default state
  answers at address 0.
\<close>

definition usb2_addr_ok :: "'a usb2_world_scheme \<Rightarrow> bool" where
  "usb2_addr_ok w \<longleftrightarrow> R8_USB_DEV_AD w \<le> 127 \<and> (dev_state (dev2 w) = DEFAULT \<longrightarrow> R8_USB_DEV_AD w = 0)"

text \<open>The user's handlers and the BSP keep \<open>P\<close>.\<close>

definition usb_env_keeps :: "('w \<Rightarrow> bool) \<Rightarrow> 'w usb_env \<Rightarrow> bool" where
  "usb_env_keeps P e \<longleftrightarrow>
     (\<forall>a req b w n p w'. P w \<longrightarrow> env_control_request e a req b w = Some (n, p, w') \<longrightarrow> P w') \<and>
     (\<forall>a p n w st w'. P w \<longrightarrow> env_passthrough_setup e a p n w = Some (st, w') \<longrightarrow> P w') \<and>
     (\<forall>a st w w'. P w \<longrightarrow> env_tx_complete e a st w = Some w' \<longrightarrow> P w') \<and>
     (\<forall>a p n w st w'. P w \<longrightarrow> env_rx_callback e a p n w = Some (st, w') \<longrightarrow> P w') \<and>
     (\<forall>a ep w w'. P w \<longrightarrow> env_nak_callback e a ep w = Some w' \<longrightarrow> P w') \<and>
     (\<forall>a w w'. P w \<longrightarrow> env_bus_reset e a w = Some w' \<longrightarrow> P w') \<and>
     (\<forall>i w. P w \<longrightarrow> P (PFIC_EnableIRQ e i w)) \<and> (\<forall>i w. P w \<longrightarrow> P (PFIC_DisableIRQ e i w))"

inductive usb2_step :: "usb_consts \<Rightarrow> ('a usb2_world_scheme) usb_env \<Rightarrow> 'a usb2_world_scheme \<Rightarrow> 'a usb2_world_scheme \<Rightarrow> bool"
  for k e where
  step_init: "usb2_device_init k e w = Some w' \<Longrightarrow> usb2_step k e w w'"
| step_deinit: "usb2_step k e w (usb2_device_deinit k e w)"
| step_hardware: "usb2_step k e w (w\<lparr>R8_USB_INT_FG := fg, R8_USB_INT_ST := st, R16_USB_RX_LEN := len, usb_memory := m\<rparr>)"
| step_irq: "USBHS_IRQHandler k e w = Some w' \<Longrightarrow> usb2_step k e w w'"
| step_tx_ready: "usb2_endp_tx_ready k ep n w = Some w' \<Longrightarrow> usb2_step k e w w'"
| step_rx_set_state: "usb2_endp_rx_set_state_callback k ep w = Some w' \<Longrightarrow> usb2_step k e w w'"
| step_tx_set_state: "usb2_endp_tx_set_state_callback k ep w = Some w' \<Longrightarrow> usb2_step k e w w'"
| step_nak: "usb2_step k e w (usb2_enable_nak k b w)"
| step_passthrough: "usb2_step k e w (usb2_ep0_passthrough_enabled b w)"

inductive_cases usb2_stepE: "usb2_step k e w w'"

named_theorems addr_keeps \<open>operations that keep the address invariant\<close>

section \<open>The parts of the handlers\<close>

lemma usb_env_keepsD:
  assumes "usb_env_keeps P e" and "P w"
  shows "env_control_request e a req b w = Some (n, p, w') \<Longrightarrow> P w'"
    "env_passthrough_setup e a p16 n16 w = Some (st, w') \<Longrightarrow> P w'"
    "env_tx_complete e a ts w = Some w' \<Longrightarrow> P w'"
    "env_rx_callback e a p16 n16 w = Some (st, w') \<Longrightarrow> P w'"
    "env_nak_callback e a ep w = Some w' \<Longrightarrow> P w'"
    "env_bus_reset e a w = Some w' \<Longrightarrow> P w'"
    "P (PFIC_EnableIRQ e i w)" "P (PFIC_DisableIRQ e i w)"
proof -
  note k = assms(1) [unfolded usb_env_keeps_def]
  note k1 = k [THEN conjunct2] note k2 = k1 [THEN conjunct2] note k3 = k2 [THEN conjunct2]
  note k4 = k3 [THEN conjunct2] note k5 = k4 [THEN conjunct2] note k6 = k5 [THEN conjunct2]
  note H = k [THEN conjunct1, rule_format, OF assms(2)] k1 [THEN conjunct1, rule_format, OF assms(2)]
    k2 [THEN conjunct1, rule_format, OF assms(2)] k3 [THEN conjunct1, rule_format, OF assms(2)]
    k4 [THEN conjunct1, rule_format, OF assms(2)] k5 [THEN conjunct1, rule_format, OF assms(2)]
  show "env_control_request e a req b w = Some (n, p, w') \<Longrightarrow> P w'" by (rule H(1))
  show "env_passthrough_setup e a p16 n16 w = Some (st, w') \<Longrightarrow> P w'" by (rule H(2))
  show "env_tx_complete e a ts w = Some w' \<Longrightarrow> P w'" by (rule H(3))
  show "env_rx_callback e a p16 n16 w = Some (st, w') \<Longrightarrow> P w'" by (rule H(4))
  show "env_nak_callback e a ep w = Some w' \<Longrightarrow> P w'" by (rule H(5))
  show "env_bus_reset e a w = Some w' \<Longrightarrow> P w'" by (rule H(6))
  show "P (PFIC_EnableIRQ e i w)" "P (PFIC_DisableIRQ e i w)"
    using k6 [THEN conjunct1, rule_format, OF assms(2)] k6 [THEN conjunct2, rule_format, OF assms(2)] by simp_all
qed

lemma call_keeps:
  assumes "usb_env_keeps P e" and "P w"
  shows "call_control_request e h req b w = Some (n, p, w') \<Longrightarrow> P w'"
    "call_passthrough_setup e h p16 n16 w = Some (st, w') \<Longrightarrow> P w'"
    "call_tx_complete e h ts w = Some w' \<Longrightarrow> P w'"
    "call_rx_callback e h p16 n16 w = Some (st, w') \<Longrightarrow> P w'"
    "call_nak_callback e h ep w = Some w' \<Longrightarrow> P w'"
  using assms(2)
  by (cases h; simp add: call_control_request_def call_passthrough_setup_def call_tx_complete_def
      call_rx_callback_def call_nak_callback_def usb_env_keepsD [OF assms])+

lemma addr_ok_writes [simp]:
  "usb2_addr_ok (wr_ctrl r v w) = usb2_addr_ok w" "usb2_addr_ok (wr_dma d a w) = usb2_addr_ok w"
  "usb2_addr_ok (wr_tlen u n w) = usb2_addr_ok w" "usb2_addr_ok (write_int_fg e x w) = usb2_addr_ok w"
  "usb2_addr_ok (upd_device i (upd_ep_rx j f) w) = usb2_addr_ok w" "usb2_addr_ok (upd_device i (upd_ep_tx j g) w) = usb2_addr_ok w"
  "usb2_addr_ok (w\<lparr>usb_memory := m\<rparr>) = usb2_addr_ok w" "usb2_addr_ok (w\<lparr>endp0_remaining_bytes := n\<rparr>) = usb2_addr_ok w"
  "usb2_addr_ok (w\<lparr>endp0_current_transfer_size := n\<rparr>) = usb2_addr_ok w" "usb2_addr_ok (w\<lparr>desc_head := a\<rparr>) = usb2_addr_ok w"
  "usb2_addr_ok (w\<lparr>usb_setup_req := q\<rparr>) = usb2_addr_ok w" "usb2_addr_ok (w\<lparr>usb_setup_req_data_size := n\<rparr>) = usb2_addr_ok w"
  "usb2_addr_ok (w\<lparr>endp_tx_remaining_bytes := f16\<rparr>) = usb2_addr_ok w" "usb2_addr_ok (w\<lparr>R8_USB_INT_FG := x\<rparr>) = usb2_addr_ok w"
  "usb2_addr_ok (w\<lparr>R8_USB_INT_ST := x\<rparr>) = usb2_addr_ok w" "usb2_addr_ok (w\<lparr>R16_USB_RX_LEN := n\<rparr>) = usb2_addr_ok w"
  "usb2_addr_ok (w\<lparr>R8_USB_INT_EN := x\<rparr>) = usb2_addr_ok w" "usb2_addr_ok (w\<lparr>R8_USB_CTRL := x\<rparr>) = usb2_addr_ok w"
  "usb2_addr_ok (w\<lparr>ep0_passthrough_enabled := b\<rparr>) = usb2_addr_ok w" "usb2_addr_ok (w\<lparr>R8_UEP_MOD := md\<rparr>) = usb2_addr_ok w"
  "usb2_addr_ok (w\<lparr>R16_UEP_MAX_LEN := ml\<rparr>) = usb2_addr_ok w" "usb2_addr_ok (w\<lparr>usb2_endp0_max_packet_size := n\<rparr>) = usb2_addr_ok w"
  by (auto simp: usb2_addr_ok_def write_int_fg_def)

lemma addr_ok_device [simp]:
  "usb2_addr_ok (upd_dev2 (\<lambda>v. v\<lparr>dev_addr := a\<rparr>) w) = usb2_addr_ok w"
  "usb2_addr_ok (upd_dev2 (\<lambda>v. v\<lparr>current_config := c\<rparr>) w) = usb2_addr_ok w"
  "usb2_addr_ok w \<Longrightarrow> usb2_addr_ok (upd_dev2 (\<lambda>v. v\<lparr>dev_state := CONFIGURED\<rparr>) w)"
  "usb2_addr_ok w \<Longrightarrow> usb2_addr_ok (upd_dev2 (\<lambda>v. v\<lparr>dev_addr := a, dev_state := POWERED\<rparr>) w)"
  by (simp_all add: usb2_addr_ok_def)

lemma memcpy_keeps: "usb_memcpy dst src n w = Some w' \<Longrightarrow> usb2_addr_ok w' = usb2_addr_ok w"
  by (auto simp: usb_memcpy_def split: if_splits)

definition block_keeps :: "('w \<Rightarrow> bool) \<Rightarrow> ('w \<Rightarrow> 'w + 'w) \<Rightarrow> bool" where
  "block_keeps P b \<longleftrightarrow> (\<forall>w w'. P w \<longrightarrow> b w = Inl w' \<or> b w = Inr w' \<longrightarrow> P w')"

lemma block_keepsD: "block_keeps P b \<Longrightarrow> P w \<Longrightarrow> b w = Inl w' \<or> b w = Inr w' \<Longrightarrow> P w'"
  unfolding block_keeps_def by blast

lemma run_blocks_keeps:
  assumes "list_all (block_keeps P) bs" and "P w" and "run_blocks bs w = Inl w' \<or> run_blocks bs w = Inr w'"
  shows "P w'"
  using assms
proof (induction bs arbitrary: w)
  case (Cons b bs)
  then have b: "block_keeps P b" "list_all (block_keeps P) bs" by simp_all
  show ?case
  proof (cases "b w")
    case (Inl w1)
    then have "w' = w1" using Cons.prems(3) by simp
    then show ?thesis using block_keepsD [OF b(1) Cons.prems(2)] Inl by simp
  next
    case (Inr w1)
    then have "P w1" using block_keepsD [OF b(1) Cons.prems(2)] by simp
    moreover have "run_blocks bs w1 = Inl w' \<or> run_blocks bs w1 = Inr w'" using Cons.prems(3) Inr by simp
    ultimately show ?thesis using Cons.IH [OF b(2)] by blast
  qed
qed simp

text \<open>The endpoint configuration writes endpoint registers only.\<close>

definition ignores_bank_regs :: "('a usb2_world_scheme \<Rightarrow> bool) \<Rightarrow> bool" where
  "ignores_bank_regs P \<longleftrightarrow> (\<forall>w r v. P (wr_ctrl r v w) = P w) \<and> (\<forall>w u v. P (wr_dma (UEP_TX_DMA u) v w) = P w) \<and>
     (\<forall>w u v. P (wr_dma (UEP_RX_DMA u) v w) = P w) \<and>
     (\<forall>w u v. P (wr_tlen u v w) = P w) \<and> (\<forall>w u v. P (or_mod u v w) = P w) \<and>
     (\<forall>w f. P (w\<lparr>R16_UEP_MAX_LEN := f\<rparr>) = P w)"

definition ignores_regs :: "('a usb2_world_scheme \<Rightarrow> bool) \<Rightarrow> bool" where
  "ignores_regs P \<longleftrightarrow> ignores_bank_regs P \<and> (\<forall>w v. P (wr_dma UEP0_RT_DMA v w) = P w)"

lemma setup_block_ignored:
  assumes "ignores_bank_regs P"
  shows "block_keeps P (setup_block k m d)"
  unfolding block_keeps_def
proof (intro allI impI)
  fix w w' assume w: "P w" "setup_block k m d w = Inl w' \<or> setup_block k m d w = Inr w'"
  obtain tx u n where d: "d = (tx, u, n)" by (cases d)
  note r = assms [unfolded ignores_bank_regs_def]
  show "P w'"
  proof (cases tx)
    case True
    show ?thesis using w d True r
      by (cases "m AND ENDPOINT_TX n = 0") (auto simp: setup_block_def usb2_setup_tx_def Let_def)
  next
    case False
    show ?thesis using w d False r
      by (cases "m AND ENDPOINT_RX n = 0"; cases "USB2_EP_MAX_PACKET_SIZE < ep_max_packet_size (ep_rx (endpoints (dev2 w)) n)")
        (auto simp: setup_block_def usb2_setup_rx_def Let_def)
  qed
qed

lemma setup_mask_ignored:
  assumes "ignores_bank_regs P" and "P w"
  shows "P (usb2_setup_endpoints_in_mask k m w)"
proof -
  have "list_all (block_keeps P) (map (setup_block k m) setup_plan)"
    using setup_block_ignored [OF assms(1)] by (simp add: list_all_iff)
  from run_blocks_keeps [OF this assms(2)] show ?thesis
    unfolding usb2_setup_endpoints_in_mask_def blocks_plan using assms(2)
    by (cases "run_blocks (map (setup_block k m) setup_plan) w") simp_all
qed

lemma setup_endpoints_ignored:
  assumes "ignores_regs P" and "P w"
  shows "P (usb2_setup_endpoints k w)"
  unfolding usb2_setup_endpoints_def Let_def
  by (rule setup_mask_ignored) (use assms in \<open>simp_all add: ignores_regs_def ignores_bank_regs_def\<close>)

lemma ignores_addr_ok: "ignores_regs usb2_addr_ok"
  by (simp add: ignores_regs_def ignores_bank_regs_def or_mod_def)

lemma ignores_addr: "ignores_regs (\<lambda>w. R8_USB_DEV_AD w = 0)"
  by (simp add: ignores_regs_def ignores_bank_regs_def or_mod_def)

lemma setup_endpoints_keeps [simp]: "usb2_addr_ok w \<Longrightarrow> usb2_addr_ok (usb2_setup_endpoints k w)"
  by (rule setup_endpoints_ignored [OF ignores_addr_ok])

lemma reset_endpoints_keeps [simp]: "usb2_addr_ok w \<Longrightarrow> usb2_addr_ok (usb2_reset_endpoints k w)"
  by (simp add: usb2_reset_endpoints_def)

lemma set_configuration_keeps [simp]: "usb2_addr_ok w \<Longrightarrow> usb2_addr_ok (usb2_ep0_set_configuration_callback k w)"
  by (simp add: usb2_ep0_set_configuration_callback_def)

section \<open>Endpoint 0\<close>

lemma start_in_keeps: "usb2_addr_ok w \<Longrightarrow> usb2_ep0_start_in p n w = Some (len, w') \<Longrightarrow> usb2_addr_ok w'"
  by (auto simp: usb2_ep0_start_in_def Let_def bind_eq_Some_conv usb_memcpy_def split: if_splits)

lemma get_descriptor_keeps:
  "usb2_addr_ok w \<Longrightarrow> usb2_ep0_get_descriptor k w = Some (len, w') \<Longrightarrow> usb2_addr_ok w'"
  by (auto simp: usb2_ep0_get_descriptor_def Let_def split: if_splits dest: start_in_keeps)

lemma standard_request_keeps:
  "usb2_addr_ok w \<Longrightarrow> usb2_ep0_standard_request k w = Some (len, w') \<Longrightarrow> usb2_addr_ok w'"
  by (auto simp: usb2_ep0_standard_request_def Let_def split: if_splits dest: get_descriptor_keeps)

lemma user_request_keeps:
  assumes "usb_env_keeps usb2_addr_ok e" and "usb2_addr_ok w" and "usb2_ep0_user_request k e w = Some (len, b, w')"
  shows "usb2_addr_ok w'"
  using assms(2,3)
  by (auto simp: usb2_ep0_user_request_def Let_def bind_eq_Some_conv split: if_splits
      dest: call_keeps(1) [OF assms(1,2)] intro: start_in_keeps)

lemma request_keeps:
  assumes "usb_env_keeps usb2_addr_ok e" and "usb2_addr_ok w" and "usb2_ep0_request_handler k e w = Some (len, w')"
  shows "usb2_addr_ok w'"
  using assms(2,3)
  by (auto simp: usb2_ep0_request_handler_def Let_def bind_eq_Some_conv split: if_splits
      dest: user_request_keeps [OF assms(1,2)] standard_request_keeps)

lemma setup_stage_keeps:
  assumes "usb_env_keeps usb2_addr_ok e" and "usb2_addr_ok w" and "usb2_ep0_setup_stage_handler k e w = Some w'"
  shows "usb2_addr_ok w'"
  using assms(3)
  by (auto simp: usb2_ep0_setup_stage_handler_def Let_def bind_eq_Some_conv split: if_splits
      dest: request_keeps [OF assms(1,2)])

text \<open>The one place that sets an address other than 0 leaves the Default state.\<close>

lemma ep0_in_keeps: "usb2_addr_ok w \<Longrightarrow> usb2_ep0_in_handler k w = Some w' \<Longrightarrow> usb2_addr_ok w'"
proof (cases "bRequestType (usb_setup_req w) AND USB_REQ_TYP_IN k = 0")
  case True
  assume w: "usb2_addr_ok w" "usb2_ep0_in_handler k w = Some w'"
  have "usb2_addr_ok (upd_dev2 (\<lambda>v. v\<lparr>dev_state := ADDRESS\<rparr>) (w\<lparr>R8_USB_DEV_AD := a\<rparr>))" if "a \<le> 127" for a
    using that by (simp add: usb2_addr_ok_def)
  then show ?thesis
    using True w by (auto simp: usb2_ep0_in_handler_def Let_def usb2_set_device_address_def usb2_is_address_valid_def
        split: if_splits)
next
  case False
  assume "usb2_addr_ok w" "usb2_ep0_in_handler k w = Some w'"
  then show ?thesis using False
    by (auto simp: usb2_ep0_in_handler_def Let_def bind_eq_Some_conv usb_memcpy_def split: if_splits)
qed

lemma ep0_out_keeps:
  assumes "usb_env_keeps usb2_addr_ok e" and "usb2_addr_ok w" and "usb2_ep0_out_handler k e w = Some w'"
  shows "usb2_addr_ok w'"
  using assms(2,3)
  by (auto simp: usb2_ep0_out_handler_def Let_def bind_eq_Some_conv split: if_splits
      dest: call_keeps(1) [OF assms(1), rotated])

section \<open>The other endpoints\<close>

lemma in_transfer_keeps:
  assumes "usb_env_keeps usb2_addr_ok e" and "usb2_addr_ok w" and "usb2_in_transfer_handler k e ep w = Some w'"
  shows "usb2_addr_ok w'"
  using assms(2,3)
  by (auto simp: usb2_in_transfer_handler_def Let_def bind_eq_Some_conv split: if_splits
      dest: call_keeps(3) [OF assms(1), rotated])

lemma out_transfer_keeps:
  assumes "usb_env_keeps usb2_addr_ok e" and "usb2_addr_ok w" and "usb2_out_transfer_handler k e ep n w = Some w'"
  shows "usb2_addr_ok w'"
proof -
  let ?buf = "ep_buffer (ep_rx (endpoints (dev2 w)) (unat ep))"
  let ?w1 = "if ep = 0 then w\<lparr>usb_setup_req_data_size := usb_setup_req_data_size w + n\<rparr> else w"
  obtain a b c where regs: "usb2_get_rx_endpoint_ctrl_reg ep = Some a" "usb2_get_tx_endpoint_ctrl_reg ep = Some b"
    "usb2_get_rx_endpoint_addr_reg ep = Some c"
    using assms(3) by (cases "endp_bank ep") (simp_all add: usb2_out_transfer_handler_def Let_def
        usb2_get_rx_endpoint_ctrl_reg_def usb2_get_tx_endpoint_ctrl_reg_def usb2_get_rx_endpoint_addr_reg_def)
  show ?thesis
  proof (cases "?buf = 0")
    case True
    then show ?thesis using assms(2,3) regs by (simp add: usb2_out_transfer_handler_def Let_def) auto
  next
    case False
    have w1: "usb2_addr_ok ?w1" using assms(2) by simp
    obtain st w2 where cb: "call_rx_callback e (rx_callback (endpoints (dev2 ?w1)) (unat ep)) ?buf n ?w1 = Some (st, w2)"
      using assms(3) False regs by (cases "call_rx_callback e (rx_callback (endpoints (dev2 ?w1)) (unat ep)) ?buf n ?w1")
        (simp_all add: usb2_out_transfer_handler_def Let_def, fastforce)
    have "usb2_addr_ok w2" by (rule call_keeps(4) [OF assms(1) w1 cb])
    then show ?thesis
      using assms(3) False regs cb by (auto simp: usb2_out_transfer_handler_def Let_def split: if_splits)
  qed
qed

section \<open>The interrupt\<close>

lemma irq_keeps:
  assumes "usb_env_keeps usb2_addr_ok e" and "usb2_addr_ok w" and "USBHS_IRQHandler k e w = Some w'"
  shows "usb2_addr_ok w'"
proof -
  have reset: "usb2_addr_ok w'" if "usb2_irq_bus_reset k e w = Some w'"
  proof -
    from that obtain w1 where "w' = write_int_fg e (RB_USB_IF_BUSRST k) (upd_dev2 (\<lambda>v. v\<lparr>dev_state := DEFAULT\<rparr>)
        (usb2_setup_endpoints k (upd_dev2 (\<lambda>v. v\<lparr>dev_addr := 0\<rparr>) (w1\<lparr>R8_USB_DEV_AD := 0\<rparr>))))"
      by (auto simp: usb2_irq_bus_reset_def Let_def bind_eq_Some_conv usb2_set_device_address_def usb2_is_address_valid_def)
    moreover have "R8_USB_DEV_AD (usb2_setup_endpoints k (upd_dev2 (\<lambda>v. v\<lparr>dev_addr := 0\<rparr>) (w1\<lparr>R8_USB_DEV_AD := 0\<rparr>))) = 0"
      by (rule setup_endpoints_ignored [OF ignores_addr]) simp
    ultimately show ?thesis by (simp add: usb2_addr_ok_def write_int_fg_def)
  qed
  have setup_ev: "usb2_addr_ok w'" if "usb2_irq_setup k e w = Some w'"
  proof -
    let ?w = "w\<lparr>usb_setup_req := load_setup (usb_memory w) (rx0_buffer2 w), usb_setup_req_data_size := 0\<rparr>"
    have w: "usb2_addr_ok ?w" using assms(2) by simp
    have "usb2_addr_ok v" if "usb2_passthrough_setup k e ?w = Some v" for v
      using that by (auto simp: usb2_passthrough_setup_def Let_def bind_eq_Some_conv dest: call_keeps(2) [OF assms(1) w])
    then show ?thesis
      using that by (auto simp: usb2_irq_setup_def Let_def bind_eq_Some_conv split: if_splits
          dest: setup_stage_keeps [OF assms(1) w])
  qed
  have transfer: "usb2_addr_ok w'" if "usb2_irq_transfer k e n ep pid t w = Some w'" for n ep pid t
    using that assms(2)
    by (auto simp: usb2_irq_transfer_def bind_eq_Some_conv split: if_splits
        dest: in_transfer_keeps [OF assms(1,2)] out_transfer_keeps [OF assms(1,2)] ep0_in_keeps ep0_out_keeps [OF assms(1,2)])
  show ?thesis
    using assms(2,3)
    by (auto simp: USBHS_IRQHandler_def Let_def bind_eq_Some_conv split: if_splits
        dest: call_keeps(5) [OF assms(1,2)] setup_ev transfer reset)
qed

lemma init_keeps:
  assumes "usb_env_keeps usb2_addr_ok e" and "usb2_addr_ok w" and "usb2_device_init k e w = Some w'"
  shows "usb2_addr_ok w'"
proof -
  have w: "usb2_addr_ok (PFIC_EnableIRQ e USBHS_IRQn w)" by (rule usb_env_keepsD [OF assms(1,2)])
  show ?thesis
    using assms(3) w usb_env_keepsD(8) [OF assms(1) w]
    by (auto simp: usb2_device_init_def Let_def usb2_device_deinit_def split: if_splits)
qed

lemma step_keeps:
  assumes "usb_env_keeps usb2_addr_ok e" and "usb2_addr_ok w" and "usb2_step k e w w'"
  shows "usb2_addr_ok w'"
  using assms(3)
proof cases
  case step_init
  then show ?thesis by (rule init_keeps [OF assms(1,2)])
next
  case step_deinit
  then show ?thesis using usb_env_keepsD(8) [OF assms(1,2)] by (simp add: usb2_device_deinit_def Let_def)
next
  case step_irq
  then show ?thesis by (rule irq_keeps [OF assms(1,2)])
next
  case (step_tx_ready ep n)
  then show ?thesis using assms(2) by (auto simp: usb2_endp_tx_ready_def Let_def bind_eq_Some_conv)
next
  case (step_rx_set_state ep)
  then show ?thesis using assms(2) by (auto simp: usb2_endp_rx_set_state_callback_def Let_def bind_eq_Some_conv)
next
  case (step_tx_set_state ep)
  then show ?thesis using assms(2) by (auto simp: usb2_endp_tx_set_state_callback_def Let_def bind_eq_Some_conv)
qed (use assms(2) in \<open>simp_all add: usb2_enable_nak_def usb2_ep0_passthrough_enabled_def\<close>)

text \<open>
  C19. In every history of interrupts, calls and hardware events from a sound state, the address the
  controller answers at is a USB address (at most 127), and it is 0 while the device is in the
  Default state: only the end of the status stage of \<open>SET_ADDRESS\<close> changes it, and that leaves the
  Default state.
\<close>

theorem usb2_address_invariant:
  assumes "usb_env_keeps usb2_addr_ok e" and "usb2_addr_ok w" and "(usb2_step k e)\<^sup>*\<^sup>* w w'"
  shows "R8_USB_DEV_AD w' \<le> 127 \<and> (dev_state (dev2 w') = DEFAULT \<longrightarrow> R8_USB_DEV_AD w' = 0)"
proof -
  from assms(3) have "usb2_addr_ok w'"
    by (induction rule: rtranclp_induct) (auto intro: assms(2) step_keeps [OF assms(1)])
  then show ?thesis by (simp add: usb2_addr_ok_def)
qed

text \<open>The device is given an address: the status stage of \<open>SET_ADDRESS\<close> as an interrupt.\<close>

definition demo_addressing :: usb2_world where
  "demo_addressing = upd_dev2 (\<lambda>v. v\<lparr>dev_addr := 7\<rparr>)
     (demo_usb2\<lparr>usb_setup_req := \<lparr>bRequestType = 0, bRequest = 5, wValue = 7, wIndex = 0, wLength = 0\<rparr>,
        R8_USB_INT_FG := 2, R8_USB_INT_ST := 0x20\<rparr>)"

theorem usb2_address_invariant_witness:
  "\<exists>w'. (usb2_step demo_consts (demo_env 0))\<^sup>*\<^sup>* demo_addressing w' \<and> R8_USB_DEV_AD w' = 7 \<and> R8_USB_DEV_AD w' \<le> 127 \<and>
     dev_state (dev2 w') = ADDRESS"
proof -
  obtain w' where w': "USBHS_IRQHandler demo_consts (demo_env 0) demo_addressing = Some w'" "R8_USB_DEV_AD w' = 7"
    "dev_state (dev2 w') = ADDRESS"
    by (simp add: USBHS_IRQHandler_def Let_def demo_addressing_def demo_consts_def demo_usb2_def usb2_irq_transfer_def
        PID_IN_def PID_OUT_def usb2_ep0_in_handler_def usb2_set_device_address_def usb2_is_address_valid_def
        write_int_fg_def upd_dev2_def upd_device_def usb_device_initial_def upd_ep_rx_def)
  have env: "usb_env_keeps usb2_addr_ok (demo_env 0)"
    by (simp add: usb_env_keeps_def demo_env_def)
  have ok: "usb2_addr_ok demo_addressing"
    by (simp add: usb2_addr_ok_def demo_addressing_def demo_usb2_def)
  have run: "(usb2_step demo_consts (demo_env 0))\<^sup>*\<^sup>* demo_addressing w'"
    using step_irq [OF w'(1)] by blast
  show ?thesis
    using usb2_address_invariant [OF env ok run] run w' by blast
qed

end
