(* ===== verification/Usb2_Enumeration.thy ===== *)
theory Usb2_Enumeration
  imports Usb2_Control Usb2_Address Usb_Abstract
begin

text \<open>
  Control transfers one after the other, as a host does them when it enumerates a device over USB 2.0.
  Each event is what the bus does to the controller's registers and memory, followed by the interrupt;
  a control transfer is a sequence of events and \<open>usb2_requests\<close> runs a script of transfers. The relation
  \<open>enum_keeps\<close> says what every transfer leaves alone, so that the next one finds the device ready.
\<close>

section \<open>Events on endpoint 0\<close>

definition usb2_bus_reset :: "usb_consts \<Rightarrow> ('a usb2_world_scheme) usb_env \<Rightarrow> 'a usb2_world_scheme \<Rightarrow> 'a usb2_world_scheme option" where
  "usb2_bus_reset k e w = USBHS_IRQHandler k e (w\<lparr>R8_USB_INT_ST := 0, R8_USB_INT_FG := RB_USB_IF_BUSRST k\<rparr>)"

text \<open>The controller stores the setup packet at the DMA address of endpoint 0.\<close>

definition usb2_setup ::
    "usb_consts \<Rightarrow> ('a usb2_world_scheme) usb_env \<Rightarrow> USB_SETUP \<Rightarrow> 'a usb2_world_scheme \<Rightarrow> 'a usb2_world_scheme option" where
  "usb2_setup k e req w = USBHS_IRQHandler k e
     (w\<lparr>usb_memory := mem_write (R32_UEP_DMA w UEP0_RT_DMA) (setup_bytes req) (usb_memory w),
        R8_USB_INT_ST := 0x30, R8_USB_INT_FG := RB_USB_IF_SETUOACT k\<rparr>)"

text \<open>The status stages: an empty OUT packet, and an IN token answered with an empty packet.\<close>

definition usb2_status_out :: "usb_consts \<Rightarrow> ('a usb2_world_scheme) usb_env \<Rightarrow> 'a usb2_world_scheme \<Rightarrow> 'a usb2_world_scheme option" where
  "usb2_status_out k e w =
     (if ep0_status_out_ready k w
      then USBHS_IRQHandler k e (w\<lparr>R8_USB_INT_ST := RB_USB_ST_TOGOK k, R16_USB_RX_LEN := 0, R8_USB_INT_FG := RB_USB_IF_TRANSFER k\<rparr>)
      else None)"

definition usb2_status_in :: "usb_consts \<Rightarrow> ('a usb2_world_scheme) usb_env \<Rightarrow> 'a usb2_world_scheme \<Rightarrow> 'a usb2_world_scheme option" where
  "usb2_status_in k e w =
     (if ep0_in_token k w = Some (True, [])
      then USBHS_IRQHandler k e (w\<lparr>R8_USB_INT_ST := push_bit 4 PID_IN, R8_USB_INT_FG := RB_USB_IF_TRANSFER k\<rparr>)
      else None)"

text \<open>A control transfer with a data stage of \<open>j\<close> IN packets, and one without data.\<close>

definition usb2_control_in :: "usb_consts \<Rightarrow> ('a usb2_world_scheme) usb_env \<Rightarrow> USB_SETUP \<Rightarrow> nat \<Rightarrow> 'a usb2_world_scheme \<Rightarrow>
    ((bool \<times> u8 list) list \<times> 'a usb2_world_scheme) option" where
  "usb2_control_in k e req j w = do {
     w1 \<leftarrow> usb2_setup k e req w;
     (ps, w2) \<leftarrow> ep0_in_packets k j w1;
     w3 \<leftarrow> usb2_status_out k e w2;
     Some (ps, w3) }"

definition usb2_control_out :: "usb_consts \<Rightarrow> ('a usb2_world_scheme) usb_env \<Rightarrow> USB_SETUP \<Rightarrow> 'a usb2_world_scheme \<Rightarrow>
    'a usb2_world_scheme option" where
  "usb2_control_out k e req w = do { w1 \<leftarrow> usb2_setup k e req w; usb2_status_in k e w1 }"

section \<open>What a control transfer leaves alone\<close>

definition enum_keeps :: "'a usb2_world_scheme \<Rightarrow> 'a usb2_world_scheme \<Rightarrow> bool" where
  "enum_keeps w w' \<longleftrightarrow>
     usb2_backend_current_device w' = usb2_backend_current_device w \<and> usb_crit w' = usb_crit w \<and>
     usb2_world.more w' = usb2_world.more w \<and> usb2_endp0_max_packet_size w' = usb2_endp0_max_packet_size w \<and>
     ep0_passthrough_enabled w' = ep0_passthrough_enabled w \<and> R32_UEP_DMA w' UEP0_RT_DMA = R32_UEP_DMA w UEP0_RT_DMA \<and>
     usb_descriptors (dev2 w') = usb_descriptors (dev2 w) \<and> endpoints (dev2 w') = endpoints (dev2 w) \<and>
     endpoint_mask (dev2 w') = endpoint_mask (dev2 w) \<and> dev_speed (dev2 w') = dev_speed (dev2 w) \<and>
     same_outside (rx0_buffer2 w) 64 (usb_memory w) (usb_memory w')"

lemma or_mod_more [simp]:
  "usb2_world.more (or_mod u x w) = usb2_world.more w" "ep0_passthrough_enabled (or_mod u x w) = ep0_passthrough_enabled w"
  by (simp_all add: or_mod_def)

lemma enum_keeps_refl [simp]: "enum_keeps w w"
  by (simp add: enum_keeps_def)

lemma enum_keeps_trans [trans]: "enum_keeps w w1 \<Longrightarrow> enum_keeps w1 w2 \<Longrightarrow> enum_keeps w w2"
  by (auto simp: enum_keeps_def dest: same_outside_trans)

lemma enum_keeps_dev2:
  assumes "enum_keeps w w'"
  shows "usb_descriptors (dev2 w') = usb_descriptors (dev2 w)" "endpoints (dev2 w') = endpoints (dev2 w)"
    "endpoint_mask (dev2 w') = endpoint_mask (dev2 w)" "dev_speed (dev2 w') = dev_speed (dev2 w)"
  using assms by (auto simp: enum_keeps_def)

lemma enum_keeps_writes [simp]:
  "enum_keeps w (wr_ctrl r v w1) = enum_keeps w w1" "enum_keeps w (wr_tlen u n w1) = enum_keeps w w1"
  "enum_keeps w (wr_dma (UEP_TX_DMA u) a w1) = enum_keeps w w1" "enum_keeps w (wr_dma (UEP_RX_DMA u) a w1) = enum_keeps w w1"
  "enum_keeps w (or_mod u x w1) = enum_keeps w w1" "enum_keeps w (write_int_fg e x w1) = enum_keeps w w1"
  "enum_keeps w (w1\<lparr>desc_head := h\<rparr>) = enum_keeps w w1" "enum_keeps w (w1\<lparr>endp0_remaining_bytes := n\<rparr>) = enum_keeps w w1"
  "enum_keeps w (w1\<lparr>endp0_current_transfer_size := n\<rparr>) = enum_keeps w w1" "enum_keeps w (w1\<lparr>usb_setup_req := q\<rparr>) = enum_keeps w w1"
  "enum_keeps w (w1\<lparr>usb_setup_req_data_size := n\<rparr>) = enum_keeps w w1" "enum_keeps w (w1\<lparr>R8_USB_INT_ST := x\<rparr>) = enum_keeps w w1"
  "enum_keeps w (w1\<lparr>R8_USB_INT_FG := x\<rparr>) = enum_keeps w w1" "enum_keeps w (w1\<lparr>R16_USB_RX_LEN := n\<rparr>) = enum_keeps w w1"
  "enum_keeps w (w1\<lparr>R8_USB_DEV_AD := x\<rparr>) = enum_keeps w w1" "enum_keeps w (w1\<lparr>R16_UEP_MAX_LEN := ml\<rparr>) = enum_keeps w w1"
  by (simp_all add: enum_keeps_def write_int_fg_def or_mod_def)

lemma enum_keeps_from [simp]:
  "enum_keeps (w\<lparr>R8_USB_INT_ST := x, R8_USB_INT_FG := y\<rparr>) w1 = enum_keeps w w1"
  by (simp add: enum_keeps_def)

lemma enum_keeps_dev [simp]:
  "enum_keeps w (upd_dev2 (\<lambda>v. v\<lparr>dev_addr := a\<rparr>) w1) = enum_keeps w w1"
  "enum_keeps w (upd_dev2 (\<lambda>v. v\<lparr>dev_state := s\<rparr>) w1) = enum_keeps w w1"
  "enum_keeps w (upd_dev2 (\<lambda>v. v\<lparr>current_config := c\<rparr>) w1) = enum_keeps w w1"
  by (auto simp: enum_keeps_def)

text \<open>Endpoint 0 is set up and can serve control transfers.\<close>

definition ep0_serving :: "'a usb2_world_scheme \<Rightarrow> bool" where
  "ep0_serving w \<longleftrightarrow> rx0_buffer2 w \<noteq> 0 \<and> R32_UEP_DMA w UEP0_RT_DMA = rx0_buffer2 w \<and>
     usb2_endp0_max_packet_size w \<noteq> 0 \<and> usb2_endp0_max_packet_size w \<le> 64 \<and> dev_state (dev2 w) \<noteq> POWERED \<and>
     \<not> ep0_passthrough_enabled w"

lemma serving_kept: "ep0_serving w \<Longrightarrow> enum_keeps w w' \<Longrightarrow> dev_state (dev2 w') \<noteq> POWERED \<Longrightarrow> ep0_serving w'"
  by (auto simp: ep0_serving_def enum_keeps_def)

text \<open>The flags the events raise; those of \<open>usb_status_ok\<close> and that the bus reset has a flag of its own.\<close>

definition usb2_flags_ok :: "usb_consts \<Rightarrow> bool" where
  "usb2_flags_ok k \<longleftrightarrow> usb_requests_ok k \<and> uep_fields_ok k \<and> usb_status_ok k \<and> RB_USB_IF_SETUOACT k \<noteq> 0 \<and>
     RB_USB_IF_BUSRST k \<noteq> 0 \<and> RB_USB_IF_BUSRST k AND RB_USB_IF_SETUOACT k = 0 \<and>
     RB_USB_IF_BUSRST k AND RB_USB_IF_TRANSFER k = 0 \<and> RB_USB_IF_BUSRST k AND RB_USB_IF_SUSPEND k = 0 \<and>
     RB_USB_IF_BUSRST k AND RB_USB_IF_FIFOOV k = 0"

lemma demo_flags_ok: "usb2_flags_ok demo_consts"
  using demo_consts_ok by (simp add: usb2_flags_ok_def) (simp add: demo_consts_def)

section \<open>Setup packets\<close>

text \<open>The state in which the setup stage of a request is handled.\<close>

definition setup_state :: "usb_consts \<Rightarrow> USB_SETUP \<Rightarrow> 'a usb2_world_scheme \<Rightarrow> 'a usb2_world_scheme" where
  "setup_state k req w = w\<lparr>usb_memory := mem_write (rx0_buffer2 w) (setup_bytes req) (usb_memory w),
     R8_USB_INT_ST := 0x30, R8_USB_INT_FG := RB_USB_IF_SETUOACT k, usb_setup_req := req, usb_setup_req_data_size := 0\<rparr>"

lemma usb2_setup_irq:
  assumes "usb2_flags_ok k" and "ep0_serving w" and "usb2_ep0_setup_stage_handler k e (setup_state k req w) = Some w1"
  shows "usb2_setup k e req w = Some (write_int_fg e (R8_USB_INT_FG w1) w1)"
  using assms
  by (simp add: usb2_setup_def USBHS_IRQHandler_def Let_def usb2_irq_setup_def usb2_flags_ok_def ep0_serving_def
      load_setup_bytes setup_state_def)

lemma keeps_setup_state: "enum_keeps w (setup_state k req w)"
  by (simp add: enum_keeps_def setup_state_def same_outside_write setup_bytes_def)

lemma keeps_write_int_fg [simp]:
  "enum_keeps w (write_int_fg e v w') = enum_keeps w w'" "ep0_serving (write_int_fg e v w') = ep0_serving w'"
  by (simp_all add: enum_keeps_def write_int_fg_def ep0_serving_def)

section \<open>The handlers\<close>

lemma next_size_le:
  assumes "ep0_serving w"
  shows "unat (usb2_ep0_next_data_packet_size w) \<le> 64"
proof -
  have "usb2_ep0_next_data_packet_size w \<le> 64"
    using assms unfolding usb2_ep0_next_data_packet_size_def ep0_serving_def by (meson min.cobounded2 order_trans)
  then show ?thesis by (simp add: word_le_nat_alt)
qed

text \<open>The registers of the other endpoints; what an IN request keeps beyond \<open>enum_keeps\<close>.\<close>

definition bank_regs :: "'a usb2_world_scheme \<Rightarrow> uep \<Rightarrow> (u8 \<times> u8 \<times> u32 \<times> u32 \<times> u16 \<times> u16 \<times> u8) option" where
  "bank_regs w u = (if u = UEP0 then None
     else Some (R8_UEP_CTRL w (UEP_TX_CTRL u), R8_UEP_CTRL w (UEP_RX_CTRL u), R32_UEP_DMA w (UEP_TX_DMA u),
       R32_UEP_DMA w (UEP_RX_DMA u), R16_UEP_T_LEN w u, R16_UEP_MAX_LEN w u,
       R8_UEP_MOD w (uep_mod_reg u)))"

lemma bank_regs_same [simp]:
  "bank_regs (wr_ctrl (UEP_TX_CTRL UEP0) v w) = bank_regs w" "bank_regs (wr_ctrl (UEP_RX_CTRL UEP0) v w) = bank_regs w"
  "bank_regs (wr_dma UEP0_RT_DMA a w) = bank_regs w" "bank_regs (wr_tlen UEP0 n w) = bank_regs w"
  "bank_regs (w\<lparr>desc_head := a\<rparr>) = bank_regs w" "bank_regs (w\<lparr>endp0_remaining_bytes := n\<rparr>) = bank_regs w"
  "bank_regs (w\<lparr>endp0_current_transfer_size := n\<rparr>) = bank_regs w" "bank_regs (w\<lparr>usb_memory := m\<rparr>) = bank_regs w"
  "bank_regs (w\<lparr>usb_setup_req := q\<rparr>) = bank_regs w" "bank_regs (w\<lparr>usb_setup_req_data_size := n\<rparr>) = bank_regs w"
  "bank_regs (w\<lparr>R8_USB_INT_ST := x\<rparr>) = bank_regs w" "bank_regs (w\<lparr>R8_USB_INT_FG := x\<rparr>) = bank_regs w"
  "bank_regs (w\<lparr>R16_USB_RX_LEN := n\<rparr>) = bank_regs w" "bank_regs (w\<lparr>R8_USB_DEV_AD := x\<rparr>) = bank_regs w"
  "bank_regs (upd_dev2 f w) = bank_regs w" "bank_regs (write_int_fg e x w) = bank_regs w"
  by (auto simp: bank_regs_def write_int_fg_def)

definition in_keeps :: "'a usb2_world_scheme \<Rightarrow> 'a usb2_world_scheme \<Rightarrow> bool" where
  "in_keeps w w' \<longleftrightarrow> enum_keeps w w' \<and> R8_USB_DEV_AD w' = R8_USB_DEV_AD w \<and> usb_setup_req w' = usb_setup_req w \<and>
     usb_devices w' = usb_devices w \<and> bank_regs w' = bank_regs w"

lemma in_keeps_refl [simp]: "in_keeps w w"
  by (simp add: in_keeps_def)

lemma in_keeps_trans [trans]: "in_keeps w w1 \<Longrightarrow> in_keeps w1 w2 \<Longrightarrow> in_keeps w w2"
  by (auto simp: in_keeps_def intro: enum_keeps_trans)

lemma in_keeps_serving: "in_keeps w w' \<Longrightarrow> ep0_serving w \<Longrightarrow> ep0_serving w'"
  by (rule serving_kept) (auto simp: in_keeps_def enum_keeps_def ep0_serving_def)

lemma in_keeps_writes [simp]:
  "in_keeps w (wr_ctrl (UEP_TX_CTRL UEP0) v w1) = in_keeps w w1" "in_keeps w (wr_ctrl (UEP_RX_CTRL UEP0) v w1) = in_keeps w w1"
  "in_keeps w (wr_tlen UEP0 n w1) = in_keeps w w1"
  "in_keeps w (w1\<lparr>desc_head := h\<rparr>) = in_keeps w w1" "in_keeps w (w1\<lparr>endp0_remaining_bytes := n\<rparr>) = in_keeps w w1"
  "in_keeps w (w1\<lparr>endp0_current_transfer_size := n\<rparr>) = in_keeps w w1"
  by (auto simp: in_keeps_def)

lemma in_keeps_copy:
  "in_keeps w w1 \<Longrightarrow> n \<le> 64 \<Longrightarrow> in_keeps w (w1\<lparr>usb_memory := mem_copy (rx0_buffer2 w) p n (usb_memory w1)\<rparr>)"
  by (auto simp: in_keeps_def enum_keeps_def intro: same_outside_trans same_outside_copy)

lemma start_in_in_keeps:
  assumes "usb2_ep0_start_in head n w = Some (len, w')" and "ep0_serving w"
  shows "in_keeps w w'"
proof -
  have "ep0_serving (w\<lparr>desc_head := head, endp0_remaining_bytes := n\<rparr>)" using assms(2) by (simp add: ep0_serving_def)
  from next_size_le [OF this] show ?thesis
    using assms in_keeps_copy [of w "w\<lparr>desc_head := head, endp0_remaining_bytes := n\<rparr>"]
    by (auto simp: usb2_ep0_start_in_def Let_def bind_eq_Some_conv usb_memcpy_def split: if_splits)
qed

lemma in_handler_in_keeps:
  assumes "usb2_ep0_in_handler k w = Some w'" and "ep0_serving w" and "bRequestType (usb_setup_req w) AND USB_REQ_TYP_IN k \<noteq> 0"
  shows "in_keeps w w'"
proof -
  have le: "unat (usb2_ep0_next_data_packet_size (w\<lparr>endp0_remaining_bytes := r, desc_head := h\<rparr>)) \<le> 64" for r h
    by (rule next_size_le) (use assms(2) in \<open>simp add: ep0_serving_def\<close>)
  show ?thesis
    using assms(1,3) le in_keeps_copy [of w "w\<lparr>endp0_remaining_bytes := r, desc_head := h\<rparr>" for r h]
    by (auto simp: usb2_ep0_in_handler_def Let_def bind_eq_Some_conv usb_memcpy_def split: if_splits)
qed

lemma in_packets_in_keeps:
  assumes "ep0_in_packets k j w = Some (ps, w')" and "ep0_serving w" and "bRequestType (usb_setup_req w) AND USB_REQ_TYP_IN k \<noteq> 0"
  shows "in_keeps w w'"
  using assms
proof (induction j arbitrary: w ps)
  case 0
  then show ?case by simp
next
  case (Suc j)
  from Suc.prems(1) obtain p w1 qs where w1: "usb2_ep0_in_handler k w = Some w1" "ep0_in_packets k j w1 = Some (qs, w')"
    by (auto simp: bind_eq_Some_conv)
  have k1: "in_keeps w w1" by (rule in_handler_in_keeps [OF w1(1) Suc.prems(2,3)])
  also have "in_keeps w1 w'"
    by (rule Suc.IH [OF w1(2) in_keeps_serving [OF k1 Suc.prems(2)]]) (use k1 Suc.prems(3) in \<open>simp add: in_keeps_def\<close>)
  finally show ?case .
qed

lemma get_descriptor_in_keeps:
  assumes "usb2_ep0_setup_stage_handler k e w = Some w'" and "ep0_serving w" and "usb_requests_ok k"
    and "bRequestType (usb_setup_req w) = 0x80" and "bRequest (usb_setup_req w) = USB_GET_DESCRIPTOR k"
  shows "in_keeps w w'"
proof -
  have g: "in_keeps w w1" if "usb2_ep0_get_descriptor k w = Some (len, w1)" for len w1
    using that start_in_in_keeps [OF _ assms(2)]
    by (auto simp: usb2_ep0_get_descriptor_def Let_def split: if_splits)
  have r: "0x80 AND USB_REQ_TYP_MASK k = 0" "0x80 AND USB_REQ_TYP_IN k \<noteq> 0" "USB_REQ_TYP_STANDARD k = 0"
    using assms(3) by (simp_all add: usb_requests_ok_def)
  show ?thesis
    using assms(1,4,5) r
    by (auto simp: usb2_ep0_setup_stage_handler_def usb2_ep0_request_handler_def usb2_ep0_standard_request_def
        Let_def bind_eq_Some_conv split: if_splits dest!: g)
qed

section \<open>Reading a descriptor\<close>

text \<open>The device offers the bytes \<open>bs\<close> at \<open>head\<close> as its descriptor \<open>v\<close>: they announce their own number,
  and neither they nor the pointer to them lie in the buffer of endpoint 0.\<close>

definition has_descr :: "usb_consts \<Rightarrow> u16 \<Rightarrow> u32 \<Rightarrow> u8 list \<Rightarrow> 'a usb2_world_scheme \<Rightarrow> bool" where
  "has_descr k v head bs w \<longleftrightarrow>
     (let ds = usb_descriptors (dev2 w); m = usb_memory w; b = rx0_buffer2 w;
          o1 = unat (off_DEV_bLength k); o2 = unat (off_CFG_wTotalLength k);
          entry = usb_string_descrs ds + 4 * ucast (bb1 v) in
      head \<noteq> 0 \<and> unat head + length bs < 2 ^ 32 \<and> apart head (length bs) b 64 \<and> mem_bytes m head (length bs) = bs \<and>
      (if bb0 v = USB_DESCR_TYP_DEVICE k then
         usb2_device_descr ds = head \<and> length bs < 256 \<and> o1 < length bs \<and> bs ! o1 = of_nat (length bs)
       else if bb0 v = USB_DESCR_TYP_CONFIG k then usb2_device_config_descrs ds \<noteq> 0 \<and>
         apart (usb2_device_config_descrs ds) 4 b 64 \<and> load_u32 m (usb2_device_config_descrs ds) = head \<and>
         length bs < 65536 \<and> o2 + 1 < length bs \<and>
         ucast (bs ! o2) OR push_bit 8 (ucast (bs ! (o2 + 1))) = (of_nat (length bs) :: u16)
       else bb0 v = USB_DESCR_TYP_STRING k \<and> usb_string_descrs ds \<noteq> 0 \<and> apart entry 4 b 64 \<and> load_u32 m entry = head \<and>
         length bs < 256 \<and> bs \<noteq> [] \<and> hd bs = of_nat (length bs)))"

lemma has_descr_kept:
  assumes "has_descr k v head bs w" and "enum_keeps w w'"
  shows "has_descr k v head bs w'"
proof -
  have s: "same_outside (rx0_buffer2 w) 64 (usb_memory w) (usb_memory w')"
    "usb_descriptors (dev2 w') = usb_descriptors (dev2 w)" "rx0_buffer2 w' = rx0_buffer2 w"
    using assms(2) by (auto simp: enum_keeps_def)
  show ?thesis
    using assms(1) same_outside_bytes [OF s(1)] unfolding has_descr_def Let_def s(2,3) load_u32_bytes by (auto split: if_splits)
qed

text \<open>How much of a descriptor the backend sends: strings are sent whole.\<close>

definition usb2_read_length :: "usb_consts \<Rightarrow> u16 \<Rightarrow> u16 \<Rightarrow> u8 list \<Rightarrow> nat" where
  "usb2_read_length k v n bs = (if bb0 v = USB_DESCR_TYP_STRING k then length bs else min (unat n) (length bs))"

lemma has_descr_requested:
  assumes "usb_requests_ok k" and "has_descr k v head bs w" and "usb_setup_req w = get_descriptor_req k v n"
  shows "requested_descriptor k w = Some (head, of_nat (usb2_read_length k v n bs))"
proof -
  have mn: "(of_nat (min (unat n) (length bs)) :: u16) = min n (of_nat (length bs))" if "length bs < 65536"
    using that by (simp add: min_def word_le_nat_alt unat_of_nat)
  have t: "USB_DESCR_TYP_DEVICE k = 1" "USB_DESCR_TYP_CONFIG k = 2" "USB_DESCR_TYP_STRING k = 3"
    using assms(1) by (simp_all add: usb_requests_ok_def)
  have req: "wValue (usb_setup_req w) = v" "wLength (usb_setup_req w) = n" by (simp_all add: assms(3) get_descriptor_req_def)
  note d = assms(2) [unfolded has_descr_def Let_def]
  have at: "usb_memory w (head + off) = bs ! unat off" if "unat off < length bs" for off
    using mem_bytes_at [of "usb_memory w" head bs "unat off"] d that by simp
  consider (device) "bb0 v = 1" | (config) "bb0 v = 2" | (string) "bb0 v = 3" using d t by (auto split: if_splits)
  then show ?thesis
  proof cases
    case device
    then have "ucast (usb_memory w (head + off_DEV_bLength k)) = (of_nat (length bs) :: u16)"
      using d t at [of "off_DEV_bLength k"] by (simp add: word_unat_eq_iff unat_of_nat)
    then show ?thesis using device d t mn by (simp add: requested_descriptor_def Let_def req usb2_read_length_def)
  next
    case config
    have o: "unat (off_CFG_wTotalLength k + 1) = unat (off_CFG_wTotalLength k) + 1"
      using d config t by (subst unat_add_lem [THEN iffD1]) auto
    have "load_u16 (usb_memory w) (head + off_CFG_wTotalLength k) = of_nat (length bs)"
      using d config t at [of "off_CFG_wTotalLength k"] at [of "off_CFG_wTotalLength k + 1"] o
      by (simp add: load_u16_def add.assoc)
    then show ?thesis using config d t mn by (auto simp: requested_descriptor_def Let_def req usb2_read_length_def)
  next
    case string
    have b: "length bs < 256" "bs \<noteq> []" "hd bs = of_nat (length bs)" "usb_string_descrs (usb_descriptors (dev2 w)) \<noteq> 0"
      "load_u32 (usb_memory w) (usb_string_descrs (usb_descriptors (dev2 w)) + 4 * ucast (bb1 v)) = head" "head \<noteq> 0"
      using d string t by simp_all
    have "usb_memory w head = of_nat (length bs)" using at [of 0] b(2,3) by (simp add: hd_conv_nth)
    then have "ucast (usb_memory w head) = (of_nat (length bs) :: u16)" using b(1) by (simp add: word_unat_eq_iff unat_of_nat)
    then show ?thesis using string t b(4-6) by (simp add: requested_descriptor_def Let_def req usb2_read_length_def)
  qed
qed

lemma status_out_done:
  assumes "usb2_flags_ok k" and "ep0_serving w" and "bRequestType (usb_setup_req w) AND USB_REQ_TYP_IN k \<noteq> 0"
    and "ep0_status_out_ready k w"
  shows "\<exists>w'. usb2_status_out k e w = Some w' \<and> in_keeps w w'"
proof -
  let ?w = "w\<lparr>R8_USB_INT_ST := RB_USB_ST_TOGOK k, R16_USB_RX_LEN := 0, R8_USB_INT_FG := RB_USB_IF_TRANSFER k\<rparr>"
  have f: "RB_USB_ST_TOGOK k = 0x40" "RB_USB_ST_NAK k = 0x80" "RB_DEV_ENDP_MASK k = 0xf" "RB_DEV_TOKEN_MASK k = 0x30"
    "RB_USB_IF_TRANSFER k AND RB_USB_IF_SETUOACT k = 0" "RB_USB_IF_TRANSFER k \<noteq> 0"
    using assms(1) by (simp_all add: usb2_flags_ok_def usb_status_ok_def)
  obtain w1 where w1: "usb2_ep0_out_handler k e ?w = Some w1" "in_keeps ?w w1"
    using assms(3,4) by (simp add: usb2_ep0_out_handler_def Let_def usb2_ep0_next_data_packet_size_def ep0_status_out_ready_def)
  have "usb2_status_out k e w = Some (write_int_fg e (RB_USB_IF_TRANSFER k) w1)"
    using assms(2,4) f w1(1)
    by (simp add: usb2_status_out_def USBHS_IRQHandler_def Let_def usb2_irq_transfer_def PID_OUT_def PID_IN_def ep0_serving_def)
  moreover have "in_keeps w (write_int_fg e (RB_USB_IF_TRANSFER k) w1)"
    using w1(2) by (auto simp: in_keeps_def enum_keeps_def write_int_fg_def)
  ultimately show ?thesis by blast
qed

text \<open>A control transfer that reads a descriptor returns the bytes asked for, or all of a string.\<close>

lemma control_in_descriptor:
  assumes k: "usb2_flags_ok k" and w: "ep0_serving w" and d: "has_descr k v head bs w"
    and mps: "mps = unat (usb2_endp0_max_packet_size w)" and j: "j = usb2_read_length k v n bs div mps + 1"
  shows "\<exists>w'. usb2_control_in k e (get_descriptor_req k v n) j w =
      Some (with_toggles True (data_packets mps (take (usb2_read_length k v n bs) bs)), w') \<and>
    enum_keeps w w' \<and> R8_USB_DEV_AD w' = R8_USB_DEV_AD w \<and> usb_devices w' = usb_devices w \<and> bank_regs w' = bank_regs w"
proof -
  have k': "usb_requests_ok k" "uep_fields_ok k" using k by (simp_all add: usb2_flags_ok_def)
  let ?w = "setup_state k (get_descriptor_req k v n) w"
  have s0: "ep0_serving ?w" using w by (simp add: ep0_serving_def setup_state_def)
  note d' = has_descr_kept [OF d keeps_setup_state [of w k "get_descriptor_req k v n"]]
  have rq: "usb_setup_req ?w = get_descriptor_req k v n" by (simp add: setup_state_def)
  define l where "l = (of_nat (usb2_read_length k v n bs) :: u16)"
  note q = has_descr_requested [OF k'(1) d' rq, folded l_def]
  have len: "length bs < 65536" using d by (simp add: has_descr_def Let_def split: if_splits)
  then have ul: "unat l = usb2_read_length k v n bs" by (simp add: l_def usb2_read_length_def unat_of_nat_u16)
  have fields: "usb2_endp0_max_packet_size ?w \<noteq> 0" "usb2_endp0_max_packet_size ?w \<le> 64" "rx0_buffer2 ?w \<noteq> 0"
    "R32_UEP_DMA ?w UEP0_RT_DMA = rx0_buffer2 ?w"
    using s0 by (simp_all add: ep0_serving_def)
  have m64: "unat (usb2_endp0_max_packet_size ?w) \<le> 64" using fields(2) by (simp add: word_le_nat_alt)
  have h: "unat head + length bs < 2 ^ 32" "apart head (length bs) (rx0_buffer2 ?w) 64"
    "mem_bytes (usb_memory ?w) head (length bs) = bs"
    using d' unfolding has_descr_def Let_def by blast+
  have le: "unat l \<le> length bs" using ul by (simp add: usb2_read_length_def)
  have fit: "unat head + unat l < 2 ^ 32" using h(1) le by (rule order_le_less_trans [OF add_left_mono, rotated])
  have apt: "apart head (unat l) (rx0_buffer2 ?w) (unat (usb2_endp0_max_packet_size ?w))"
    using h(2) le m64 unfolding apart_def by (meson le_trans order_less_le_trans)
  have bts: "mem_bytes (usb_memory ?w) head (unat l) = take (usb2_read_length k v n bs) bs"
    using arg_cong [OF h(3), of "take (unat l)"] le ul by (simp add: take_mem_bytes)
  have rt: "bRequestType (usb_setup_req ?w) = 0x80" "bRequest (usb_setup_req ?w) = USB_GET_DESCRIPTOR k"
    unfolding rq by (simp_all add: get_descriptor_req_def)
  from setup_stage_starts [OF k' rt q fields(1,2,3,4) fit apt, of e] obtain w1 where
    w1: "usb2_ep0_setup_stage_handler k e ?w = Some w1" "ep0_sending k (usb_memory ?w) head l True w1"
      "usb2_endp0_max_packet_size w1 = usb2_endp0_max_packet_size ?w" by blast
  have in_req: "bRequestType (usb_setup_req ?w) AND USB_REQ_TYP_IN k \<noteq> 0" using rt(1) k'(1) by (simp add: usb_requests_ok_def)
  let ?w1 = "write_int_fg e (R8_USB_INT_FG w1) w1"
  have setup_ok: "usb2_setup k e (get_descriptor_req k v n) w = Some ?w1" by (rule usb2_setup_irq [OF k w w1(1)])
  have k1: "in_keeps ?w ?w1"
    using get_descriptor_in_keeps [OF w1(1) s0 k'(1) rt] by (simp add: in_keeps_def enum_keeps_def write_int_fg_def)
  have "ep0_sending k (usb_memory ?w) head l True ?w1" using w1(2) by (simp add: ep0_sending_def Let_def write_int_fg_def)
  from ep0_in_all [OF k'(2) this] obtain w2 where w2:
    "ep0_in_packets k (unat l div unat (usb2_endp0_max_packet_size ?w1) + 1) ?w1 =
      Some (with_toggles True (data_packets (unat (usb2_endp0_max_packet_size ?w1)) (take (usb2_read_length k v n bs) bs)), w2)"
    "ep0_status_out_ready k w2" unfolding bts by blast
  have mps1: "usb2_endp0_max_packet_size ?w1 = usb2_endp0_max_packet_size w"
    using w1(3) by (simp add: write_int_fg_def setup_state_def)
  have k2: "in_keeps ?w1 w2"
    by (rule in_packets_in_keeps [OF w2(1) in_keeps_serving [OF k1 s0]]) (use in_req k1 in \<open>simp add: in_keeps_def\<close>)
  have k12: "in_keeps ?w w2" by (rule in_keeps_trans [OF k1 k2])
  have "bRequestType (usb_setup_req w2) AND USB_REQ_TYP_IN k \<noteq> 0" using in_req k12 by (simp add: in_keeps_def)
  from status_out_done [OF k in_keeps_serving [OF k12 s0] this w2(2), of e] obtain w3 where w3:
    "usb2_status_out k e w2 = Some w3" "in_keeps w2 w3" by blast
  have k3: "in_keeps ?w w3" by (rule in_keeps_trans [OF k12 w3(2)])
  have "usb2_control_in k e (get_descriptor_req k v n) j w =
      Some (with_toggles True (data_packets mps (take (usb2_read_length k v n bs) bs)), w3)"
    unfolding usb2_control_in_def setup_ok mps j using w2(1) w3(1) unfolding mps1 ul by (simp del: ep0_in_packets.simps)
  moreover have "enum_keeps w w3"
    using keeps_setup_state k3 unfolding in_keeps_def by (blast intro: enum_keeps_trans)
  moreover have "R8_USB_DEV_AD w3 = R8_USB_DEV_AD w" "usb_devices w3 = usb_devices w" "bank_regs w3 = bank_regs w"
    using k3 by (simp_all add: in_keeps_def setup_state_def)
  ultimately show ?thesis by blast
qed

section \<open>Requests without data\<close>

lemma flagsD:
  assumes "usb2_flags_ok k"
  shows "RB_USB_ST_NAK k = 0x80" "RB_DEV_ENDP_MASK k = 0xf" "RB_DEV_TOKEN_MASK k = 0x30"
    "RB_USB_IF_TRANSFER k AND RB_USB_IF_SETUOACT k = 0" "RB_USB_IF_TRANSFER k \<noteq> 0"
    "USB_REQ_TYP_IN k = 0x80" "USB_REQ_TYP_MASK k = 0x60" "USB_REQ_TYP_STANDARD k = 0" "USB_SET_ADDRESS k = 5"
    "USB_GET_DESCRIPTOR k = 6" "USB_SET_CONFIGURATION k = 9" "UEP_T_RES_ACK k = 0" "RB_UEP_TRES_MASK k = 3"
    "RB_UEP_T_TOG_1 k AND 3 = 0"
  using assms by (simp_all add: usb2_flags_ok_def usb_status_ok_def usb_requests_ok_def uep_fields_ok_def endp_state_defs)

text \<open>What the setup stage of such a request leaves: the status stage is armed.\<close>

definition status_in_armed :: "usb_consts \<Rightarrow> USB_SETUP \<Rightarrow> 'a usb2_world_scheme \<Rightarrow> bool" where
  "status_in_armed k req w \<longleftrightarrow> R8_UEP_CTRL w (UEP_TX_CTRL UEP0) = UEP_T_RES_ACK k OR RB_UEP_T_TOG_1 k \<and>
     R16_UEP_T_LEN w UEP0 = 0 \<and> usb_setup_req w = req"

lemma status_in_armed_int [simp]:
  "status_in_armed k req (write_int_fg e x w) = status_in_armed k req w"
  "status_in_armed k req (w\<lparr>R8_USB_INT_ST := x, R8_USB_INT_FG := y\<rparr>) = status_in_armed k req w"
  by (simp_all add: status_in_armed_def write_int_fg_def)

text \<open>A transfer without data from its two handlers.\<close>

lemma control_out_steps:
  assumes k: "usb2_flags_ok k" and w: "ep0_serving w"
    and h1: "usb2_ep0_setup_stage_handler k e (setup_state k req w) = Some w1" and a: "status_in_armed k req w1" and w1: "ep0_serving w1"
    and req: "bRequestType req = 0"
    and h2: "usb2_ep0_in_handler k (w1\<lparr>R8_USB_INT_ST := push_bit 4 PID_IN, R8_USB_INT_FG := RB_USB_IF_TRANSFER k\<rparr>) = Some w2"
  shows "usb2_control_out k e req w = Some (write_int_fg e (RB_USB_IF_TRANSFER k) w2)"
proof -
  let ?w1 = "write_int_fg e (R8_USB_INT_FG w1) w1"
  have s: "usb2_setup k e req w = Some ?w1" by (rule usb2_setup_irq [OF k w h1])
  have t: "ep0_in_token k ?w1 = Some (True, [])"
    using a flagsD [OF k] by (simp add: ep0_in_token_def Let_def status_in_armed_def write_int_fg_def)
  have "?w1\<lparr>R8_USB_INT_ST := x, R8_USB_INT_FG := y\<rparr> = w1\<lparr>R8_USB_INT_ST := x, R8_USB_INT_FG := y\<rparr>" for x y
    by (simp add: write_int_fg_def)
  with t have "usb2_status_in k e ?w1 = Some (write_int_fg e (RB_USB_IF_TRANSFER k) w2)"
    using flagsD [OF k] w1 h2
    by (simp add: usb2_status_in_def USBHS_IRQHandler_def Let_def usb2_irq_transfer_def PID_IN_def PID_OUT_def ep0_serving_def)
  then show ?thesis using s by (simp add: usb2_control_out_def)
qed

section \<open>The address\<close>

lemma address_setup_stage:
  assumes k: "usb2_flags_ok k" and r: "usb_setup_req w = set_address_req k a"
  shows "\<exists>w1. usb2_ep0_setup_stage_handler k e w = Some w1 \<and> status_in_armed k (set_address_req k a) w1 \<and> enum_keeps w w1 \<and>
    bank_regs w1 = bank_regs w \<and> dev_addr (dev2 w1) = a \<and> dev_state (dev2 w1) = dev_state (dev2 w) \<and>
    current_config (dev2 w1) = current_config (dev2 w)"
proof -
  have q: "bRequestType (usb_setup_req w) = 0" "bRequest (usb_setup_req w) = USB_SET_ADDRESS k" "wLength (usb_setup_req w) = 0"
    "bb1 (wValue (usb_setup_req w)) = a"
    unfolding r by (simp_all add: set_address_req_def)
  have n: "USB_SET_ADDRESS k \<noteq> USB_GET_DESCRIPTOR k" "drop_bit 6 (0 AND USB_REQ_TYP_MASK k) = USB_REQ_TYP_STANDARD k"
    using flagsD [OF k] by simp_all
  show ?thesis using q n r
    by (simp add: usb2_ep0_setup_stage_handler_def usb2_ep0_request_handler_def usb2_ep0_standard_request_def Let_def
        status_in_armed_def)
qed

lemma address_status_stage:
  assumes k: "usb2_flags_ok k" and r: "usb_setup_req w = set_address_req k a" and a: "dev_addr (dev2 w) = a" "a \<le> 127"
  shows "\<exists>w1. usb2_ep0_in_handler k w = Some w1 \<and> enum_keeps w w1 \<and> bank_regs w1 = bank_regs w \<and>
    R8_USB_DEV_AD w1 = a \<and> dev_state (dev2 w1) = ADDRESS \<and> current_config (dev2 w1) = current_config (dev2 w)"
proof -
  have q: "bRequestType (usb_setup_req w) = 0" "bRequest (usb_setup_req w) = USB_SET_ADDRESS k"
    unfolding r by (simp_all add: set_address_req_def)
  show ?thesis using q a
    by (simp add: usb2_ep0_in_handler_def Let_def usb2_set_device_address_def usb2_is_address_valid_def)
qed

lemma control_out_address:
  assumes k: "usb2_flags_ok k" and w: "ep0_serving w" and a: "a \<le> 127"
  shows "\<exists>w'. usb2_control_out k e (set_address_req k a) w = Some w' \<and> enum_keeps w w' \<and> R8_USB_DEV_AD w' = a \<and>
    dev_state (dev2 w') = ADDRESS \<and> current_config (dev2 w') = current_config (dev2 w) \<and> bank_regs w' = bank_regs w"
proof -
  let ?w = "setup_state k (set_address_req k a) w"
  have s: "usb_setup_req ?w = set_address_req k a" "dev2 ?w = dev2 w" "bank_regs ?w = bank_regs w"
    by (simp_all add: setup_state_def)
  from address_setup_stage [OF k s(1)] obtain w1 where w1: "usb2_ep0_setup_stage_handler k e ?w = Some w1"
    "status_in_armed k (set_address_req k a) w1" "enum_keeps ?w w1" "bank_regs w1 = bank_regs ?w" "dev_addr (dev2 w1) = a"
    "dev_state (dev2 w1) = dev_state (dev2 ?w)" "current_config (dev2 w1) = current_config (dev2 ?w)" by blast
  have k1: "enum_keeps w w1" by (rule enum_keeps_trans [OF keeps_setup_state w1(3)])
  have sv: "ep0_serving w1" by (rule serving_kept [OF w k1]) (use w w1(6) s(2) in \<open>simp add: ep0_serving_def\<close>)
  let ?w1 = "w1\<lparr>R8_USB_INT_ST := push_bit 4 PID_IN, R8_USB_INT_FG := RB_USB_IF_TRANSFER k\<rparr>"
  have r: "usb_setup_req ?w1 = set_address_req k a" using w1(2) by (simp add: status_in_armed_def)
  from address_status_stage [OF k r] w1(5) a obtain w2 where w2: "usb2_ep0_in_handler k ?w1 = Some w2" "enum_keeps ?w1 w2"
    "bank_regs w2 = bank_regs ?w1" "R8_USB_DEV_AD w2 = a" "dev_state (dev2 w2) = ADDRESS"
    "current_config (dev2 w2) = current_config (dev2 ?w1)" by auto
  have "usb2_control_out k e (set_address_req k a) w = Some (write_int_fg e (RB_USB_IF_TRANSFER k) w2)"
    by (rule control_out_steps [OF k w w1(1,2) sv _ w2(1)]) (simp add: set_address_req_def)
  moreover have "enum_keeps w w2" by (rule enum_keeps_trans [OF _ w2(2)]) (simp add: k1)
  ultimately show ?thesis using w1(4,7) w2(3-6) s by (simp add: write_int_fg_def)
qed

section \<open>The configuration\<close>

definition usb2_config_ok :: "'a usb2_world_scheme \<Rightarrow> bool" where
  "usb2_config_ok w \<longleftrightarrow> \<not> bank_conflict (endpoint_mask (dev2 w)) \<and>
     (\<forall>n \<in> {1..15}. in_mask (endpoint_mask (dev2 w)) False n \<longrightarrow> ep_max_packet_size (ep_rx (endpoints (dev2 w)) n) \<le> 1024)"

definition usb2_programmed :: "usb_consts \<Rightarrow> 'a usb2_world_scheme \<Rightarrow> bool" where
  "usb2_programmed k w \<longleftrightarrow> (\<forall>tx. \<forall>n \<in> {1..15}. \<forall>u. endp_bank (of_nat n) = Some u \<and> in_mask (endpoint_mask (dev2 w)) tx n \<longrightarrow>
     ep_programmed k (dev2 w) tx u n w)"

lemma config_ok_kept: "usb2_config_ok w \<Longrightarrow> enum_keeps w w' \<Longrightarrow> usb2_config_ok w'"
  unfolding usb2_config_ok_def by (simp only: enum_keeps_dev2 simp_thms) blast

lemma bank_number:
  assumes "n \<in> {1..15}" and "endp_bank (of_nat n) = Some u"
  shows "u \<noteq> UEP0"
proof
  assume "u = UEP0"
  then have "(of_nat n :: u8) = 0" using assms(2) bank_UEP0 by simp
  moreover have "unat (of_nat n :: u8) = n" using assms(1) by (intro unat_of_nat_u8) simp
  ultimately show False using assms(1) by simp
qed

lemma programmed_kept:
  assumes "usb2_programmed k w" and "enum_keeps w w'" and "bank_regs w' = bank_regs w"
  shows "usb2_programmed k w'"
  unfolding usb2_programmed_def
proof (intro allI ballI impI)
  fix tx n u
  assume n: "n \<in> {1..15}" and u: "endp_bank (of_nat n) = Some u \<and> in_mask (endpoint_mask (dev2 w')) tx n"
  note e = enum_keeps_dev2(2,3) [OF assms(2)]
  have "ep_programmed k (dev2 w) tx u n w" using assms(1) n u e(2) by (simp add: usb2_programmed_def)
  moreover have "bank_regs w' u = bank_regs w u" "u \<noteq> UEP0" using assms(3) bank_number [OF n] u by simp_all
  ultimately show "ep_programmed k (dev2 w') tx u n w'" using e(1) by (cases tx) (simp_all add: ep_programmed_def ep_enabled_def ep_regs_def bank_regs_def Let_def)
qed

lemma setup_endpoints_kept:
  assumes "R32_UEP_DMA w UEP0_RT_DMA = rx0_buffer2 w"
  shows "enum_keeps w (usb2_setup_endpoints k w) \<and> usb_devices (usb2_setup_endpoints k w) = usb_devices w \<and>
    R8_USB_DEV_AD (usb2_setup_endpoints k w) = R8_USB_DEV_AD w \<and> usb_setup_req (usb2_setup_endpoints k w) = usb_setup_req w"
proof -
  let ?P = "\<lambda>v. enum_keeps w v \<and> usb_devices v = usb_devices w \<and> R8_USB_DEV_AD v = R8_USB_DEV_AD w \<and> usb_setup_req v = usb_setup_req w"
  have ign: "ignores_bank_regs ?P" by (simp add: ignores_bank_regs_def, simp add: or_mod_def)
  have "enum_keeps w (wr_dma UEP0_RT_DMA (rx0_buffer2 w) w)" using assms by (simp add: enum_keeps_def)
  then have "?P (usb2_setup_endpoints k w)"
    unfolding usb2_setup_endpoints_def Let_def by (intro setup_mask_ignored [OF ign]) simp
  then show ?thesis .
qed

lemma setup_endpoints_programs:
  assumes "usb2_config_ok w"
  shows "usb2_programmed k (usb2_setup_endpoints k w)"
proof -
  have dv: "dev2 (usb2_setup_endpoints k w) = dev2 w"
    by (rule setup_endpoints_ignored [of "\<lambda>v. dev2 v = dev2 w"]) (simp_all add: ignores_regs_def ignores_bank_regs_def or_mod_def)
  let ?w = "wr_ctrl (UEP_RX_CTRL UEP0) (UEP_R_RES_NAK k OR RB_UEP_R_TOG_0 k)
    (wr_ctrl (UEP_TX_CTRL UEP0) (UEP_T_RES_NAK k OR RB_UEP_T_TOG_0 k) (wr_tlen UEP0 0
      ((wr_dma UEP0_RT_DMA (rx0_buffer2 w) w)\<lparr>R16_UEP_MAX_LEN := (R16_UEP_MAX_LEN w)(UEP0 := 64)\<rparr>)))"
  have dw: "dev2 ?w = dev2 w" by simp
  have "usb2_setup_endpoints k w = usb2_setup_endpoints_in_mask k (endpoint_mask (dev2 w)) ?w"
    by (simp add: usb2_setup_endpoints_def Let_def)
  moreover have "ep_programmed k (dev2 ?w) tx u n (usb2_setup_endpoints_in_mask k (endpoint_mask (dev2 w)) ?w)"
    if "n \<in> {1..15}" "endp_bank (of_nat n) = Some u" "in_mask (endpoint_mask (dev2 w)) tx n" for tx n u
    by (rule setup_mask_programs [OF _ _ that]) (use assms in \<open>unfold dw usb2_config_ok_def, blast+\<close>)
  ultimately show ?thesis unfolding usb2_programmed_def dv dw by simp
qed

text \<open>\<open>SET_CONFIGURATION\<close>: the endpoints are programmed, and a configuration other than 0 is entered.\<close>

lemma configuration_setup_stage:
  assumes k: "usb2_flags_ok k" and w: "ep0_serving w" and r: "usb_setup_req w = set_configuration_req k c" and ok: "usb2_config_ok w"
  shows "\<exists>w1. usb2_ep0_setup_stage_handler k e w = Some w1 \<and> status_in_armed k (set_configuration_req k c) w1 \<and> enum_keeps w w1 \<and>
    usb2_programmed k w1 \<and> R8_USB_DEV_AD w1 = R8_USB_DEV_AD w \<and> current_config (dev2 w1) = c \<and>
    dev_state (dev2 w1) = (if c = 0 then dev_state (dev2 w) else CONFIGURED)"
proof -
  let ?w = "upd_dev2 (\<lambda>v. v\<lparr>current_config := c\<rparr>) w"
  define S where "S = usb2_setup_endpoints k ?w"
  have sv: "R32_UEP_DMA ?w UEP0_RT_DMA = rx0_buffer2 ?w" using w by (simp add: ep0_serving_def)
  note s = setup_endpoints_kept [OF sv, of k, folded S_def]
  have ok': "usb2_config_ok ?w" using ok by (simp add: usb2_config_ok_def)
  note p = setup_endpoints_programs [OF ok', of k, folded S_def]
  have q: "bRequestType (usb_setup_req w) = 0" "bRequest (usb_setup_req w) = USB_SET_CONFIGURATION k" "wLength (usb_setup_req w) = 0"
    "bb1 (wValue (usb_setup_req w)) = c"
    unfolding r by (simp_all add: set_configuration_req_def)
  have n: "USB_SET_CONFIGURATION k \<noteq> USB_GET_DESCRIPTOR k" "USB_SET_CONFIGURATION k \<noteq> USB_SET_ADDRESS k"
    "drop_bit 6 (0 AND USB_REQ_TYP_MASK k) = USB_REQ_TYP_STANDARD k"
    using flagsD [OF k] by simp_all
  let ?d = "if c \<noteq> 0 then upd_dev2 (\<lambda>v. v\<lparr>dev_state := CONFIGURED\<rparr>) S else S"
  let ?t = "?d\<lparr>endp0_current_transfer_size := endp0_remaining_bytes ?d\<rparr>"
  let ?w1 = "wr_ctrl (UEP_RX_CTRL UEP0) (R8_UEP_CTRL ?t (UEP_RX_CTRL UEP0))
    (wr_ctrl (UEP_TX_CTRL UEP0) (UEP_T_RES_ACK k OR RB_UEP_T_TOG_1 k) (wr_tlen UEP0 0 ?t))"
  have rq: "usb_setup_req ?t = set_configuration_req k c" using s r by simp
  have h: "usb2_ep0_request_handler k e w = Some (0, ?t)"
    using q n by (cases "c = 0") (simp_all add: usb2_ep0_request_handler_def usb2_ep0_standard_request_def Let_def
        usb2_ep0_set_configuration_callback_def usb2_reset_endpoints_def S_def)
  have "bRequestType (usb_setup_req ?t) = 0" "wLength (usb_setup_req ?t) = 0" unfolding rq by (simp_all add: set_configuration_req_def)
  then have "usb2_ep0_setup_stage_handler k e w = Some ?w1"
    using h by (simp add: usb2_ep0_setup_stage_handler_def Let_def)
  moreover have kp: "enum_keeps S ?w1" by simp
  moreover have "bank_regs ?w1 = bank_regs S" by simp
  moreover have "enum_keeps w S" "usb2_backend_current_device S = usb2_backend_current_device w"
    using s by (auto simp: enum_keeps_def)
  ultimately show ?thesis
    using s programmed_kept [OF p kp] enum_keeps_trans [of w S ?w1] rq by (simp add: status_in_armed_def)
qed

lemma in_handler_other:
  assumes "bRequestType (usb_setup_req w) AND USB_REQ_TYP_IN k = 0" and "bRequest (usb_setup_req w) \<noteq> USB_SET_ADDRESS k"
  shows "\<exists>w1. usb2_ep0_in_handler k w = Some w1 \<and> enum_keeps w w1 \<and> bank_regs w1 = bank_regs w \<and>
    R8_USB_DEV_AD w1 = R8_USB_DEV_AD w \<and> usb_devices w1 = usb_devices w \<and>
    usb2_backend_current_device w1 = usb2_backend_current_device w"
  using assms by (simp add: usb2_ep0_in_handler_def Let_def)

lemma control_out_configuration:
  assumes k: "usb2_flags_ok k" and w: "ep0_serving w" and ok: "usb2_config_ok w"
  shows "\<exists>w'. usb2_control_out k e (set_configuration_req k c) w = Some w' \<and> enum_keeps w w' \<and> R8_USB_DEV_AD w' = R8_USB_DEV_AD w \<and>
    dev_state (dev2 w') = (if c = 0 then dev_state (dev2 w) else CONFIGURED) \<and> current_config (dev2 w') = c \<and> usb2_programmed k w'"
proof -
  let ?w = "setup_state k (set_configuration_req k c) w"
  have s: "usb_setup_req ?w = set_configuration_req k c" "dev2 ?w = dev2 w" "R8_USB_DEV_AD ?w = R8_USB_DEV_AD w"
    by (simp_all add: setup_state_def)
  have sv: "ep0_serving ?w" using w by (simp add: ep0_serving_def setup_state_def)
  from configuration_setup_stage [OF k sv s(1) config_ok_kept [OF ok keeps_setup_state]] obtain w1 where
    w1: "usb2_ep0_setup_stage_handler k e ?w = Some w1" "status_in_armed k (set_configuration_req k c) w1" "enum_keeps ?w w1"
      "usb2_programmed k w1" "R8_USB_DEV_AD w1 = R8_USB_DEV_AD ?w" "current_config (dev2 w1) = c"
      "dev_state (dev2 w1) = (if c = 0 then dev_state (dev2 ?w) else CONFIGURED)" by blast
  have k1: "enum_keeps w w1" by (rule enum_keeps_trans [OF keeps_setup_state w1(3)])
  have sv1: "ep0_serving w1"
    by (rule serving_kept [OF w k1]) (use w in \<open>simp add: w1(7) [unfolded s(2)] ep0_serving_def\<close>)
  let ?w1 = "w1\<lparr>R8_USB_INT_ST := push_bit 4 PID_IN, R8_USB_INT_FG := RB_USB_IF_TRANSFER k\<rparr>"
  have r: "usb_setup_req ?w1 = set_configuration_req k c" using w1(2) by (simp add: status_in_armed_def)
  have "bRequestType (usb_setup_req ?w1) AND USB_REQ_TYP_IN k = 0" "bRequest (usb_setup_req ?w1) \<noteq> USB_SET_ADDRESS k"
    unfolding r using flagsD [OF k] by (simp_all add: set_configuration_req_def)
  from in_handler_other [OF this] obtain w2 where w2: "usb2_ep0_in_handler k ?w1 = Some w2" "enum_keeps ?w1 w2"
    "bank_regs w2 = bank_regs ?w1" "R8_USB_DEV_AD w2 = R8_USB_DEV_AD ?w1" "usb_devices w2 = usb_devices ?w1"
    "usb2_backend_current_device w2 = usb2_backend_current_device ?w1" by blast
  have "usb2_control_out k e (set_configuration_req k c) w = Some (write_int_fg e (RB_USB_IF_TRANSFER k) w2)"
    by (rule control_out_steps [OF k w w1(1,2) sv1 _ w2(1)]) (simp add: set_configuration_req_def)
  moreover have "enum_keeps w1 w2" using w2(2) by simp
  moreover have "usb2_programmed k (write_int_fg e (RB_USB_IF_TRANSFER k) w2)"
    by (rule programmed_kept [OF w1(4)]) (use w2(3) \<open>enum_keeps w1 w2\<close> in simp_all)
  ultimately show ?thesis
    using w1(5-7) w2(4-6) s enum_keeps_trans [OF k1] by (simp add: write_int_fg_def [of _ _ w2]) (metis enum_keeps_writes(6) write_int_fg_def)
qed

section \<open>Scripts of requests\<close>

definition usb2_request :: "usb_consts \<Rightarrow> ('a usb2_world_scheme) usb_env \<Rightarrow> enum_request \<Rightarrow> 'a usb2_world_scheme \<Rightarrow>
    ((bool \<times> u8 list) list \<times> 'a usb2_world_scheme) option" where
  "usb2_request k e r w = (case r of
     Read_descriptor v n j \<Rightarrow> usb2_control_in k e (get_descriptor_req k v n) j w
   | Set_address a \<Rightarrow> map_option (Pair []) (usb2_control_out k e (set_address_req k a) w)
   | Set_configuration c \<Rightarrow> map_option (Pair []) (usb2_control_out k e (set_configuration_req k c) w))"

definition usb2_requests :: "usb_consts \<Rightarrow> ('a usb2_world_scheme) usb_env \<Rightarrow> enum_request list \<Rightarrow> 'a usb2_world_scheme \<Rightarrow>
    ((bool \<times> u8 list) list list \<times> 'a usb2_world_scheme) option" where
  "usb2_requests k e = run_requests (usb2_request k e)"

text \<open>Packets of a control transfer: the first has toggle 1.\<close>

definition usb2_send :: "nat \<Rightarrow> u8 list \<Rightarrow> (bool \<times> u8 list) list" where
  "usb2_send mps bs = with_toggles True (data_packets mps bs)"

definition usb_abs :: "'a usb2_world_scheme \<Rightarrow> usb_abstract" where
  "usb_abs w = \<lparr>abs_address = R8_USB_DEV_AD w, abs_state = dev_state (dev2 w), abs_config = current_config (dev2 w)\<rparr>"

text \<open>A request the backend answers as \<open>abs_request\<close> does: descriptors of the table, read up to the packet that
  ends them, strings with a \<open>wLength\<close> of at least their length, and addresses of the bus.\<close>

fun request_ok :: "usb_consts \<Rightarrow> nat \<Rightarrow> (u16 \<Rightarrow> u8 list) \<Rightarrow> enum_request \<Rightarrow> bool" where
  "request_ok k mps D (Read_descriptor v n j) \<longleftrightarrow> descr_selected k {USB_DESCR_TYP_DEVICE k, USB_DESCR_TYP_CONFIG k} D v \<and>
     (bb0 v = USB_DESCR_TYP_STRING k \<longrightarrow> length (D v) \<le> unat n) \<and> j = min (unat n) (length (D v)) div mps + 1"
| "request_ok k mps D (Set_address a) \<longleftrightarrow> a \<le> 127"
| "request_ok k mps D (Set_configuration c) \<longleftrightarrow> True"

definition usb2_offers :: "usb_consts \<Rightarrow> (u16 \<Rightarrow> u8 list) \<Rightarrow> 'a usb2_world_scheme \<Rightarrow> bool" where
  "usb2_offers k D w \<longleftrightarrow> (\<forall>v. descr_selected k {USB_DESCR_TYP_DEVICE k, USB_DESCR_TYP_CONFIG k} D v \<longrightarrow>
     (\<exists>head. has_descr k v head (D v) w))"

lemma offers_kept: "usb2_offers k D w \<Longrightarrow> enum_keeps w w' \<Longrightarrow> usb2_offers k D w'"
  unfolding usb2_offers_def by (meson has_descr_kept)

lemma request_refines:
  assumes k: "usb2_flags_ok k" and w: "ep0_serving w" "usb2_offers k D w" "usb2_config_ok w"
    and mps: "mps = unat (usb2_endp0_max_packet_size w)" and r: "request_ok k mps D r"
  shows "\<exists>ps w'. usb2_request k e r w = Some (ps, w') \<and> (ps, usb_abs w') = abs_request (usb2_send mps) D r (usb_abs w) \<and>
    enum_keeps w w' \<and> ep0_serving w' \<and>
    (usb2_programmed k w \<or> (\<exists>c. r = Set_configuration c) \<longrightarrow> usb2_programmed k w')"
proof (cases r)
  case (Read_descriptor t n j)
  then obtain head where h: "has_descr k t head (D t) w" using w(2) r by (auto simp: usb2_offers_def)
  have l: "usb2_read_length k t n (D t) = min (unat n) (length (D t))" using r Read_descriptor by (auto simp: usb2_read_length_def)
  then have "take (usb2_read_length k t n (D t)) (D t) = take (unat n) (D t)" by (simp add: min_def)
  with control_in_descriptor [OF k w(1) h mps, of j n e] r l Read_descriptor obtain w' where w':
    "usb2_control_in k e (get_descriptor_req k t n) j w = Some (with_toggles True (data_packets mps (take (unat n) (D t))), w')"
    "enum_keeps w w'" "R8_USB_DEV_AD w' = R8_USB_DEV_AD w" "usb_devices w' = usb_devices w" "bank_regs w' = bank_regs w" by auto
  have "usb2_backend_current_device w' = usb2_backend_current_device w" using w'(2) by (simp add: enum_keeps_def)
  then have "usb_abs w' = usb_abs w" "ep0_serving w'"
    using w' w(1) serving_kept [OF w(1) w'(2)] by (simp_all add: usb_abs_def ep0_serving_def)
  then show ?thesis using w' Read_descriptor programmed_kept [OF _ w'(2,5)] by (auto simp: usb2_request_def usb2_send_def)
next
  case (Set_address a)
  from control_out_address [OF k w(1), of a e] r Set_address obtain w' where w':
    "usb2_control_out k e (set_address_req k a) w = Some w'" "enum_keeps w w'" "R8_USB_DEV_AD w' = a" "dev_state (dev2 w') = ADDRESS"
    "current_config (dev2 w') = current_config (dev2 w)" "bank_regs w' = bank_regs w" by auto
  have "ep0_serving w'" by (rule serving_kept [OF w(1) w'(2)]) (simp add: w'(4))
  then show ?thesis using w' Set_address programmed_kept [OF _ w'(2,6)] by (auto simp: usb2_request_def usb_abs_def)
next
  case (Set_configuration c)
  from control_out_configuration [OF k w(1,3), of e c] obtain w' where w':
    "usb2_control_out k e (set_configuration_req k c) w = Some w'" "enum_keeps w w'" "R8_USB_DEV_AD w' = R8_USB_DEV_AD w"
    "dev_state (dev2 w') = (if c = 0 then dev_state (dev2 w) else CONFIGURED)" "current_config (dev2 w') = c" "usb2_programmed k w'" by blast
  have "ep0_serving w'" by (rule serving_kept [OF w(1) w'(2)]) (use w(1) in \<open>simp add: w'(4) ep0_serving_def\<close>)
  then show ?thesis using w' Set_configuration by (simp add: usb2_request_def usb_abs_def)
qed

text \<open>The backend, started as \<open>w0\<close>, takes requests.\<close>

definition usb2_enumerating :: "usb_consts \<Rightarrow> (u16 \<Rightarrow> u8 list) \<Rightarrow> nat \<Rightarrow> 'a usb2_world_scheme \<Rightarrow> 'a usb2_world_scheme \<Rightarrow> bool" where
  "usb2_enumerating k D mps w0 w \<longleftrightarrow> usb2_flags_ok k \<and> enum_keeps w0 w \<and> ep0_serving w \<and> usb2_offers k D w \<and> usb2_config_ok w \<and>
     usb2_programmed k w \<and> mps = unat (usb2_endp0_max_packet_size w)"

lemma enumerating_next:
  assumes "usb2_enumerating k D mps w0 w" and "enum_keeps w w'" and "ep0_serving w'" and "usb2_programmed k w'"
  shows "usb2_enumerating k D mps w0 w'"
proof -
  from assms(1) have w: "enum_keeps w0 w" "usb2_offers k D w" "usb2_config_ok w" by (simp_all add: usb2_enumerating_def)
  have "usb2_endp0_max_packet_size w' = usb2_endp0_max_packet_size w" using assms(2) by (simp add: enum_keeps_def)
  then show ?thesis
    using assms enum_keeps_trans [OF w(1) assms(2)] offers_kept [OF w(2) assms(2)] config_ok_kept [OF w(3) assms(2)]
    by (simp add: usb2_enumerating_def)
qed

interpretation usb2_enum: enumerable_device "usb2_request k e" "usb2_send mps" D usb_abs "usb2_enumerating k D mps" "request_ok k mps D"
  for k e mps D
proof
  fix w0 w :: "'a usb2_world_scheme" and r
  assume w: "usb2_enumerating k D mps w0 w" and r: "request_ok k mps D r"
  then have u: "usb2_flags_ok k" "ep0_serving w" "usb2_offers k D w" "usb2_config_ok w" "mps = unat (usb2_endp0_max_packet_size w)"
    "usb2_programmed k w" by (simp_all add: usb2_enumerating_def)
  from request_refines [OF u(1-5) r, of e] u(6) enumerating_next [OF w]
  show "\<exists>ps w'. usb2_request k e r w = Some (ps, w') \<and> (ps, usb_abs w') = abs_request (usb2_send mps) D r (usb_abs w) \<and>
    usb2_enumerating k D mps w0 w'" by blast
qed

text \<open>The bus reset.\<close>

lemma setup_endpoints_dma: "usb2_setup_endpoints k (wr_dma UEP0_RT_DMA (rx0_buffer2 w) w) = usb2_setup_endpoints k w"
  by (simp add: usb2_setup_endpoints_def Let_def) (simp add: wr_dma_def)

lemma bus_reset_done:
  assumes k: "usb2_flags_ok k" and h: "usb2_device_handle_bus_reset w = Default_handler"
    and b: "rx0_buffer2 w \<noteq> 0" and m: "usb2_endp0_max_packet_size w \<noteq> 0" "usb2_endp0_max_packet_size w \<le> 64"
    and p: "\<not> ep0_passthrough_enabled w" and ok: "usb2_config_ok w"
  shows "\<exists>w'. usb2_bus_reset k e w = Some w' \<and> enum_keeps (wr_dma UEP0_RT_DMA (rx0_buffer2 w) w) w' \<and> ep0_serving w' \<and>
    usb2_programmed k w' \<and> usb_abs w' = \<lparr>abs_address = 0, abs_state = DEFAULT, abs_config = current_config (dev2 w)\<rparr>"
proof -
  let ?i = "w\<lparr>R8_USB_INT_ST := 0, R8_USB_INT_FG := RB_USB_IF_BUSRST k\<rparr>"
  let ?a = "upd_dev2 (\<lambda>v. v\<lparr>dev_addr := 0\<rparr>) (?i\<lparr>R8_USB_DEV_AD := 0\<rparr>)"
  let ?d = "wr_dma UEP0_RT_DMA (rx0_buffer2 ?a) ?a"
  define S where "S = usb2_setup_endpoints k ?d"
  have fl: "RB_USB_IF_BUSRST k \<noteq> 0" "RB_USB_IF_BUSRST k AND RB_USB_IF_SETUOACT k = 0"
     "RB_USB_IF_BUSRST k AND RB_USB_IF_TRANSFER k = 0" "RB_USB_IF_BUSRST k AND RB_USB_IF_SUSPEND k = 0"
     "RB_USB_IF_BUSRST k AND RB_USB_IF_FIFOOV k = 0"
    using k by (simp_all add: usb2_flags_ok_def)
  let ?w' = "write_int_fg e (RB_USB_IF_BUSRST k) (upd_dev2 (\<lambda>v. v\<lparr>dev_state := DEFAULT\<rparr>) S)"
  have r: "usb2_bus_reset k e w = Some ?w'"
    unfolding S_def setup_endpoints_dma using fl h
    by (simp add: usb2_bus_reset_def USBHS_IRQHandler_def Let_def usb2_irq_bus_reset_def usb2_set_device_address_def
        usb2_is_address_valid_def)
  have dma: "R32_UEP_DMA ?d UEP0_RT_DMA = rx0_buffer2 ?d" by simp
  note s = setup_endpoints_kept [OF dma, of k, folded S_def]
  have kp: "enum_keeps (wr_dma UEP0_RT_DMA (rx0_buffer2 w) w) ?d" by (auto simp: enum_keeps_def)
  have kS: "enum_keeps (wr_dma UEP0_RT_DMA (rx0_buffer2 w) w) S" using enum_keeps_trans [OF kp] s by blast
  have cd: "usb2_backend_current_device S = usb2_backend_current_device w" using kS by (simp add: enum_keeps_def)
  have "usb2_config_ok ?d" using ok by (simp add: usb2_config_ok_def)
  note pr = setup_endpoints_programs [OF this, of k, folded S_def]
  have kw: "enum_keeps (wr_dma UEP0_RT_DMA (rx0_buffer2 w) w) ?w'" using kS by simp
  have "usb2_programmed k ?w'" by (rule programmed_kept [OF pr]) simp_all
  moreover have "ep0_serving (upd_dev2 (\<lambda>v. v\<lparr>dev_state := DEFAULT\<rparr>) S)"
    using kS b m p s cd by (simp add: ep0_serving_def enum_keeps_def)
  then have "ep0_serving ?w'" by simp
  moreover have "usb_abs ?w' = \<lparr>abs_address = 0, abs_state = DEFAULT, abs_config = current_config (dev2 w)\<rparr>"
    using s cd by (simp add: usb_abs_def write_int_fg_def)
  ultimately show ?thesis using r kw by blast
qed

lemma bus_reset_enumerating:
  assumes k: "usb2_flags_ok k" and h: "usb2_device_handle_bus_reset w = Default_handler"
    and b: "rx0_buffer2 w \<noteq> 0" and m: "usb2_endp0_max_packet_size w \<noteq> 0" "usb2_endp0_max_packet_size w \<le> 64"
    and p: "\<not> ep0_passthrough_enabled w" and ok: "usb2_config_ok w" and o: "usb2_offers k D w"
  shows "\<exists>w'. usb2_bus_reset k e w = Some w' \<and>
    usb2_enumerating k D (unat (usb2_endp0_max_packet_size w)) (wr_dma UEP0_RT_DMA (rx0_buffer2 w) w) w' \<and>
    usb_abs w' = \<lparr>abs_address = 0, abs_state = DEFAULT, abs_config = current_config (dev2 w)\<rparr>"
proof -
  let ?d = "wr_dma UEP0_RT_DMA (rx0_buffer2 w) w"
  have off: "usb2_offers k D ?d" using o by (simp add: usb2_offers_def has_descr_def Let_def)
  have cfg: "usb2_config_ok ?d" using ok by (simp add: usb2_config_ok_def)
  from bus_reset_done [OF k h b m p ok, of e] obtain w1 where w1: "usb2_bus_reset k e w = Some w1"
    "enum_keeps ?d w1" "ep0_serving w1" "usb2_programmed k w1"
    "usb_abs w1 = \<lparr>abs_address = 0, abs_state = DEFAULT, abs_config = current_config (dev2 w)\<rparr>" by blast
  have "usb2_endp0_max_packet_size w1 = usb2_endp0_max_packet_size w" using w1(2) by (simp add: enum_keeps_def)
  then show ?thesis
    using k w1 offers_kept [OF off w1(2)] config_ok_kept [OF cfg w1(2)] by (auto simp: usb2_enumerating_def)
qed

text \<open>
  C1. Enumeration over USB 2.0 refines the device of the USB specification: after a bus reset, on every script of
  \<open>GET_DESCRIPTOR\<close> (device, configuration, and every string in its table, strings with a \<open>wLength\<close> of at least their
  length), \<open>SET_ADDRESS\<close> and \<open>SET_CONFIGURATION\<close> transfers that \<open>usb_spec\<close> defines, starting from the default state with
  no configuration, and that avoids address 0 and the return to configuration 0 (\<open>conforming\<close>), the interrupts of the
  backend answer as the specification says: every descriptor read returns exactly the requested prefix, the controller's
  address, the device's state and its configuration (where it has one) are those of the specification, and at the end each
  endpoint of the mask has its own settings in its registers.
\<close>

theorem usb2_enumeration_refines:
  assumes "usb2_flags_ok k" and "usb2_device_handle_bus_reset w = Default_handler" and "rx0_buffer2 w \<noteq> 0"
    and "usb2_endp0_max_packet_size w = m" and "m \<noteq> 0" and "m \<le> 64" and "\<not> ep0_passthrough_enabled w"
    and "usb2_config_ok w" and "usb2_offers k D w"
    and "run_requests (spec_step (request_ok k (unat m) D) (usb2_send (unat m)) D valid) rs usb_default = Some (pss, s)"
  shows "\<exists>w1 w2. usb2_bus_reset k e w = Some w1 \<and> usb2_requests k e rs w1 = Some (pss, w2) \<and>
    usb_view (usb_abs w2) = s \<and> usb2_programmed k w2"
proof -
  have "usb2_endp0_max_packet_size w \<noteq> 0" "usb2_endp0_max_packet_size w \<le> 64" using assms(4-6) by simp_all
  from bus_reset_enumerating [OF assms(1-3) this assms(7-9), of e] assms(4) obtain w0 w1 where w1: "usb2_bus_reset k e w = Some w1"
    "usb2_enumerating k D (unat m) w0 w1"
    "usb_abs w1 = \<lparr>abs_address = 0, abs_state = DEFAULT, abs_config = current_config (dev2 w)\<rparr>" by auto
  have "usb_view (usb_abs w1) = usb_default" by (simp add: w1(3) usb_view_def usb_default_def)
  from usb2_enum.requests_conform [OF w1(2), unfolded this, OF assms(10), of e] obtain w2 where
    "usb2_requests k e rs w1 = Some (pss, w2)" "usb_view (usb_abs w2) = s"
    "usb2_enumerating k D (unat m) w0 w2" by (auto simp: usb2_requests_def)
  then show ?thesis using w1(1) by (auto simp: usb2_enumerating_def)
qed

text \<open>A device with packets of 8 bytes, a receiving endpoint, a configuration of its bare header, and a list of languages
  as its one string.\<close>

definition demo_descr :: "u16 \<Rightarrow> u8 list" where
  "demo_descr v = (if v = 0x100 then [18, 1, 0, 2, 0, 0, 0, 8, 0xc0, 0x16, 0xd9, 0x27, 1, 0, 0, 1, 0, 1]
     else if v = 0x200 \<or> v = 0xf00 then [9, 2, 9, 0, 0, 1, 0, 0xa0, 0x32] else if v = 0x300 then [4, 3, 9, 4] else [])"

lemma demo_descr_simps: "length (demo_descr 0x100) = 18" "length (demo_descr 0x200) = 9" "length (demo_descr 0x300) = 4"
  "demo_descr 0x100 ! 0 = 18" "demo_descr 0x200 ! 2 = 9" "demo_descr 0x200 ! 3 = 0" "hd (demo_descr 0x300) = 4" "demo_descr 0x300 \<noteq> []"
  by (simp_all add: demo_descr_def)

lemma demo_selected:
  assumes "descr_selected demo_consts {1, 2} demo_descr v"
  shows "v \<in> {0x100, 0x200, 0x300}"
proof -
  have "v = push_bit 8 (ucast (bb0 v)) OR ucast (bb1 v)" by (rule bb_join)
  moreover have "bb0 0xf00 = 15" "demo_descr v \<noteq> [] \<Longrightarrow> v \<in> {0x100, 0x200, 0x300, 0xf00}"
    by (simp add: bb0_def) (auto simp: demo_descr_def split: if_splits)
  ultimately show ?thesis using assms by (auto simp: descr_selected_def demo_consts_def)
qed

definition demo_enum :: usb2_world where
  "demo_enum = upd_dev2 (\<lambda>v. v\<lparr>endpoint_mask := ENDPOINT_RX 1,
       usb_descriptors := (usb_descriptors v)\<lparr>usb2_device_config_descrs := 0x3000, usb_string_descrs := 0x5000\<rparr>\<rparr>)
     (demo_usb2\<lparr>usb_memory := mem_write 0x3000 (le32 0x2000) (mem_write 0x2000 (demo_descr 0x200) (mem_write 0x1000 (demo_descr 0x100)
       (mem_write 0x5000 (le32 0x6000) (mem_write 0x6000 (demo_descr 0x300) (\<lambda>_. 0)))))\<rparr>)"

definition demo_script :: "enum_request list" where
  "demo_script = [Read_descriptor 0x100 64 3, Set_address 5, Read_descriptor 0x200 9 2, Read_descriptor 0x300 255 1, Set_configuration 1]"

lemma demo_enum_offers: "usb2_offers demo_consts demo_descr demo_enum"
proof -
  have ap: "apart 0x1000 18 (0x20020000 :: u32) 64" "apart 0x2000 9 (0x20020000 :: u32) 64" "apart 0x3000 4 (0x20020000 :: u32) 64"
    "apart 0x5000 4 (0x20020000 :: u32) 64" "apart 0x6000 4 (0x20020000 :: u32) 64"
    by (rule apart_after [where d = "0x2001F000"], simp_all) (rule apart_after [where d = "0x2001E000"], simp_all,
        rule apart_after [where d = "0x2001D000"], simp_all, rule apart_after [where d = "0x2001B000"], simp_all,
        rule apart_after [where d = "0x2001A000"], simp_all)
  have m: "mem_bytes (usb_memory demo_enum) 0x1000 18 = demo_descr 0x100" "mem_bytes (usb_memory demo_enum) 0x2000 9 = demo_descr 0x200"
    "mem_bytes (usb_memory demo_enum) 0x6000 4 = demo_descr 0x300"
    by (simp_all add: demo_enum_def demo_usb2_def mem_bytes_def mem_write_def upt_conv_Cons demo_descr_def le32_def)
  have "mem_bytes (usb_memory demo_enum) 0x3000 4 = le32 0x2000" "mem_bytes (usb_memory demo_enum) 0x5000 4 = le32 0x6000"
    by (simp_all add: demo_enum_def demo_usb2_def mem_bytes_def mem_write_def upt_conv_Cons demo_descr_def le32_def)
  then have p: "load_u32 (usb_memory demo_enum) 0x3000 = 0x2000" "load_u32 (usb_memory demo_enum) 0x5000 = 0x6000"
    by (simp_all add: load_u32_bytes of_le32_le32)
  have d: "usb_descriptors (dev2 demo_enum) = (usb_descriptors usb_device_initial)\<lparr>usb2_device_descr := 0x1000,
      usb2_device_config_descrs := 0x3000, usb_string_descrs := 0x5000\<rparr>"
    "rx0_buffer2 demo_enum = 0x20020000"
    by (simp_all add: demo_enum_def demo_usb2_def)
  have b: "bb0 0x100 = 1" "bb0 0x200 = 2" "bb0 0x300 = 3" "bb1 0x300 = 0" by (simp_all add: bb0_def bb1_def)
  have "has_descr demo_consts 0x100 0x1000 (demo_descr 0x100) demo_enum"
    unfolding has_descr_def Let_def d using m ap by (simp add: demo_consts_def demo_descr_simps b)
  moreover have "has_descr demo_consts 0x200 0x2000 (demo_descr 0x200) demo_enum"
    unfolding has_descr_def Let_def d using m ap p by (simp add: demo_consts_def demo_descr_simps b)
  moreover have "has_descr demo_consts 0x300 0x6000 (demo_descr 0x300) demo_enum"
    unfolding has_descr_def Let_def d using m ap p by (simp add: demo_consts_def demo_descr_simps b)
  moreover have "USB_DESCR_TYP_DEVICE demo_consts = 1" "USB_DESCR_TYP_CONFIG demo_consts = 2" by (simp_all add: demo_consts_def)
  ultimately show ?thesis using demo_selected unfolding usb2_offers_def by auto
qed

lemma demo_enum_ok:
  "usb2_device_handle_bus_reset demo_enum = Default_handler" "rx0_buffer2 demo_enum \<noteq> 0" "usb2_endp0_max_packet_size demo_enum = 8"
  "\<not> ep0_passthrough_enabled demo_enum" "usb2_config_ok demo_enum"
proof -
  show "usb2_device_handle_bus_reset demo_enum = Default_handler" "rx0_buffer2 demo_enum \<noteq> 0" "usb2_endp0_max_packet_size demo_enum = 8"
    "\<not> ep0_passthrough_enabled demo_enum"
    by (simp_all add: demo_enum_def demo_usb2_def upd_dev2_def upd_device_def)
  have "\<not> bank_conflict (ENDPOINT_RX 1)"
    unfolding table_exact [symmetric] by (simp add: usb2_incompatibles_endpoints_def ENDPOINT_TX_def ENDPOINT_RX_def)
  then show "usb2_config_ok demo_enum"
    by (simp add: usb2_config_ok_def demo_enum_def) (simp add: demo_usb2_def usb_device_initial_def usb_endpoint_zero_def)
qed

theorem usb2_enumeration_refines_witness:
  "\<forall>e. \<exists>w1 w2. usb2_bus_reset demo_consts e demo_enum = Some w1 \<and>
    usb2_requests demo_consts e demo_script w1 = Some
      ([[(True, [18, 1, 0, 2, 0, 0, 0, 8]), (False, [0xc0, 0x16, 0xd9, 0x27, 1, 0, 0, 1]), (True, [0, 1])], [],
        [(True, [9, 2, 9, 0, 0, 1, 0, 0xa0]), (False, [0x32])], [(True, [4, 3, 9, 4])], []], w2) \<and>
    usb_view (usb_abs w2) = \<lparr>abs_address = 5, abs_state = CONFIGURED, abs_config = 1\<rparr> \<and> usb2_programmed demo_consts w2"
proof
  fix e
  have c: "USB_DESCR_TYP_DEVICE demo_consts = 1" "USB_DESCR_TYP_CONFIG demo_consts = 2" "USB_DESCR_TYP_STRING demo_consts = 3"
    by (simp_all add: demo_consts_def)
  have b: "bb0 0x100 = 1" "bb0 0x200 = 2" "bb0 0x300 = 3" "bb1 0x100 = 0" "bb1 0x200 = 0" "bb1 0x300 = 0"
    by (simp_all add: bb0_def bb1_def)
  have dp: "data_packets 8 (demo_descr 0x100) = [[18, 1, 0, 2, 0, 0, 0, 8], [0xc0, 0x16, 0xd9, 0x27, 1, 0, 0, 1], [0, 1]]"
    "data_packets 8 (demo_descr 0x200) = [[9, 2, 9, 0, 0, 1, 0, 0xa0], [0x32]]" "data_packets 8 (demo_descr 0x300) = [[4, 3, 9, 4]]"
    by (simp_all add: demo_descr_def data_packets_short data_packets_more)
  have "run_requests (spec_step (request_ok demo_consts (unat (8 :: u16)) demo_descr) (usb2_send (unat (8 :: u16))) demo_descr {1}) demo_script usb_default =
      Some ([[(True, [18, 1, 0, 2, 0, 0, 0, 8]), (False, [0xc0, 0x16, 0xd9, 0x27, 1, 0, 0, 1]), (True, [0, 1])], [],
        [(True, [9, 2, 9, 0, 0, 1, 0, 0xa0]), (False, [0x32])], [(True, [4, 3, 9, 4])], []],
        \<lparr>abs_address = 5, abs_state = CONFIGURED, abs_config = 1\<rparr>)"
    by (simp add: demo_script_def spec_step_def conforming_def descr_selected_def usb_default_def usb2_send_def dp demo_descr_simps c b)
  from usb2_enumeration_refines [OF demo_flags_ok demo_enum_ok(1-3) _ _ demo_enum_ok(4,5) demo_enum_offers this, of e]
  show "\<exists>w1 w2. usb2_bus_reset demo_consts e demo_enum = Some w1 \<and>
    usb2_requests demo_consts e demo_script w1 = Some
      ([[(True, [18, 1, 0, 2, 0, 0, 0, 8]), (False, [0xc0, 0x16, 0xd9, 0x27, 1, 0, 0, 1]), (True, [0, 1])], [],
        [(True, [9, 2, 9, 0, 0, 1, 0, 0xa0]), (False, [0x32])], [(True, [4, 3, 9, 4])], []], w2) \<and>
    usb_view (usb_abs w2) = \<lparr>abs_address = 5, abs_state = CONFIGURED, abs_config = 1\<rparr> \<and> usb2_programmed demo_consts w2"
    by simp
qed

end
