(* ===== verification/Logging.thy ===== *)
theory Logging
  imports Critical_Section Serdes "HOL-Library.Monad_Syntax"
begin

text \<open>
  The logging functions (\<open>logging/\<close>): a time stamp in front of a formatted message, written to the
  UART, to a ring buffer that \<open>LOG_DUMP\<close> empties, or to the serial link. The macros that configure a
  build are a record; formatting (nanoprintf) and the ring buffer (lwrb) are libraries outside the
  repository, and parameters here. Builds with \<open>CH56x_DEBUG_LOG_LIBDIVIDE_SYSLCLK\<close>, which divide
  through a third library, are left out.
\<close>

section \<open>Configuration and state\<close>

text \<open>\<open>LOG_TYPE_SERDES\<close> is not listed: \<open>_log_init\<close> does not compile with it.\<close>

datatype log_type = LOG_TYPE_PRINTF | LOG_TYPE_PRINTF_NO_INTERRUPT | LOG_TYPE_BUFFER

record log_build =
  LOG_TYPE :: log_type
  LOG_LEVEL :: "int option"
  LOG_FILTER_IDS :: "u8 list option"
  CH56x_DEBUG_LOG_BASIC_TIMESTAMP :: bool
  LOG_BUFFER_SIZE :: nat

definition DEBUG_LOG_BUF_SIZE :: int where "DEBUG_LOG_BUF_SIZE = 512"
definition LOG_PRINTF_BUFF_SIZE :: u32 where "LOG_PRINTF_BUFF_SIZE = 511"

record debug_log_buf_t =
  dbg_buf :: "u8 list"
  dbg_idx :: u16

text \<open>The four \<open>startCNT64\<close> of the files, the buffers, and the bytes sent so far.\<close>

record 'r log_world =
  log_crit :: crit
  SysTickCNT :: u64
  startCNT64 :: u64
  startCNT64_printf :: u64
  startCNT64_serdes :: u64
  startCNT64_buffer :: u64
  debug_log_buf :: "debug_log_buf_t option"
  debug_log_buf_serdes :: "debug_log_buf_t option"
  serdes_buffer :: "u8 list"
  log_serdes_state :: serdes_state
  lwrb_buffer :: 'r
  uart_out :: "u8 list"

text \<open>The BSP: clock constants and the functions with an effect.\<close>

record 'r log_bsp =
  bsp_get_tick_frequency :: u32
  bsp_get_nbtick_1ms :: u32
  bsp_get_nbtick_1us :: u32
  UART1_init :: "u32 \<Rightarrow> int \<Rightarrow> 'r log_world \<Rightarrow> 'r log_world"
  bsp_uled_off :: "'r log_world \<Rightarrow> 'r log_world"
  log_serdes_bsp :: serdes_bsp

text \<open>The formats of the code, with their arguments, and any other format string with its arguments.\<close>

datatype log_fmt = Fmt_hex u32 | Fmt_time u32 u32 u32 | Fmt_time_plain u32 u32 u32 | Fmt_time_buffer u32 u32 u32 |
  Fmt_user u32 "u32 list"

text \<open>\<open>npf_vsnprintf(&buffer[off], size, fmt, args)\<close>: the result and the buffer after, \<open>None\<close> when it
  writes past the buffer.\<close>

type_synonym npf = "log_fmt \<Rightarrow> nat \<Rightarrow> u32 \<Rightarrow> u8 list \<Rightarrow> (u32 \<times> u8 list) option"

text \<open>What \<open>snprintf\<close> is documented to do: the text, cut to the size with its final 0, and the whole length.\<close>

definition npf_ok :: "(log_fmt \<Rightarrow> u8 list) \<Rightarrow> npf \<Rightarrow> bool" where
  "npf_ok txt npf \<longleftrightarrow> (\<forall>f off sz buf. npf f off sz buf =
     (let t = txt f; k = min (length t) (unat sz - 1) in
      if sz = 0 then Some (of_nat (length t), buf)
      else if off + k + 1 \<le> length buf
      then Some (of_nat (length t), take off buf @ take k t @ [0] @ drop (off + k + 1) buf)
      else None))"

record 'r lwrb_ops =
  lwrb_init :: "nat \<Rightarrow> 'r \<Rightarrow> 'r"
  lwrb_write :: "u8 list \<Rightarrow> 'r \<Rightarrow> nat \<times> 'r"
  lwrb_read :: "nat \<Rightarrow> 'r \<Rightarrow> u8 list \<times> 'r"
  lwrb_get_full :: "'r \<Rightarrow> nat"

text \<open>The ring buffer is documented as a queue of bytes that takes what fits.\<close>

definition lwrb_ok :: "'r lwrb_ops \<Rightarrow> ('r \<Rightarrow> u8 list) \<Rightarrow> nat \<Rightarrow> bool" where
  "lwrb_ok L content cap \<longleftrightarrow>
     (\<forall>r. lwrb_get_full L r = length (content r)) \<and>
     (\<forall>r bs. content (snd (lwrb_write L bs r)) = content r @ take (cap - length (content r)) bs) \<and>
     (\<forall>r n. fst (lwrb_read L n r) = take n (content r) \<and> content (snd (lwrb_read L n r)) = drop n (content r))"

section \<open>Time stamps\<close>

text \<open>Seconds, milliseconds and microseconds of a number of ticks, as all loggers work them out.\<close>

definition log_timestamp :: "'r log_bsp \<Rightarrow> u64 \<Rightarrow> (u32 \<times> u32 \<times> u32) option" where
  "log_timestamp bsp delta =
     (let tick_freq = ucast (bsp_get_tick_frequency bsp) :: u64; nbtick_1ms = ucast (bsp_get_nbtick_1ms bsp) :: u64;
          nbtick_1us = ucast (bsp_get_nbtick_1us bsp) :: u64 in
      if tick_freq = 0 \<or> nbtick_1ms = 0 \<or> nbtick_1us = 0 then None
      else
        let sec = ucast (delta div tick_freq) :: u32;
            d1 = delta - ucast sec * tick_freq;
            msec = ucast (d1 div nbtick_1ms) :: u32;
            d2 = d1 - ucast msec * nbtick_1ms;
            usec = ucast (d2 div nbtick_1us) :: u32
        in Some (sec, msec, usec))"

text \<open>The stamp, then the message behind it with \<open>msg_size n\<close> bytes for it after a stamp of \<open>n\<close>.\<close>

definition log_text ::
    "log_build \<Rightarrow> 'r log_bsp \<Rightarrow> npf \<Rightarrow> (u32 \<Rightarrow> u32 \<Rightarrow> u32 \<Rightarrow> log_fmt) \<Rightarrow> (u32 \<Rightarrow> u32) \<Rightarrow> u32 \<Rightarrow> u64 \<Rightarrow> log_fmt \<Rightarrow> u8 list \<Rightarrow>
     (u32 \<times> u8 list) option" where
  "log_text bd bsp npf stamp msg_size stamp_size delta fmt buf = do {
     f \<leftarrow> (if CH56x_DEBUG_LOG_BASIC_TIMESTAMP bd then Some (Fmt_hex (ucast delta))
           else do { (sec, msec, usec) \<leftarrow> log_timestamp bsp delta; Some (stamp sec msec usec) });
     (print_size1, buf1) \<leftarrow> npf f 0 stamp_size buf;
     (print_size2, buf2) \<leftarrow> npf fmt (unat print_size1) (msg_size print_size1) buf1;
     Some (print_size2 + print_size1, buf2) }"

section \<open>Outputs\<close>

definition UART1_SendString :: "u8 list \<Rightarrow> u32 \<Rightarrow> 'r log_world \<Rightarrow> 'r log_world option" where
  "UART1_SendString buf n w =
     (if unat n \<le> length buf then Some (w\<lparr>uart_out := uart_out w @ take (unat n) buf\<rparr>) else None)"

definition write_to_stdout :: "u8 list \<Rightarrow> u32 \<Rightarrow> 'r log_world \<Rightarrow> 'r log_world option" where
  "write_to_stdout buffer sz w = UART1_SendString buffer sz w"

definition write_to_serdes :: "'r log_bsp \<Rightarrow> u32 \<Rightarrow> u32 \<Rightarrow> 'r log_world \<Rightarrow> 'r log_world" where
  "write_to_serdes bsp buffer sz w =
     w\<lparr>log_serdes_state := serdes_send (log_serdes_bsp bsp) buffer (ucast sz) 0 (log_serdes_state w)\<rparr>"

definition lwrb_write_at :: "'r lwrb_ops \<Rightarrow> u8 list \<Rightarrow> u32 \<Rightarrow> 'r log_world \<Rightarrow> 'r log_world option" where
  "lwrb_write_at L buffer n w =
     (if unat n \<le> length buffer
      then Some (w\<lparr>lwrb_buffer := snd (lwrb_write L (take (unat n) buffer) (lwrb_buffer w))\<rparr>) else None)"

definition write_to_buffer :: "'r lwrb_ops \<Rightarrow> u8 list \<Rightarrow> u32 \<Rightarrow> 'r log_world \<Rightarrow> 'r log_world option" where
  "write_to_buffer L buffer sz w = do {
     w1 \<leftarrow> lwrb_write_at L buffer sz (w\<lparr>log_crit := bsp_enter_critical (log_crit w)\<rparr>);
     Some (w1\<lparr>log_crit := bsp_exit_critical (log_crit w1)\<rparr>) }"

definition log_write :: "log_build \<Rightarrow> 'r lwrb_ops \<Rightarrow> u8 list \<Rightarrow> u32 \<Rightarrow> 'r log_world \<Rightarrow> 'r log_world option" where
  "log_write bd L buffer sz w = (case LOG_TYPE bd of
     LOG_TYPE_BUFFER \<Rightarrow> write_to_buffer L buffer sz w
   | LOG_TYPE_PRINTF \<Rightarrow> write_to_stdout buffer sz w
   | LOG_TYPE_PRINTF_NO_INTERRUPT \<Rightarrow> Some w)"

section \<open>\<open>log_printf.c\<close>\<close>

definition log_printf_init :: "debug_log_buf_t \<Rightarrow> 'r log_world \<Rightarrow> 'r log_world" where
  "log_printf_init buf w = w\<lparr>debug_log_buf := Some (buf\<lparr>dbg_idx := 0\<rparr>), startCNT64_printf := SysTickCNT w\<rparr>"

text \<open>Keeping a copy of the message while there is room, as both loggers with a debug buffer do.\<close>

definition debug_log_keep :: "u8 list \<Rightarrow> u32 \<Rightarrow> debug_log_buf_t \<Rightarrow> debug_log_buf_t option" where
  "debug_log_keep text n b =
     (if uint (dbg_idx b) + sint n < DEBUG_LOG_BUF_SIZE then do {
        buf \<leftarrow> memcpy_at (dbg_buf b) (unat (dbg_idx b)) text 0 (unat n);
        Some (b\<lparr>dbg_buf := buf, dbg_idx := dbg_idx b + ucast n\<rparr>) }
      else Some b)"

definition vlog_printf ::
    "log_build \<Rightarrow> 'r log_bsp \<Rightarrow> npf \<Rightarrow> u8 list \<Rightarrow> log_fmt \<Rightarrow> 'r log_world \<Rightarrow> 'r log_world option" where
  "vlog_printf bd bsp npf log_printf_buff fmt w = do {
     let delta = startCNT64_printf w - SysTickCNT w;
     (print_size2, text) \<leftarrow> log_text bd bsp npf Fmt_time (\<lambda>_. LOG_PRINTF_BUFF_SIZE) 512 delta fmt log_printf_buff;
     let w1 = w\<lparr>log_crit := bsp_enter_critical (log_crit w)\<rparr>;
     w2 \<leftarrow> (if 0 < sint print_size2 then do {
         b \<leftarrow> debug_log_buf w1;
         b1 \<leftarrow> debug_log_keep text print_size2 b;
         UART1_SendString text print_size2 (w1\<lparr>debug_log_buf := Some b1\<rparr>) }
       else Some w1);
     Some (bsp_uled_off bsp (w2\<lparr>log_crit := bsp_exit_critical (log_crit w2)\<rparr>)) }"

section \<open>\<open>log_serdes.c\<close>\<close>

definition log_serdes_init :: "debug_log_buf_t \<Rightarrow> 'r log_world \<Rightarrow> 'r log_world" where
  "log_serdes_init buf w =
     w\<lparr>debug_log_buf_serdes := Some (buf\<lparr>dbg_idx := 0\<rparr>), startCNT64_serdes := SysTickCNT w\<rparr>"

text \<open>\<open>addr\<close> is the address of \<open>serdes_buffer\<close>.\<close>

definition vlog_serdes ::
    "log_build \<Rightarrow> 'r log_bsp \<Rightarrow> npf \<Rightarrow> u32 \<Rightarrow> log_fmt \<Rightarrow> 'r log_world \<Rightarrow> 'r log_world option" where
  "vlog_serdes bd bsp npf addr fmt w = do {
     let delta = startCNT64_serdes w - SysTickCNT w;
     (print_size2, text) \<leftarrow> log_text bd bsp npf Fmt_time (\<lambda>_. LOG_PRINTF_BUFF_SIZE) 512 delta fmt (serdes_buffer w);
     let w1 = w\<lparr>log_crit := bsp_enter_critical (log_crit w), serdes_buffer := text\<rparr>;
     w2 \<leftarrow> (if 0 < sint print_size2 then do {
         b \<leftarrow> debug_log_buf_serdes w1;
         b1 \<leftarrow> debug_log_keep text print_size2 b;
         Some (write_to_serdes bsp addr print_size2 (w1\<lparr>debug_log_buf_serdes := Some b1\<rparr>)) }
       else Some w1);
     Some (w2\<lparr>log_crit := bsp_exit_critical (log_crit w2)\<rparr>) }"

section \<open>\<open>log_to_buffer.c\<close>\<close>

definition log_buffer_init :: "log_build \<Rightarrow> 'r lwrb_ops \<Rightarrow> 'r log_world \<Rightarrow> 'r log_world" where
  "log_buffer_init bd L w =
     w\<lparr>startCNT64_buffer := SysTickCNT w, lwrb_buffer := lwrb_init L (LOG_BUFFER_SIZE bd + 1) (lwrb_buffer w)\<rparr>"

definition log_buffer_read_to :: "'r lwrb_ops \<Rightarrow> nat \<Rightarrow> 'r log_world \<Rightarrow> u8 list \<times> 'r log_world" where
  "log_buffer_read_to L num w = (let (bs, r) = lwrb_read L num (lwrb_buffer w) in (bs, w\<lparr>lwrb_buffer := r\<rparr>))"

definition log_buffer_get_num_ready :: "'r lwrb_ops \<Rightarrow> 'r log_world \<Rightarrow> nat" where
  "log_buffer_get_num_ready L w = lwrb_get_full L (lwrb_buffer w)"

definition vlog_to_buffer ::
    "log_build \<Rightarrow> 'r log_bsp \<Rightarrow> npf \<Rightarrow> 'r lwrb_ops \<Rightarrow> u8 list \<Rightarrow> log_fmt \<Rightarrow> 'r log_world \<Rightarrow> 'r log_world option" where
  "vlog_to_buffer bd bsp npf L temp_buffer fmt w = do {
     let delta = startCNT64_buffer w - SysTickCNT w;
     (print_size2, text) \<leftarrow> log_text bd bsp npf Fmt_time_buffer (\<lambda>n. LOG_PRINTF_BUFF_SIZE - n) 512 delta fmt temp_buffer;
     if 0 < sint print_size2 then write_to_buffer L text print_size2 w else Some w }"

text \<open>The \<open>do ... while\<close> loop, with the number of bytes ready.\<close>

partial_function (option) log_dump_loop :: "'r lwrb_ops \<Rightarrow> nat \<Rightarrow> 'r log_world \<Rightarrow> 'r log_world option" where
  "log_dump_loop L num_log_bytes_ready w = do {
     let num_to_read = (if 512 < num_log_bytes_ready then 512 else num_log_bytes_ready);
     w2 \<leftarrow> (if 0 < num_to_read then
          let (bs, w1) = log_buffer_read_to L (if 2 < num_to_read then 2 else num_to_read) w
          in UART1_SendString bs (of_nat (length bs)) w1
        else Some w);
     let num_log_bytes_ready = log_buffer_get_num_ready L w2;
     if 0 < num_log_bytes_ready then log_dump_loop L num_log_bytes_ready w2 else Some w2 }"

definition log_to_buffer_dump_to_uart :: "'r lwrb_ops \<Rightarrow> 'r log_world \<Rightarrow> 'r log_world option" where
  "log_to_buffer_dump_to_uart L w = log_dump_loop L (log_buffer_get_num_ready L w) w"

section \<open>\<open>logging.c\<close>\<close>

text \<open>\<open>log_buf\<close> is the static buffer of \<open>_log_init\<close>.\<close>

definition log_init ::
    "log_build \<Rightarrow> 'r log_bsp \<Rightarrow> 'r lwrb_ops \<Rightarrow> u32 \<Rightarrow> debug_log_buf_t \<Rightarrow> int \<Rightarrow> 'r log_world \<Rightarrow> 'r log_world" where
  "log_init bd bsp L baudrate log_buf sys_freq w =
     (let w1 = w\<lparr>startCNT64 := SysTickCNT w\<rparr>;
          w2 = (if LOG_TYPE bd = LOG_TYPE_BUFFER then log_buffer_init bd L w1 else log_printf_init log_buf w1)
      in UART1_init bsp baudrate sys_freq w2)"

definition log_time_init :: "'r log_world \<Rightarrow> 'r log_world" where
  "log_time_init w = w\<lparr>startCNT64 := SysTickCNT w\<rparr>"

text \<open>\<open>sizeof(dest)\<close> is the size of a pointer.\<close>

definition create_log_string ::
    "log_build \<Rightarrow> 'r log_bsp \<Rightarrow> npf \<Rightarrow> u8 list \<Rightarrow> u32 \<Rightarrow> log_fmt \<Rightarrow> 'r log_world \<Rightarrow> (u32 \<times> u8 list) option" where
  "create_log_string bd bsp npf dest dest_size fmt w =
     log_text bd bsp npf Fmt_time (\<lambda>n. dest_size - n) 4 (startCNT64 w - SysTickCNT w) fmt dest"

definition log_always ::
    "log_build \<Rightarrow> 'r log_bsp \<Rightarrow> npf \<Rightarrow> 'r lwrb_ops \<Rightarrow> u8 list \<Rightarrow> log_fmt \<Rightarrow> 'r log_world \<Rightarrow> 'r log_world option" where
  "log_always bd bsp npf L temp_buffer fmt w = do {
     (print_size2, text) \<leftarrow> log_text bd bsp npf Fmt_time_plain (\<lambda>n. 512 - n) 512 (startCNT64 w - SysTickCNT w) fmt temp_buffer;
     if print_size2 = 0 then Some w else log_write bd L text print_size2 w }"

text \<open>The filters; \<open>log_passes\<close> tells that \<open>log_if\<close> goes on. A build with neither a level nor a filter has level 1.\<close>

definition build_log_level :: "log_build \<Rightarrow> int option" where
  "build_log_level bd = (if LOG_LEVEL bd = None \<and> LOG_FILTER_IDS bd = None then Some 1 else LOG_LEVEL bd)"

definition log_level_ok :: "log_build \<Rightarrow> u8 \<Rightarrow> bool" where
  "log_level_ok bd log_prio = (case build_log_level bd of None \<Rightarrow> True | Some l \<Rightarrow> \<not> l < uint log_prio)"

fun log_filter_loop :: "log_build \<Rightarrow> u8 \<Rightarrow> u8 \<Rightarrow> u8 list \<Rightarrow> bool" where
  "log_filter_loop bd log_prio log_id [] = True"
| "log_filter_loop bd log_prio log_id (i # ids) =
     (if log_id \<noteq> i \<or> \<not> log_level_ok bd log_prio then False else log_filter_loop bd log_prio log_id ids)"

definition log_passes :: "log_build \<Rightarrow> u8 \<Rightarrow> u8 \<Rightarrow> bool" where
  "log_passes bd log_prio log_id = (case LOG_FILTER_IDS bd of
     Some log_ids \<Rightarrow> log_filter_loop bd log_prio log_id log_ids
   | None \<Rightarrow> log_level_ok bd log_prio)"

definition log_if ::
    "log_build \<Rightarrow> 'r log_bsp \<Rightarrow> npf \<Rightarrow> 'r lwrb_ops \<Rightarrow> u8 list \<Rightarrow> u8 \<Rightarrow> u8 \<Rightarrow> log_fmt \<Rightarrow> 'r log_world \<Rightarrow> 'r log_world option" where
  "log_if bd bsp npf L temp_buffer log_prio log_id fmt w =
     (if \<not> log_passes bd log_prio log_id then Some w
      else do {
        (print_size2, text) \<leftarrow> log_text bd bsp npf Fmt_time (\<lambda>n. 512 - n) 512 (startCNT64 w - SysTickCNT w) fmt temp_buffer;
        if print_size2 = 0 then Some w else log_write bd L text print_size2 w })"

section \<open>A concrete build\<close>

text \<open>A clock of 120 MHz, a ring buffer of 4096 bytes as a list, and a formatter that shows every format's
  arguments as bytes.\<close>

definition demo_build :: log_build where
  "demo_build = \<lparr>LOG_TYPE = LOG_TYPE_BUFFER, LOG_LEVEL = Some 5, LOG_FILTER_IDS = None,
     CH56x_DEBUG_LOG_BASIC_TIMESTAMP = False, LOG_BUFFER_SIZE = 4096\<rparr>"

definition demo_bsp :: "u8 list log_bsp" where
  "demo_bsp = \<lparr>bsp_get_tick_frequency = 120000000, bsp_get_nbtick_1ms = 120000, bsp_get_nbtick_1us = 120,
     UART1_init = (\<lambda>_ _ w. w), bsp_uled_off = (\<lambda>w. w),
     log_serdes_bsp = \<lparr>SerDes_Tx_Init = (\<lambda>s. s), SerDes_Rx_Init = (\<lambda>s. s), PFIC_EnableIRQ_serdes = (\<lambda>s. s),
       SerDes_DoubleDMA_Rx_CFG = (\<lambda>_ _ s. s), SerDes_EnableIT = (\<lambda>_ s. s), SerDes_ClearIT = (\<lambda>_ s. s),
       SerDes_DMA_Tx_CFG = (\<lambda>_ _ _ s. s), SerDes_DMA_Tx = (\<lambda>s. s), SerDes_Wait_Txdone = (\<lambda>s. s), SerDes_StatusIT = (\<lambda>_. 0)\<rparr>\<rparr>"

definition demo_lwrb :: "u8 list lwrb_ops" where
  "demo_lwrb = \<lparr>lwrb_init = (\<lambda>_ _. []), lwrb_write = (\<lambda>bs r. (min (length bs) (4096 - length r), r @ take (4096 - length r) bs)),
     lwrb_read = (\<lambda>n r. (take n r, drop n r)), lwrb_get_full = length\<rparr>"

definition demo_log :: "u8 list \<Rightarrow> u8 list log_world" where
  "demo_log q = \<lparr>log_crit = crit_init, SysTickCNT = 0, startCNT64 = 360250180, startCNT64_printf = 0, startCNT64_serdes = 0,
     startCNT64_buffer = 0, debug_log_buf = None, debug_log_buf_serdes = None, serdes_buffer = replicate 512 0,
     log_serdes_state = \<lparr>SDS_RX_LEN0 = 0, SDS_RX_LEN1 = 0, current_rx_dma = 0, serdes_max_packet_size = 512,
       reg_SDS_RX_LEN0 = 0, reg_SDS_RX_LEN1 = 0, reg_SDS_DATA0 = 0, reg_SDS_DATA1 = 0\<rparr>,
     lwrb_buffer = q, uart_out = []\<rparr>"

definition demo_txt :: "log_fmt \<Rightarrow> u8 list" where
  "demo_txt f = (case f of Fmt_hex x \<Rightarrow> [ucast x] | Fmt_time s m u \<Rightarrow> [ucast s, ucast m, ucast u]
     | Fmt_time_plain s m u \<Rightarrow> [ucast s, ucast m, ucast u] | Fmt_time_buffer s m u \<Rightarrow> [ucast s, ucast m, ucast u]
     | Fmt_user p args \<Rightarrow> map ucast args)"

definition demo_npf :: npf where
  "demo_npf f off sz buf =
     (let t = demo_txt f; k = min (length t) (unat sz - 1) in
      if sz = 0 then Some (of_nat (length t), buf)
      else if off + k + 1 \<le> length buf
      then Some (of_nat (length t), take off buf @ take k t @ [0] @ drop (off + k + 1) buf)
      else None)"

lemma demo_npf_ok: "npf_ok demo_txt demo_npf"
  by (simp add: npf_ok_def demo_npf_def)

lemma demo_lwrb_ok: "lwrb_ok demo_lwrb (\<lambda>r. r) 4096"
  by (simp add: lwrb_ok_def demo_lwrb_def)

section \<open>Properties of the time stamp\<close>

lemma ucast_u64_u32: "unat x < 2 ^ 32 \<Longrightarrow> (ucast (ucast x :: u32) :: u64) = x" for x :: u64
  by (simp add: word_unat_eq_iff unsigned_ucast_eq unsigned_take_bit_eq take_bit_nat_eq_self)

lemma stamp_part:
  fixes x d :: u64
  assumes "unat x div unat d < 2 ^ 32"
  shows "unat (ucast (x div d) :: u32) = unat x div unat d" "x - ucast (ucast (x div d) :: u32) * d = x mod d"
proof -
  have u: "unat (x div d) = unat x div unat d" by (simp add: unat_div)
  then have "(ucast (ucast (x div d) :: u32) :: u64) = x div d" using assms by (intro ucast_u64_u32) simp
  then show "x - ucast (ucast (x div d) :: u32) * d = x mod d" by (simp add: minus_div_mult_eq_mod)
  show "unat (ucast (x div d) :: u32) = unat x div unat d"
    using assms by (simp add: unsigned_ucast_eq u take_bit_nat_eq_self)
qed

text \<open>
  C35. The time stamp is exact: with a clock whose milliseconds and microseconds are whole numbers of
  ticks, the milliseconds and microseconds shown are below 1000 and the time shown is the number of ticks elapsed, cut
  to whole microseconds, as long as the seconds fit 32 bits.
\<close>

theorem log_timestamp_exact:
  assumes "unat (bsp_get_tick_frequency bsp) = 1000 * unat (bsp_get_nbtick_1ms bsp)"
    and "unat (bsp_get_nbtick_1ms bsp) = 1000 * unat (bsp_get_nbtick_1us bsp)" and "0 < unat (bsp_get_nbtick_1us bsp)"
    and "unat delta div unat (bsp_get_tick_frequency bsp) < 2 ^ 32"
  shows "\<exists>sec msec usec. log_timestamp bsp delta = Some (sec, msec, usec) \<and> unat msec < 1000 \<and> unat usec < 1000 \<and>
    unat sec * unat (bsp_get_tick_frequency bsp) + unat msec * unat (bsp_get_nbtick_1ms bsp) +
      unat usec * unat (bsp_get_nbtick_1us bsp) + unat delta mod unat (bsp_get_nbtick_1us bsp) = unat delta"
proof -
  let ?F = "ucast (bsp_get_tick_frequency bsp) :: u64" and ?M = "ucast (bsp_get_nbtick_1ms bsp) :: u64"
  let ?U = "ucast (bsp_get_nbtick_1us bsp) :: u64"
  have c: "unat (ucast v :: u64) = unat v" for v :: u32
  proof -
    have "unat v < 2 ^ 64" by (rule order.strict_trans2 [OF unsigned_less]) simp
    then show ?thesis by (simp add: unsigned_ucast_eq take_bit_nat_eq_self)
  qed
  define us where "us = unat (bsp_get_nbtick_1us bsp)"
  have u: "unat ?U = us" "unat ?M = 1000 * us" "unat ?F = 1000 * (1000 * us)" "0 < us"
    using assms(1-3) by (simp_all add: c us_def)
  have nz: "?F \<noteq> 0" "?M \<noteq> 0" "?U \<noteq> 0" using u by (auto dest!: arg_cong [of _ _ unat])
  let ?d = "unat delta"
  have s: "?d div unat ?F < 2 ^ 32" using assms(4) by (simp add: c)
  note sec = stamp_part [OF s]
  have d1: "unat (delta mod ?F) = ?d mod (1000 * (1000 * us))" by (simp add: unat_mod u)
  then have m: "unat (delta mod ?F) div unat ?M < 1000" using u(4) by (simp add: u less_mult_imp_div_less)
  then have m': "unat (delta mod ?F) div unat ?M < 2 ^ 32" by simp
  note msec = stamp_part [OF m']
  have d2: "unat (delta mod ?F mod ?M) = ?d mod (1000 * (1000 * us)) mod (1000 * us)" by (simp add: unat_mod u)
  then have v: "unat (delta mod ?F mod ?M) div unat ?U < 1000" using u(4) by (simp add: u less_mult_imp_div_less)
  then have v': "unat (delta mod ?F mod ?M) div unat ?U < 2 ^ 32" by simp
  note usec = stamp_part [OF v']
  have "log_timestamp bsp delta = Some (ucast (delta div ?F), ucast (delta mod ?F div ?M), ucast (delta mod ?F mod ?M div ?U))"
    using nz by (simp add: log_timestamp_def Let_def sec(2) msec(2))
  moreover have "unat (ucast (delta div ?F) :: u32) * unat ?F + unat (ucast (delta mod ?F div ?M) :: u32) * unat ?M +
      unat (ucast (delta mod ?F mod ?M div ?U) :: u32) * unat ?U + ?d mod unat ?U = ?d"
  proof -
    have "unat (delta mod ?F mod ?M) mod unat ?U = ?d mod unat ?U" unfolding d2 u by (simp add: mod_mod_cancel)
    moreover have "?d = ?d div unat ?F * unat ?F + unat (delta mod ?F)" unfolding unat_mod by (rule div_mult_mod_eq [symmetric])
    moreover have "unat (delta mod ?F) = unat (delta mod ?F) div unat ?M * unat ?M + unat (delta mod ?F mod ?M)"
      unfolding unat_mod [of "delta mod ?F"] by (rule div_mult_mod_eq [symmetric])
    moreover have "unat (delta mod ?F mod ?M) =
        unat (delta mod ?F mod ?M) div unat ?U * unat ?U + unat (delta mod ?F mod ?M) mod unat ?U"
      by (rule div_mult_mod_eq [symmetric])
    ultimately show ?thesis unfolding sec(1) msec(1) usec(1) by linarith
  qed
  ultimately show ?thesis
    using m [folded msec(1)] v [folded usec(1)] unfolding c by blast
qed

theorem log_timestamp_exact_witness:
  "log_timestamp demo_bsp 360250180 = Some (3, 2, 84) \<and>
    (\<exists>sec msec usec. log_timestamp demo_bsp 360250180 = Some (sec, msec, usec) \<and> unat msec < 1000 \<and> unat usec < 1000 \<and>
       unat sec * 120000000 + unat msec * 120000 + unat usec * 120 + 100 = 360250180)"
  using log_timestamp_exact [of demo_bsp 360250180] by (simp add: demo_bsp_def log_timestamp_def)

section \<open>Properties of the filters\<close>

lemma log_filter_loop_all:
  "log_filter_loop bd log_prio log_id ids \<longleftrightarrow> (\<forall>i\<in>set ids. i = log_id \<and> log_level_ok bd log_prio)"
  by (induction ids) auto

text \<open>
  The filter of identifiers asks for all of them at once: as soon as \<open>LOG_FILTER_IDS\<close> lists two
  different identifiers, \<open>log_if\<close> writes nothing, whatever the priority and the identifier of the
  message, although a message with any of the listed identifiers is documented to be logged.
\<close>

theorem log_if_two_ids_silent:
  assumes "LOG_FILTER_IDS bd = Some ids" and "i \<in> set ids" and "j \<in> set ids" and "i \<noteq> j"
  shows "log_if bd bsp npf L temp_buffer log_prio log_id fmt w = Some w"
proof -
  have "\<not> log_passes bd log_prio log_id"
    using assms by (simp add: log_passes_def log_filter_loop_all) metis
  then show ?thesis by (simp add: log_if_def)
qed

theorem log_if_two_ids_silent_witness:
  "\<forall>bsp npf L buf fmt w. log_if (demo_build\<lparr>LOG_FILTER_IDS := Some [2, 3]\<rparr>) bsp npf L buf 1 2 fmt w = Some w"
  by (intro allI log_if_two_ids_silent [where ids = "[2, 3]" and i = 2 and j = 3]) simp_all

section \<open>Properties of the ring buffer\<close>

lemma lwrb_okD:
  assumes "lwrb_ok L content cap"
  shows "lwrb_get_full L r = length (content r)" "fst (lwrb_read L n r) = take n (content r)"
    "content (snd (lwrb_read L n r)) = drop n (content r)"
    "content (snd (lwrb_write L bs r)) = content r @ take (cap - length (content r)) bs"
  using assms by (simp_all add: lwrb_ok_def)

lemma log_dump_step:
  assumes "lwrb_ok L content cap" and "content (lwrb_buffer w) \<noteq> []"
  shows "\<exists>w1. log_dump_loop L (length (content (lwrb_buffer w))) w =
      (if content (lwrb_buffer w1) \<noteq> [] then log_dump_loop L (length (content (lwrb_buffer w1))) w1 else Some w1) \<and>
    content (lwrb_buffer w1) = drop 2 (content (lwrb_buffer w)) \<and> log_crit w1 = log_crit w \<and>
    uart_out w1 = uart_out w @ take 2 (content (lwrb_buffer w))"
proof -
  note L = lwrb_okD [OF assms(1)]
  let ?q = "content (lwrb_buffer w)"
  define n where "n = (if 2 < length ?q then 2 else length ?q)"
  obtain bs r where br: "lwrb_read L n (lwrb_buffer w) = (bs, r)" by (cases "lwrb_read L n (lwrb_buffer w)")
  have b: "bs = take n ?q" "content r = drop n ?q" using L(2) [of n "lwrb_buffer w"] L(3) [of n "lwrb_buffer w"] br by simp_all
  have nn: "take n ?q = take 2 ?q" "drop n ?q = drop 2 ?q" "length (take 2 ?q) \<le> 2" by (auto simp: n_def)
  have pos: "0 < (if 512 < length ?q then 512 else length ?q)"
    "(if 2 < (if 512 < length ?q then 512 else length ?q) then 2 else (if 512 < length ?q then 512 else length ?q)) = n"
    using assms(2) by (auto simp: n_def)
  have small: "unat (of_nat (length bs) :: u32) = length bs"
    using nn b(1) by (simp add: unsigned_of_nat take_bit_nat_eq_self)
  let ?w1 = "w\<lparr>lwrb_buffer := r, uart_out := uart_out w @ bs\<rparr>"
  have "log_dump_loop L (length ?q) w =
      (if content (lwrb_buffer ?w1) \<noteq> [] then log_dump_loop L (length (content (lwrb_buffer ?w1))) ?w1 else Some ?w1)"
    by (subst log_dump_loop.simps) (simp add: pos Let_def log_buffer_read_to_def br UART1_SendString_def small
        log_buffer_get_num_ready_def L(1))
  then show ?thesis using b nn by (intro exI [of _ ?w1]) simp
qed

lemma log_dump_all:
  assumes "lwrb_ok L content cap"
  shows "\<exists>w1. log_to_buffer_dump_to_uart L w = Some w1 \<and> content (lwrb_buffer w1) = [] \<and> log_crit w1 = log_crit w \<and>
    uart_out w1 = uart_out w @ content (lwrb_buffer w)"
proof -
  note L = lwrb_okD [OF assms]
  have loop: "\<exists>w1. log_dump_loop L (length (content (lwrb_buffer v))) v = Some w1 \<and> content (lwrb_buffer w1) = [] \<and>
      log_crit w1 = log_crit v \<and> uart_out w1 = uart_out v @ content (lwrb_buffer v)"
    if "content (lwrb_buffer v) \<noteq> []" for v
    using that
  proof (induction "length (content (lwrb_buffer v))" arbitrary: v rule: less_induct)
    case less
    from log_dump_step [OF assms less.prems] obtain v1 where v1:
      "log_dump_loop L (length (content (lwrb_buffer v))) v =
        (if content (lwrb_buffer v1) \<noteq> [] then log_dump_loop L (length (content (lwrb_buffer v1))) v1 else Some v1)"
      "content (lwrb_buffer v1) = drop 2 (content (lwrb_buffer v))" "log_crit v1 = log_crit v"
      "uart_out v1 = uart_out v @ take 2 (content (lwrb_buffer v))" by blast
    show ?case
    proof (cases "content (lwrb_buffer v1) = []")
      case True
      then show ?thesis using v1 by simp
    next
      case False
      have "length (content (lwrb_buffer v1)) < length (content (lwrb_buffer v))" using v1(2) less.prems by (cases "content (lwrb_buffer v)") auto
      from less.hyps [OF this False] show ?thesis using v1 False by auto
    qed
  qed
  show ?thesis
  proof (cases "content (lwrb_buffer w) = []")
    case True
    then show ?thesis
      by (simp add: log_to_buffer_dump_to_uart_def log_buffer_get_num_ready_def L(1))
        (subst log_dump_loop.simps, simp add: log_buffer_get_num_ready_def L(1))
  next
    case False
    from loop [OF this] show ?thesis
      by (simp add: log_to_buffer_dump_to_uart_def log_buffer_get_num_ready_def L(1))
  qed
qed

text \<open>
  C36. \<open>LOG_DUMP\<close> terminates: whatever the ring buffer holds, the loop ends, has sent exactly its bytes, in
  order, to the UART, and leaves it empty.
\<close>

theorem log_dump_terminates:
  assumes "lwrb_ok L content cap"
  shows "\<exists>w1. log_to_buffer_dump_to_uart L w = Some w1 \<and> uart_out w1 = uart_out w @ content (lwrb_buffer w) \<and>
    content (lwrb_buffer w1) = []"
  using log_dump_all [OF assms] by blast

theorem log_dump_terminates_witness:
  "\<exists>w1. log_to_buffer_dump_to_uart demo_lwrb (demo_log [1, 2, 3, 4, 5]) = Some w1 \<and> uart_out w1 = [1, 2, 3, 4, 5]"
  using log_dump_terminates [OF demo_lwrb_ok, of "demo_log [1, 2, 3, 4, 5]"] by (auto simp: demo_log_def)

section \<open>From the message to the UART\<close>

text \<open>The line of a message \<open>f\<close> logged at tick \<open>t\<close> with \<open>start\<close> as the origin of time.\<close>

definition log_stamp :: "log_build \<Rightarrow> 'r log_bsp \<Rightarrow> (u32 \<Rightarrow> u32 \<Rightarrow> u32 \<Rightarrow> log_fmt) \<Rightarrow> u64 \<Rightarrow> log_fmt option" where
  "log_stamp bd bsp stamp delta =
     (if CH56x_DEBUG_LOG_BASIC_TIMESTAMP bd then Some (Fmt_hex (ucast delta))
      else map_option (\<lambda>(sec, msec, usec). stamp sec msec usec) (log_timestamp bsp delta))"

definition log_line :: "log_build \<Rightarrow> 'r log_bsp \<Rightarrow> (log_fmt \<Rightarrow> u8 list) \<Rightarrow> u64 \<Rightarrow> u64 \<times> log_fmt \<Rightarrow> u8 list" where
  "log_line bd bsp txt start m = txt (the (log_stamp bd bsp Fmt_time (start - fst m))) @ txt (snd m)"

lemma log_text_fits:
  assumes "npf_ok txt npf" and "log_stamp bd bsp stamp delta = Some f" and "length (txt f) + length (txt fmt) \<le> 511"
    and "length buf = 512"
  shows "\<exists>buf'. log_text bd bsp npf stamp (\<lambda>n. 512 - n) 512 delta fmt buf = Some (of_nat (length (txt f) + length (txt fmt)), buf') \<and>
    length buf' = 512 \<and> take (length (txt f) + length (txt fmt)) buf' = txt f @ txt fmt"
proof -
  let ?s = "txt f" and ?t = "txt fmt"
  have npf: "npf g off sz b = Some (of_nat (length (txt g)), take off b @ txt g @ [0] @ drop (off + length (txt g) + 1) b)"
    if "length (txt g) < unat sz" "off + length (txt g) + 1 \<le> length b" for g off sz b
  proof -
    have "sz \<noteq> 0" using that(1) by auto
    moreover have "min (length (txt g)) (unat sz - 1) = length (txt g)" using that(1) by simp
    ultimately show ?thesis using assms(1) that(2) by (simp add: npf_ok_def Let_def)
  qed
  have small: "unat (of_nat (length ?s) :: u32) = length ?s" using assms(3) by (simp add: unsigned_of_nat take_bit_nat_eq_self)
  then have room: "unat (512 - of_nat (length ?s) :: u32) = 512 - length ?s"
    using assms(3) by (subst unat_sub) (simp_all add: word_le_nat_alt)
  let ?b1 = "?s @ [0] @ drop (length ?s + 1) buf"
  let ?b2 = "?s @ ?t @ [0] @ drop (length ?s + length ?t + 1) ?b1"
  have one: "npf f 0 512 buf = Some (of_nat (length ?s), ?b1)"
    using npf [of f 512 0 buf] assms(3,4) by simp
  have two: "npf fmt (unat (of_nat (length ?s) :: u32)) (512 - of_nat (length ?s)) ?b1 = Some (of_nat (length ?t), ?b2)"
    using npf [of fmt "512 - of_nat (length ?s)" "length ?s" ?b1] assms(3,4) unfolding small room by simp
  have st: "(if CH56x_DEBUG_LOG_BASIC_TIMESTAMP bd then Some (Fmt_hex (ucast delta))
      else log_timestamp bsp delta \<bind> (\<lambda>(sec, msec, usec). Some (stamp sec msec usec))) = Some f"
    using assms(2) by (auto simp: log_stamp_def split: if_splits)
  have "log_text bd bsp npf stamp (\<lambda>n. 512 - n) 512 delta fmt buf = Some (of_nat (length ?s + length ?t), ?b2)"
    unfolding log_text_def st bind.bind_lunit one prod.case two by (simp add: add.commute)
  moreover have "length ?b2 = 512" using assms(3,4) by simp
  ultimately show ?thesis by (intro exI [of _ ?b2]) simp
qed

lemma log_if_appends:
  assumes "LOG_TYPE bd = LOG_TYPE_BUFFER" and "log_passes bd prio lid" and "npf_ok txt npf" and "lwrb_ok L content cap"
    and "length buf = 512" and "log_stamp bd bsp Fmt_time (startCNT64 w - SysTickCNT w) = Some f"
    and "length (txt f) + length (txt fmt) \<le> 511" and "length (content (lwrb_buffer w)) + (length (txt f) + length (txt fmt)) \<le> cap"
    and "crit_ok (log_crit w)"
  shows "\<exists>w1. log_if bd bsp npf L buf prio lid fmt w = Some w1 \<and>
    content (lwrb_buffer w1) = content (lwrb_buffer w) @ txt f @ txt fmt \<and> startCNT64 w1 = startCNT64 w \<and>
    log_crit w1 = log_crit w \<and> uart_out w1 = uart_out w"
proof -
  let ?n = "length (txt f) + length (txt fmt)"
  obtain b where b: "log_text bd bsp npf Fmt_time (\<lambda>n. 512 - n) 512 (startCNT64 w - SysTickCNT w) fmt buf = Some (of_nat ?n, b)"
    "length b = 512" "take ?n b = txt f @ txt fmt" using log_text_fits [OF assms(3,6,7,5)] by blast
  have n: "unat (of_nat ?n :: u32) = ?n" using assms(7) by (simp add: unsigned_of_nat take_bit_nat_eq_self del: of_nat_add)
  show ?thesis
  proof (cases "?n = 0")
    case True
    then show ?thesis using assms(2) b(1) by (simp add: log_if_def)
  next
    case False
    then have "(of_nat ?n :: u32) \<noteq> 0" using n by (metis unat_0)
    moreover have "content (snd (lwrb_write L (txt f @ txt fmt) (lwrb_buffer w))) = content (lwrb_buffer w) @ txt f @ txt fmt"
      using lwrb_okD(4) [OF assms(4)] assms(8) by simp
    moreover have "?n \<le> 512" using assms(7) by simp
    ultimately show ?thesis
      using assms(1,2,9) b n
      by (simp add: log_if_def log_write_def write_to_buffer_def lwrb_write_at_def del: of_nat_add)
  qed
qed

text \<open>Messages logged one after the other, each at its time.\<close>

primrec log_all ::
    "log_build \<Rightarrow> 'r log_bsp \<Rightarrow> npf \<Rightarrow> 'r lwrb_ops \<Rightarrow> u8 list \<Rightarrow> u8 \<Rightarrow> u8 \<Rightarrow> (u64 \<times> log_fmt) list \<Rightarrow> 'r log_world \<Rightarrow> 'r log_world option" where
  "log_all bd bsp npf L buf prio lid [] w = Some w"
| "log_all bd bsp npf L buf prio lid (m # ms) w = do {
     w1 \<leftarrow> log_if bd bsp npf L buf prio lid (snd m) (w\<lparr>SysTickCNT := fst m\<rparr>);
     log_all bd bsp npf L buf prio lid ms w1 }"

lemma log_all_appends:
  assumes "LOG_TYPE bd = LOG_TYPE_BUFFER" and "log_passes bd prio lid" and "npf_ok txt npf" and "lwrb_ok L content cap"
    and "length buf = 512" and "\<forall>delta. log_stamp bd bsp Fmt_time delta \<noteq> None"
  shows "list_all (\<lambda>m. length (log_line bd bsp txt (startCNT64 w) m) \<le> 511) ms \<Longrightarrow>
    length (content (lwrb_buffer w)) + length (concat (map (log_line bd bsp txt (startCNT64 w)) ms)) \<le> cap \<Longrightarrow>
    crit_ok (log_crit w) \<Longrightarrow>
    \<exists>w1. log_all bd bsp npf L buf prio lid ms w = Some w1 \<and>
      content (lwrb_buffer w1) = content (lwrb_buffer w) @ concat (map (log_line bd bsp txt (startCNT64 w)) ms) \<and>
      log_crit w1 = log_crit w \<and> uart_out w1 = uart_out w"
proof (induction ms arbitrary: w)
  case (Cons m ms)
  let ?w = "w\<lparr>SysTickCNT := fst m\<rparr>"
  from assms(6) obtain f where f: "log_stamp bd bsp Fmt_time (startCNT64 w - fst m) = Some f" by (meson not_None_eq)
  have line: "log_line bd bsp txt (startCNT64 w) m = txt f @ txt (snd m)" by (simp add: log_line_def f)
  have pre: "log_stamp bd bsp Fmt_time (startCNT64 ?w - SysTickCNT ?w) = Some f"
    "length (txt f) + length (txt (snd m)) \<le> 511" "length (content (lwrb_buffer ?w)) + (length (txt f) + length (txt (snd m))) \<le> cap"
    "crit_ok (log_crit ?w)" using f Cons.prems line by simp_all
  from log_if_appends [OF assms(1-5) pre] obtain w1 where w1: "log_if bd bsp npf L buf prio lid (snd m) ?w = Some w1"
    "content (lwrb_buffer w1) = content (lwrb_buffer w) @ txt f @ txt (snd m)" "startCNT64 w1 = startCNT64 w"
    "log_crit w1 = log_crit w" "uart_out w1 = uart_out w" by auto
  have "\<exists>w2. log_all bd bsp npf L buf prio lid ms w1 = Some w2 \<and>
      content (lwrb_buffer w2) = content (lwrb_buffer w1) @ concat (map (log_line bd bsp txt (startCNT64 w1)) ms) \<and>
      log_crit w2 = log_crit w1 \<and> uart_out w2 = uart_out w1"
    by (rule Cons.IH) (use Cons.prems w1 line in simp_all)
  then show ?case using w1 line by auto
qed simp

text \<open>
  C25. Logging to the buffer loses nothing that fits: messages written with \<open>log_if\<close> that pass the filters, each
  at most 511 bytes with its stamp and together no more than the room left, come out of the next
  \<open>LOG_DUMP\<close> on the UART in order, each behind the stamp of its own time, after what the buffer held
  before; the buffer is empty and interrupts are as they were.
\<close>

theorem log_buffer_roundtrip:
  assumes "LOG_TYPE bd = LOG_TYPE_BUFFER" and "log_passes bd prio lid" and "npf_ok txt npf" and "lwrb_ok L content cap"
    and "length buf = 512" and "\<forall>delta. log_stamp bd bsp Fmt_time delta \<noteq> None" and "crit_ok (log_crit w)"
    and "list_all (\<lambda>m. length (log_line bd bsp txt (startCNT64 w) m) \<le> 511) ms"
    and "length (content (lwrb_buffer w)) + length (concat (map (log_line bd bsp txt (startCNT64 w)) ms)) \<le> cap"
  shows "\<exists>w1 w2. log_all bd bsp npf L buf prio lid ms w = Some w1 \<and> log_to_buffer_dump_to_uart L w1 = Some w2 \<and>
    uart_out w2 = uart_out w @ content (lwrb_buffer w) @ concat (map (log_line bd bsp txt (startCNT64 w)) ms) \<and>
    content (lwrb_buffer w2) = [] \<and> log_crit w2 = log_crit w"
proof -
  from log_all_appends [OF assms(1-6,8,9,7)] obtain w1 where w1: "log_all bd bsp npf L buf prio lid ms w = Some w1"
    "content (lwrb_buffer w1) = content (lwrb_buffer w) @ concat (map (log_line bd bsp txt (startCNT64 w)) ms)"
    "log_crit w1 = log_crit w" "uart_out w1 = uart_out w" by blast
  from log_dump_all [OF assms(4), of w1] show ?thesis using w1 by auto
qed

theorem log_buffer_roundtrip_witness:
  "\<exists>w1 w2. log_all demo_build demo_bsp demo_npf demo_lwrb (replicate 512 0) 1 2
      [(120000000, Fmt_user 0 [65, 66]), (0, Fmt_user 0 [67])] (demo_log [9]) = Some w1 \<and>
    log_to_buffer_dump_to_uart demo_lwrb w1 = Some w2 \<and> uart_out w2 = [9, 2, 2, 84, 65, 66, 3, 2, 84, 67]"
proof -
  have stamps: "\<forall>delta. log_stamp demo_build demo_bsp Fmt_time delta \<noteq> None"
    by (simp add: log_stamp_def demo_build_def log_timestamp_def demo_bsp_def Let_def)
  have lines: "log_line demo_build demo_bsp demo_txt 360250180 (120000000, Fmt_user 0 [65, 66]) = [2, 2, 84, 65, 66]"
    "log_line demo_build demo_bsp demo_txt 360250180 (0, Fmt_user 0 [67]) = [3, 2, 84, 67]"
    by (simp_all add: log_line_def log_stamp_def demo_build_def log_timestamp_def demo_bsp_def demo_txt_def)
  have w: "lwrb_buffer (demo_log [9]) = [9]" "startCNT64 (demo_log [9]) = 360250180" "uart_out (demo_log [9]) = []"
    "log_crit (demo_log [9]) = crit_init" by (simp_all add: demo_log_def)
  have b: "LOG_TYPE demo_build = LOG_TYPE_BUFFER" "log_passes demo_build 1 2"
    by (simp_all add: demo_build_def log_passes_def log_level_ok_def build_log_level_def)
  show ?thesis
    using log_buffer_roundtrip [OF _ _ demo_npf_ok demo_lwrb_ok _ stamps, where w = "demo_log [9]" and prio = 1 and lid = 2
        and buf = "replicate 512 0" and ms = "[(120000000, Fmt_user 0 [65, 66]), (0, Fmt_user 0 [67])]"]
    by (auto simp: w lines b simp del: log_all.simps)
qed

section \<open>Messages that are too long\<close>

lemma npf_okD:
  assumes "npf_ok txt npf" and "sz \<noteq> 0" and "k = min (length (txt f)) (unat sz - 1)"
  shows "npf f off sz buf = (if off + k + 1 \<le> length buf
    then Some (of_nat (length (txt f)), take off buf @ take k (txt f) @ [0] @ drop (off + k + 1) buf) else None)"
  using assms by (simp add: npf_ok_def Let_def)

text \<open>A stamp that fits is written whole, and leaves the size of the buffer.\<close>

lemma log_text_stamp:
  assumes "npf_ok txt npf" and "log_stamp bd bsp stamp delta = Some f" and "length (txt f) \<le> 511" and "length buf = 512"
  shows "\<exists>buf1. length buf1 = 512 \<and> log_text bd bsp npf stamp msg_size 512 delta fmt buf =
    npf fmt (length (txt f)) (msg_size (of_nat (length (txt f)))) buf1 \<bind>
      (\<lambda>(print_size2, buf2). Some (print_size2 + of_nat (length (txt f)), buf2))"
proof -
  let ?b = "txt f @ [0] @ drop (length (txt f) + 1) buf"
  have one: "npf f 0 512 buf = Some (of_nat (length (txt f)), ?b)"
    by (subst npf_okD [OF assms(1), where k = "length (txt f)"]) (use assms(3,4) in simp_all)
  have small: "unat (of_nat (length (txt f)) :: u32) = length (txt f)"
    using assms(3) by (simp add: unsigned_of_nat take_bit_nat_eq_self)
  have st: "(if CH56x_DEBUG_LOG_BASIC_TIMESTAMP bd then Some (Fmt_hex (ucast delta))
      else log_timestamp bsp delta \<bind> (\<lambda>(sec, msec, usec). Some (stamp sec msec usec))) = Some f"
    using assms(2) by (auto simp: log_stamp_def split: if_splits)
  show ?thesis
    by (rule exI [of _ ?b], rule conjI, use assms(3,4) in simp, unfold log_text_def st bind.bind_lunit one prod.case small, rule refl)
qed

text \<open>
  C37. \<open>_log_printf\<close> and \<open>log_serdes\<close> write past their 512 byte buffer: they allow the message 511 bytes
  wherever it starts, so a message that does not fit behind its time stamp (of at least two bytes) is not cut but overruns
  the buffer.
\<close>

theorem log_printf_long_message_overflows:
  assumes "npf_ok txt npf" and "log_stamp bd bsp Fmt_time (startCNT64_printf w - SysTickCNT w) = Some f"
    and "startCNT64_serdes w = startCNT64_printf w" and "length buf = 512" and "length (serdes_buffer w) = 512"
    and "2 \<le> length (txt f)" and "length (txt f) \<le> 511" and "512 \<le> length (txt f) + length (txt fmt)"
  shows "vlog_printf bd bsp npf buf fmt w = None \<and> vlog_serdes bd bsp npf addr fmt w = None"
proof -
  have none: "log_text bd bsp npf Fmt_time (\<lambda>_. LOG_PRINTF_BUFF_SIZE) 512 (startCNT64_printf w - SysTickCNT w) fmt b = None"
    if "length b = 512" for b
  proof -
    from log_text_stamp [OF assms(1,2,7) that] obtain b1 where b1: "length b1 = 512"
      "log_text bd bsp npf Fmt_time (\<lambda>_. LOG_PRINTF_BUFF_SIZE) 512 (startCNT64_printf w - SysTickCNT w) fmt b =
        npf fmt (length (txt f)) LOG_PRINTF_BUFF_SIZE b1 \<bind>
          (\<lambda>(print_size2, buf2). Some (print_size2 + of_nat (length (txt f)), buf2))" by blast
    have "npf fmt (length (txt f)) LOG_PRINTF_BUFF_SIZE b1 = None"
      by (subst npf_okD [OF assms(1), where k = "min (length (txt fmt)) 510"])
        (use assms(6,8) b1(1) in \<open>simp_all add: LOG_PRINTF_BUFF_SIZE_def\<close>)
    then show ?thesis using b1(2) by simp
  qed
  show ?thesis using none [OF assms(4)] none [OF assms(5)] by (simp add: vlog_printf_def vlog_serdes_def assms(3))
qed

theorem log_printf_long_message_overflows_witness:
  "vlog_printf demo_build demo_bsp demo_npf (replicate 512 0) (Fmt_user 0 (replicate 509 65)) (demo_log []) = None \<and>
    vlog_serdes demo_build demo_bsp demo_npf 0x20020000 (Fmt_user 0 (replicate 509 65)) (demo_log []) = None"
  by (rule log_printf_long_message_overflows [OF demo_npf_ok, where f = "Fmt_time 0 0 0"])
    (simp_all add: log_stamp_def demo_build_def log_timestamp_def demo_bsp_def demo_log_def demo_txt_def)

text \<open>
  \<open>log_if\<close> cuts a message that is too long in its buffer, but sends the length it would have had: with more
  than 512 bytes for stamp and message, what it hands to the output reaches past the end of the
  buffer on its stack.
\<close>

theorem log_if_long_message_overreads:
  assumes "LOG_TYPE bd \<noteq> LOG_TYPE_PRINTF_NO_INTERRUPT" and "log_passes bd prio lid" and "npf_ok txt npf"
    and "log_stamp bd bsp Fmt_time (startCNT64 w - SysTickCNT w) = Some f" and "length buf = 512" and "length (txt f) \<le> 511"
    and "512 < length (txt f) + length (txt fmt)" and "length (txt f) + length (txt fmt) < 2 ^ 32"
  shows "log_if bd bsp npf L buf prio lid fmt w = None"
proof -
  let ?n = "length (txt f) + length (txt fmt)" and ?sz = "512 - of_nat (length (txt f)) :: u32"
  let ?k = "min (length (txt fmt)) (unat ?sz - 1)"
  from log_text_stamp [OF assms(3,4,6,5)] obtain b1 where b1: "length b1 = 512"
    "log_text bd bsp npf Fmt_time (\<lambda>n. 512 - n) 512 (startCNT64 w - SysTickCNT w) fmt buf =
      npf fmt (length (txt f)) ?sz b1 \<bind> (\<lambda>(print_size2, buf2). Some (print_size2 + of_nat (length (txt f)), buf2))" by blast
  have "unat (of_nat (length (txt f)) :: u32) = length (txt f)"
    using assms(6) by (simp add: unsigned_of_nat take_bit_nat_eq_self)
  then have room: "unat ?sz = 512 - length (txt f)" using assms(6) by (subst unat_sub) (simp_all add: word_le_nat_alt)
  then have "?sz \<noteq> 0" using assms(6) by auto
  then have "npf fmt (length (txt f)) ?sz b1 = (if length (txt f) + ?k + 1 \<le> length b1
      then Some (of_nat (length (txt fmt)), take (length (txt f)) b1 @ take ?k (txt fmt) @ [0] @ drop (length (txt f) + ?k + 1) b1)
      else None)" by (rule npf_okD [OF assms(3) _ refl])
  moreover have fits: "length (txt f) + ?k + 1 \<le> length b1" using b1(1) room assms(6) by simp
  ultimately have "npf fmt (length (txt f)) ?sz b1 = Some (of_nat (length (txt fmt)),
      take (length (txt f)) b1 @ take ?k (txt fmt) @ [0] @ drop (length (txt f) + ?k + 1) b1)" by (rule trans [OF _ if_P])
  moreover have "length (take (length (txt f)) b1 @ take ?k (txt fmt) @ [0] @ drop (length (txt f) + ?k + 1) b1) = 512"
    using fits b1(1) by simp
  ultimately obtain b2 where b2: "npf fmt (length (txt f)) ?sz b1 = Some (of_nat (length (txt fmt)), b2)" "length b2 = 512"
    by blast
  have n: "unat (of_nat ?n :: u32) = ?n" using assms(8) by (simp add: unsigned_of_nat take_bit_nat_eq_self del: of_nat_add)
  then have "(of_nat ?n :: u32) \<noteq> 0" using assms(7) by (metis unat_0 not_less_zero)
  moreover have "log_write bd L b2 (of_nat ?n) w = None"
    using assms(1,7) n b2(2) by (cases "LOG_TYPE bd") (simp_all add: log_write_def write_to_stdout_def UART1_SendString_def
      write_to_buffer_def lwrb_write_at_def del: of_nat_add)
  moreover have "log_text bd bsp npf Fmt_time (\<lambda>n. 512 - n) 512 (startCNT64 w - SysTickCNT w) fmt buf = Some (of_nat ?n, b2)"
    using b1(2) b2(1) by (simp add: add.commute)
  ultimately show ?thesis using assms(2) by (simp add: log_if_def del: of_nat_add)
qed

theorem log_if_long_message_overreads_witness:
  "log_if demo_build demo_bsp demo_npf demo_lwrb (replicate 512 0) 1 2 (Fmt_user 0 (replicate 510 65)) (demo_log []) = None"
  by (rule log_if_long_message_overreads [OF _ _ demo_npf_ok, where f = "Fmt_time 3 2 84"])
    (simp_all add: log_stamp_def demo_build_def log_timestamp_def demo_bsp_def demo_log_def demo_txt_def log_passes_def log_level_ok_def build_log_level_def)

end
