(* ===== verification/Debug_Board.thy ===== *)
theory Debug_Board
  imports Usb_Descriptors Usb2_Enumeration Usb2_Bulk Logging
begin

text \<open>
  The firmware of the debug board (\<open>tools/firmware_debug_board/User\<close>): a USB 2.0 device with four bulk
  endpoints that hands every packet it receives over SerDes to the host on endpoint 1. The world is that of
  the USB 2.0 backend, with the SerDes link, the time base of the logger and the variables of \<open>main.c\<close>
  beside it. Global objects are at addresses the linker chooses (\<open>board_map\<close>); the BSP functions that drive
  the pins act on a state of their own (\<open>board_hw\<close>). The build is the default one, whose \<open>LOG\<close> macros are empty.
\<close>

section \<open>The objects of the firmware\<close>

record board_map =
  A_usb2_descriptors :: u32
  A_usb2_device_configs :: u32
  A_usb_string_descriptors :: u32
  A_device_string_descriptors :: u32
  A_hydradancer_product_string_descriptor :: u32
  A_endp0_buffer :: u32
  A_endp1_rx_buffer :: u32
  A_endp2_rx_buffer :: u32
  A_RX_DMA_0 :: u32
  A_RX_DMA_1 :: u32
  A_endp1_tx_complete :: u32
  A_serdes_rx_callback :: u32

record 'h board_world = usb2_world +
  board_hw :: 'h
  board_serdes :: serdes_state
  board_log :: "unit log_world"
  serdes_user_handled :: usb_handler
  is_board1 :: bool
  blink_ms :: int
  usb_device_old_speed :: "USB_DEVICE_SPEED option"

text \<open>What the firmware calls of the BSP besides the USB and SerDes drivers.\<close>

datatype bsp_board = BSP_BOARD1 | BSP_BOARD2

record 'h board_bsp =
  board_gpio_init :: "'h \<Rightarrow> 'h"
  board_init :: "int \<Rightarrow> 'h \<Rightarrow> 'h"
  board_switch :: "'h \<Rightarrow> u8"
  board_sync2boards :: "u32 \<Rightarrow> u32 \<Rightarrow> bsp_board \<Rightarrow> 'h \<Rightarrow> u32 \<times> 'h"
  board_uled_on :: "'h \<Rightarrow> 'h"
  board_uled_off :: "'h \<Rightarrow> 'h"
  board_ubtn :: "'h \<Rightarrow> bool"
  board_wait_ms_delay :: "int \<Rightarrow> 'h \<Rightarrow> 'h"
  PA12 :: u32
  PA14 :: u32

definition wr_mem :: "u32 \<Rightarrow> u8 list \<Rightarrow> 'a usb2_world_scheme \<Rightarrow> 'a usb2_world_scheme" where
  "wr_mem a bs w = w\<lparr>usb_memory := mem_write a bs (usb_memory w)\<rparr>"

section \<open>\<open>usb2_device_descriptors.h\<close>\<close>

definition board_device_descr :: USB_DEV_DESCR where
  "board_device_descr = \<lparr>dd_bLength = 0x12, dd_bDescriptorType = 0x01, dd_bcdUSB = 0x0200, dd_bDeviceClass = 0x00,
     dd_bDeviceSubClass = 0x00, dd_bDeviceProtocol = 0x00, dd_bMaxPacketSize0 = 64, dd_idVendor = 0x16c0, dd_idProduct = 0x27d9,
     dd_bcdDevice = 0x0001, dd_iManufacturer = 0x00, dd_iProduct = 0x01, dd_iSerialNumber = 0x00, dd_bNumConfigurations = 0x01\<rparr>"

definition sizeof_other_descr :: "usb_layout \<Rightarrow> nat" where
  "sizeof_other_descr L = sizeof_CFG L + sizeof_ITF L + 4 * sizeof_ENDP L"

definition board_cfg_descr :: "usb_layout \<Rightarrow> USB_CFG_DESCR" where
  "board_cfg_descr L = \<lparr>cd_bLength = 0x09, cd_bDescriptorType = 0x02, cd_wTotalLength = of_nat (sizeof_other_descr L),
     cd_bNumInterfaces = 0x01, cd_bConfigurationValue = 0x01, cd_iConfiguration = 0x00, cd_bmAttributes = 0xa0, cd_MaxPower = 0x64\<rparr>"

definition board_itf_descr :: USB_ITF_DESCR where
  "board_itf_descr = \<lparr>id_bLength = 0x09, id_bDescriptorType = 0x04, id_bInterfaceNumber = 0x00, id_bAlternateSetting = 0x00,
     id_bNumEndpoints = 0x04, id_bInterfaceClass = 0xff, id_bInterfaceSubClass = 0xff, id_bInterfaceProtocol = 0xff, id_iInterface = 0x00\<rparr>"

text \<open>The four endpoint descriptors differ in address and interval.\<close>

definition board_endp_descr :: "u8 \<Rightarrow> u8 \<Rightarrow> USB_ENDP_DESCR" where
  "board_endp_descr a interval = \<lparr>ed_bLength = 0x07, ed_bDescriptorType = 0x05, ed_bEndpointAddress = a AND ENDPOINT_DESCRIPTOR_ADDRESS_MASK,
     ed_bmAttributes = ENDPOINT_DESCRIPTOR_BULK_TRANSFER, ed_wMaxPacketSizeL = 0x00, ed_wMaxPacketSizeH = 0x02, ed_bInterval = interval\<rparr>"

definition init_usb2_descriptors :: "usb_layout \<Rightarrow> board_map \<Rightarrow> 'a usb2_world_scheme \<Rightarrow> 'a usb2_world_scheme" where
  "init_usb2_descriptors L A w =
     (let other = A_usb2_descriptors A + of_nat (sizeof_DEV L);
          endp = other + of_nat (sizeof_CFG L) + of_nat (sizeof_ITF L);
          w1 = wr_mem (A_usb2_descriptors A) (lay_DEV L board_device_descr) w;
          w2 = wr_mem other (lay_CFG L (board_cfg_descr L)) w1;
          w3 = wr_mem (other + of_nat (sizeof_CFG L)) (lay_ITF L board_itf_descr) w2;
          w4 = wr_mem endp (lay_ENDP L (board_endp_descr (ENDPOINT_DESCRIPTOR_ADDRESS_OUT OR 0x01) 255)) w3;
          w5 = wr_mem (endp + of_nat (sizeof_ENDP L)) (lay_ENDP L (board_endp_descr (ENDPOINT_DESCRIPTOR_ADDRESS_IN OR 0x01) 0)) w4;
          w6 = wr_mem (endp + of_nat (2 * sizeof_ENDP L)) (lay_ENDP L (board_endp_descr (ENDPOINT_DESCRIPTOR_ADDRESS_OUT OR 0x02) 255)) w5;
          w7 = wr_mem (endp + of_nat (3 * sizeof_ENDP L)) (lay_ENDP L (board_endp_descr (ENDPOINT_DESCRIPTOR_ADDRESS_IN OR 0x02) 0)) w6
      in wr_mem (A_usb2_device_configs A) (le32 other) w7)"

section \<open>\<open>usb_device.h\<close>\<close>

definition ENDP_1_15_MAX_PACKET_SIZE :: u16 where "ENDP_1_15_MAX_PACKET_SIZE = 1024"
definition DEF_ENDP_OUT_BURST_LEVEL :: u8 where "DEF_ENDP_OUT_BURST_LEVEL = 4"
definition DEF_ENDP_IN_BURST_LEVEL :: u8 where "DEF_ENDP_IN_BURST_LEVEL = DEF_ENDP_OUT_BURST_LEVEL"

text \<open>\<open>sizeof\<close> the endpoint buffers.\<close>

definition sizeof_endp_buffer :: u16 where
  "sizeof_endp_buffer = ENDP_1_15_MAX_PACKET_SIZE * ucast DEF_ENDP_IN_BURST_LEVEL"

definition hydradancer_product_string_descriptor :: "u8 list" where
  "hydradancer_product_string_descriptor = concat (map (\<lambda>c. [of_char c, 0x00]) ''Hydradancer Debug board'')"

definition init_string_descriptors :: "board_map \<Rightarrow> 'a usb2_world_scheme \<Rightarrow> 'a usb2_world_scheme" where
  "init_string_descriptors A w =
     (let p = A_usb_string_descriptors A; n = length hydradancer_product_string_descriptor;
          w1 = wr_mem p (string_descr_bytes \<lparr>sd_bLength = 2 + 2, sd_bDescriptorType = 0x03\<rparr>) w;
          w2 = wr_mem (p + 2) (le16 0x0409) w1;
          w3 = wr_mem (p + 4) (string_descr_bytes \<lparr>sd_bLength = of_nat (2 + n), sd_bDescriptorType = 0x03\<rparr>) w2;
          w4 = w3\<lparr>usb_memory := mem_copy (p + 6) (A_hydradancer_product_string_descriptor A) n (usb_memory w3)\<rparr>;
          w5 = wr_mem (A_device_string_descriptors A) (le32 p) w4
      in wr_mem (A_device_string_descriptors A + 4) (le32 (p + 4)) w5)"

text \<open>The settings every endpoint gets.\<close>

definition board_endpoint :: "u32 \<Rightarrow> u8 \<Rightarrow> usb_endpoint \<Rightarrow> usb_endpoint" where
  "board_endpoint buf st p = p\<lparr>ep_buffer := buf, ep_max_packet_size := ENDP_1_15_MAX_PACKET_SIZE, ep_max_burst := DEF_ENDP_OUT_BURST_LEVEL,
     ep_max_packet_size_with_burst := sizeof_endp_buffer, ep_state := st\<rparr>"

definition init_endpoints :: "board_map \<Rightarrow> 'a usb2_world_scheme \<Rightarrow> 'a usb2_world_scheme" where
  "init_endpoints A w =
     (let w1 = upd_device Usb_device_0 (upd_ep_rx 0 (board_endpoint (A_endp0_buffer A) ENDP_STATE_ACK)) w;
          w2 = upd_device Usb_device_0 (upd_ep_rx 1 (board_endpoint (A_endp1_rx_buffer A) ENDP_STATE_ACK)) w1;
          w3 = upd_device Usb_device_0 (upd_ep_tx 1 (board_endpoint 0 ENDP_STATE_NAK)) w2;
          w4 = upd_device Usb_device_0 (upd_ep_rx 2 (board_endpoint (A_endp2_rx_buffer A) ENDP_STATE_ACK)) w3
      in upd_device Usb_device_0 (upd_ep_tx 2 (board_endpoint 0 ENDP_STATE_NAK)) w4)"

section \<open>\<open>main.c\<close>\<close>

definition FREQ_SYS :: int where "FREQ_SYS = 120000000"

definition BLINK_FAST :: int where "BLINK_FAST = 50"
definition BLINK_USB3 :: int where "BLINK_USB3 = 250"
definition BLINK_USB2 :: int where "BLINK_USB2 = 1000"

definition endp1_tx_complete :: "TRANSACTION_STATUS \<Rightarrow> 'w \<Rightarrow> 'w option" where
  "endp1_tx_complete status w = Some w"

text \<open>The result of \<open>endp_tx_set_new_buffer\<close> is ignored.\<close>

definition serdes_rx_callback ::
    "('a usb_world_scheme) usb_backends \<Rightarrow> u32 \<Rightarrow> u16 \<Rightarrow> u16 \<Rightarrow> 'a usb_world_scheme \<Rightarrow> 'a usb_world_scheme option" where
  "serdes_rx_callback be buffer n custom_register w = map_option snd (endp_tx_set_new_buffer be Usb_device_0 1 buffer n w)"

definition on_hw :: "('h \<Rightarrow> 'h) \<Rightarrow> 'h board_world \<Rightarrow> 'h board_world" where
  "on_hw f w = w\<lparr>board_hw := f (board_hw w)\<rparr>"

definition board_mask :: u32 where
  "board_mask = ENDPOINT_RX 1 OR ENDPOINT_TX 1 OR ENDPOINT_RX 2 OR ENDPOINT_TX 2"

text \<open>\<open>main\<close> up to its loop: the board and its peer, the descriptors and settings of the device, the drivers.\<close>

definition board_setup_hw :: "'h board_bsp \<Rightarrow> 'h board_world \<Rightarrow> 'h board_world" where
  "board_setup_hw B w =
     (let w1 = on_hw (board_init B FREQ_SYS) (on_hw (board_gpio_init B) w);
          one = (board_switch B (board_hw w1) \<noteq> 0);
          w2 = w1\<lparr>is_board1 := one\<rparr>;
          w3 = on_hw (\<lambda>h. snd (board_sync2boards B (PA14 B) (PA12 B) (if one then BSP_BOARD1 else BSP_BOARD2) h)) w2;
          w4 = w3\<lparr>board_log := log_time_init (board_log w3)\<rparr>
      in on_hw (board_uled_off B) (on_hw (board_uled_on B) w4))"

definition board_setup_usb :: "usb_layout \<Rightarrow> board_map \<Rightarrow> 'h board_world \<Rightarrow> 'h board_world" where
  "board_setup_usb L A w =
     (let w1 = upd_device Usb_device_0 (\<lambda>v. v\<lparr>endpoints := (endpoints v)\<lparr>tx_complete := (tx_complete (endpoints v))(1 := User_handler (A_endp1_tx_complete A))\<rparr>\<rparr>) w;
          w2 = w1\<lparr>serdes_user_handled := User_handler (A_serdes_rx_callback A)\<rparr>;
          w3 = init_string_descriptors A (init_usb2_descriptors L A w2);
          w4 = usb_device_set_usb2_device_descriptor Usb_device_0 (A_usb2_descriptors A) w3;
          w5 = usb_device_set_usb2_config_descriptors Usb_device_0 (A_usb2_device_configs A) w4;
          w6 = usb_device_set_string_descriptors Usb_device_0 (A_device_string_descriptors A) w5;
          w7 = usb_device_set_endpoint_mask Usb_device_0 board_mask w6
      in init_endpoints A w7)"

definition main_setup ::
    "usb_consts \<Rightarrow> ('h board_world) usb_env \<Rightarrow> usb_layout \<Rightarrow> board_map \<Rightarrow> 'h board_bsp \<Rightarrow> serdes_bsp \<Rightarrow> serdes_bits \<Rightarrow>
     'h board_world \<Rightarrow> 'h board_world option" where
  "main_setup k e L A B sb bits w = do {
     w1 \<leftarrow> usb2_device_init k e (board_setup_usb L A (board_setup_hw B w));
     Some (w1\<lparr>board_serdes := serdes_init sb bits (A_RX_DMA_0 A) (A_RX_DMA_1 A) SERDES_TYPE_DEVICE 4096 (board_serdes w1)\<rparr>) }"

text \<open>The body of the endless loop, which shows the state of the device with the LED.\<close>

definition board_blink :: "'h board_bsp \<Rightarrow> int \<Rightarrow> 'h board_world \<Rightarrow> 'h board_world" where
  "board_blink B ms w =
     (let w1 = on_hw (board_uled_on B) (w\<lparr>blink_ms := ms\<rparr>);
          w2 = on_hw (board_wait_ms_delay B (blink_ms w1)) w1;
          w3 = on_hw (board_uled_off B) w2
      in on_hw (board_wait_ms_delay B (blink_ms w3)) w3)"

definition main_loop_body :: "'h board_bsp \<Rightarrow> 'h board_world \<Rightarrow> 'h board_world" where
  "main_loop_body B w =
     (let v = usb_devices w Usb_device_0;
          seen = (if usb_device_old_speed w \<noteq> Some (dev_speed v) then w\<lparr>usb_device_old_speed := Some (dev_speed v)\<rparr> else w)
      in if board_ubtn B (board_hw w) then board_blink B BLINK_FAST w
         else if dev_state v = CONFIGURED then
           (case dev_speed v of
              USB2_LOWSPEED \<Rightarrow> board_blink B BLINK_USB2 seen
            | USB2_FULLSPEED \<Rightarrow> board_blink B BLINK_USB2 seen
            | USB2_HIGHSPEED \<Rightarrow> board_blink B BLINK_USB2 seen
            | USB30_SUPERSPEED \<Rightarrow> board_blink B BLINK_USB3 seen
            | SPEED_NONE \<Rightarrow> on_hw (board_uled_on B) w)
         else on_hw (board_uled_on B) w)"

section \<open>The SerDes interrupt on the board\<close>

text \<open>The events of \<open>SERDES_IRQHandler\<close> are the calls of the callback. It works on the USB side of the world and
  the handler on the link, so the calls may be run after the handler.\<close>

definition call_serdes_rx :: "('h board_world) usb_backends \<Rightarrow> board_map \<Rightarrow> serdes_event \<Rightarrow> 'h board_world \<Rightarrow> 'h board_world option" where
  "call_serdes_rx be A ev w = (case ev of (buffer, n, custom_register) \<Rightarrow>
     (case serdes_user_handled w of
        Default_handler \<Rightarrow> Some w
      | User_handler a \<Rightarrow> if a = A_serdes_rx_callback A then serdes_rx_callback be buffer n custom_register w else None))"

primrec call_serdes_events :: "('h board_world) usb_backends \<Rightarrow> board_map \<Rightarrow> serdes_event list \<Rightarrow> 'h board_world \<Rightarrow> 'h board_world option" where
  "call_serdes_events be A [] w = Some w"
| "call_serdes_events be A (ev # evs) w = do { w1 \<leftarrow> call_serdes_rx be A ev w; call_serdes_events be A evs w1 }"

definition board_SERDES_IRQHandler ::
    "('h board_world) usb_backends \<Rightarrow> board_map \<Rightarrow> serdes_bsp \<Rightarrow> serdes_bits \<Rightarrow> 'h board_world \<Rightarrow> 'h board_world option" where
  "board_SERDES_IRQHandler be A sb bits w =
     (case SERDES_IRQHandler sb bits (A_RX_DMA_0 A) (A_RX_DMA_1 A) (board_serdes w) of
        (evs, s) \<Rightarrow> call_serdes_events be A evs (w\<lparr>board_serdes := s\<rparr>))"

section \<open>The linked objects\<close>

text \<open>The linker gives every object a place of its own.\<close>

definition separate :: "u32 \<times> nat \<Rightarrow> u32 \<times> nat \<Rightarrow> bool" where
  "separate x y \<longleftrightarrow> unat (fst x) + snd x \<le> unat (fst y) \<or> unat (fst y) + snd y \<le> unat (fst x)"

definition board_objects :: "board_map \<Rightarrow> (u32 \<times> nat) list" where
  "board_objects A = [(A_usb2_descriptors A, 64), (A_usb2_device_configs A, 4), (A_usb_string_descriptors A, 52),
     (A_device_string_descriptors A, 8), (A_hydradancer_product_string_descriptor A, 46), (A_endp0_buffer A, 4096),
     (A_endp1_rx_buffer A, 4096), (A_endp2_rx_buffer A, 4096), (A_RX_DMA_0 A, 4096), (A_RX_DMA_1 A, 4096)]"

definition board_linked :: "board_map \<Rightarrow> bool" where
  "board_linked A \<longleftrightarrow> sorted_wrt separate (board_objects A) \<and>
     list_all (\<lambda>(a, n). a \<noteq> 0 \<and> unat a + n < 2 ^ 32) (board_objects A)"

lemma separate_sym: "separate x y \<longleftrightarrow> separate y x"
  by (auto simp: separate_def)

lemma separate_apart:
  assumes "separate (a, n) (b, k)" and "unat a + n < 2 ^ 32" and "unat b + k < 2 ^ 32"
  shows "apart a n b k"
proof (cases "unat a + n \<le> unat b")
  case True
  have "b = a + of_nat (unat b - unat a)" using True by (simp add: of_nat_diff)
  then show ?thesis using True assms(3) by (intro apart_after [of n "unat b - unat a"]) simp_all
next
  case False
  then have ba: "unat b + k \<le> unat a" using assms(1) by (simp add: separate_def)
  have "unat (a + of_nat i - b) = unat a + i - unat b" if "i < n" for i
  proof -
    have "(of_nat (unat a + i - unat b) :: u32) = a + of_nat i - b" using ba by (simp add: of_nat_diff)
    then have "unat (a + of_nat i - b) = unat (of_nat (unat a + i - unat b) :: u32)" by simp
    also have "\<dots> = unat a + i - unat b" using assms(2) that by (intro unat_of_nat_u32) simp
    finally show ?thesis .
  qed
  then show ?thesis unfolding apart_def using ba by (metis add_le_imp_le_diff add.commute le_diff_conv2 trans_le_add1)
qed

lemma linked_apart:
  assumes "board_linked A" and "i < length (board_objects A)" and "j < length (board_objects A)" and "i \<noteq> j"
  shows "apart (fst (board_objects A ! i)) (snd (board_objects A ! i)) (fst (board_objects A ! j)) (snd (board_objects A ! j))"
proof (rule separate_apart)
  have ok: "\<forall>x \<in> set (board_objects A). unat (fst x) + snd x < 2 ^ 32"
    using assms(1) by (auto simp: board_linked_def list_all_iff)
  show "unat (fst (board_objects A ! i)) + snd (board_objects A ! i) < 2 ^ 32" using ok nth_mem [OF assms(2)] by blast
  show "unat (fst (board_objects A ! j)) + snd (board_objects A ! j) < 2 ^ 32" using ok nth_mem [OF assms(3)] by blast
  have "separate (board_objects A ! i) (board_objects A ! j)"
  proof (cases "i < j")
    case True
    then show ?thesis using assms(1,3) sorted_wrt_nth_less by (auto simp: board_linked_def)
  next
    case False
    then have "j < i" using assms(4) by simp
    then have "separate (board_objects A ! j) (board_objects A ! i)"
      using assms(1,2) sorted_wrt_nth_less by (auto simp: board_linked_def)
    then show ?thesis by (simp add: separate_sym)
  qed
  then show "separate (fst (board_objects A ! i), snd (board_objects A ! i)) (fst (board_objects A ! j), snd (board_objects A ! j))"
    by simp
qed

section \<open>Writing objects field by field\<close>

lemma mem_write_append:
  assumes "length xs + length ys \<le> 2 ^ 32" and "b = a + of_nat (length xs)"
  shows "mem_write b ys (mem_write a xs m) = mem_write a (xs @ ys) m"
proof (cases "ys = []")
  case True
  then show ?thesis by (simp add: mem_write_def)
next
  case False
  then have l: "unat (of_nat (length xs) :: u32) = length xs"
    using assms(1) by (intro unat_of_nat_u32) (cases ys, simp_all)
  show ?thesis
  proof
    fix x
    have "x - b = (x - a) - of_nat (length xs)" using assms(2) by simp
    then have u: "unat (x - b) = (if unat (x - a) < length xs then unat (x - a) + 2 ^ 32 - length xs else unat (x - a) - length xs)"
      by (simp only: unat_sub_if' l) (simp add: not_le)
    show "mem_write b ys (mem_write a xs m) x = mem_write a (xs @ ys) m x"
      using u assms(1) by (auto simp: mem_write_def nth_append)
  qed
qed

lemma mem_copy_write: "n \<le> 2 ^ 32 \<Longrightarrow> mem_copy dst src n m = mem_write dst (mem_bytes m src n) m"
  by (rule ext) (simp add: mem_copy_def mem_write_def mem_bytes_def)

lemma mem_bytes_part: "i + n \<le> N \<Longrightarrow> mem_bytes m (a + of_nat i) n = take n (drop i (mem_bytes m a N))"
  by (rule nth_equalityI) (simp_all add: mem_bytes_def algebra_simps)

lemma mem_bytes_apart: "apart a n b (length bs) \<Longrightarrow> mem_bytes (mem_write b bs m) a n = mem_bytes m a n"
  by (rule nth_equalityI) (simp_all add: mem_bytes_def mem_write_other apart_def)

section \<open>The descriptors in memory\<close>

definition board_device_bytes :: "u8 list" where
  "board_device_bytes = [0x12, 0x01, 0x00, 0x02, 0x00, 0x00, 0x00, 64, 0xc0, 0x16, 0xd9, 0x27, 0x01, 0x00, 0x00, 0x01, 0x00, 0x01]"

definition board_descriptors :: "u8 list list" where
  "board_descriptors = [[0x09, 0x02, 46, 0x00, 0x01, 0x01, 0x00, 0xa0, 0x64], [0x09, 0x04, 0x00, 0x00, 0x04, 0xff, 0xff, 0xff, 0x00],
     [0x07, 0x05, 0x01, 0x02, 0x00, 0x02, 255], [0x07, 0x05, 0x81, 0x02, 0x00, 0x02, 0],
     [0x07, 0x05, 0x02, 0x02, 0x00, 0x02, 255], [0x07, 0x05, 0x82, 0x02, 0x00, 0x02, 0]]"

definition board_strings :: "u8 list list" where
  "board_strings = [[4, 3, 0x09, 0x04], [48, 3] @ hydradancer_product_string_descriptor]"

lemma board_bytes_length [simp]:
  "length board_device_bytes = 18" "length (concat board_descriptors) = 46" "length hydradancer_product_string_descriptor = 46"
  "length (concat board_strings) = 52"
  by (simp_all add: board_device_bytes_def board_descriptors_def board_strings_def hydradancer_product_string_descriptor_def)

lemma lay_board:
  assumes "usb_layout_ok k L"
  shows "lay_DEV L board_device_descr = board_device_bytes" "sizeof_other_descr L = 46"
    "lay_CFG L (board_cfg_descr L) @ lay_ITF L board_itf_descr @ lay_ENDP L (board_endp_descr (ENDPOINT_DESCRIPTOR_ADDRESS_OUT OR 0x01) 255) @
       lay_ENDP L (board_endp_descr (ENDPOINT_DESCRIPTOR_ADDRESS_IN OR 0x01) 0) @
       lay_ENDP L (board_endp_descr (ENDPOINT_DESCRIPTOR_ADDRESS_OUT OR 0x02) 255) @
       lay_ENDP L (board_endp_descr (ENDPOINT_DESCRIPTOR_ADDRESS_IN OR 0x02) 0) = concat board_descriptors"
    "length (lay_CFG L c) = 9" "length (lay_ITF L i) = 9" "length (lay_ENDP L p) = 7"
  using assms
  by (simp_all add: usb_layout_ok_def board_device_descr_def board_device_bytes_def sizeof_other_descr_def board_cfg_descr_def
      board_itf_descr_def board_endp_descr_def board_descriptors_def endpoint_descriptor_defs le16_def)

lemma wr_mem_memory [simp]: "usb_memory (wr_mem a bs w) = mem_write a bs (usb_memory w)"
  by (simp add: wr_mem_def)

lemma usb2_descriptors_memory:
  assumes L: "usb_layout_ok k L"
  shows "usb_memory (init_usb2_descriptors L A w) =
    mem_write (A_usb2_device_configs A) (le32 (A_usb2_descriptors A + 18))
      (mem_write (A_usb2_descriptors A) (board_device_bytes @ concat board_descriptors) (usb_memory w))"
proof -
  have sz: "sizeof_DEV L = 18" "sizeof_CFG L = 9" "sizeof_ITF L = 9" "sizeof_ENDP L = 7" using L by (simp_all add: usb_layout_ok_def)
  show ?thesis
    unfolding init_usb2_descriptors_def Let_def wr_mem_memory sz lay_board(1) [OF L]
    by (simp add: mem_write_append lay_board(4-6) [OF L] add.assoc lay_board(3) [OF L, symmetric])
qed

lemma string_descriptors_memory:
  assumes p: "mem_bytes (usb_memory w) (A_hydradancer_product_string_descriptor A) 46 = hydradancer_product_string_descriptor"
    and ap: "apart (A_hydradancer_product_string_descriptor A) 46 (A_usb_string_descriptors A) 52"
  shows "usb_memory (init_string_descriptors A w) =
    mem_write (A_device_string_descriptors A) (le32 (A_usb_string_descriptors A) @ le32 (A_usb_string_descriptors A + 4))
      (mem_write (A_usb_string_descriptors A) (concat board_strings) (usb_memory w))"
proof -
  have bs: "string_descr_bytes \<lparr>sd_bLength = 2 + 2, sd_bDescriptorType = 0x03\<rparr> @ le16 0x0409 @
      string_descr_bytes \<lparr>sd_bLength = of_nat (2 + 46), sd_bDescriptorType = 0x03\<rparr> @ hydradancer_product_string_descriptor =
      concat board_strings"
    by (simp add: string_descr_bytes_def board_strings_def le16_def)
  have "apart (A_hydradancer_product_string_descriptor A) 46 (A_usb_string_descriptors A) 6" using ap by (auto simp: apart_def)
  then have pr: "mem_bytes (mem_write (A_usb_string_descriptors A) bs (usb_memory w)) (A_hydradancer_product_string_descriptor A) 46 =
      hydradancer_product_string_descriptor" if "length bs = 6" for bs
    using p that by (simp add: mem_bytes_apart)
  show ?thesis
    unfolding init_string_descriptors_def Let_def
    by (simp add: mem_write_append descr_sizes mem_copy_write pr add.assoc bs [symmetric])
qed

lemma board_apart:
  assumes "board_linked A"
  shows "apart (A_usb2_descriptors A) 64 (A_usb2_device_configs A) 4" "apart (A_usb2_descriptors A) 64 (A_usb_string_descriptors A) 52"
    "apart (A_usb2_descriptors A) 64 (A_device_string_descriptors A) 8" "apart (A_usb2_device_configs A) 4 (A_usb_string_descriptors A) 52"
    "apart (A_usb2_device_configs A) 4 (A_device_string_descriptors A) 8" "apart (A_usb_string_descriptors A) 52 (A_device_string_descriptors A) 8"
    "apart (A_hydradancer_product_string_descriptor A) 46 (A_usb2_descriptors A) 64"
    "apart (A_hydradancer_product_string_descriptor A) 46 (A_usb2_device_configs A) 4"
    "apart (A_hydradancer_product_string_descriptor A) 46 (A_usb_string_descriptors A) 52"
    "apart (A_usb2_descriptors A) 64 (A_endp0_buffer A) 4096" "apart (A_usb2_device_configs A) 4 (A_endp0_buffer A) 4096"
    "apart (A_usb_string_descriptors A) 52 (A_endp0_buffer A) 4096" "apart (A_device_string_descriptors A) 8 (A_endp0_buffer A) 4096"
  using linked_apart [OF assms, of 0 1] linked_apart [OF assms, of 0 2] linked_apart [OF assms, of 0 3]
    linked_apart [OF assms, of 1 2] linked_apart [OF assms, of 1 3] linked_apart [OF assms, of 2 3]
    linked_apart [OF assms, of 4 0] linked_apart [OF assms, of 4 1] linked_apart [OF assms, of 4 2]
    linked_apart [OF assms, of 0 5] linked_apart [OF assms, of 1 5] linked_apart [OF assms, of 2 5] linked_apart [OF assms, of 3 5]
  by (simp_all add: board_objects_def)

lemma descriptors_in_memory:
  assumes L: "usb_layout_ok k L" and A: "board_linked A"
    and p: "mem_bytes (usb_memory w) (A_hydradancer_product_string_descriptor A) 46 = hydradancer_product_string_descriptor"
    and M: "M = usb_memory (init_string_descriptors A (init_usb2_descriptors L A w))"
  shows "mem_bytes M (A_usb2_descriptors A) 64 = board_device_bytes @ concat board_descriptors"
    "mem_bytes M (A_usb_string_descriptors A) 52 = concat board_strings"
    "load_u32 M (A_usb2_device_configs A) = A_usb2_descriptors A + 18"
    "load_u32 M (A_device_string_descriptors A) = A_usb_string_descriptors A"
    "load_u32 M (A_device_string_descriptors A + 4) = A_usb_string_descriptors A + 4"
proof -
  note ap = board_apart [OF A]
  let ?m = "mem_write (A_usb2_device_configs A) (le32 (A_usb2_descriptors A + 18))
      (mem_write (A_usb2_descriptors A) (board_device_bytes @ concat board_descriptors) (usb_memory w))"
  have "mem_bytes ?m (A_hydradancer_product_string_descriptor A) 46 = hydradancer_product_string_descriptor"
    using p ap(7,8) by (simp add: mem_bytes_apart)
  then have M: "M = mem_write (A_device_string_descriptors A) (le32 (A_usb_string_descriptors A) @ le32 (A_usb_string_descriptors A + 4))
      (mem_write (A_usb_string_descriptors A) (concat board_strings) ?m)"
    unfolding M usb2_descriptors_memory [OF L, symmetric] by (rule string_descriptors_memory [OF _ ap(9)])
  have s: "mem_bytes M (A_device_string_descriptors A) 8 = le32 (A_usb_string_descriptors A) @ le32 (A_usb_string_descriptors A + 4)"
    unfolding M by (rule mem_bytes_write) simp_all
  show "mem_bytes M (A_usb2_descriptors A) 64 = board_device_bytes @ concat board_descriptors"
    "mem_bytes M (A_usb_string_descriptors A) 52 = concat board_strings"
    unfolding M using ap(1-3,6) by (simp_all add: mem_bytes_apart mem_bytes_write)
  show "load_u32 M (A_usb2_device_configs A) = A_usb2_descriptors A + 18"
    unfolding M load_u32_bytes using ap(4,5) by (simp add: mem_bytes_apart mem_bytes_write)
  show "load_u32 M (A_device_string_descriptors A) = A_usb_string_descriptors A"
    "load_u32 M (A_device_string_descriptors A + 4) = A_usb_string_descriptors A + 4"
    using s mem_bytes_part [of 0 4 8 M "A_device_string_descriptors A"] mem_bytes_part [of 4 4 8 M "A_device_string_descriptors A"]
    by (simp_all add: load_u32_bytes)
qed

text \<open>The endpoint descriptors as the pairs of direction and number they describe.\<close>

definition endpoint_of :: "u8 list \<Rightarrow> bool \<times> nat" where
  "endpoint_of d = (d ! 2 AND ENDPOINT_DESCRIPTOR_ADDRESS_IN \<noteq> 0, unat (d ! 2 AND 0x0f))"

definition board_endpoints :: "(bool \<times> nat) set" where
  "board_endpoints = {(False, 1), (True, 1), (False, 2), (True, 2)}"

lemma board_mask_endpoints: "n \<in> {1..15} \<Longrightarrow> in_mask board_mask tx n \<longleftrightarrow> (tx, n) \<in> board_endpoints"
proof -
  assume "n \<in> {1..15}"
  then have "n \<in> {1,2,3,4,5,6,7,8,9,10,11,12,13,14,15}" unfolding insert_iff empty_iff atLeastAtMost_iff by presburger
  then show ?thesis
    by (elim insertE emptyE; cases tx;
        simp add: in_mask_def board_mask_def endpoint_bit_def ENDPOINT_TX_def ENDPOINT_RX_def board_endpoints_def)
qed

lemma board_mask_banks: "\<not> bank_conflict board_mask"
  unfolding table_exact [symmetric]
  by (simp add: usb2_incompatibles_endpoints_def ENDPOINT_TX_def ENDPOINT_RX_def board_mask_def)

lemma board_descriptors_ok: "list_all descriptor_ok board_descriptors" "list_all descriptor_ok board_strings"
  by (simp_all add: board_descriptors_def board_strings_def descriptor_ok_def)

text \<open>
  C22. The descriptors the debug board builds are well formed, whatever the linker's addresses: a host that reads
  \<open>wTotalLength\<close> bytes of the configuration and takes them apart by their lengths finds a configuration, an interface
  and as many endpoint descriptors as the interface announces; they describe exactly the endpoints the firmware puts in
  its endpoint mask, no two of which share a register bank; the device descriptor has its 18 bytes and announces
  packets of 64 bytes on endpoint 0, and each string descriptor ends where its length says.
\<close>

theorem debug_board_descriptors_wellformed:
  assumes "usb_layout_ok k L" and "board_linked A"
    and "mem_bytes (usb_memory w) (A_hydradancer_product_string_descriptor A) 46 = hydradancer_product_string_descriptor"
    and "M = usb_memory (init_string_descriptors A (init_usb2_descriptors L A w))"
  shows "\<exists>cfg itf eps. let p = load_u32 M (A_usb2_device_configs A) in
      split_descriptors (mem_bytes M p (unat (load_u16 M (p + off_CFG_wTotalLength k)))) = Some (cfg # itf # eps) \<and>
      map (\<lambda>d. d ! 1) (cfg # itf # eps) = [2, 4, 5, 5, 5, 5] \<and> length eps = unat (itf ! 4) \<and> cfg ! 4 = 1 \<and>
      (\<forall>tx. \<forall>n \<in> {1..15}. in_mask board_mask tx n \<longleftrightarrow> (tx, n) \<in> endpoint_of ` set eps) \<and> \<not> bank_conflict board_mask \<and>
      split_descriptors (mem_bytes M (A_usb2_descriptors A) (unat (M (A_usb2_descriptors A)))) = Some [board_device_bytes] \<and>
      M (A_usb2_descriptors A + off_DEV_bMaxPacketSize0 k) = 64 \<and>
      (\<forall>i < 2. let q = load_u32 M (A_device_string_descriptors A + of_nat (4 * i)) in
         split_descriptors (mem_bytes M q (unat (M q))) = Some [board_strings ! i])"
proof -
  let ?D = "A_usb2_descriptors A"
  note m = descriptors_in_memory [OF assms]
  have k: "off_CFG_wTotalLength k = 2" "off_DEV_bMaxPacketSize0 k = 7" using assms(1) by (simp_all add: usb_layout_ok_def)
  have D: "M (?D + of_nat i) = (board_device_bytes @ concat board_descriptors) ! i" if "i < 64" for i
    using mem_bytes_at [of M ?D "board_device_bytes @ concat board_descriptors" i] m(1) that by simp
  have S: "M (A_usb_string_descriptors A + of_nat i) = concat board_strings ! i" if "i < 52" for i
    using mem_bytes_at [of M "A_usb_string_descriptors A" "concat board_strings" i] m(2) that by simp
  have n: "load_u16 M (?D + 18 + 2) = 46" "M ?D = 18" "M (?D + 7) = 64"
    using D [of 20] D [of 21] D [of 0] D [of 7]
    by (simp_all add: load_u16_def add.assoc) (simp_all add: board_device_bytes_def board_descriptors_def)
  have cfg: "mem_bytes M (?D + 18) 46 = concat board_descriptors"
    using mem_bytes_part [of 18 46 64 M ?D] m(1) by simp
  have dev: "mem_bytes M ?D 18 = board_device_bytes" using mem_bytes_part [of 0 18 64 M ?D] m(1) by simp
  have sd: "mem_bytes M (A_usb_string_descriptors A) 4 = board_strings ! 0"
    "mem_bytes M (A_usb_string_descriptors A + 4) 48 = board_strings ! 1"
    using mem_bytes_part [of 0 4 52 M "A_usb_string_descriptors A"] mem_bytes_part [of 4 48 52 M "A_usb_string_descriptors A"] m(2)
    by (simp_all add: board_strings_def)
  have sn: "M (A_usb_string_descriptors A) = 4" "M (A_usb_string_descriptors A + 4) = 48"
    using S [of 0] S [of 4] by (simp_all add: board_strings_def)
  have sp: "split_descriptors (concat board_descriptors) = Some board_descriptors" "split_descriptors board_device_bytes = Some [board_device_bytes]"
    "split_descriptors (board_strings ! 0) = Some [board_strings ! 0]" "split_descriptors (board_strings ! 1) = Some [board_strings ! 1]"
    unfolding split_descriptors_iff using board_descriptors_ok
    by (simp_all add: board_device_bytes_def descriptor_ok_def board_strings_def)
  have eps: "endpoint_of ` set (drop 2 board_descriptors) = board_endpoints"
    by (auto simp: endpoint_of_def board_descriptors_def board_endpoints_def endpoint_descriptor_defs)
  have str: "split_descriptors (mem_bytes M q (unat (M q))) = Some [board_strings ! i]"
    if "i < 2" and "q = load_u32 M (A_device_string_descriptors A + of_nat (4 * i))" for i q
  proof -
    from that(1) consider "i = 0" | "i = 1" by linarith
    then show ?thesis using that(2) m(4,5) sd sn sp(3,4) by cases simp_all
  qed
  show ?thesis
    unfolding Let_def k
    by (rule exI [of _ "board_descriptors ! 0"], rule exI [of _ "board_descriptors ! 1"], rule exI [of _ "drop 2 board_descriptors"])
      (use m(3) n cfg dev sp eps str board_mask_banks in \<open>simp add: board_mask_endpoints, simp add: board_descriptors_def\<close>)
qed

text \<open>A linked board in its initial state.\<close>

definition demo_map :: board_map where
  "demo_map = \<lparr>A_usb2_descriptors = 0x20000000, A_usb2_device_configs = 0x20000100, A_usb_string_descriptors = 0x20000200,
     A_device_string_descriptors = 0x20000300, A_hydradancer_product_string_descriptor = 0x20000400, A_endp0_buffer = 0x20020000,
     A_endp1_rx_buffer = 0x20021000, A_endp2_rx_buffer = 0x20022000, A_RX_DMA_0 = 0x20023000, A_RX_DMA_1 = 0x20024000,
     A_endp1_tx_complete = 0x100, A_serdes_rx_callback = 0x200\<rparr>"

definition demo_layout :: usb_layout where
  "demo_layout = \<lparr>lay_DEV = (\<lambda>d. [dd_bLength d, dd_bDescriptorType d] @ le16 (dd_bcdUSB d) @ [dd_bDeviceClass d, dd_bDeviceSubClass d,
       dd_bDeviceProtocol d, dd_bMaxPacketSize0 d] @ le16 (dd_idVendor d) @ le16 (dd_idProduct d) @ le16 (dd_bcdDevice d) @
       [dd_iManufacturer d, dd_iProduct d, dd_iSerialNumber d, dd_bNumConfigurations d]),
     lay_CFG = (\<lambda>d. [cd_bLength d, cd_bDescriptorType d] @ le16 (cd_wTotalLength d) @ [cd_bNumInterfaces d,
       cd_bConfigurationValue d, cd_iConfiguration d, cd_bmAttributes d, cd_MaxPower d]),
     lay_ITF = (\<lambda>d. [id_bLength d, id_bDescriptorType d, id_bInterfaceNumber d, id_bAlternateSetting d, id_bNumEndpoints d,
       id_bInterfaceClass d, id_bInterfaceSubClass d, id_bInterfaceProtocol d, id_iInterface d]),
     lay_ENDP = (\<lambda>d. [ed_bLength d, ed_bDescriptorType d, ed_bEndpointAddress d, ed_bmAttributes d, ed_wMaxPacketSizeL d,
       ed_wMaxPacketSizeH d, ed_bInterval d]),
     sizeof_DEV = 18, sizeof_CFG = 9, sizeof_ITF = 9, sizeof_ENDP = 7\<rparr>"

definition demo_ram :: mem where
  "demo_ram = mem_write 0x20000400 hydradancer_product_string_descriptor (\<lambda>_. 0)"

lemma demo_board_ok:
  "usb_layout_ok demo_consts demo_layout" "board_linked demo_map"
  "mem_bytes demo_ram (A_hydradancer_product_string_descriptor demo_map) 46 = hydradancer_product_string_descriptor"
  by (simp add: usb_layout_ok_def demo_layout_def demo_consts_def,
      simp add: board_linked_def board_objects_def demo_map_def separate_def,
      simp add: demo_ram_def demo_map_def mem_bytes_write)

theorem debug_board_descriptors_wellformed_witness:
  "\<exists>M cfg itf eps. M = usb_memory (init_string_descriptors demo_map (init_usb2_descriptors demo_layout demo_map (demo_usb2\<lparr>usb_memory := demo_ram\<rparr>))) \<and>
     split_descriptors (mem_bytes M (load_u32 M 0x20000100) (unat (load_u16 M (load_u32 M 0x20000100 + 2)))) = Some (cfg # itf # eps) \<and>
     length eps = unat (itf ! 4) \<and> M 0x20000007 = 64"
proof -
  have p: "mem_bytes (usb_memory (demo_usb2\<lparr>usb_memory := demo_ram\<rparr>)) (A_hydradancer_product_string_descriptor demo_map) 46 =
      hydradancer_product_string_descriptor" using demo_board_ok(3) by simp
  from debug_board_descriptors_wellformed [OF demo_board_ok(1,2) p refl] show ?thesis
    unfolding Let_def by (auto simp: demo_map_def demo_consts_def)
qed

end
