(* ===== verification/Debug_Board_Run.thy ===== *)
theory Debug_Board_Run
  imports Debug_Board
begin

text \<open>
  The debug board at work: what \<open>main\<close> sets up, how a host enumerates it, and how packets from SerDes reach the host.
  \<open>board_running\<close> is the state in which the board forwards packets; booting and enumeration lead to it, and forwarding a
  packet keeps it.
\<close>

section \<open>Booting\<close>

text \<open>What the firmware relies on: its handler is the one at its address, enabling an interrupt touches only the interrupt
  controller, and the SerDes functions leave the driver's variable alone.\<close>

definition board_env :: "board_map \<Rightarrow> ('h board_world) usb_env \<Rightarrow> bool" where
  "board_env A e \<longleftrightarrow> env_tx_complete e (A_endp1_tx_complete A) = endp1_tx_complete \<and> (\<forall>w. PFIC_EnableIRQ e USBHS_IRQn w = w)"

definition serdes_bsp_ok :: "serdes_bsp \<Rightarrow> serdes_bits \<Rightarrow> bool" where
  "serdes_bsp_ok sb bits \<longleftrightarrow> (\<forall>s. SerDes_StatusIT sb s AND SDS_RX_INT_FLG bits \<noteq> 0) \<and>
     (\<forall>s. current_rx_dma (SerDes_Rx_Init sb s) = current_rx_dma s) \<and>
     (\<forall>s. current_rx_dma (PFIC_EnableIRQ_serdes sb s) = current_rx_dma s) \<and>
     (\<forall>a b s. current_rx_dma (SerDes_DoubleDMA_Rx_CFG sb a b s) = current_rx_dma s) \<and>
     (\<forall>f s. current_rx_dma (SerDes_EnableIT sb f s) = current_rx_dma s) \<and>
     (\<forall>f s. current_rx_dma (SerDes_ClearIT sb f s) = current_rx_dma s)"

text \<open>The device as the setters and \<open>init_endpoints\<close> leave it.\<close>

definition board_device :: "board_map \<Rightarrow> usb_device" where
  "board_device A = upd_ep_tx 2 (board_endpoint 0 ENDP_STATE_NAK) (upd_ep_rx 2 (board_endpoint (A_endp2_rx_buffer A) ENDP_STATE_ACK)
     (upd_ep_tx 1 (board_endpoint 0 ENDP_STATE_NAK) (upd_ep_rx 1 (board_endpoint (A_endp1_rx_buffer A) ENDP_STATE_ACK)
     (upd_ep_rx 0 (board_endpoint (A_endp0_buffer A) ENDP_STATE_ACK) (usb_device_initial\<lparr>
        usb_descriptors := (usb_descriptors usb_device_initial)\<lparr>usb2_device_descr := A_usb2_descriptors A,
          usb2_device_config_descrs := A_usb2_device_configs A, usb_string_descrs := A_device_string_descriptors A\<rparr>,
        endpoint_mask := board_mask,
        endpoints := (endpoints usb_device_initial)\<lparr>tx_complete := (\<lambda>_. Default_handler)(1 := User_handler (A_endp1_tx_complete A))\<rparr>\<rparr>)))))"

lemma board_device_simps [simp]:
  "usb2_device_descr (usb_descriptors (board_device A)) = A_usb2_descriptors A"
  "usb2_device_config_descrs (usb_descriptors (board_device A)) = A_usb2_device_configs A"
  "usb_string_descrs (usb_descriptors (board_device A)) = A_device_string_descriptors A"
  "endpoint_mask (board_device A) = board_mask" "dev_speed (board_device A) = USB2_HIGHSPEED"
  "ep_buffer (ep_rx (endpoints (board_device A)) 0) = A_endp0_buffer A"
  "ep_max_packet_size (ep_tx (endpoints (board_device A)) (Suc 0)) = 1024"
  "ep_max_packet_size_with_burst (ep_tx (endpoints (board_device A)) (Suc 0)) = 4096"
  "ep_state (ep_tx (endpoints (board_device A)) (Suc 0)) = ENDP_STATE_NAK"
  "tx_complete (endpoints (board_device A)) (Suc 0) = User_handler (A_endp1_tx_complete A)"
  "ep_max_packet_size (ep_rx (endpoints (board_device A)) n) \<le> 1024" "current_config (board_device A) = 0"
  by (simp_all add: board_device_def upd_ep_tx_def upd_ep_rx_def board_endpoint_def ENDP_1_15_MAX_PACKET_SIZE_def
      sizeof_endp_buffer_def DEF_ENDP_IN_BURST_LEVEL_def DEF_ENDP_OUT_BURST_LEVEL_def usb_device_initial_def usb_endpoint_zero_def)

text \<open>A board out of reset, with the product string the compiler put in memory.\<close>

definition board_reset :: "board_map \<Rightarrow> 'h board_world \<Rightarrow> bool" where
  "board_reset A w \<longleftrightarrow> usb_devices w Usb_device_0 = usb_device_initial \<and> usb2_backend_current_device w = Usb_device_0 \<and>
     usb2_device_handle_bus_reset w = Default_handler \<and> \<not> ep0_passthrough_enabled w \<and> crit_ok (usb_crit w) \<and>
     mem_bytes (usb_memory w) (A_hydradancer_product_string_descriptor A) 46 = hydradancer_product_string_descriptor"

text \<open>What the application's setup does to the USB world.\<close>

definition board_set_up :: "USB_DEVICE_STATE \<Rightarrow> usb_layout \<Rightarrow> board_map \<Rightarrow> 'h board_world \<Rightarrow> 'h board_world \<Rightarrow> bool" where
  "board_set_up st L A w w' \<longleftrightarrow> usb_devices w' Usb_device_0 = (board_device A)\<lparr>dev_state := st\<rparr> \<and>
     usb_memory w' = usb_memory (init_string_descriptors A (init_usb2_descriptors L A w)) \<and>
     usb2_backend_current_device w' = Usb_device_0 \<and> usb2_device_handle_bus_reset w' = Default_handler \<and>
     \<not> ep0_passthrough_enabled w' \<and> usb_crit w' = usb_crit w \<and>
     serdes_user_handled w' = User_handler (A_serdes_rx_callback A)"

lemma init_descriptors_only_memory:
  "\<exists>m. init_string_descriptors A (init_usb2_descriptors L A w) = w\<lparr>usb_memory := m\<rparr>"
  "usb_memory (init_string_descriptors A (init_usb2_descriptors L A w)) =
     usb_memory (init_string_descriptors A (init_usb2_descriptors L A (v\<lparr>usb_memory := usb_memory w\<rparr>)))"
  by (simp_all add: init_string_descriptors_def init_usb2_descriptors_def Let_def wr_mem_def) blast

lemma setup_hw_keeps:
  "usb_devices (board_setup_hw B w) = usb_devices w" "usb_memory (board_setup_hw B w) = usb_memory w"
  "usb2_backend_current_device (board_setup_hw B w) = usb2_backend_current_device w"
  "usb2_device_handle_bus_reset (board_setup_hw B w) = usb2_device_handle_bus_reset w"
  "ep0_passthrough_enabled (board_setup_hw B w) = ep0_passthrough_enabled w" "usb_crit (board_setup_hw B w) = usb_crit w"
  by (simp_all add: board_setup_hw_def Let_def on_hw_def)

lemma board_setup_usb_done:
  assumes "board_reset A w"
  shows "board_set_up DETACHED L A w (board_setup_usb L A (board_setup_hw B w))"
proof -
  let ?w1 = "upd_device Usb_device_0 (\<lambda>v. v\<lparr>endpoints := (endpoints v)\<lparr>tx_complete :=
    (tx_complete (endpoints v))(1 := User_handler (A_endp1_tx_complete A))\<rparr>\<rparr>) (board_setup_hw B w)"
  let ?w2 = "?w1\<lparr>serdes_user_handled := User_handler (A_serdes_rx_callback A)\<rparr>"
  obtain m where m: "init_string_descriptors A (init_usb2_descriptors L A ?w2) = ?w2\<lparr>usb_memory := m\<rparr>"
    using init_descriptors_only_memory(1) by blast
  then have "m = usb_memory (init_string_descriptors A (init_usb2_descriptors L A ?w2))" by simp
  also have "\<dots> = usb_memory (init_string_descriptors A (init_usb2_descriptors L A (w\<lparr>usb_memory := usb_memory ?w2\<rparr>)))"
    by (rule init_descriptors_only_memory(2))
  also have "w\<lparr>usb_memory := usb_memory ?w2\<rparr> = w" by (simp add: upd_device_def setup_hw_keeps)
  finally have mem: "m = usb_memory (init_string_descriptors A (init_usb2_descriptors L A w))" .
  show ?thesis
    using assms unfolding board_setup_usb_def Let_def m mem [symmetric] board_set_up_def board_reset_def
    by (simp add: init_endpoints_def Let_def setup_hw_keeps upd_device_def usb_device_set_usb2_device_descriptor_def
        usb_device_set_usb2_config_descriptors_def usb_device_set_string_descriptors_def usb_device_set_endpoint_mask_def
        board_device_def usb_device_initial_def)
qed

text \<open>The state from which \<open>main\<close> enters its loop: everything the USB host will ask for is in place.\<close>

definition board_booted :: "usb_consts \<Rightarrow> usb_layout \<Rightarrow> board_map \<Rightarrow> 'h board_world \<Rightarrow> 'h board_world \<Rightarrow> bool" where
  "board_booted k L A w w' \<longleftrightarrow> board_set_up POWERED L A w w' \<and> usb2_endp0_max_packet_size w' = 64 \<and> current_rx_dma (board_serdes w') = A_RX_DMA_0 A"

lemma more_fields:
  "usb2_world.more w' = usb2_world.more w \<Longrightarrow> board_serdes w' = board_serdes w"
  "usb2_world.more w' = usb2_world.more w \<Longrightarrow> serdes_user_handled w' = serdes_user_handled w"
  for w w' :: "'h board_world"
  by (cases w; cases w'; simp)+

lemma serdes_init_current:
  assumes "serdes_bsp_ok sb bits"
  shows "current_rx_dma (serdes_init sb bits d0 d1 SERDES_TYPE_DEVICE n s) = d0"
  using assms by (simp add: serdes_init_def Let_def serdes_bsp_ok_def)

lemma main_setup_done:
  assumes L: "usb_layout_ok k L" and A: "board_linked A" and e: "board_env A e" and sb: "serdes_bsp_ok sb bits" and w: "board_reset A w"
  shows "\<exists>w'. main_setup k e L A B sb bits w = Some w' \<and> board_booted k L A w w'"
proof -
  let ?u = "board_setup_usb L A (board_setup_hw B w)"
  let ?M = "usb_memory (init_string_descriptors A (init_usb2_descriptors L A w))"
  note u = board_setup_usb_done [OF w, of L B, unfolded board_set_up_def]
  have p: "mem_bytes (usb_memory w) (A_hydradancer_product_string_descriptor A) 46 = hydradancer_product_string_descriptor"
    using w by (simp add: board_reset_def)
  have "?M (A_usb2_descriptors A + off_DEV_bMaxPacketSize0 k) = 64"
    using descriptors_in_memory(1) [OF L A p refl] mem_bytes_at [of ?M "A_usb2_descriptors A" "board_device_bytes @ concat board_descriptors" 7] L
    by (simp add: usb_layout_ok_def) (simp add: board_device_bytes_def)
  moreover have "A_usb2_descriptors A \<noteq> 0" using A by (simp add: board_linked_def board_objects_def)
  ultimately have mps: "usb_memory ?u (usb2_device_descr (usb_descriptors (dev2 ?u)) + off_DEV_bMaxPacketSize0 k) = 64"
    "usb2_device_descr (usb_descriptors (dev2 ?u)) \<noteq> 0" "dev_speed (dev2 ?u) = USB2_HIGHSPEED" "dev_addr (usb_devices ?u Usb_device_0) = 0"
    using u by (simp_all add: board_device_def usb_device_initial_def upd_ep_tx_def upd_ep_rx_def)
  let ?P = "\<lambda>v. board_set_up POWERED L A w v \<and> usb2_endp0_max_packet_size v = 64"
  have ign: "ignores_regs ?P"
    by (simp add: ignores_regs_def ignores_bank_regs_def board_set_up_def) (simp add: or_mod_def wr_ctrl_def wr_dma_def wr_tlen_def)
  have addr: "v\<lparr>dev_addr := 0, dev_state := st\<rparr> = v\<lparr>dev_state := st\<rparr>" if "dev_addr v = 0" for v :: usb_device and st
    using that by (cases v) simp
  let ?v = "(upd_dev2 (\<lambda>v. v\<lparr>dev_addr := 0, dev_state := POWERED\<rparr>) (?u
    \<lparr>R8_USB_CTRL := UCST_HS k OR RB_DEV_PU_EN k OR RB_USB_INT_BUSY k OR RB_USB_DMA_EN k,
     R8_USB_INT_EN := RB_USB_IE_SETUPACT k OR RB_USB_IE_TRANS k OR RB_USB_IE_SUSPEND k OR RB_USB_IE_BUSRST k OR RB_USB_IE_FIFOOV k\<rparr>))
    \<lparr>usb2_endp0_max_packet_size := 64\<rparr>"
  have v: "usb2_device_init k e ?u = Some (usb2_setup_endpoints k ?v)"
    using e mps u by (simp add: usb2_device_init_def board_env_def Let_def)
  have "?P ?v" using u mps(4) by (simp add: board_set_up_def addr) (simp add: upd_dev2_def upd_device_def)
  then have "?P (usb2_setup_endpoints k ?v)" by (rule setup_endpoints_ignored [OF ign])
  then show ?thesis using v serdes_init_current [OF sb] by (simp add: main_setup_def board_booted_def board_set_up_def)
qed

section \<open>Enumeration\<close>

text \<open>The descriptors of the board: the device, the configuration, the list of languages and the product's name.\<close>

definition board_descr :: "usb_consts \<Rightarrow> u16 \<Rightarrow> u8 list" where
  "board_descr k v = (if bb0 v = USB_DESCR_TYP_DEVICE k then board_device_bytes
     else if bb0 v = USB_DESCR_TYP_CONFIG k then concat board_descriptors
     else if bb0 v = USB_DESCR_TYP_STRING k \<and> bb1 v < 2 then board_strings ! unat (bb1 v) else [])"

lemma board_addresses:
  assumes "board_linked A"
  shows "A_usb2_descriptors A \<noteq> 0" "unat (A_usb2_descriptors A) + 64 < 2 ^ 32" "A_usb2_device_configs A \<noteq> 0" "A_endp0_buffer A \<noteq> 0"
    "A_RX_DMA_0 A \<noteq> 0" "A_RX_DMA_1 A \<noteq> 0" "unat (A_RX_DMA_0 A) + 4096 < 2 ^ 32" "unat (A_RX_DMA_1 A) + 4096 < 2 ^ 32"
    "A_RX_DMA_0 A \<noteq> A_RX_DMA_1 A" "A_usb_string_descriptors A \<noteq> 0" "unat (A_usb_string_descriptors A) + 52 < 2 ^ 32"
    "A_device_string_descriptors A \<noteq> 0"
proof -
  have "list_all (\<lambda>(a, n). a \<noteq> 0 \<and> unat a + n < 2 ^ 32) (board_objects A)" using assms by (simp add: board_linked_def)
  then show "A_usb2_descriptors A \<noteq> 0" "unat (A_usb2_descriptors A) + 64 < 2 ^ 32" "A_usb2_device_configs A \<noteq> 0"
    "A_endp0_buffer A \<noteq> 0" "A_RX_DMA_0 A \<noteq> 0" "A_RX_DMA_1 A \<noteq> 0" "unat (A_RX_DMA_0 A) + 4096 < 2 ^ 32"
    "unat (A_RX_DMA_1 A) + 4096 < 2 ^ 32" "A_usb_string_descriptors A \<noteq> 0" "unat (A_usb_string_descriptors A) + 52 < 2 ^ 32"
    "A_device_string_descriptors A \<noteq> 0" by (simp_all add: board_objects_def)
  have "apart (A_RX_DMA_0 A) 4096 (A_RX_DMA_1 A) 4096"
    using linked_apart [OF assms, of 8 9] by (simp add: board_objects_def)
  then have "4096 \<le> unat (A_RX_DMA_0 A + of_nat 0 - A_RX_DMA_1 A)" unfolding apart_def by (rule allE [of _ 0]) simp
  then show "A_RX_DMA_0 A \<noteq> A_RX_DMA_1 A" by auto
qed

lemma apart_sub:
  assumes "apart a n b k" and "i + j \<le> n" and "k' \<le> k"
  shows "apart (a + of_nat i) j b k'"
  unfolding apart_def
proof (intro allI impI)
  fix q assume "q < j"
  then have "k \<le> unat (a + of_nat (i + q) - b)" using assms(1,2) by (simp add: apart_def del: of_nat_add)
  then show "k' \<le> unat (a + of_nat i + of_nat q - b)" using assms(3) by (simp add: add.assoc)
qed

lemma board_bytes_nth:
  "board_device_bytes ! 0 = 18" "concat board_descriptors ! 2 = 46" "concat board_descriptors ! 3 = 0"
  by (simp_all add: board_device_bytes_def board_descriptors_def)

lemma booted_offers:
  assumes k: "usb2_flags_ok k" and L: "usb_layout_ok k L" and A: "board_linked A" and w: "board_reset A w" and b: "board_booted k L A w w'"
  shows "usb2_offers k (board_descr k) w'"
proof -
  let ?D = "A_usb2_descriptors A" and ?M = "usb_memory w'"
  have p: "mem_bytes (usb_memory w) (A_hydradancer_product_string_descriptor A) 46 = hydradancer_product_string_descriptor"
    using w by (simp add: board_reset_def)
  have s: "dev2 w' = (board_device A)\<lparr>dev_state := POWERED\<rparr>"
    "?M = usb_memory (init_string_descriptors A (init_usb2_descriptors L A w))"
    using b by (simp_all add: board_booted_def board_set_up_def)
  note m = descriptors_in_memory [OF L A p s(2)]
  note ad = board_addresses [OF A]
  have o: "off_DEV_bLength k = 0" "off_CFG_wTotalLength k = 2" using L by (simp_all add: usb_layout_ok_def)
  have t: "USB_DESCR_TYP_DEVICE k = 1" "USB_DESCR_TYP_CONFIG k = 2" "USB_DESCR_TYP_STRING k = 3"
    using k by (simp_all add: usb2_flags_ok_def usb_requests_ok_def)
  have parts: "mem_bytes ?M ?D 18 = board_device_bytes" "mem_bytes ?M (?D + 18) 46 = concat board_descriptors"
    using mem_bytes_part [of 0 18 64 ?M ?D] mem_bytes_part [of 18 46 64 ?M ?D] m(1) by simp_all
  have ap: "apart ?D 18 (A_endp0_buffer A) 64" "apart (?D + 18) 46 (A_endp0_buffer A) 64" "apart (A_usb2_device_configs A) 4 (A_endp0_buffer A) 64"
    using apart_sub [OF board_apart(10) [OF A], of 0 18 64] apart_sub [OF board_apart(10) [OF A], of 18 46 64]
      apart_sub [OF board_apart(11) [OF A], of 0 4 64] by simp_all
  have u: "unat (?D + 18) = unat ?D + 18" using ad(2) by (subst unat_add_lem [THEN iffD1]) simp_all
  then have nz: "?D + 18 \<noteq> 0" by (auto simp del: unat_eq_0_iff)
  have device: "has_descr k v ?D board_device_bytes w'" if "bb0 v = 1" for v
    unfolding has_descr_def Let_def s(1) using that ad parts ap o t by (simp add: board_bytes_nth)
  have config: "has_descr k v (?D + 18) (concat board_descriptors) w'" if "bb0 v = 2" for v
    unfolding has_descr_def Let_def s(1) using that ad parts ap o t u nz m(3) by (simp add: board_bytes_nth)
  let ?S = "A_usb_string_descriptors A" and ?T = "A_device_string_descriptors A"
  have sparts: "mem_bytes ?M ?S 4 = board_strings ! 0" "mem_bytes ?M (?S + 4) 48 = board_strings ! 1"
    using mem_bytes_part [of 0 4 52 ?M ?S] mem_bytes_part [of 4 48 52 ?M ?S] m(2) by (simp_all add: board_strings_def)
  have sap: "apart ?S 4 (A_endp0_buffer A) 64" "apart (?S + 4) 48 (A_endp0_buffer A) 64" "apart ?T 4 (A_endp0_buffer A) 64"
    "apart (?T + 4) 4 (A_endp0_buffer A) 64"
    using apart_sub [OF board_apart(12) [OF A], of 0 4 64] apart_sub [OF board_apart(12) [OF A], of 4 48 64]
      apart_sub [OF board_apart(13) [OF A], of 0 4 64] apart_sub [OF board_apart(13) [OF A], of 4 4 64] by simp_all
  have su: "unat (?S + 4) = unat ?S + 4" using ad(11) by (subst unat_add_lem [THEN iffD1]) simp_all
  then have snz: "?S + 4 \<noteq> 0" by (auto simp del: unat_eq_0_iff)
  have len: "length (board_strings ! 0) = 4" "length (board_strings ! Suc 0) = 48" "hd (board_strings ! 0) = 4" "hd (board_strings ! Suc 0) = 48"
    "board_strings ! 0 \<noteq> []" "board_strings ! Suc 0 \<noteq> []"
    by (simp_all add: board_strings_def)
  have string0: "has_descr k v ?S (board_strings ! 0) w'" if "bb0 v = 3" "bb1 v = 0" for v
    unfolding has_descr_def Let_def s(1) using that ad sparts sap t m(4) len by simp
  have string1: "has_descr k v (?S + 4) (board_strings ! 1) w'" if "bb0 v = 3" "bb1 v = 1" for v
    unfolding has_descr_def Let_def s(1) using that ad sparts sap t m(5) len su snz by simp
  have "\<exists>head. has_descr k v head (board_descr k v) w'" if sel: "descr_selected k {USB_DESCR_TYP_DEVICE k, USB_DESCR_TYP_CONFIG k} (board_descr k) v" for v
  proof -
    have "bb1 v = 0 \<or> bb1 v = 1" if "bb1 v < 2"
      using that by (simp add: word_less_nat_alt word_unat_eq_iff) arith
    then consider "bb0 v = 1" | "bb0 v = 2" | "bb0 v = 3" "bb1 v = 0" | "bb0 v = 3" "bb1 v = 1"
      using sel unfolding descr_selected_def board_descr_def t by (auto split: if_splits)
    then show ?thesis
      by cases (use device config string0 string1 t in \<open>simp_all add: board_descr_def, blast+\<close>)
  qed
  then show ?thesis unfolding usb2_offers_def by blast
qed

text \<open>The board forwards packets: \<open>slot\<close> is the DMA array the next packet lands in, \<open>tog\<close> the toggle of the next packet to the host.\<close>

definition board_running :: "usb_consts \<Rightarrow> board_map \<Rightarrow> bool \<Rightarrow> bool \<Rightarrow> 'h board_world \<Rightarrow> bool" where
  "board_running k A slot tog w \<longleftrightarrow> usb2_backend_current_device w = Usb_device_0 \<and>
     dev_speed (dev2 w) \<noteq> USB30_SUPERSPEED \<and> dev_state (dev2 w) \<noteq> POWERED \<and> crit_ok (usb_crit w) \<and>
     ep_max_packet_size (ep_tx (endpoints (dev2 w)) 1) = 1024 \<and> ep_max_packet_size_with_burst (ep_tx (endpoints (dev2 w)) 1) = 4096 \<and>
     tx_complete (endpoints (dev2 w)) 1 = User_handler (A_endp1_tx_complete A) \<and>
     serdes_user_handled w = User_handler (A_serdes_rx_callback A) \<and>
     current_rx_dma (board_serdes w) = (if slot then A_RX_DMA_1 A else A_RX_DMA_0 A) \<and>
     R8_UEP_CTRL w (UEP_TX_CTRL UEP1) AND RB_UEP_T_TOG_1 k = (if tog then RB_UEP_T_TOG_1 k else 0)"

lemma ready_after_enumeration:
  assumes k: "usb2_flags_ok k" and b: "board_booted k L A w w0" and w: "board_reset A w" and e: "enum_keeps (wr_dma UEP0_RT_DMA a w0) w'"
    and s: "ep0_serving w'" and p: "usb2_programmed k w'"
  shows "board_running k A False False w'"
proof -
  have d: "dev2 w0 = (board_device A)\<lparr>dev_state := POWERED\<rparr>" "usb2_backend_current_device w0 = Usb_device_0" "usb_crit w0 = usb_crit w"
    "serdes_user_handled w0 = User_handler (A_serdes_rx_callback A)" "current_rx_dma (board_serdes w0) = A_RX_DMA_0 A"
    using b by (simp_all add: board_booted_def board_set_up_def)
  have e': "usb2_world.more w' = usb2_world.more w0" "endpoints (dev2 w') = endpoints (board_device A)" "endpoint_mask (dev2 w') = board_mask"
    "dev_speed (dev2 w') = USB2_HIGHSPEED" "usb_crit w' = usb_crit w" "usb2_backend_current_device w' = Usb_device_0"
    using e d by (auto simp: enum_keeps_def)
  have "endp_bank (of_nat 1) = Some UEP1" by (simp add: endp_bank_def)
  moreover have "in_mask board_mask True 1" by (subst board_mask_endpoints) (simp_all add: board_endpoints_def)
  ultimately have "ep_programmed k (dev2 w') True UEP1 1 w'" using p e'(3) unfolding usb2_programmed_def by auto
  then have "R8_UEP_CTRL w' (UEP_TX_CTRL UEP1) = ENDP_STATE_NAK OR RB_UEP_T_TOG_0 k"
    using e'(2) by (simp add: ep_programmed_def ep_regs_def Let_def)
  moreover have "(ENDP_STATE_NAK OR RB_UEP_T_TOG_0 k) AND RB_UEP_T_TOG_1 k = 0"
    using k uep_tog_nak [of k 0] by (simp add: usb2_flags_ok_def uep_fields_ok_def set_res_def)
  ultimately show ?thesis
    using e' d w s more_fields [OF e'(1)] by (simp add: board_running_def board_reset_def ep0_serving_def)
qed

text \<open>
  C5. The debug board enumerates: from reset, \<open>main\<close> reaches its loop, and after a bus reset a host can make any script of
  descriptor reads (device, configuration, languages and product name, the two strings read with a \<open>wLength\<close> of at
  least their length), \<open>SET_ADDRESS\<close> and \<open>SET_CONFIGURATION\<close> that the USB specification defines for a device with
  configuration 1 and that avoids address 0 and the return to configuration 0. The board answers as the specification says, with the
  board's own descriptors (\<open>split_descriptors\<close> takes them apart) in packets of 64 bytes, and ends with the address, the state and
  the configuration of the specification, its four endpoints programmed. It is ready to forward packets after every such script,
  whether or not the host has configured it: the firmware does not wait for a configuration.
\<close>

theorem debug_board_enumerates:
  assumes "usb2_flags_ok k" and "usb_layout_ok k L" and "board_linked A" and "board_env A e" and "serdes_bsp_ok sb bits" and "board_reset A w"
    and "run_requests (spec_step (request_ok k 64 (board_descr k)) (usb2_send 64) (board_descr k) {1}) rs usb_default = Some (pss, s)"
  shows "\<exists>w0 w1 w2. main_setup k e L A B sb bits w = Some w0 \<and> usb2_bus_reset k e w0 = Some w1 \<and>
    usb2_requests k e rs w1 = Some (pss, w2) \<and> usb_view (usb_abs w2) = s \<and>
    endpoint_mask (dev2 w2) = board_mask \<and> usb2_programmed k w2 \<and> board_running k A False False w2"
proof -
  from main_setup_done [OF assms(2-6)] obtain w0 where w0: "main_setup k e L A B sb bits w = Some w0" "board_booted k L A w w0" by blast
  have s: "dev2 w0 = (board_device A)\<lparr>dev_state := POWERED\<rparr>" "usb2_device_handle_bus_reset w0 = Default_handler"
    "\<not> ep0_passthrough_enabled w0" "usb2_endp0_max_packet_size w0 = 64"
    using w0(2) by (simp_all add: board_booted_def board_set_up_def)
  have b: "rx0_buffer2 w0 \<noteq> 0" using s(1) board_addresses(4) [OF assms(3)] by simp
  have c: "usb2_config_ok w0" using s(1) board_mask_banks by (simp add: usb2_config_ok_def)
  from bus_reset_enumerating [OF assms(1) s(2) b _ _ s(3) c booted_offers [OF assms(1-3,6) w0(2)], of e] s(1,4) obtain w1 where
    w1: "usb2_bus_reset k e w0 = Some w1" "usb2_enumerating k (board_descr k) 64 (wr_dma UEP0_RT_DMA (rx0_buffer2 w0) w0) w1"
    "usb_abs w1 = \<lparr>abs_address = 0, abs_state = DEFAULT, abs_config = 0\<rparr>" by auto
  have "usb_view (usb_abs w1) = usb_default" by (simp add: w1(3) usb_view_def usb_default_def)
  from usb2_enum.requests_conform [OF w1(2), unfolded this, OF assms(7), of e] obtain w2 where w2: "usb2_requests k e rs w1 = Some (pss, w2)"
    "usb_view (usb_abs w2) = s" "usb2_enumerating k (board_descr k) 64 (wr_dma UEP0_RT_DMA (rx0_buffer2 w0) w0) w2"
    by (auto simp: usb2_requests_def)
  have run: "board_running k A False False w2"
    by (rule ready_after_enumeration [OF assms(1) w0(2) assms(6), of "rx0_buffer2 w0"]) (use w2(3) in \<open>simp_all add: usb2_enumerating_def\<close>)
  have "enum_keeps (wr_dma UEP0_RT_DMA (rx0_buffer2 w0) w0) w2" "usb2_programmed k w2" using w2(3) by (simp_all add: usb2_enumerating_def)
  moreover from this(1) have "endpoint_mask (dev2 w2) = board_mask" using enum_keeps_dev2(3) s(1) by fastforce
  ultimately show ?thesis using w0(1) w1(1) w2(1,2) run by blast
qed

definition demo_board_env :: "('h board_world) usb_env" where
  "demo_board_env = (demo_env 0)\<lparr>env_tx_complete := (\<lambda>_. endp1_tx_complete)\<rparr>"

definition demo_board_bsp :: "unit board_bsp" where
  "demo_board_bsp = \<lparr>board_gpio_init = id, board_init = (\<lambda>_. id), board_switch = (\<lambda>_. 1), board_sync2boards = (\<lambda>_ _ _ h. (1, h)),
     board_uled_on = id, board_uled_off = id, board_ubtn = (\<lambda>_. False), board_wait_ms_delay = (\<lambda>_. id), PA12 = 0x1000, PA14 = 0x4000\<rparr>"

definition demo_log0 :: "unit log_world" where
  "demo_log0 = \<lparr>log_crit = crit_init, SysTickCNT = 0, startCNT64 = 0, startCNT64_printf = 0, startCNT64_serdes = 0, startCNT64_buffer = 0,
     debug_log_buf = None, debug_log_buf_serdes = None, serdes_buffer = [], log_serdes_state = demo_serdes, lwrb_buffer = (), uart_out = []\<rparr>"

definition demo_board :: "unit board_world" where
  "demo_board = usb2_world.extend (demo_usb2\<lparr>usb_memory := demo_ram, usb_devices := (\<lambda>_. usb_device_initial)\<rparr>)
     (board_world.fields () demo_serdes demo_log0 Default_handler False 1000 None)"

lemma demo_board_start:
  "board_reset demo_map demo_board" "board_env demo_map (demo_board_env :: ('h board_world) usb_env)" "serdes_bsp_ok demo_serdes_bsp demo_serdes_bits"
  using demo_board_ok(3)
  by (simp_all add: board_reset_def demo_board_def usb2_world.extend_def demo_usb2_def board_env_def demo_board_env_def demo_env_def
      serdes_bsp_ok_def demo_serdes_bsp_def demo_serdes_bits_def)

definition board_script :: "enum_request list" where
  "board_script = [Read_descriptor 0x100 64 1, Set_address 5, Read_descriptor 0x200 9 1, Read_descriptor 0x200 255 1,
     Read_descriptor 0x300 255 1, Read_descriptor 0x301 255 1, Set_configuration 1]"

theorem debug_board_enumerates_witness:
  "\<exists>w0 w1 w2. main_setup demo_consts demo_board_env demo_layout demo_map demo_board_bsp demo_serdes_bsp demo_serdes_bits demo_board = Some w0 \<and>
     usb2_bus_reset demo_consts demo_board_env w0 = Some w1 \<and>
     usb2_requests demo_consts demo_board_env board_script w1 = Some
       ([[(True, board_device_bytes)], [], [(True, [0x09, 0x02, 46, 0x00, 0x01, 0x01, 0x00, 0xa0, 0x64])],
         [(True, concat board_descriptors)], [(True, [4, 3, 9, 4])], [(True, [48, 3] @ hydradancer_product_string_descriptor)], []], w2) \<and>
     usb_view (usb_abs w2) = \<lparr>abs_address = 5, abs_state = CONFIGURED, abs_config = 1\<rparr> \<and> board_running demo_consts demo_map False False w2"
proof -
  have t: "USB_DESCR_TYP_DEVICE demo_consts = 1" "USB_DESCR_TYP_CONFIG demo_consts = 2" "USB_DESCR_TYP_STRING demo_consts = 3"
    by (simp_all add: demo_consts_def)
  have b: "bb0 0x100 = 1" "bb0 0x200 = 2" "bb0 0x300 = 3" "bb0 0x301 = 3" "bb1 0x100 = 0" "bb1 0x200 = 0" "bb1 0x300 = 0" "bb1 0x301 = 1"
    by (simp_all add: bb0_def bb1_def)
  have d: "board_descr demo_consts 0x100 = board_device_bytes" "board_descr demo_consts 0x200 = concat board_descriptors"
    "board_descr demo_consts 0x300 = [4, 3, 9, 4]" "board_descr demo_consts 0x301 = [48, 3] @ hydradancer_product_string_descriptor"
    by (simp_all add: board_descr_def t b board_strings_def)
  have tk: "take 64 board_device_bytes = board_device_bytes" "take 255 (concat board_descriptors) = concat board_descriptors"
    "take 255 [4, 3, 9, 4 :: u8] = [4, 3, 9, 4]"
    "take 255 ([48, 3] @ hydradancer_product_string_descriptor) = [48, 3] @ hydradancer_product_string_descriptor" by simp_all
  have t9: "take 9 (concat board_descriptors) = [0x09, 0x02, 46, 0x00, 0x01, 0x01, 0x00, 0xa0, 0x64]" by (simp add: board_descriptors_def)
  have dp: "data_packets 64 board_device_bytes = [board_device_bytes]" "data_packets 64 (concat board_descriptors) = [concat board_descriptors]"
    "data_packets 64 [0x09, 0x02, 46, 0x00, 0x01, 0x01, 0x00, 0xa0, 0x64 :: u8] = [[0x09, 0x02, 46, 0x00, 0x01, 0x01, 0x00, 0xa0, 0x64]]"
    "data_packets 64 [4, 3, 9, 4 :: u8] = [[4, 3, 9, 4]]"
    "data_packets 64 ([48, 3] @ hydradancer_product_string_descriptor) = [[48, 3] @ hydradancer_product_string_descriptor]"
    by (simp_all add: data_packets_short)
  have ok: "request_ok demo_consts 64 (board_descr demo_consts) r" if "r \<in> set board_script" for r
    using that by (auto simp: board_script_def descr_selected_def d t b)
  have "run_requests (spec_step (request_ok demo_consts 64 (board_descr demo_consts)) (usb2_send 64) (board_descr demo_consts) {1})
       board_script usb_default = Some
     ([[(True, board_device_bytes)], [], [(True, [0x09, 0x02, 46, 0x00, 0x01, 0x01, 0x00, 0xa0, 0x64])],
         [(True, concat board_descriptors)], [(True, [4, 3, 9, 4])], [(True, [48, 3] @ hydradancer_product_string_descriptor)], []],
      \<lparr>abs_address = 5, abs_state = CONFIGURED, abs_config = 1\<rparr>)"
    using ok unfolding board_script_def
    by (simp add: spec_step_def conforming_def usb_default_def usb2_send_def d tk t9 dp del: take_all_iff append.simps request_ok.simps)
  from debug_board_enumerates [OF demo_flags_ok demo_board_ok(1,2) demo_board_start(2,3,1) this, of demo_board_bsp]
  show ?thesis by blast
qed

section \<open>Forwarding\<close>

text \<open>A packet arrives: the hardware stores \<open>bs\<close> in the DMA array whose turn it is and the header word in the register that goes
  with it, and raises the interrupt. The peer says \<open>n\<close> bytes; the link transfers more when its packets have a fixed size.\<close>

definition board_receive ::
    "('h board_world) usb_backends \<Rightarrow> board_map \<Rightarrow> serdes_bsp \<Rightarrow> serdes_bits \<Rightarrow> bool \<Rightarrow> u16 \<times> u16 \<times> u8 list \<Rightarrow> 'h board_world \<Rightarrow> 'h board_world option" where
  "board_receive be A sb bits slot = (\<lambda>(n, c, bs) w. board_SERDES_IRQHandler be A sb bits
     (w\<lparr>usb_memory := mem_write (if slot then A_RX_DMA_1 A else A_RX_DMA_0 A) bs (usb_memory w),
        board_serdes := (if slot then (board_serdes w)\<lparr>reg_SDS_DATA1 := serdes_header n c\<rparr>
          else (board_serdes w)\<lparr>reg_SDS_DATA0 := serdes_header n c\<rparr>)\<rparr>))"

text \<open>Packets that arrive one after the other.\<close>

primrec board_receives ::
    "('h board_world) usb_backends \<Rightarrow> board_map \<Rightarrow> serdes_bsp \<Rightarrow> serdes_bits \<Rightarrow> bool \<Rightarrow> (u16 \<times> u16 \<times> u8 list) list \<Rightarrow> 'h board_world \<Rightarrow>
     'h board_world option" where
  "board_receives be A sb bits slot [] w = Some w"
| "board_receives be A sb bits slot (p # ps) w = do { w1 \<leftarrow> board_receive be A sb bits slot p w; board_receives be A sb bits (\<not> slot) ps w1 }"

text \<open>The host fetches one packet of \<open>n\<close> bytes, as many USB packets as the code sends for it.\<close>

definition board_fetch :: "usb_consts \<Rightarrow> ('h board_world) usb_env \<Rightarrow> u16 \<Rightarrow> 'h board_world \<Rightarrow> ((bool \<times> u8 list) list \<times> 'h board_world) option" where
  "board_fetch k e n = usb2_in_packets k e 1 UEP1 (Suc ((unat n - 1) div 1024))"

text \<open>A stream: some packets arrive, the host fetches, more arrive, and so on.\<close>

fun board_stream ::
    "usb_consts \<Rightarrow> ('h board_world) usb_env \<Rightarrow> ('h board_world) usb_backends \<Rightarrow> board_map \<Rightarrow> serdes_bsp \<Rightarrow> serdes_bits \<Rightarrow> bool \<Rightarrow>
     (u16 \<times> u16 \<times> u8 list) list list \<Rightarrow> 'h board_world \<Rightarrow> ((bool \<times> u8 list) list list \<times> 'h board_world) option" where
  "board_stream k e be A sb bits slot [] w = Some ([], w)"
| "board_stream k e be A sb bits slot (g # gs) w = do {
     w1 \<leftarrow> board_receives be A sb bits slot g w;
     (qs, w2) \<leftarrow> board_fetch k e (fst (last g)) w1;
     (qss, w3) \<leftarrow> board_stream k e be A sb bits (slot = even (length g)) gs w2;
     Some (qs # qss, w3) }"

text \<open>A packet that fits the buffers, and what of it goes to the host: the link stores \<open>bs\<close>, and beyond one USB packet the length is
  rounded up to full ones. It is the packet itself when it is at most one USB packet or full ones.\<close>

definition board_packet_stored :: "u16 \<times> u16 \<times> u8 list \<Rightarrow> bool" where
  "board_packet_stored = (\<lambda>(n, c, bs). unat n \<le> 4096 \<and> bulk_length 1024 (unat n) \<le> length bs \<and> length bs \<le> 4096)"

definition board_forwarded :: "u16 \<times> u16 \<times> u8 list \<Rightarrow> u8 list" where
  "board_forwarded = (\<lambda>(n, c, bs). take (bulk_length 1024 (unat n)) bs)"


lemma bulk_length_exact: "n \<le> 1024 \<or> n mod 1024 = 0 \<Longrightarrow> bulk_length 1024 n = n"
  using bulk_length_short [of n 1024] bulk_length_multiple [of 1024 n] by auto


lemma bulk_length_ge: "0 < mps \<Longrightarrow> n \<le> bulk_length mps n"
proof (cases "n \<le> mps")
  case False
  assume m: "0 < mps"
  have "(n - 1) div mps * mps + (n - 1) mod mps = n - 1" "(n - 1) mod mps < mps" using m by simp_all
  then have "n \<le> (n - 1) div mps * mps + mps" by linarith
  then show ?thesis using False by (simp add: bulk_length_def)
qed (simp add: bulk_length_short)

text \<open>The USB packets keep to 512 bytes only when nothing larger is forwarded.\<close>

lemma bulk_packets_512: "(\<forall>q \<in> set (bulk_packets 1024 xs). length q \<le> 512) \<longleftrightarrow> length xs \<le> 512"
  by (cases "length xs \<le> 1024") (simp_all add: bulk_packets_short bulk_packets_more)

lemma forwarded_512:
  assumes "board_packet_stored (n, c, bs)"
  shows "length (board_forwarded (n, c, bs)) \<le> 512 \<longleftrightarrow> unat n \<le> 512"
  using assms bulk_length_ge [of 1024 "unat n"] bulk_length_short [of "unat n" 1024]
  by (auto simp: board_packet_stored_def board_forwarded_def)

lemma in_packets_Suc:
  "usb2_in_packets k e ep u (Suc n) w = do {
     (ps, w1) \<leftarrow> usb2_in_packets k e ep u n w;
     p \<leftarrow> usb2_in_token k u w1;
     w2 \<leftarrow> usb2_in_event k e ep w1;
     Some (ps @ [p], w2) }"
proof (induction n arbitrary: w)
  case 0
  then show ?case by (cases "usb2_in_token k u w"; cases "usb2_in_event k e ep w") simp_all
next
  case (Suc n)
  show ?case
    apply (subst usb2_in_packets.simps(2))
    apply (subst Suc.IH)
    apply (cases "usb2_in_token k u w"; simp)
    apply (cases "usb2_in_event k e ep w"; simp)
    subgoal for t w1
      by (cases "usb2_in_packets k e ep u n w1"; auto simp: Option.bind_assoc split: prod.splits Option.bind_splits)
    done
qed

lemma board_bulk_endpoint: "usb2_flags_ok k \<Longrightarrow> bulk_endpoint k 1 UEP1"
  by (simp add: usb2_flags_ok_def bulk_endpoint_def endp_bank_def)

lemma with_toggles_last: "xs \<noteq> [] \<Longrightarrow> fst (last (with_toggles t xs)) = (t = odd (length xs))"
proof (induction xs arbitrary: t)
  case (Cons x xs)
  show ?case
  proof (cases xs)
    case (Cons y ys)
    then have "last (with_toggles t (x # xs)) = last (with_toggles (\<not> t) xs)" by simp
    then have "fst (last (with_toggles t (x # xs))) = ((\<not> t) = odd (length xs))" using Cons.IH [of "\<not> t"] Cons by simp
    then show ?thesis by (cases t) simp_all
  qed simp
qed simp

lemma with_toggles_append: "with_toggles t (xs @ ys) = with_toggles t xs @ with_toggles (t = even (length xs)) ys"
proof (induction xs arbitrary: t)
  case (Cons x xs)
  have "((\<not> t) = even (length xs)) = (t = even (length (x # xs)))" by (cases t) simp_all
  then show ?case using Cons.IH [of "\<not> t"] by simp
qed simp

text \<open>Handing a buffer to endpoint 1 and fetching it.\<close>

lemma board_sends:
  assumes k: "usb2_flags_ok k" and e: "board_env A e" and w: "board_running k A slot tog w"
    and n: "unat n \<le> 4096" and ptr: "ptr \<noteq> 0" "unat ptr + unat n < 2 ^ 32"
  shows "\<exists>w0 w1. endp_tx_set_new_buffer (usb2_endpoints_backend_handled k r3) Usb_device_0 1 ptr n w = Some (True, w0) \<and>
    board_fetch k e n w0 = Some (with_toggles tog (bulk_packets 1024 (mem_bytes (usb_memory w) ptr (bulk_length 1024 (unat n)))), w1) \<and>
    board_running k A slot (tog = even (length (bulk_packets 1024 (mem_bytes (usb_memory w) ptr (bulk_length 1024 (unat n)))))) w1 \<and>
    usb_memory w1 = usb_memory w"
proof -
  let ?bp = "bulk_packets 1024 (mem_bytes (usb_memory w) ptr (bulk_length 1024 (unat n)))"
  have d: "usb2_backend_current_device w = Usb_device_0" using w by (simp add: board_running_def)
  note W = w [unfolded board_running_def d]
  have st: "dev_speed (usb_devices w Usb_device_0) \<noteq> USB30_SUPERSPEED" "dev_state (usb_devices w Usb_device_0) \<noteq> POWERED" "crit_ok (usb_crit w)"
    "ep_max_packet_size (ep_tx (endpoints (usb_devices w Usb_device_0)) (unat (1 :: u8))) = 1024" "(1024 :: u16) \<noteq> 0"
    "n \<le> ep_max_packet_size_with_burst (ep_tx (endpoints (usb_devices w Usb_device_0)) (unat (1 :: u8)))"
    "R8_UEP_CTRL w (UEP_TX_CTRL UEP1) AND RB_UEP_T_TOG_1 k = (if tog then RB_UEP_T_TOG_1 k else 0)"
    using W n by (simp_all add: word_le_nat_alt)
  from usb2_bulk_send [OF board_bulk_endpoint [OF k] d st(1-6) ptr st(7), of r3 e] obtain w0 ps p w1 w2 rx where
    s: "endp_tx_set_new_buffer (usb2_endpoints_backend_handled k r3) Usb_device_0 1 ptr n w = Some (True, w0)"
      "usb2_in_packets k e 1 UEP1 ((unat n - 1) div 1024) w0 = Some (ps, w1)" "usb2_in_token k UEP1 w1 = Some p"
      "ps @ [p] = with_toggles tog ?bp" "usb2_in_event k e 1 w1 = bulk_complete k e 1 UEP1 rx w2" "bulk_idle k 1 UEP1 (\<not> fst p) w2"
      "bulk_keeps (w\<lparr>usb_devices := (usb_devices w)(Usb_device_0 := upd_ep_tx 1 (\<lambda>p. p\<lparr>ep_buffer := ptr\<rparr>) (usb_devices w Usb_device_0))\<rparr>) w2"
    by auto
  have p: "(\<not> fst p) = (tog = even (length ?bp))"
    using with_toggles_last [OF bulk_packets_ne, of tog 1024 "mem_bytes (usb_memory w) ptr (bulk_length 1024 (unat n))"] unfolding s(4) [symmetric] by auto
  have dv: "usb_devices w2 = (usb_devices w)(Usb_device_0 := upd_ep_tx 1 (\<lambda>p. p\<lparr>ep_buffer := ptr\<rparr>) (usb_devices w Usb_device_0))"
    "usb2_backend_current_device w2 = Usb_device_0" "usb_memory w2 = usb_memory w" "usb_crit w2 = usb_crit w"
    "usb2_world.more w2 = usb2_world.more w"
    using s(7) d by (simp_all add: bulk_keeps_def)
  have tc: "tx_complete (endpoints (dev2 w2)) 1 = User_handler (A_endp1_tx_complete A)"
    using W dv(1,2) d by (simp add: upd_ep_tx_def)
  define w3 where "w3 = write_int_fg e (RB_USB_IF_TRANSFER k) (wr_ctrl (UEP_RX_CTRL UEP1) rx
    (wr_dma (UEP_TX_DMA UEP1) (ep_buffer (ep_tx (endpoints (dev2 w2)) 1)) w2))"
  have c: "bulk_complete k e 1 UEP1 rx w2 = Some w3"
    using tc e by (simp add: bulk_complete_def call_tx_complete_def board_env_def endp1_tx_complete_def w3_def)
  have f: "board_fetch k e n w0 = Some (with_toggles tog ?bp, w3)"
    unfolding board_fetch_def in_packets_Suc using s(2-5) c by simp
  have w3: "usb_devices w3 = usb_devices w2" "usb2_backend_current_device w3 = Usb_device_0" "usb_memory w3 = usb_memory w2"
    "usb_crit w3 = usb_crit w2" "usb2_world.more w3 = usb2_world.more w2" "R8_UEP_CTRL w3 (UEP_TX_CTRL UEP1) = R8_UEP_CTRL w2 (UEP_TX_CTRL UEP1)"
    using dv(2) by (simp_all add: w3_def write_int_fg_def)
  have "R8_UEP_CTRL w3 (UEP_TX_CTRL UEP1) AND RB_UEP_T_TOG_1 k = (if tog = even (length ?bp) then RB_UEP_T_TOG_1 k else 0)"
    using s(6) unfolding w3(6) p [symmetric] by (simp add: bulk_idle_def)
  moreover have "board_serdes w3 = board_serdes w" "serdes_user_handled w3 = serdes_user_handled w"
    using more_fields [of w3 w] w3(5) dv(5) by simp_all
  ultimately have "board_running k A slot (tog = even (length ?bp)) w3"
    using W d w3 dv(1,4) unfolding board_running_def by (simp add: upd_ep_tx_def)
  with s(1) f w3(3) dv(3) show ?thesis by auto
qed

text \<open>The SerDes interrupt calls the callback with the array the packet landed in; the arrays take turns.\<close>

lemma serdes_irq_event:
  assumes "serdes_bsp_ok sb bits" and "unat n < 2 ^ 13" and "current_rx_dma s = (if slot then d1 else d0)" and "d0 \<noteq> d1"
  shows "\<exists>c' s'. SERDES_IRQHandler sb bits d0 d1
      (if slot then s\<lparr>reg_SDS_DATA1 := serdes_header n c\<rparr> else s\<lparr>reg_SDS_DATA0 := serdes_header n c\<rparr>) =
      ([(if slot then d1 else d0, n, c')], s') \<and> current_rx_dma s' = (if slot then d0 else d1)"
  using assms
  by (cases slot) (simp_all add: SERDES_IRQHandler_def Let_def serdes_bsp_ok_def header_size_serdes take_bit_u16_eq)

lemma board_forwards_one:
  assumes k: "usb2_flags_ok k" and A: "board_linked A" and e: "board_env A e" and sb: "serdes_bsp_ok sb bits"
    and w: "board_running k A slot tog w" and p: "board_packet_stored (n, c, bs)"
  shows "\<exists>w1 w2. board_receive (usb2_endpoints_backend_handled k r3) A sb bits slot (n, c, bs) w = Some w1 \<and>
    board_fetch k e n w1 = Some (with_toggles tog (bulk_packets 1024 (board_forwarded (n, c, bs))), w2) \<and>
    board_running k A (\<not> slot) (tog = even (length (bulk_packets 1024 (board_forwarded (n, c, bs))))) w2"
proof -
  let ?a = "if slot then A_RX_DMA_1 A else A_RX_DMA_0 A" and ?l = "bulk_length 1024 (unat n)"
  note ad = board_addresses [OF A]
  have n: "unat n \<le> 4096" "?l \<le> length bs" "length bs \<le> 4096" using p by (simp_all add: board_packet_stored_def)
  have cur: "current_rx_dma (board_serdes w) = ?a" and h: "serdes_user_handled w = User_handler (A_serdes_rx_callback A)"
    using w by (simp_all add: board_running_def)
  obtain c' s' where irq: "SERDES_IRQHandler sb bits (A_RX_DMA_0 A) (A_RX_DMA_1 A)
      (if slot then (board_serdes w)\<lparr>reg_SDS_DATA1 := serdes_header n c\<rparr> else (board_serdes w)\<lparr>reg_SDS_DATA0 := serdes_header n c\<rparr>) =
      ([(?a, n, c')], s')" "current_rx_dma s' = (if slot then A_RX_DMA_0 A else A_RX_DMA_1 A)"
    using serdes_irq_event [OF sb _ cur ad(9), of n c] n(1) by auto
  let ?w = "w\<lparr>usb_memory := mem_write ?a bs (usb_memory w), board_serdes := s'\<rparr>"
  have w': "board_running k A (\<not> slot) tog ?w" using w irq(2) by (auto simp: board_running_def)
  have mem: "mem_bytes (usb_memory ?w) ?a ?l = board_forwarded (n, c, bs)"
    using mem_bytes_write [of bs "length bs" ?a "usb_memory w"] take_mem_bytes [OF n(2), of "usb_memory ?w" ?a] n(3)
    by (simp add: board_forwarded_def)
  have ptr: "?a \<noteq> 0" "unat ?a + unat n < 2 ^ 32" using ad n by auto
  from board_sends [OF k e w' n(1) ptr, of r3] obtain w0 w1 where
    s: "endp_tx_set_new_buffer (usb2_endpoints_backend_handled k r3) Usb_device_0 1 ?a n ?w = Some (True, w0)"
      "board_fetch k e n w0 = Some (with_toggles tog (bulk_packets 1024 (board_forwarded (n, c, bs))), w1)"
      "board_running k A (\<not> slot) (tog = even (length (bulk_packets 1024 (board_forwarded (n, c, bs))))) w1"
    unfolding mem by auto
  have "board_receive (usb2_endpoints_backend_handled k r3) A sb bits slot (n, c, bs) w = Some w0"
    using irq(1) s(1) h
    by (simp add: board_receive_def board_SERDES_IRQHandler_def call_serdes_rx_def serdes_rx_callback_def)
  with s(2,3) show ?thesis by blast
qed

text \<open>A packet replaces what endpoint 1 was about to send; only the toggle remains.\<close>

lemma board_receive_running:
  assumes k: "usb2_flags_ok k" and A: "board_linked A" and sb: "serdes_bsp_ok sb bits"
    and w: "board_running k A slot tog w" and n: "unat n \<le> 4096"
  shows "\<exists>w1. board_receive (usb2_endpoints_backend_handled k r3) A sb bits slot (n, c, bs) w = Some w1 \<and>
    board_running k A (\<not> slot) tog w1"
proof -
  let ?a = "if slot then A_RX_DMA_1 A else A_RX_DMA_0 A"
  note ad = board_addresses [OF A]
  have cur: "current_rx_dma (board_serdes w) = ?a" and h: "serdes_user_handled w = User_handler (A_serdes_rx_callback A)"
    using w by (simp_all add: board_running_def)
  obtain c' s' where irq: "SERDES_IRQHandler sb bits (A_RX_DMA_0 A) (A_RX_DMA_1 A)
      (if slot then (board_serdes w)\<lparr>reg_SDS_DATA1 := serdes_header n c\<rparr> else (board_serdes w)\<lparr>reg_SDS_DATA0 := serdes_header n c\<rparr>) =
      ([(?a, n, c')], s')" "current_rx_dma s' = (if slot then A_RX_DMA_0 A else A_RX_DMA_1 A)"
    using serdes_irq_event [OF sb _ cur ad(9), of n c] n by auto
  let ?w = "w\<lparr>usb_memory := mem_write ?a bs (usb_memory w), board_serdes := s'\<rparr>"
  have w': "board_running k A (\<not> slot) tog ?w" using w irq(2) by (auto simp: board_running_def)
  have d: "usb2_backend_current_device ?w = Usb_device_0" using w by (simp add: board_running_def)
  note W = w' [unfolded board_running_def d]
  have ready: "be_tx_ready (usb2_endpoints_backend_handled k r3) (dev_speed (usb_devices ?w Usb_device_0)) = usb2_endp_tx_ready k"
    using W by (simp add: be_tx_ready_def usb2_endpoints_backend_handled_def)
  have able: "usb2_able k 1024 tog (unat (1 :: u8)) n ?w"
    using W k d by (auto simp: usb2_able_def bulk_ready_def usb2_flags_ok_def endp_bank_def)
  have c: "crit_ok (usb_crit ?w)" "?a \<noteq> 0" "n \<le> ep_max_packet_size_with_burst (ep_tx (endpoints (usb_devices ?w Usb_device_0)) (unat (1 :: u8)))"
    using W ad n by (simp_all add: word_le_nat_alt)
  from usb2_tx.set_new_buffer_sends [OF ready d able c] obtain w0 where w0:
    "endp_tx_set_new_buffer (usb2_endpoints_backend_handled k r3) Usb_device_0 1 ?a n ?w = Some (True, w0)"
    "usb2_armed k 1024 tog (unat (1 :: u8)) ?a n w0" "usb_crit w0 = usb_crit ?w" "usb2_backend_current_device w0 = Usb_device_0"
    "usb_devices w0 = (usb_devices ?w)(Usb_device_0 := upd_ep_tx (unat (1 :: u8)) (\<lambda>p. p\<lparr>ep_buffer := ?a\<rparr>) (usb_devices ?w Usb_device_0))" by blast
  have "usb2_world.more w0 = usb2_world.more ?w" by (rule set_new_buffer_more [OF w0(1)]) (use W in simp_all)
  note m = more_fields [OF this]
  have "endp_bank (of_nat (unat (1 :: u8))) = Some UEP1" by (simp add: endp_bank_def)
  then have "R8_UEP_CTRL w0 (UEP_TX_CTRL UEP1) AND RB_UEP_T_TOG_1 k = (if tog then RB_UEP_T_TOG_1 k else 0)"
    using w0(2) by (simp add: usb2_armed_def bulk_sending_def)
  then have "board_running k A (\<not> slot) tog w0"
    using W w0(3-5) m unfolding board_running_def by (simp add: upd_ep_tx_def)
  moreover have "board_receive (usb2_endpoints_backend_handled k r3) A sb bits slot (n, c, bs) w = Some w0"
    using irq(1) w0(1) h by (simp add: board_receive_def board_SERDES_IRQHandler_def call_serdes_rx_def serdes_rx_callback_def)
  ultimately show ?thesis by blast
qed

text \<open>However many packets arrive before the host fetches, it gets the last one.\<close>

lemma board_forwards_last:
  assumes k: "usb2_flags_ok k" and A: "board_linked A" and e: "board_env A e" and sb: "serdes_bsp_ok sb bits"
    and w: "board_running k A slot tog w" and ps: "list_all (\<lambda>(n, c, bs). unat n \<le> 4096) ps" and p: "board_packet_stored (n, c, bs)"
  shows "\<exists>w1 w2. board_receives (usb2_endpoints_backend_handled k r3) A sb bits slot (ps @ [(n, c, bs)]) w = Some w1 \<and>
    board_fetch k e n w1 = Some (with_toggles tog (bulk_packets 1024 (board_forwarded (n, c, bs))), w2) \<and>
    board_running k A (slot = even (Suc (length ps))) (tog = even (length (bulk_packets 1024 (board_forwarded (n, c, bs))))) w2"
  using w ps
proof (induction ps arbitrary: slot w)
  case Nil
  from board_forwards_one [OF k A e sb Nil(1) p, of r3] show ?case by auto
next
  case (Cons q ps)
  obtain n1 c1 bs1 where q: "q = (n1, c1, bs1)" by (cases q)
  with board_receive_running [OF k A sb Cons.prems(1), of n1 r3 c1 bs1] Cons.prems(2) obtain w1 where
    w1: "board_receive (usb2_endpoints_backend_handled k r3) A sb bits slot (n1, c1, bs1) w = Some w1" "board_running k A (\<not> slot) tog w1" by auto
  have "((\<not> slot) = even (Suc (length ps))) = (slot = even (Suc (length (q # ps))))" by auto
  then show ?case using Cons.IH [OF w1(2)] Cons.prems(2) w1(1) q by simp
qed

lemma board_stream_delivers:
  assumes "usb2_flags_ok k" and "board_linked A" and "board_env A e" and "serdes_bsp_ok sb bits" and "board_running k A slot tog w"
    and "\<forall>g \<in> set gs. g \<noteq> [] \<and> (\<forall>(n, c, bs) \<in> set g. unat n \<le> 4096) \<and> board_packet_stored (last g)"
  shows "\<exists>qss w' slot' tog'. board_stream k e (usb2_endpoints_backend_handled k r3) A sb bits slot gs w = Some (qss, w') \<and>
    concat qss = with_toggles tog (concat (map (\<lambda>g. bulk_packets 1024 (board_forwarded (last g))) gs)) \<and>
    map (\<lambda>qs. concat (map snd qs)) qss = map (\<lambda>g. board_forwarded (last g)) gs \<and> board_running k A slot' tog' w'"
  using assms(5,6)
proof (induction gs arbitrary: slot tog w)
  case (Cons g gs)
  let ?bp = "bulk_packets 1024 (board_forwarded (last g))"
  obtain n c bs where p: "last g = (n, c, bs)" by (cases "last g")
  have g: "g = butlast g @ [(n, c, bs)]" using Cons.prems(2) p by (metis append_butlast_last_id list.set_intros(1))
  have "\<forall>(n, c, bs) \<in> set g. unat n \<le> 4096" "board_packet_stored (n, c, bs)" using Cons.prems(2) p by auto
  moreover from this(1) have "list_all (\<lambda>(n, c, bs). unat n \<le> 4096) (butlast g)" by (auto simp: list_all_iff dest: in_set_butlastD)
  moreover have "Suc (length (butlast g)) = length g" by (subst (2) g) simp
  ultimately obtain w1 w2 where w2: "board_receives (usb2_endpoints_backend_handled k r3) A sb bits slot g w = Some w1"
    "board_fetch k e n w1 = Some (with_toggles tog ?bp, w2)" "board_running k A (slot = even (length g)) (tog = even (length ?bp)) w2"
    using board_forwards_last [OF assms(1-4) Cons.prems(1), of "butlast g" n c bs r3] p g by metis
  from Cons.IH [OF w2(3)] Cons.prems(2) obtain qss w' slot' tog' where
    "board_stream k e (usb2_endpoints_backend_handled k r3) A sb bits (slot = even (length g)) gs w2 = Some (qss, w')"
    "concat qss = with_toggles (tog = even (length ?bp)) (concat (map (\<lambda>g. bulk_packets 1024 (board_forwarded (last g))) gs))"
    "map (\<lambda>qs. concat (map snd qs)) qss = map (\<lambda>g. board_forwarded (last g)) gs" "board_running k A slot' tog' w'" by auto
  then show ?case using w2(1,2) p by (simp add: with_toggles_append concat_bulk_packets) blast
qed auto

text \<open>
  C4. What the debug board forwards: packets of up to 4096 bytes arrive over SerDes, any number of them between two fetches of the
  host. Each fetch returns exactly one of them, the last to have arrived, in packets of 1024 bytes whose toggles alternate without
  a break across the whole stream, and the board stays ready; so a host that fetches after every arrival misses nothing, and any
  other loses what it let pass. The bytes are those of the packet when its size is at most 1024 or a multiple of 1024; for other sizes
  the last USB packet is filled up with what lies behind (see \<open>Usb2_Bulk\<close>). The endpoint descriptor of the board announces 512 bytes: the
  packets keep to that exactly as long as nothing larger is forwarded.
\<close>

theorem debug_board_forwards:
  assumes "usb2_flags_ok k" and "board_linked A" and "board_env A e" and "serdes_bsp_ok sb bits" and "board_running k A slot tog w"
    and "\<forall>g \<in> set gs. g \<noteq> [] \<and> (\<forall>(n, c, bs) \<in> set g. unat n \<le> 4096) \<and> board_packet_stored (last g)"
  shows "\<exists>qss w' slot' tog'. board_stream k e (usb2_endpoints_backend_handled k r3) A sb bits slot gs w = Some (qss, w') \<and>
    concat qss = with_toggles tog (concat (map (\<lambda>g. bulk_packets 1024 (board_forwarded (last g))) gs)) \<and>
    map (\<lambda>qs. concat (map snd qs)) qss = map (\<lambda>g. board_forwarded (last g)) gs \<and>
    (\<forall>(n, c, bs) \<in> set (map last gs). unat n \<le> 1024 \<or> unat n mod 1024 = 0 \<longrightarrow> board_forwarded (n, c, bs) = take (unat n) bs) \<and>
    ((\<forall>q \<in> set (concat qss). length (snd q) \<le> 512) \<longleftrightarrow> (\<forall>(n, c, bs) \<in> set (map last gs). unat n \<le> 512)) \<and>
    board_running k A slot' tog' w'"
proof -
  from board_stream_delivers [OF assms, of r3] obtain qss w' slot' tog' where q: "board_stream k e (usb2_endpoints_backend_handled k r3) A sb bits slot gs w = Some (qss, w')"
    "concat qss = with_toggles tog (concat (map (\<lambda>g. bulk_packets 1024 (board_forwarded (last g))) gs))"
    "map (\<lambda>qs. concat (map snd qs)) qss = map (\<lambda>g. board_forwarded (last g)) gs" "board_running k A slot' tog' w'" by blast
  have "(\<forall>q \<in> set (concat qss). length (snd q) \<le> 512) \<longleftrightarrow> (\<forall>x \<in> set (map snd (concat qss)). length x \<le> 512)"
    by (metis (no_types, lifting) image_iff list.set_map)
  also have "\<dots> \<longleftrightarrow> (\<forall>g \<in> set gs. length (board_forwarded (last g)) \<le> 512)"
    unfolding q(2) map_snd_with_toggles by (simp add: bulk_packets_512)
  also have "\<dots> \<longleftrightarrow> (\<forall>(n, c, bs) \<in> set (map last gs). unat n \<le> 512)"
  proof -
    have "length (board_forwarded (last g)) \<le> 512 \<longleftrightarrow> unat (fst (last g)) \<le> 512" if "g \<in> set gs" for g
      using assms(6) that forwarded_512 by (cases "last g") auto
    then show ?thesis by (simp add: split_beta)
  qed
  finally have limit: "(\<forall>q \<in> set (concat qss). length (snd q) \<le> 512) \<longleftrightarrow> (\<forall>(n, c, bs) \<in> set (map last gs). unat n \<le> 512)" .
  have "\<forall>(n, c, bs) \<in> set (map last gs). unat n \<le> 1024 \<or> unat n mod 1024 = 0 \<longrightarrow> board_forwarded (n, c, bs) = take (unat n) bs"
    by (auto simp: board_forwarded_def bulk_length_exact)
  with q limit show ?thesis by blast
qed

definition demo_running :: "unit board_world" where
  "demo_running = usb2_world.extend (demo_usb2\<lparr>usb_devices := (\<lambda>_. (board_device demo_map)\<lparr>dev_state := CONFIGURED\<rparr>)\<rparr>)
     (board_world.fields () (demo_serdes\<lparr>current_rx_dma := 0x20023000\<rparr>) demo_log0 (User_handler 0x200) True 1000 None)"

lemma demo_running_ok: "board_running demo_consts demo_map False False demo_running"
  by (simp add: board_running_def demo_running_def usb2_world.extend_def board_world.fields_def demo_usb2_def demo_consts_def)
    (simp add: demo_map_def)

theorem debug_board_forwards_witness:
  "\<forall>r3. \<exists>qss w'. board_stream demo_consts demo_board_env (usb2_endpoints_backend_handled demo_consts r3) demo_map
      demo_serdes_bsp demo_serdes_bits False [[(3, 7, [1, 2, 3, 9])], [(1, 0, [6]), (2, 0, [4, 5])]] demo_running = Some (qss, w') \<and>
    concat qss = [(False, [1, 2, 3]), (True, [4, 5])] \<and> map (\<lambda>qs. concat (map snd qs)) qss = [[1, 2, 3], [4, 5]]"
proof
  fix r3
  have l: "bulk_length 1024 3 = 3" "bulk_length 1024 2 = 2" by (simp_all add: bulk_length_short)
  have ok: "\<forall>g \<in> set [[(3, 7, [1, 2, 3, 9])], [(1, 0, [6]), (2, 0, [4, 5])]]. g \<noteq> [] \<and> (\<forall>(n, c, bs) \<in> set g. unat n \<le> 4096) \<and> board_packet_stored (last g)"
    by (simp add: board_packet_stored_def l)
  from debug_board_forwards [OF demo_flags_ok demo_board_ok(2) demo_board_start(2,3) demo_running_ok ok, of r3]
  show "\<exists>qss w'. board_stream demo_consts demo_board_env (usb2_endpoints_backend_handled demo_consts r3) demo_map
      demo_serdes_bsp demo_serdes_bits False [[(3, 7, [1, 2, 3, 9])], [(1, 0, [6]), (2, 0, [4, 5])]] demo_running = Some (qss, w') \<and>
    concat qss = [(False, [1, 2, 3]), (True, [4, 5])] \<and> map (\<lambda>qs. concat (map snd qs)) qss = [[1, 2, 3], [4, 5]]"
    by (auto simp: board_forwarded_def l bulk_packets_short simp del: board_stream.simps)
qed

section \<open>Packets the host does not fetch in time\<close>



end
