(* ===== verification/Usb30_Regs.thy ===== *)
theory Usb30_Regs
  imports Usb2
begin

text \<open>
  The state of the USB 3.0 backend: the variables of \<open>usb/usb30.c\<close> (the per-endpoint variables
  \<open>ep<n>_...\<close> are functions of the endpoint number, as the getters of \<open>usb/usb30.h\<close> give them to the
  code) and the \<open>USBSS\<close> registers, with the operations of \<open>usb/usb30_utils.h\<close>. The endpoint control
  registers are functions of the endpoint number, which the code uses as an index; a number above 7
  is a location behind the eight endpoints. Flag registers are written through the environment, since
  a write clears bits. A polling loop runs until the hardware answers; \<open>None\<close> is one that never ends.
\<close>

record usb3_world = usb2_world +
  usb3_backend_current_device :: usb_device_id
  tx_lmp_port :: u8
  link_sta :: u8
  SetupLen :: u16
  SetupReqCode :: u8
  pDescr :: u32
  usb2_fallback_enabled :: bool
  ep_rx_total_length :: "nat \<Rightarrow> u16"
  ep_rx_previously_set_max_burst :: "nat \<Rightarrow> u8"
  ep_tx_remaining_length :: "nat \<Rightarrow> u16"
  ep_tx_total_bursts :: "nat \<Rightarrow> u8"
  ep0_in_count :: u32
  LINK_CFG :: u32
  LINK_CTRL :: u32
  LINK_INT_CTRL :: u32
  LINK_INT_FLAG :: u32
  LINK_STATUS :: u32
  USB_CONTROL :: u32
  USB_STATUS :: u32
  USB_FC_CTRL :: u32
  USB_ITP :: u32
  UEP_CFG :: u32
  LMP_RX_DATA0 :: u32
  LMP_TX_DATA0 :: u32
  LMP_TX_DATA1 :: u32
  LMP_TX_DATA2 :: u32
  SS_UEP0_DMA :: u32
  SS_TX_DMA :: "nat \<Rightarrow> u32"
  SS_RX_DMA :: "nat \<Rightarrow> u32"
  SS_TX_CONTRL :: "nat \<Rightarrow> u32"
  SS_RX_CONTRL :: "nat \<Rightarrow> u32"

abbreviation dev3 :: "'a usb3_world_scheme \<Rightarrow> usb_device" where
  "dev3 w \<equiv> usb_devices w (usb3_backend_current_device w)"

abbreviation rx0_buffer3 :: "'a usb3_world_scheme \<Rightarrow> u32" where
  "rx0_buffer3 w \<equiv> ep_buffer (ep_rx (endpoints (dev3 w)) 0)"

definition upd_dev3 :: "(usb_device \<Rightarrow> usb_device) \<Rightarrow> 'a usb3_world_scheme \<Rightarrow> 'a usb3_world_scheme" where
  "upd_dev3 f w = upd_device (usb3_backend_current_device w) f w"

definition wr_ss_tx :: "nat \<Rightarrow> u32 \<Rightarrow> 'a usb3_world_scheme \<Rightarrow> 'a usb3_world_scheme" where
  "wr_ss_tx n v w = w\<lparr>SS_TX_CONTRL := (SS_TX_CONTRL w)(n := v)\<rparr>"

definition wr_ss_rx :: "nat \<Rightarrow> u32 \<Rightarrow> 'a usb3_world_scheme \<Rightarrow> 'a usb3_world_scheme" where
  "wr_ss_rx n v w = w\<lparr>SS_RX_CONTRL := (SS_RX_CONTRL w)(n := v)\<rparr>"

definition wr_ss_tx_dma :: "nat \<Rightarrow> u32 \<Rightarrow> 'a usb3_world_scheme \<Rightarrow> 'a usb3_world_scheme" where
  "wr_ss_tx_dma n v w = w\<lparr>SS_TX_DMA := (SS_TX_DMA w)(n := v)\<rparr>"

definition wr_ss_rx_dma :: "nat \<Rightarrow> u32 \<Rightarrow> 'a usb3_world_scheme \<Rightarrow> 'a usb3_world_scheme" where
  "wr_ss_rx_dma n v w = w\<lparr>SS_RX_DMA := (SS_RX_DMA w)(n := v)\<rparr>"

definition set_remaining :: "nat \<Rightarrow> u16 \<Rightarrow> 'a usb3_world_scheme \<Rightarrow> 'a usb3_world_scheme" where
  "set_remaining n v w = w\<lparr>ep_tx_remaining_length := (ep_tx_remaining_length w)(n := v)\<rparr>"

definition set_bursts :: "nat \<Rightarrow> u8 \<Rightarrow> 'a usb3_world_scheme \<Rightarrow> 'a usb3_world_scheme" where
  "set_bursts n v w = w\<lparr>ep_tx_total_bursts := (ep_tx_total_bursts w)(n := v)\<rparr>"

definition set_total :: "nat \<Rightarrow> u16 \<Rightarrow> 'a usb3_world_scheme \<Rightarrow> 'a usb3_world_scheme" where
  "set_total n v w = w\<lparr>ep_rx_total_length := (ep_rx_total_length w)(n := v)\<rparr>"

definition set_prev_burst :: "nat \<Rightarrow> u8 \<Rightarrow> 'a usb3_world_scheme \<Rightarrow> 'a usb3_world_scheme" where
  "set_prev_burst n v w = w\<lparr>ep_rx_previously_set_max_burst := (ep_rx_previously_set_max_burst w)(n := v)\<rparr>"

section \<open>Constants\<close>

definition ss_NRDY :: u8 where "ss_NRDY = 0"
definition ss_ACK :: u8 where "ss_ACK = 1"
definition ss_STALL :: u8 where "ss_STALL = 2"

definition POWER_MODE_0 :: u8 where "POWER_MODE_0 = 0"
definition POWER_MODE_1 :: u8 where "POWER_MODE_1 = 1"
definition POWER_MODE_2 :: u8 where "POWER_MODE_2 = 2"
definition POWER_MODE_3 :: u8 where "POWER_MODE_3 = 3"

text \<open>\<open>EP<n>_R_EN\<close> and \<open>EP<n>_T_EN\<close>.\<close>

definition EP_R_EN :: "nat \<Rightarrow> u32" where "EP_R_EN n = push_bit n 1"
definition EP_T_EN :: "nat \<Rightarrow> u32" where "EP_T_EN n = push_bit (8 + n) 1"

definition TERM_EN :: u32 where "TERM_EN = push_bit 1 1"
definition PIPE_RESET :: u32 where "PIPE_RESET = push_bit 3 1"
definition LFPS_RX_PD :: u32 where "LFPS_RX_PD = push_bit 5 1"
definition CFG_EQ_EN :: u32 where "CFG_EQ_EN = push_bit 6 1"
definition DEEMPH_CFG :: u32 where "DEEMPH_CFG = push_bit 8 1"
definition LINK_PRESENT :: u32 where "LINK_PRESENT = push_bit 0 1"
definition RX_WARM_RESET :: u32 where "RX_WARM_RESET = push_bit 1 1"
definition GO_DISABLED :: u32 where "GO_DISABLED = push_bit 4 1"
definition POLLING_EN :: u32 where "POLLING_EN = push_bit 12 1"
definition TX_HOT_RESET :: u32 where "TX_HOT_RESET = push_bit 16 1"
definition TX_WARM_RESET :: u32 where "TX_WARM_RESET = push_bit 8 1"

definition LINK_RDY_FLAG :: u32 where "LINK_RDY_FLAG = push_bit 0 1"
definition LINK_INACT_FLAG :: u32 where "LINK_INACT_FLAG = push_bit 2 1"
definition LINK_DISABLE_FLAG :: u32 where "LINK_DISABLE_FLAG = push_bit 3 1"
definition LINK_GO_U3_FLAG :: u32 where "LINK_GO_U3_FLAG = push_bit 4 1"
definition LINK_GO_U2_FLAG :: u32 where "LINK_GO_U2_FLAG = push_bit 5 1"
definition LINK_GO_U1_FLAG :: u32 where "LINK_GO_U1_FLAG = push_bit 6 1"
definition TERM_PRESENT_FLAG :: u32 where "TERM_PRESENT_FLAG = push_bit 10 1"
definition LINK_TXEQ_FLAG :: u32 where "LINK_TXEQ_FLAG = push_bit 11 1"
definition LINK_Ux_EXIT_FLAG :: u32 where "LINK_Ux_EXIT_FLAG = push_bit 12 1"
definition WARM_RESET_FLAG :: u32 where "WARM_RESET_FLAG = push_bit 13 1"
definition HOT_RESET_FLAG :: u32 where "HOT_RESET_FLAG = push_bit 15 1"
definition LINK_RX_DET_FLAG :: u32 where "LINK_RX_DET_FLAG = push_bit 20 1"

definition USB_FORCE_RST :: u32 where "USB_FORCE_RST = push_bit 2 1"
definition USB_ALL_CLR :: u32 where "USB_ALL_CLR = push_bit 1 1"
definition LMP_HP :: u32 where "LMP_HP = 0"
definition PORT_CAP :: u32 where "PORT_CAP = push_bit 5 4"
definition LINK_SPEED :: u32 where "LINK_SPEED = push_bit 9 1"
definition NUM_HP_BUF :: u32 where "NUM_HP_BUF = push_bit 0 4"
definition UP_STREAM :: u32 where "UP_STREAM = push_bit 16 2"

definition ENDP0_MAX_PACKET_SIZE :: u16 where "ENDP0_MAX_PACKET_SIZE = 512"

section \<open>The getters of \<open>usb30.h\<close>\<close>

text \<open>The variable of an endpoint from 1 to 7; \<open>None\<close> is \<open>NULL\<close>.\<close>

definition ss_endpoint :: "u8 \<Rightarrow> nat option" where
  "ss_endpoint endp = (if endp \<in> {1, 2, 3, 4, 5, 6, 7} then Some (unat endp) else None)"

definition usb30_get_rx_endpoint_total_length :: "u8 \<Rightarrow> nat option" where
  "usb30_get_rx_endpoint_total_length = ss_endpoint"

definition usb30_get_rx_endpoint_prev_set_max_burst :: "u8 \<Rightarrow> nat option" where
  "usb30_get_rx_endpoint_prev_set_max_burst = ss_endpoint"

definition usb30_get_tx_endpoint_remaining_length :: "u8 \<Rightarrow> nat option" where
  "usb30_get_tx_endpoint_remaining_length = ss_endpoint"

definition usb30_get_tx_endpoint_total_bursts :: "u8 \<Rightarrow> nat option" where
  "usb30_get_tx_endpoint_total_bursts = ss_endpoint"

definition usb30_get_rx_endpoint_addr_reg :: "u8 \<Rightarrow> nat option" where
  "usb30_get_rx_endpoint_addr_reg = ss_endpoint"

definition usb30_get_tx_endpoint_addr_reg :: "u8 \<Rightarrow> nat option" where
  "usb30_get_tx_endpoint_addr_reg = ss_endpoint"

section \<open>\<open>usb30_utils.h\<close>\<close>

partial_function (option) usb30_wait_link ::
    "('a usb3_world_scheme) usb_env \<Rightarrow> 'a usb3_world_scheme \<Rightarrow> ('a usb3_world_scheme) option" where
  "usb30_wait_link e w = (if LINK_STATUS w AND 4 \<noteq> 0 then usb30_wait_link e (poll_step e w) else Some w)"

definition usb30_switch_powermode ::
    "('a usb3_world_scheme) usb_env \<Rightarrow> u8 \<Rightarrow> 'a usb3_world_scheme \<Rightarrow> 'a usb3_world_scheme option" where
  "usb30_switch_powermode e pwr_mode w = do {
     w1 \<leftarrow> usb30_wait_link e w;
     let w2 = w1\<lparr>LINK_CTRL := LINK_CTRL w1 AND 0xfffffffc\<rparr>;
     Some (w2\<lparr>LINK_CTRL := LINK_CTRL w2 OR ucast pwr_mode\<rparr>) }"

definition usb30_out_set :: "u8 \<Rightarrow> u8 \<Rightarrow> u8 \<Rightarrow> 'a usb3_world_scheme \<Rightarrow> 'a usb3_world_scheme" where
  "usb30_out_set endp status nump w =
     wr_ss_rx (unat endp) (SS_RX_CONTRL w (unat endp) OR push_bit 16 (ucast nump) OR push_bit 26 (ucast status)) w"

definition usb30_device_set_address :: "u32 \<Rightarrow> 'a usb3_world_scheme \<Rightarrow> 'a usb3_world_scheme" where
  "usb30_device_set_address address w =
     (let w1 = w\<lparr>USB_CONTROL := USB_CONTROL w AND 0x00ffffff\<rparr>
      in w1\<lparr>USB_CONTROL := USB_CONTROL w1 OR push_bit 24 address\<rparr>)"

definition usb30_in_nump :: "u8 \<Rightarrow> 'a usb3_world_scheme \<Rightarrow> u8" where
  "usb30_in_nump endp w = ucast (drop_bit 16 (SS_TX_CONTRL w (unat endp)) AND 0x1f)"

definition usb30_in_set :: "u8 \<Rightarrow> bool \<Rightarrow> u8 \<Rightarrow> u8 \<Rightarrow> u16 \<Rightarrow> 'a usb3_world_scheme \<Rightarrow> 'a usb3_world_scheme" where
  "usb30_in_set endp lpf status nump TxLen w =
     wr_ss_tx (unat endp) (SS_TX_CONTRL w (unat endp) OR push_bit 16 (ucast nump) OR push_bit 26 (ucast status)
       OR (ucast TxLen AND 0x7ff) OR push_bit 28 (of_bool lpf)) w"

definition usb30_send_erdy :: "u8 \<Rightarrow> u8 \<Rightarrow> 'a usb3_world_scheme \<Rightarrow> 'a usb3_world_scheme" where
  "usb30_send_erdy endp nump w =
     (let t = ucast (endp AND 0xf) :: u32;
          t = push_bit 2 t OR push_bit 6 (ucast nump)
      in w\<lparr>USB_FC_CTRL := (if endp AND 0x80 = 0 then t OR 1 else t OR 3)\<rparr>)"

definition usb30_out_clear_interrupt :: "u8 \<Rightarrow> 'a usb3_world_scheme \<Rightarrow> 'a usb3_world_scheme" where
  "usb30_out_clear_interrupt endp w = wr_ss_rx (unat endp) (SS_RX_CONTRL w (unat endp) AND 0x03e00000) w"

definition usb30_out_clear_interrupt_all :: "u8 \<Rightarrow> 'a usb3_world_scheme \<Rightarrow> 'a usb3_world_scheme" where
  "usb30_out_clear_interrupt_all endp w = wr_ss_rx (unat endp) (SS_RX_CONTRL w (unat endp) AND 0) w"

definition usb30_in_clear_interrupt :: "u8 \<Rightarrow> 'a usb3_world_scheme \<Rightarrow> 'a usb3_world_scheme" where
  "usb30_in_clear_interrupt endp w = wr_ss_tx (unat endp) (SS_TX_CONTRL w (unat endp) AND 0x03e00000) w"

definition usb30_in_clear_interrupt_all :: "u8 \<Rightarrow> 'a usb3_world_scheme \<Rightarrow> 'a usb3_world_scheme" where
  "usb30_in_clear_interrupt_all endp w = wr_ss_tx (unat endp) (SS_TX_CONTRL w (unat endp) AND 0) w"

text \<open>The packets left, the length of the last one, and the end-of-burst bit.\<close>

definition usb30_out_status :: "u8 \<Rightarrow> 'a usb3_world_scheme \<Rightarrow> u8 \<times> u16 \<times> u8" where
  "usb30_out_status endp w =
     (let t = SS_RX_CONTRL w (unat endp)
      in (ucast (drop_bit 16 t AND 31), ucast (t AND 0xffff), ucast (drop_bit 0x1d t AND 1)))"

lemmas ss_writes = wr_ss_tx_def wr_ss_rx_def wr_ss_tx_dma_def wr_ss_rx_dma_def set_remaining_def set_bursts_def
  set_total_def set_prev_burst_def upd_dev3_def upd_device_def

lemmas ss_utils = usb30_out_set_def usb30_in_set_def usb30_in_nump_def usb30_send_erdy_def usb30_out_clear_interrupt_def
  usb30_in_clear_interrupt_def usb30_out_status_def usb30_out_clear_interrupt_all_def usb30_in_clear_interrupt_all_def
  usb30_device_set_address_def

lemmas ss_getters = usb30_get_rx_endpoint_total_length_def usb30_get_rx_endpoint_prev_set_max_burst_def
  usb30_get_tx_endpoint_remaining_length_def usb30_get_tx_endpoint_total_bursts_def
  usb30_get_rx_endpoint_addr_reg_def usb30_get_tx_endpoint_addr_reg_def

end
