(* ===== verification/Usb30.thy ===== *)
theory Usb30
  imports Usb30_Regs
begin

text \<open>
  \<open>usb/usb30.c\<close>: every operation of the USB 3.0 backend, in the order of the file. Blocks the code
  repeats for endpoints 1 to 7 are a definition of the endpoint number. Waiting loops end when the
  hardware answers (\<open>poll_step\<close>); one that never does is \<open>None\<close>, like a dereferenced \<open>NULL\<close>.
\<close>

section \<open>Endpoint configuration\<close>

definition usb30_init_tx :: "nat \<Rightarrow> 'a usb3_world_scheme \<Rightarrow> 'a usb3_world_scheme" where
  "usb30_init_tx n w =
     (if endpoint_mask (dev3 w) AND ENDPOINT_TX n \<noteq> 0 then
        let w1 = w\<lparr>UEP_CFG := UEP_CFG w OR EP_T_EN n\<rparr>;
            w2 = wr_ss_tx_dma n (ep_buffer (ep_tx (endpoints (dev3 w1)) n)) w1;
            w3 = usb30_in_set (of_nat n) False ss_NRDY 0 0 w2
        in upd_dev3 (upd_ep_tx n (\<lambda>p. p\<lparr>ep_state := ENDP_STATE_NAK\<rparr>)) w3
      else w)"

definition usb30_init_rx :: "nat \<Rightarrow> 'a usb3_world_scheme \<Rightarrow> 'a usb3_world_scheme" where
  "usb30_init_rx n w =
     (if endpoint_mask (dev3 w) AND ENDPOINT_RX n \<noteq> 0 then
        let w1 = w\<lparr>UEP_CFG := UEP_CFG w OR EP_R_EN n\<rparr>;
            w2 = wr_ss_rx_dma n (ep_buffer (ep_rx (endpoints (dev3 w1)) n)) w1;
            w3 = usb30_out_set (of_nat n) ss_ACK (ep_max_burst (ep_rx (endpoints (dev3 w2)) n)) w2;
            w4 = set_prev_burst n (ep_max_burst (ep_rx (endpoints (dev3 w3)) n)) w3
        in upd_dev3 (upd_ep_rx n (\<lambda>p. p\<lparr>ep_state := ENDP_STATE_ACK\<rparr>)) w4
      else w)"

definition usb30_init_endpoints :: "'a usb3_world_scheme \<Rightarrow> 'a usb3_world_scheme" where
  "usb30_init_endpoints w =
     fold (\<lambda>n v. usb30_init_rx n (usb30_init_tx n v)) [1, 2, 3, 4, 5, 6, 7]
       (w\<lparr>UEP_CFG := EP_R_EN 0 OR EP_T_EN 0, SS_UEP0_DMA := rx0_buffer3 w\<rparr>)"

definition usb30_reinit_endpoints :: "'a usb3_world_scheme \<Rightarrow> 'a usb3_world_scheme" where
  "usb30_reinit_endpoints w =
     usb30_init_endpoints
       (fold (\<lambda>n v. usb30_out_clear_interrupt_all n (usb30_in_clear_interrupt_all n v)) [1, 2, 3, 4, 5, 6, 7] w)"

section \<open>Start and stop\<close>

text \<open>\<open>t\<close> rounds of waiting for the link; the code spins forever when they run out.\<close>

fun usb30_init_wait :: "('a usb3_world_scheme) usb_env \<Rightarrow> nat \<Rightarrow> 'a usb3_world_scheme \<Rightarrow> ('a usb3_world_scheme) option" where
  "usb30_init_wait e 0 w = None"
| "usb30_init_wait e (Suc t) w =
     (if LINK_STATUS w AND 4 = 0 then Some w
      else if t = 0 then None else usb30_init_wait e t (poll_step e w))"

text \<open>\<open>USBSS->USB_STATUS = v\<close> and \<open>USBSS->LINK_INT_FLAG = v\<close>.\<close>

definition write_usb_status :: "('a usb3_world_scheme) usb_env \<Rightarrow> u32 \<Rightarrow> 'a usb3_world_scheme \<Rightarrow> 'a usb3_world_scheme" where
  "write_usb_status e v w = w\<lparr>USB_STATUS := usb_status_write e (USB_STATUS w) v\<rparr>"

definition write_link_flag :: "('a usb3_world_scheme) usb_env \<Rightarrow> u32 \<Rightarrow> 'a usb3_world_scheme \<Rightarrow> 'a usb3_world_scheme" where
  "write_link_flag e v w = w\<lparr>LINK_INT_FLAG := link_int_flag_write e (LINK_INT_FLAG w) v\<rparr>"

definition usb30_device_init ::
    "('a usb3_world_scheme) usb_env \<Rightarrow> bool \<Rightarrow> 'a usb3_world_scheme \<Rightarrow> 'a usb3_world_scheme option" where
  "usb30_device_init e enable_usb2_fallback w = do {
     let w1 = w\<lparr>usb2_fallback_enabled := enable_usb2_fallback\<rparr>;
     let w2 = PFIC_EnableIRQ e LINK_IRQn (PFIC_EnableIRQ e USBSS_IRQn w1);
     w3 \<leftarrow> usb30_init_wait e 0x4c4b41 (w2\<lparr>LINK_CFG := 0x140, LINK_CTRL := 0x12\<rparr>);
     let w4 = fold (\<lambda>i v. wr_ss_rx i 0 (wr_ss_tx i 0 v)) [0, 1, 2, 3, 4, 5, 6, 7] w3;
     let w5 = write_usb_status e 0x13 w4;
     let w6 = w5\<lparr>USB_CONTROL := 0x30021, UEP_CFG := 0\<rparr>;
     let w7 = w6\<lparr>LINK_CFG := LINK_CFG w6 OR 2\<rparr>;
     Some (usb30_init_endpoints (w7\<lparr>LINK_INT_CTRL := 0x10bc7d, LINK_CTRL := 2\<rparr>)) }"

definition usb30_device_deinit ::
    "('a usb3_world_scheme) usb_env \<Rightarrow> 'a usb3_world_scheme \<Rightarrow> 'a usb3_world_scheme option" where
  "usb30_device_deinit e w = do {
     w1 \<leftarrow> usb30_switch_powermode e POWER_MODE_2 (PFIC_DisableIRQ e LINK_IRQn (PFIC_DisableIRQ e USBSS_IRQn w));
     Some (w1\<lparr>LINK_CFG := PIPE_RESET OR LFPS_RX_PD, LINK_CTRL := GO_DISABLED OR ucast POWER_MODE_3,
       LINK_INT_CTRL := 0, USB_CONTROL := USB_FORCE_RST OR USB_ALL_CLR\<rparr>) }"

definition USB30_BusReset ::
    "('a usb3_world_scheme) usb_env \<Rightarrow> 'a usb3_world_scheme \<Rightarrow> 'a usb3_world_scheme option" where
  "USB30_BusReset e w = do {
     w1 \<leftarrow> usb30_device_deinit e w;
     let w2 = bsp_wait_ms_delay e 20 w1;
     usb30_device_init e (usb2_fallback_enabled w2) w2 }"

section \<open>Endpoint 0\<close>

text \<open>The code both \<open>GET_DESCRIPTOR\<close> and the user's requests use: copy the first packet of the \<open>SetupLen\<close>
  bytes at \<open>pDescr\<close>, and remember the rest.\<close>

definition usb30_ep0_next_packet :: "'a usb3_world_scheme \<Rightarrow> (u16 \<times> 'a usb3_world_scheme) option" where
  "usb30_ep0_next_packet w =
     (let len = (if ENDP0_MAX_PACKET_SIZE \<le> SetupLen w then ENDP0_MAX_PACKET_SIZE else SetupLen w)
      in do {
        w1 \<leftarrow> usb_memcpy (rx0_buffer3 w) (pDescr w) len w;
        let w2 = w1\<lparr>SetupLen := SetupLen w1 - len\<rparr>;
        Some (len, w2\<lparr>pDescr := pDescr w2 + ucast len\<rparr>) })"

text \<open>The limit \<open>if (SetupLen > n) SetupLen = n\<close>, then \<open>pDescr = p\<close>.\<close>

definition usb30_select_descriptor :: "u32 \<Rightarrow> u16 \<Rightarrow> 'a usb3_world_scheme \<Rightarrow> 'a usb3_world_scheme" where
  "usb30_select_descriptor p n w = w\<lparr>SetupLen := (if n < SetupLen w then n else SetupLen w), pDescr := p\<rparr>"

definition usb30_get_descriptor ::
    "usb_consts \<Rightarrow> USB_SETUP \<Rightarrow> 'a usb3_world_scheme \<Rightarrow> (u16 \<times> 'a usb3_world_scheme) option" where
  "usb30_get_descriptor k req w =
     (let ds = usb_descriptors (dev3 w); m = usb_memory w; typ = bb0 (wValue req) in do {
        (len, w1) \<leftarrow>
          (if typ = USB_DESCR_TYP_DEVICE k then
             Some (0, if usb3_device_descr ds = 0 then w
               else usb30_select_descriptor (usb3_device_descr ds) (sizeof_USB_DEV_DESCR k) w)
           else if typ = USB_DESCR_TYP_CONFIG k then
             (if usb3_device_config_descrs ds = 0 then Some (0, w)
              else let cfg = load_u32 m (usb3_device_config_descrs ds) in
                if cfg = 0 then None
                else Some (0, usb30_select_descriptor cfg (load_u16 m (cfg + off_CFG_wTotalLength k)) w))
           else if typ = USB_DESCR_TYP_BOS then
             Some (0, if usb_bos_descr ds = 0 then w
               else usb30_select_descriptor (usb_bos_descr ds) (load_u16 m (usb_bos_descr ds + 2)) w)
           else if typ = USB_DESCR_TYP_STRING k then
             (if usb_string_descrs ds = 0 then Some (0, w)
              else let str = load_u32 m (usb_string_descrs ds + 4 * ucast (bb1 (wValue req))) in
                if str = 0 then None
                else Some (0, usb30_select_descriptor str (ucast (m str)) w))
           else Some (USB_DESCR_UNSUPPORTED, w\<lparr>SetupReqCode := INVALID_REQ_CODE\<rparr>));
        if len \<noteq> USB_DESCR_UNSUPPORTED then usb30_ep0_next_packet w1 else Some (len, w1) })"

definition usb30_standard_req_handler ::
    "usb_consts \<Rightarrow> 'a usb3_world_scheme \<Rightarrow> (u16 \<times> 'a usb3_world_scheme) option" where
  "usb30_standard_req_handler k w =
     (if rx0_buffer3 w = 0 then None
      else
        let req = load_setup (usb_memory w) (rx0_buffer3 w);
            c = bRequest req;
            w1 = w\<lparr>SetupReqCode := c, SetupLen := wLength req\<rparr>;
            buf = rx0_buffer3 w
        in if c = USB_GET_DESCRIPTOR k then usb30_get_descriptor k req w1
           else if c = USB_SET_ADDRESS k then Some (0, w1\<lparr>SetupLen := ucast (bb1 (wValue req))\<rparr>)
           else if c = USB_GET_CONFIGURATION k then
             Some (0, w1\<lparr>usb_memory := (usb_memory w1)(buf := current_config (dev3 w1)), SetupLen := 1\<rparr>)
           else if c = USB_SET_CONFIGURATION k then
             let w2 = usb30_reinit_endpoints w1;
                 w3 = upd_dev3 (\<lambda>v. v\<lparr>current_config := bb1 (wValue req)\<rparr>) w2
             in Some (0, if bb1 (wValue req) \<noteq> 0 then upd_dev3 (\<lambda>v. v\<lparr>dev_state := CONFIGURED\<rparr>) w3 else w3)
           else if c = USB_CLEAR_FEATURE k \<or> c = USB_SET_FEATURE k \<or> c = USB_GET_INTERFACE k \<or> c = USB_SET_INTERFACE k
             then Some (0, w1)
           else if c = USB_GET_STATUS k then
             Some (2, w1\<lparr>usb_memory := (usb_memory w1)(buf := 1, buf + 1 := 0), SetupLen := 0\<rparr>)
           else if c = 0x30 then Some (0, w1)
           else if c = 0x31 then Some (0, w1\<lparr>SetupLen := ucast (bb1 (wValue req))\<rparr>)
           else Some (USB_DESCR_UNSUPPORTED, w1\<lparr>SetupReqCode := INVALID_REQ_CODE\<rparr>))"

definition ep0_status_stage_handler :: "usb_consts \<Rightarrow> 'a usb3_world_scheme \<Rightarrow> 'a usb3_world_scheme" where
  "ep0_status_stage_handler k w =
     (if SetupReqCode w = USB_SET_ADDRESS k then
        let w1 = upd_dev3 (\<lambda>v. v\<lparr>dev_speed := USB30_SUPERSPEED, dev_state := ADDRESS\<rparr>) w
        in usb30_device_set_address (ucast (SetupLen w1)) w1
      else w)"

definition ep0_in_handler :: "'a usb3_world_scheme \<Rightarrow> (u16 \<times> 'a usb3_world_scheme) option" where
  "ep0_in_handler w = (if pDescr w \<noteq> 0 then usb30_ep0_next_packet w else Some (0, w))"

definition ep0_out_handler :: u16 where "ep0_out_handler = 0"

section \<open>The other endpoints\<close>

text \<open>The loop that takes a packet off the remaining length for every packet sent.\<close>

definition usb30_take_packet :: "u16 \<Rightarrow> u16 \<Rightarrow> u16" where
  "usb30_take_packet mps r = (if mps \<le> r then r - mps else 0)"

text \<open>The length of the last packet of a burst of \<open>nump\<close>: the comparison and the subtraction are done
  in \<open>int\<close>, the result is passed as an \<open>uint16_t\<close>.\<close>

definition usb30_burst_last :: "u16 \<Rightarrow> u8 \<Rightarrow> u16 \<Rightarrow> u16" where
  "usb30_burst_last mps nump r =
     (if uint nump * uint mps \<le> uint r then mps else word_of_int (uint r - (uint nump - 1) * uint mps))"

definition usb30_ep_in_handler ::
    "('a usb3_world_scheme) usb_env \<Rightarrow> u8 \<Rightarrow> 'a usb3_world_scheme \<Rightarrow> 'a usb3_world_scheme option" where
  "usb30_ep_in_handler e endp_num w = do {
     n \<leftarrow> usb30_get_tx_endpoint_total_bursts endp_num;
     let d = usb3_backend_current_device w;
     let mps = ep_max_packet_size (ep_tx (endpoints (dev3 w)) n);
     let nump = usb30_in_nump endp_num w;
     let num_packet_sent = ep_tx_total_bursts w n - nump;
     let r = (usb30_take_packet mps ^^ unat num_packet_sent) (ep_tx_remaining_length w n);
     let w1 = set_remaining n r w;
     if r = 0 then do {
       let w2 = usb30_in_clear_interrupt endp_num w1;
       w3 \<leftarrow> call_tx_complete e (tx_complete (endpoints (dev3 w2)) n) Ack w2;
       Some (if usb30_in_nump endp_num w3 = 0
         then wr_ss_tx_dma n 0 (usb30_in_set (endp_num OR ep_IN) False ss_NRDY 0 0 w3) else w3) }
     else
       let max_burst = ep_max_burst (ep_tx (endpoints (dev3 w)) n);
           nump = (if max_burst < nump then max_burst else nump);
           w2 = usb30_in_clear_interrupt endp_num w1;
           w3 = usb30_in_set endp_num True ss_ACK nump (usb30_burst_last mps nump r) w2;
           w4 = usb30_send_erdy (endp_num OR ep_IN) nump w3
       in Some (set_bursts n (ep_tx_total_bursts w4 n - num_packet_sent) w4) }"

definition usb30_ep_out_handler ::
    "('a usb3_world_scheme) usb_env \<Rightarrow> u8 \<Rightarrow> 'a usb3_world_scheme \<Rightarrow> 'a usb3_world_scheme option" where
  "usb30_ep_out_handler e endp_num w = do {
     n \<leftarrow> usb30_get_rx_endpoint_prev_set_max_burst endp_num;
     let d = usb3_backend_current_device w;
     let mps = ep_max_packet_size (ep_rx (endpoints (dev3 w)) n);
     let (nump, rx_len, status) = usb30_out_status endp_num w;
     let nump_sent = ep_rx_previously_set_max_burst w n - nump;
     let w1 = set_total n (if status \<noteq> 1 then ep_rx_total_length w n + mps * ucast nump_sent
       else ep_rx_total_length w n + (mps * (ucast nump_sent - 1) + rx_len)) w;
     if status AND 1 \<noteq> 0 \<or> nump = 0 \<or> status = 0 then do {
       let w2 = usb30_out_set endp_num ss_NRDY 0 w1;
       (_, w3) \<leftarrow> call_rx_callback e (rx_callback (endpoints (dev3 w2)) n)
         (ep_buffer (ep_rx (endpoints (usb_devices w2 d)) n)) (ep_rx_total_length w2 n) w2;
       let w4 = usb30_out_clear_interrupt endp_num w3;
       let ep = ep_rx (endpoints (usb_devices w4 d)) n;
       let w5 = wr_ss_rx_dma n (ep_buffer ep) w4;
       let w6 = set_total n 0 (set_prev_burst n (ep_max_burst ep) w5);
       let w7 = usb30_out_set endp_num ss_ACK (ep_max_burst ep) w6;
       Some (usb30_send_erdy (endp_num OR ep_OUT) (ep_max_burst ep) w7) }
     else
       let max_burst = ep_max_burst (ep_rx (endpoints (usb_devices w1 d)) n);
           nump = (if max_burst < nump then max_burst else nump);
           w2 = set_prev_burst n nump (usb30_out_clear_interrupt endp_num w1)
       in Some (usb30_send_erdy (endp_num OR ep_OUT) nump (usb30_out_set endp_num ss_ACK nump w2)) }"

definition usb30_itp_callback :: "u32 \<Rightarrow> 'a usb3_world_scheme \<Rightarrow> 'a usb3_world_scheme" where
  "usb30_itp_callback ITPCounter w = w"

text \<open>The number of packets is an \<open>uint8_t\<close>. A packet size of 0 would divide by it.\<close>

definition usb3_endp_tx_ready :: "u8 \<Rightarrow> u16 \<Rightarrow> 'a usb3_world_scheme \<Rightarrow> 'a usb3_world_scheme option" where
  "usb3_endp_tx_ready endp_num n w = do {
     i \<leftarrow> usb30_get_tx_endpoint_addr_reg endp_num;
     let endp = ep_tx (endpoints (dev3 w)) i;
     let mps = ep_max_packet_size endp;
     if mps = 0 then None
     else
       let max_full_packets = n div mps;
           remainder = n mod mps;
           last_packet_size = (if 0 < max_full_packets \<and> remainder = 0 then mps else remainder);
           total_num_packets = ucast (max_full_packets + (if last_packet_size \<noteq> mps then 1 else 0)) :: u8;
           w1 = wr_ss_tx_dma i (ep_buffer endp) w;
           w2 = set_bursts i total_num_packets (set_remaining i n w1);
           w3 = usb30_in_set endp_num True ss_ACK total_num_packets last_packet_size w2
       in Some (usb30_send_erdy (endp_num OR ep_IN) total_num_packets w3) }"

section \<open>The link interrupt\<close>

text \<open>One \<open>if (LINK_INT_FLAG & flag)\<close> of the handler; the register is read anew each time.\<close>

definition on_link_flag ::
    "u32 \<Rightarrow> ('a usb3_world_scheme \<Rightarrow> 'a usb3_world_scheme option) \<Rightarrow> 'a usb3_world_scheme \<Rightarrow> 'a usb3_world_scheme option" where
  "on_link_flag flag f w = (if LINK_INT_FLAG w AND flag \<noteq> 0 then f w else Some w)"

definition link_rdy :: "('a usb3_world_scheme) usb_env \<Rightarrow> 'a usb3_world_scheme \<Rightarrow> 'a usb3_world_scheme option" where
  "link_rdy e w =
     (let w1 = write_link_flag e LINK_RDY_FLAG w;
          w2 = (if tx_lmp_port w1 \<noteq> 0 then
              upd_dev3 (\<lambda>v. v\<lparr>dev_state := DEFAULT, dev_speed := USB30_SUPERSPEED\<rparr>)
                (w1\<lparr>LMP_TX_DATA0 := LINK_SPEED OR PORT_CAP OR LMP_HP, LMP_TX_DATA1 := UP_STREAM OR NUM_HP_BUF,
                  LMP_TX_DATA2 := 0, tx_lmp_port := 0\<rparr>)
            else w1)
      in Some (w2\<lparr>link_sta := 3\<rparr>))"

text \<open>The flag tells the early return.\<close>

definition link_disable ::
    "usb_consts \<Rightarrow> ('a usb3_world_scheme) usb_env \<Rightarrow> 'a usb3_world_scheme \<Rightarrow> (bool \<times> 'a usb3_world_scheme) option" where
  "link_disable k e w = do {
     let w1 = upd_dev3 (\<lambda>v. v\<lparr>dev_state := DETACHED\<rparr>) (write_link_flag e LINK_DISABLE_FLAG w);
     w2 \<leftarrow> usb30_device_deinit e (w1\<lparr>link_sta := 1\<rparr>);
     if \<not> usb2_fallback_enabled w2 then do {
       w3 \<leftarrow> usb30_device_init e (usb2_fallback_enabled w2) (bsp_wait_ms_delay e 10 w2);
       Some (True, w3) }
     else do {
       w3 \<leftarrow> usb2_device_init k e (PFIC_DisableIRQ e LINK_IRQn (PFIC_DisableIRQ e USBSS_IRQn w2));
       Some (False, w3) } }"

definition link_term_present ::
    "('a usb3_world_scheme) usb_env \<Rightarrow> 'a usb3_world_scheme \<Rightarrow> 'a usb3_world_scheme option" where
  "link_term_present e w =
     (let w1 = write_link_flag e TERM_PRESENT_FLAG w in
      if LINK_STATUS w1 AND LINK_PRESENT \<noteq> 0 then do {
        w2 \<leftarrow> usb30_switch_powermode e POWER_MODE_2 w1;
        Some (w2\<lparr>LINK_CTRL := LINK_CTRL w2 OR POLLING_EN\<rparr>) }
      else do {
        w2 \<leftarrow> USB30_BusReset e (bsp_wait_us_delay e 2000 (w1\<lparr>LINK_INT_CTRL := 0\<rparr>));
        Some (upd_dev3 (\<lambda>v. v\<lparr>dev_state := DEFAULT\<rparr>) w2) })"

partial_function (option) usb30_wait_warm_reset ::
    "('a usb3_world_scheme) usb_env \<Rightarrow> 'a usb3_world_scheme \<Rightarrow> ('a usb3_world_scheme) option" where
  "usb30_wait_warm_reset e w =
     (if LINK_STATUS w AND RX_WARM_RESET \<noteq> 0 then usb30_wait_warm_reset e (poll_step e w) else Some w)"

definition link_warm_reset ::
    "('a usb3_world_scheme) usb_env \<Rightarrow> 'a usb3_world_scheme \<Rightarrow> 'a usb3_world_scheme option" where
  "link_warm_reset e w = do {
     w1 \<leftarrow> usb30_switch_powermode e POWER_MODE_2 (write_link_flag e WARM_RESET_FLAG w);
     w2 \<leftarrow> USB30_BusReset e w1;
     let w3 = usb30_device_set_address 0 w2;
     w4 \<leftarrow> usb30_wait_warm_reset e (w3\<lparr>LINK_CTRL := LINK_CTRL w3 OR TX_WARM_RESET\<rparr>);
     Some (bsp_wait_us_delay e 2 (w4\<lparr>LINK_CTRL := LINK_CTRL w4 AND NOT TX_WARM_RESET\<rparr>)) }"

definition hot_reset_tx :: "nat \<Rightarrow> 'a usb3_world_scheme \<Rightarrow> 'a usb3_world_scheme" where
  "hot_reset_tx n w =
     (if endpoint_mask (dev3 w) AND ENDPOINT_TX n \<noteq> 0 then usb30_in_set (of_nat n) False ss_NRDY 0 0 w else w)"

definition hot_reset_rx :: "nat \<Rightarrow> 'a usb3_world_scheme \<Rightarrow> 'a usb3_world_scheme" where
  "hot_reset_rx n w =
     (if endpoint_mask (dev3 w) AND ENDPOINT_RX n \<noteq> 0 then usb30_out_set (of_nat n) ss_NRDY 0 w else w)"

definition link_hot_reset ::
    "('a usb3_world_scheme) usb_env \<Rightarrow> 'a usb3_world_scheme \<Rightarrow> 'a usb3_world_scheme option" where
  "link_hot_reset e w =
     (let w1 = write_link_flag e HOT_RESET_FLAG (w\<lparr>USB_CONTROL := USB_CONTROL w OR push_bit 31 1\<rparr>);
          w2 = wr_ss_tx 0 0 w1;
          w3 = fold (\<lambda>n v. hot_reset_rx n (hot_reset_tx n v)) [1, 2, 3, 4, 5, 6, 7] w2;
          w4 = usb30_device_set_address 0 w3
      in Some (w4\<lparr>LINK_CTRL := LINK_CTRL w4 AND NOT TX_HOT_RESET\<rparr>))"

definition link_go_u :: "('a usb3_world_scheme) usb_env \<Rightarrow> u32 \<Rightarrow> u8 \<Rightarrow> 'a usb3_world_scheme \<Rightarrow> 'a usb3_world_scheme option" where
  "link_go_u e flag mode = on_link_flag flag (\<lambda>w. do {
     w1 \<leftarrow> usb30_switch_powermode e mode w;
     Some (write_link_flag e flag w1) })"

definition LINK_IRQHandler ::
    "usb_consts \<Rightarrow> ('a usb3_world_scheme) usb_env \<Rightarrow> 'a usb3_world_scheme \<Rightarrow> 'a usb3_world_scheme option" where
  "LINK_IRQHandler k e w = do {
     w1 \<leftarrow> on_link_flag LINK_Ux_EXIT_FLAG (\<lambda>w. do {
       w1 \<leftarrow> usb30_switch_powermode e POWER_MODE_0 (w\<lparr>LINK_CFG := CFG_EQ_EN OR DEEMPH_CFG OR TERM_EN\<rparr>);
       Some (write_link_flag e LINK_Ux_EXIT_FLAG w1) }) w;
     w2 \<leftarrow> on_link_flag LINK_RDY_FLAG (link_rdy e) w1;
     w3 \<leftarrow> on_link_flag LINK_INACT_FLAG
       (\<lambda>w. usb30_switch_powermode e POWER_MODE_2 (write_link_flag e LINK_INACT_FLAG w)) w2;
     (returned, w4) \<leftarrow> (if LINK_INT_FLAG w3 AND LINK_DISABLE_FLAG \<noteq> 0 then link_disable k e w3 else Some (False, w3));
     if returned then Some w4
     else do {
       w5 \<leftarrow> on_link_flag LINK_RX_DET_FLAG
         (\<lambda>w. usb30_switch_powermode e POWER_MODE_2 (write_link_flag e LINK_RX_DET_FLAG w)) w4;
       w6 \<leftarrow> on_link_flag TERM_PRESENT_FLAG (link_term_present e) w5;
       w7 \<leftarrow> on_link_flag LINK_TXEQ_FLAG
         (\<lambda>w. usb30_switch_powermode e POWER_MODE_0 (write_link_flag e LINK_TXEQ_FLAG (w\<lparr>tx_lmp_port := 1\<rparr>))) w6;
       w8 \<leftarrow> on_link_flag WARM_RESET_FLAG (link_warm_reset e) w7;
       w9 \<leftarrow> on_link_flag HOT_RESET_FLAG (link_hot_reset e) w8;
       w10 \<leftarrow> link_go_u e LINK_GO_U1_FLAG POWER_MODE_1 w9;
       w11 \<leftarrow> link_go_u e LINK_GO_U2_FLAG POWER_MODE_2 w10;
       link_go_u e LINK_GO_U3_FLAG POWER_MODE_2 w11 } }"

section \<open>The transfer interrupt\<close>

text \<open>Interrupts that are not about an endpoint: link management packets and timestamps.\<close>

definition usbss_irq_link ::
    "('a usb3_world_scheme) usb_env \<Rightarrow> u32 \<Rightarrow> 'a usb3_world_scheme \<Rightarrow> 'a usb3_world_scheme" where
  "usbss_irq_link e usb_status w =
     (if usb_status AND 2 \<noteq> 0 then
        write_usb_status e 2
          (if LMP_RX_DATA0 w AND 0x1e0 = 0xa0
           then w\<lparr>LMP_TX_DATA0 := 0x2c0, LMP_TX_DATA1 := 0, LMP_TX_DATA2 := 0\<rparr> else w)
      else if usb_status AND 8 = 0 then w
      else write_usb_status e 8 (usb30_itp_callback (USB_ITP w) w))"

definition usbss_irq_ep0_in :: "'a usb3_world_scheme \<Rightarrow> 'a usb3_world_scheme option" where
  "usbss_irq_ep0_in w = do {
     (req_len, w1) \<leftarrow> ep0_in_handler w;
     let w2 = w1\<lparr>ep0_in_count := ep0_in_count w1 + 1\<rparr>;
     Some
       (if req_len = 0
        then wr_ss_tx 0 0x14010000 (wr_ss_rx 0 0x4010000 (w2\<lparr>ep0_in_count := 0, USB_FC_CTRL := 0x41\<rparr>))
        else
          let w3 = wr_ss_rx 0 0 (w2\<lparr>USB_FC_CTRL := 0x41\<rparr>)
          in wr_ss_tx 0 ((SS_TX_CONTRL w3 0 AND 0xec1ffc00) OR (ep0_in_count w3 * 0x200000) OR ucast req_len
               OR 0x14010000) w3) }"

text \<open>Requests that are not standard ones, inlined in the code: the user's answer, and its first packet.\<close>

definition usbss_user_request ::
    "('a usb3_world_scheme) usb_env \<Rightarrow> 'a usb3_world_scheme \<Rightarrow> (u16 \<times> 'a usb3_world_scheme) option" where
  "usbss_user_request e w = do {
     let req = load_setup (usb_memory w) (rx0_buffer3 w);
     let w1 = w\<lparr>SetupReqCode := bRequest req, SetupLen := wLength req\<rparr>;
     let endp_dir = bRequestType req AND 0x80;
     (req_len, buffer, w2) \<leftarrow> call_control_request e
       (endp0_user_handled_control_request (endpoints (dev3 w1))) req True w1;
     let w3 = w2\<lparr>SetupLen := req_len\<rparr>;
     if req_len \<noteq> USB_DESCR_UNSUPPORTED \<and> endp_dir \<noteq> 0 then
       (if buffer = 0 then Some (USB_DESCR_UNSUPPORTED, w3)
        else usb30_ep0_next_packet (w3\<lparr>pDescr := buffer\<rparr>))
     else if req_len \<noteq> USB_DESCR_UNSUPPORTED \<and> endp_dir = 0 then Some (0, w3)
     else Some (req_len, w3) }"

text \<open>The answer to a request: data or a stall to the host, or readiness for its data. The build files make \<open>char\<close> signed (\<open>-fsigned-char\<close>).\<close>

definition usbss_irq_ep0_answer :: "u8 \<Rightarrow> u16 \<Rightarrow> 'a usb3_world_scheme \<Rightarrow> 'a usb3_world_scheme" where
  "usbss_irq_ep0_answer data_req req_len w =
     (if sint data_req < 0 then
        (if req_len = 0xffff then wr_ss_tx 0 0x8010000 (w\<lparr>USB_FC_CTRL := 0x41\<rparr>)
         else if 0x200 < req_len then w
         else wr_ss_tx 0 (ucast req_len OR 0x14010000) (w\<lparr>USB_FC_CTRL := 0x41\<rparr>))
      else
        (if req_len = 0xffff then wr_ss_rx 0 0x8010000 (w\<lparr>USB_FC_CTRL := 0x41\<rparr>)
         else if 0x200 < req_len then w
         else wr_ss_rx 0 0x4010000 (w\<lparr>USB_FC_CTRL := 0x41\<rparr>)))"

definition usbss_irq_ep0_setup ::
    "usb_consts \<Rightarrow> ('a usb3_world_scheme) usb_env \<Rightarrow> 'a usb3_world_scheme \<Rightarrow> 'a usb3_world_scheme option" where
  "usbss_irq_ep0_setup k e w =
     (let w1 = wr_ss_rx 0 0 w in
      if rx0_buffer3 w1 = 0 then None
      else do {
        let data_req = usb_memory w1 (rx0_buffer3 w1);
        (req_len, w2) \<leftarrow> (if data_req AND 0x60 = 0 then usb30_standard_req_handler k w1 else usbss_user_request e w1);
        Some (usbss_irq_ep0_answer data_req req_len w2) })"

definition usbss_irq_ep0_out ::
    "usb_consts \<Rightarrow> ('a usb3_world_scheme) usb_env \<Rightarrow> 'a usb3_world_scheme \<Rightarrow> 'a usb3_world_scheme option" where
  "usbss_irq_ep0_out k e w =
     (let uep0_rx_ctrl = SS_RX_CONTRL w 0 in
      if - 1 < sint (push_bit 1 uep0_rx_ctrl) then
        (if sint (push_bit 2 uep0_rx_ctrl) < 0
         then Some (wr_ss_tx 0 0 (wr_ss_rx 0 0 (ep0_status_stage_handler k w)))
         else Some (wr_ss_rx 0 0x4010000 (w\<lparr>USB_FC_CTRL := 0x41\<rparr>)))
      else usbss_irq_ep0_setup k e w)"

definition USBSS_IRQHandler ::
    "usb_consts \<Rightarrow> ('a usb3_world_scheme) usb_env \<Rightarrow> 'a usb3_world_scheme \<Rightarrow> 'a usb3_world_scheme option" where
  "USBSS_IRQHandler k e w =
     (let usb_status = USB_STATUS w in
      if usb_status AND 1 = 0 then Some (usbss_irq_link e usb_status w)
      else
        let ep = ucast (drop_bit 8 usb_status AND 7) :: u8;
            ep_in = drop_bit 0xc usb_status AND 1
        in if ep \<noteq> 0 then (if ep_in = 0 then usb30_ep_out_handler e ep w else usb30_ep_in_handler e ep w)
           else if ep_in \<noteq> 0 then usbss_irq_ep0_in w
           else usbss_irq_ep0_out k e w)"

section \<open>A concrete controller\<close>

definition demo_usb3 :: usb3_world where
  "demo_usb3 = usb2_world.extend demo_usb2
     \<lparr>usb3_backend_current_device = Usb_device_0, tx_lmp_port = 0, link_sta = 0, SetupLen = 0, SetupReqCode = 0, pDescr = 0,
      usb2_fallback_enabled = True, ep_rx_total_length = (\<lambda>_. 0), ep_rx_previously_set_max_burst = (\<lambda>_. 4),
      ep_tx_remaining_length = (\<lambda>_. 0), ep_tx_total_bursts = (\<lambda>_. 0), ep0_in_count = 0,
      LINK_CFG = 0, LINK_CTRL = 0, LINK_INT_CTRL = 0, LINK_INT_FLAG = 0, LINK_STATUS = 0, USB_CONTROL = 0, USB_STATUS = 0,
      USB_FC_CTRL = 0, USB_ITP = 0, UEP_CFG = 0, LMP_RX_DATA0 = 0, LMP_TX_DATA0 = 0, LMP_TX_DATA1 = 0, LMP_TX_DATA2 = 0,
      SS_UEP0_DMA = 0, SS_TX_DMA = (\<lambda>_. 0), SS_RX_DMA = (\<lambda>_. 0), SS_TX_CONTRL = (\<lambda>_. 0), SS_RX_CONTRL = (\<lambda>_. 0)\<rparr>"

end
