(* ===== verification/Usb30_Burst.thy ===== *)
theory Usb30_Burst
  imports Usb30 Usb2_Bulk
begin

text \<open>
  Burst transfers to the host over USB 3.0. The controller offers a burst of packets, all of the
  maximum size but the last, and the host takes as many as it likes, in as many bursts as it likes;
  after each, the interrupt has to work out what was taken from the packets left over. The host's side
  is \<open>ss_in_take\<close>. The lemmas show that the packets of every such sequence are those of the buffer.
\<close>

section \<open>Fields of the control registers\<close>

definition ss_nump :: "u32 \<Rightarrow> nat" where "ss_nump c = unat (drop_bit 16 c AND 0x1f)"
definition ss_status :: "u32 \<Rightarrow> nat" where "ss_status c = unat (drop_bit 26 c AND 3)"
definition ss_len :: "u32 \<Rightarrow> nat" where "ss_len c = unat (c AND 0x7ff)"

lemma ss_masks:
  "(0x03e00000 :: u32) = push_bit 21 (Bit_Operations.mask 5)" "(0x1f :: u32) = Bit_Operations.mask 5"
  "(3 :: u32) = Bit_Operations.mask 2" "(0x7ff :: u32) = Bit_Operations.mask 11"
  by (simp_all add: mask_eq_exp_minus_1)

lemma small_bits: "x \<le> 31 \<Longrightarrow> bit x i \<Longrightarrow> i < 5" for x :: u8
proof -
  assume "x \<le> 31" "bit x i"
  then have "take_bit 5 x = x"
    by (simp add: word_unat_eq_iff unsigned_take_bit_eq take_bit_nat_eq_self_iff word_le_nat_alt)
  with \<open>bit x i\<close> show "i < 5" by (metis bit_take_bit_iff)
qed

lemma seq_bits:
  assumes "v AND NOT (0x03e00000 :: u32) = 0" and "bit v i"
  shows "21 \<le> i \<and> i < 26"
proof (rule ccontr)
  assume "\<not> ?thesis"
  moreover have "i < 32" using bit_imp_le_length [OF assms(2)] by simp
  ultimately have "bit (v AND NOT (0x03e00000 :: u32)) i"
    using assms(2) by (auto simp: ss_masks(1) bit_simps)
  then show False unfolding assms(1) by simp
qed

lemma less_5: "n < 5 \<longleftrightarrow> n = 0 \<or> n = 1 \<or> n = 2 \<or> n = 3 \<or> n = (4 :: nat)"
  by auto

lemma less_11: "n < 11 \<longleftrightarrow> n < 5 \<or> n = 5 \<or> n = 6 \<or> n = 7 \<or> n = 8 \<or> n = 9 \<or> n = (10 :: nat)"
  by auto

text \<open>The register as \<open>usb30_in_clear_interrupt\<close> and \<open>usb30_in_set\<close> leave it.\<close>

definition ss_tx_word :: "u32 \<Rightarrow> u8 \<Rightarrow> u16 \<Rightarrow> u32" where
  "ss_tx_word v nump len =
     v OR push_bit 16 (ucast nump) OR push_bit 26 (ucast ss_ACK) OR (ucast len AND 0x7ff) OR push_bit 28 (of_bool True)"

lemma ss_tx_word_fields:
  assumes v: "v AND NOT 0x03e00000 = 0" and n: "nump \<le> 31"
  shows "drop_bit 16 (ss_tx_word v nump len) AND 0x1f = ucast nump" "drop_bit 26 (ss_tx_word v nump len) AND 3 = 1"
    "ss_tx_word v nump len AND 0x7ff = ucast len AND 0x7ff"
proof -
  note b = seq_bits [OF v] small_bits [OF n]
  show "drop_bit 16 (ss_tx_word v nump len) AND 0x1f = ucast nump"
    unfolding ss_masks ss_tx_word_def ss_ACK_def
    by (rule bit_word_eqI) (auto simp: bit_simps dest: b, auto simp: less_5)
  show "drop_bit 26 (ss_tx_word v nump len) AND 3 = 1"
    unfolding ss_masks ss_tx_word_def ss_ACK_def
    by (rule bit_word_eqI) (auto simp: bit_simps dest: b, auto simp: less_2_cases_iff)
  show "ss_tx_word v nump len AND 0x7ff = ucast len AND 0x7ff"
    unfolding ss_masks ss_tx_word_def ss_ACK_def
    by (rule bit_word_eqI) (auto simp: bit_simps dest: b, auto simp: less_11 less_5)
qed

lemma ss_tx_word_reads:
  assumes "v AND NOT 0x03e00000 = 0" and "nump \<le> 31" and "len < 0x800"
  shows "ss_nump (ss_tx_word v nump len) = unat nump" "ss_status (ss_tx_word v nump len) = 1"
    "ss_len (ss_tx_word v nump len) = unat len"
proof -
  have "take_bit 11 len = len"
    using assms(3) by (simp add: word_unat_eq_iff unsigned_take_bit_eq take_bit_nat_eq_self_iff word_less_nat_alt)
  then have "(ucast len :: u32) AND 0x7ff = ucast len"
    unfolding ss_masks(4) take_bit_eq_mask [symmetric]
    by (simp add: word_unat_eq_iff unsigned_take_bit_eq)
  then show "ss_nump (ss_tx_word v nump len) = unat nump" "ss_status (ss_tx_word v nump len) = 1"
    "ss_len (ss_tx_word v nump len) = unat len"
    using ss_tx_word_fields [OF assms(1,2), of len] by (simp_all add: ss_nump_def ss_status_def ss_len_def)
qed

lemma nump_read: "usb30_in_nump ep w = of_nat (ss_nump (SS_TX_CONTRL w (unat ep)))"
  by (simp add: usb30_in_nump_def ss_nump_def)

lemma ss_nump_le: "ss_nump c \<le> 31"
proof -
  have "drop_bit 16 c AND 0x1f \<le> (0x1f :: u32)" by (rule word_and_le1)
  then show ?thesis by (simp add: ss_nump_def word_le_nat_alt)
qed

section \<open>Packets of a burst\<close>

definition burst_count :: "nat \<Rightarrow> nat \<Rightarrow> nat" where
  "burst_count m n = (n - 1) div m + 1"

lemma burst_count_cover: "0 < m \<Longrightarrow> n \<le> burst_count m n * m"
  using bulk_length_cover(2) [of m n] by (simp add: burst_count_def)

lemma burst_count_less: "0 < m \<Longrightarrow> j < burst_count m n \<Longrightarrow> 0 < j \<Longrightarrow> j * m < n"
proof -
  assume a: "0 < m" "j < burst_count m n" "0 < j"
  then have "j * m \<le> (n - 1) div m * m" by (simp add: burst_count_def)
  moreover have "(n - 1) div m * m < n" using bulk_length_cover(1) [OF a(1), of n] a by (auto simp: burst_count_def)
  ultimately show ?thesis by linarith
qed

lemma burst_count_drop: "0 < m \<Longrightarrow> j < burst_count m n \<Longrightarrow> burst_count m (n - j * m) = burst_count m n - j"
proof (cases "j = 0")
  case False
  assume a: "0 < m" "j < burst_count m n"
  with False have "j * m < n" using burst_count_less by simp
  then have "n - 1 = (n - j * m - 1) + j * m" by linarith
  then have "(n - 1) div m = (n - j * m - 1) div m + j" using a(1) by (metis div_mult_self3 add.commute less_numeral_extra(3))
  then show ?thesis by (simp add: burst_count_def)
qed simp

text \<open>The packets as the controller cuts them: all of the maximum size, the last with what remains.\<close>

definition burst_packets :: "mem \<Rightarrow> u32 \<Rightarrow> nat \<Rightarrow> nat \<Rightarrow> u8 list list" where
  "burst_packets m a mps n = map (\<lambda>i. mem_bytes m (a + of_nat (i * mps))
     (if i + 1 = burst_count mps n then n - i * mps else mps)) [0..<burst_count mps n]"

lemma length_burst_packets [simp]: "length (burst_packets m a mps n) = burst_count mps n"
  by (simp add: burst_packets_def)

lemma burst_packets_drop:
  assumes "0 < mps" and "j < burst_count mps n"
  shows "burst_packets m (a + of_nat (j * mps)) mps (n - j * mps) = drop j (burst_packets m a mps n)"
proof (rule nth_equalityI)
  show "length (burst_packets m (a + of_nat (j * mps)) mps (n - j * mps)) = length (drop j (burst_packets m a mps n))"
    by (simp add: burst_count_drop [OF assms])
  fix i assume "i < length (burst_packets m (a + of_nat (j * mps)) mps (n - j * mps))"
  then have i: "i < burst_count mps n - j" by (simp add: burst_count_drop [OF assms])
  then have "Suc i = burst_count mps n - j \<longleftrightarrow> Suc (j + i) = burst_count mps n" by auto
  moreover have "n - j * mps - i * mps = n - (j + i) * mps" by (simp add: diff_diff_left distrib_right)
  moreover have "a + of_nat (j * mps) + of_nat (i * mps) = a + of_nat ((j + i) * mps)"
    by (simp add: distrib_right)
  ultimately show "burst_packets m (a + of_nat (j * mps)) mps (n - j * mps) ! i = drop j (burst_packets m a mps n) ! i"
    using i unfolding burst_packets_def by (simp add: burst_count_drop [OF assms] distrib_right add.assoc)
qed

lemma burst_packets_bulk: "0 < mps \<Longrightarrow> burst_packets m a mps n = bulk_packets mps (mem_bytes m a n)"
proof (induction n arbitrary: a rule: less_induct)
  case (less n)
  show ?case
  proof (cases "n \<le> mps")
    case True
    then have "burst_count mps n = 1" using less.prems by (cases n) (auto simp: burst_count_def)
    then show ?thesis using True by (simp add: burst_packets_def bulk_packets_short)
  next
    case False
    then have two: "1 < burst_count mps n" using less.prems by (auto simp: burst_count_def div_greater_zero_iff)
    have "burst_packets m a mps n = burst_packets m a mps n ! 0 # drop 1 (burst_packets m a mps n)"
      using two by (simp add: Cons_nth_drop_Suc)
    moreover have "burst_packets m a mps n ! 0 = mem_bytes m a mps"
      using two by (simp add: burst_packets_def)
    moreover have "drop 1 (burst_packets m a mps n) = bulk_packets mps (mem_bytes m (a + of_nat mps) (n - mps))"
      using burst_packets_drop [OF less.prems two, of m a] less.IH [of "n - mps" "a + of_nat mps"] False less.prems by simp
    moreover have "bulk_packets mps (mem_bytes m a n) = mem_bytes m a mps # bulk_packets mps (mem_bytes m (a + of_nat mps) (n - mps))"
      using False less.prems by (simp add: bulk_packets_more take_mem_bytes drop_mem_bytes)
    ultimately show ?thesis by simp
  qed
qed

section \<open>The host's side\<close>

text \<open>The host takes \<open>j\<close> of the packets endpoint \<open>n\<close> offers. The controller counts down the packets left in
  its register, whose other fields may change (\<open>c\<close> is its new value), moves its DMA address behind the
  packets and raises the interrupt.\<close>

definition ss_in_take :: "nat \<Rightarrow> nat \<Rightarrow> nat \<Rightarrow> u32 \<Rightarrow> 'a usb3_world_scheme \<Rightarrow> (u8 list list \<times> 'a usb3_world_scheme) option" where
  "ss_in_take n mps j c w =
     (let p = ss_nump (SS_TX_CONTRL w n); a = SS_TX_DMA w n in
      if ss_status (SS_TX_CONTRL w n) = 1 \<and> 0 < j \<and> j \<le> p \<and> ss_nump c = p - j
      then Some (map (\<lambda>i. mem_bytes (usb_memory w) (a + of_nat (i * mps))
          (if i + 1 = p then ss_len (SS_TX_CONTRL w n) else mps)) [0..<j],
        (wr_ss_tx n c (wr_ss_tx_dma n (a + of_nat (j * mps)) w))
          \<lparr>USB_STATUS := 1 OR push_bit 8 (of_nat n) OR push_bit 12 1\<rparr>)
      else None)"

text \<open>\<open>r\<close> bytes at \<open>a\<close> are offered in a burst.\<close>

definition ss_sending :: "nat \<Rightarrow> nat \<Rightarrow> u32 \<Rightarrow> nat \<Rightarrow> 'a usb3_world_scheme \<Rightarrow> bool" where
  "ss_sending n mps a r w \<longleftrightarrow>
     unat (ep_tx_remaining_length w n) = r \<and> unat (ep_tx_total_bursts w n) = burst_count mps r \<and> SS_TX_DMA w n = a \<and>
     ss_nump (SS_TX_CONTRL w n) = burst_count mps r \<and> ss_status (SS_TX_CONTRL w n) = 1 \<and>
     ss_len (SS_TX_CONTRL w n) = r - (burst_count mps r - 1) * mps"

text \<open>The endpoint's configuration allows bursts of \<open>p\<close> packets.\<close>

definition ss_ready :: "nat \<Rightarrow> u16 \<Rightarrow> nat \<Rightarrow> 'a usb3_world_scheme \<Rightarrow> bool" where
  "ss_ready n mps p w \<longleftrightarrow> ep_max_packet_size (ep_tx (endpoints (dev3 w)) n) = mps \<and> mps \<noteq> 0 \<and> mps \<le> 1024 \<and>
     p \<le> unat (ep_max_burst (ep_tx (endpoints (dev3 w)) n)) \<and> p \<le> 31"

lemma take_packets:
  assumes "ss_sending n mps a r w" and "0 < j" and "j \<le> burst_count mps r" and "ss_nump c = burst_count mps r - j"
  shows "ss_in_take n mps j c w = Some (take j (burst_packets (usb_memory w) a mps r),
    (wr_ss_tx n c (wr_ss_tx_dma n (a + of_nat (j * mps)) w))\<lparr>USB_STATUS := 1 OR push_bit 8 (of_nat n) OR push_bit 12 1\<rparr>)"
proof -
  have len: "ss_len (SS_TX_CONTRL w n) = r - (burst_count mps r - 1) * mps" using assms(1) by (simp add: ss_sending_def)
  have "map (\<lambda>i. mem_bytes (usb_memory w) (a + of_nat (i * mps))
      (if i + 1 = burst_count mps r then ss_len (SS_TX_CONTRL w n) else mps)) [0..<j] =
    take j (burst_packets (usb_memory w) a mps r)"
    unfolding len
    by (rule nth_equalityI) (use assms(3) in \<open>auto simp: burst_packets_def dest!: sym [of "Suc _"]\<close>)
  then show ?thesis using assms by (simp add: ss_in_take_def ss_sending_def Let_def)
qed

text \<open>The status register tells the endpoint and the direction.\<close>

lemma irq_in_endpoint:
  assumes "n \<in> {1..7}"
  shows "USBSS_IRQHandler k e (w\<lparr>USB_STATUS := 1 OR push_bit 8 (of_nat n) OR push_bit 12 1\<rparr>) =
    usb30_ep_in_handler e (of_nat n) (w\<lparr>USB_STATUS := 1 OR push_bit 8 (of_nat n) OR push_bit 12 1\<rparr>)"
proof -
  have "n \<in> {1,2,3,4,5,6,7}" using assms by auto
  then show ?thesis by (elim insertE emptyE) (simp_all add: USBSS_IRQHandler_def Let_def)
qed

section \<open>The interrupt after a burst\<close>

lemma take_packet_loop: "unat ((usb30_take_packet mps ^^ j) r) = unat r - j * unat mps"
proof (induction j)
  case (Suc j)
  let ?x = "(usb30_take_packet mps ^^ j) r"
  have "unat (usb30_take_packet mps ?x) = unat ?x - unat mps"
    by (simp add: usb30_take_packet_def unat_sub word_le_nat_alt)
  then show ?case using Suc by simp
qed simp

lemma burst_last:
  assumes "mps \<noteq> 0" and "unat nump = burst_count (unat mps) (unat r)"
  shows "unat (usb30_burst_last mps nump r) = unat r - (unat nump - 1) * unat mps"
proof -
  have pos: "0 < unat mps" using assms(1) by (simp add: unat_gt_0)
  have n1: "1 \<le> unat nump" using assms(2) by (simp add: burst_count_def)
  have le: "unat r \<le> unat nump * unat mps" using burst_count_cover [OF pos, of "unat r"] assms(2) by simp
  have ge: "(unat nump - 1) * unat mps \<le> unat r"
    using burst_count_less [OF pos, of "unat nump - 1" "unat r"] assms(2) n1 by (cases "unat nump - 1 = 0") simp_all
  have iff: "uint nump * uint mps \<le> uint r \<longleftrightarrow> unat nump * unat mps \<le> unat r"
    unfolding uint_nat of_nat_mult [symmetric] of_nat_le_iff ..
  show ?thesis
  proof (cases "unat nump * unat mps \<le> unat r")
    case True
    then have "unat r = unat nump * unat mps" using le by (rule order.antisym [rotated])
    moreover have "unat nump * unat mps = unat mps + (unat nump - 1) * unat mps"
      using n1 by (simp only: diff_mult_distrib nat_mult_1) (metis add.commute le_add_diff_inverse2 mult_le_mono1 nat_mult_1)
    moreover have "usb30_burst_last mps nump r = mps"
      using True by (simp add: usb30_burst_last_def iff)
    ultimately show ?thesis by (simp only: diff_add_inverse2)
  next
    case False
    define q where "q = unat r - (unat nump - 1) * unat mps"
    have q: "uint r - (uint nump - 1) * uint mps = int q"
      unfolding q_def uint_nat of_nat_diff [OF ge] of_nat_mult of_nat_diff [OF n1] by simp
    have small: "q < 65536" unfolding q_def by (rule order.strict_trans1 [OF diff_le_self unat_u16_less])
    have "usb30_burst_last mps nump r = word_of_int (uint r - (uint nump - 1) * uint mps)"
      using False by (simp add: usb30_burst_last_def iff)
    then have "usb30_burst_last mps nump r = of_nat q" unfolding q by simp
    then show ?thesis unfolding q_def [symmetric] using small by (simp add: unat_of_nat)
  qed
qed

definition ss_status_in :: "nat \<Rightarrow> u32" where
  "ss_status_in n = 1 OR push_bit 8 (of_nat n) OR push_bit 12 1"

text \<open>What the interrupt after the last packet does once the endpoint is idle.\<close>

definition ss_idle :: "nat \<Rightarrow> 'a usb3_world_scheme \<Rightarrow> bool" where
  "ss_idle n w \<longleftrightarrow> ep_tx_remaining_length w n = 0 \<and> SS_TX_CONTRL w n AND NOT 0x03e00000 = 0"

definition ss_complete :: "('a usb3_world_scheme) usb_env \<Rightarrow> nat \<Rightarrow> 'a usb3_world_scheme \<Rightarrow> 'a usb3_world_scheme option" where
  "ss_complete e n w = do {
     w1 \<leftarrow> call_tx_complete e (tx_complete (endpoints (dev3 w)) n) Ack w;
     Some (if usb30_in_nump (of_nat n) w1 = 0
       then wr_ss_tx_dma n 0 (usb30_in_set (of_nat n OR ep_IN) False ss_NRDY 0 0 w1) else w1) }"

lemma ss_endpoint_nat:
  assumes "n \<in> {1..7}"
  shows "ss_endpoint (of_nat n) = Some n" "unat (of_nat n :: u8) = n"
proof -
  have "n \<in> {1,2,3,4,5,6,7}" using assms by auto
  then show "ss_endpoint (of_nat n) = Some n" "unat (of_nat n :: u8) = n"
    by (elim insertE emptyE; simp add: ss_endpoint_def)+
qed

text \<open>What a transfer on endpoint \<open>n\<close> leaves alone, apart from the device objects and the firmware's state.\<close>

definition ss_tx_keeps :: "nat \<Rightarrow> 'a usb3_world_scheme \<Rightarrow> 'a usb3_world_scheme \<Rightarrow> bool" where
  "ss_tx_keeps n w w' \<longleftrightarrow> usb3_backend_current_device w' = usb3_backend_current_device w \<and> usb_memory w' = usb_memory w \<and>
     ep0_in_count w' = ep0_in_count w \<and> USB_CONTROL w' = USB_CONTROL w \<and>
     SS_UEP0_DMA w' = SS_UEP0_DMA w \<and> SS_RX_CONTRL w' = SS_RX_CONTRL w \<and> SS_RX_DMA w' = SS_RX_DMA w \<and> UEP_CFG w' = UEP_CFG w \<and>
     ep_rx_previously_set_max_burst w' = ep_rx_previously_set_max_burst w \<and> ep_rx_total_length w' = ep_rx_total_length w \<and>
     (\<forall>m. m \<noteq> n \<longrightarrow> SS_TX_CONTRL w' m = SS_TX_CONTRL w m \<and> SS_TX_DMA w' m = SS_TX_DMA w m \<and>
        ep_tx_remaining_length w' m = ep_tx_remaining_length w m \<and> ep_tx_total_bursts w' m = ep_tx_total_bursts w m)"

lemma clear_idle: "(c AND 0x03e00000) AND NOT (0x03e00000 :: u32) = 0"
  by (simp add: and.assoc)

lemma burst_more:
  assumes n: "n \<in> {1..7}" and s: "ss_sending n (unat mps) a r w" and w: "ss_ready n mps p w"
    and p: "burst_count (unat mps) r \<le> p" and j: "0 < j" "j < burst_count (unat mps) r"
    and c: "ss_nump c = burst_count (unat mps) r - j"
  defines "w1 \<equiv> (wr_ss_tx n c (wr_ss_tx_dma n (a + of_nat (j * unat mps)) w))\<lparr>USB_STATUS := ss_status_in n\<rparr>"
  shows "\<exists>w'. usb30_ep_in_handler e (of_nat n) w1 = Some w' \<and>
    ss_sending n (unat mps) (a + of_nat (j * unat mps)) (r - j * unat mps) w' \<and> ss_ready n mps p w' \<and>
    usb_devices w' = usb_devices w \<and> usb3_backend_current_device w' = usb3_backend_current_device w \<and>
    usb_memory w' = usb_memory w \<and> usb_crit w' = usb_crit w \<and> ss_tx_keeps n w w' \<and>
    usb3_world.more w' = usb3_world.more w"
proof -
  let ?p = "burst_count (unat mps) r" and ?rem = "ep_tx_remaining_length w n"
  let ?r = "(usb30_take_packet mps ^^ j) ?rem"
  define q :: u8 where "q = of_nat (?p - j)"
  have pos: "0 < unat mps" using w by (simp add: ss_ready_def unat_gt_0)
  have p31: "?p \<le> 31" "p \<le> 31" using p w by (simp_all add: ss_ready_def)
  have uq: "unat q = ?p - j" using p31 by (simp add: q_def unat_of_nat)
  have rem: "unat ?rem = r" "unat (ep_tx_total_bursts w n) = ?p" using s by (simp_all add: ss_sending_def)
  have ur: "unat ?r = r - j * unat mps" by (simp add: take_packet_loop rem)
  have r0: "?r \<noteq> 0" using burst_count_less [OF pos j(2,1)] ur by (auto simp flip: unat_eq_zero)
  have drop: "burst_count (unat mps) (r - j * unat mps) = ?p - j" by (rule burst_count_drop [OF pos j(2)])
  have tot: "ep_tx_total_bursts w n = of_nat ?p" using arg_cong [OF rem(2), of "of_nat :: nat \<Rightarrow> u8"] by simp
  have "ep_tx_total_bursts w n - q = of_nat j" unfolding tot q_def of_nat_diff [OF less_imp_le [OF j(2)]] by simp
  then have sent: "unat (ep_tx_total_bursts w n - q) = j" using j p31 by (simp add: unat_of_nat)
  have max: "\<not> ep_max_burst (ep_tx (endpoints (dev3 w)) n) < q"
  proof -
    have "p \<le> unat (ep_max_burst (ep_tx (endpoints (dev3 w)) n))" using w by (simp add: ss_ready_def)
    then have "unat q \<le> unat (ep_max_burst (ep_tx (endpoints (dev3 w)) n))" unfolding uq using p by linarith
    then show ?thesis by (simp add: word_less_nat_alt)
  qed
  have last: "unat (usb30_burst_last mps q ?r) = r - j * unat mps - (?p - j - 1) * unat mps"
    using burst_last [of mps q ?r] w uq drop ur by (simp add: ss_ready_def)
  let ?c = "ss_tx_word (c AND 0x03e00000) q (usb30_burst_last mps q ?r)"
  have "r - j * unat mps \<le> (?p - j) * unat mps" using burst_count_cover [OF pos, of "r - j * unat mps"] unfolding drop .
  moreover have "(?p - j) * unat mps = unat mps + (?p - j - 1) * unat mps" using j(2) by (cases "?p - j") simp_all
  ultimately have "unat (usb30_burst_last mps q ?r) \<le> unat mps" unfolding last by linarith
  then have l800: "usb30_burst_last mps q ?r < 0x800"
    using w by (simp add: ss_ready_def word_less_nat_alt word_le_nat_alt)
  have q31: "q \<le> 31" using uq p31 by (simp add: word_le_nat_alt)
  note reads = ss_tx_word_reads [OF clear_idle q31 l800, of c]
  have nump: "usb30_in_nump (of_nat n) w1 = q"
    using c ss_endpoint_nat [OF n] by (simp add: nump_read w1_def ss_writes q_def)
  let ?w = "set_bursts n q (usb30_send_erdy (of_nat n OR ep_IN) q (usb30_in_set (of_nat n) True ss_ACK q
    (usb30_burst_last mps q ?r) (usb30_in_clear_interrupt (of_nat n) (set_remaining n ?r w1))))"
  have frame: "ep_max_packet_size (ep_tx (endpoints (dev3 w)) n) = mps" "ep_tx_total_bursts w1 n = ep_tx_total_bursts w n"
    "ep_tx_remaining_length w1 n = ?rem" "dev3 w1 = dev3 w"
    using w by (simp_all add: w1_def ss_writes ss_ready_def)
  have "usb30_ep_in_handler e (of_nat n) w1 = Some ?w"
    using ss_endpoint_nat [OF n] sent r0 max
    by (simp add: usb30_ep_in_handler_def ss_getters nump frame Let_def)
      (simp add: usb30_send_erdy_def usb30_in_set_def usb30_in_clear_interrupt_def ss_writes w1_def Let_def)
  moreover have "ss_sending n (unat mps) (a + of_nat (j * unat mps)) (r - j * unat mps) ?w"
  proof -
    have "SS_TX_CONTRL ?w n = ?c" "ep_tx_remaining_length ?w n = ?r" "ep_tx_total_bursts ?w n = q"
      "SS_TX_DMA ?w n = a + of_nat (j * unat mps)"
      using ss_endpoint_nat(2) [OF n]
      by (simp_all add: ss_tx_word_def usb30_send_erdy_def usb30_in_set_def usb30_in_clear_interrupt_def ss_writes w1_def Let_def)
    then show ?thesis unfolding ss_sending_def by (simp only: reads last ur uq drop)
  qed
  moreover have "ss_ready n mps p ?w \<and> usb_devices ?w = usb_devices w \<and>
    usb3_backend_current_device ?w = usb3_backend_current_device w \<and> usb_memory ?w = usb_memory w \<and> usb_crit ?w = usb_crit w"
    using w by (simp add: ss_ready_def usb30_send_erdy_def usb30_in_set_def usb30_in_clear_interrupt_def ss_writes w1_def Let_def)
  moreover have "ss_tx_keeps n w ?w" "usb3_world.more ?w = usb3_world.more w"
    using ss_endpoint_nat(2) [OF n]
    by (simp_all add: ss_tx_keeps_def usb30_send_erdy_def usb30_in_set_def usb30_in_clear_interrupt_def ss_writes w1_def Let_def)
  ultimately show ?thesis by blast
qed

lemma burst_done:
  fixes a' :: u32
  assumes n: "n \<in> {1..7}" and s: "ss_sending n (unat mps) a r w" and w: "ss_ready n mps p w"
    and c: "ss_nump c = 0"
  defines "w1 \<equiv> (wr_ss_tx n c (wr_ss_tx_dma n a' w))\<lparr>USB_STATUS := ss_status_in n\<rparr>"
  shows "\<exists>w'. usb30_ep_in_handler e (of_nat n) w1 = ss_complete e n w' \<and> ss_idle n w' \<and>
    usb_devices w' = usb_devices w \<and> usb3_backend_current_device w' = usb3_backend_current_device w \<and>
    usb_memory w' = usb_memory w \<and> usb_crit w' = usb_crit w \<and> ss_tx_keeps n w w' \<and>
    usb3_world.more w' = usb3_world.more w"
proof -
  let ?p = "burst_count (unat mps) r" and ?rem = "ep_tx_remaining_length w n"
  have pos: "0 < unat mps" using w by (simp add: ss_ready_def unat_gt_0)
  have rem: "unat ?rem = r" "unat (ep_tx_total_bursts w n) = ?p" using s by (simp_all add: ss_sending_def)
  have "unat ((usb30_take_packet mps ^^ ?p) ?rem) = 0"
    unfolding take_packet_loop rem using burst_count_cover [OF pos, of r] by simp
  then have r0: "(usb30_take_packet mps ^^ ?p) ?rem = 0" by (simp add: unat_eq_zero)
  have nump: "usb30_in_nump (of_nat n) w1 = 0"
    using c ss_endpoint_nat [OF n] by (simp add: nump_read w1_def ss_writes)
  have frame: "ep_max_packet_size (ep_tx (endpoints (dev3 w)) n) = mps" "ep_tx_total_bursts w1 n = ep_tx_total_bursts w n"
    "ep_tx_remaining_length w1 n = ?rem" "dev3 w1 = dev3 w"
    using w by (simp_all add: w1_def ss_writes ss_ready_def)
  let ?w = "usb30_in_clear_interrupt (of_nat n) (set_remaining n 0 w1)"
  have "usb30_ep_in_handler e (of_nat n) w1 = ss_complete e n ?w"
    using ss_endpoint_nat [OF n] rem(2) r0
    by (simp add: usb30_ep_in_handler_def ss_getters nump frame Let_def ss_complete_def)
  moreover have "ss_idle n ?w"
    using clear_idle [of c] ss_endpoint_nat [OF n]
    by (simp add: ss_idle_def usb30_in_clear_interrupt_def ss_writes w1_def)
  moreover have "usb_devices ?w = usb_devices w \<and> usb3_backend_current_device ?w = usb3_backend_current_device w \<and>
      usb_memory ?w = usb_memory w \<and> usb_crit ?w = usb_crit w"
    by (simp add: usb30_in_clear_interrupt_def ss_writes w1_def)
  moreover have "ss_tx_keeps n w ?w" "usb3_world.more ?w = usb3_world.more w"
    using ss_endpoint_nat(2) [OF n] by (simp_all add: ss_tx_keeps_def usb30_in_clear_interrupt_def ss_writes w1_def)
  ultimately show ?thesis by blast
qed

section \<open>Any sequence of bursts\<close>

text \<open>The host takes packets in the given portions, each ended by the interrupt.\<close>

primrec ss_in_bursts ::
    "usb_consts \<Rightarrow> ('a usb3_world_scheme) usb_env \<Rightarrow> nat \<Rightarrow> nat \<Rightarrow> (nat \<times> u32) list \<Rightarrow> 'a usb3_world_scheme \<Rightarrow>
     (u8 list list \<times> 'a usb3_world_scheme) option" where
  "ss_in_bursts k e n mps [] w = Some ([], w)"
| "ss_in_bursts k e n mps (t # ts) w = do {
     (ps, w1) \<leftarrow> ss_in_take n mps (fst t) (snd t) w;
     w2 \<leftarrow> USBSS_IRQHandler k e w1;
     (qs, w3) \<leftarrow> ss_in_bursts k e n mps ts w2;
     Some (ps @ qs, w3) }"

text \<open>The portions are not empty and leave something, and the controller's register counts them.\<close>

fun portions :: "nat \<Rightarrow> (nat \<times> u32) list \<Rightarrow> bool" where
  "portions p [] \<longleftrightarrow> 0 < p"
| "portions p ((j, c) # ts) \<longleftrightarrow> 0 < j \<and> j < p \<and> ss_nump c = p - j \<and> portions (p - j) ts"

lemma bursts_run:
  assumes n: "n \<in> {1..7}"
  shows "ss_sending n (unat mps) a r w \<Longrightarrow> ss_ready n mps p w \<Longrightarrow> burst_count (unat mps) r \<le> p \<Longrightarrow>
    portions (burst_count (unat mps) r) ts \<Longrightarrow>
    \<exists>w' j. ss_in_bursts k e n (unat mps) ts w = Some (take j (burst_packets (usb_memory w) a (unat mps) r), w') \<and>
      j < burst_count (unat mps) r \<and> burst_count (unat mps) r - j = burst_count (unat mps) (r - j * unat mps) \<and>
      ss_sending n (unat mps) (a + of_nat (j * unat mps)) (r - j * unat mps) w' \<and> ss_ready n mps p w' \<and>
      usb_devices w' = usb_devices w \<and> usb3_backend_current_device w' = usb3_backend_current_device w \<and>
      usb_memory w' = usb_memory w \<and> usb_crit w' = usb_crit w"
proof (induction ts arbitrary: a r w)
  case Nil
  then show ?case by (intro exI [of _ w] exI [of _ 0]) (simp add: burst_count_def)
next
  case (Cons t ts)
  obtain j c where t: "t = (j, c)" by (cases t)
  let ?m = "unat mps" and ?p = "burst_count (unat mps) r"
  have pos: "0 < ?m" using Cons.prems(2) by (simp add: ss_ready_def unat_gt_0)
  have j: "0 < j" "j < ?p" "ss_nump c = ?p - j" "portions (?p - j) ts" using Cons.prems(4) t by simp_all
  let ?a = "a + of_nat (j * ?m)" and ?r = "r - j * ?m"
  have cnt: "burst_count ?m ?r = ?p - j" by (rule burst_count_drop [OF pos j(2)])
  have take: "ss_in_take n ?m j c w = Some (take j (burst_packets (usb_memory w) a ?m r),
      (wr_ss_tx n c (wr_ss_tx_dma n ?a w))\<lparr>USB_STATUS := ss_status_in n\<rparr>)"
    unfolding ss_status_in_def by (rule take_packets [OF Cons.prems(1) j(1) less_imp_le [OF j(2)] j(3)])
  from burst_more [OF n Cons.prems(1,2,3) j(1-3), of e] obtain w1 where w1:
    "usb30_ep_in_handler e (of_nat n) ((wr_ss_tx n c (wr_ss_tx_dma n ?a w))\<lparr>USB_STATUS := ss_status_in n\<rparr>) = Some w1"
    "ss_sending n ?m ?a ?r w1" "ss_ready n mps p w1" "usb_devices w1 = usb_devices w"
    "usb3_backend_current_device w1 = usb3_backend_current_device w" "usb_memory w1 = usb_memory w" "usb_crit w1 = usb_crit w"
    by blast
  have irq: "USBSS_IRQHandler k e ((wr_ss_tx n c (wr_ss_tx_dma n ?a w))\<lparr>USB_STATUS := ss_status_in n\<rparr>) = Some w1"
    unfolding ss_status_in_def irq_in_endpoint [OF n] using w1(1) unfolding ss_status_in_def .
  have "burst_count ?m ?r \<le> p" "portions (burst_count ?m ?r) ts" using Cons.prems(3) j cnt by simp_all
  from Cons.IH [OF w1(2,3) this] obtain w2 i where w2:
    "ss_in_bursts k e n ?m ts w1 = Some (take i (burst_packets (usb_memory w1) ?a ?m ?r), w2)"
    "i < burst_count ?m ?r" "burst_count ?m ?r - i = burst_count ?m (?r - i * ?m)"
    "ss_sending n ?m (?a + of_nat (i * ?m)) (?r - i * ?m) w2" "ss_ready n mps p w2" "usb_devices w2 = usb_devices w1"
    "usb3_backend_current_device w2 = usb3_backend_current_device w1" "usb_memory w2 = usb_memory w1" "usb_crit w2 = usb_crit w1"
    by blast
  let ?all = "burst_packets (usb_memory w) a ?m r"
  have packets: "take j ?all @ take i (drop j ?all) = take (j + i) ?all" by (simp add: take_add)
  have "ss_in_bursts k e n ?m (t # ts) w = Some (take (j + i) ?all, w2)"
    using take irq w2(1) burst_packets_drop [OF pos j(2), of "usb_memory w" a] packets w1(6) t by simp
  moreover have eqs: "?a + of_nat (i * ?m) = a + of_nat ((j + i) * ?m)" "?r - i * ?m = r - (j + i) * ?m"
    by (simp_all add: distrib_right)
  have "j + i < ?p" using w2(2) cnt j(2) by simp
  moreover have "?p - (j + i) = burst_count ?m (r - (j + i) * ?m)" using w2(3) unfolding cnt eqs by simp
  moreover have "ss_sending n ?m (a + of_nat ((j + i) * ?m)) (r - (j + i) * ?m) w2" using w2(4) unfolding eqs .
  ultimately show ?case using w1(4-7) w2(5-9) by (intro exI [of _ w2] exI [of _ "j + i"]) (simp only: simp_thms)
qed

section \<open>From the application's buffer to the host\<close>

definition usb3_able :: "u16 \<Rightarrow> nat \<Rightarrow> nat \<Rightarrow> u16 \<Rightarrow> 'a usb3_world_scheme \<Rightarrow> bool" where
  "usb3_able mps p i n w \<longleftrightarrow> i \<in> {1..7} \<and> ss_ready i mps p w \<and> burst_count (unat mps) (unat n) \<le> p \<and>
     SS_TX_CONTRL w i AND NOT 0x03e00000 = 0"

definition usb3_armed :: "u16 \<Rightarrow> nat \<Rightarrow> u32 \<Rightarrow> u16 \<Rightarrow> 'a usb3_world_scheme \<Rightarrow> bool" where
  "usb3_armed mps i a n w \<longleftrightarrow> ss_sending i (unat mps) a (unat n) w"

lemma burst_count_multiple: "0 < m \<Longrightarrow> burst_count m (Suc q * m) = Suc q"
proof -
  assume "0 < m"
  then have "(Suc q * m - 1) div m = q" by (intro div_nat_eqI) (simp_all add: mult.commute [of m])
  then show ?thesis by (simp add: burst_count_def)
qed

lemma burst_count_rest: "0 < m \<Longrightarrow> n mod m \<noteq> 0 \<or> n = 0 \<Longrightarrow> burst_count m n = n div m + 1"
proof (cases "n = 0")
  case False
  assume "0 < m" "n mod m \<noteq> 0 \<or> n = 0"
  define d r where "d = n div m" and "r = n mod m"
  have n: "n = m * d + r" "r < m" "r \<noteq> 0"
    using \<open>0 < m\<close> \<open>n mod m \<noteq> 0 \<or> n = 0\<close> False by (simp_all add: d_def r_def)
  have "(n - 1) div m = d" by (rule div_nat_eqI) (use n in \<open>simp_all\<close>)
  then show ?thesis by (simp add: burst_count_def d_def)
qed (simp add: burst_count_def)

text \<open>The number of packets and the size of the last one, as \<open>usb3_endp_tx_ready\<close> works them out.\<close>

lemma unat_ucast_u16_u8: "unat (ucast (x :: u16) :: u8) = unat x mod 256"
  by (simp add: unsigned_ucast_eq take_bit_eq_mod)

lemma tx_ready_packets:
  fixes n mps :: u16
  assumes "mps \<noteq> 0" and "burst_count (unat mps) (unat n) \<le> 31"
  defines "lp \<equiv> (if 0 < n div mps \<and> n mod mps = 0 then mps else n mod mps)"
  shows "unat (ucast (n div mps + (if lp \<noteq> mps then 1 else 0)) :: u8) = burst_count (unat mps) (unat n)"
    "unat lp = unat n - (burst_count (unat mps) (unat n) - 1) * unat mps" "lp \<le> mps"
proof -
  let ?m = "unat mps" and ?n = "unat n"
  have pos: "0 < ?m" using assms(1) by (simp add: unat_gt_0)
  have dm: "unat (n div mps) = ?n div ?m" "unat (n mod mps) = ?n mod ?m" by (simp_all add: unat_div unat_mod)
  have "unat (ucast (n div mps + (if lp \<noteq> mps then 1 else 0)) :: u8) = burst_count ?m ?n \<and>
    unat lp = ?n - (burst_count ?m ?n - 1) * ?m \<and> lp \<le> mps"
  proof (cases "0 < n div mps \<and> n mod mps = 0")
    case True
    then have "unat (n div mps) \<noteq> 0" "unat (n mod mps) = 0" by (auto simp: unat_eq_zero)
    then have "?n div ?m \<noteq> 0" "?n mod ?m = 0" unfolding dm .
    moreover have "?n = ?n div ?m * ?m + ?n mod ?m" by simp
    ultimately obtain q where q: "?n div ?m = Suc q" "?n = Suc q * ?m" by (metis add_0_right not0_implies_Suc)
    have "burst_count ?m ?n = Suc q" unfolding q(2) by (rule burst_count_multiple [OF pos])
    moreover have "lp = mps" using True by (simp add: lp_def)
    moreover have "unat (ucast (n div mps) :: u8) = Suc q"
      using calculation(1) assms(2) dm(1) q(1) by (simp add: unat_ucast_u16_u8)
    ultimately show ?thesis using q(2) by simp
  next
    case False
    have "?n = 0" if "?n mod ?m = 0"
    proof -
      from that have "n mod mps = 0" using dm(2) by (simp add: unat_eq_zero)
      with False have "n div mps = 0" by (simp add: word_gt_0)
      then have "?n div ?m = 0" using dm(1) by simp
      with that show ?thesis using div_mult_mod_eq [of ?n ?m] by simp
    qed
    then have "?n mod ?m \<noteq> 0 \<or> ?n = 0" by metis
    then have b: "burst_count ?m ?n = ?n div ?m + 1" by (rule burst_count_rest [OF pos])
    have lm: "lp = n mod mps" using False by (auto simp: lp_def)
    moreover have lt: "n mod mps < mps" using pos by (simp add: word_less_nat_alt dm(2))
    moreover have "unat (ucast (n div mps + 1) :: u8) = ?n div ?m + 1"
    proof -
      have "unat (n div mps + 1) = unat (n div mps) + 1"
        using b assms(2) dm(1) by (subst unat_add_lem [THEN iffD1]) simp_all
      then show ?thesis using b assms(2) dm(1) by (simp add: unat_ucast_u16_u8)
    qed
    ultimately show ?thesis using b dm by (auto simp: minus_mult_div_eq_mod [symmetric] mult.commute)
  qed
  then show "unat (ucast (n div mps + (if lp \<noteq> mps then 1 else 0)) :: u8) = burst_count ?m ?n"
    "unat lp = ?n - (burst_count ?m ?n - 1) * ?m" "lp \<le> mps" by simp_all
qed

lemma usb3_tx_ready_arms:
  assumes "usb3_able mps p (unat ep) n w"
  shows "\<exists>w'. usb3_endp_tx_ready ep n w = Some w' \<and>
    usb3_armed mps (unat ep) (ep_buffer (ep_tx (endpoints (dev3 w)) (unat ep))) n w' \<and>
    usb_crit w' = usb_crit w \<and> usb_memory w' = usb_memory w \<and> usb_devices w' = usb_devices w \<and>
    usb3_backend_current_device w' = usb3_backend_current_device w"
proof -
  let ?i = "unat ep" and ?p = "burst_count (unat mps) (unat n)"
  define l where "l = (if 0 < n div mps \<and> n mod mps = 0 then mps else n mod mps)"
  define q :: u8 where "q = ucast (n div mps + (if l \<noteq> mps then 1 else 0))"
  have i: "?i \<in> {1..7}" and r: "ss_ready ?i mps p w" and p: "?p \<le> p" and idle: "SS_TX_CONTRL w ?i AND NOT 0x03e00000 = 0"
    using assms by (simp_all add: usb3_able_def)
  then have mps: "ep_max_packet_size (ep_tx (endpoints (dev3 w)) ?i) = mps" "mps \<noteq> 0" "mps \<le> 1024" and p31: "?p \<le> 31"
    by (simp_all add: ss_ready_def)
  note packets = tx_ready_packets [OF mps(2) p31, folded l_def, folded q_def]
  have q31: "q \<le> 31" using packets(1) p31 by (simp add: word_le_nat_alt)
  have l800: "l < 0x800" by (rule order.strict_trans1 [OF order_trans [OF packets(3) mps(3)]]) simp
  note reads = ss_tx_word_reads [OF idle q31 l800]
  have ss: "ss_endpoint ep = Some ?i" using ss_endpoint_nat(1) [OF i] by simp
  let ?w = "usb30_send_erdy (ep OR ep_IN) q (usb30_in_set ep True ss_ACK q l
    (set_bursts ?i q (set_remaining ?i n (wr_ss_tx_dma ?i (ep_buffer (ep_tx (endpoints (dev3 w)) ?i)) w))))"
  have "usb3_endp_tx_ready ep n w = Some ?w"
    using ss mps by (simp add: usb3_endp_tx_ready_def ss_getters Let_def q_def l_def)
  moreover have "SS_TX_CONTRL ?w ?i = ss_tx_word (SS_TX_CONTRL w ?i) q l" "ep_tx_remaining_length ?w ?i = n"
    "ep_tx_total_bursts ?w ?i = q" "SS_TX_DMA ?w ?i = ep_buffer (ep_tx (endpoints (dev3 w)) ?i)"
    by (simp_all add: ss_tx_word_def usb30_send_erdy_def usb30_in_set_def ss_writes Let_def)
  then have "usb3_armed mps ?i (ep_buffer (ep_tx (endpoints (dev3 w)) ?i)) n ?w"
    unfolding usb3_armed_def ss_sending_def by (simp only: reads packets)
  moreover have "usb_crit ?w = usb_crit w \<and> usb_memory ?w = usb_memory w \<and> usb_devices ?w = usb_devices w \<and>
      usb3_backend_current_device ?w = usb3_backend_current_device w"
    by (simp add: usb30_send_erdy_def usb30_in_set_def ss_writes Let_def)
  ultimately show ?thesis by blast
qed

lemma tx_ready_keeps:
  assumes "unat ep \<in> {1..7}" and "usb3_endp_tx_ready ep n w = Some w'"
  shows "ss_tx_keeps (unat ep) w w'" "usb3_world.more w' = usb3_world.more w"
proof -
  have "ss_endpoint ep = Some (unat ep)" using ss_endpoint_nat(1) [OF assms(1)] by simp
  then show "ss_tx_keeps (unat ep) w w'" "usb3_world.more w' = usb3_world.more w"
    using assms(2) by (simp_all add: usb3_endp_tx_ready_def usb30_get_tx_endpoint_addr_reg_def Let_def split: if_splits)
      (auto simp: ss_tx_keeps_def usb30_send_erdy_def usb30_in_set_def ss_writes Let_def)
qed

interpretation usb3_tx: usb_tx_backend usb3_endp_tx_ready "usb3_able mps p" "usb3_armed mps" usb3_backend_current_device
  for mps p
  by unfold_locales
    (auto simp: usb3_tx_ready_arms, auto simp: usb3_able_def usb3_armed_def ss_ready_def ss_sending_def split: if_splits)

text \<open>The backends as the device layer sees them.\<close>

definition usb_backend_handled :: "usb_consts \<Rightarrow> ('a usb3_world_scheme) usb_backends" where
  "usb_backend_handled k = usb2_endpoints_backend_handled k usb3_endp_tx_ready"

text \<open>
  C7. SuperSpeed IN: a buffer given to \<open>endp_tx_set_new_buffer\<close> reaches the host byte for byte, in
  packets of the maximum size and a last one with the rest, in whatever portions the host takes the
  packets of the bursts it is offered; the interrupt after the last packet leaves the endpoint idle
  and calls \<open>tx_complete\<close>, once.
\<close>

theorem usb3_bulk_in_delivers:
  assumes "unat ep \<in> {1..7}" and "usb3_backend_current_device w = d" and "dev_speed (usb_devices w d) = USB30_SUPERSPEED"
    and "crit_ok (usb_crit w)" and "SS_TX_CONTRL w (unat ep) AND NOT 0x03e00000 = 0"
    and "ep_max_packet_size (ep_tx (endpoints (usb_devices w d)) (unat ep)) = mps" and "mps \<noteq> 0" and "mps \<le> 1024"
    and "n \<le> ep_max_packet_size_with_burst (ep_tx (endpoints (usb_devices w d)) (unat ep))" and "ptr \<noteq> 0"
    and "burst_count (unat mps) (unat n) \<le> unat (ep_max_burst (ep_tx (endpoints (usb_devices w d)) (unat ep)))"
    and "burst_count (unat mps) (unat n) \<le> 31" and "portions (burst_count (unat mps) (unat n)) ts"
  shows "\<exists>w0 ps w1. endp_tx_set_new_buffer (usb_backend_handled k) d ep ptr n w = Some (True, w0) \<and>
    ss_in_bursts k e (unat ep) (unat mps) ts w0 = Some (ps, w1) \<and>
    (\<forall>c. ss_nump c = 0 \<longrightarrow> (\<exists>qs w2 w3. ss_in_take (unat ep) (unat mps) (ss_nump (SS_TX_CONTRL w1 (unat ep))) c w1 = Some (qs, w2) \<and>
      ps @ qs = bulk_packets (unat mps) (mem_bytes (usb_memory w) ptr (unat n)) \<and>
      USBSS_IRQHandler k e w2 = ss_complete e (unat ep) w3 \<and> ss_idle (unat ep) w3))"
proof -
  let ?i = "unat ep" and ?m = "unat mps" and ?n = "unat n"
  let ?p = "burst_count ?m ?n"
  have pos: "0 < ?m" using assms(7) by (simp add: unat_gt_0)
  have able: "usb3_able mps ?p ?i n w" using assms by (simp add: usb3_able_def ss_ready_def)
  have "be_tx_ready (usb_backend_handled k) (dev_speed (usb_devices w d)) = usb3_endp_tx_ready"
    using assms(3) by (simp add: be_tx_ready_def usb_backend_handled_def usb2_endpoints_backend_handled_def)
  from usb3_tx.set_new_buffer_sends [OF this assms(2) able assms(4,10,9)] obtain w0 where w0:
    "endp_tx_set_new_buffer (usb_backend_handled k) d ep ptr n w = Some (True, w0)" "usb3_armed mps ?i ptr n w0"
    "usb_memory w0 = usb_memory w" "usb3_backend_current_device w0 = d"
    "usb_devices w0 = (usb_devices w)(d := upd_ep_tx ?i (\<lambda>p. p\<lparr>ep_buffer := ptr\<rparr>) (usb_devices w d))" by blast
  have s: "ss_sending ?i ?m ptr ?n w0" using w0(2) by (simp add: usb3_armed_def)
  have r: "ss_ready ?i mps ?p w0" using w0(4,5) assms by (simp add: ss_ready_def)
  from bursts_run [OF assms(1) s r order_refl assms(13), of k e] obtain w1 j where w1:
    "ss_in_bursts k e ?i ?m ts w0 = Some (take j (burst_packets (usb_memory w) ptr ?m ?n), w1)" "j < ?p"
    "?p - j = burst_count ?m (?n - j * ?m)" "ss_sending ?i ?m (ptr + of_nat (j * ?m)) (?n - j * ?m) w1" "ss_ready ?i mps ?p w1"
    "usb_memory w1 = usb_memory w" unfolding w0(3) by blast
  let ?a = "ptr + of_nat (j * ?m)" and ?r = "?n - j * ?m"
  let ?q = "burst_count ?m ?r"
  have last: "\<exists>qs w2 w3. ss_in_take ?i ?m (ss_nump (SS_TX_CONTRL w1 ?i)) c w1 = Some (qs, w2) \<and>
      take j (burst_packets (usb_memory w) ptr ?m ?n) @ qs = bulk_packets ?m (mem_bytes (usb_memory w) ptr ?n) \<and>
      USBSS_IRQHandler k e w2 = ss_complete e ?i w3 \<and> ss_idle ?i w3" if c: "ss_nump c = 0" for c
  proof -
    have nump: "ss_nump (SS_TX_CONTRL w1 ?i) = ?q" using w1(4) by (simp add: ss_sending_def)
    let ?w2 = "(wr_ss_tx ?i c (wr_ss_tx_dma ?i (?a + of_nat (?q * ?m)) w1))\<lparr>USB_STATUS := ss_status_in ?i\<rparr>"
    have take: "ss_in_take ?i ?m ?q c w1 = Some (take ?q (burst_packets (usb_memory w1) ?a ?m ?r), ?w2)"
      unfolding ss_status_in_def by (rule take_packets [OF w1(4)]) (use c w1(2,3) in simp_all)
    have "length (drop j (burst_packets (usb_memory w) ptr ?m ?n)) = ?q"
      unfolding length_drop length_burst_packets using w1(3) .
    then have "take ?q (burst_packets (usb_memory w1) ?a ?m ?r) = drop j (burst_packets (usb_memory w) ptr ?m ?n)"
      unfolding burst_packets_drop [OF pos w1(2)] w1(6) by (intro take_all) (simp only:)
    then have all: "take j (burst_packets (usb_memory w) ptr ?m ?n) @ take ?q (burst_packets (usb_memory w1) ?a ?m ?r) =
        bulk_packets ?m (mem_bytes (usb_memory w) ptr ?n)"
      by (simp add: burst_packets_bulk [OF pos])
    from burst_done [OF assms(1) w1(4,5) c, of e "?a + of_nat (?q * ?m)"] obtain w3 where
      "usb30_ep_in_handler e (of_nat ?i) ?w2 = ss_complete e ?i w3" "ss_idle ?i w3" by blast
    moreover have "USBSS_IRQHandler k e ?w2 = usb30_ep_in_handler e (of_nat ?i) ?w2"
      unfolding ss_status_in_def by (rule irq_in_endpoint [OF assms(1)])
    ultimately show ?thesis unfolding nump using take all by auto
  qed
  then show ?thesis using w0(1) w1(1) by blast
qed

definition demo_burst :: usb3_world where
  "demo_burst = upd_dev3 (\<lambda>v. (upd_ep_tx 1 (\<lambda>p. p\<lparr>ep_max_packet_size := 4, ep_max_packet_size_with_burst := 16,
     ep_max_burst := 4\<rparr>) v)\<lparr>dev_speed := USB30_SUPERSPEED\<rparr>) demo_usb3"

lemma demo_burst_ok:
  "unat (1 :: u8) \<in> {1..7}" "usb3_backend_current_device demo_burst = Usb_device_0"
  "dev_speed (usb_devices demo_burst Usb_device_0) = USB30_SUPERSPEED" "crit_ok (usb_crit demo_burst)"
  "SS_TX_CONTRL demo_burst (unat (1 :: u8)) AND NOT 0x03e00000 = 0"
  "ep_max_packet_size (ep_tx (endpoints (usb_devices demo_burst Usb_device_0)) (unat (1 :: u8))) = 4"
  "ep_max_packet_size_with_burst (ep_tx (endpoints (usb_devices demo_burst Usb_device_0)) (unat (1 :: u8))) = 16"
  "ep_max_burst (ep_tx (endpoints (usb_devices demo_burst Usb_device_0)) (unat (1 :: u8))) = 4"
  "usb_memory demo_burst = usb_memory demo_usb2"
  by (simp_all add: demo_burst_def demo_usb3_def usb2_world.defs upd_dev3_def upd_device_def upd_ep_tx_def demo_usb2_def
      crit_init_def crit_ok_def)

theorem usb3_bulk_in_delivers_witness:
  "\<forall>e. \<exists>w0 ps w1 qs w2 w3.
    endp_tx_set_new_buffer (usb_backend_handled demo_consts) Usb_device_0 1 0x2000 10 demo_burst = Some (True, w0) \<and>
    ss_in_bursts demo_consts e 1 4 [(1, 0x20000)] w0 = Some (ps, w1) \<and>
    ss_in_take 1 4 (ss_nump (SS_TX_CONTRL w1 1)) 0 w1 = Some (qs, w2) \<and>
    ps @ qs = [[0, 1, 2, 3], [4, 5, 6, 7], [8, 9]] \<and>
    USBSS_IRQHandler demo_consts e w2 = ss_complete e 1 w3 \<and> ss_idle 1 w3"
proof
  fix e
  have bp: "bulk_packets 4 (mem_bytes (usb_memory demo_usb2) 0x2000 10) = [[0, 1, 2, 3], [4, 5, 6, 7], [8, 9]]"
    by (simp add: mem_bytes_def demo_usb2_def bulk_packets_short bulk_packets_more upt_conv_Cons)
  have z: "ss_nump 0 = 0" by (simp add: ss_nump_def)
  have portions: "portions 3 [(Suc 0, 0x20000)]" by (simp add: ss_nump_def)
  have count: "burst_count 4 10 = 3" by (simp add: burst_count_def)
  have "\<exists>w0 ps w1. endp_tx_set_new_buffer (usb_backend_handled demo_consts) Usb_device_0 1 0x2000 10 demo_burst = Some (True, w0) \<and>
    ss_in_bursts demo_consts e (unat (1 :: u8)) (unat (4 :: u16)) [(1, 0x20000)] w0 = Some (ps, w1) \<and>
    (\<forall>c. ss_nump c = 0 \<longrightarrow> (\<exists>qs w2 w3.
      ss_in_take (unat (1 :: u8)) (unat (4 :: u16)) (ss_nump (SS_TX_CONTRL w1 (unat (1 :: u8)))) c w1 = Some (qs, w2) \<and>
      ps @ qs = bulk_packets (unat (4 :: u16)) (mem_bytes (usb_memory demo_burst) 0x2000 (unat (10 :: u16))) \<and>
      USBSS_IRQHandler demo_consts e w2 = ss_complete e (unat (1 :: u8)) w3 \<and> ss_idle (unat (1 :: u8)) w3))"
    by (rule usb3_bulk_in_delivers [OF demo_burst_ok(1-6)]) (simp_all add: demo_burst_ok(7,8) [simplified] count portions del: portions.simps)
  then obtain w0 ps w1 where w: "endp_tx_set_new_buffer (usb_backend_handled demo_consts) Usb_device_0 1 0x2000 10 demo_burst = Some (True, w0)"
    "ss_in_bursts demo_consts e 1 4 [(1, 0x20000)] w0 = Some (ps, w1)"
    "\<forall>c. ss_nump c = 0 \<longrightarrow> (\<exists>qs w2 w3. ss_in_take 1 4 (ss_nump (SS_TX_CONTRL w1 1)) c w1 = Some (qs, w2) \<and>
      ps @ qs = [[0, 1, 2, 3], [4, 5, 6, 7], [8, 9]] \<and> USBSS_IRQHandler demo_consts e w2 = ss_complete e 1 w3 \<and> ss_idle 1 w3)"
    by (auto simp: demo_burst_ok(9) bp)
  show "\<exists>w0 ps w1 qs w2 w3.
    endp_tx_set_new_buffer (usb_backend_handled demo_consts) Usb_device_0 1 0x2000 10 demo_burst = Some (True, w0) \<and>
    ss_in_bursts demo_consts e 1 4 [(1, 0x20000)] w0 = Some (ps, w1) \<and>
    ss_in_take 1 4 (ss_nump (SS_TX_CONTRL w1 1)) 0 w1 = Some (qs, w2) \<and>
    ps @ qs = [[0, 1, 2, 3], [4, 5, 6, 7], [8, 9]] \<and>
    USBSS_IRQHandler demo_consts e w2 = ss_complete e 1 w3 \<and> ss_idle 1 w3"
    using w(1,2) w(3) [rule_format, OF z] by blast
qed

end
