(* ===== verification/Usb30_Receive.thy ===== *)
theory Usb30_Receive
  imports Usb30_Burst
begin

text \<open>
  Reception over USB 3.0 on the endpoints above 0. An armed endpoint (\<open>ss_receiving\<close>) has announced
  \<open>max_burst\<close> packets; the host sends some of them (\<open>ss_out_send\<close>), and the interrupt has to work out
  their length from the packets left over and the length of the last one. The lemmas show that the
  receive handler gets exactly the bytes sent and that the endpoint is armed again afterwards, and that
  \<open>SET_CONFIGURATION\<close> arms every endpoint of the mask.
\<close>

section \<open>Fields of the receive register\<close>

definition ss_rx_word :: "u32 \<Rightarrow> u8 \<Rightarrow> u32" where
  "ss_rx_word v nump = v OR push_bit 16 (ucast nump) OR push_bit 26 (ucast ss_ACK)"

lemma ss_rx_word_reads:
  assumes "v AND NOT 0x03e00000 = 0" and "nump \<le> 31"
  shows "ss_nump (ss_rx_word v nump) = unat nump" "ss_status (ss_rx_word v nump) = 1"
    "ss_rx_word v nump AND 0x03e00000 = v AND 0x03e00000"
proof -
  note b = seq_bits [OF assms(1)] small_bits [OF assms(2)]
  have "drop_bit 16 (ss_rx_word v nump) AND 0x1f = ucast nump"
    unfolding ss_masks ss_rx_word_def ss_ACK_def
    by (rule bit_word_eqI) (auto simp: bit_simps dest: b, auto simp: less_5)
  then show "ss_nump (ss_rx_word v nump) = unat nump" by (simp add: ss_nump_def)
  have "drop_bit 26 (ss_rx_word v nump) AND 3 = 1"
    unfolding ss_masks ss_rx_word_def ss_ACK_def
    by (rule bit_word_eqI) (auto simp: bit_simps less_2_cases_iff dest: b)
  then show "ss_status (ss_rx_word v nump) = 1" by (simp add: ss_status_def)
  have "push_bit 16 (ucast nump) AND (0x03e00000 :: u32) = 0"
    unfolding ss_masks by (rule bit_word_eqI) (auto simp: bit_simps dest: b)
  then show "ss_rx_word v nump AND 0x03e00000 = v AND 0x03e00000"
    unfolding ss_rx_word_def ss_ACK_def by (simp add: bit.conj_disj_distrib2)
qed

text \<open>Leaving NRDY to be set changes nothing: its code is 0 and the register is only ever ORed.\<close>

lemma out_set_NRDY: "usb30_out_set ep ss_NRDY 0 w = w"
  by (simp add: usb30_out_set_def ss_NRDY_def wr_ss_rx_def)

lemma out_status_read:
  "usb30_out_status ep w =
    (of_nat (ss_nump (SS_RX_CONTRL w (unat ep))), of_nat (unat (SS_RX_CONTRL w (unat ep) AND 0xffff)),
     if bit (SS_RX_CONTRL w (unat ep)) 29 then 1 else 0)"
proof -
  have "drop_bit 29 c AND 1 = (if bit c 29 then 1 else 0)" for c :: u32
    by (rule bit_word_eqI) (auto simp: bit_simps intro!: Nat.gr0I)
  then show ?thesis by (simp add: usb30_out_status_def ss_nump_def Let_def)
qed

section \<open>An armed endpoint and its host\<close>

definition ss_receiving :: "nat \<Rightarrow> 'a usb3_world_scheme \<Rightarrow> bool" where
  "ss_receiving n w \<longleftrightarrow> (let ep = ep_rx (endpoints (dev3 w)) n in
     ep_rx_total_length w n = 0 \<and> ep_rx_previously_set_max_burst w n = ep_max_burst ep \<and>
     SS_RX_DMA w n = ep_buffer ep \<and> ss_nump (SS_RX_CONTRL w n) = unat (ep_max_burst ep) \<and>
     ss_status (SS_RX_CONTRL w n) = 1)"

text \<open>The host sends the packets \<open>ps\<close>, all of the maximum size but the last, no more than announced. The
  controller writes them behind each other and leaves a register \<open>c\<close> that counts the announced packets
  not sent, holds the length of the last one, and has bit 29 set if that was a short one.\<close>

definition ss_out_send ::
    "nat \<Rightarrow> nat \<Rightarrow> u8 list list \<Rightarrow> u32 \<Rightarrow> 'a usb3_world_scheme \<Rightarrow> ('a usb3_world_scheme) option" where
  "ss_out_send n mps ps c w =
     (if ss_status (SS_RX_CONTRL w n) = 1 \<and> ps \<noteq> [] \<and> list_all (\<lambda>p. length p = mps) (butlast ps) \<and>
         length (last ps) \<le> mps \<and> length ps + ss_nump c = ss_nump (SS_RX_CONTRL w n) \<and>
         unat (c AND 0xffff) = length (last ps) \<and> (bit c 29 \<longleftrightarrow> length (last ps) < mps)
      then Some ((wr_ss_rx n c (wr_ss_rx_dma n (SS_RX_DMA w n + of_nat (length (concat ps))) w))
        \<lparr>USB_STATUS := 1 OR push_bit 8 (of_nat n), usb_memory := mem_write (SS_RX_DMA w n) (concat ps) (usb_memory w)\<rparr>)
      else None)"

lemma concat_full_length: "list_all (\<lambda>p. length p = m) ps \<Longrightarrow> length (concat ps) = length ps * m"
  by (induction ps) auto

lemma packets_length:
  assumes "ps \<noteq> []" and "list_all (\<lambda>p. length p = m) (butlast ps)"
  shows "length (concat ps) = (length ps - 1) * m + length (last ps)"
proof -
  have "concat ps = concat (butlast ps) @ last ps" using assms(1) by (metis append_butlast_last_id concat.simps concat_append append_Nil2)
  then show ?thesis using concat_full_length [OF assms(2)] by simp
qed

lemma irq_out_endpoint:
  assumes "n \<in> {1..7}" and "USB_STATUS w = 1 OR push_bit 8 (of_nat n)"
  shows "USBSS_IRQHandler k e w = usb30_ep_out_handler e (of_nat n) w"
proof -
  have "n \<in> {1,2,3,4,5,6,7}" using assms(1) by auto
  then show ?thesis using assms(2) by (elim insertE emptyE) (simp_all add: USBSS_IRQHandler_def Let_def)
qed

text \<open>The length the interrupt works out.\<close>

lemma burst_length:
  fixes mps :: u16
  assumes "ps \<noteq> []" and "list_all (\<lambda>p. length p = unat mps) (butlast ps)" and "length (last ps) \<le> unat mps"
  shows "length (last ps) = unat mps \<Longrightarrow> mps * of_nat (length ps) = of_nat (length (concat ps))"
    "mps * (of_nat (length ps) - 1) + of_nat (length (last ps)) = of_nat (length (concat ps))"
proof -
  note l = packets_length [OF assms(1,2)]
  have s: "of_nat (length ps) - 1 = (of_nat (length ps - 1) :: u16)"
    using assms(1) by (cases ps) simp_all
  show "mps * (of_nat (length ps) - 1) + of_nat (length (last ps)) = of_nat (length (concat ps))"
    unfolding s l of_nat_add of_nat_mult by (simp add: mult.commute)
  assume "length (last ps) = unat mps"
  then have "length (concat ps) = length ps * unat mps" using l assms(1) by (cases ps) simp_all
  then show "mps * of_nat (length ps) = of_nat (length (concat ps))" by (simp add: mult.commute)
qed

text \<open>The end of \<open>usb30_ep_out_handler\<close>, after the receive handler.\<close>

definition ss_rearmed :: "nat \<Rightarrow> usb_device_id \<Rightarrow> 'a usb3_world_scheme \<Rightarrow> 'a usb3_world_scheme" where
  "ss_rearmed n d w =
     (let ep = ep_rx (endpoints (usb_devices w d)) n;
          w1 = wr_ss_rx_dma n (ep_buffer ep) (usb30_out_clear_interrupt (of_nat n) w);
          w2 = set_total n 0 (set_prev_burst n (ep_max_burst ep) w1)
      in usb30_send_erdy (of_nat n) (ep_max_burst ep) (usb30_out_set (of_nat n) ss_ACK (ep_max_burst ep) w2))"

lemma out_clear_devices: "usb_devices (usb30_out_clear_interrupt ep w) = usb_devices w"
  by (simp add: usb30_out_clear_interrupt_def wr_ss_rx_def)

lemma rearmed_receiving:
  assumes n: "n \<in> {1..7}" and d: "usb3_backend_current_device w = d"
    and b: "ep_max_burst (ep_rx (endpoints (usb_devices w d)) n) \<le> 31"
  shows "ss_receiving n (ss_rearmed n d w)"
    "SS_RX_CONTRL (ss_rearmed n d w) n AND 0x03e00000 = SS_RX_CONTRL w n AND 0x03e00000"
    "usb_devices (ss_rearmed n d w) = usb_devices w" "usb_memory (ss_rearmed n d w) = usb_memory w"
    "usb3_backend_current_device (ss_rearmed n d w) = d"
proof -
  let ?b = "ep_max_burst (ep_rx (endpoints (usb_devices w d)) n)" and ?v = "SS_RX_CONTRL w n AND 0x03e00000"
  let ?w = "ss_rearmed n d w"
  have v: "?v AND NOT 0x03e00000 = 0" by (rule bit_word_eqI) (auto simp: bit_simps)
  have regs: "SS_RX_CONTRL ?w n = ss_rx_word ?v ?b" "SS_RX_DMA ?w n = ep_buffer (ep_rx (endpoints (usb_devices w d)) n)"
    "ep_rx_total_length ?w n = 0" "ep_rx_previously_set_max_burst ?w n = ?b"
    using ss_endpoint_nat(2) [OF n] by (simp_all add: ss_rearmed_def ss_utils ss_writes ss_rx_word_def Let_def)
  show k: "usb_devices ?w = usb_devices w" "usb_memory ?w = usb_memory w" "usb3_backend_current_device ?w = d"
    using d by (simp_all add: ss_rearmed_def ss_utils ss_writes Let_def)
  show "ss_receiving n ?w"
    unfolding ss_receiving_def Let_def k regs by (simp add: ss_rx_word_reads [OF v b])
  show "SS_RX_CONTRL ?w n AND 0x03e00000 = ?v"
    unfolding regs ss_rx_word_reads(3) [OF v b] by (rule bit_word_eqI) (auto simp: bit_simps)
qed

lemma out_burst:
  assumes n: "n \<in> {1..7}" and r: "ss_receiving n w" and d: "usb3_backend_current_device w = d"
    and send: "ss_out_send n (unat (ep_max_packet_size (ep_rx (endpoints (usb_devices w d)) n))) ps c w = Some w1"
    and small: "length (concat ps) < 65536"
  shows "\<exists>w2. w2 = set_total n (of_nat (length (concat ps))) w1 \<and> USBSS_IRQHandler k e w1 = do {
      (_, w3) \<leftarrow> call_rx_callback e (rx_callback (endpoints (usb_devices w d)) n)
        (ep_buffer (ep_rx (endpoints (usb_devices w d)) n)) (of_nat (length (concat ps))) w2;
      Some (ss_rearmed n d w3) } \<and>
    usb_memory w2 = mem_write (ep_buffer (ep_rx (endpoints (usb_devices w d)) n)) (concat ps) (usb_memory w) \<and>
    usb_devices w2 = usb_devices w \<and> usb3_backend_current_device w2 = d \<and> SS_RX_CONTRL w2 n = c"
proof -
  define ep where "ep = ep_rx (endpoints (usb_devices w d)) n"
  define mps where "mps = ep_max_packet_size ep"
  note ss = ss_endpoint_nat [OF n]
  have s: "ps \<noteq> []" "list_all (\<lambda>p. length p = unat mps) (butlast ps)" "length (last ps) \<le> unat mps"
    "length ps + ss_nump c = unat (ep_max_burst ep)" "unat (c AND 0xffff) = length (last ps)"
    "bit c 29 \<longleftrightarrow> length (last ps) < unat mps"
    and w1: "w1 = (wr_ss_rx n c (wr_ss_rx_dma n (SS_RX_DMA w n + of_nat (length (concat ps))) w))
        \<lparr>USB_STATUS := 1 OR push_bit 8 (of_nat n), usb_memory := mem_write (ep_buffer ep) (concat ps) (usb_memory w)\<rparr>"
    using send r d by (auto simp: ss_out_send_def ss_receiving_def ep_def mps_def Let_def split: if_splits)
  have frame: "usb_devices w1 = usb_devices w" "usb3_backend_current_device w1 = d" "ep_rx_total_length w1 n = 0"
    "ep_rx_previously_set_max_burst w1 n = ep_max_burst ep" "SS_RX_CONTRL w1 n = c"
    "USB_STATUS w1 = 1 OR push_bit 8 (of_nat n)" "usb_memory w1 = mem_write (ep_buffer ep) (concat ps) (usb_memory w)"
    using r d by (simp_all add: w1 ss_writes ss_receiving_def ep_def Let_def)
  have sent: "ep_max_burst ep - of_nat (ss_nump c) = of_nat (length ps)"
    using arg_cong [OF s(4), of "of_nat :: nat \<Rightarrow> u8"] by (simp add: algebra_simps)
  have "unat (ep_max_burst ep) < 2 ^ 8" by (rule order.strict_trans2 [OF unsigned_less]) simp
  then have "length ps < 2 ^ 8" using s(4) by linarith
  then have u: "(ucast (of_nat (length ps) :: u8) :: u16) = of_nat (length ps)"
    by (simp add: unsigned_of_nat take_bit_nat_eq_self)
  note total = burst_length [OF s(1,2,3)]
  let ?t = "of_nat (length (concat ps)) :: u16"
  have len: "(if (if bit c 29 then 1 else 0 :: u8) \<noteq> 1 then 0 + mps * ucast (of_nat (length ps) :: u8)
      else 0 + (mps * (ucast (of_nat (length ps) :: u8) - 1) + of_nat (unat (c AND 0xffff)))) = ?t"
    unfolding u using s(3,5,6) total by (cases "bit c 29") simp_all
  let ?w2 = "set_total n ?t w1"
  have "USBSS_IRQHandler k e w1 = usb30_ep_out_handler e (of_nat n) w1" by (rule irq_out_endpoint [OF n frame(6)])
  also have "\<dots> = do {
      (_, w3) \<leftarrow> call_rx_callback e (rx_callback (endpoints (usb_devices w d)) n) (ep_buffer ep) ?t ?w2;
      Some (ss_rearmed n d w3) }"
    unfolding usb30_ep_out_handler_def ss_getters ss bind.bind_lunit out_status_read out_set_NRDY Let_def frame
      ep_def [symmetric] mps_def [symmetric] prod.case sent len
    by (simp add: set_total_def frame ss_rearmed_def out_clear_devices ep_OUT_def Let_def ep_def)
  finally show ?thesis
    by (intro exI [of _ ?w2]) (simp add: ep_def frame set_total_def)
qed

text \<open>
  C8. SuperSpeed OUT: for every burst the host sends to an armed endpoint, full or ended early by a short
  packet, the receive handler is called once, with the endpoint's buffer, which holds the
  packets' bytes one behind the other, and with exactly their number; when it returns the endpoint
  is armed for the next burst, and the packet sequence number of the controller is kept.
\<close>

theorem usb3_bulk_out_delivers:
  assumes "n \<in> {1..7}" and "ss_receiving n w" and "usb3_backend_current_device w = d"
    and "ep_max_packet_size (ep_rx (endpoints (usb_devices w d)) n) = mps" and "ep_buffer (ep_rx (endpoints (usb_devices w d)) n) = b"
    and "ss_out_send n (unat mps) ps c w = Some w1" and "length (concat ps) < 65536"
    and "\<forall>v v' r. call_rx_callback e (rx_callback (endpoints (usb_devices w d)) n) b (of_nat (length (concat ps))) v = Some (r, v') \<longrightarrow>
      usb3_backend_current_device v' = usb3_backend_current_device v \<and> usb_devices v' d = usb_devices v d \<and>
      SS_RX_CONTRL v' n = SS_RX_CONTRL v n"
    and "ep_max_burst (ep_rx (endpoints (usb_devices w d)) n) \<le> 31"
  shows "\<exists>w2. mem_bytes (usb_memory w2) b (length (concat ps)) = concat ps \<and>
    (case call_rx_callback e (rx_callback (endpoints (usb_devices w d)) n) b (of_nat (length (concat ps))) w2 of
       None \<Rightarrow> USBSS_IRQHandler k e w1 = None
     | Some (r, w3) \<Rightarrow> \<exists>w4. USBSS_IRQHandler k e w1 = Some w4 \<and> ss_receiving n w4 \<and> usb_memory w4 = usb_memory w3 \<and>
         usb_devices w4 = usb_devices w3 \<and> SS_RX_CONTRL w4 n AND 0x03e00000 = c AND 0x03e00000)"
proof -
  from out_burst [OF assms(1,2,3) assms(6) [folded assms(4)] assms(7), of k e, unfolded assms(5)] obtain w2 where w2:
    "USBSS_IRQHandler k e w1 = do {
      (_, w3) \<leftarrow> call_rx_callback e (rx_callback (endpoints (usb_devices w d)) n) b (of_nat (length (concat ps))) w2;
      Some (ss_rearmed n d w3) }"
    "usb_memory w2 = mem_write b (concat ps) (usb_memory w)" "usb_devices w2 = usb_devices w"
    "usb3_backend_current_device w2 = d" "SS_RX_CONTRL w2 n = c" by blast
  have "mem_bytes (usb_memory w2) b (length (concat ps)) = concat ps"
    unfolding w2(2) by (rule mem_bytes_write) (use assms(7) in simp_all)
  moreover have "\<exists>w4. USBSS_IRQHandler k e w1 = Some w4 \<and> ss_receiving n w4 \<and> usb_memory w4 = usb_memory w3 \<and>
      usb_devices w4 = usb_devices w3 \<and> SS_RX_CONTRL w4 n AND 0x03e00000 = c AND 0x03e00000"
    if cb: "call_rx_callback e (rx_callback (endpoints (usb_devices w d)) n) b (of_nat (length (concat ps))) w2 = Some (r, w3)" for r w3
  proof -
    note keep = assms(8) [rule_format, OF cb, unfolded w2(3-5)]
    have "ep_max_burst (ep_rx (endpoints (usb_devices w3 d)) n) \<le> 31" using keep assms(9) by simp
    from rearmed_receiving [OF assms(1) _ this] show ?thesis
      using keep by (intro exI [of _ "ss_rearmed n d w3"]) (simp add: w2(1) cb)
  qed
  ultimately show ?thesis
    by (intro exI [of _ w2]) (auto simp: w2(1) split: option.split)
qed

definition demo_receive :: usb3_world where
  "demo_receive = upd_dev3 (upd_ep_rx 1 (\<lambda>p. p\<lparr>ep_buffer := 0x20021000, ep_max_packet_size := 4, ep_max_burst := 4\<rparr>))
     (wr_ss_rx_dma 1 0x20021000 (wr_ss_rx 1 0x4040000 demo_usb3))"

lemma demo_receive_ok:
  "usb3_backend_current_device demo_receive = Usb_device_0"
  "ep_max_packet_size (ep_rx (endpoints (usb_devices demo_receive Usb_device_0)) 1) = 4"
  "ep_buffer (ep_rx (endpoints (usb_devices demo_receive Usb_device_0)) 1) = 0x20021000"
  "ep_max_burst (ep_rx (endpoints (usb_devices demo_receive Usb_device_0)) 1) = 4"
  "rx_callback (endpoints (usb_devices demo_receive Usb_device_0)) 1 = Default_handler" "ss_receiving 1 demo_receive"
  by (simp_all add: ss_receiving_def Let_def)
    (simp_all add: demo_receive_def demo_usb3_def usb2_world.defs ss_writes upd_ep_rx_def demo_usb2_def usb_device_initial_def
      ss_nump_def ss_status_def)

theorem usb3_bulk_out_delivers_witness:
  "\<forall>e. \<exists>w1 w4. ss_out_send 1 4 [[1, 2, 3, 4], [5, 6]] 0x20020002 demo_receive = Some w1 \<and>
     USBSS_IRQHandler demo_consts e w1 = Some w4 \<and> ss_receiving 1 w4 \<and>
     (\<exists>w2 :: usb3_world. mem_bytes (usb_memory w2) 0x20021000 6 = [1, 2, 3, 4, 5, 6] \<and> usb_memory w4 = usb_memory w2)"
proof
  fix e :: "usb3_world usb_env"
  have "SS_RX_CONTRL demo_receive 1 = 0x4040000"
    by (simp add: demo_receive_def ss_writes)
  moreover have "ss_status 0x4040000 = 1" "ss_nump 0x4040000 = 4" "ss_nump 0x20020002 = 2" "bit (0x20020002 :: u32) 29"
    by (simp_all add: ss_status_def ss_nump_def bit_iff_odd_drop_bit)
  ultimately obtain w1 where w1: "ss_out_send 1 (unat (4 :: u16)) [[1, 2, 3, 4], [5, 6]] 0x20020002 demo_receive = Some w1"
    by (simp add: ss_out_send_def)
  have cb: "call_rx_callback e (rx_callback (endpoints (usb_devices demo_receive Usb_device_0)) 1) b m v =
      Some (default_endp_rx_callback, v)" for b m v
    unfolding demo_receive_ok(5) by (simp add: call_rx_callback_def)
  have len: "length (concat [[1, 2, 3, 4], [5, 6 :: u8]]) = 6" by simp
  have "\<exists>w2 :: usb3_world. mem_bytes (usb_memory w2) 0x20021000 6 = concat [[1, 2, 3, 4], [5, 6]] \<and>
    (\<exists>w4. USBSS_IRQHandler demo_consts e w1 = Some w4 \<and> ss_receiving 1 w4 \<and> usb_memory w4 = usb_memory w2 \<and>
       usb_devices w4 = usb_devices w2 \<and> SS_RX_CONTRL w4 1 AND 0x03e00000 = 0x20020002 AND 0x03e00000)"
    using usb3_bulk_out_delivers [OF _ demo_receive_ok(6,1,2,3) w1, where e = e and k = demo_consts, unfolded cb len demo_receive_ok(4)]
    by (simp del: One_nat_def concat.simps)
  then show "\<exists>w1 w4. ss_out_send 1 4 [[1, 2, 3, 4], [5, 6]] 0x20020002 demo_receive = Some w1 \<and>
     USBSS_IRQHandler demo_consts e w1 = Some w4 \<and> ss_receiving 1 w4 \<and>
     (\<exists>w2 :: usb3_world. mem_bytes (usb_memory w2) 0x20021000 6 = [1, 2, 3, 4, 5, 6] \<and> usb_memory w4 = usb_memory w2)"
    using w1 by auto
qed

end
