(* ===== verification/Usb30_Control.thy ===== *)
theory Usb30_Control
  imports Usb30_Burst
begin

text \<open>
  Control transfers over USB 3.0. A setup packet is in the buffer of endpoint 0; the host then reads
  packets (\<open>ss_ep0_token\<close>), each followed by the interrupt that arms the next one. The lemmas show
  that a request for a descriptor is answered by exactly the packets of its requested prefix, numbered
  from 0, and that an address takes effect at the end of its status stage.
\<close>

section \<open>The word that arms a packet on endpoint 0\<close>

definition ss_seq :: "u32 \<Rightarrow> nat" where "ss_seq c = unat (drop_bit 21 c AND 0x1f)"

definition ss_ep0_word :: "nat \<Rightarrow> u16 \<Rightarrow> u32" where
  "ss_ep0_word j l = (of_nat j * 0x200000) OR ucast l OR 0x14010000"

lemma take_bit_of_nat_small: "j < 32 \<Longrightarrow> take_bit 5 (of_nat j :: u32) = of_nat j"
  by (simp add: word_unat_eq_iff unsigned_take_bit_eq unsigned_of_nat take_bit_nat_eq_self)

lemma ss_ep0_word_tx:
  assumes "j < 32" and "l \<le> 512"
  shows "ss_ep0_word j l = ss_tx_word (push_bit 21 (of_nat j)) 1 l" "push_bit 21 (of_nat j :: u32) AND NOT 0x03e00000 = 0"
proof -
  have l: "unat l < 0x800" using assms(2) by (simp add: word_le_nat_alt)
  then have "take_bit 11 l = l"
    by (simp add: word_unat_eq_iff unsigned_take_bit_eq take_bit_nat_eq_self)
  then have "(ucast l :: u32) AND 0x7ff = ucast l"
    unfolding ss_masks(4) take_bit_eq_mask [symmetric] by (simp add: word_unat_eq_iff unsigned_take_bit_eq)
  moreover have "of_nat j * (0x200000 :: u32) = push_bit 21 (of_nat j)" by (simp add: push_bit_eq_mult)
  moreover have "(0x14010000 :: u32) = push_bit 16 1 OR push_bit 26 1 OR push_bit 28 1" by simp
  ultimately show "ss_ep0_word j l = ss_tx_word (push_bit 21 (of_nat j)) 1 l"
    unfolding ss_ep0_word_def ss_tx_word_def ss_ACK_def by (simp only: or.assoc or.left_commute or.commute unsigned_1 of_bool_eq)
  have "bit (of_nat j :: u32) i \<Longrightarrow> i < 5" for i
    using take_bit_of_nat_small [OF assms(1)] by (metis bit_take_bit_iff)
  then show "push_bit 21 (of_nat j :: u32) AND NOT 0x03e00000 = 0"
    unfolding ss_masks by (intro bit_word_eqI) (auto simp: bit_simps)
qed

lemma ss_ep0_word_reads:
  assumes "j < 32" and "l \<le> 512"
  shows "ss_nump (ss_ep0_word j l) = 1" "ss_status (ss_ep0_word j l) = 1" "ss_len (ss_ep0_word j l) = unat l"
    "ss_seq (ss_ep0_word j l) = j"
proof -
  have l: "l < 0x800" by (rule order.strict_trans1 [OF assms(2)]) simp
  note reads = ss_tx_word_reads [OF ss_ep0_word_tx(2) [OF assms] _ l, of 1, folded ss_ep0_word_tx(1) [OF assms]]
  show "ss_nump (ss_ep0_word j l) = 1" "ss_status (ss_ep0_word j l) = 1" "ss_len (ss_ep0_word j l) = unat l"
    using reads by simp_all
  have b: "bit l i \<Longrightarrow> i < 16" for i using bit_imp_le_length [of l i] by simp
  have "drop_bit 21 (ss_ep0_word j l) AND 0x1f = take_bit 5 (of_nat j)"
    unfolding ss_ep0_word_tx(1) [OF assms] ss_tx_word_def ss_ACK_def ss_masks take_bit_eq_mask
    by (rule bit_word_eqI) (auto simp: bit_simps dest: b, auto simp: less_5)
  then show "ss_seq (ss_ep0_word j l) = j"
    using assms(1) by (simp add: ss_seq_def take_bit_of_nat_small unsigned_of_nat take_bit_nat_eq_self)
qed

section \<open>The host's side of a control IN transfer\<close>

definition ss_ep0_token :: "'a usb3_world_scheme \<Rightarrow> (nat \<times> u8 list) option" where
  "ss_ep0_token w =
     (let c = SS_TX_CONTRL w 0 in
      if ss_nump c = 1 \<and> ss_status c = 1
      then Some (ss_seq c, mem_bytes (usb_memory w) (SS_UEP0_DMA w) (ss_len c)) else None)"

text \<open>The host takes a packet, after which the controller's register holds \<open>c\<close>, and the interrupt runs.\<close>

primrec ss_ep0_packets ::
    "usb_consts \<Rightarrow> ('a usb3_world_scheme) usb_env \<Rightarrow> u32 list \<Rightarrow> 'a usb3_world_scheme \<Rightarrow>
     ((nat \<times> u8 list) list \<times> 'a usb3_world_scheme) option" where
  "ss_ep0_packets k e [] w = Some ([], w)"
| "ss_ep0_packets k e (c # cs) w = do {
     p \<leftarrow> ss_ep0_token w;
     w1 \<leftarrow> USBSS_IRQHandler k e ((wr_ss_tx 0 c w)\<lparr>USB_STATUS := 0x1001\<rparr>);
     (ps, w2) \<leftarrow> ss_ep0_packets k e cs w1;
     Some (p # ps, w2) }"

text \<open>The packet \<open>p\<close>, number \<open>j\<close>, is armed, and \<open>r\<close> bytes at \<open>head\<close> of memory \<open>m\<close> come after it; the
  interrupt has counted \<open>i\<close> packets before it.\<close>

definition ss_ep0_sending :: "mem \<Rightarrow> u32 \<Rightarrow> u16 \<Rightarrow> nat \<Rightarrow> nat \<Rightarrow> u8 list \<Rightarrow> 'a usb3_world_scheme \<Rightarrow> bool" where
  "ss_ep0_sending m head r i j p w \<longleftrightarrow>
     (let buf = rx0_buffer3 w in
      buf \<noteq> 0 \<and> SS_UEP0_DMA w = buf \<and> ss_ep0_token w = Some (j, p) \<and> pDescr w = head \<and> head \<noteq> 0 \<and> SetupLen w = r \<and>
      mem_bytes (usb_memory w) head (unat r) = mem_bytes m head (unat r) \<and> apart head (unat r) buf 512 \<and>
      unat head + unat r < 2 ^ 32 \<and> ep0_in_count w = of_nat i)"

text \<open>The data stage is over: the host's status packet is awaited.\<close>

definition ss_ep0_status_ready :: "'a usb3_world_scheme \<Rightarrow> bool" where
  "ss_ep0_status_ready w \<longleftrightarrow> SS_TX_CONTRL w 0 = 0x14010000 \<and> SS_RX_CONTRL w 0 = 0x4010000 \<and> ep0_in_count w = 0 \<and>
     USB_FC_CTRL w = 0x41"

lemma irq_ep0_in: "USBSS_IRQHandler k e (w\<lparr>USB_STATUS := 0x1001\<rparr>) = usbss_irq_ep0_in (w\<lparr>USB_STATUS := 0x1001\<rparr>)"
  by (simp add: USBSS_IRQHandler_def Let_def)

text \<open>Copying the next packet leaves the bytes behind it, and moves the head to them.\<close>

lemma next_packet_copies:
  assumes "rx0_buffer3 w = buf" and "buf \<noteq> 0" and "pDescr w = head" and "head \<noteq> 0" and "SetupLen w = r"
    and "mem_bytes (usb_memory w) head (unat r) = mem_bytes m head (unat r)" and "apart head (unat r) buf 512"
    and "unat head + unat r < 2 ^ 32"
  defines "l \<equiv> min r 512" and "m' \<equiv> mem_copy buf head (unat (min r 512)) (usb_memory w)"
  shows "usb30_ep0_next_packet w = Some (l, w\<lparr>usb_memory := m', SetupLen := r - l, pDescr := head + ucast l\<rparr>)"
    "mem_bytes m' buf (unat l) = mem_bytes m head (unat l)"
    "mem_bytes m' (head + ucast l) (unat (r - l)) = mem_bytes m (head + ucast l) (unat (r - l))"
    "apart (head + ucast l) (unat (r - l)) buf 512" "head + ucast l \<noteq> 0" "unat (head + ucast l) + unat (r - l) < 2 ^ 32"
    "unat (r - l) = unat r - unat l"
proof -
  have m': "m' = mem_copy buf head (unat l) (usb_memory w)" by (simp add: m'_def l_def)
  have le: "unat l \<le> unat r" "unat l \<le> 512"
    using min.cobounded1 [of r 512] min.cobounded2 [of r 512] by (simp_all add: l_def word_le_nat_alt)
  have sub: "unat (r - l) = unat r - unat l" using le(1) by (simp add: unat_sub word_le_nat_alt)
  have uh: "unat (head + ucast l) = unat head + unat l"
    using assms(8) le(1) by (subst unat_add_lem [THEN iffD1]) simp_all
  show "head + ucast l \<noteq> 0" using uh assms(4) by (metis add_is_0 unat_0 unat_eq_zero)
  have all: "mem_bytes m' head (unat r) = mem_bytes m head (unat r)"
    using mem_bytes_copy_apart [OF assms(7) le(2)] assms(6) by (simp add: m')
  show "mem_bytes m' (head + ucast l) (unat (r - l)) = mem_bytes m (head + ucast l) (unat (r - l))"
    using arg_cong [OF all, of "drop (unat l)"] unfolding drop_mem_bytes [OF le(1)] sub by simp
  show "mem_bytes m' buf (unat l) = mem_bytes m head (unat l)"
    using arg_cong [OF assms(6), of "take (unat l)"] unfolding take_mem_bytes [OF le(1)] m' mem_bytes_copied .
  show "apart (head + ucast l) (unat (r - l)) buf 512"
    using apart_drop [OF assms(7) le(1)] unfolding sub by simp
  have len: "(if ENDP0_MAX_PACKET_SIZE \<le> SetupLen w then ENDP0_MAX_PACKET_SIZE else SetupLen w) = l"
    using assms(5) by (auto simp: ENDP0_MAX_PACKET_SIZE_def l_def min_def)
  show "usb30_ep0_next_packet w = Some (l, w\<lparr>usb_memory := m', SetupLen := r - l, pDescr := head + ucast l\<rparr>)"
    unfolding usb30_ep0_next_packet_def len m' using assms(1-5) by simp
  show "unat (head + ucast l) + unat (r - l) < 2 ^ 32" unfolding uh sub using assms(8) le(1) by linarith
  show "unat (r - l) = unat r - unat l" by (rule sub)
qed

text \<open>The two outcomes of the interrupt after a packet.\<close>

lemma ss_ep0_last:
  assumes "ss_ep0_sending m head 0 i j p w"
  shows "\<exists>w'. USBSS_IRQHandler k e ((wr_ss_tx 0 c w)\<lparr>USB_STATUS := 0x1001\<rparr>) = Some w' \<and> ss_ep0_status_ready w'"
proof -
  let ?w = "(wr_ss_tx 0 c w)\<lparr>USB_STATUS := 0x1001\<rparr>"
  have s: "rx0_buffer3 ?w = rx0_buffer3 w" "rx0_buffer3 w \<noteq> 0" "pDescr ?w = head" "head \<noteq> 0" "SetupLen ?w = 0"
    "mem_bytes (usb_memory ?w) head (unat (0 :: u16)) = mem_bytes m head (unat (0 :: u16))"
    "apart head (unat (0 :: u16)) (rx0_buffer3 w) 512" "unat head + unat (0 :: u16) < 2 ^ 32"
    using assms by (simp_all add: ss_ep0_sending_def Let_def wr_ss_tx_def)
  show ?thesis
    unfolding irq_ep0_in usbss_irq_ep0_in_def ep0_in_handler_def next_packet_copies(1) [OF s]
    using s by (simp add: ss_ep0_status_ready_def ss_writes)
qed

lemma and_or_absorb: "a AND b = a \<Longrightarrow> (x AND a) OR b = b" for a b x :: "'a :: len word"
  by (auto simp: bit_eq_iff bit_simps)

lemma ss_ep0_next:
  assumes s: "ss_ep0_sending m head r i j p w" and r: "r \<noteq> 0" and j: "i < 31" and c: "c AND 0xe81efc00 = 0"
  shows "\<exists>w'. USBSS_IRQHandler k e ((wr_ss_tx 0 c w)\<lparr>USB_STATUS := 0x1001\<rparr>) = Some w' \<and>
    ss_ep0_sending m (head + ucast (min r 512)) (r - min r 512) (Suc i) (Suc i) (mem_bytes m head (unat (min r 512))) w' \<and>
    unat (r - min r 512) = unat r - unat (min r 512)"
proof -
  let ?w = "(wr_ss_tx 0 c w)\<lparr>USB_STATUS := 0x1001\<rparr>"
  let ?l = "min r 512" and ?buf = "rx0_buffer3 w"
  let ?m = "mem_copy ?buf head (unat ?l) (usb_memory ?w)"
  have d: "rx0_buffer3 ?w = ?buf" "?buf \<noteq> 0" "pDescr ?w = head" "head \<noteq> 0" "SetupLen ?w = r"
    "mem_bytes (usb_memory ?w) head (unat r) = mem_bytes m head (unat r)"
    "apart head (unat r) ?buf 512" "unat head + unat r < 2 ^ 32"
    and f: "SS_UEP0_DMA w = ?buf" "ep0_in_count w = of_nat i"
    using s by (simp_all add: ss_ep0_sending_def Let_def wr_ss_tx_def)
  note nx = next_packet_copies [OF d]
  have l: "?l \<le> 512" by (rule min.cobounded2)
  have l0: "?l \<noteq> 0" using r by (auto simp: min_def)
  have word: "(c AND 0xec1ffc00) OR (of_nat (Suc i) * 0x200000) OR ucast ?l OR 0x14010000 = ss_ep0_word (Suc i) ?l"
  proof -
    have "(0xec1ffc00 :: u32) = 0xe81efc00 OR 0x04010000" by simp
    then have "c AND 0xec1ffc00 = c AND 0x04010000" using c by (simp only: bit.conj_disj_distrib or.left_neutral)
    moreover have "(x AND 0x04010000) OR y OR z OR 0x14010000 = y OR z OR (0x14010000 :: u32)" for x y z :: u32
      using and_or_absorb [of "0x04010000" "0x14010000" x] by (simp add: or.assoc or.left_commute or.commute)
    ultimately show ?thesis by (simp only: ss_ep0_word_def)
  qed
  let ?w1 = "?w\<lparr>usb_memory := ?m, SetupLen := r - ?l, pDescr := head + ucast ?l, ep0_in_count := of_nat (Suc i), USB_FC_CTRL := 0x41\<rparr>"
  let ?w' = "wr_ss_tx 0 (ss_ep0_word (Suc i) ?l) (wr_ss_rx 0 0 ?w1)"
  have "USBSS_IRQHandler k e ?w = Some ?w'"
    unfolding irq_ep0_in usbss_irq_ep0_in_def ep0_in_handler_def nx(1) word [symmetric]
    using d(3,4) l0 f(2) by (simp add: ss_writes Let_def add.commute)
  moreover have "ss_ep0_sending m (head + ucast ?l) (r - ?l) (Suc i) (Suc i) (mem_bytes m head (unat ?l)) ?w'"
  proof -
    have "Suc i < 32" using j by simp
    note reads = ss_ep0_word_reads [OF this l]
    have "ss_ep0_token ?w' = Some (Suc i, mem_bytes m head (unat ?l))"
      using reads f(1) nx(2) by (simp add: ss_ep0_token_def wr_ss_tx_def wr_ss_rx_def)
    then show ?thesis
      using d(2) f(1) nx(3-6) by (simp add: ss_ep0_sending_def Let_def wr_ss_tx_def wr_ss_rx_def)
  qed
  ultimately show ?thesis using nx(7) by blast
qed

text \<open>What is sent after the armed packet.\<close>

definition rest_packets :: "mem \<Rightarrow> u32 \<Rightarrow> nat \<Rightarrow> u8 list list" where
  "rest_packets m head n = (if n = 0 then [] else bulk_packets 512 (mem_bytes m head n))"

lemma bulk_packets_rest:
  "bulk_packets 512 (mem_bytes m head n) =
    mem_bytes m head (min n 512) # rest_packets m (head + of_nat (min n 512)) (n - min n 512)"
proof (cases "n \<le> 512")
  case True
  then show ?thesis by (simp add: bulk_packets_short rest_packets_def)
next
  case False
  then show ?thesis by (simp add: bulk_packets_more rest_packets_def take_mem_bytes drop_mem_bytes)
qed

lemma unat_min: "unat (min a b) = min (unat a) (unat b)" for a b :: "'a :: len word"
  by (auto simp: min_def word_le_nat_alt)

lemma ss_ep0_all:
  "ss_ep0_sending m head r j j p w \<Longrightarrow> list_all (\<lambda>c. c AND 0xe81efc00 = 0) cs \<Longrightarrow>
    length cs = Suc (length (rest_packets m head (unat r))) \<Longrightarrow> j + length (rest_packets m head (unat r)) < 32 \<Longrightarrow>
    \<exists>w'. ss_ep0_packets k e cs w = Some (enumerate j (p # rest_packets m head (unat r)), w') \<and> ss_ep0_status_ready w'"
proof (induction cs arbitrary: head r j p w)
  case Nil
  then show ?case by simp
next
  case (Cons c cs)
  have tok: "ss_ep0_token w = Some (j, p)" using Cons.prems(1) by (simp add: ss_ep0_sending_def Let_def)
  show ?case
  proof (cases "r = 0")
    case True
    then have "cs = []" "rest_packets m head (unat r) = []" using Cons.prems(3) by (simp_all add: rest_packets_def)
    moreover from ss_ep0_last [of m head j j p w k e c] Cons.prems(1) True obtain w' where
      "USBSS_IRQHandler k e ((wr_ss_tx 0 c w)\<lparr>USB_STATUS := 0x1001\<rparr>) = Some w'" "ss_ep0_status_ready w'" by blast
    ultimately show ?thesis using tok by simp
  next
    case False
    let ?l = "min r 512"
    let ?p = "mem_bytes m head (unat ?l)" and ?rest = "rest_packets m (head + ucast ?l) (unat (r - ?l))"
    have l: "unat ?l = min (unat r) 512" by (simp add: unat_min)
    have le: "?l \<le> r" by (rule min.cobounded1)
    have sub: "unat (r - ?l) = unat r - unat ?l" using le by (simp add: unat_sub)
    have "of_nat (unat ?l) = (ucast ?l :: u32)" by simp
    then have rest: "rest_packets m head (unat r) = ?p # ?rest"
      using False bulk_packets_rest [of m head "unat r", folded l] sub by (simp add: rest_packets_def [of m head] unat_eq_zero)
    have j: "j < 31" and c: "c AND 0xe81efc00 = 0" using Cons.prems(2,4) rest by simp_all
    from ss_ep0_next [OF Cons.prems(1) False j c, of k e] obtain w1 where w1:
      "USBSS_IRQHandler k e ((wr_ss_tx 0 c w)\<lparr>USB_STATUS := 0x1001\<rparr>) = Some w1"
      "ss_ep0_sending m (head + ucast ?l) (r - ?l) (Suc j) (Suc j) ?p w1" by blast
    from Cons.IH [OF w1(2)] Cons.prems(2-4) rest obtain w2 where
      "ss_ep0_packets k e cs w1 = Some (enumerate (Suc j) (?p # ?rest), w2)" "ss_ep0_status_ready w2" by auto
    then show ?thesis using tok w1(1) unfolding rest by simp
  qed
qed

section \<open>Requests for a descriptor\<close>

text \<open>What a request asks for: where the descriptor is, and how many bytes of it, at most \<open>wLength\<close>.\<close>

definition requested_descriptor3 :: "usb_consts \<Rightarrow> USB_SETUP \<Rightarrow> 'a usb3_world_scheme \<Rightarrow> (u32 \<times> u16) option" where
  "requested_descriptor3 k req w =
     (let ds = usb_descriptors (dev3 w); m = usb_memory w; typ = bb0 (wValue req);
          cfg = load_u32 m (usb3_device_config_descrs ds);
          str = load_u32 m (usb_string_descrs ds + 4 * ucast (bb1 (wValue req))) in
      if typ = USB_DESCR_TYP_DEVICE k \<and> usb3_device_descr ds \<noteq> 0
      then Some (usb3_device_descr ds, min (wLength req) (sizeof_USB_DEV_DESCR k))
      else if typ = USB_DESCR_TYP_CONFIG k \<and> usb3_device_config_descrs ds \<noteq> 0 \<and> cfg \<noteq> 0
      then Some (cfg, min (wLength req) (load_u16 m (cfg + off_CFG_wTotalLength k)))
      else if typ = USB_DESCR_TYP_BOS \<and> usb_bos_descr ds \<noteq> 0
      then Some (usb_bos_descr ds, min (wLength req) (load_u16 m (usb_bos_descr ds + 2)))
      else if typ = USB_DESCR_TYP_STRING k \<and> usb_string_descrs ds \<noteq> 0 \<and> str \<noteq> 0
      then Some (str, min (wLength req) (ucast (m str)))
      else None)"

text \<open>A setup packet is in the buffer of endpoint 0 and its interrupt is pending.\<close>

definition ss_setup_pending :: "USB_SETUP \<Rightarrow> 'a usb3_world_scheme \<Rightarrow> bool" where
  "ss_setup_pending req w \<longleftrightarrow> USB_STATUS w = 1 \<and> bit (SS_RX_CONTRL w 0) 30 \<and> rx0_buffer3 w \<noteq> 0 \<and>
     load_setup (usb_memory w) (rx0_buffer3 w) = req"

lemma sint_push_neg: "sint (push_bit n x) < 0 \<longleftrightarrow> n < 32 \<and> bit x (31 - n)" for x :: u32
proof -
  have "sint v < 0 \<longleftrightarrow> bit v 31" for v :: u32
    using bit_last_iff [of v] by simp
  then show ?thesis by (auto simp: bit_simps)
qed

lemma irq_setup:
  assumes "ss_setup_pending req w" and "bRequestType req AND 0x60 = 0"
  shows "USBSS_IRQHandler k e w = do {
    (n, w1) \<leftarrow> usb30_standard_req_handler k (wr_ss_rx 0 0 w);
    Some (usbss_irq_ep0_answer (bRequestType req) n w1) }"
proof -
  have "\<not> - 1 < sint (push_bit 1 (SS_RX_CONTRL w 0))"
    using assms(1) sint_push_neg [of 1 "SS_RX_CONTRL w 0"] by (simp add: ss_setup_pending_def)
  then have "USBSS_IRQHandler k e w = usbss_irq_ep0_setup k e w"
    using assms(1) by (simp add: USBSS_IRQHandler_def usbss_irq_ep0_out_def ss_setup_pending_def Let_def)
  moreover have "usb_memory w (rx0_buffer3 w) = bRequestType req"
    using assms(1) by (auto simp: ss_setup_pending_def load_setup_def)
  ultimately show ?thesis
    using assms by (simp add: usbss_irq_ep0_setup_def ss_setup_pending_def wr_ss_rx_def Let_def)
qed

lemma get_descriptor3_starts:
  assumes "usb_requests_ok k" and "requested_descriptor3 k req w = Some (head, n)"
    and "SetupLen w = wLength req"
  shows "usb30_get_descriptor k req w = usb30_ep0_next_packet (w\<lparr>SetupLen := n, pDescr := head\<rparr>)" "head \<noteq> 0"
proof -
  have t: "USB_DESCR_TYP_DEVICE k = 1" "USB_DESCR_TYP_CONFIG k = 2" "USB_DESCR_TYP_STRING k = 3" "USB_DESCR_TYP_BOS = 0xf"
    "(0 :: u16) \<noteq> USB_DESCR_UNSUPPORTED"
    using assms(1) by (simp_all add: usb_requests_ok_def USB_DESCR_TYP_BOS_def USB_DESCR_UNSUPPORTED_def)
  note d = usb30_get_descriptor_def requested_descriptor3_def usb30_select_descriptor_def Let_def t
  from assms(2) consider "bb0 (wValue req) = 1" | "bb0 (wValue req) = 2" | "bb0 (wValue req) = 0xf" | "bb0 (wValue req) = 3"
    by (auto simp: requested_descriptor3_def Let_def t split: if_splits)
  then show "usb30_get_descriptor k req w = usb30_ep0_next_packet (w\<lparr>SetupLen := n, pDescr := head\<rparr>)"
    using assms(2,3) by cases (simp_all add: d split: if_split_asm, auto simp: min_def)
  show "head \<noteq> 0" using assms(2) by (auto simp: requested_descriptor3_def Let_def split: if_splits)
qed

text \<open>The interrupt of the setup packet arms the first packet of \<open>n\<close> bytes at \<open>head\<close>.\<close>

lemma get_descriptor_armed:
  assumes "usb_requests_ok k" and "ss_setup_pending req w"
    and "bRequestType req = 0x80" and "bRequest req = USB_GET_DESCRIPTOR k"
    and "requested_descriptor3 k req w = Some (head, n)"
    and "SS_UEP0_DMA w = rx0_buffer3 w" and "unat head + unat n < 2 ^ 32" and "apart head (unat n) (rx0_buffer3 w) 512"
    and "ep0_in_count w = of_nat i"
  defines "l \<equiv> min n 512"
  shows "\<exists>w0 w1. usb30_ep0_next_packet ((wr_ss_rx 0 0 w)\<lparr>SetupReqCode := bRequest req, SetupLen := n, pDescr := head\<rparr>) = Some (l, w0) \<and>
    w1 = wr_ss_tx 0 (ss_ep0_word 0 l) (w0\<lparr>USB_FC_CTRL := 0x41\<rparr>) \<and> USBSS_IRQHandler k e w = Some w1 \<and>
    ss_ep0_sending (usb_memory w) (head + ucast l) (n - l) i 0 (mem_bytes (usb_memory w) head (unat l)) w1 \<and>
    unat (n - l) = unat n - unat l"
proof -
  let ?w = "(wr_ss_rx 0 0 w)\<lparr>SetupReqCode := bRequest req, SetupLen := n, pDescr := head\<rparr>"
  let ?buf = "rx0_buffer3 w"
  let ?m = "mem_copy ?buf head (unat l) (usb_memory ?w)"
  have buf: "?buf \<noteq> 0" "load_setup (usb_memory w) ?buf = req" using assms(2) by (simp_all add: ss_setup_pending_def)
  have d3: "requested_descriptor3 k req ((wr_ss_rx 0 0 w)\<lparr>SetupReqCode := bRequest req, SetupLen := wLength req\<rparr>) = Some (head, n)"
    using assms(5) by (simp add: requested_descriptor3_def wr_ss_rx_def Let_def)
  note start = get_descriptor3_starts [OF assms(1) d3]
  have g: "usb30_standard_req_handler k (wr_ss_rx 0 0 w) = usb30_ep0_next_packet ?w"
    using buf start(1) assms(4) by (simp add: usb30_standard_req_handler_def wr_ss_rx_def Let_def)
  have h: "head \<noteq> 0" using start(2) by simp
  have pre: "rx0_buffer3 ?w = ?buf" "?buf \<noteq> 0" "pDescr ?w = head" "head \<noteq> 0" "SetupLen ?w = n"
    "mem_bytes (usb_memory ?w) head (unat n) = mem_bytes (usb_memory w) head (unat n)"
    "apart head (unat n) ?buf 512" "unat head + unat n < 2 ^ 32"
    using assms(7,8) buf h by (simp_all add: wr_ss_rx_def)
  note nx = next_packet_copies [OF pre, folded l_def]
  let ?w0 = "?w\<lparr>usb_memory := ?m, SetupLen := n - l, pDescr := head + ucast l\<rparr>"
  let ?w1 = "wr_ss_tx 0 (ss_ep0_word 0 l) (?w0\<lparr>USB_FC_CTRL := 0x41\<rparr>)"
  have l: "l \<le> 512" unfolding l_def by (rule min.cobounded2)
  then have "l \<noteq> 0xffff" by (auto simp: word_le_nat_alt)
  then have "USBSS_IRQHandler k e w = Some ?w1"
    unfolding irq_setup [OF assms(2), unfolded assms(3), simplified] g nx(1)
    using l by (simp add: usbss_irq_ep0_answer_def not_less ss_ep0_word_def wr_ss_tx_def)
  moreover have "ss_ep0_sending (usb_memory w) (head + ucast l) (n - l) i 0 (mem_bytes (usb_memory w) head (unat l)) ?w1"
    using nx(2-6) buf(1) assms(6,9) ss_ep0_word_reads [OF _ l, of 0]
    by (simp add: ss_ep0_sending_def ss_ep0_token_def wr_ss_tx_def wr_ss_rx_def Let_def)
  ultimately show ?thesis using nx(1,7) by blast
qed

lemma get_descriptor_packets:
  assumes "usb_requests_ok k" and "ss_setup_pending req w"
    and "bRequestType req = 0x80" and "bRequest req = USB_GET_DESCRIPTOR k"
    and "requested_descriptor3 k req w = Some (head, n)" and "n < 16384"
    and "SS_UEP0_DMA w = rx0_buffer3 w" and "unat head + unat n < 2 ^ 32" and "apart head (unat n) (rx0_buffer3 w) 512"
    and "ep0_in_count w = 0"
    and "list_all (\<lambda>c. c AND 0xe81efc00 = 0) cs" and "length cs = (unat n - 1) div 512 + 1"
  shows "\<exists>w0 w1 w2. usb30_ep0_next_packet ((wr_ss_rx 0 0 w)\<lparr>SetupReqCode := bRequest req, SetupLen := n, pDescr := head\<rparr>) = Some (min n 512, w0) \<and>
    w1 = wr_ss_tx 0 (ss_ep0_word 0 (min n 512)) (w0\<lparr>USB_FC_CTRL := 0x41\<rparr>) \<and> USBSS_IRQHandler k e w = Some w1 \<and>
    ss_ep0_packets k e cs w1 = Some (enumerate 0 (bulk_packets 512 (mem_bytes (usb_memory w) head (unat n))), w2) \<and>
    ss_ep0_status_ready w2"
proof -
  have c: "ep0_in_count w = of_nat 0" using assms(10) by simp
  let ?l = "min n 512"
  from get_descriptor_armed [OF assms(1-5,7-9) c, of e] obtain w0 w1 where
    w1: "usb30_ep0_next_packet ((wr_ss_rx 0 0 w)\<lparr>SetupReqCode := bRequest req, SetupLen := n, pDescr := head\<rparr>) = Some (?l, w0)"
      "w1 = wr_ss_tx 0 (ss_ep0_word 0 ?l) (w0\<lparr>USB_FC_CTRL := 0x41\<rparr>)" "USBSS_IRQHandler k e w = Some w1"
      "unat (n - ?l) = unat n - unat ?l"
    and s: "ss_ep0_sending (usb_memory w) (head + ucast ?l) (n - ?l) 0 0 (mem_bytes (usb_memory w) head (unat ?l)) w1" by blast
  have l': "unat ?l = min (unat n) 512" by (simp add: unat_min)
  have packets: "bulk_packets 512 (mem_bytes (usb_memory w) head (unat n)) =
      mem_bytes (usb_memory w) head (unat ?l) # rest_packets (usb_memory w) (head + ucast ?l) (unat (n - ?l))"
    using bulk_packets_rest [of "usb_memory w" head "unat n", folded l'] w1(4) by simp
  have "length (bulk_packets 512 (mem_bytes (usb_memory w) head (unat n))) = (unat n - 1) div 512 + 1"
    using burst_packets_bulk [of 512 "usb_memory w" head "unat n"] by (metis length_burst_packets burst_count_def zero_less_numeral)
  then have len: "(unat n - 1) div 512 + 1 = Suc (length (rest_packets (usb_memory w) (head + ucast ?l) (unat (n - ?l))))"
    unfolding packets by simp
  moreover have "(unat n - 1) div 512 < 32" using assms(6) by (simp add: word_less_nat_alt)
  ultimately show ?thesis
    using ss_ep0_all [OF s assms(11), of k e] assms(12) w1(1-3) unfolding packets by auto
qed

text \<open>
  \<open>GET_DESCRIPTOR\<close> over USB 3.0: whatever descriptor that is set the host asks for (device, configuration,
  BOS or string), the interrupts of the data stage arm exactly the packets of its first
  \<open>min(wLength, size)\<close> bytes, all of 512 bytes but the last, numbered from 0; after the last one the
  status stage is armed.
\<close>

theorem usb3_get_descriptor_sends:
  assumes "usb_requests_ok k" and "ss_setup_pending req w"
    and "bRequestType req = 0x80" and "bRequest req = USB_GET_DESCRIPTOR k"
    and "requested_descriptor3 k req w = Some (head, n)" and "n < 16384"
    and "SS_UEP0_DMA w = rx0_buffer3 w" and "unat head + unat n < 2 ^ 32" and "apart head (unat n) (rx0_buffer3 w) 512"
    and "ep0_in_count w = 0"
    and "list_all (\<lambda>c. c AND 0xe81efc00 = 0) cs" and "length cs = (unat n - 1) div 512 + 1"
  shows "\<exists>w1 w2. USBSS_IRQHandler k e w = Some w1 \<and>
    ss_ep0_packets k e cs w1 = Some (enumerate 0 (bulk_packets 512 (mem_bytes (usb_memory w) head (unat n))), w2) \<and>
    ss_ep0_status_ready w2"
  using get_descriptor_packets [OF assms] by blast

text \<open>A device whose descriptor of 18 bytes is at \<open>0x1000\<close>, with a request for it in the buffer.\<close>

definition demo_setup :: "u8 list \<Rightarrow> usb3_world" where
  "demo_setup bs = (wr_ss_rx 0 0x40000000 demo_usb3)
     \<lparr>usb_memory := mem_write 0x20020000 bs (usb_memory demo_usb3), USB_STATUS := 1, SS_UEP0_DMA := 0x20020000,
      usb_devices := (\<lambda>d. (upd_ep_rx 1 (\<lambda>p. p\<lparr>ep_max_burst := 4\<rparr>) (usb_devices demo_usb3 d))\<lparr>endpoint_mask := 3, usb_descriptors :=
        (usb_descriptors (usb_devices demo_usb3 d))\<lparr>usb3_device_descr := 0x1000\<rparr>\<rparr>)\<rparr>"

lemma demo_setup_ok:
  "ep_buffer (ep_rx (endpoints (usb_devices (demo_setup bs) Usb_device_0)) 0) = 0x20020000" "SS_UEP0_DMA (demo_setup bs) = 0x20020000" "USB_STATUS (demo_setup bs) = 1"
  "SS_RX_CONTRL (demo_setup bs) 0 = 0x40000000" "ep0_in_count (demo_setup bs) = 0"
  "usb_memory (demo_setup bs) = mem_write 0x20020000 bs (usb_memory demo_usb2)"
  "usb3_device_descr (usb_descriptors (usb_devices (demo_setup bs) Usb_device_0)) = 0x1000"
  "USB_CONTROL (demo_setup bs) = 0" "usb3_backend_current_device (demo_setup bs) = Usb_device_0"
  by (simp_all add: demo_setup_def demo_usb3_def usb2_world.defs ss_writes demo_usb2_def upd_ep_rx_def)

theorem usb3_get_descriptor_sends_witness:
  "\<forall>e. \<exists>w1 w2. USBSS_IRQHandler demo_consts e (demo_setup [0x80, 6, 0, 1, 0, 0, 64, 0]) = Some w1 \<and>
    ss_ep0_packets demo_consts e [0] w1 =
      Some ([(0, [18, 1, 2, 3, 4, 5, 6, 7, 8, 9, 10, 11, 12, 13, 14, 15, 16, 17])], w2) \<and> ss_ep0_status_ready w2"
proof
  fix e :: "usb3_world usb_env"
  let ?w = "demo_setup [0x80, 6, 0, 1, 0, 0, 64, 0]"
  let ?req = "\<lparr>bRequestType = 0x80, bRequest = 6, wValue = 0x100, wIndex = 0, wLength = 64\<rparr>"
  have p: "ss_setup_pending ?req ?w"
    by (simp add: ss_setup_pending_def demo_setup_ok load_setup_write bit_iff_odd_drop_bit)
  have d: "requested_descriptor3 demo_consts ?req ?w = Some (0x1000, 18)"
    by (simp add: requested_descriptor3_def demo_setup_ok demo_consts_def bb0_def)
  have ap: "apart 0x1000 (unat (18 :: u16)) (rx0_buffer3 ?w) 512"
    unfolding demo_setup_ok by (rule apart_after [where d = "0x2001F000"]) simp_all
  have mem: "mem_bytes (usb_memory ?w) 0x1000 18 = [18, 1, 2, 3, 4, 5, 6, 7, 8, 9, 10, 11, 12, 13, 14, 15, 16, 17]"
    unfolding demo_setup_ok by (simp add: mem_bytes_def mem_write_def demo_usb2_def upt_conv_Cons)
  have r: "bRequestType ?req = 0x80" "bRequest ?req = USB_GET_DESCRIPTOR demo_consts" "(18 :: u16) < 16384"
    "SS_UEP0_DMA ?w = rx0_buffer3 ?w" "unat (0x1000 :: u32) + unat (18 :: u16) < 2 ^ 32"
    by (simp_all add: demo_consts_def demo_setup_ok(1,2,9))
  from usb3_get_descriptor_sends [OF demo_consts_ok(1) p r(1,2) d r(3-5) ap demo_setup_ok(5), of "[0]" e]
  show "\<exists>w1 w2. USBSS_IRQHandler demo_consts e ?w = Some w1 \<and> ss_ep0_packets demo_consts e [0] w1 =
      Some ([(0, [18, 1, 2, 3, 4, 5, 6, 7, 8, 9, 10, 11, 12, 13, 14, 15, 16, 17])], w2) \<and> ss_ep0_status_ready w2"
    by (simp add: mem bulk_packets_short)
qed

section \<open>The address\<close>

text \<open>\<open>SET_ADDRESS\<close>: the interrupt of the setup packet prepares for the status packet, whose interrupt sets the address
  and moves the device to the ADDRESS state.\<close>

lemma set_address_irqs:
  assumes "usb_requests_ok k" and "ss_setup_pending req w"
    and "bRequestType req = 0" and "bRequest req = USB_SET_ADDRESS k"
    and "\<not> bit c 30" and "bit c 29"
  shows "\<exists>w1 w2. w1 = (wr_ss_rx 0 0x4010000 (wr_ss_rx 0 0 w))\<lparr>SetupReqCode := USB_SET_ADDRESS k, SetupLen := ucast (bb1 (wValue req)), USB_FC_CTRL := 0x41\<rparr> \<and>
    w2 = wr_ss_tx 0 0 (wr_ss_rx 0 0 (ep0_status_stage_handler k ((wr_ss_rx 0 c w1)\<lparr>USB_STATUS := 1\<rparr>))) \<and>
    USBSS_IRQHandler k e w = Some w1 \<and> USB_CONTROL w1 = USB_CONTROL w \<and> usb_devices w1 = usb_devices w \<and>
    SS_RX_CONTRL w1 0 = 0x4010000 \<and>
    USBSS_IRQHandler k e ((wr_ss_rx 0 c w1)\<lparr>USB_STATUS := 1\<rparr>) = Some w2 \<and>
    USB_CONTROL w2 = (USB_CONTROL w AND 0x00ffffff) OR push_bit 24 (ucast (bb1 (wValue req))) \<and>
    dev_state (dev3 w2) = ADDRESS \<and> dev_speed (dev3 w2) = USB30_SUPERSPEED"
proof -
  let ?a = "ucast (bb1 (wValue req)) :: u16"
  let ?w1 = "(wr_ss_rx 0 0x4010000 (wr_ss_rx 0 0 w))\<lparr>SetupReqCode := USB_SET_ADDRESS k, SetupLen := ?a, USB_FC_CTRL := 0x41\<rparr>"
  let ?w = "(wr_ss_rx 0 c ?w1)\<lparr>USB_STATUS := 1\<rparr>"
  have buf: "rx0_buffer3 w \<noteq> 0" "load_setup (usb_memory w) (rx0_buffer3 w) = req" using assms(2) by (simp_all add: ss_setup_pending_def)
  have ne: "USB_SET_ADDRESS k \<noteq> USB_GET_DESCRIPTOR k" using assms(1) by (simp add: usb_requests_ok_def)
  have pending: "USBSS_IRQHandler k e w = Some ?w1"
    unfolding irq_setup [OF assms(2), unfolded assms(3), simplified]
    using buf assms(4) ne by (simp add: usb30_standard_req_handler_def usbss_irq_ep0_answer_def wr_ss_rx_def Let_def)
  have s: "- 1 < sint (push_bit 1 c)" "sint (push_bit 2 c) < 0"
    using assms(5,6) sint_push_neg [of 1 c] sint_push_neg [of 2 c] by simp_all
  have "USBSS_IRQHandler k e ?w = Some (wr_ss_tx 0 0 (wr_ss_rx 0 0 (ep0_status_stage_handler k ?w)))"
    using s by (simp add: USBSS_IRQHandler_def usbss_irq_ep0_out_def wr_ss_rx_def Let_def)
  moreover have "(ucast ?a :: u32) = ucast (bb1 (wValue req))"
    by (rule bit_word_eqI) (auto simp: bit_simps dest: bit_imp_le_length)
  ultimately show ?thesis
    using pending by (simp add: ep0_status_stage_handler_def usb30_device_set_address_def ss_writes Let_def)
qed

end
