(* ===== verification/Usb30_Endpoints.thy ===== *)
theory Usb30_Endpoints
  imports Usb30_Receive Usb30_Control
begin

text \<open>
  The configuration of the USB 3.0 endpoints. \<open>usb30_init_endpoints\<close> goes through the endpoints 1 to 7;
  the lemmas show that the turn of an endpoint touches its own registers only, so that after
  \<open>SET_CONFIGURATION\<close> every endpoint of the mask, and no other, is armed with its own settings.
\<close>

section \<open>One endpoint's registers\<close>

text \<open>What belongs to endpoint \<open>n\<close>, and the settings all endpoints are set up from.\<close>

definition ss_view :: "nat \<Rightarrow> 'a usb3_world_scheme \<Rightarrow> u32 \<times> u32 \<times> u32 \<times> u32 \<times> u8 \<times> u16 \<times> bool \<times> bool" where
  "ss_view n w = (SS_TX_CONTRL w n, SS_TX_DMA w n, SS_RX_CONTRL w n, SS_RX_DMA w n, ep_rx_previously_set_max_burst w n,
     ep_rx_total_length w n, bit (UEP_CFG w) (8 + n), bit (UEP_CFG w) n)"

definition ss_conf :: "nat \<Rightarrow> 'a usb3_world_scheme \<Rightarrow> usb_device_id \<times> u32 \<times> u32 \<times> u8 \<times> u32 \<times> USB_DEVICE_STATE" where
  "ss_conf n w = (usb3_backend_current_device w, endpoint_mask (dev3 w), ep_buffer (ep_rx (endpoints (dev3 w)) n),
     ep_max_burst (ep_rx (endpoints (dev3 w)) n), ep_buffer (ep_tx (endpoints (dev3 w)) n),
     dev_state (dev3 w))"

lemma of_nat_u8: "n \<le> 7 \<Longrightarrow> unat (of_nat n :: u8) = n"
  by (simp add: unat_of_nat)

lemma bit_cfg_R [simp]: "bit (EP_R_EN n) i \<longleftrightarrow> i = n \<and> n < 32"
  by (auto simp: EP_R_EN_def bit_simps)

lemma bit_cfg_T [simp]: "bit (EP_T_EN n) i \<longleftrightarrow> i = 8 + n \<and> n < 24"
  by (auto simp: EP_T_EN_def bit_simps)

definition ss_init_step :: "nat \<Rightarrow> 'a usb3_world_scheme \<Rightarrow> 'a usb3_world_scheme" where
  "ss_init_step n w = usb30_init_rx n (usb30_init_tx n w)"

lemma init_step_conf: "n \<le> 7 \<Longrightarrow> ss_conf m (ss_init_step n w) = ss_conf m w"
  by (simp add: ss_init_step_def usb30_init_rx_def usb30_init_tx_def ss_conf_def usb30_in_set_def usb30_out_set_def ss_writes
      upd_ep_tx_def upd_ep_rx_def Let_def)

lemma init_step_other: "n \<le> 7 \<Longrightarrow> m \<le> 7 \<Longrightarrow> m \<noteq> n \<Longrightarrow> ss_view m (ss_init_step n w) = ss_view m w"
  by (simp add: ss_init_step_def usb30_init_rx_def usb30_init_tx_def ss_view_def usb30_in_set_def usb30_out_set_def ss_writes
      of_nat_u8 bit_or_iff Let_def)

text \<open>What the turn of endpoint \<open>n\<close> makes of its own registers.\<close>

definition ss_view_init where
  "ss_view_init n c v = (case c of (d, msk, rb, mb, tb, st) \<Rightarrow> case v of (tc, td, rc, rd, pb, got, te, re) \<Rightarrow>
     (let T = msk AND ENDPOINT_TX n \<noteq> 0; R = msk AND ENDPOINT_RX n \<noteq> 0
      in (tc, if T then tb else td, if R then rc OR push_bit 16 (ucast mb) OR push_bit 26 (ucast ss_ACK) else rc,
          if R then rb else rd, if R then mb else pb, got, te \<or> T, re \<or> R)))"

lemma init_step_own: "n \<le> 7 \<Longrightarrow> ss_view n (ss_init_step n w) = ss_view_init n (ss_conf n w) (ss_view n w)"
  by (simp add: ss_init_step_def usb30_init_rx_def usb30_init_tx_def ss_view_def ss_view_init_def ss_conf_def
      usb30_in_set_def usb30_out_set_def ss_writes of_nat_u8 bit_or_iff ss_NRDY_def upd_ep_tx_def upd_ep_rx_def Let_def)

text \<open>A loop over the endpoints, seen from one of them.\<close>

lemma fold_one:
  assumes "distinct ns" and "n \<in> set ns" and "\<And>m v. m \<in> set ns \<Longrightarrow> m \<noteq> n \<Longrightarrow> g (f m v) = g v"
    and "\<And>m v. m \<in> set ns \<Longrightarrow> c (f m v) = c v"
  shows "\<exists>u. g u = g w \<and> c u = c w \<and> g (fold f ns w) = g (f n u) \<and> c (fold f ns w) = c w"
proof -
  obtain xs ys where ns: "ns = xs @ n # ys" using assms(2) by (meson split_list)
  then have out: "n \<notin> set xs" "n \<notin> set ys" using assms(1) by simp_all
  have g: "g (fold f zs v) = g v" if "set zs \<subseteq> set ns" "n \<notin> set zs" for zs v
    using that by (induction zs arbitrary: v) (auto simp: assms(3))
  have c: "c (fold f zs v) = c v" if "set zs \<subseteq> set ns" for zs v
    using that by (induction zs arbitrary: v) (auto simp: assms(4))
  let ?u = "fold f xs w"
  have "g ?u = g w" "c ?u = c w" by (rule g, use ns out in auto) (rule c, use ns in auto)
  moreover have "set ys \<subseteq> set ns" using ns by auto
  then have "g (fold f ns w) = g (f n ?u)" using g [of ys "f n ?u"] out by (simp add: ns)
  ultimately show ?thesis using c [of ns] by blast
qed

lemma init_endpoints_view:
  fixes w :: "'a usb3_world_scheme"
  assumes "n \<in> {1..7}"
  shows "ss_conf n (usb30_init_endpoints w) = ss_conf n w"
    "ss_view n (usb30_init_endpoints w) = ss_view_init n (ss_conf n w)
      (ss_view n (w\<lparr>UEP_CFG := EP_R_EN 0 OR EP_T_EN 0\<rparr>))"
proof -
  let ?w = "w\<lparr>UEP_CFG := EP_R_EN 0 OR EP_T_EN 0, SS_UEP0_DMA := rx0_buffer3 w\<rparr>"
  have f: "usb30_init_endpoints w = fold ss_init_step [1, 2, 3, 4, 5, 6, 7] ?w"
    unfolding usb30_init_endpoints_def ss_init_step_def by (rule refl)
  have n: "n \<in> set [1, 2, 3, 4, 5, 6, 7]" "n \<le> 7" using assms by auto
  have w: "ss_conf n ?w = ss_conf n w" "ss_view n ?w = ss_view n (w\<lparr>UEP_CFG := EP_R_EN 0 OR EP_T_EN 0\<rparr>)"
    by (simp_all add: ss_conf_def ss_view_def)
  have le: "m \<le> 7" if "m \<in> set [1, 2, 3, 4, 5, 6, 7]" for m :: nat using that by auto
  have "\<exists>u :: 'a usb3_world_scheme. ss_view n u = ss_view n ?w \<and> ss_conf n u = ss_conf n ?w \<and>
      ss_view n (fold ss_init_step [1, 2, 3, 4, 5, 6, 7] ?w) = ss_view n (ss_init_step n u) \<and>
      ss_conf n (fold ss_init_step [1, 2, 3, 4, 5, 6, 7] ?w) = ss_conf n ?w"
    by (rule fold_one [where g = "ss_view n" and c = "ss_conf n" and f = ss_init_step, OF _ n(1)])
      (simp, rule init_step_other [OF le n(2)], assumption, simp, rule init_step_conf [OF le], assumption)
  then obtain u :: "'a usb3_world_scheme" where u: "ss_view n u = ss_view n ?w" "ss_conf n u = ss_conf n ?w"
    "ss_view n (usb30_init_endpoints w) = ss_view n (ss_init_step n u)" "ss_conf n (usb30_init_endpoints w) = ss_conf n ?w"
    unfolding f [symmetric] by blast
  show "ss_conf n (usb30_init_endpoints w) = ss_conf n w" unfolding u(4) w(1) ..
  show "ss_view n (usb30_init_endpoints w) = ss_view_init n (ss_conf n w)
      (ss_view n (w\<lparr>UEP_CFG := EP_R_EN 0 OR EP_T_EN 0\<rparr>))"
    unfolding u(3) init_step_own [OF n(2)] u(1,2) w ..
qed

text \<open>\<open>usb30_reinit_endpoints\<close> clears the registers before.\<close>

lemma clear_all_view:
  fixes w :: "'a usb3_world_scheme"
  assumes "n \<in> {1..7}"
  defines "w' \<equiv> fold (\<lambda>n v. usb30_out_clear_interrupt_all n (usb30_in_clear_interrupt_all n v)) [1, 2, 3, 4, 5, 6, 7] w"
  shows "ss_conf n w' = ss_conf n w" "SS_TX_CONTRL w' n = 0" "SS_RX_CONTRL w' n = 0"
    "ep_rx_total_length w' n = ep_rx_total_length w n"
proof -
  have "n \<in> {1,2,3,4,5,6,7}" using assms(1) by auto
  then show "ss_conf n w' = ss_conf n w" "SS_TX_CONTRL w' n = 0" "SS_RX_CONTRL w' n = 0"
    "ep_rx_total_length w' n = ep_rx_total_length w n"
    by (auto simp: w'_def ss_conf_def ss_utils ss_writes)
qed

definition ss_endpoint_armed :: "nat \<Rightarrow> 'a usb3_world_scheme \<Rightarrow> bool" where
  "ss_endpoint_armed n w \<longleftrightarrow>
     (if endpoint_mask (dev3 w) AND ENDPOINT_RX n \<noteq> 0 then bit (UEP_CFG w) n \<and> ss_receiving n w
      else \<not> bit (UEP_CFG w) n \<and> SS_RX_CONTRL w n = 0) \<and>
     (if endpoint_mask (dev3 w) AND ENDPOINT_TX n \<noteq> 0
      then bit (UEP_CFG w) (8 + n) \<and> SS_TX_DMA w n = ep_buffer (ep_tx (endpoints (dev3 w)) n)
      else \<not> bit (UEP_CFG w) (8 + n)) \<and>
     SS_TX_CONTRL w n = 0"

lemma init_endpoints_armed:
  assumes n: "n \<in> {1..7}" and tl: "ep_rx_total_length w n = 0" and b: "ep_max_burst (ep_rx (endpoints (dev3 w)) n) \<le> 31"
    and c: "SS_TX_CONTRL w n = 0" "SS_RX_CONTRL w n = 0"
  shows "ss_endpoint_armed n (usb30_init_endpoints w)"
proof -
  let ?w = "usb30_init_endpoints w"
  note i = init_endpoints_view [OF n, of w]
  have n0: "\<not> bit (EP_R_EN 0 OR EP_T_EN 0) n" "\<not> bit (EP_R_EN 0 OR EP_T_EN 0) (8 + n)"
    using n by (auto simp: bit_or_iff)
  have word: "ss_nump (ss_rx_word 0 v) = unat v" "ss_status (ss_rx_word 0 v) = 1" if "v \<le> 31" for v
    using ss_rx_word_reads [of 0 v] that by simp_all
  define mb where "mb = ep_max_burst (ep_rx (endpoints (dev3 w)) n)"
  have b': "mb \<le> 31" using b by (simp add: mb_def)
  have view: "ss_view n ?w = ss_view_init n (ss_conf n w) (0, SS_TX_DMA w n, 0, SS_RX_DMA w n,
      ep_rx_previously_set_max_burst w n, 0, False, False)"
    unfolding i(2) using c tl n0 by (simp add: ss_view_def)
  show ?thesis
    using view i(1) word [OF b']
    by (cases "endpoint_mask (dev3 w) AND ENDPOINT_RX n = 0"; cases "endpoint_mask (dev3 w) AND ENDPOINT_TX n = 0")
      (simp_all add: ss_endpoint_armed_def ss_view_def ss_view_init_def ss_conf_def ss_receiving_def ss_rx_word_def Let_def mb_def)
qed

lemma reinit_endpoint:
  assumes n: "n \<in> {1..7}" and tl: "ep_rx_total_length w n = 0" and b: "ep_max_burst (ep_rx (endpoints (dev3 w)) n) \<le> 31"
  shows "ss_endpoint_armed n (usb30_reinit_endpoints w)" "ss_conf n (usb30_reinit_endpoints w) = ss_conf n w"
proof -
  let ?c = "fold (\<lambda>n v. usb30_out_clear_interrupt_all n (usb30_in_clear_interrupt_all n v)) [1, 2, 3, 4, 5, 6, 7] w"
  have r: "usb30_reinit_endpoints w = usb30_init_endpoints ?c" unfolding usb30_reinit_endpoints_def by (rule refl)
  note c = clear_all_view [OF n, of w]
  show "ss_conf n (usb30_reinit_endpoints w) = ss_conf n w" unfolding r init_endpoints_view(1) [OF n] c(1) ..
  have "ep_max_burst (ep_rx (endpoints (dev3 ?c)) n) \<le> 31"
    using b c(1) unfolding ss_conf_def prod.inject by metis
  then show "ss_endpoint_armed n (usb30_reinit_endpoints w)"
    unfolding r using c(2-4) tl by (intro init_endpoints_armed [OF n]) simp_all
qed

text \<open>\<open>SET_CONFIGURATION\<close>: the interrupt of the request records the configuration and, if it is not 0, the CONFIGURED
  state, and arms exactly the endpoints of the mask: an OUT endpoint is ready to receive its \<open>max_burst\<close> packets into its
  buffer, an IN endpoint is enabled and idle with its data sequence restarted, and a direction not in the mask is disabled.\<close>

lemma set_configuration_arms:
  assumes "usb_requests_ok k" and "ss_setup_pending req w"
    and "bRequestType req = 0" and "bRequest req = USB_SET_CONFIGURATION k" and "v = bb1 (wValue req)"
    and "\<forall>n\<in>{1..7}. ep_rx_total_length w n = 0 \<and> ep_max_burst (ep_rx (endpoints (dev3 w)) n) \<le> 31"
  defines "r \<equiv> upd_dev3 (\<lambda>u. u\<lparr>current_config := v\<rparr>)
      (usb30_reinit_endpoints ((wr_ss_rx 0 0 w)\<lparr>SetupReqCode := USB_SET_CONFIGURATION k, SetupLen := wLength req\<rparr>))"
  shows "\<exists>w1. w1 = wr_ss_rx 0 0x4010000 ((if v \<noteq> 0 then upd_dev3 (\<lambda>u. u\<lparr>dev_state := CONFIGURED\<rparr>) r else r)\<lparr>USB_FC_CTRL := 0x41\<rparr>) \<and>
    USBSS_IRQHandler k e w = Some w1 \<and> endpoint_mask (dev3 w1) = endpoint_mask (dev3 w) \<and>
    (\<forall>n\<in>{1..7}. ss_endpoint_armed n w1 \<and>
      ep_buffer (ep_rx (endpoints (dev3 w1)) n) = ep_buffer (ep_rx (endpoints (dev3 w)) n) \<and>
      ep_max_burst (ep_rx (endpoints (dev3 w1)) n) = ep_max_burst (ep_rx (endpoints (dev3 w)) n) \<and>
      ep_buffer (ep_tx (endpoints (dev3 w1)) n) = ep_buffer (ep_tx (endpoints (dev3 w)) n)) \<and>
    current_config (dev3 w1) = v \<and> dev_state (dev3 w1) = (if v \<noteq> 0 then CONFIGURED else dev_state (dev3 w))"
proof -
  let ?w = "(wr_ss_rx 0 0 w)\<lparr>SetupReqCode := USB_SET_CONFIGURATION k, SetupLen := wLength req\<rparr>"
  let ?r = "upd_dev3 (\<lambda>u. u\<lparr>current_config := v\<rparr>) (usb30_reinit_endpoints ?w)"
  let ?s = "if v \<noteq> 0 then upd_dev3 (\<lambda>u. u\<lparr>dev_state := CONFIGURED\<rparr>) ?r else ?r"
  let ?w1 = "wr_ss_rx 0 0x4010000 (?s\<lparr>USB_FC_CTRL := 0x41\<rparr>)"
  have buf: "rx0_buffer3 w \<noteq> 0" "load_setup (usb_memory w) (rx0_buffer3 w) = req" using assms(2) by (simp_all add: ss_setup_pending_def)
  have ne: "USB_SET_CONFIGURATION k \<noteq> USB_GET_DESCRIPTOR k" "USB_SET_CONFIGURATION k \<noteq> USB_SET_ADDRESS k"
    "USB_SET_CONFIGURATION k \<noteq> USB_GET_CONFIGURATION k" using assms(1) by (simp_all add: usb_requests_ok_def)
  have std: "usb30_standard_req_handler k (wr_ss_rx 0 0 w) = Some (0, ?s)"
    using buf assms(4,5) ne by (simp add: usb30_standard_req_handler_def wr_ss_rx_def Let_def)
  have irq: "USBSS_IRQHandler k e w = Some ?w1"
    unfolding irq_setup [OF assms(2), unfolded assms(3), simplified] std
    by (simp add: usbss_irq_ep0_answer_def)
  have pre: "ep_rx_total_length ?w n = 0" "ep_max_burst (ep_rx (endpoints (dev3 ?w)) n) \<le> 31" if "n \<in> {1..7}" for n
    using assms(6) that by (simp_all add: wr_ss_rx_def)
  note re = reinit_endpoint [OF _ pre]
  have armed: "ss_endpoint_armed n ?w1" if n: "n \<in> {1..7}" for n
    using re(1) [OF n n n] n
    by (auto simp: ss_endpoint_armed_def ss_receiving_def ss_writes Let_def split: if_splits)
  have conf: "ss_conf n ?w1 = (let (d, msk, rb, mb, tb, st) = ss_conf n w in (d, msk, rb, mb, tb, dev_state (dev3 ?w1)))"
    if n: "n \<in> {1..7}" for n
    using re(2) [OF n n n] by (auto simp: ss_conf_def ss_writes)
  have one: "(1 :: nat) \<in> {1..7}" by simp
  have "dev_state (dev3 (usb30_reinit_endpoints ?w)) = dev_state (dev3 w)"
    using re(2) [OF one one one] by (auto simp: ss_conf_def wr_ss_rx_def)
  then show ?thesis
    using irq unfolding r_def
  proof (intro exI [of _ ?w1] conjI ballI)
    fix n :: nat assume n: "n \<in> {1..7}"
    show "ss_endpoint_armed n ?w1" by (rule armed [OF n])
    show "ep_buffer (ep_rx (endpoints (dev3 ?w1)) n) = ep_buffer (ep_rx (endpoints (dev3 w)) n)"
      "ep_max_burst (ep_rx (endpoints (dev3 ?w1)) n) = ep_max_burst (ep_rx (endpoints (dev3 w)) n)"
      "ep_buffer (ep_tx (endpoints (dev3 ?w1)) n) = ep_buffer (ep_tx (endpoints (dev3 w)) n)"
      using conf [OF n] unfolding ss_conf_def Let_def prod.case prod.inject by blast+
  next
    show "endpoint_mask (dev3 ?w1) = endpoint_mask (dev3 w)"
      using conf [OF one] unfolding ss_conf_def Let_def prod.case prod.inject by blast
  qed (simp_all add: ss_writes)
qed

end
