(* ===== verification/Usb30_Link.thy ===== *)
theory Usb30_Link
  imports Usb30 Usb2_Address
begin

text \<open>
  The link interrupt and the fallback to USB 2.0: what \<open>LINK_IRQHandler\<close> does when the host leaves or
  does not support USB 3.0, and how that depends on the speed recorded in the device, which a
  SuperSpeed session overwrites.
\<close>

text \<open>The interrupt controller is not part of the state, and writing 1 to a link flag clears it.\<close>

definition link_env :: "('a usb3_world_scheme) usb_env \<Rightarrow> bool" where
  "link_env e \<longleftrightarrow> (\<forall>i w. PFIC_EnableIRQ e i w = w) \<and> (\<forall>i w. PFIC_DisableIRQ e i w = w) \<and>
     (\<forall>x v. link_int_flag_write e x v = x AND NOT v)"

lemmas link_flags = LINK_RDY_FLAG_def LINK_INACT_FLAG_def LINK_DISABLE_FLAG_def LINK_GO_U3_FLAG_def LINK_GO_U2_FLAG_def
  LINK_GO_U1_FLAG_def TERM_PRESENT_FLAG_def LINK_TXEQ_FLAG_def LINK_Ux_EXIT_FLAG_def WARM_RESET_FLAG_def HOT_RESET_FLAG_def
  LINK_RX_DET_FLAG_def

lemma no_flag [simp]: "LINK_INT_FLAG w = 0 \<Longrightarrow> on_link_flag flag f w = Some w"
  by (simp add: on_link_flag_def)

lemma no_go_u [simp]: "LINK_INT_FLAG w = 0 \<Longrightarrow> link_go_u e flag md w = Some w"
  by (simp add: link_go_u_def)

lemma wait_link_done: "LINK_STATUS w AND 4 = 0 \<Longrightarrow> usb30_wait_link e w = Some w"
  by (subst usb30_wait_link.simps) simp

lemma deinit_done:
  assumes "link_env e" and "LINK_STATUS w AND 4 = 0"
  shows "usb30_device_deinit e w = Some (w\<lparr>LINK_CFG := PIPE_RESET OR LFPS_RX_PD, LINK_CTRL := GO_DISABLED OR ucast POWER_MODE_3,
       LINK_INT_CTRL := 0, USB_CONTROL := USB_FORCE_RST OR USB_ALL_CLR\<rparr>)"
  using assms by (simp add: usb30_device_deinit_def usb30_switch_powermode_def wait_link_done link_env_def Let_def)

text \<open>The USB 2.0 controller as \<open>usb2_device_init\<close> leaves it, for each speed.\<close>

definition usb2_ctrl_after_init :: "usb_consts \<Rightarrow> USB_DEVICE_SPEED \<Rightarrow> u8" where
  "usb2_ctrl_after_init k speed =
     (if speed \<in> {USB2_HIGHSPEED, USB2_FULLSPEED, USB2_LOWSPEED}
      then (if speed = USB2_HIGHSPEED then UCST_HS k else if speed = USB2_FULLSPEED then UCST_FS k else UCST_LS k) OR
        (RB_DEV_PU_EN k OR RB_USB_INT_BUSY k OR RB_USB_DMA_EN k)
      else RB_USB_CLR_ALL k OR RB_USB_RESET_SIE k)"

lemma ignores_link:
  "ignores_regs (\<lambda>w :: 'a usb3_world_scheme. LINK_INT_FLAG w = f \<and> LINK_CTRL w = c \<and> USB_CONTROL w = u \<and> R8_USB_CTRL w = r)"
  by (simp add: ignores_regs_def ignores_bank_regs_def or_mod_def wr_ctrl_def wr_dma_def wr_tlen_def)

lemma usb2_init_ctrl:
  assumes "link_env e" and "usb2_device_descr (usb_descriptors (dev2 w)) \<noteq> 0"
  shows "\<exists>w'. usb2_device_init k e w = Some w' \<and> LINK_INT_FLAG w' = LINK_INT_FLAG w \<and> LINK_CTRL w' = LINK_CTRL w \<and>
    USB_CONTROL w' = USB_CONTROL w \<and> R8_USB_CTRL w' = usb2_ctrl_after_init k (dev_speed (dev2 w))"
proof -
  have e: "PFIC_EnableIRQ e i v = v" "PFIC_DisableIRQ e i v = v" for i v using assms(1) by (simp_all add: link_env_def)
  show ?thesis
  proof (cases "dev_speed (dev2 w) \<in> {USB2_HIGHSPEED, USB2_FULLSPEED, USB2_LOWSPEED}")
    case False
    then show ?thesis by (simp add: usb2_device_init_def usb2_device_deinit_def usb2_ctrl_after_init_def e Let_def)
  next
    case True
    let ?P = "\<lambda>v. LINK_INT_FLAG v = LINK_INT_FLAG w \<and> LINK_CTRL v = LINK_CTRL w \<and> USB_CONTROL v = USB_CONTROL w \<and>
      R8_USB_CTRL v = usb2_ctrl_after_init k (dev_speed (dev2 w))"
    have "\<exists>v. usb2_device_init k e w = Some (usb2_setup_endpoints k v) \<and> ?P v"
      using True assms(2)
      by (cases "dev_speed (dev2 w)")
        (simp_all add: usb2_device_init_def usb2_ctrl_after_init_def e upd_dev2_def upd_device_def Let_def, (rule exI, rule conjI, rule refl, simp)+)
    then obtain v where v: "usb2_device_init k e w = Some (usb2_setup_endpoints k v)" "?P v" by blast
    have "?P (usb2_setup_endpoints k v)" by (rule setup_endpoints_ignored [OF ignores_link v(2)])
    then show ?thesis using v(1) by simp
  qed
qed

lemma link_disable_falls_back:
  assumes "link_env e" and "LINK_INT_FLAG w = LINK_DISABLE_FLAG" and "LINK_STATUS w AND 4 = 0" and "usb2_fallback_enabled w"
    and "usb2_device_descr (usb_descriptors (dev2 w)) \<noteq> 0"
  shows "\<exists>w'. LINK_IRQHandler k e w = Some w' \<and> R8_USB_CTRL w' = usb2_ctrl_after_init k (dev_speed (dev2 w)) \<and>
    LINK_CTRL w' = GO_DISABLED OR ucast POWER_MODE_3 \<and> USB_CONTROL w' = USB_FORCE_RST OR USB_ALL_CLR"
proof -
  have e: "PFIC_EnableIRQ e i v = v" "PFIC_DisableIRQ e i v = v" "link_int_flag_write e x y = x AND NOT y" for i v x y
    using assms(1) by (simp_all add: link_env_def)
  let ?w1 = "(upd_dev3 (\<lambda>v. v\<lparr>dev_state := DETACHED\<rparr>) (write_link_flag e LINK_DISABLE_FLAG w))\<lparr>link_sta := 1\<rparr>"
  let ?w2 = "?w1\<lparr>LINK_CFG := PIPE_RESET OR LFPS_RX_PD, LINK_CTRL := GO_DISABLED OR ucast POWER_MODE_3,
       LINK_INT_CTRL := 0, USB_CONTROL := USB_FORCE_RST OR USB_ALL_CLR\<rparr>"
  have d: "usb2_device_descr (usb_descriptors (dev2 ?w2)) \<noteq> 0" "dev_speed (dev2 ?w2) = dev_speed (dev2 w)"
    "LINK_INT_FLAG ?w2 = 0" "LINK_STATUS ?w1 AND 4 = 0" "usb2_fallback_enabled ?w2"
    using assms by (auto simp: write_link_flag_def ss_writes e)
  from usb2_init_ctrl [OF assms(1) d(1), of k] obtain w3 where w3: "usb2_device_init k e ?w2 = Some w3"
    "LINK_INT_FLAG w3 = 0" "LINK_CTRL w3 = GO_DISABLED OR ucast POWER_MODE_3" "USB_CONTROL w3 = USB_FORCE_RST OR USB_ALL_CLR"
    "R8_USB_CTRL w3 = usb2_ctrl_after_init k (dev_speed (dev2 w))" unfolding d(2,3) by auto
  have "link_disable k e w = Some (False, w3)"
    unfolding link_disable_def Let_def deinit_done [OF assms(1) d(4)] using d(5) w3(1) by (simp add: e)
  moreover have "LINK_DISABLE_FLAG AND flag = 0" if "flag \<in> {LINK_Ux_EXIT_FLAG, LINK_RDY_FLAG, LINK_INACT_FLAG}" for flag
    using that by (auto simp: link_flags)
  ultimately have "LINK_IRQHandler k e w = Some w3"
    using assms(2) w3(2) by (simp add: LINK_IRQHandler_def on_link_flag_def [of _ _ w]) (simp add: link_flags)
  then show ?thesis using w3 by blast
qed

text \<open>
  C33. The fallback fails after a SuperSpeed session: if the device has been connected over USB 3.0 (the
  interrupt that ends link training records SuperSpeed in the device) and the host then disables the link, the
  interrupt switches USB 3.0 off and calls \<open>usb2_device_init\<close>, which reads the recorded speed and
  leaves the USB 2.0 controller of the same device held in reset, not enabled.
\<close>

theorem usb3_fallback_after_superspeed:
  assumes "link_env e" and "usb2_backend_current_device w = usb3_backend_current_device w"
    and "usb2_device_descr (usb_descriptors (dev3 w)) \<noteq> 0" and "usb2_fallback_enabled w" and "LINK_STATUS w AND 4 = 0"
    and "LINK_INT_FLAG w = LINK_RDY_FLAG" and "tx_lmp_port w \<noteq> 0"
  shows "\<exists>w1 w2. LINK_IRQHandler k e w = Some w1 \<and> dev_speed (dev3 w1) = USB30_SUPERSPEED \<and> link_sta w1 = 3 \<and>
    LINK_IRQHandler k e (w1\<lparr>LINK_INT_FLAG := LINK_DISABLE_FLAG\<rparr>) = Some w2 \<and>
    USB_CONTROL w2 = USB_FORCE_RST OR USB_ALL_CLR \<and> R8_USB_CTRL w2 = RB_USB_CLR_ALL k OR RB_USB_RESET_SIE k"
proof -
  have e: "link_int_flag_write e x y = x AND NOT y" for x y using assms(1) by (simp add: link_env_def)
  obtain w1 where r: "link_rdy e w = Some w1" and w1: "LINK_INT_FLAG w1 = 0" "dev_speed (dev3 w1) = USB30_SUPERSPEED"
    "link_sta w1 = 3" "usb2_backend_current_device w1 = usb3_backend_current_device w1"
    "usb2_device_descr (usb_descriptors (dev3 w1)) \<noteq> 0" "usb2_fallback_enabled w1" "LINK_STATUS w1 AND 4 = 0"
    using assms(2-7) by (simp add: link_rdy_def write_link_flag_def ss_writes e Let_def)
  have "LINK_RDY_FLAG AND LINK_Ux_EXIT_FLAG = 0" "LINK_RDY_FLAG AND LINK_RDY_FLAG \<noteq> 0" by (simp_all add: link_flags)
  then have i1: "LINK_IRQHandler k e w = Some w1"
    using assms(6) r w1(1) by (simp add: LINK_IRQHandler_def on_link_flag_def [of _ _ w])
  let ?w = "w1\<lparr>LINK_INT_FLAG := LINK_DISABLE_FLAG\<rparr>"
  have "usb2_device_descr (usb_descriptors (dev2 ?w)) \<noteq> 0" "dev_speed (dev2 ?w) = USB30_SUPERSPEED"
    "LINK_STATUS ?w AND 4 = 0" "usb2_fallback_enabled ?w" "LINK_INT_FLAG ?w = LINK_DISABLE_FLAG" using w1 by simp_all
  with link_disable_falls_back [OF assms(1), of ?w k] obtain w2 where
    "LINK_IRQHandler k e ?w = Some w2" "USB_CONTROL w2 = USB_FORCE_RST OR USB_ALL_CLR"
    "R8_USB_CTRL w2 = RB_USB_CLR_ALL k OR RB_USB_RESET_SIE k"
    by (auto simp: usb2_ctrl_after_init_def)
  then show ?thesis using i1 w1 by blast
qed

definition demo_link :: usb3_world where
  "demo_link = demo_usb3\<lparr>LINK_INT_FLAG := LINK_RDY_FLAG, tx_lmp_port := 1\<rparr>"

definition demo_link_env :: "usb3_world usb_env" where
  "demo_link_env = (demo_env 0)\<lparr>link_int_flag_write := (\<lambda>x v. x AND NOT v)\<rparr>"

theorem usb3_fallback_after_superspeed_witness:
  "\<exists>w1 w2. LINK_IRQHandler demo_consts demo_link_env demo_link = Some w1 \<and> dev_speed (dev3 w1) = USB30_SUPERSPEED \<and>
    LINK_IRQHandler demo_consts demo_link_env (w1\<lparr>LINK_INT_FLAG := LINK_DISABLE_FLAG\<rparr>) = Some w2 \<and> R8_USB_CTRL w2 = 6"
proof -
  have "link_env demo_link_env" by (simp add: link_env_def demo_link_env_def demo_env_def)
  moreover have "usb2_backend_current_device demo_link = usb3_backend_current_device demo_link"
    "usb2_device_descr (usb_descriptors (dev3 demo_link)) \<noteq> 0" "usb2_fallback_enabled demo_link" "LINK_STATUS demo_link AND 4 = 0"
    "LINK_INT_FLAG demo_link = LINK_RDY_FLAG" "tx_lmp_port demo_link \<noteq> 0"
    by (simp_all add: demo_link_def demo_usb3_def usb2_world.defs demo_usb2_def upd_ep_rx_def)
  ultimately show ?thesis
    using usb3_fallback_after_superspeed [of demo_link_env demo_link demo_consts] by (auto simp: demo_consts_def)
qed

end
