(* ===== verification/Usb30_Enumeration.thy ===== *)
theory Usb30_Enumeration
  imports Usb30_Endpoints Usb30_Link Usb_Abstract
begin

text \<open>
  Enumeration over USB 3.0: from \<open>usb30_device_init\<close> through link training to the control transfers of the
  host, one after the other. Each event is what the link does to the controller's registers and memory, followed by the
  interrupt. The backend provides the interface \<open>enumerable_device\<close>, as USB 2.0 does.
\<close>

section \<open>Events\<close>

text \<open>The controller stores a setup packet at the DMA address of endpoint 0 and sets bit 30 of its receive register.\<close>

definition usb3_setup ::
    "usb_consts \<Rightarrow> ('a usb3_world_scheme) usb_env \<Rightarrow> USB_SETUP \<Rightarrow> 'a usb3_world_scheme \<Rightarrow> 'a usb3_world_scheme option" where
  "usb3_setup k e req w = USBSS_IRQHandler k e
     ((wr_ss_rx 0 (SS_RX_CONTRL w 0 OR push_bit 30 1) w)
       \<lparr>usb_memory := mem_write (SS_UEP0_DMA w) (setup_bytes req) (usb_memory w), USB_STATUS := 1\<rparr>)"

text \<open>The status stage: endpoint 0 is ready to receive, and bit 29 tells that the host has sent its status packet.\<close>

definition usb3_status :: "usb_consts \<Rightarrow> ('a usb3_world_scheme) usb_env \<Rightarrow> 'a usb3_world_scheme \<Rightarrow> 'a usb3_world_scheme option" where
  "usb3_status k e w =
     (if SS_RX_CONTRL w 0 = 0x4010000 \<and> USB_FC_CTRL w = 0x41
      then USBSS_IRQHandler k e ((wr_ss_rx 0 (SS_RX_CONTRL w 0 OR push_bit 29 1) w)\<lparr>USB_STATUS := 1\<rparr>)
      else None)"

text \<open>Control transfers. \<open>hw i\<close> is what the controller leaves in the transmit register when the host has taken packet \<open>i\<close>.\<close>

definition usb3_control_in :: "usb_consts \<Rightarrow> ('a usb3_world_scheme) usb_env \<Rightarrow> (nat \<Rightarrow> u32) \<Rightarrow> USB_SETUP \<Rightarrow> nat \<Rightarrow> 'a usb3_world_scheme \<Rightarrow>
    ((nat \<times> u8 list) list \<times> 'a usb3_world_scheme) option" where
  "usb3_control_in k e hw req j w = do {
     w1 \<leftarrow> usb3_setup k e req w;
     (ps, w2) \<leftarrow> ss_ep0_packets k e (map hw [0..<j]) w1;
     w3 \<leftarrow> usb3_status k e w2;
     Some (ps, w3) }"

definition usb3_control_out :: "usb_consts \<Rightarrow> ('a usb3_world_scheme) usb_env \<Rightarrow> USB_SETUP \<Rightarrow> 'a usb3_world_scheme \<Rightarrow>
    'a usb3_world_scheme option" where
  "usb3_control_out k e req w = do { w1 \<leftarrow> usb3_setup k e req w; usb3_status k e w1 }"

section \<open>What a control transfer leaves alone\<close>

text \<open>The settings of a device: all of it but the states of its endpoints, which configuring it sets.\<close>

definition ep_settings :: "usb_endpoints \<Rightarrow> usb_endpoints" where
  "ep_settings es = es\<lparr>ep_tx := (\<lambda>n. (ep_tx es n)\<lparr>ep_state := 0\<rparr>), ep_rx := (\<lambda>n. (ep_rx es n)\<lparr>ep_state := 0\<rparr>)\<rparr>"

lemma ep_settings_state [simp]:
  "ep_settings (endpoints (upd_ep_tx n (\<lambda>p. p\<lparr>ep_state := s\<rparr>) v)) = ep_settings (endpoints v)"
  "ep_settings (endpoints (upd_ep_rx n (\<lambda>p. p\<lparr>ep_state := s\<rparr>) v)) = ep_settings (endpoints v)"
  by (rule usb_endpoints.equality, auto simp: ep_settings_def upd_ep_tx_def upd_ep_rx_def)+

lemma upd_ep_speed [simp]: "dev_speed (upd_ep_tx n f v) = dev_speed v" "dev_speed (upd_ep_rx n f v) = dev_speed v"
  by (simp_all add: upd_ep_tx_def upd_ep_rx_def)

lemma ep_settings_eq:
  assumes "ep_settings es' = ep_settings es"
  shows "ep_buffer (ep_rx es' n) = ep_buffer (ep_rx es n)" "ep_max_burst (ep_rx es' n) = ep_max_burst (ep_rx es n)"
    "ep_buffer (ep_tx es' n) = ep_buffer (ep_tx es n)" "ep_max_packet_size (ep_rx es' n) = ep_max_packet_size (ep_rx es n)"
    "rx_callback es' = rx_callback es"
proof -
  have "(ep_rx es' n)\<lparr>ep_state := 0\<rparr> = (ep_rx es n)\<lparr>ep_state := 0\<rparr>" "(ep_tx es' n)\<lparr>ep_state := 0\<rparr> = (ep_tx es n)\<lparr>ep_state := 0\<rparr>"
    using arg_cong [OF assms, of "\<lambda>e. ep_rx e n"] arg_cong [OF assms, of "\<lambda>e. ep_tx e n"] by (simp_all add: ep_settings_def)
  then show "ep_buffer (ep_rx es' n) = ep_buffer (ep_rx es n)" "ep_max_burst (ep_rx es' n) = ep_max_burst (ep_rx es n)"
    "ep_buffer (ep_tx es' n) = ep_buffer (ep_tx es n)" "ep_max_packet_size (ep_rx es' n) = ep_max_packet_size (ep_rx es n)"
    by (metis usb_endpoint.select_convs usb_endpoint.simps usb_endpoint.surjective)+
  show "rx_callback es' = rx_callback es" using arg_cong [OF assms, of rx_callback] by (simp add: ep_settings_def)
qed

definition ss_keeps :: "'a usb3_world_scheme \<Rightarrow> 'a usb3_world_scheme \<Rightarrow> bool" where
  "ss_keeps w w' \<longleftrightarrow>
     usb3_backend_current_device w' = usb3_backend_current_device w \<and> usb_crit w' = usb_crit w \<and>
     usb3_world.more w' = usb3_world.more w \<and> usb_descriptors (dev3 w') = usb_descriptors (dev3 w) \<and> endpoint_mask (dev3 w') = endpoint_mask (dev3 w) \<and>
     ep_settings (endpoints (dev3 w')) = ep_settings (endpoints (dev3 w)) \<and>
     ep_rx_total_length w' = ep_rx_total_length w \<and> ep_tx_remaining_length w' = ep_tx_remaining_length w \<and>
     ep_tx_total_bursts w' = ep_tx_total_bursts w \<and>
     (dev_speed (dev3 w) = USB30_SUPERSPEED \<longrightarrow> dev_speed (dev3 w') = USB30_SUPERSPEED) \<and>
     (SS_UEP0_DMA w = rx0_buffer3 w \<longrightarrow> SS_UEP0_DMA w' = SS_UEP0_DMA w) \<and>
     same_outside (rx0_buffer3 w) 512 (usb_memory w) (usb_memory w')"

lemma ss_keeps_refl [simp]: "ss_keeps w w"
  by (simp add: ss_keeps_def)

lemma ss_keeps_buffer: "ss_keeps w w' \<Longrightarrow> rx0_buffer3 w' = rx0_buffer3 w"
  by (auto simp: ss_keeps_def intro: ep_settings_eq(1))

lemma ss_keeps_trans [trans]: "ss_keeps w w1 \<Longrightarrow> ss_keeps w1 w2 \<Longrightarrow> ss_keeps w w2"
  using ss_keeps_buffer [of w w1] by (auto simp: ss_keeps_def dest: same_outside_trans)

lemma ss_keeps_writes [simp]:
  "ss_keeps w (wr_ss_tx n x w1) = ss_keeps w w1" "ss_keeps w (wr_ss_rx n x w1) = ss_keeps w w1"
  "ss_keeps w (wr_ss_tx_dma n a w1) = ss_keeps w w1" "ss_keeps w (wr_ss_rx_dma n a w1) = ss_keeps w w1"
  "ss_keeps w (set_prev_burst n b w1) = ss_keeps w w1"
  "ss_keeps w (w1\<lparr>SetupLen := l\<rparr>) = ss_keeps w w1" "ss_keeps w (w1\<lparr>SetupReqCode := c\<rparr>) = ss_keeps w w1"
  "ss_keeps w (w1\<lparr>pDescr := a\<rparr>) = ss_keeps w w1" "ss_keeps w (w1\<lparr>ep0_in_count := x\<rparr>) = ss_keeps w w1"
  "ss_keeps w (w1\<lparr>USB_FC_CTRL := x\<rparr>) = ss_keeps w w1" "ss_keeps w (w1\<lparr>USB_STATUS := x\<rparr>) = ss_keeps w w1"
  "ss_keeps w (w1\<lparr>USB_CONTROL := x\<rparr>) = ss_keeps w w1" "ss_keeps w (w1\<lparr>UEP_CFG := x\<rparr>) = ss_keeps w w1"
  "ss_keeps w (usb30_device_set_address x w1) = ss_keeps w w1"
  by (simp_all add: ss_keeps_def ss_writes usb30_device_set_address_def Let_def)

lemma ss_keeps_dev [simp]:
  "ss_keeps w (upd_dev3 (\<lambda>v. v\<lparr>dev_state := s\<rparr>) w1) = ss_keeps w w1"
  "ss_keeps w (upd_dev3 (\<lambda>v. v\<lparr>current_config := c\<rparr>) w1) = ss_keeps w w1"
  "ss_keeps w (upd_dev3 (upd_ep_tx n (\<lambda>p. p\<lparr>ep_state := x\<rparr>)) w1) = ss_keeps w w1"
  "ss_keeps w (upd_dev3 (upd_ep_rx n (\<lambda>p. p\<lparr>ep_state := x\<rparr>)) w1) = ss_keeps w w1"
  by (auto simp: ss_keeps_def ss_writes)

lemma ss_keeps_superspeed [simp]:
  "ss_keeps w w1 \<Longrightarrow> ss_keeps w (upd_dev3 (\<lambda>v. v\<lparr>dev_speed := USB30_SUPERSPEED, dev_state := s\<rparr>) w1)"
  by (auto simp: ss_keeps_def ss_writes)

lemma ss_keeps_copy:
  "ss_keeps w w1 \<Longrightarrow> n \<le> 512 \<Longrightarrow> ss_keeps w (w1\<lparr>usb_memory := mem_copy (rx0_buffer3 w) p n (usb_memory w1)\<rparr>)"
  by (auto simp: ss_keeps_def intro: same_outside_trans same_outside_copy)

text \<open>Requests that read leave more alone: the device, its address, and the registers of its other endpoints.\<close>

definition ss_views :: "'a usb3_world_scheme \<Rightarrow> nat \<Rightarrow> (u32 \<times> u32 \<times> u32 \<times> u32 \<times> u8 \<times> u16 \<times> bool \<times> bool) option" where
  "ss_views w n = (if n = 0 then None else Some (ss_view n w))"

lemma ss_views_same [simp]:
  "ss_views (wr_ss_tx 0 x w) = ss_views w" "ss_views (wr_ss_rx 0 x w) = ss_views w"
  "ss_views (w\<lparr>usb_memory := m\<rparr>) = ss_views w" "ss_views (w\<lparr>SetupLen := l\<rparr>) = ss_views w"
  "ss_views (w\<lparr>SetupReqCode := c\<rparr>) = ss_views w" "ss_views (w\<lparr>pDescr := a\<rparr>) = ss_views w"
  "ss_views (w\<lparr>ep0_in_count := x\<rparr>) = ss_views w" "ss_views (w\<lparr>USB_FC_CTRL := x\<rparr>) = ss_views w"
  "ss_views (w\<lparr>USB_STATUS := x\<rparr>) = ss_views w" "ss_views (w\<lparr>USB_CONTROL := x\<rparr>) = ss_views w"
  "ss_views (usb30_device_set_address y w) = ss_views w" "ss_views (upd_dev3 f w) = ss_views w"
  by (auto simp: ss_views_def ss_view_def ss_writes usb30_device_set_address_def Let_def)

definition ss_in_keeps :: "'a usb3_world_scheme \<Rightarrow> 'a usb3_world_scheme \<Rightarrow> bool" where
  "ss_in_keeps w w' \<longleftrightarrow> ss_keeps w w' \<and> usb_devices w' = usb_devices w \<and> USB_CONTROL w' = USB_CONTROL w \<and> ss_views w' = ss_views w"

lemma ss_in_keeps_refl [simp]: "ss_in_keeps w w"
  by (simp add: ss_in_keeps_def)

lemma ss_in_keeps_trans [trans]: "ss_in_keeps w w1 \<Longrightarrow> ss_in_keeps w1 w2 \<Longrightarrow> ss_in_keeps w w2"
  by (auto simp: ss_in_keeps_def intro: ss_keeps_trans)

lemma ss_in_keeps_writes [simp]:
  "ss_in_keeps w (wr_ss_tx 0 x w1) = ss_in_keeps w w1" "ss_in_keeps w (wr_ss_rx 0 x w1) = ss_in_keeps w w1"
  "ss_in_keeps w (w1\<lparr>SetupLen := l\<rparr>) = ss_in_keeps w w1" "ss_in_keeps w (w1\<lparr>SetupReqCode := c\<rparr>) = ss_in_keeps w w1"
  "ss_in_keeps w (w1\<lparr>pDescr := a\<rparr>) = ss_in_keeps w w1" "ss_in_keeps w (w1\<lparr>ep0_in_count := y\<rparr>) = ss_in_keeps w w1"
  "ss_in_keeps w (w1\<lparr>USB_FC_CTRL := y\<rparr>) = ss_in_keeps w w1" "ss_in_keeps w (w1\<lparr>USB_STATUS := y\<rparr>) = ss_in_keeps w w1"
  by (simp_all add: ss_in_keeps_def) (simp_all add: ss_writes)

lemma ss_in_keeps_copy:
  "ss_in_keeps w w1 \<Longrightarrow> n \<le> 512 \<Longrightarrow> ss_in_keeps w (w1\<lparr>usb_memory := mem_copy (rx0_buffer3 w) p n (usb_memory w1)\<rparr>)"
  by (simp add: ss_in_keeps_def ss_keeps_copy)

lemma next_packet_keeps:
  assumes "usb30_ep0_next_packet w = Some (n, w')"
  shows "ss_in_keeps w w'" "SetupReqCode w' = SetupReqCode w"
proof -
  let ?l = "if ENDP0_MAX_PACKET_SIZE \<le> SetupLen w then ENDP0_MAX_PACKET_SIZE else SetupLen w"
  have "?l \<le> 512" by (auto simp: ENDP0_MAX_PACKET_SIZE_def)
  then have "unat ?l \<le> 512" by (simp add: word_le_nat_alt)
  from ss_in_keeps_copy [OF ss_in_keeps_refl this, of w] assms
  show "ss_in_keeps w w'" "SetupReqCode w' = SetupReqCode w"
    by (auto simp: usb30_ep0_next_packet_def usb_memcpy_def Let_def bind_eq_Some_conv split: if_splits)
qed

lemma ep0_packets_keeps:
  "ss_ep0_packets k e cs w = Some (ps, w') \<Longrightarrow> ss_in_keeps w w' \<and> SetupReqCode w' = SetupReqCode w"
proof (induction cs arbitrary: w ps)
  case (Cons c cs)
  let ?w = "(wr_ss_tx 0 c w)\<lparr>USB_STATUS := 0x1001\<rparr>"
  from Cons.prems obtain w1 qs where w1: "usbss_irq_ep0_in ?w = Some w1" "ss_ep0_packets k e cs w1 = Some (qs, w')"
    by (auto simp: bind_eq_Some_conv irq_ep0_in)
  from w1(1) obtain n v where v: "ep0_in_handler ?w = Some (n, v)" by (auto simp: usbss_irq_ep0_in_def bind_eq_Some_conv)
  have "ss_in_keeps ?w v \<and> SetupReqCode v = SetupReqCode ?w"
    using v next_packet_keeps [of ?w n v] by (auto simp: ep0_in_handler_def split: if_splits)
  moreover have "ss_in_keeps w ?w" "SetupReqCode ?w = SetupReqCode w" by (simp_all, simp add: ss_writes)
  ultimately have "ss_in_keeps w v \<and> SetupReqCode v = SetupReqCode w" using ss_in_keeps_trans [of w ?w v] by simp
  then have "ss_in_keeps w w1 \<and> SetupReqCode w1 = SetupReqCode w"
    using w1(1) unfolding usbss_irq_ep0_in_def v by (auto simp: Let_def split: if_splits) (simp_all add: ss_writes)
  with Cons.IH [OF w1(2)] show ?case using ss_in_keeps_trans [of w w1 w'] by simp
qed simp

section \<open>Reading a descriptor\<close>

text \<open>Endpoint 0 is set up.\<close>

definition ep0_serving3 :: "'a usb3_world_scheme \<Rightarrow> bool" where
  "ep0_serving3 w \<longleftrightarrow> rx0_buffer3 w \<noteq> 0 \<and> SS_UEP0_DMA w = rx0_buffer3 w"

lemma serving3_kept: "ep0_serving3 w \<Longrightarrow> ss_keeps w w' \<Longrightarrow> ep0_serving3 w'"
  using ss_keeps_buffer [of w w'] by (auto simp: ep0_serving3_def ss_keeps_def)

text \<open>The device offers the bytes \<open>bs\<close> at \<open>head\<close> as its descriptor \<open>v\<close>: they announce their own
  number, and neither they nor the pointer to them lie in the buffer of endpoint 0.\<close>

definition announces :: "nat \<Rightarrow> u8 list \<Rightarrow> bool" where
  "announces i bs \<longleftrightarrow> i + 1 < length bs \<and> ucast (bs ! i) OR push_bit 8 (ucast (bs ! (i + 1))) = (of_nat (length bs) :: u16)"

definition has_descr3 :: "usb_consts \<Rightarrow> u16 \<Rightarrow> u32 \<Rightarrow> u8 list \<Rightarrow> 'a usb3_world_scheme \<Rightarrow> bool" where
  "has_descr3 k v head bs w \<longleftrightarrow>
     (let ds = usb_descriptors (dev3 w); m = usb_memory w; b = rx0_buffer3 w;
          entry = usb_string_descrs ds + 4 * ucast (bb1 v) in
      head \<noteq> 0 \<and> length bs < 16384 \<and> unat head + length bs < 2 ^ 32 \<and> apart head (length bs) b 512 \<and>
      mem_bytes m head (length bs) = bs \<and>
      (if bb0 v = USB_DESCR_TYP_DEVICE k then usb3_device_descr ds = head \<and> length bs = unat (sizeof_USB_DEV_DESCR k)
       else if bb0 v = USB_DESCR_TYP_CONFIG k then usb3_device_config_descrs ds \<noteq> 0 \<and>
         apart (usb3_device_config_descrs ds) 4 b 512 \<and> load_u32 m (usb3_device_config_descrs ds) = head \<and>
         announces (unat (off_CFG_wTotalLength k)) bs
       else if bb0 v = USB_DESCR_TYP_BOS then usb_bos_descr ds = head \<and> announces 2 bs
       else bb0 v = USB_DESCR_TYP_STRING k \<and> usb_string_descrs ds \<noteq> 0 \<and> apart entry 4 b 512 \<and> load_u32 m entry = head \<and>
         length bs < 256 \<and> bs \<noteq> [] \<and> hd bs = of_nat (length bs)))"

lemma has_descr3_kept:
  assumes "has_descr3 k v head bs w" and "ss_keeps w w'"
  shows "has_descr3 k v head bs w'"
proof -
  have s: "same_outside (rx0_buffer3 w) 512 (usb_memory w) (usb_memory w')"
    "usb_descriptors (dev3 w') = usb_descriptors (dev3 w)" "rx0_buffer3 w' = rx0_buffer3 w"
    using assms(2) ss_keeps_buffer [OF assms(2)] by (auto simp: ss_keeps_def)
  show ?thesis
    using assms(1) same_outside_bytes [OF s(1)] unfolding has_descr3_def Let_def s(2,3) load_u32_bytes by (auto split: if_splits)
qed

lemma announces_load:
  assumes "mem_bytes m head (length bs) = bs" and "announces (unat i) bs" and "length bs < 16384"
  shows "load_u16 m (head + i) = of_nat (length bs)"
proof -
  have u: "unat (i + 1) = unat i + 1"
    using assms(2,3) by (subst unat_add_lem [THEN iffD1]) (auto simp: announces_def)
  have "m (head + off) = bs ! unat off" if "unat off < length bs" for off
    using mem_bytes_at [OF assms(1), of "unat off"] that by simp
  from this [of i] this [of "i + 1"] assms(2) show ?thesis
    unfolding u by (simp add: load_u16_def announces_def add.assoc)
qed

lemma has_descr3_requested:
  assumes k: "usb_requests_ok k" and h: "has_descr3 k v head bs w"
  shows "requested_descriptor3 k (get_descriptor_req k v n) w = Some (head, min n (of_nat (length bs)))"
proof -
  have t: "USB_DESCR_TYP_DEVICE k = 1" "USB_DESCR_TYP_CONFIG k = 2" "USB_DESCR_TYP_BOS = 0xf" "USB_DESCR_TYP_STRING k = 3"
    using k by (simp_all add: usb_requests_ok_def USB_DESCR_TYP_BOS_def)
  note d = h [unfolded has_descr3_def Let_def t]
  have "load_u16 (usb_memory w) (head + i) = of_nat (length bs)" if "announces (unat i) bs" for i
    using announces_load [OF _ that] d by blast
  note l = this [of "off_CFG_wTotalLength k"] this [of 2]
  have b: "wValue (get_descriptor_req k v n) = v" "wLength (get_descriptor_req k v n) = n"
    by (simp_all add: get_descriptor_req_def)
  consider (device) "bb0 v = 1" | (config) "bb0 v = 2" | (bos) "bb0 v = 0xf" | (string) "bb0 v = 3"
    | (none) "bb0 v \<noteq> 1" "bb0 v \<noteq> 2" "bb0 v \<noteq> 0xf" "bb0 v \<noteq> 3"
    by blast
  then show ?thesis
  proof cases
    case string
    have e: "length bs < 256" "bs \<noteq> []" "hd bs = of_nat (length bs)" using d string by simp_all
    have "mem_bytes (usb_memory w) head (length bs) = bs" using d by blast
    from mem_bytes_at [OF this, of 0] e(2,3) have "usb_memory w head = of_nat (length bs)" by (simp add: hd_conv_nth)
    then have "ucast (usb_memory w head) = (of_nat (length bs) :: u16)" using e(1) by (simp add: word_unat_eq_iff unat_of_nat)
    moreover have "usb_string_descrs (usb_descriptors (dev3 w)) \<noteq> 0" "head \<noteq> 0"
      "load_u32 (usb_memory w) (usb_string_descrs (usb_descriptors (dev3 w)) + 4 * ucast (bb1 v)) = head" using d string by simp_all
    ultimately show ?thesis using string unfolding requested_descriptor3_def Let_def b t by simp
  next
    case none
    then show ?thesis using d by simp
  next
    case device
    then show ?thesis using d k unfolding requested_descriptor3_def Let_def b t by simp
  next
    case config
    then show ?thesis using d l(1) unfolding requested_descriptor3_def Let_def b t by simp
  next
    case bos
    then show ?thesis using d l(2) unfolding requested_descriptor3_def Let_def b t by simp
  qed
qed

text \<open>The state in which a setup packet is handled.\<close>

definition ss_setup_state :: "USB_SETUP \<Rightarrow> 'a usb3_world_scheme \<Rightarrow> 'a usb3_world_scheme" where
  "ss_setup_state req w = (wr_ss_rx 0 (SS_RX_CONTRL w 0 OR push_bit 30 1) w)
     \<lparr>usb_memory := mem_write (rx0_buffer3 w) (setup_bytes req) (usb_memory w), USB_STATUS := 1\<rparr>"

lemma usb3_setup_irq: "ep0_serving3 w \<Longrightarrow> usb3_setup k e req w = USBSS_IRQHandler k e (ss_setup_state req w)"
  by (simp add: usb3_setup_def ss_setup_state_def ep0_serving3_def)

lemma setup_state_simps [simp]:
  "usb_devices (ss_setup_state req w) = usb_devices w" "usb3_backend_current_device (ss_setup_state req w) = usb3_backend_current_device w"
  "SS_UEP0_DMA (ss_setup_state req w) = SS_UEP0_DMA w" "ep0_in_count (ss_setup_state req w) = ep0_in_count w"
  "USB_CONTROL (ss_setup_state req w) = USB_CONTROL w" "ep_rx_total_length (ss_setup_state req w) = ep_rx_total_length w"
  by (simp_all add: ss_setup_state_def wr_ss_rx_def)

lemma setup_state_pending: "rx0_buffer3 w \<noteq> 0 \<Longrightarrow> ss_setup_pending req (ss_setup_state req w)"
  by (simp add: ss_setup_pending_def) (simp add: ss_setup_state_def wr_ss_rx_def load_setup_bytes bit_or_iff bit_push_bit_iff)

lemma setup_state_keeps: "ss_in_keeps w (ss_setup_state req w)"
proof -
  have "length (setup_bytes req) \<le> 512" by (simp add: setup_bytes_def)
  then have "same_outside (rx0_buffer3 w) 512 (usb_memory w) (usb_memory (ss_setup_state req w))"
    by (simp add: ss_setup_state_def same_outside_write)
  then have "ss_keeps w (ss_setup_state req w)"
    by (simp add: ss_keeps_def) (simp add: ss_setup_state_def wr_ss_rx_def)
  moreover have "ss_views (ss_setup_state req w) = ss_views w" by (simp add: ss_setup_state_def)
  ultimately show ?thesis by (simp add: ss_in_keeps_def)
qed

lemma status_stage:
  assumes "SS_RX_CONTRL w 0 = 0x4010000" and "USB_FC_CTRL w = 0x41"
  shows "usb3_status k e w = Some (wr_ss_tx 0 0 (wr_ss_rx 0 0
    (ep0_status_stage_handler k ((wr_ss_rx 0 (0x4010000 OR push_bit 29 1) w)\<lparr>USB_STATUS := 1\<rparr>))))"
proof -
  have "- 1 < sint (push_bit 1 (0x4010000 OR push_bit 29 1 :: u32))" "sint (push_bit 2 (0x4010000 OR push_bit 29 1 :: u32)) < 0"
    using sint_push_neg [of 1 "0x4010000 OR push_bit 29 1"] sint_push_neg [of 2 "0x4010000 OR push_bit 29 1"]
    by (simp_all add: bit_iff_odd_drop_bit)
  then show ?thesis
    using assms by (simp add: usb3_status_def USBSS_IRQHandler_def usbss_irq_ep0_out_def Let_def) (simp add: wr_ss_rx_def)
qed

text \<open>A request for a descriptor is pending, with what the lemmas of its data stage need.\<close>

lemma descriptor_pending:
  fixes n :: u16
  assumes k: "usb_requests_ok k" and w: "ep0_serving3 w" and d: "has_descr3 k v head bs w"
  defines "N \<equiv> min n (of_nat (length bs))" and "s \<equiv> ss_setup_state (get_descriptor_req k v n) w"
  shows "unat N = min (unat n) (length bs)" "N < 16384" "ss_setup_pending (get_descriptor_req k v n) s"
    "requested_descriptor3 k (get_descriptor_req k v n) s = Some (head, N)" "SS_UEP0_DMA s = rx0_buffer3 s"
    "unat head + unat N < 2 ^ 32" "apart head (unat N) (rx0_buffer3 s) 512"
    "mem_bytes (usb_memory s) head (unat N) = take (unat n) bs"
proof -
  have ds: "has_descr3 k v head bs s"
    using has_descr3_kept [OF d] setup_state_keeps [of w] by (simp add: ss_in_keeps_def s_def)
  note h = ds [unfolded has_descr3_def Let_def]
  have bs: "length bs < 16384" using h by blast
  have "unat (of_nat (length bs) :: u16) = length bs" using bs by (simp add: unsigned_of_nat take_bit_nat_eq_self)
  then show un: "unat N = min (unat n) (length bs)" by (simp add: N_def unat_min)
  then show "N < 16384" using bs by (simp add: word_less_nat_alt)
  show "apart head (unat N) (rx0_buffer3 s) 512" "unat head + unat N < 2 ^ 32" using h un by (auto simp: apart_def)
  show "mem_bytes (usb_memory s) head (unat N) = take (unat n) bs"
    using h un take_mem_bytes [of "unat N" "length bs" "usb_memory s" head]
    by (simp add: min_def split: if_splits)
  show "requested_descriptor3 k (get_descriptor_req k v n) s = Some (head, N)"
    unfolding N_def by (rule has_descr3_requested [OF k ds])
  show "ss_setup_pending (get_descriptor_req k v n) s" "SS_UEP0_DMA s = rx0_buffer3 s"
    using w setup_state_pending [of w] by (simp_all add: s_def ep0_serving3_def)
qed

text \<open>A control transfer that reads a descriptor returns the bytes asked for.\<close>

lemma control_in3_descriptor:
  assumes k: "usb_requests_ok k" and w: "ep0_serving3 w" and c: "ep0_in_count w = 0" and d: "has_descr3 k v head bs w"
    and hw: "\<forall>i. hw i AND 0xe81efc00 = 0" and j: "j = (min (unat n) (length bs) - 1) div 512 + 1"
  shows "\<exists>w'. usb3_control_in k e hw (get_descriptor_req k v n) j w =
      Some (enumerate 0 (bulk_packets 512 (take (unat n) bs)), w') \<and> ss_in_keeps w w' \<and> ep0_in_count w' = 0"
proof -
  let ?req = "get_descriptor_req k v n"
  let ?s = "ss_setup_state ?req w"
  define N where "N = min n (of_nat (length bs))"
  note p = descriptor_pending [OF k w d, of n, folded N_def]
  have ks: "ss_in_keeps w ?s" by (rule setup_state_keeps)
  have r: "bRequestType ?req = 0x80" "bRequest ?req = USB_GET_DESCRIPTOR k" by (simp_all add: get_descriptor_req_def)
  have cs: "list_all (\<lambda>c. c AND 0xe81efc00 = 0) (map hw [0..<j])" "length (map hw [0..<j]) = (unat N - 1) div 512 + 1"
    using hw j p(1) by (simp_all add: list_all_iff)
  have c0: "ep0_in_count ?s = 0" using c by simp
  from get_descriptor_packets [OF k p(3) r p(4,2,5,6,7) c0 cs, of e]
  obtain w0 w1 w2 where w1:
    "usb30_ep0_next_packet ((wr_ss_rx 0 0 ?s)\<lparr>SetupReqCode := bRequest ?req, SetupLen := N, pDescr := head\<rparr>) = Some (min N 512, w0)"
    "w1 = wr_ss_tx 0 (ss_ep0_word 0 (min N 512)) (w0\<lparr>USB_FC_CTRL := 0x41\<rparr>)" "USBSS_IRQHandler k e ?s = Some w1"
    and w2: "ss_ep0_packets k e (map hw [0..<j]) w1 = Some (enumerate 0 (bulk_packets 512 (take (unat n) bs)), w2)"
      "ss_ep0_status_ready w2" unfolding p(8) by blast
  have "ss_in_keeps ?s w0"
    using next_packet_keeps(1) [OF w1(1)] ss_in_keeps_trans [of ?s "(wr_ss_rx 0 0 ?s)\<lparr>SetupReqCode := bRequest ?req, SetupLen := N, pDescr := head\<rparr>" w0]
    by simp
  moreover have "SetupReqCode w0 = USB_GET_DESCRIPTOR k" by (rule trans [OF next_packet_keeps(2) [OF w1(1)]]) (simp add: r(2))
  ultimately have "ss_in_keeps ?s w1" "SetupReqCode w1 = USB_GET_DESCRIPTOR k" unfolding w1(2) by (simp_all, simp add: ss_writes)
  then have k2: "ss_in_keeps w w2" "SetupReqCode w2 = USB_GET_DESCRIPTOR k"
    using ep0_packets_keeps [OF w2(1)] ss_in_keeps_trans [OF ks] ss_in_keeps_trans [of w w1 w2] by auto
  have g: "USB_GET_DESCRIPTOR k \<noteq> USB_SET_ADDRESS k" using k by (simp add: usb_requests_ok_def)
  let ?w3 = "wr_ss_tx 0 0 (wr_ss_rx 0 0 ((wr_ss_rx 0 (0x4010000 OR push_bit 29 1) w2)\<lparr>USB_STATUS := 1\<rparr>))"
  have "usb3_status k e w2 = Some ?w3"
    using status_stage [of w2 k e] w2(2) k2(2) g by (simp add: ss_ep0_status_ready_def ep0_status_stage_handler_def wr_ss_rx_def)
  moreover have "ss_in_keeps w ?w3" using k2(1) by simp
  moreover have "ep0_in_count ?w3 = 0" using w2(2) by (simp add: ss_ep0_status_ready_def wr_ss_tx_def wr_ss_rx_def)
  ultimately show ?thesis using w1(3) w2(1) by (simp add: usb3_control_in_def usb3_setup_irq [OF w])
qed

section \<open>Addresses and configurations\<close>

lemma status_handler_keeps [simp]:
  "ss_keeps w w1 \<Longrightarrow> ss_keeps w (ep0_status_stage_handler k w1)" "ss_views (ep0_status_stage_handler k w) = ss_views w"
  "ep0_in_count (ep0_status_stage_handler k w) = ep0_in_count w"
  "current_config (dev3 (ep0_status_stage_handler k w)) = current_config (dev3 w)"
  by (simp_all add: ep0_status_stage_handler_def Let_def) (simp_all add: ss_writes usb30_device_set_address_def Let_def)

lemma control_out3_address:
  assumes k: "usb_requests_ok k" and w: "ep0_serving3 w"
  shows "\<exists>w'. usb3_control_out k e (set_address_req k a) w = Some w' \<and> ss_keeps w w' \<and> ss_views w' = ss_views w \<and>
    ep0_in_count w' = ep0_in_count w \<and> USB_CONTROL w' = (USB_CONTROL w AND 0x00ffffff) OR push_bit 24 (ucast a) \<and>
    dev_state (dev3 w') = ADDRESS \<and> current_config (dev3 w') = current_config (dev3 w)"
proof -
  let ?req = "set_address_req k a"
  let ?s = "ss_setup_state ?req w"
  let ?c = "0x4010000 OR push_bit 29 1 :: u32"
  have p: "ss_setup_pending ?req ?s" by (rule setup_state_pending) (use w in \<open>simp add: ep0_serving3_def\<close>)
  have r: "bRequestType ?req = 0" "bRequest ?req = USB_SET_ADDRESS k" "bb1 (wValue ?req) = a"
    by (simp_all add: set_address_req_def)
  have c: "\<not> bit ?c 30" "bit ?c 29" by (simp_all add: bit_iff_odd_drop_bit)
  from set_address_irqs [OF k p r(1,2) c, of e] obtain w1 w2 where w1:
    "w1 = (wr_ss_rx 0 0x4010000 (wr_ss_rx 0 0 ?s))\<lparr>SetupReqCode := USB_SET_ADDRESS k, SetupLen := ucast a, USB_FC_CTRL := 0x41\<rparr>"
    and w2: "w2 = wr_ss_tx 0 0 (wr_ss_rx 0 0 (ep0_status_stage_handler k ((wr_ss_rx 0 ?c w1)\<lparr>USB_STATUS := 1\<rparr>)))"
    and irq: "USBSS_IRQHandler k e ?s = Some w1" "USBSS_IRQHandler k e ((wr_ss_rx 0 ?c w1)\<lparr>USB_STATUS := 1\<rparr>) = Some w2"
    and res: "SS_RX_CONTRL w1 0 = 0x4010000" "USB_CONTROL w2 = (USB_CONTROL ?s AND 0x00ffffff) OR push_bit 24 (ucast a)"
      "dev_state (dev3 w2) = ADDRESS" unfolding r(3) by blast
  have "USB_FC_CTRL w1 = 0x41" unfolding w1 by simp
  then have run: "usb3_control_out k e ?req w = Some w2"
    using irq res(1) by (simp add: usb3_control_out_def usb3_setup_irq [OF w] usb3_status_def)
  have ks: "ss_keeps w ?s" "ss_views ?s = ss_views w" using setup_state_keeps [of w ?req] by (simp_all add: ss_in_keeps_def)
  have "ss_keeps w w2" "ss_views w2 = ss_views w" unfolding w2 w1 using ks by simp_all
  moreover have "ep0_in_count w2 = ep0_in_count w" unfolding w2 w1 by (simp add: wr_ss_tx_def wr_ss_rx_def)
  moreover have "current_config (dev3 w2) = current_config (dev3 w)" unfolding w2 w1 by (simp add: wr_ss_tx_def) (simp add: wr_ss_rx_def)
  ultimately show ?thesis using run res by auto
qed

text \<open>Setting up the endpoints: what it leaves alone beyond \<open>ss_keeps\<close>.\<close>

definition ss_init_keeps :: "'a usb3_world_scheme \<Rightarrow> 'a usb3_world_scheme \<Rightarrow> bool" where
  "ss_init_keeps w w' \<longleftrightarrow> ss_keeps w w' \<and> USB_CONTROL w' = USB_CONTROL w \<and> ep0_in_count w' = ep0_in_count w \<and>
     SetupReqCode w' = SetupReqCode w \<and> LINK_STATUS w' = LINK_STATUS w \<and> SS_UEP0_DMA w' = SS_UEP0_DMA w \<and>
     current_config (dev3 w') = current_config (dev3 w) \<and> dev_state (dev3 w') = dev_state (dev3 w)"

lemma init_keeps_trans: "ss_init_keeps w w1 \<Longrightarrow> ss_init_keeps w1 w2 \<Longrightarrow> ss_init_keeps w w2"
  using ss_keeps_trans [of w w1 w2] by (simp add: ss_init_keeps_def)

lemma init_keeps_refl [simp]: "ss_init_keeps w w"
  by (simp add: ss_init_keeps_def)

lemma init_keeps_writes [simp]:
  "ss_init_keeps w (wr_ss_tx n x w1) = ss_init_keeps w w1" "ss_init_keeps w (wr_ss_rx n x w1) = ss_init_keeps w w1"
  "ss_init_keeps w (wr_ss_tx_dma n a w1) = ss_init_keeps w w1" "ss_init_keeps w (wr_ss_rx_dma n a w1) = ss_init_keeps w w1"
  "ss_init_keeps w (set_prev_burst n b w1) = ss_init_keeps w w1" "ss_init_keeps w (w1\<lparr>UEP_CFG := x\<rparr>) = ss_init_keeps w w1"
  by (simp_all add: ss_init_keeps_def) (simp_all add: ss_writes)

lemma init_keeps_dev [simp]:
  "ss_init_keeps w (upd_dev3 (upd_ep_tx n (\<lambda>p. p\<lparr>ep_state := x\<rparr>)) w1) = ss_init_keeps w w1"
  "ss_init_keeps w (upd_dev3 (upd_ep_rx n (\<lambda>p. p\<lparr>ep_state := x\<rparr>)) w1) = ss_init_keeps w w1"
  by (simp_all add: ss_init_keeps_def) (simp_all add: ss_writes upd_ep_tx_def upd_ep_rx_def)

lemma fold_init_keeps: "(\<And>n v. ss_init_keeps v (f n v)) \<Longrightarrow> ss_init_keeps w (fold f ns w)"
  by (rule fold_invariant [where Q = "\<lambda>_. True"]) (auto intro: init_keeps_trans)

lemma clear_all_keeps:
  "ss_init_keeps w (fold (\<lambda>n v. usb30_out_clear_interrupt_all n (usb30_in_clear_interrupt_all n v)) ns w)"
  by (rule fold_init_keeps) (simp add: usb30_out_clear_interrupt_all_def usb30_in_clear_interrupt_all_def)

lemma init_endpoints_keeps: "ss_init_keeps (w\<lparr>SS_UEP0_DMA := rx0_buffer3 w\<rparr>) (usb30_init_endpoints w)"
proof -
  let ?w = "w\<lparr>UEP_CFG := EP_R_EN 0 OR EP_T_EN 0, SS_UEP0_DMA := rx0_buffer3 w\<rparr>"
  have "ss_init_keeps ?w (usb30_init_endpoints w)"
    unfolding usb30_init_endpoints_def
    by (rule fold_init_keeps) (simp add: usb30_init_rx_def usb30_init_tx_def usb30_in_set_def usb30_out_set_def Let_def)
  moreover have "ss_init_keeps (w\<lparr>SS_UEP0_DMA := rx0_buffer3 w\<rparr>) ?w" by (simp add: ss_init_keeps_def ss_keeps_def)
  ultimately show ?thesis by (rule init_keeps_trans [rotated])
qed

lemma ep0_dma_same: "SS_UEP0_DMA w = a \<Longrightarrow> w\<lparr>SS_UEP0_DMA := a\<rparr> = w"
  by (rule usb3_world.equality) simp_all

lemma init_endpoints_keeps_serving:
  assumes "SS_UEP0_DMA w = rx0_buffer3 w"
  shows "ss_init_keeps w (usb30_init_endpoints w)"
  using init_endpoints_keeps [of w] unfolding ep0_dma_same [OF assms] .

lemma init_keeps_dma: "ss_init_keeps w w' \<Longrightarrow> SS_UEP0_DMA w = rx0_buffer3 w \<Longrightarrow> SS_UEP0_DMA w' = rx0_buffer3 w'"
  using ss_keeps_buffer [of w w'] by (simp add: ss_init_keeps_def)

lemma reinit_keeps:
  assumes "SS_UEP0_DMA w = rx0_buffer3 w"
  shows "ss_init_keeps w (usb30_reinit_endpoints w)"
  unfolding usb30_reinit_endpoints_def
  by (rule init_keeps_trans [OF clear_all_keeps init_endpoints_keeps_serving [OF init_keeps_dma [OF clear_all_keeps assms]]])

text \<open>Settings the endpoints can be armed with.\<close>

definition ss_bursts_ok :: "'a usb3_world_scheme \<Rightarrow> bool" where
  "ss_bursts_ok w \<longleftrightarrow> (\<forall>n\<in>{1..7}. ep_rx_total_length w n = 0 \<and> ep_max_burst (ep_rx (endpoints (dev3 w)) n) \<le> 31)"

definition ss_armed :: "'a usb3_world_scheme \<Rightarrow> bool" where
  "ss_armed w \<longleftrightarrow> (\<forall>n\<in>{1..7}. ss_endpoint_armed n w)"

lemma ss_keeps_settings:
  assumes "ss_keeps w w'"
  shows "ep_max_burst (ep_rx (endpoints (dev3 w')) n) = ep_max_burst (ep_rx (endpoints (dev3 w)) n)"
    "ep_buffer (ep_rx (endpoints (dev3 w')) n) = ep_buffer (ep_rx (endpoints (dev3 w)) n)"
    "ep_buffer (ep_tx (endpoints (dev3 w')) n) = ep_buffer (ep_tx (endpoints (dev3 w)) n)"
    "endpoint_mask (dev3 w') = endpoint_mask (dev3 w)" "ep_rx_total_length w' = ep_rx_total_length w"
    "ep_max_packet_size (ep_rx (endpoints (dev3 w')) n) = ep_max_packet_size (ep_rx (endpoints (dev3 w)) n)"
    "rx_callback (endpoints (dev3 w')) = rx_callback (endpoints (dev3 w))" "usb_descriptors (dev3 w') = usb_descriptors (dev3 w)"
    "usb3_world.more w' = usb3_world.more w"
proof -
  have "ep_settings (endpoints (dev3 w')) = ep_settings (endpoints (dev3 w))" using assms unfolding ss_keeps_def by blast
  note e = ep_settings_eq [OF this]
  show "ep_max_burst (ep_rx (endpoints (dev3 w')) n) = ep_max_burst (ep_rx (endpoints (dev3 w)) n)"
    "ep_buffer (ep_rx (endpoints (dev3 w')) n) = ep_buffer (ep_rx (endpoints (dev3 w)) n)"
    "ep_buffer (ep_tx (endpoints (dev3 w')) n) = ep_buffer (ep_tx (endpoints (dev3 w)) n)"
    "ep_max_packet_size (ep_rx (endpoints (dev3 w')) n) = ep_max_packet_size (ep_rx (endpoints (dev3 w)) n)"
    "rx_callback (endpoints (dev3 w')) = rx_callback (endpoints (dev3 w))"
    by (rule e)+
  show "endpoint_mask (dev3 w') = endpoint_mask (dev3 w)" "ep_rx_total_length w' = ep_rx_total_length w"
    "usb_descriptors (dev3 w') = usb_descriptors (dev3 w)" "usb3_world.more w' = usb3_world.more w"
    using assms unfolding ss_keeps_def by blast+
qed

lemma bursts_kept: "ss_bursts_ok w \<Longrightarrow> ss_keeps w w' \<Longrightarrow> ss_bursts_ok w'"
  unfolding ss_bursts_ok_def by (metis ss_keeps_settings(1,5))

lemma armed_kept:
  assumes a: "ss_armed w" and k: "ss_keeps w w'" and v: "ss_views w' = ss_views w"
  shows "ss_armed w'"
  unfolding ss_armed_def
proof
  fix n :: nat assume n: "n \<in> {1..7}"
  have "ss_view n w' = ss_view n w" using fun_cong [OF v, of n] n by (simp add: ss_views_def)
  moreover have "ss_endpoint_armed n w" using a n by (simp add: ss_armed_def)
  ultimately show "ss_endpoint_armed n w'"
    unfolding ss_endpoint_armed_def ss_receiving_def ss_view_def Let_def ss_keeps_settings [OF k] by simp
qed

lemma upd_dev3_regs:
  "USB_CONTROL (upd_dev3 f w) = USB_CONTROL w" "ep0_in_count (upd_dev3 f w) = ep0_in_count w"
  "SetupReqCode (upd_dev3 f w) = SetupReqCode w" "LINK_STATUS (upd_dev3 f w) = LINK_STATUS w"
  by (simp_all add: ss_writes)

lemma configured_keeps:
  assumes "ss_keeps w i" and "ss_init_keeps i v"
  shows "ss_keeps w (upd_dev3 (\<lambda>u. u\<lparr>current_config := c\<rparr>) v)"
    "USB_CONTROL (upd_dev3 f v) = USB_CONTROL i" "ep0_in_count (upd_dev3 f v) = ep0_in_count i"
    "SetupReqCode (upd_dev3 f v) = SetupReqCode i"
  using assms ss_keeps_trans [of w i v] by (simp_all add: ss_init_keeps_def upd_dev3_regs)

lemma control_out3_configuration:
  assumes k: "usb_requests_ok k" and w: "ep0_serving3 w" and b: "ss_bursts_ok w"
  shows "\<exists>w'. usb3_control_out k e (set_configuration_req k c) w = Some w' \<and> ss_keeps w w' \<and> ss_armed w' \<and>
    ep0_in_count w' = ep0_in_count w \<and> USB_CONTROL w' = USB_CONTROL w \<and>
    dev_state (dev3 w') = (if c = 0 then dev_state (dev3 w) else CONFIGURED) \<and> current_config (dev3 w') = c"
proof -
  let ?req = "set_configuration_req k c"
  define s where "s = ss_setup_state ?req w"
  define r where "r = upd_dev3 (\<lambda>u. u\<lparr>current_config := c\<rparr>)
      (usb30_reinit_endpoints ((wr_ss_rx 0 0 s)\<lparr>SetupReqCode := USB_SET_CONFIGURATION k, SetupLen := wLength ?req\<rparr>))"
  have p: "ss_setup_pending ?req s" unfolding s_def by (rule setup_state_pending) (use w in \<open>simp add: ep0_serving3_def\<close>)
  have q: "bRequestType ?req = 0" "bRequest ?req = USB_SET_CONFIGURATION k" "c = bb1 (wValue ?req)"
    by (simp_all add: set_configuration_req_def)
  have ks: "ss_keeps w s" using setup_state_keeps [of w ?req] by (simp add: ss_in_keeps_def s_def)
  have bs: "\<forall>n\<in>{1..7}. ep_rx_total_length s n = 0 \<and> ep_max_burst (ep_rx (endpoints (dev3 s)) n) \<le> 31"
    using bursts_kept [OF b ks] by (simp add: ss_bursts_ok_def)
  from set_configuration_arms [OF k p q bs, of e, folded r_def] obtain w1 where
    w1: "w1 = wr_ss_rx 0 0x4010000 ((if c \<noteq> 0 then upd_dev3 (\<lambda>u. u\<lparr>dev_state := CONFIGURED\<rparr>) r else r)\<lparr>USB_FC_CTRL := 0x41\<rparr>)"
    and irq: "USBSS_IRQHandler k e s = Some w1" and arm: "ss_armed w1"
    and cfg: "current_config (dev3 w1) = c" "dev_state (dev3 w1) = (if c \<noteq> 0 then CONFIGURED else dev_state (dev3 s))"
    by (auto simp: ss_armed_def)
  let ?i = "(wr_ss_rx 0 0 s)\<lparr>SetupReqCode := USB_SET_CONFIGURATION k, SetupLen := wLength ?req\<rparr>"
  have dma: "SS_UEP0_DMA ?i = rx0_buffer3 ?i" using w by (simp add: ep0_serving3_def s_def wr_ss_rx_def)
  have "ss_keeps w ?i" "USB_CONTROL ?i = USB_CONTROL w" "ep0_in_count ?i = ep0_in_count w" "SetupReqCode ?i = USB_SET_CONFIGURATION k"
    using ks by (simp_all add: s_def) (simp_all add: wr_ss_rx_def)
  note kr = configured_keeps(1) [OF this(1) reinit_keeps [OF dma], of c, folded r_def]
    configured_keeps(2-4) [OF this(1) reinit_keeps [OF dma], where f = "\<lambda>u. u\<lparr>current_config := c\<rparr>", folded r_def, unfolded this(2-4)]
  have k1: "ss_keeps w w1" "USB_CONTROL w1 = USB_CONTROL w" "ep0_in_count w1 = ep0_in_count w" "SetupReqCode w1 = USB_SET_CONFIGURATION k"
    "SS_RX_CONTRL w1 0 = 0x4010000" "USB_FC_CTRL w1 = 0x41"
    unfolding w1 using kr by (cases "c = 0"; simp; simp add: ss_writes)+
  have ne: "USB_SET_CONFIGURATION k \<noteq> USB_SET_ADDRESS k" using k by (simp add: usb_requests_ok_def)
  let ?w2 = "wr_ss_tx 0 0 (wr_ss_rx 0 0 ((wr_ss_rx 0 (0x4010000 OR push_bit 29 1) w1)\<lparr>USB_STATUS := 1\<rparr>))"
  have "usb3_status k e w1 = Some ?w2"
    using status_stage [OF k1(5,6), of k e] k1(4) ne by (simp add: ep0_status_stage_handler_def wr_ss_rx_def)
  then have run: "usb3_control_out k e ?req w = Some ?w2"
    using irq by (simp add: usb3_control_out_def usb3_setup_irq [OF w] s_def)
  have k2: "ss_keeps w ?w2" "ss_keeps w1 ?w2" "ss_views ?w2 = ss_views w1" using k1(1) by simp_all
  have "ss_armed ?w2" by (rule armed_kept [OF arm k2(2,3)])
  then show ?thesis using run k2(1) k1(2,3) cfg by (auto simp: s_def wr_ss_tx_def wr_ss_rx_def)
qed

section \<open>The interface\<close>

definition usb3_request :: "usb_consts \<Rightarrow> ('a usb3_world_scheme) usb_env \<Rightarrow> (nat \<Rightarrow> u32) \<Rightarrow> enum_request \<Rightarrow> 'a usb3_world_scheme \<Rightarrow>
    ((nat \<times> u8 list) list \<times> 'a usb3_world_scheme) option" where
  "usb3_request k e hw r w = (case r of
     Read_descriptor v n j \<Rightarrow> usb3_control_in k e hw (get_descriptor_req k v n) j w
   | Set_address a \<Rightarrow> map_option (Pair []) (usb3_control_out k e (set_address_req k a) w)
   | Set_configuration c \<Rightarrow> map_option (Pair []) (usb3_control_out k e (set_configuration_req k c) w))"

text \<open>Packets of a control transfer, numbered from 0; the address is in the highest byte of the control register.\<close>

definition usb3_send :: "u8 list \<Rightarrow> (nat \<times> u8 list) list" where
  "usb3_send bs = enumerate 0 (bulk_packets 512 bs)"

definition usb3_abs :: "'a usb3_world_scheme \<Rightarrow> usb_abstract" where
  "usb3_abs w = \<lparr>abs_address = ucast (drop_bit 24 (USB_CONTROL w)), abs_state = dev_state (dev3 w), abs_config = current_config (dev3 w)\<rparr>"

fun request_ok3 :: "usb_consts \<Rightarrow> (u16 \<Rightarrow> u8 list) \<Rightarrow> enum_request \<Rightarrow> bool" where
  "request_ok3 k D (Read_descriptor v n j) \<longleftrightarrow>
     descr_selected k {USB_DESCR_TYP_DEVICE k, USB_DESCR_TYP_CONFIG k, USB_DESCR_TYP_BOS} D v \<and>
     j = (min (unat n) (length (D v)) - 1) div 512 + 1"
| "request_ok3 k D (Set_address a) \<longleftrightarrow> a \<le> 127"
| "request_ok3 k D (Set_configuration c) \<longleftrightarrow> True"

definition usb3_offers :: "usb_consts \<Rightarrow> (u16 \<Rightarrow> u8 list) \<Rightarrow> 'a usb3_world_scheme \<Rightarrow> bool" where
  "usb3_offers k D w \<longleftrightarrow> (\<forall>v. descr_selected k {USB_DESCR_TYP_DEVICE k, USB_DESCR_TYP_CONFIG k, USB_DESCR_TYP_BOS} D v \<longrightarrow>
     (\<exists>head. has_descr3 k v head (D v) w))"

lemma offers3_kept: "usb3_offers k D w \<Longrightarrow> ss_keeps w w' \<Longrightarrow> usb3_offers k D w'"
  unfolding usb3_offers_def by (meson has_descr3_kept)

text \<open>The backend, started as \<open>w0\<close>, takes requests; every endpoint of the mask is armed.\<close>

definition usb3_enumerating :: "usb_consts \<Rightarrow> (nat \<Rightarrow> u32) \<Rightarrow> (u16 \<Rightarrow> u8 list) \<Rightarrow> 'a usb3_world_scheme \<Rightarrow> 'a usb3_world_scheme \<Rightarrow> bool" where
  "usb3_enumerating k hw D w0 w \<longleftrightarrow> usb_requests_ok k \<and> (\<forall>i. hw i AND 0xe81efc00 = 0) \<and> ss_keeps w0 w \<and> ep0_serving3 w \<and>
     ep0_in_count w = 0 \<and> usb3_offers k D w \<and> ss_bursts_ok w \<and> ss_armed w"

lemma enumerating3_next:
  assumes "usb3_enumerating k hw D w0 w" and "ss_keeps w w'" and "ep0_in_count w' = 0" and "ss_armed w'"
  shows "usb3_enumerating k hw D w0 w'"
proof -
  from assms(1) have w: "ss_keeps w0 w" "ep0_serving3 w" "ss_bursts_ok w" "usb3_offers k D w" by (simp_all add: usb3_enumerating_def)
  have "usb3_offers k D w'" by (rule offers3_kept [OF w(4) assms(2)])
  then show ?thesis
    using assms ss_keeps_trans [OF w(1) assms(2)] serving3_kept [OF w(2) assms(2)] bursts_kept [OF w(3) assms(2)]
    by (simp add: usb3_enumerating_def)
qed

lemma control_mask: "(0x00ffffff :: u32) = mask 24"
  by (simp add: mask_eq_exp_minus_1)

lemma control_address: "ucast (drop_bit 24 ((x AND 0x00ffffff) OR push_bit 24 (ucast a) :: u32)) = (a :: u8)"
  unfolding control_mask by (rule bit_word_eqI) (auto simp: bit_simps)

text \<open>The effect of a request: the registers of the other endpoints are kept, unless it configures them anew.\<close>

lemma request3_effect:
  assumes k: "usb_requests_ok k" and hw: "\<forall>i. hw i AND 0xe81efc00 = 0" and w: "ep0_serving3 w" "ep0_in_count w = 0" "usb3_offers k D w"
    "ss_bursts_ok w" and r: "request_ok3 k D r"
  shows "\<exists>ps w'. usb3_request k e hw r w = Some (ps, w') \<and> (ps, usb3_abs w') = abs_request usb3_send D r (usb3_abs w) \<and>
    ss_keeps w w' \<and> ep0_in_count w' = 0 \<and> (case r of Set_configuration c \<Rightarrow> ss_armed w' | _ \<Rightarrow> ss_views w' = ss_views w)"
proof (cases r)
  case (Read_descriptor t n j)
  then obtain head where "has_descr3 k t head (D t) w" using w(3) r by (auto simp: usb3_offers_def)
  from control_in3_descriptor [OF k w(1,2) this hw, of j n e] Read_descriptor r obtain w' where w':
    "usb3_control_in k e hw (get_descriptor_req k t n) j w = Some (usb3_send (take (unat n) (D t)), w')" "ss_in_keeps w w'"
    "ep0_in_count w' = 0" by (auto simp: usb3_send_def)
  then have "ss_keeps w w'" "ss_views w' = ss_views w" "usb3_abs w' = usb3_abs w"
    by (simp_all add: ss_in_keeps_def usb3_abs_def ss_keeps_def)
  then show ?thesis using w' Read_descriptor by (simp add: usb3_request_def)
next
  case (Set_address a)
  from control_out3_address [OF k w(1), of e a] w(2) obtain w' where w': "usb3_control_out k e (set_address_req k a) w = Some w'"
    "ss_keeps w w'" "ss_views w' = ss_views w" "ep0_in_count w' = 0"
    "USB_CONTROL w' = (USB_CONTROL w AND 0x00ffffff) OR push_bit 24 (ucast a)" "dev_state (dev3 w') = ADDRESS"
    "current_config (dev3 w') = current_config (dev3 w)" by auto
  have "usb3_abs w' = (usb3_abs w)\<lparr>abs_address := a, abs_state := ADDRESS\<rparr>"
    unfolding usb3_abs_def w'(5-7) control_address by simp
  then show ?thesis using w'(1-4) Set_address by (simp add: usb3_request_def)
next
  case (Set_configuration c)
  from control_out3_configuration [OF k w(1,4), of e c] w(2) obtain w' where
    "usb3_control_out k e (set_configuration_req k c) w = Some w'" "ss_keeps w w'" "ss_armed w'" "ep0_in_count w' = 0"
    "USB_CONTROL w' = USB_CONTROL w" "dev_state (dev3 w') = (if c = 0 then dev_state (dev3 w) else CONFIGURED)"
    "current_config (dev3 w') = c" by auto
  then show ?thesis using Set_configuration by (simp add: usb3_request_def usb3_abs_def)
qed

interpretation usb3_enum: enumerable_device "usb3_request k e hw" usb3_send D usb3_abs "usb3_enumerating k hw D" "request_ok3 k D"
  for k e hw D
proof
  fix w0 w :: "'a usb3_world_scheme" and r
  assume w: "usb3_enumerating k hw D w0 w" and r: "request_ok3 k D r"
  then have u: "usb_requests_ok k" "\<forall>i. hw i AND 0xe81efc00 = 0" "ep0_serving3 w" "ep0_in_count w = 0" "usb3_offers k D w" "ss_bursts_ok w"
    and a: "ss_armed w" by (simp_all add: usb3_enumerating_def)
  from request3_effect [OF u r, of e] obtain ps w' where w': "usb3_request k e hw r w = Some (ps, w')"
    "(ps, usb3_abs w') = abs_request usb3_send D r (usb3_abs w)" "ss_keeps w w'" "ep0_in_count w' = 0"
    "case r of Set_configuration c \<Rightarrow> ss_armed w' | _ \<Rightarrow> ss_views w' = ss_views w" by blast
  have "ss_armed w'" using w'(5) armed_kept [OF a w'(3)] by (cases r) simp_all
  then show "\<exists>ps w'. usb3_request k e hw r w = Some (ps, w') \<and> (ps, usb3_abs w') = abs_request usb3_send D r (usb3_abs w) \<and>
    usb3_enumerating k hw D w0 w'"
    using w' enumerating3_next [OF w w'(3,4)] by blast
qed

section \<open>From the start of the controller to the Default state\<close>

definition usb3_link_event ::
    "usb_consts \<Rightarrow> ('a usb3_world_scheme) usb_env \<Rightarrow> u32 \<Rightarrow> 'a usb3_world_scheme \<Rightarrow> 'a usb3_world_scheme option" where
  "usb3_link_event k e flag w = LINK_IRQHandler k e (w\<lparr>LINK_INT_FLAG := flag\<rparr>)"

text \<open>The controller is switched on; the link detects the host, is trained and ready.\<close>

definition usb3_connect :: "usb_consts \<Rightarrow> ('a usb3_world_scheme) usb_env \<Rightarrow> bool \<Rightarrow> 'a usb3_world_scheme \<Rightarrow> 'a usb3_world_scheme option" where
  "usb3_connect k e fb w = do {
     w1 \<leftarrow> usb30_device_init e fb w;
     w2 \<leftarrow> usb3_link_event k e TERM_PRESENT_FLAG w1;
     w3 \<leftarrow> usb3_link_event k e LINK_TXEQ_FLAG w2;
     usb3_link_event k e LINK_RDY_FLAG w3 }"

lemma init_wait_done: "LINK_STATUS w AND 4 = 0 \<Longrightarrow> 0 < t \<Longrightarrow> usb30_init_wait e t w = Some w"
  by (cases t) simp_all

lemma powermode_done:
  "LINK_STATUS w AND 4 = 0 \<Longrightarrow> usb30_switch_powermode e m w = Some (w\<lparr>LINK_CTRL := (LINK_CTRL w AND 0xfffffffc) OR ucast m\<rparr>)"
  by (simp add: usb30_switch_powermode_def wait_link_done Let_def)

lemma flag_skipped: "LINK_INT_FLAG w AND flag = 0 \<Longrightarrow> on_link_flag flag f w = Some w"
  by (simp add: on_link_flag_def)

lemma flag_taken: "LINK_INT_FLAG w AND flag \<noteq> 0 \<Longrightarrow> on_link_flag flag f w = f w"
  by (simp add: on_link_flag_def)

lemma training_flags:
  assumes "flag \<in> {TERM_PRESENT_FLAG, LINK_TXEQ_FLAG, LINK_RDY_FLAG}"
  shows "flag AND flag \<noteq> 0" "flag AND LINK_Ux_EXIT_FLAG = 0" "flag AND LINK_INACT_FLAG = 0" "flag AND LINK_DISABLE_FLAG = 0"
    "flag AND LINK_RX_DET_FLAG = 0" "flag AND WARM_RESET_FLAG = 0" "flag AND HOT_RESET_FLAG = 0" "flag AND LINK_GO_U1_FLAG = 0"
    "flag AND LINK_GO_U2_FLAG = 0" "flag AND LINK_GO_U3_FLAG = 0"
    "flag \<noteq> TERM_PRESENT_FLAG \<Longrightarrow> flag AND TERM_PRESENT_FLAG = 0" "flag \<noteq> LINK_TXEQ_FLAG \<Longrightarrow> flag AND LINK_TXEQ_FLAG = 0"
    "flag \<noteq> LINK_RDY_FLAG \<Longrightarrow> flag AND LINK_RDY_FLAG = 0"
  using assms by (auto simp: link_flags)

lemma training_flags_differ: "TERM_PRESENT_FLAG \<noteq> LINK_TXEQ_FLAG" "TERM_PRESENT_FLAG \<noteq> LINK_RDY_FLAG" "LINK_TXEQ_FLAG \<noteq> LINK_RDY_FLAG"
  by (simp_all add: link_flags)

lemma no_flag_left:
  "LINK_INT_FLAG w = 0 \<Longrightarrow> (if LINK_INT_FLAG w AND LINK_DISABLE_FLAG \<noteq> 0 then link_disable k e w else Some (False, w)) = Some (False, w)"
  by simp

lemma term_present_event:
  assumes "link_env e" and "LINK_STATUS w AND 4 = 0" and "LINK_STATUS w AND LINK_PRESENT \<noteq> 0"
  shows "\<exists>x. usb3_link_event k e TERM_PRESENT_FLAG w = Some (w\<lparr>LINK_INT_FLAG := 0, LINK_CTRL := x\<rparr>)"
proof -
  let ?w = "w\<lparr>LINK_INT_FLAG := TERM_PRESENT_FLAG\<rparr>"
  note f = training_flags [of TERM_PRESENT_FLAG, simplified]
  have "link_int_flag_write e TERM_PRESENT_FLAG TERM_PRESENT_FLAG = 0" using assms(1) by (simp add: link_env_def)
  then obtain x where t: "link_term_present e ?w = Some (w\<lparr>LINK_INT_FLAG := 0, LINK_CTRL := x\<rparr>)"
    using assms(2,3) by (simp add: link_term_present_def write_link_flag_def powermode_done Let_def)
  have "LINK_IRQHandler k e ?w = Some (w\<lparr>LINK_INT_FLAG := 0, LINK_CTRL := x\<rparr>)"
    unfolding LINK_IRQHandler_def using f training_flags_differ by (simp add: flag_skipped flag_taken t)
  then show ?thesis by (auto simp: usb3_link_event_def)
qed

lemma txeq_event:
  assumes "link_env e" and "LINK_STATUS w AND 4 = 0"
  shows "\<exists>x. usb3_link_event k e LINK_TXEQ_FLAG w = Some (w\<lparr>LINK_INT_FLAG := 0, tx_lmp_port := 1, LINK_CTRL := x\<rparr>)"
proof -
  let ?w = "w\<lparr>LINK_INT_FLAG := LINK_TXEQ_FLAG\<rparr>"
  note f = training_flags [of LINK_TXEQ_FLAG, simplified]
  have "link_int_flag_write e LINK_TXEQ_FLAG LINK_TXEQ_FLAG = 0" using assms(1) by (simp add: link_env_def)
  then have t: "usb30_switch_powermode e POWER_MODE_0 (write_link_flag e LINK_TXEQ_FLAG (?w\<lparr>tx_lmp_port := 1\<rparr>)) =
      Some (w\<lparr>LINK_INT_FLAG := 0, tx_lmp_port := 1, LINK_CTRL := (LINK_CTRL w AND 0xfffffffc) OR ucast POWER_MODE_0\<rparr>)"
    using assms(2) by (simp add: write_link_flag_def powermode_done)
  have "LINK_IRQHandler k e ?w =
      Some (w\<lparr>LINK_INT_FLAG := 0, tx_lmp_port := 1, LINK_CTRL := (LINK_CTRL w AND 0xfffffffc) OR ucast POWER_MODE_0\<rparr>)"
    unfolding LINK_IRQHandler_def using f training_flags_differ t by (simp add: flag_skipped flag_taken)
  then show ?thesis by (auto simp: usb3_link_event_def)
qed

lemma rdy_event:
  assumes "link_env e" and "tx_lmp_port w \<noteq> 0"
  shows "usb3_link_event k e LINK_RDY_FLAG w =
    Some ((upd_dev3 (\<lambda>v. v\<lparr>dev_state := DEFAULT, dev_speed := USB30_SUPERSPEED\<rparr>)
      (w\<lparr>LINK_INT_FLAG := 0, LMP_TX_DATA0 := LINK_SPEED OR PORT_CAP OR LMP_HP, LMP_TX_DATA1 := UP_STREAM OR NUM_HP_BUF,
         LMP_TX_DATA2 := 0, tx_lmp_port := 0\<rparr>))\<lparr>link_sta := 3\<rparr>)" (is "_ = Some ?w'")
proof -
  let ?w = "w\<lparr>LINK_INT_FLAG := LINK_RDY_FLAG\<rparr>"
  note f = training_flags [of LINK_RDY_FLAG, simplified]
  have "link_int_flag_write e LINK_RDY_FLAG LINK_RDY_FLAG = 0" using assms(1) by (simp add: link_env_def)
  then have t: "link_rdy e ?w = Some ?w'" using assms(2) by (simp add: link_rdy_def write_link_flag_def Let_def)
  have z: "LINK_INT_FLAG ?w' = 0" by (simp add: ss_writes)
  have "LINK_IRQHandler k e ?w = Some ?w'"
    unfolding LINK_IRQHandler_def using f training_flags_differ z by (simp add: flag_skipped flag_taken t)
  then show ?thesis by (simp add: usb3_link_event_def)
qed

text \<open>Switching the controller on clears the endpoints' registers and arms them.\<close>

lemma clear_regs:
  "ss_init_keeps w (fold (\<lambda>i v. wr_ss_rx i 0 (wr_ss_tx i 0 v)) ns w)"
  "n \<in> set ns \<Longrightarrow> SS_TX_CONTRL (fold (\<lambda>i v. wr_ss_rx i 0 (wr_ss_tx i 0 v)) ns w) n = 0"
  "n \<in> set ns \<Longrightarrow> SS_RX_CONTRL (fold (\<lambda>i v. wr_ss_rx i 0 (wr_ss_tx i 0 v)) ns w) n = 0"
proof -
  let ?c = "\<lambda>i v :: 'a usb3_world_scheme. wr_ss_rx i 0 (wr_ss_tx i 0 v)"
  show "ss_init_keeps w (fold ?c ns w)" by (rule fold_init_keeps) simp
  have z: "SS_TX_CONTRL v n = 0 \<and> SS_RX_CONTRL v n = 0 \<Longrightarrow> SS_TX_CONTRL (fold ?c ms v) n = 0 \<and> SS_RX_CONTRL (fold ?c ms v) n = 0" for ms v
    by (induction ms arbitrary: v) (auto simp: ss_writes)
  have "n \<in> set ns \<Longrightarrow> SS_TX_CONTRL (fold ?c ns w) n = 0 \<and> SS_RX_CONTRL (fold ?c ns w) n = 0"
  proof (induction ns arbitrary: w)
    case (Cons m ms)
    then show ?case using z [of "?c m w" ms] by (cases "n = m") (simp_all add: ss_writes)
  qed simp
  then show "n \<in> set ns \<Longrightarrow> SS_TX_CONTRL (fold ?c ns w) n = 0" "n \<in> set ns \<Longrightarrow> SS_RX_CONTRL (fold ?c ns w) n = 0" by blast+
qed

lemma ss_keeps_link [simp]:
  "ss_keeps w (w1\<lparr>LINK_CFG := x\<rparr>) = ss_keeps w w1" "ss_keeps w (w1\<lparr>LINK_CTRL := x\<rparr>) = ss_keeps w w1"
  "ss_keeps w (w1\<lparr>LINK_INT_CTRL := x\<rparr>) = ss_keeps w w1" "ss_keeps w (write_usb_status e x w1) = ss_keeps w w1"
  by (simp_all add: ss_keeps_def write_usb_status_def)

lemma ss_keeps_dma: "ss_keeps w w1 \<Longrightarrow> a = rx0_buffer3 w \<Longrightarrow> ss_keeps w (w1\<lparr>SS_UEP0_DMA := a\<rparr>)"
  by (auto simp: ss_keeps_def)

lemma device_init_done:
  assumes e: "link_env e" and l: "LINK_STATUS w AND 4 = 0" and b: "ss_bursts_ok w"
  shows "\<exists>w'. usb30_device_init e fb w = Some w' \<and> ss_keeps w w' \<and> SS_UEP0_DMA w' = rx0_buffer3 w \<and> ss_armed w' \<and>
    ep0_in_count w' = ep0_in_count w \<and> USB_CONTROL w' = 0x30021 \<and> LINK_STATUS w' = LINK_STATUS w \<and>
    current_config (dev3 w') = current_config (dev3 w)"
proof -
  let ?w = "w\<lparr>usb2_fallback_enabled := fb, LINK_CFG := 0x140, LINK_CTRL := 0x12\<rparr>"
  define c where "c = fold (\<lambda>i v. wr_ss_rx i 0 (wr_ss_tx i 0 v)) [0, 1, 2, 3, 4, 5, 6, 7] ?w"
  let ?v = "(write_usb_status e 0x13 c)\<lparr>USB_CONTROL := 0x30021, UEP_CFG := 0, LINK_CFG := LINK_CFG c OR 2, LINK_INT_CTRL := 0x10bc7d, LINK_CTRL := 2\<rparr>"
  have "usb30_init_wait e 0x4c4b41 ?w = Some ?w" by (rule init_wait_done) (use l in simp_all)
  then have run: "usb30_device_init e fb w = Some (usb30_init_endpoints ?v)"
    using e unfolding usb30_device_init_def Let_def c_def by (simp add: link_env_def write_usb_status_def)
  have "ss_keeps w ?w" by (simp add: ss_keeps_def)
  moreover have c: "ss_init_keeps ?w c" unfolding c_def by (rule clear_regs)
  ultimately have "ss_keeps w c" using ss_keeps_trans [of w ?w c] by (simp add: ss_init_keeps_def)
  then have kv': "ss_keeps w ?v" by simp
  then have kv: "ss_keeps w (?v\<lparr>SS_UEP0_DMA := rx0_buffer3 ?v\<rparr>)" by (rule ss_keeps_dma [OF _ ss_keeps_buffer [OF kv']])
  have z: "SS_TX_CONTRL ?v n = 0" "SS_RX_CONTRL ?v n = 0" if "n \<in> {1..7}" for n
  proof -
    have "n \<in> set [0, 1, 2, 3, 4, 5, 6, 7]" using that by auto
    from clear_regs(2,3) [OF this, of ?w] show "SS_TX_CONTRL ?v n = 0" "SS_RX_CONTRL ?v n = 0"
      unfolding c_def [symmetric] by (simp_all add: write_usb_status_def)
  qed
  have bv: "ss_bursts_ok ?v" by (rule bursts_kept [OF b kv'])
  have "ss_armed (usb30_init_endpoints ?v)"
    unfolding ss_armed_def using bv z by (intro ballI init_endpoints_armed) (simp_all add: ss_bursts_ok_def)
  moreover have i: "ss_init_keeps (?v\<lparr>SS_UEP0_DMA := rx0_buffer3 ?v\<rparr>) (usb30_init_endpoints ?v)" by (rule init_endpoints_keeps)
  then have "ss_keeps w (usb30_init_endpoints ?v)" using ss_keeps_trans [OF kv] by (simp add: ss_init_keeps_def)
  moreover have "rx0_buffer3 ?v = rx0_buffer3 w" by (rule ss_keeps_buffer [OF kv'])
  ultimately show ?thesis
    using run i c unfolding ss_init_keeps_def by (simp add: write_usb_status_def)
qed

lemma connect_enumerating:
  assumes k: "usb_requests_ok k" and e: "link_env e" and hw: "\<forall>i. hw i AND 0xe81efc00 = 0"
    and l: "LINK_STATUS w AND 4 = 0" "LINK_STATUS w AND LINK_PRESENT \<noteq> 0"
    and s: "rx0_buffer3 w \<noteq> 0" "ep0_in_count w = 0" "ss_bursts_ok w" "usb3_offers k D w"
  shows "\<exists>w'. usb3_connect k e fb w = Some w' \<and> usb3_enumerating k hw D w w' \<and> dev_speed (dev3 w') = USB30_SUPERSPEED \<and>
    usb3_abs w' = \<lparr>abs_address = 0, abs_state = DEFAULT, abs_config = current_config (dev3 w)\<rparr>"
proof -
  from device_init_done [OF e l(1) s(3), of fb] obtain w1 where w1: "usb30_device_init e fb w = Some w1" "ss_keeps w w1"
    "SS_UEP0_DMA w1 = rx0_buffer3 w" "ss_armed w1" "ep0_in_count w1 = 0" "USB_CONTROL w1 = 0x30021"
    "LINK_STATUS w1 = LINK_STATUS w" "current_config (dev3 w1) = current_config (dev3 w)" using s(2) by auto
  from term_present_event [OF e, of w1 k] l w1(7) obtain x where
    w2: "usb3_link_event k e TERM_PRESENT_FLAG w1 = Some (w1\<lparr>LINK_INT_FLAG := 0, LINK_CTRL := x\<rparr>)" by auto
  from txeq_event [OF e, of "w1\<lparr>LINK_INT_FLAG := 0, LINK_CTRL := x\<rparr>" k] l(1) w1(7) obtain y where
    w3: "usb3_link_event k e LINK_TXEQ_FLAG (w1\<lparr>LINK_INT_FLAG := 0, LINK_CTRL := x\<rparr>) =
      Some (w1\<lparr>LINK_INT_FLAG := 0, tx_lmp_port := 1, LINK_CTRL := y\<rparr>)" by auto
  let ?w = "(upd_dev3 (\<lambda>v. v\<lparr>dev_state := DEFAULT, dev_speed := USB30_SUPERSPEED\<rparr>)
      (w1\<lparr>LINK_CTRL := y, LINK_INT_FLAG := 0, LMP_TX_DATA0 := LINK_SPEED OR PORT_CAP OR LMP_HP, LMP_TX_DATA1 := UP_STREAM OR NUM_HP_BUF,
         LMP_TX_DATA2 := 0, tx_lmp_port := 0\<rparr>))\<lparr>link_sta := 3\<rparr>"
  have "usb3_link_event k e LINK_RDY_FLAG (w1\<lparr>LINK_INT_FLAG := 0, tx_lmp_port := 1, LINK_CTRL := y\<rparr>) = Some ?w"
    by (subst rdy_event [OF e]) simp_all
  then have run: "usb3_connect k e fb w = Some ?w" by (simp add: usb3_connect_def w1(1) w2 w3)
  have k1: "ss_keeps w1 ?w" "ss_views ?w = ss_views w1"
    by (simp add: ss_keeps_def ss_writes) (auto simp: ss_views_def ss_view_def ss_writes)
  have kw: "ss_keeps w ?w" by (rule ss_keeps_trans [OF w1(2) k1(1)])
  have "ss_armed ?w" by (rule armed_kept [OF w1(4) k1])
  moreover have "ep0_serving3 ?w"
    using s(1) w1(3) ss_keeps_buffer [OF kw] by (simp add: ep0_serving3_def) (simp add: ss_writes)
  moreover have "usb3_offers k D ?w" by (rule offers3_kept [OF s(4) kw])
  moreover have "ss_bursts_ok ?w" by (rule bursts_kept [OF s(3) kw])
  moreover have "ep0_in_count ?w = 0" using w1(5) by (simp add: ss_writes)
  moreover have "usb3_abs ?w = \<lparr>abs_address = 0, abs_state = DEFAULT, abs_config = current_config (dev3 w)\<rparr>"
    using w1(6,8) by (simp add: usb3_abs_def ss_writes)
  moreover have "dev_speed (dev3 ?w) = USB30_SUPERSPEED" by (simp add: ss_writes)
  ultimately show ?thesis using run k hw kw unfolding usb3_enumerating_def by blast
qed

text \<open>
  C2. Enumeration over USB 3.0 refines the device of the USB specification, the same that USB 2.0 refines: from
  \<open>usb30_device_init\<close>, the link interrupts bring a device whose host is present to the Default state at SuperSpeed, and then, on every
  script of \<open>GET_DESCRIPTOR\<close> (device, configuration, BOS, and every string in its table, of any \<open>wLength\<close>),
  \<open>SET_ADDRESS\<close> and \<open>SET_CONFIGURATION\<close> transfers that \<open>usb_spec\<close> defines, starting from the default state with no
  configuration, and that avoids address 0 and the return to configuration 0 (\<open>conforming\<close>), the interrupts of the backend
  answer as the specification says: every descriptor read returns exactly the requested prefix in numbered packets
  of 512 bytes, the controller's address, the device's state and its configuration (where it has one) are those of the
  specification, and at the end exactly the endpoints of the mask are armed, each with its own settings.
\<close>

theorem usb3_enumeration_refines:
  assumes "usb_requests_ok k" and "link_env e" and "\<forall>i. hw i AND 0xe81efc00 = 0"
    and "LINK_STATUS w AND 4 = 0" and "LINK_STATUS w AND LINK_PRESENT \<noteq> 0"
    and "rx0_buffer3 w \<noteq> 0" and "ep0_in_count w = 0" and "ss_bursts_ok w" and "usb3_offers k D w"
    and "run_requests (spec_step (request_ok3 k D) usb3_send D valid) rs usb_default = Some (pss, s)"
  shows "\<exists>w1 w2. usb3_connect k e fb w = Some w1 \<and> dev_speed (dev3 w1) = USB30_SUPERSPEED \<and>
    run_requests (usb3_request k e hw) rs w1 = Some (pss, w2) \<and> usb_view (usb3_abs w2) = s \<and>
    (\<forall>n\<in>{1..7}. ss_endpoint_armed n w2)"
proof -
  from connect_enumerating [OF assms(1-9), of fb] obtain w1 where w1: "usb3_connect k e fb w = Some w1"
    "usb3_enumerating k hw D w w1" "dev_speed (dev3 w1) = USB30_SUPERSPEED"
    "usb3_abs w1 = \<lparr>abs_address = 0, abs_state = DEFAULT, abs_config = current_config (dev3 w)\<rparr>" by blast
  have "usb_view (usb3_abs w1) = usb_default" by (simp add: w1(4) usb_view_def usb_default_def)
  from usb3_enum.requests_conform [OF w1(2), unfolded this, OF assms(10), of e] obtain w2 where
    "run_requests (usb3_request k e hw) rs w1 = Some (pss, w2)" "usb_view (usb3_abs w2) = s"
    "usb3_enumerating k hw D w w2" by blast
  then show ?thesis using w1(1,3) by (auto simp: usb3_enumerating_def ss_armed_def)
qed

text \<open>A device with a receiving and a sending endpoint 1, a configuration descriptor of two packets, and a list of
  languages as its one string.\<close>

definition demo_descr3 :: "u16 \<Rightarrow> u8 list" where
  "demo_descr3 v = (if v = 0x100 then [18, 1, 0, 3, 0, 0, 0, 9, 0xc0, 0x16, 0xd9, 0x27, 1, 0, 0, 1, 0, 1]
     else if v = 0x200 then [9, 2, 2, 2, 1, 1, 0, 0xa0, 0x32] @ replicate 505 0 else if v = 0xf00 then [5, 0xf, 5, 0, 0]
     else if v = 0x300 then [4, 3, 9, 4] else [])"

definition demo_ss_of :: "(u16 \<Rightarrow> u8 list) \<Rightarrow> usb3_world" where
  "demo_ss_of D = demo_usb3\<lparr>usb_memory := mem_write 0x4000 (D 0xf00) (mem_write 0x3000 (le32 0x2000)
       (mem_write 0x2000 (D 0x200) (mem_write 0x1000 (D 0x100) (mem_write 0x5000 (le32 0x6000) (mem_write 0x6000 (D 0x300) (\<lambda>_. 0)))))),
     usb_devices := (\<lambda>d. (upd_ep_rx 1 (\<lambda>p. p\<lparr>ep_max_burst := 4\<rparr>) (usb_devices demo_usb3 d))\<lparr>endpoint_mask := 3, usb_descriptors :=
        (usb_descriptors (usb_devices demo_usb3 d))\<lparr>usb3_device_descr := 0x1000, usb3_device_config_descrs := 0x3000,
          usb_string_descrs := 0x5000, usb_bos_descr := 0x4000\<rparr>\<rparr>),
     LINK_STATUS := 1\<rparr>"

lemma demo_ss_fields:
  "usb3_backend_current_device (demo_ss_of D) = Usb_device_0" "ep_buffer (ep_rx (endpoints (usb_devices (demo_ss_of D) Usb_device_0)) 0) = 0x20020000"
  "ep0_in_count (demo_ss_of D) = 0" "LINK_STATUS (demo_ss_of D) = 1" "current_config (usb_devices (demo_ss_of D) Usb_device_0) = 0"
  "usb3_device_descr (usb_descriptors (usb_devices (demo_ss_of D) Usb_device_0)) = 0x1000"
  "usb3_device_config_descrs (usb_descriptors (usb_devices (demo_ss_of D) Usb_device_0)) = 0x3000"
  "usb_bos_descr (usb_descriptors (usb_devices (demo_ss_of D) Usb_device_0)) = 0x4000"
  "usb_string_descrs (usb_descriptors (usb_devices (demo_ss_of D) Usb_device_0)) = 0x5000"
  by (simp_all add: demo_ss_of_def demo_usb3_def usb2_world.defs demo_usb2_def upd_ep_rx_def usb_device_initial_def)

lemma demo_ss_bursts: "ss_bursts_ok (demo_ss_of D)"
  by (simp add: ss_bursts_ok_def demo_ss_of_def demo_usb3_def usb2_world.defs demo_usb2_def upd_ep_rx_def usb_device_initial_def
      usb_endpoint_zero_def)

text \<open>Descriptors the demo device can offer.\<close>

definition demo_table :: "(u16 \<Rightarrow> u8 list) \<Rightarrow> bool" where
  "demo_table D \<longleftrightarrow> length (D 0x100) = 18 \<and> length (D 0x200) \<le> 0x1000 \<and> length (D 0xf00) \<le> 0x1000 \<and>
     announces 2 (D 0x200) \<and> announces 2 (D 0xf00) \<and> D 0x300 \<noteq> [] \<and> length (D 0x300) < 256 \<and> hd (D 0x300) = of_nat (length (D 0x300)) \<and>
     (\<forall>v. D v \<noteq> [] \<longrightarrow> v \<in> {0x100, 0x200, 0x300, 0xf00})"

lemma apart_below: "unat a + n \<le> unat b \<Longrightarrow> unat b + k \<le> 2 ^ 32 \<Longrightarrow> apart a n b k"
  by (rule apart_after [where d = "unat b - unat a"]) (simp_all add: word_unat_eq_iff unat_word_ariths of_nat_diff)

lemma apart_above: "unat b + k \<le> unat a \<Longrightarrow> unat a + n \<le> 2 ^ 32 \<Longrightarrow> apart a n b k"
  unfolding apart_def
proof (intro allI impI)
  fix i assume u: "unat b + k \<le> unat a" "unat a + n \<le> 2 ^ 32" and i: "i < n"
  then have "unat (of_nat i :: u32) = i" by (simp add: unsigned_of_nat take_bit_nat_eq_self)
  then have s: "unat (a + of_nat i) = unat a + i" using u i by (subst unat_add_lem [THEN iffD1]) simp_all
  then have "unat (a + of_nat i - b) = unat a + i - unat b" using u by (subst unat_sub) (simp_all add: word_le_nat_alt)
  then show "k \<le> unat (a + of_nat i - b)" using u by simp
qed

lemma demo_ss_memory:
  assumes "demo_table D"
  shows "mem_bytes (usb_memory (demo_ss_of D)) 0x1000 18 = D 0x100" "mem_bytes (usb_memory (demo_ss_of D)) 0x2000 (length (D 0x200)) = D 0x200"
    "load_u32 (usb_memory (demo_ss_of D)) 0x3000 = 0x2000" "mem_bytes (usb_memory (demo_ss_of D)) 0x4000 (length (D 0xf00)) = D 0xf00"
    "load_u32 (usb_memory (demo_ss_of D)) 0x5000 = 0x6000" "mem_bytes (usb_memory (demo_ss_of D)) 0x6000 (length (D 0x300)) = D 0x300"
proof -
  have m: "usb_memory (demo_ss_of D) = mem_write 0x4000 (D 0xf00) (mem_write 0x3000 (le32 0x2000)
       (mem_write 0x2000 (D 0x200) (mem_write 0x1000 (D 0x100) (mem_write 0x5000 (le32 0x6000) (mem_write 0x6000 (D 0x300) (\<lambda>_. 0))))))"
    by (simp add: demo_ss_of_def)
  have w: "mem_bytes (mem_write b bs m) a n = mem_bytes m a n"
    if "unat a + n \<le> unat b \<and> unat b + length bs \<le> 0x10000 \<or> unat b + length bs \<le> unat a \<and> unat a + n \<le> 0x10000" for b bs m a n
    by (rule same_outside_bytes [OF same_outside_write [OF order.refl]]) (use that apart_below [of a n b] apart_above [of b "length bs" a n] in fastforce)
  have l: "length (D 0x100) = 18" "length (D 0x200) \<le> 0x1000" "length (D 0xf00) \<le> 0x1000" "length (D 0x300) \<le> 0x1000"
    using assms by (simp_all add: demo_table_def)
  have l4: "length (le32 x) = 4" for x by (simp add: le32_def)
  show "mem_bytes (usb_memory (demo_ss_of D)) 0x1000 18 = D 0x100"
    unfolding m using l by (simp add: w l4 mem_bytes_write)
  show "mem_bytes (usb_memory (demo_ss_of D)) 0x2000 (length (D 0x200)) = D 0x200"
    "mem_bytes (usb_memory (demo_ss_of D)) 0x4000 (length (D 0xf00)) = D 0xf00"
    "mem_bytes (usb_memory (demo_ss_of D)) 0x6000 (length (D 0x300)) = D 0x300"
    unfolding m using l by (simp_all add: w l4 mem_bytes_write)
  show "load_u32 (usb_memory (demo_ss_of D)) 0x3000 = 0x2000" "load_u32 (usb_memory (demo_ss_of D)) 0x5000 = 0x6000"
    unfolding m load_u32_bytes using l by (simp_all add: w l4 mem_bytes_write of_le32_le32)
qed

lemma demo_types: "USB_DESCR_TYP_DEVICE demo_consts = 1" "USB_DESCR_TYP_CONFIG demo_consts = 2" "USB_DESCR_TYP_BOS = 0xf"
  "sizeof_USB_DEV_DESCR demo_consts = 18" "off_CFG_wTotalLength demo_consts = 2" "USB_DESCR_TYP_STRING demo_consts = 3"
  by (simp_all add: demo_consts_def USB_DESCR_TYP_BOS_def)

lemma demo_selectors: "bb0 0x100 = 1" "bb0 0x200 = 2" "bb0 0x300 = 3" "bb0 0xf00 = 0xf"
  "bb1 0x100 = 0" "bb1 0x200 = 0" "bb1 0x300 = 0" "bb1 0xf00 = 0"
  by (simp_all add: bb0_def bb1_def)

lemma demo_selected3:
  assumes "\<forall>v. D v \<noteq> [] \<longrightarrow> v \<in> {0x100, 0x200, 0x300, 0xf00}" and "descr_selected demo_consts {1, 2, 0xf} D v"
  shows "v \<in> {0x100, 0x200, 0x300, 0xf00}"
proof -
  have "v = push_bit 8 (ucast (bb0 v)) OR ucast (bb1 v)" by (rule bb_join)
  then show ?thesis using assms by (auto simp: descr_selected_def)
qed

lemma demo_ss_descrs:
  assumes "demo_table D"
  shows "has_descr3 demo_consts 0x100 0x1000 (D 0x100) (demo_ss_of D)" "has_descr3 demo_consts 0x200 0x2000 (D 0x200) (demo_ss_of D)"
    "has_descr3 demo_consts 0xf00 0x4000 (D 0xf00) (demo_ss_of D)" "has_descr3 demo_consts 0x300 0x6000 (D 0x300) (demo_ss_of D)"
proof -
  note t = demo_types demo_selectors
  note m = demo_ss_memory [OF assms]
  note d = assms [unfolded demo_table_def]
  have ap: "apart a n (0x20020000 :: u32) 512" if "unat a + n \<le> 0x20020000" for a n
    by (rule apart_below) (use that in simp_all)
  show "has_descr3 demo_consts 0x100 0x1000 (D 0x100) (demo_ss_of D)"
    unfolding has_descr3_def Let_def demo_ss_fields t using m d ap by simp
  show "has_descr3 demo_consts 0x200 0x2000 (D 0x200) (demo_ss_of D)"
    unfolding has_descr3_def Let_def demo_ss_fields t using m d ap by simp
  show "has_descr3 demo_consts 0xf00 0x4000 (D 0xf00) (demo_ss_of D)"
    unfolding has_descr3_def Let_def demo_ss_fields t using m d ap by simp
  show "has_descr3 demo_consts 0x300 0x6000 (D 0x300) (demo_ss_of D)"
    unfolding has_descr3_def Let_def demo_ss_fields t using m d ap by simp
qed

lemma demo_ss_offers: "demo_table D \<Longrightarrow> usb3_offers demo_consts D (demo_ss_of D)"
  using demo_ss_descrs [of D] demo_selected3 [of D] unfolding usb3_offers_def demo_types demo_table_def by blast

lemma demo_ss_link: "LINK_STATUS (demo_ss_of D) AND 4 = 0" "LINK_STATUS (demo_ss_of D) AND LINK_PRESENT \<noteq> 0" "rx0_buffer3 (demo_ss_of D) \<noteq> 0"
  unfolding demo_ss_fields by (simp_all add: LINK_PRESENT_def)

lemma demo_descr3_simps: "length (demo_descr3 0x100) = 18" "length (demo_descr3 0x200) = 514" "length (demo_descr3 0xf00) = 5"
  "length (demo_descr3 0x300) = 4" "demo_descr3 0x300 \<noteq> []"
  by (simp_all add: demo_descr3_def)

lemma demo_descr3_table: "demo_table demo_descr3"
proof -
  have "announces 2 (demo_descr3 0x200)" "announces 2 (demo_descr3 0xf00)"
    by (simp_all add: announces_def demo_descr3_simps) (simp_all add: demo_descr3_def)
  moreover have "hd (demo_descr3 0x300) = of_nat (length (demo_descr3 0x300))" "demo_descr3 v \<noteq> [] \<longrightarrow> v \<in> {0x100, 0x200, 0x300, 0xf00}" for v
    by (auto simp: demo_descr3_def)
  ultimately show ?thesis unfolding demo_table_def by (simp add: demo_descr3_simps)
qed

definition demo_ss :: usb3_world where "demo_ss = demo_ss_of demo_descr3"

lemma demo_ss_ok:
  "LINK_STATUS demo_ss AND 4 = 0" "LINK_STATUS demo_ss AND LINK_PRESENT \<noteq> 0" "rx0_buffer3 demo_ss \<noteq> 0" "ep0_in_count demo_ss = 0"
  "ss_bursts_ok demo_ss" "usb3_offers demo_consts demo_descr3 demo_ss" "current_config (dev3 demo_ss) = 0"
proof -
  show "usb3_offers demo_consts demo_descr3 demo_ss" unfolding demo_ss_def by (rule demo_ss_offers [OF demo_descr3_table])
  show "LINK_STATUS demo_ss AND 4 = 0" "LINK_STATUS demo_ss AND LINK_PRESENT \<noteq> 0" "rx0_buffer3 demo_ss \<noteq> 0" "ep0_in_count demo_ss = 0"
    "ss_bursts_ok demo_ss" "current_config (dev3 demo_ss) = 0"
    unfolding demo_ss_def demo_ss_fields(1,3,5) by (simp_all add: demo_ss_link [unfolded demo_ss_fields(1)] demo_ss_bursts)
qed

definition demo_script3 :: "enum_request list" where
  "demo_script3 = [Read_descriptor 0x100 64 1, Set_address 7, Read_descriptor 0x200 1024 2, Read_descriptor 0x300 2 1,
     Read_descriptor 0xf00 64 1, Set_configuration 1]"

lemma demo_link_env_ok: "link_env demo_link_env"
  by (simp add: link_env_def demo_link_env_def demo_env_def)

theorem usb3_enumeration_refines_witness:
  "\<forall>fb. \<exists>w1 w2. usb3_connect demo_consts demo_link_env fb demo_ss = Some w1 \<and>
    run_requests (usb3_request demo_consts demo_link_env (\<lambda>_. 0)) demo_script3 w1 = Some
      ([[(0, [18, 1, 0, 3, 0, 0, 0, 9, 0xc0, 0x16, 0xd9, 0x27, 1, 0, 0, 1, 0, 1])], [],
        [(0, [9, 2, 2, 2, 1, 1, 0, 0xa0, 0x32] @ replicate 503 0), (1, [0, 0])], [(0, [4, 3])], [(0, [5, 0xf, 5, 0, 0])], []], w2) \<and>
    usb_view (usb3_abs w2) = \<lparr>abs_address = 7, abs_state = CONFIGURED, abs_config = 1\<rparr> \<and> ss_endpoint_armed 1 w2"
proof
  fix fb
  note t = demo_types demo_selectors
  have s: "usb3_send (demo_descr3 0x100) = [(0, [18, 1, 0, 3, 0, 0, 0, 9, 0xc0, 0x16, 0xd9, 0x27, 1, 0, 0, 1, 0, 1])]"
    "usb3_send (demo_descr3 0x200) = [(0, [9, 2, 2, 2, 1, 1, 0, 0xa0, 0x32] @ replicate 503 0), (1, [0, 0])]"
    "usb3_send (demo_descr3 0xf00) = [(0, [5, 0xf, 5, 0, 0])]" "usb3_send [4, 3] = [(0, [4, 3])]"
    by (simp_all add: usb3_send_def demo_descr3_def bulk_packets_short bulk_packets_more) (simp add: numeral_eq_Suc)
  have d: "take 64 (demo_descr3 0x100) = demo_descr3 0x100" "take 1024 (demo_descr3 0x200) = demo_descr3 0x200"
    "take 64 (demo_descr3 0xf00) = demo_descr3 0xf00" "take 2 (demo_descr3 0x300) = [4, 3]"
    by (simp_all add: demo_descr3_simps) (simp add: demo_descr3_def)
  have "run_requests (spec_step (request_ok3 demo_consts demo_descr3) usb3_send demo_descr3 {1}) demo_script3 usb_default = Some
      ([[(0, [18, 1, 0, 3, 0, 0, 0, 9, 0xc0, 0x16, 0xd9, 0x27, 1, 0, 0, 1, 0, 1])], [],
        [(0, [9, 2, 2, 2, 1, 1, 0, 0xa0, 0x32] @ replicate 503 0), (1, [0, 0])], [(0, [4, 3])], [(0, [5, 0xf, 5, 0, 0])], []],
       \<lparr>abs_address = 7, abs_state = CONFIGURED, abs_config = 1\<rparr>)"
    by (simp add: demo_script3_def spec_step_def conforming_def descr_selected_def usb_default_def demo_descr3_simps t s d del: take_all_iff)
  from usb3_enumeration_refines [OF demo_consts_ok(1) demo_link_env_ok _ demo_ss_ok(1-6) this, of "\<lambda>_. 0" fb]
  show "\<exists>w1 w2. usb3_connect demo_consts demo_link_env fb demo_ss = Some w1 \<and>
    run_requests (usb3_request demo_consts demo_link_env (\<lambda>_. 0)) demo_script3 w1 = Some
      ([[(0, [18, 1, 0, 3, 0, 0, 0, 9, 0xc0, 0x16, 0xd9, 0x27, 1, 0, 0, 1, 0, 1])], [],
        [(0, [9, 2, 2, 2, 1, 1, 0, 0xa0, 0x32] @ replicate 503 0), (1, [0, 0])], [(0, [4, 3])], [(0, [5, 0xf, 5, 0, 0])], []], w2) \<and>
    usb_view (usb3_abs w2) = \<lparr>abs_address = 7, abs_state = CONFIGURED, abs_config = 1\<rparr> \<and> ss_endpoint_armed 1 w2"
    by (force simp del: run_requests.simps)
qed

section \<open>A transfer the host gives up\<close>

text \<open>One packet of a longer read, with \<open>i\<close> packets counted already.\<close>

lemma read_first_packet:
  assumes k: "usb_requests_ok k" and w: "ep0_serving3 w" and d: "has_descr3 k t head bs w" and c: "c AND 0xe81efc00 = 0"
    and i: "ep0_in_count w = of_nat i" "i < 31" and n: "512 < min (unat n) (length bs)"
  shows "\<exists>w1 w2. usb3_setup k e (get_descriptor_req k t n) w = Some w1 \<and> ss_ep0_packets k e [c] w1 = Some ([(0, take 512 bs)], w2) \<and>
    ss_ep0_token w2 = Some (Suc i, take 512 (drop 512 (take (unat n) bs))) \<and> ss_keeps w w2 \<and> ep0_in_count w2 = of_nat (Suc i)"
proof -
  let ?req = "get_descriptor_req k t n"
  let ?s = "ss_setup_state ?req w"
  define N where "N = min n (of_nat (length bs))"
  note p = descriptor_pending [OF k w d, of n, folded N_def]
  have r: "bRequestType ?req = 0x80" "bRequest ?req = USB_GET_DESCRIPTOR k" by (simp_all add: get_descriptor_req_def)
  have i': "ep0_in_count ?s = of_nat i" using i(1) by simp
  have l: "min N 512 = 512" "unat (N - 512) = unat N - 512" "N - 512 \<noteq> 0" using n p(1)
    by (simp_all add: min_def word_le_nat_alt unat_sub word_unat_eq_iff)
  from get_descriptor_armed [OF k p(3) r p(4,5,6,7) i', of e] obtain w0 w1 where
    w1: "USBSS_IRQHandler k e ?s = Some w1" "w1 = wr_ss_tx 0 (ss_ep0_word 0 512) (w0\<lparr>USB_FC_CTRL := 0x41\<rparr>)"
      "usb30_ep0_next_packet ((wr_ss_rx 0 0 ?s)\<lparr>SetupReqCode := bRequest ?req, SetupLen := N, pDescr := head\<rparr>) = Some (512, w0)"
    and s1: "ss_ep0_sending (usb_memory ?s) (head + 512) (N - 512) i 0 (mem_bytes (usb_memory ?s) head 512) w1"
    unfolding l(1) by auto
  from ss_ep0_next [OF s1 l(3) i(2) c, of k e] obtain w2 where
    w2: "USBSS_IRQHandler k e ((wr_ss_tx 0 c w1)\<lparr>USB_STATUS := 0x1001\<rparr>) = Some w2"
    and s2: "ss_ep0_sending (usb_memory ?s) (head + 512 + ucast (min (N - 512) 512)) (N - 512 - min (N - 512) 512) (Suc i) (Suc i)
       (mem_bytes (usb_memory ?s) (head + 512) (unat (min (N - 512) 512))) w2" by blast
  have "mem_bytes (usb_memory ?s) head 512 = take 512 (take (unat n) bs)"
    unfolding p(8) [symmetric] using n p(1) by (subst take_mem_bytes) simp_all
  then have b1: "mem_bytes (usb_memory ?s) head 512 = take 512 bs" using n by simp
  have b2: "mem_bytes (usb_memory ?s) (head + 512) (unat (min (N - 512) 512)) = take 512 (drop 512 (take (unat n) bs))"
    unfolding p(8) [symmetric] using n p(1) l(2) drop_mem_bytes [of 512 "unat N" "usb_memory ?s" head]
    by (simp add: unat_min min.commute take_mem_bytes) (simp add: min_def take_mem_bytes)
  have run: "ss_ep0_packets k e [c] w1 = Some ([(0, take 512 bs)], w2)"
    using s1 w2 b1 by (simp add: ss_ep0_sending_def Let_def)
  have "ss_in_keeps ?s w0"
    using next_packet_keeps(1) [OF w1(3)] ss_in_keeps_trans [of ?s "(wr_ss_rx 0 0 ?s)\<lparr>SetupReqCode := bRequest ?req, SetupLen := N, pDescr := head\<rparr>" w0]
    by simp
  then have "ss_in_keeps ?s w1" unfolding w1(2) by simp
  then have "ss_in_keeps w w2"
    using ep0_packets_keeps [OF run] ss_in_keeps_trans [of w ?s w1] ss_in_keeps_trans [of w w1 w2] setup_state_keeps [of w ?req] by blast
  then show ?thesis
    using w1(1) run s2 b2 by (simp add: usb3_setup_irq [OF w] ss_in_keeps_def ss_ep0_sending_def Let_def)
qed

text \<open>
  C39. A read the host gives up spoils the next one: the counter of packets on endpoint 0 (\<open>count\<close> in
  \<open>USBSS_IRQHandler\<close>) returns to 0 only after the last packet of a read, not when a new setup packet arrives. When the host
  reads the first packet of a descriptor of more than 512 bytes and then starts the same transfer again, the second packet
  of the new transfer is armed with number 2 instead of 1.
\<close>

theorem usb3_aborted_read_misnumbers:
  assumes "usb3_enumerating k hw D w0 w" and "descr_selected k {USB_DESCR_TYP_DEVICE k, USB_DESCR_TYP_CONFIG k, USB_DESCR_TYP_BOS} D t"
    and "512 < min (unat n) (length (D t))"
  shows "\<exists>w1 w2 w3 w4 p. usb3_setup k e (get_descriptor_req k t n) w = Some w1 \<and>
    ss_ep0_packets k e [hw 0] w1 = Some ([(0, take 512 (D t))], w2) \<and> ss_ep0_token w2 = Some (1, p) \<and>
    usb3_setup k e (get_descriptor_req k t n) w2 = Some w3 \<and>
    ss_ep0_packets k e [hw 0] w3 = Some ([(0, take 512 (D t))], w4) \<and> ss_ep0_token w4 = Some (2, p)"
proof -
  have u: "usb_requests_ok k" "ep0_serving3 w" "ep0_in_count w = of_nat 0" "hw 0 AND 0xe81efc00 = 0" "usb3_offers k D w"
    using assms(1) by (simp_all add: usb3_enumerating_def)
  obtain head where d: "has_descr3 k t head (D t) w" using u(5) assms(2) by (auto simp: usb3_offers_def)
  from read_first_packet [OF u(1,2) d u(4,3) _ assms(3), of e] obtain w1 w2 where
    w2: "usb3_setup k e (get_descriptor_req k t n) w = Some w1" "ss_ep0_packets k e [hw 0] w1 = Some ([(0, take 512 (D t))], w2)"
      "ss_ep0_token w2 = Some (1, take 512 (drop 512 (take (unat n) (D t))))" "ss_keeps w w2" "ep0_in_count w2 = of_nat 1" by auto
  from read_first_packet [OF u(1) serving3_kept [OF u(2) w2(4)] has_descr3_kept [OF d w2(4)] u(4) w2(5) _ assms(3), of e]
  obtain w3 w4 where "usb3_setup k e (get_descriptor_req k t n) w2 = Some w3"
    "ss_ep0_packets k e [hw 0] w3 = Some ([(0, take 512 (D t))], w4)"
    "ss_ep0_token w4 = Some (2, take 512 (drop 512 (take (unat n) (D t))))" by auto
  then show ?thesis using w2(1-3) by blast
qed

theorem usb3_aborted_read_misnumbers_witness:
  "\<exists>w w1 w2 w3 w4. usb3_connect demo_consts demo_link_env True demo_ss = Some w \<and>
    usb3_setup demo_consts demo_link_env (get_descriptor_req demo_consts 0x200 1024) w = Some w1 \<and>
    ss_ep0_packets demo_consts demo_link_env [0] w1 = Some ([(0, [9, 2, 2, 2, 1, 1, 0, 0xa0, 0x32] @ replicate 503 0)], w2) \<and>
    usb3_setup demo_consts demo_link_env (get_descriptor_req demo_consts 0x200 1024) w2 = Some w3 \<and>
    ss_ep0_packets demo_consts demo_link_env [0] w3 = Some ([(0, [9, 2, 2, 2, 1, 1, 0, 0xa0, 0x32] @ replicate 503 0)], w4) \<and>
    map_option fst (ss_ep0_token w2) = Some 1 \<and> map_option fst (ss_ep0_token w4) = Some 2"
proof -
  obtain w where w: "usb3_connect demo_consts demo_link_env True demo_ss = Some w"
    "usb3_enumerating demo_consts (\<lambda>_. 0) demo_descr3 demo_ss w"
    using connect_enumerating [OF demo_consts_ok(1) demo_link_env_ok _ demo_ss_ok(1-6),
        of "\<lambda>_. 0" True] by auto
  have t: "descr_selected demo_consts {USB_DESCR_TYP_DEVICE demo_consts, USB_DESCR_TYP_CONFIG demo_consts, USB_DESCR_TYP_BOS} demo_descr3 0x200"
    by (simp add: descr_selected_def demo_types demo_selectors)
  have n: "512 < min (unat (1024 :: u16)) (length (demo_descr3 0x200))" by (simp add: demo_descr3_simps)
  have p: "take 512 (demo_descr3 0x200) = [9, 2, 2, 2, 1, 1, 0, 0xa0, 0x32] @ replicate 503 0" by (simp add: demo_descr3_def)
  from usb3_aborted_read_misnumbers [OF w(2) t n, of demo_link_env] w(1) show ?thesis unfolding p by fastforce
qed

end
