(* ===== verification/Usb_Backends.thy ===== *)
theory Usb_Backends
  imports Usb2_Enumeration Usb30_Enumeration
begin

text \<open>
  The two backends side by side: both provide \<open>enumerable_device\<close> for the same abstract device, so a host that enumerates a device over
  either of them sees the same device, but for strings of which it reads only a part.
\<close>

lemma usb2_send_bytes: "concat (map snd (usb2_send mps bs)) = bs"
  by (simp add: usb2_send_def concat_data_packets)

lemma usb3_send_bytes: "concat (map snd (usb3_send bs)) = bs"
  by (simp add: usb3_send_def map_snd_enumerate concat_bulk_packets)

text \<open>A string asked for with fewer bytes than it has.\<close>

lemma usb2_sends_whole_string:
  assumes "usb2_enumerating k D mps v0 v" and x: "bb0 x = USB_DESCR_TYP_STRING k" "D x \<noteq> []"
  shows "\<exists>v'. usb2_request k e (Read_descriptor x n (length (D x) div mps + 1)) v = Some (usb2_send mps (D x), v')"
proof -
  have k: "usb2_flags_ok k" and v: "ep0_serving v" "usb2_offers k D v" "mps = unat (usb2_endp0_max_packet_size v)"
    using assms(1) by (simp_all add: usb2_enumerating_def)
  obtain head where "has_descr k x head (D x) v" using v(2) x unfolding usb2_offers_def descr_selected_def by blast
  from control_in_descriptor [OF k v(1) this v(3) refl, where n = n and e = e] x(1) show ?thesis
    by (auto simp: usb2_request_def usb2_send_def usb2_read_length_def)
qed

lemma usb3_sends_string_prefix:
  assumes "usb3_enumerating k hw D w0 w" and "bb0 x = USB_DESCR_TYP_STRING k" "D x \<noteq> []" "unat n < length (D x)"
  shows "\<exists>w'. usb3_request k e hw (Read_descriptor x n ((unat n - 1) div 512 + 1)) w = Some (usb3_send (take (unat n) (D x)), w')"
proof -
  have "request_ok3 k D (Read_descriptor x n ((unat n - 1) div 512 + 1))" using assms(2-4) by (simp add: descr_selected_def)
  from usb3_enum.answers [OF assms(1) this, of e] show ?thesis by auto
qed

text \<open>
  C21. Where the backends agree and where they part: a device that offers the same descriptors over USB 2.0 and over USB
  3.0 and is in the same state on both answers the same requests, out of those both serve (reads of the device and the
  configuration descriptor, reads of strings with a \<open>wLength\<close> of at least their length, addresses and configurations), with
  the same bytes, and ends with the same address, state and configuration, although the two buses split the data into
  packets of different sizes and mark them differently. A string asked for with fewer bytes than it has is where they part: USB
  2.0 sends it whole, USB 3.0 as many bytes as asked for.
\<close>

theorem usb_backends_agree:
  assumes "usb2_enumerating k D mps v0 v" and "usb3_enumerating k hw D w0 w" and "usb_abs v = usb3_abs w"
    and "\<forall>r \<in> set rs. request_ok k mps D r" and "\<forall>r \<in> set rs'. request_ok3 k D r" and "map request_kind rs = map request_kind rs'"
  shows "(\<exists>ps v' qs w'. run_requests (usb2_request k e) rs v = Some (ps, v') \<and> run_requests (usb3_request k e' hw) rs' w = Some (qs, w') \<and>
      read_bytes snd ps = read_bytes snd qs \<and> usb_abs v' = usb3_abs w') \<and>
    (\<forall>x n. bb0 x = USB_DESCR_TYP_STRING k \<and> unat n < length (D x) \<longrightarrow>
      (\<exists>v' w'. usb2_request k e (Read_descriptor x n (length (D x) div mps + 1)) v = Some (usb2_send mps (D x), v') \<and>
        usb3_request k e' hw (Read_descriptor x n ((unat n - 1) div 512 + 1)) w = Some (usb3_send (take (unat n) (D x)), w')))"
proof (intro conjI allI impI)
  from usb2_enum.requests_refine [OF assms(1,4), of e] obtain ps v' where v': "run_requests (usb2_request k e) rs v = Some (ps, v')"
    "(ps, usb_abs v') = abs_requests (usb2_send mps) D rs (usb_abs v)" by blast
  from usb3_enum.requests_refine [OF assms(2,5), of e'] obtain qs w' where w': "run_requests (usb3_request k e' hw) rs' w = Some (qs, w')"
    "(qs, usb3_abs w') = abs_requests usb3_send D rs' (usb3_abs w)" by blast
  from abs_requests_kind [OF usb2_send_bytes [of mps] usb3_send_bytes assms(6), of D "usb_abs v"]
  show "\<exists>ps v' qs w'. run_requests (usb2_request k e) rs v = Some (ps, v') \<and> run_requests (usb3_request k e' hw) rs' w = Some (qs, w') \<and>
      read_bytes snd ps = read_bytes snd qs \<and> usb_abs v' = usb3_abs w'"
    using v' w' unfolding assms(3) by (metis fst_conv snd_conv)
next
  fix x n :: u16 assume "bb0 x = USB_DESCR_TYP_STRING k \<and> unat n < length (D x)"
  then have x: "bb0 x = USB_DESCR_TYP_STRING k" "D x \<noteq> []" "unat n < length (D x)" by auto
  from usb2_sends_whole_string [OF assms(1) x(1,2), of e n] usb3_sends_string_prefix [OF assms(2) x, of e']
  show "\<exists>v' w'. usb2_request k e (Read_descriptor x n (length (D x) div mps + 1)) v = Some (usb2_send mps (D x), v') \<and>
      usb3_request k e' hw (Read_descriptor x n ((unat n - 1) div 512 + 1)) w = Some (usb3_send (take (unat n) (D x)), w')" by blast
qed

theorem usb_backends_agree_witness:
  "\<exists>v w ps v' qs w' v2 w2. usb2_bus_reset demo_consts (demo_env 0) demo_enum = Some v \<and> usb3_connect demo_consts demo_link_env True (demo_ss_of demo_descr) = Some w \<and>
    run_requests (usb2_request demo_consts (demo_env 0)) [Read_descriptor 0x100 64 3, Set_address 5, Read_descriptor 0x300 4 1, Set_configuration 1] v = Some (ps, v') \<and>
    run_requests (usb3_request demo_consts demo_link_env (\<lambda>_. 0)) [Read_descriptor 0x100 64 1, Set_address 5, Read_descriptor 0x300 4 1, Set_configuration 1] w = Some (qs, w') \<and>
    read_bytes snd ps = read_bytes snd qs \<and> usb_abs v' = usb3_abs w' \<and>
    usb2_request demo_consts (demo_env 0) (Read_descriptor 0x300 2 1) v = Some ([(True, [4, 3, 9, 4])], v2) \<and>
    usb3_request demo_consts demo_link_env (\<lambda>_. 0) (Read_descriptor 0x300 2 1) w = Some ([(0, [4, 3])], w2)"
proof -
  note ds = demo_types demo_selectors demo_descr_simps
  have "announces 2 (demo_descr 0x200)" "announces 2 (demo_descr 0xf00)" by (simp_all add: announces_def demo_descr_def)
  moreover have "demo_descr v \<noteq> [] \<longrightarrow> v \<in> {0x100, 0x200, 0x300, 0xf00}" for v by (auto simp: demo_descr_def)
  ultimately have o: "usb3_offers demo_consts demo_descr (demo_ss_of demo_descr)"
    by (intro demo_ss_offers) (simp add: demo_table_def, simp add: demo_descr_def)
  have c: "ep0_in_count (demo_ss_of demo_descr) = 0" by (rule demo_ss_fields)
  obtain w where w: "usb3_connect demo_consts demo_link_env True (demo_ss_of demo_descr) = Some w"
    "usb3_enumerating demo_consts (\<lambda>_. 0) demo_descr (demo_ss_of demo_descr) w"
    "usb3_abs w = \<lparr>abs_address = 0, abs_state = DEFAULT, abs_config = 0\<rparr>"
    using connect_enumerating [OF demo_consts_ok(1) demo_link_env_ok _ demo_ss_link c demo_ss_bursts o, of "\<lambda>_. 0" True]
    unfolding demo_ss_fields(1,5) by auto
  have cf: "current_config (dev2 demo_enum) = 0"
    by (simp add: demo_enum_def demo_usb2_def usb_device_initial_def upd_ep_rx_def)
  obtain v where v: "usb2_bus_reset demo_consts (demo_env 0) demo_enum = Some v"
    "usb2_enumerating demo_consts demo_descr 8 (wr_dma UEP0_RT_DMA (rx0_buffer2 demo_enum) demo_enum) v"
    "usb_abs v = \<lparr>abs_address = 0, abs_state = DEFAULT, abs_config = 0\<rparr>"
    using bus_reset_enumerating [OF demo_flags_ok demo_enum_ok(1,2) _ _ demo_enum_ok(4,5) demo_enum_offers, of "demo_env 0"]
    unfolding demo_enum_ok(3) cf by auto
  have r: "\<forall>r \<in> set [Read_descriptor 0x100 64 3, Set_address 5, Read_descriptor 0x300 4 1, Set_configuration 1]. request_ok demo_consts 8 demo_descr r"
    "\<forall>r \<in> set [Read_descriptor 0x100 64 1, Set_address 5, Read_descriptor 0x300 4 1, Set_configuration 1]. request_ok3 demo_consts demo_descr r"
    by (simp_all add: descr_selected_def ds)
  have x: "bb0 0x300 = USB_DESCR_TYP_STRING demo_consts \<and> unat (2 :: u16) < length (demo_descr 0x300)" by (simp add: ds)
  have s: "usb2_send 8 (demo_descr 0x300) = [(True, [4, 3, 9, 4])]" "usb3_send (take (unat (2 :: u16)) (demo_descr 0x300)) = [(0, [4, 3])]"
    "length (demo_descr 0x300) div 8 + 1 = 1" "(unat (2 :: u16) - 1) div 512 + 1 = 1"
    by (simp_all add: usb2_send_def usb3_send_def demo_descr_def data_packets_short bulk_packets_short)
  have a: "usb_abs v = usb3_abs w" using v(3) w(3) by simp
  have kd: "map request_kind [Read_descriptor 0x100 64 3, Set_address 5, Read_descriptor 0x300 4 1, Set_configuration 1] =
    map request_kind [Read_descriptor 0x100 64 1, Set_address 5, Read_descriptor 0x300 4 1, Set_configuration 1]" by simp
  note both = usb_backends_agree [OF v(2) w(2) a r kd, of "demo_env 0" demo_link_env]
  from both [THEN conjunct2, rule_format, OF x] obtain v2 w2 where
    "usb2_request demo_consts (demo_env 0) (Read_descriptor 0x300 2 1) v = Some ([(True, [4, 3, 9, 4])], v2)"
    "usb3_request demo_consts demo_link_env (\<lambda>_. 0) (Read_descriptor 0x300 2 1) w = Some ([(0, [4, 3])], w2)"
    unfolding s by blast
  moreover from both have "\<exists>ps v' qs w'. run_requests (usb2_request demo_consts (demo_env 0))
        [Read_descriptor 0x100 64 3, Set_address 5, Read_descriptor 0x300 4 1, Set_configuration 1] v = Some (ps, v') \<and>
      run_requests (usb3_request demo_consts demo_link_env (\<lambda>_. 0))
        [Read_descriptor 0x100 64 1, Set_address 5, Read_descriptor 0x300 4 1, Set_configuration 1] w = Some (qs, w') \<and>
      read_bytes snd ps = read_bytes snd qs \<and> usb_abs v' = usb3_abs w'"
    by (simp del: run_requests.simps)
  ultimately show ?thesis using v(1) w(1) by blast
qed

end
