(* ===== verification/Usb30_Transfers.thy ===== *)
theory Usb30_Transfers
  imports Usb30_Enumeration
begin

text \<open>
  Single transfers of data on the endpoints above 0, with what each leaves alone: a burst the host sends (\<open>usb3_out_burst\<close>), a
  buffer the firmware gives to an IN endpoint (\<open>usb3_give\<close>), and a portion of its packets the host takes (\<open>usb3_take\<close>).
\<close>

section \<open>Bursts\<close>

text \<open>The largest burst of an endpoint, and memory no burst of an endpoint of the mask reaches.\<close>

definition ss_burst_size :: "nat \<Rightarrow> 'a usb3_world_scheme \<Rightarrow> nat" where
  "ss_burst_size n w = (let ep = ep_rx (endpoints (dev3 w)) n in unat (ep_max_burst ep) * unat (ep_max_packet_size ep))"

definition ss_receives :: "nat \<Rightarrow> 'a usb3_world_scheme \<Rightarrow> bool" where
  "ss_receives n w \<longleftrightarrow> n \<in> {1..7} \<and> endpoint_mask (dev3 w) AND ENDPOINT_RX n \<noteq> 0"

definition clear_of_bursts :: "u32 \<Rightarrow> nat \<Rightarrow> 'a usb3_world_scheme \<Rightarrow> bool" where
  "clear_of_bursts a l w \<longleftrightarrow>
     (\<forall>n \<in> {1..7}. ss_receives n w \<longrightarrow> apart a l (ep_buffer (ep_rx (endpoints (dev3 w)) n)) (ss_burst_size n w))"

text \<open>The device offers the descriptors \<open>D\<close> from such memory, and the length of a burst fits the handlers' 16 bits.\<close>

definition usb3_offers_apart :: "usb_consts \<Rightarrow> (u16 \<Rightarrow> u8 list) \<Rightarrow> 'a usb3_world_scheme \<Rightarrow> bool" where
  "usb3_offers_apart k D w \<longleftrightarrow>
     (\<forall>v. descr_selected k {USB_DESCR_TYP_DEVICE k, USB_DESCR_TYP_CONFIG k, USB_DESCR_TYP_BOS} D v \<longrightarrow>
        (\<exists>head. has_descr3 k v head (D v) w \<and> clear_of_bursts head (length (D v)) w)) \<and>
     (\<forall>v. bb0 v = USB_DESCR_TYP_STRING k \<and> D v \<noteq> [] \<longrightarrow>
        clear_of_bursts (usb_string_descrs (usb_descriptors (dev3 w)) + 4 * ucast (bb1 v)) 4 w) \<and>
     clear_of_bursts (usb3_device_config_descrs (usb_descriptors (dev3 w))) 4 w \<and>
     (\<forall>n \<in> {1..7}. ss_receives n w \<longrightarrow> ss_burst_size n w < 65536)"

text \<open>A burst the host may send to endpoint \<open>n\<close>, and the register \<open>c\<close> the controller leaves.\<close>

definition burst_ok :: "nat \<Rightarrow> u8 list list \<Rightarrow> u32 \<Rightarrow> 'a usb3_world_scheme \<Rightarrow> bool" where
  "burst_ok n ps c w \<longleftrightarrow> ss_receives n w \<and>
     (let ep = ep_rx (endpoints (dev3 w)) n; mps = unat (ep_max_packet_size ep) in
      ps \<noteq> [] \<and> list_all (\<lambda>p. length p = mps) (butlast ps) \<and> length (last ps) \<le> mps \<and>
      length ps + ss_nump c = unat (ep_max_burst ep) \<and> unat (c AND 0xffff) = length (last ps) \<and>
      (bit c 29 \<longleftrightarrow> length (last ps) < mps))"

lemma burst_length_le:
  assumes "burst_ok n ps c w"
  shows "length (concat ps) \<le> ss_burst_size n w"
proof -
  let ?ep = "ep_rx (endpoints (dev3 w)) n"
  let ?m = "unat (ep_max_packet_size ?ep)"
  have p: "ps \<noteq> []" "list_all (\<lambda>p. length p = ?m) (butlast ps)" "length (last ps) \<le> ?m" "length ps + ss_nump c = unat (ep_max_burst ?ep)"
    using assms by (auto simp: burst_ok_def Let_def)
  have "length (concat ps) \<le> (length ps - 1) * ?m + ?m" using packets_length [OF p(1,2)] p(3) by simp
  also have "\<dots> = length ps * ?m" using p(1) by (cases ps) simp_all
  also have "\<dots> \<le> unat (ep_max_burst ?ep) * ?m" using p(4) by (intro mult_right_mono) simp_all
  finally show ?thesis by (simp add: ss_burst_size_def Let_def)
qed

text \<open>The firmware's receive handlers take the bytes out of the buffer and keep to their own part of the state.\<close>

definition rx_consumes :: "(u32 \<Rightarrow> u8 list \<Rightarrow> 'a \<Rightarrow> 'a) \<Rightarrow> ('a usb3_world_scheme) usb_env \<Rightarrow> bool" where
  "rx_consumes f e \<longleftrightarrow> (\<forall>h p l w. \<exists>st.
     env_rx_callback e h p l w = Some (st, usb3_world.more_update (f h (mem_bytes (usb_memory w) p (unat l))) w))"

definition ss_deliver :: "(u32 \<Rightarrow> u8 list \<Rightarrow> 'a \<Rightarrow> 'a) \<Rightarrow> (nat \<Rightarrow> usb_handler) \<Rightarrow> nat \<times> u8 list \<Rightarrow> 'a \<Rightarrow> 'a" where
  "ss_deliver f handlers b = (case handlers (fst b) of Default_handler \<Rightarrow> id | User_handler h \<Rightarrow> f h (snd b))"

text \<open>A burst: the controller stores it and the interrupt follows.\<close>

definition usb3_out_burst :: "usb_consts \<Rightarrow> ('a usb3_world_scheme) usb_env \<Rightarrow> nat \<Rightarrow> u8 list list \<Rightarrow> u32 \<Rightarrow> 'a usb3_world_scheme \<Rightarrow>
    'a usb3_world_scheme option" where
  "usb3_out_burst k e n ps c w = do {
     w1 \<leftarrow> ss_out_send n (unat (ep_max_packet_size (ep_rx (endpoints (dev3 w)) n))) ps c w;
     USBSS_IRQHandler k e w1 }"

text \<open>What a burst on endpoint \<open>n\<close> leaves alone.\<close>

definition burst_keeps :: "nat \<Rightarrow> 'a usb3_world_scheme \<Rightarrow> 'a usb3_world_scheme \<Rightarrow> bool" where
  "burst_keeps n w w' \<longleftrightarrow> usb_devices w' = usb_devices w \<and> usb3_backend_current_device w' = usb3_backend_current_device w \<and>
     ep0_in_count w' = ep0_in_count w \<and> USB_CONTROL w' = USB_CONTROL w \<and> SS_UEP0_DMA w' = SS_UEP0_DMA w \<and>
     usb_crit w' = usb_crit w \<and> ep_tx_remaining_length w' = ep_tx_remaining_length w \<and> ep_tx_total_bursts w' = ep_tx_total_bursts w \<and>
     SS_TX_CONTRL w' = SS_TX_CONTRL w \<and> SS_TX_DMA w' = SS_TX_DMA w \<and> UEP_CFG w' = UEP_CFG w \<and>
     (\<forall>m. m \<noteq> n \<longrightarrow> SS_RX_CONTRL w' m = SS_RX_CONTRL w m \<and> SS_RX_DMA w' m = SS_RX_DMA w m \<and>
        ep_rx_previously_set_max_burst w' m = ep_rx_previously_set_max_burst w m \<and> ep_rx_total_length w' m = ep_rx_total_length w m)"

lemma burst_keeps_trans: "burst_keeps n w w1 \<Longrightarrow> burst_keeps n w1 w2 \<Longrightarrow> burst_keeps n w w2"
  by (simp add: burst_keeps_def)

lemma rearmed_keeps:
  assumes "n \<in> {1..7}"
  shows "burst_keeps n w (ss_rearmed n d w)" "usb3_world.more (ss_rearmed n d w) = usb3_world.more w"
  using ss_endpoint_nat(2) [OF assms] by (simp_all add: ss_rearmed_def burst_keeps_def ss_utils ss_writes Let_def)

lemma out_send_keeps:
  "ss_out_send n mps ps c w = Some w1 \<Longrightarrow> burst_keeps n w (set_total n t w1)"
  "ss_out_send n mps ps c w = Some w1 \<Longrightarrow> usb3_world.more w1 = usb3_world.more w"
  by (auto simp: ss_out_send_def burst_keeps_def ss_writes split: if_splits)

lemma burst_event:
  assumes r: "ss_receiving n w" and b: "burst_ok n ps c w" and f: "rx_consumes f e"
    and s: "ss_burst_size n w < 65536" "ep_max_burst (ep_rx (endpoints (dev3 w)) n) \<le> 31"
  shows "\<exists>w'. usb3_out_burst k e n ps c w = Some w' \<and> burst_keeps n w w' \<and> ss_receiving n w' \<and>
    same_outside (ep_buffer (ep_rx (endpoints (dev3 w)) n)) (ss_burst_size n w) (usb_memory w) (usb_memory w') \<and>
    usb3_world.more w' = ss_deliver f (rx_callback (endpoints (dev3 w))) (n, concat ps) (usb3_world.more w)"
proof -
  let ?ep = "ep_rx (endpoints (dev3 w)) n"
  let ?l = "of_nat (length (concat ps)) :: u16"
  have n: "n \<in> {1..7}" using b by (simp add: burst_ok_def ss_receives_def)
  have len: "length (concat ps) \<le> ss_burst_size n w" by (rule burst_length_le [OF b])
  with s(1) have small: "length (concat ps) < 65536" by simp
  obtain w1 where w1: "ss_out_send n (unat (ep_max_packet_size ?ep)) ps c w = Some w1"
    using b r by (simp add: ss_out_send_def burst_ok_def ss_receiving_def Let_def)
  from out_burst [OF n r refl w1 small, of k e] obtain w2 where w2: "w2 = set_total n ?l w1"
    "USBSS_IRQHandler k e w1 = do { (_, w3) \<leftarrow> call_rx_callback e (rx_callback (endpoints (dev3 w)) n) (ep_buffer ?ep) ?l w2;
       Some (ss_rearmed n (usb3_backend_current_device w) w3) }"
    "usb_memory w2 = mem_write (ep_buffer ?ep) (concat ps) (usb_memory w)" by blast
  have ul: "unat ?l = length (concat ps)" using small by (simp add: unsigned_of_nat take_bit_nat_eq_self)
  have "mem_bytes (usb_memory w2) (ep_buffer ?ep) (unat ?l) = concat ps"
    unfolding w2(3) ul by (rule mem_bytes_write) (use small in simp_all)
  then obtain st where cb: "call_rx_callback e (rx_callback (endpoints (dev3 w)) n) (ep_buffer ?ep) ?l w2 =
      Some (st, usb3_world.more_update (ss_deliver f (rx_callback (endpoints (dev3 w))) (n, concat ps)) w2)"
    using f [unfolded rx_consumes_def, rule_format, of _ "ep_buffer ?ep" ?l w2]
    by (cases "rx_callback (endpoints (dev3 w)) n") (auto simp: call_rx_callback_def ss_deliver_def)
  let ?w3 = "usb3_world.more_update (ss_deliver f (rx_callback (endpoints (dev3 w))) (n, concat ps)) w2"
  let ?w = "ss_rearmed n (usb3_backend_current_device w) ?w3"
  have k2: "burst_keeps n w w2" "usb3_world.more w2 = usb3_world.more w"
    using out_send_keeps [OF w1] by (simp_all add: w2(1)) (simp add: set_total_def)
  then have k3: "burst_keeps n w ?w3" by (simp add: burst_keeps_def)
  have d3: "usb3_backend_current_device ?w3 = usb3_backend_current_device w" "usb_devices ?w3 = usb_devices w"
    using k3 by (simp_all add: burst_keeps_def)
  have "ep_max_burst (ep_rx (endpoints (usb_devices ?w3 (usb3_backend_current_device w))) n) \<le> 31" unfolding d3 by (rule s)
  note re = rearmed_receiving [OF n d3(1) this]
  have "same_outside (ep_buffer ?ep) (ss_burst_size n w) (usb_memory w) (usb_memory ?w)"
    unfolding re(4) by (simp add: w2(3) same_outside_write [OF len])
  moreover have "usb3_out_burst k e n ps c w = Some ?w" by (simp add: usb3_out_burst_def w1 w2(2) cb)
  moreover have "burst_keeps n w ?w" by (rule burst_keeps_trans [OF k3 rearmed_keeps(1) [OF n]])
  moreover have "usb3_world.more ?w = ss_deliver f (rx_callback (endpoints (dev3 w))) (n, concat ps) (usb3_world.more w)"
    unfolding rearmed_keeps(2) [OF n] by (simp add: k2(2))
  ultimately show ?thesis using re(1) by blast
qed

section \<open>Transfers to the host\<close>

text \<open>The firmware's handlers that are told of a transmission keep to their own part of the state, too.\<close>

definition tx_consumes :: "(u32 \<Rightarrow> 'a \<Rightarrow> 'a) \<Rightarrow> ('a usb3_world_scheme) usb_env \<Rightarrow> bool" where
  "tx_consumes g e \<longleftrightarrow> (\<forall>h w. env_tx_complete e h Ack w = Some (usb3_world.more_update (g h) w))"

definition ss_sent :: "(u32 \<Rightarrow> 'a \<Rightarrow> 'a) \<Rightarrow> (nat \<Rightarrow> usb_handler) \<Rightarrow> nat \<Rightarrow> 'a \<Rightarrow> 'a" where
  "ss_sent g handlers n = (case handlers n of Default_handler \<Rightarrow> id | User_handler h \<Rightarrow> g h)"

definition usb3_give :: "usb_consts \<Rightarrow> nat \<Rightarrow> u32 \<Rightarrow> u16 \<Rightarrow> 'a usb3_world_scheme \<Rightarrow> (bool \<times> 'a usb3_world_scheme) option" where
  "usb3_give k n a l w = endp_tx_set_new_buffer (usb_backend_handled k) (usb3_backend_current_device w) (of_nat n) a l w"

definition usb3_take :: "usb_consts \<Rightarrow> ('a usb3_world_scheme) usb_env \<Rightarrow> nat \<Rightarrow> nat \<Rightarrow> u32 \<Rightarrow> 'a usb3_world_scheme \<Rightarrow>
    (u8 list list \<times> 'a usb3_world_scheme) option" where
  "usb3_take k e n j c w = do {
     (ps, w1) \<leftarrow> ss_in_take n (unat (ep_max_packet_size (ep_tx (endpoints (dev3 w)) n))) j c w;
     w2 \<leftarrow> USBSS_IRQHandler k e w1;
     Some (ps, w2) }"

lemma give_event:
  assumes n: "n \<in> {1..7}" and able: "usb3_able mps p n l w" and s: "dev_speed (dev3 w) = USB30_SUPERSPEED" "crit_ok (usb_crit w)"
    and a: "a \<noteq> 0" "l \<le> ep_max_packet_size_with_burst (ep_tx (endpoints (dev3 w)) n)"
  shows "\<exists>w'. usb3_give k n a l w = Some (True, w') \<and> ss_sending n (unat mps) a (unat l) w' \<and> ss_tx_keeps n w w' \<and> usb_crit w' = usb_crit w \<and>
    usb3_world.more w' = usb3_world.more w \<and> usb_devices w' = (usb_devices w)(usb3_backend_current_device w := upd_ep_tx n (\<lambda>p. p\<lparr>ep_buffer := a\<rparr>) (dev3 w))"
proof -
  let ?d = "usb3_backend_current_device w"
  let ?be = "usb_backend_handled k :: ('a usb3_world_scheme) usb_backends"
  note u = ss_endpoint_nat(2) [OF n]
  have be: "be_tx_ready ?be (dev_speed (dev3 w)) = usb3_endp_tx_ready"
    using s(1) by (simp add: be_tx_ready_def usb_backend_handled_def usb2_endpoints_backend_handled_def)
  from usb3_tx.set_new_buffer_sends [OF be refl, of mps p "of_nat n", unfolded u, OF able s(2) a] obtain w' where
    w': "endp_tx_set_new_buffer ?be ?d (of_nat n) a l w = Some (True, w')" "usb3_armed mps n a l w'" "usb_crit w' = usb_crit w"
      "usb_devices w' = (usb_devices w)(?d := upd_ep_tx n (\<lambda>p. p\<lparr>ep_buffer := a\<rparr>) (dev3 w))" by blast
  let ?w = "upd_device ?d (upd_ep_tx n (\<lambda>p. p\<lparr>ep_buffer := a\<rparr>)) (w\<lparr>usb_crit := bsp_enter_critical (usb_crit w)\<rparr>)"
  define x :: u8 where "x = of_nat n"
  have x: "unat x = n" unfolding x_def by (rule u)
  have "x \<noteq> 0" "\<not> 16 \<le> x" using x n by (auto simp: unat_eq_zero [symmetric] word_le_nat_alt)
  then have eq: "endp_tx_set_new_buffer ?be ?d x a l w = do { w4 \<leftarrow> usb3_endp_tx_ready x l ?w; Some (True, w4\<lparr>usb_crit := bsp_exit_critical (usb_crit w4)\<rparr>) }"
    using a(1) leD [OF a(2)] be by (simp add: endp_tx_set_new_buffer_def Let_def x upd_device_def)
  from trans [OF sym [OF eq] w'(1) [folded x_def]] obtain w4 where w4: "usb3_endp_tx_ready x l ?w = Some w4" "w' = w4\<lparr>usb_crit := bsp_exit_critical (usb_crit w4)\<rparr>"
    by (auto simp: bind_eq_Some_conv)
  have "ss_tx_keeps n ?w w4" "usb3_world.more w4 = usb3_world.more ?w" using tx_ready_keeps [OF _ w4(1)] n x by simp_all
  then have "ss_tx_keeps n w w'" "usb3_world.more w' = usb3_world.more w" unfolding w4(2) by (simp_all add: ss_tx_keeps_def upd_device_def)
  then show ?thesis using w' by (auto simp: usb3_give_def usb3_armed_def)
qed

text \<open>The host takes some of the packets, or all.\<close>

lemma take_event_more:
  assumes n: "n \<in> {1..7}" and s: "ss_sending n (unat mps) a r w" and w: "ss_ready n mps p w"
    and p: "burst_count (unat mps) r \<le> p" and j: "0 < j" "j < burst_count (unat mps) r" and c: "ss_nump c = burst_count (unat mps) r - j"
  shows "\<exists>w'. usb3_take k e n j c w = Some (take j (burst_packets (usb_memory w) a (unat mps) r), w') \<and>
    ss_sending n (unat mps) (a + of_nat (j * unat mps)) (r - j * unat mps) w' \<and> ss_tx_keeps n w w' \<and>
    usb_devices w' = usb_devices w \<and> usb_crit w' = usb_crit w \<and> usb3_world.more w' = usb3_world.more w"
proof -
  have m: "ep_max_packet_size (ep_tx (endpoints (dev3 w)) n) = mps" using w by (simp add: ss_ready_def)
  from burst_more [OF n s w p j c, of e, unfolded ss_status_in_def, folded irq_in_endpoint [OF n, of k e]] obtain w' where
    "USBSS_IRQHandler k e ((wr_ss_tx n c (wr_ss_tx_dma n (a + of_nat (j * unat mps)) w))
       \<lparr>USB_STATUS := 1 OR push_bit 8 (of_nat n) OR push_bit 12 1\<rparr>) = Some w'"
    "ss_sending n (unat mps) (a + of_nat (j * unat mps)) (r - j * unat mps) w'" "ss_tx_keeps n w w'"
    "usb_devices w' = usb_devices w" "usb_crit w' = usb_crit w" "usb3_world.more w' = usb3_world.more w" by blast
  then show ?thesis using take_packets [OF s j(1) less_imp_le [OF j(2)] c] by (simp add: usb3_take_def m)
qed

lemma take_event_last:
  assumes n: "n \<in> {1..7}" and s: "ss_sending n (unat mps) a r w" and w: "ss_ready n mps p w" and c: "ss_nump c = 0" and g: "tx_consumes g e"
  shows "\<exists>w'. usb3_take k e n (burst_count (unat mps) r) c w = Some (burst_packets (usb_memory w) a (unat mps) r, w') \<and>
    SS_TX_CONTRL w' n AND NOT 0x03e00000 = 0 \<and> ss_tx_keeps n w w' \<and>
    usb3_world.more w' = ss_sent g (tx_complete (endpoints (dev3 w))) n (usb3_world.more w) \<and>
    usb_devices w' = usb_devices w \<and> usb_crit w' = usb_crit w"
proof -
  let ?q = "burst_count (unat mps) r"
  let ?a = "a + of_nat (?q * unat mps)"
  have m: "ep_max_packet_size (ep_tx (endpoints (dev3 w)) n) = mps" using w by (simp add: ss_ready_def)
  have q: "0 < ?q" by (simp add: burst_count_def)
  from burst_done [OF n s w c, of e ?a, unfolded ss_status_in_def, folded irq_in_endpoint [OF n, of k e]] obtain w1 where
    w1: "USBSS_IRQHandler k e ((wr_ss_tx n c (wr_ss_tx_dma n ?a w))\<lparr>USB_STATUS := 1 OR push_bit 8 (of_nat n) OR push_bit 12 1\<rparr>) = ss_complete e n w1"
    "ss_idle n w1" "ss_tx_keeps n w w1" "usb3_world.more w1 = usb3_world.more w" "usb_devices w1 = usb_devices w" "usb_crit w1 = usb_crit w"
    "usb3_backend_current_device w1 = usb3_backend_current_device w" by blast
  have t: "take ?q (burst_packets (usb_memory w) a (unat mps) r) = burst_packets (usb_memory w) a (unat mps) r" by (rule take_all) simp
  have d: "tx_complete (endpoints (dev3 w1)) n = tx_complete (endpoints (dev3 w)) n" using w1(5,7) by simp
  have cb: "call_tx_complete e (tx_complete (endpoints (dev3 w)) n) Ack w1 =
      Some (usb3_world.more_update (ss_sent g (tx_complete (endpoints (dev3 w))) n) w1)"
    using g by (cases "tx_complete (endpoints (dev3 w)) n") (auto simp: call_tx_complete_def ss_sent_def tx_consumes_def)
  let ?w = "usb3_world.more_update (ss_sent g (tx_complete (endpoints (dev3 w))) n) w1"
  let ?v = "if usb30_in_nump (of_nat n) ?w = 0 then wr_ss_tx_dma n 0 (usb30_in_set (of_nat n OR ep_IN) False ss_NRDY 0 0 ?w) else ?w"
  have x: "usb30_in_set i False ss_NRDY 0 0 v = v" for i and v :: "'a usb3_world_scheme"
    by (simp add: usb30_in_set_def ss_NRDY_def wr_ss_tx_def)
  have "ss_complete e n w1 = Some ?v" by (simp add: ss_complete_def d cb)
  then have "usb3_take k e n ?q c w = Some (burst_packets (usb_memory w) a (unat mps) r, ?v)"
    using take_packets [OF s q order_refl, of c] c w1(1) by (simp add: usb3_take_def m t)
  moreover have "SS_TX_CONTRL ?v n AND NOT 0x03e00000 = 0" using w1(2) by (simp add: x ss_idle_def wr_ss_tx_dma_def)
  moreover have "ss_tx_keeps n w ?v" using w1(3) by (simp add: x ss_tx_keeps_def wr_ss_tx_dma_def)
  moreover have "usb3_world.more ?v = ss_sent g (tx_complete (endpoints (dev3 w))) n (usb3_world.more w)" "usb_devices ?v = usb_devices w"
    "usb_crit ?v = usb_crit w"
    using w1(4-6) by (simp_all add: x wr_ss_tx_dma_def)
  ultimately show ?thesis by blast
qed

end
