(* ===== verification/Usb30_Sessions.thy ===== *)
theory Usb30_Sessions
  imports Usb30_Transfers
begin

text \<open>
  Sessions over USB 3.0: control transfers, bursts from the host, buffers the firmware gives to IN endpoints and portions of their
  packets the host takes, interleaved in any order. A specification on an abstract state (\<open>ss_step\<close>: the abstract device, a queue of
  packets per IN endpoint, the firmware's own state) allows the events of a well-behaved host, and the backend simulates it
  (\<open>forward_simulation\<close>). What makes it work is that every event leaves the ground of the others alone.
\<close>

section \<open>Settings and memory\<close>

text \<open>What never changes in a session: all of the device but the states of endpoints and the buffers being sent.\<close>

definition ep_fixed :: "usb_endpoints \<Rightarrow> usb_endpoints" where
  "ep_fixed es = es\<lparr>ep_tx := (\<lambda>n. (ep_tx es n)\<lparr>ep_buffer := 0, ep_state := 0\<rparr>), ep_rx := (\<lambda>n. (ep_rx es n)\<lparr>ep_state := 0\<rparr>)\<rparr>"

definition ss_same :: "'a usb3_world_scheme \<Rightarrow> 'a usb3_world_scheme \<Rightarrow> bool" where
  "ss_same w w' \<longleftrightarrow> usb3_backend_current_device w' = usb3_backend_current_device w \<and> endpoint_mask (dev3 w') = endpoint_mask (dev3 w) \<and>
     usb_descriptors (dev3 w') = usb_descriptors (dev3 w) \<and> ep_fixed (endpoints (dev3 w')) = ep_fixed (endpoints (dev3 w))"

lemma ss_same_refl [simp]: "ss_same w w"
  by (simp add: ss_same_def)

lemma ss_same_trans [trans]: "ss_same w w1 \<Longrightarrow> ss_same w1 w2 \<Longrightarrow> ss_same w w2"
  unfolding ss_same_def by metis

lemma ep_fixed_buffer [simp]: "ep_fixed (endpoints (upd_ep_tx n (\<lambda>p. p\<lparr>ep_buffer := a\<rparr>) v)) = ep_fixed (endpoints v)"
  by (rule usb_endpoints.equality) (auto simp: ep_fixed_def upd_ep_tx_def)

lemma ep_fixed_eq:
  assumes "ep_fixed es' = ep_fixed es"
  shows "(ep_rx es' n)\<lparr>ep_state := 0\<rparr> = (ep_rx es n)\<lparr>ep_state := 0\<rparr>"
    "(ep_tx es' n)\<lparr>ep_buffer := 0, ep_state := 0\<rparr> = (ep_tx es n)\<lparr>ep_buffer := 0, ep_state := 0\<rparr>"
    "rx_callback es' = rx_callback es" "tx_complete es' = tx_complete es"
  using arg_cong [OF assms, of "\<lambda>e. ep_rx e n"] arg_cong [OF assms, of "\<lambda>e. ep_tx e n"] arg_cong [OF assms, of rx_callback]
    arg_cong [OF assms, of tx_complete] by (simp_all add: ep_fixed_def)

lemma ss_same_settings:
  assumes "ss_same w w'"
  shows "endpoint_mask (dev3 w') = endpoint_mask (dev3 w)" "usb_descriptors (dev3 w') = usb_descriptors (dev3 w)"
    "ep_max_burst (ep_rx (endpoints (dev3 w')) n) = ep_max_burst (ep_rx (endpoints (dev3 w)) n)"
    "ep_buffer (ep_rx (endpoints (dev3 w')) n) = ep_buffer (ep_rx (endpoints (dev3 w)) n)"
    "ep_max_packet_size (ep_rx (endpoints (dev3 w')) n) = ep_max_packet_size (ep_rx (endpoints (dev3 w)) n)"
    "ep_max_burst (ep_tx (endpoints (dev3 w')) n) = ep_max_burst (ep_tx (endpoints (dev3 w)) n)"
    "ep_max_packet_size (ep_tx (endpoints (dev3 w')) n) = ep_max_packet_size (ep_tx (endpoints (dev3 w)) n)"
    "ep_max_packet_size_with_burst (ep_tx (endpoints (dev3 w')) n) = ep_max_packet_size_with_burst (ep_tx (endpoints (dev3 w)) n)"
    "rx_callback (endpoints (dev3 w')) = rx_callback (endpoints (dev3 w))" "tx_complete (endpoints (dev3 w')) = tx_complete (endpoints (dev3 w))"
proof -
  have f: "ep_fixed (endpoints (dev3 w')) = ep_fixed (endpoints (dev3 w))" using assms unfolding ss_same_def by blast
  note e = ep_fixed_eq(1,2) [OF f, of n]
  show "endpoint_mask (dev3 w') = endpoint_mask (dev3 w)" "usb_descriptors (dev3 w') = usb_descriptors (dev3 w)"
    using assms unfolding ss_same_def by blast+
  show "rx_callback (endpoints (dev3 w')) = rx_callback (endpoints (dev3 w))" "tx_complete (endpoints (dev3 w')) = tx_complete (endpoints (dev3 w))"
    by (rule ep_fixed_eq(3,4) [OF f])+
  show "ep_max_burst (ep_rx (endpoints (dev3 w')) n) = ep_max_burst (ep_rx (endpoints (dev3 w)) n)"
    "ep_buffer (ep_rx (endpoints (dev3 w')) n) = ep_buffer (ep_rx (endpoints (dev3 w)) n)"
    "ep_max_packet_size (ep_rx (endpoints (dev3 w')) n) = ep_max_packet_size (ep_rx (endpoints (dev3 w)) n)"
    using arg_cong [OF e(1), of ep_max_burst] arg_cong [OF e(1), of ep_buffer] arg_cong [OF e(1), of ep_max_packet_size] by simp_all
  show "ep_max_burst (ep_tx (endpoints (dev3 w')) n) = ep_max_burst (ep_tx (endpoints (dev3 w)) n)"
    "ep_max_packet_size (ep_tx (endpoints (dev3 w')) n) = ep_max_packet_size (ep_tx (endpoints (dev3 w)) n)"
    "ep_max_packet_size_with_burst (ep_tx (endpoints (dev3 w')) n) = ep_max_packet_size_with_burst (ep_tx (endpoints (dev3 w)) n)"
    using arg_cong [OF e(2), of ep_max_burst] arg_cong [OF e(2), of ep_max_packet_size] arg_cong [OF e(2), of ep_max_packet_size_with_burst]
    by simp_all
qed

lemma keeps_same: "ss_keeps w w' \<Longrightarrow> ss_same w w'"
proof -
  assume k: "ss_keeps w w'"
  have "ep_fixed (ep_settings es) = ep_fixed es" for es by (simp add: ep_fixed_def ep_settings_def)
  moreover have "ep_settings (endpoints (dev3 w')) = ep_settings (endpoints (dev3 w))" using k unfolding ss_keeps_def by blast
  ultimately have "ep_fixed (endpoints (dev3 w')) = ep_fixed (endpoints (dev3 w))" by metis
  then show ?thesis using k unfolding ss_same_def ss_keeps_def by blast
qed

lemma devices_same: "usb_devices w' = usb_devices w \<Longrightarrow> usb3_backend_current_device w' = usb3_backend_current_device w \<Longrightarrow> ss_same w w'"
  by (simp add: ss_same_def)

text \<open>Memory no control transfer and no burst writes.\<close>

definition lies_apart :: "u32 \<Rightarrow> nat \<Rightarrow> 'a usb3_world_scheme \<Rightarrow> bool" where
  "lies_apart a l w \<longleftrightarrow> apart a l (rx0_buffer3 w) 512 \<and> clear_of_bursts a l w"

definition keeps_apart :: "'a usb3_world_scheme \<Rightarrow> 'a usb3_world_scheme \<Rightarrow> bool" where
  "keeps_apart w w' \<longleftrightarrow> (\<forall>a l. lies_apart a l w \<longrightarrow> mem_bytes (usb_memory w') a l = mem_bytes (usb_memory w) a l)"

text \<open>A buffer the firmware may give to IN endpoint \<open>n\<close>.\<close>

definition give_ok :: "nat \<Rightarrow> u32 \<Rightarrow> u16 \<Rightarrow> 'a usb3_world_scheme \<Rightarrow> bool" where
  "give_ok n a l w \<longleftrightarrow> n \<in> {1..7} \<and> endpoint_mask (dev3 w) AND ENDPOINT_TX n \<noteq> 0 \<and> a \<noteq> 0 \<and> lies_apart a (unat l) w \<and>
     (let ep = ep_tx (endpoints (dev3 w)) n; mps = ep_max_packet_size ep; q = burst_count (unat mps) (unat l) in
      mps \<noteq> 0 \<and> mps \<le> 1024 \<and> l \<le> ep_max_packet_size_with_burst ep \<and> q \<le> unat (ep_max_burst ep) \<and> q \<le> 31)"

lemma same_events:
  assumes "ss_same w w'"
  shows "ss_receives n w' = ss_receives n w" "ss_burst_size n w' = ss_burst_size n w" "clear_of_bursts a l w' = clear_of_bursts a l w"
    "burst_ok n ps c w' = burst_ok n ps c w" "lies_apart a l w' = lies_apart a l w" "give_ok n a h w' = give_ok n a h w"
proof -
  note s = ss_same_settings [OF assms]
  show r: "ss_receives n w' = ss_receives n w" for n unfolding ss_receives_def s ..
  show b: "ss_burst_size n w' = ss_burst_size n w" for n unfolding ss_burst_size_def Let_def s ..
  show c: "clear_of_bursts a l w' = clear_of_bursts a l w" for a l unfolding clear_of_bursts_def r b s ..
  show "burst_ok n ps c w' = burst_ok n ps c w" unfolding burst_ok_def Let_def r s ..
  show a: "lies_apart a l w' = lies_apart a l w" for a l unfolding lies_apart_def c s ..
  show "give_ok n a h w' = give_ok n a h w" unfolding give_ok_def Let_def a s ..
qed

lemma offers_apart_kept:
  assumes o: "usb3_offers_apart k D w" and s: "ss_same w w'" and m: "keeps_apart w w'"
  shows "usb3_offers_apart k D w'"
proof -
  have c: "clear_of_bursts (usb3_device_config_descrs (usb_descriptors (dev3 w))) 4 w" using o by (simp add: usb3_offers_apart_def)
  have "has_descr3 k v head (D v) w'" if h: "has_descr3 k v head (D v) w" and a: "clear_of_bursts head (length (D v)) w" for v head
  proof -
    have "mem_bytes (usb_memory w') head (length (D v)) = mem_bytes (usb_memory w) head (length (D v))"
      using m h a unfolding keeps_apart_def lies_apart_def has_descr3_def Let_def by blast
    moreover have "mem_bytes (usb_memory w') (usb3_device_config_descrs (usb_descriptors (dev3 w))) 4 =
        mem_bytes (usb_memory w) (usb3_device_config_descrs (usb_descriptors (dev3 w))) 4"
      if "apart (usb3_device_config_descrs (usb_descriptors (dev3 w))) 4 (rx0_buffer3 w) 512"
      using m c that unfolding keeps_apart_def lies_apart_def by blast
    moreover have "mem_bytes (usb_memory w') (usb_string_descrs (usb_descriptors (dev3 w)) + 4 * ucast (bb1 v)) 4 =
        mem_bytes (usb_memory w) (usb_string_descrs (usb_descriptors (dev3 w)) + 4 * ucast (bb1 v)) 4"
      if "bb0 v = USB_DESCR_TYP_STRING k" "D v \<noteq> []"
        "apart (usb_string_descrs (usb_descriptors (dev3 w)) + 4 * ucast (bb1 v)) 4 (rx0_buffer3 w) 512"
      using m o that unfolding keeps_apart_def lies_apart_def usb3_offers_apart_def by blast
    ultimately show ?thesis
      using h unfolding has_descr3_def Let_def load_u32_bytes ss_same_settings(2,4) [OF s] by (auto split: if_splits)
  qed
  then show ?thesis using o unfolding usb3_offers_apart_def same_events [OF s] ss_same_settings(2) [OF s] by blast
qed

section \<open>The specification\<close>

datatype ss_event = Control_event enum_request | Burst_event nat "u8 list list" u32 | Give_event nat u32 u16 | Take_event nat nat u32

datatype ss_answer = Read_answer "(nat \<times> u8 list) list" | Given bool | Took "u8 list list" | Done

text \<open>The backend's answer to an event.\<close>

fun usb3_event :: "usb_consts \<Rightarrow> ('a usb3_world_scheme) usb_env \<Rightarrow> (nat \<Rightarrow> u32) \<Rightarrow> ss_event \<Rightarrow> 'a usb3_world_scheme \<Rightarrow>
    (ss_answer \<times> 'a usb3_world_scheme) option" where
  "usb3_event k e hw (Control_event r) w = map_option (apfst Read_answer) (usb3_request k e hw r w)"
| "usb3_event k e hw (Burst_event n ps c) w = map_option (Pair Done) (usb3_out_burst k e n ps c w)"
| "usb3_event k e hw (Give_event n a l) w = map_option (apfst Given) (usb3_give k n a l w)"
| "usb3_event k e hw (Take_event n j c) w = map_option (apfst Took) (usb3_take k e n j c w)"

text \<open>What the host and the firmware see of a session: the abstract device, the packets each IN endpoint has yet to send, and the
  firmware's own state.\<close>

record 'a ss_session =
  ss_device :: usb_abstract
  ss_queue :: "nat \<Rightarrow> u8 list list"
  ss_firmware :: 'a

text \<open>The events allowed in a session that began in \<open>w\<close>, and what they do. A configuration drops what was not sent.\<close>

fun ss_step :: "usb_consts \<Rightarrow> (u16 \<Rightarrow> u8 list) \<Rightarrow> (u32 \<Rightarrow> u8 list \<Rightarrow> 'a \<Rightarrow> 'a) \<Rightarrow> (u32 \<Rightarrow> 'a \<Rightarrow> 'a) \<Rightarrow> 'a usb3_world_scheme \<Rightarrow> ss_event \<Rightarrow>
    'a ss_session \<Rightarrow> (ss_answer \<times> 'a ss_session) option" where
  "ss_step k D f g w (Control_event r) s =
     (if request_ok3 k D r
      then Some (Read_answer (fst (abs_request usb3_send D r (ss_device s))),
        s\<lparr>ss_device := snd (abs_request usb3_send D r (ss_device s)),
          ss_queue := (case r of Set_configuration c \<Rightarrow> (\<lambda>_. []) | _ \<Rightarrow> ss_queue s)\<rparr>)
      else None)"
| "ss_step k D f g w (Burst_event n ps c) s =
     (if burst_ok n ps c w
      then Some (Done, s\<lparr>ss_firmware := ss_deliver f (rx_callback (endpoints (dev3 w))) (n, concat ps) (ss_firmware s)\<rparr>)
      else None)"
| "ss_step k D f g w (Give_event n a l) s =
     (if give_ok n a l w \<and> ss_queue s n = []
      then Some (Given True, s\<lparr>ss_queue := (ss_queue s)(n :=
        bulk_packets (unat (ep_max_packet_size (ep_tx (endpoints (dev3 w)) n))) (mem_bytes (usb_memory w) a (unat l)))\<rparr>)
      else None)"
| "ss_step k D f g w (Take_event n j c) s =
     (let q = ss_queue s n in
      if n \<in> {1..7} \<and> 0 < j \<and> ss_nump c + j = length q
      then Some (Took (take j q), s\<lparr>ss_queue := (ss_queue s)(n := drop j q),
        ss_firmware := if ss_nump c = 0 then ss_sent g (tx_complete (endpoints (dev3 w))) n (ss_firmware s) else ss_firmware s\<rparr>)
      else None)"

section \<open>The simulation\<close>

text \<open>The OUT endpoints of the mask are armed, the IN endpoints of the mask are on.\<close>

definition ss_standing :: "'a usb3_world_scheme \<Rightarrow> bool" where
  "ss_standing w \<longleftrightarrow> (\<forall>n\<in>{1..7}.
     (if endpoint_mask (dev3 w) AND ENDPOINT_RX n \<noteq> 0 then bit (UEP_CFG w) n \<and> ss_receiving n w
      else \<not> bit (UEP_CFG w) n \<and> SS_RX_CONTRL w n = 0) \<and>
     (bit (UEP_CFG w) (8 + n) \<longleftrightarrow> endpoint_mask (dev3 w) AND ENDPOINT_TX n \<noteq> 0))"

text \<open>Endpoint \<open>n\<close> has the packets \<open>q\<close> to send.\<close>

definition ss_sends :: "nat \<Rightarrow> u8 list list \<Rightarrow> 'a usb3_world_scheme \<Rightarrow> bool" where
  "ss_sends n q w \<longleftrightarrow>
     (let mps = ep_max_packet_size (ep_tx (endpoints (dev3 w)) n) in
      if q = [] then SS_TX_CONTRL w n AND NOT 0x03e00000 = 0
      else \<exists>a r. ss_sending n (unat mps) a r w \<and> ss_ready n mps (burst_count (unat mps) r) w \<and> lies_apart a r w \<and>
        q = bulk_packets (unat mps) (mem_bytes (usb_memory w) a r))"

definition ss_serves :: "usb_consts \<Rightarrow> (nat \<Rightarrow> u32) \<Rightarrow> (u16 \<Rightarrow> u8 list) \<Rightarrow> 'a usb3_world_scheme \<Rightarrow> 'a ss_session \<Rightarrow> 'a usb3_world_scheme \<Rightarrow> bool" where
  "ss_serves k hw D w0 s w \<longleftrightarrow> usb_requests_ok k \<and> (\<forall>i. hw i AND 0xe81efc00 = 0) \<and> ss_same w0 w \<and> keeps_apart w0 w \<and>
     ep0_serving3 w \<and> ep0_in_count w = 0 \<and> ss_bursts_ok w \<and> usb3_offers_apart k D w \<and> dev_speed (dev3 w) = USB30_SUPERSPEED \<and>
     crit_ok (usb_crit w) \<and> ss_standing w \<and> (\<forall>n\<in>{1..7}. ss_sends n (ss_queue s n) w) \<and>
     usb3_abs w = ss_device s \<and> usb3_world.more w = ss_firmware s"

lemma serves_next:
  assumes s: "ss_serves k hw D w0 s w" and w': "ss_same w w'" "keeps_apart w w'"
    and "SS_UEP0_DMA w' = SS_UEP0_DMA w" and "ep0_in_count w' = 0" and t: "\<forall>n\<in>{1..7}. ep_rx_total_length w' n = 0"
    and "dev_speed (dev3 w') = USB30_SUPERSPEED" and "usb_crit w' = usb_crit w" and "ss_standing w'"
    and "\<forall>n\<in>{1..7}. ss_sends n (ss_queue s' n) w'" and "usb3_abs w' = ss_device s'" and "usb3_world.more w' = ss_firmware s'"
  shows "ss_serves k hw D w0 s' w'"
proof -
  from s have w: "ss_same w0 w" "keeps_apart w0 w" "ep0_serving3 w" "ss_bursts_ok w" "usb3_offers_apart k D w"
    by (simp_all add: ss_serves_def)
  have "ss_same w0 w'" by (rule ss_same_trans [OF w(1) w'(1)])
  moreover have "keeps_apart w0 w'" using w(2) w'(2) same_events(5) [OF w(1)] by (simp add: keeps_apart_def)
  moreover have "ep0_serving3 w'" using w(3) assms(4) unfolding ep0_serving3_def ss_same_settings(4) [OF w'(1)] by simp
  moreover have "ss_bursts_ok w'" using w(4) t unfolding ss_bursts_ok_def ss_same_settings(3) [OF w'(1)] by simp
  moreover have "usb3_offers_apart k D w'" by (rule offers_apart_kept [OF w(5) w'])
  ultimately show ?thesis using assms unfolding ss_serves_def by simp
qed

lemma sendsI:
  assumes "ss_sending n (unat mps) a r w" and "ss_ready n mps (burst_count (unat mps) r) w" and "lies_apart a r w"
  shows "ss_sends n (bulk_packets (unat mps) (mem_bytes (usb_memory w) a r)) w"
proof -
  have "ep_max_packet_size (ep_tx (endpoints (dev3 w)) n) = mps" "bulk_packets (unat mps) (mem_bytes (usb_memory w) a r) \<noteq> []"
    using assms(2) by (simp_all add: ss_ready_def bulk_packets_ne)
  then show ?thesis using assms by (auto simp: ss_sends_def)
qed

text \<open>An endpoint no event touches goes on sending.\<close>

lemma sends_kept:
  assumes q: "ss_sends n q w" and s: "ss_same w w'" and m: "keeps_apart w w'"
    and r: "SS_TX_CONTRL w' n = SS_TX_CONTRL w n" "SS_TX_DMA w' n = SS_TX_DMA w n"
      "ep_tx_remaining_length w' n = ep_tx_remaining_length w n" "ep_tx_total_bursts w' n = ep_tx_total_bursts w n"
  shows "ss_sends n q w'"
proof (cases "q = []")
  case False
  let ?mps = "ep_max_packet_size (ep_tx (endpoints (dev3 w)) n)"
  from q False obtain a l where a: "ss_sending n (unat ?mps) a l w" "ss_ready n ?mps (burst_count (unat ?mps) l) w" "lies_apart a l w"
    "q = bulk_packets (unat ?mps) (mem_bytes (usb_memory w) a l)" by (auto simp: ss_sends_def Let_def)
  have "mem_bytes (usb_memory w') a l = mem_bytes (usb_memory w) a l" using m a(3) by (simp add: keeps_apart_def)
  moreover have "ss_sends n (bulk_packets (unat ?mps) (mem_bytes (usb_memory w') a l)) w'"
    using a(1-3) by (intro sendsI) (simp_all add: ss_sending_def ss_ready_def r same_events(5) [OF s] ss_same_settings(6,7) [OF s])
  ultimately show ?thesis unfolding a(4) by simp
qed (use q r in \<open>simp add: ss_sends_def\<close>)

lemma keeps_keeps_apart: "ss_keeps w w' \<Longrightarrow> keeps_apart w w'"
  using same_outside_bytes unfolding keeps_apart_def lies_apart_def ss_keeps_def by blast

lemma memory_keeps_apart: "usb_memory w' = usb_memory w \<Longrightarrow> keeps_apart w w'"
  by (simp add: keeps_apart_def)

lemma burst_keeps_apart:
  "ss_receives n w \<Longrightarrow> same_outside (ep_buffer (ep_rx (endpoints (dev3 w)) n)) (ss_burst_size n w) (usb_memory w) (usb_memory w') \<Longrightarrow>
    keeps_apart w w'"
  using same_outside_bytes unfolding keeps_apart_def lies_apart_def clear_of_bursts_def ss_receives_def by blast

lemma armed_standing: "ss_armed w \<Longrightarrow> ss_standing w \<and> (\<forall>n\<in>{1..7}. SS_TX_CONTRL w n = 0)"
  unfolding ss_armed_def ss_standing_def ss_endpoint_armed_def by (auto split: if_splits)

lemma standing_kept:
  assumes a: "ss_standing w" and s: "ss_same w w'"
    and r: "\<And>n. n \<in> {1..7} \<Longrightarrow> (ss_receives n w \<longrightarrow> ss_receiving n w \<longrightarrow> ss_receiving n w') \<and>
      (\<not> ss_receives n w \<longrightarrow> SS_RX_CONTRL w' n = SS_RX_CONTRL w n) \<and>
      bit (UEP_CFG w') n = bit (UEP_CFG w) n \<and> bit (UEP_CFG w') (8 + n) = bit (UEP_CFG w) (8 + n)"
  shows "ss_standing w'"
  unfolding ss_standing_def ss_same_settings(1) [OF s]
proof
  fix n :: nat assume n: "n \<in> {1..7}"
  from a n r [OF n] show "(if endpoint_mask (dev3 w) AND ENDPOINT_RX n \<noteq> 0 then bit (UEP_CFG w') n \<and> ss_receiving n w'
      else \<not> bit (UEP_CFG w') n \<and> SS_RX_CONTRL w' n = 0) \<and>
     (bit (UEP_CFG w') (8 + n) \<longleftrightarrow> endpoint_mask (dev3 w) AND ENDPOINT_TX n \<noteq> 0)"
    unfolding ss_standing_def ss_receives_def by (auto split: if_splits)
qed

lemma receiving_kept:
  assumes "ss_same w w'" and "SS_RX_CONTRL w' n = SS_RX_CONTRL w n" "SS_RX_DMA w' n = SS_RX_DMA w n"
    "ep_rx_previously_set_max_burst w' n = ep_rx_previously_set_max_burst w n" "ep_rx_total_length w' n = ep_rx_total_length w n"
  shows "ss_receiving n w' = ss_receiving n w"
  unfolding ss_receiving_def Let_def ss_same_settings(3,4) [OF assms(1)] assms(2-) ..

text \<open>Control transfers.\<close>

lemma serves_control:
  assumes s: "ss_serves k hw D w0 s w" and r: "request_ok3 k D r"
  shows "\<exists>ps w'. usb3_request k e hw r w = Some (ps, w') \<and> ps = fst (abs_request usb3_send D r (ss_device s)) \<and>
    ss_serves k hw D w0 (s\<lparr>ss_device := snd (abs_request usb3_send D r (ss_device s)),
      ss_queue := (case r of Set_configuration c \<Rightarrow> (\<lambda>_. []) | _ \<Rightarrow> ss_queue s)\<rparr>) w'"
proof -
  from s have w: "usb_requests_ok k" "\<forall>i. hw i AND 0xe81efc00 = 0" "ep0_serving3 w" "ep0_in_count w = 0" "ss_bursts_ok w"
    "usb3_offers_apart k D w" "ss_standing w" "usb3_abs w = ss_device s" "\<forall>n\<in>{1..7}. ss_sends n (ss_queue s n) w"
    "dev_speed (dev3 w) = USB30_SUPERSPEED" "usb3_world.more w = ss_firmware s" by (simp_all add: ss_serves_def)
  have "usb3_offers k D w" using w(6) unfolding usb3_offers_apart_def usb3_offers_def by blast
  from request3_effect [OF w(1-4) this w(5) r, of e] obtain ps w' where w': "usb3_request k e hw r w = Some (ps, w')"
    "(ps, usb3_abs w') = abs_request usb3_send D r (ss_device s)" "ss_keeps w w'" "ep0_in_count w' = 0"
    "case r of Set_configuration c \<Rightarrow> ss_armed w' | _ \<Rightarrow> ss_views w' = ss_views w" unfolding w(8) by blast
  have ab: "ps = fst (abs_request usb3_send D r (ss_device s))" "usb3_abs w' = snd (abs_request usb3_send D r (ss_device s))"
    using w'(2) by (metis fst_conv, metis snd_conv)
  note sm = keeps_same [OF w'(3)] keeps_keeps_apart [OF w'(3)]
  have k: "SS_UEP0_DMA w' = SS_UEP0_DMA w" "ep_rx_total_length w' = ep_rx_total_length w" "usb_crit w' = usb_crit w"
    "dev_speed (dev3 w') = USB30_SUPERSPEED" "usb3_world.more w' = usb3_world.more w"
    "ep_tx_remaining_length w' = ep_tx_remaining_length w" "ep_tx_total_bursts w' = ep_tx_total_bursts w"
    using w'(3) w(3,10) unfolding ss_keeps_def ep0_serving3_def by blast+
  let ?q = "case r of Set_configuration c \<Rightarrow> (\<lambda>_. []) | _ \<Rightarrow> ss_queue s"
  have "ss_standing w' \<and> (\<forall>n\<in>{1..7}. ss_sends n (?q n) w')"
  proof (cases "ss_views w' = ss_views w")
    case True
    have v: "ss_view n w' = ss_view n w" if "n \<in> {1..7}" for n
      using fun_cong [OF True, of n] that by (simp add: ss_views_def)
    note v = this [unfolded ss_view_def prod.inject]
    have "ss_receiving n w' = ss_receiving n w" if "n \<in> {1..7}" for n by (rule receiving_kept [OF sm(1)]) (use v [OF that] in simp_all)
    then have "ss_standing w'" using v by (intro standing_kept [OF w(7) sm(1)]) simp
    moreover have "ss_sends n (ss_queue s n) w'" if "n \<in> {1..7}" for n
      by (rule sends_kept [OF _ sm]) (use that w(9) v [OF that] k in simp_all)
    moreover have "ss_sends n [] w'" if "r = Set_configuration c" "n \<in> {1..7}" for n c
      using w'(5) that armed_standing [of w'] by (simp add: ss_sends_def)
    ultimately show ?thesis by (cases r) simp_all
  next
    case False
    then obtain c where "r = Set_configuration c" "ss_armed w'" using w'(5) by (cases r) simp_all
    then show ?thesis using armed_standing [of w'] by (simp add: ss_sends_def)
  qed
  then have "ss_serves k hw D w0 (s\<lparr>ss_device := snd (abs_request usb3_send D r (ss_device s)), ss_queue := ?q\<rparr>) w'"
    using w(5,11) w'(4) ab(2) k by (intro serves_next [OF s sm]) (simp_all add: ss_bursts_ok_def)
  then show ?thesis using w'(1) ab(1) by blast
qed

text \<open>A burst from the host.\<close>

lemma serves_burst:
  assumes s: "ss_serves k hw D w0 s w" and b: "burst_ok n ps c w0" and f: "rx_consumes f e"
  shows "\<exists>w'. usb3_out_burst k e n ps c w = Some w' \<and>
    ss_serves k hw D w0 (s\<lparr>ss_firmware := ss_deliver f (rx_callback (endpoints (dev3 w0))) (n, concat ps) (ss_firmware s)\<rparr>) w'"
proof -
  from s have w: "ss_same w0 w" "ep0_in_count w = 0" "ss_bursts_ok w" "usb3_offers_apart k D w" "ss_standing w" "usb3_abs w = ss_device s"
    "\<forall>n\<in>{1..7}. ss_sends n (ss_queue s n) w" "dev_speed (dev3 w) = USB30_SUPERSPEED" "usb3_world.more w = ss_firmware s"
    by (simp_all add: ss_serves_def)
  have b: "burst_ok n ps c w" using b unfolding same_events(4) [OF w(1)] .
  then have n: "ss_receives n w" "n \<in> {1..7}" by (simp_all add: burst_ok_def ss_receives_def)
  have "ss_receiving n w" using w(5) n by (auto simp: ss_standing_def ss_receives_def)
  moreover have "ss_burst_size n w < 65536" using w(4) n by (simp add: usb3_offers_apart_def)
  moreover have "ep_max_burst (ep_rx (endpoints (dev3 w)) n) \<le> 31" using w(3) n by (simp add: ss_bursts_ok_def)
  ultimately obtain w' where w': "usb3_out_burst k e n ps c w = Some w'" "burst_keeps n w w'" "ss_receiving n w'"
    "same_outside (ep_buffer (ep_rx (endpoints (dev3 w)) n)) (ss_burst_size n w) (usb_memory w) (usb_memory w')"
    "usb3_world.more w' = ss_deliver f (rx_callback (endpoints (dev3 w))) (n, concat ps) (usb3_world.more w)"
    using burst_event [OF _ b f, of k] by blast
  have k: "usb_devices w' = usb_devices w" "usb3_backend_current_device w' = usb3_backend_current_device w" "ep0_in_count w' = ep0_in_count w"
    "USB_CONTROL w' = USB_CONTROL w" "SS_UEP0_DMA w' = SS_UEP0_DMA w" "SS_TX_CONTRL w' = SS_TX_CONTRL w" "SS_TX_DMA w' = SS_TX_DMA w"
    "UEP_CFG w' = UEP_CFG w" "usb_crit w' = usb_crit w" "ep_tx_remaining_length w' = ep_tx_remaining_length w"
    "ep_tx_total_bursts w' = ep_tx_total_bursts w"
    using w'(2) by (simp_all add: burst_keeps_def)
  have o: "SS_RX_CONTRL w' m = SS_RX_CONTRL w m" "SS_RX_DMA w' m = SS_RX_DMA w m"
    "ep_rx_previously_set_max_burst w' m = ep_rx_previously_set_max_burst w m" "ep_rx_total_length w' m = ep_rx_total_length w m" if "m \<noteq> n" for m
    using w'(2) that by (simp_all add: burst_keeps_def)
  note sm = devices_same [OF k(1,2)] burst_keeps_apart [OF n(1) w'(4)]
  have "ss_standing w'"
  proof (rule standing_kept [OF w(5) sm(1)])
    fix m :: nat assume "m \<in> {1..7}"
    show "(ss_receives m w \<longrightarrow> ss_receiving m w \<longrightarrow> ss_receiving m w') \<and> (\<not> ss_receives m w \<longrightarrow> SS_RX_CONTRL w' m = SS_RX_CONTRL w m) \<and>
      bit (UEP_CFG w') m = bit (UEP_CFG w) m \<and> bit (UEP_CFG w') (8 + m) = bit (UEP_CFG w) (8 + m)"
      using n w'(3) receiving_kept [OF sm(1) o] o by (cases "m = n") (simp_all add: k)
  qed
  moreover have "ep_rx_total_length w' m = 0" if "m \<in> {1..7}" for m
    using that w(3) o w'(3) by (cases "m = n") (simp_all add: ss_bursts_ok_def ss_receiving_def Let_def)
  moreover have "ss_sends m (ss_queue s m) w'" if "m \<in> {1..7}" for m
    by (rule sends_kept [OF _ sm]) (use that w(7) k in simp_all)
  moreover have "usb3_abs w' = usb3_abs w" unfolding usb3_abs_def k ..
  ultimately show ?thesis
    using w w' k by (intro exI [of _ w'] conjI serves_next [OF s sm]) (simp_all add: ss_same_settings(9) [OF w(1)])
qed

text \<open>Transfers to the host keep the other endpoints, the memory and the registers of control transfers.\<close>

lemma in_kept:
  assumes k: "ss_tx_keeps n w v" and s: "ss_same w v"
  shows "keeps_apart w v" "ss_standing w \<Longrightarrow> ss_standing v" "m \<noteq> n \<Longrightarrow> ss_sends m q w \<Longrightarrow> ss_sends m q v"
    "SS_UEP0_DMA v = SS_UEP0_DMA w" "ep0_in_count v = ep0_in_count w" "ep_rx_total_length v = ep_rx_total_length w"
proof -
  show m: "keeps_apart w v" using k by (intro memory_keeps_apart) (simp add: ss_tx_keeps_def)
  show "SS_UEP0_DMA v = SS_UEP0_DMA w" "ep0_in_count v = ep0_in_count w" "ep_rx_total_length v = ep_rx_total_length w"
    using k by (simp_all add: ss_tx_keeps_def)
  have "ss_receiving i v = ss_receiving i w" for i using k by (intro receiving_kept [OF s]) (simp_all add: ss_tx_keeps_def)
  then show "ss_standing w \<Longrightarrow> ss_standing v" using k by (intro standing_kept [OF _ s]) (simp_all add: ss_tx_keeps_def)
  show "m \<noteq> n \<Longrightarrow> ss_sends m q w \<Longrightarrow> ss_sends m q v" using k by (intro sends_kept [OF _ s m]) (simp_all add: ss_tx_keeps_def)
qed

lemma serves_give:
  assumes s: "ss_serves k hw D w0 s w" and b: "give_ok n a l w0" and q: "ss_queue s n = []"
  shows "\<exists>w'. usb3_give k n a l w = Some (True, w') \<and> ss_serves k hw D w0 (s\<lparr>ss_queue := (ss_queue s)(n :=
    bulk_packets (unat (ep_max_packet_size (ep_tx (endpoints (dev3 w0)) n))) (mem_bytes (usb_memory w0) a (unat l)))\<rparr>) w'"
proof -
  from s have w: "ss_same w0 w" "keeps_apart w0 w" "ss_bursts_ok w" "ss_standing w" "dev_speed (dev3 w) = USB30_SUPERSPEED"
    "crit_ok (usb_crit w)" "\<forall>n\<in>{1..7}. ss_sends n (ss_queue s n) w" "usb3_abs w = ss_device s" "usb3_world.more w = ss_firmware s"
    "ep0_in_count w = 0" by (simp_all add: ss_serves_def)
  let ?ep = "ep_tx (endpoints (dev3 w)) n"
  let ?mps = "ep_max_packet_size ?ep"
  let ?p = "burst_count (unat ?mps) (unat l)"
  have g: "n \<in> {1..7}" "a \<noteq> 0" "lies_apart a (unat l) w" "?mps \<noteq> 0" "?mps \<le> 1024" "l \<le> ep_max_packet_size_with_burst ?ep"
    "?p \<le> unat (ep_max_burst ?ep)" "?p \<le> 31"
    using b [folded same_events(6) [OF w(1)]] by (simp_all add: give_ok_def Let_def)
  have "SS_TX_CONTRL w n AND NOT 0x03e00000 = 0" using bspec [OF w(7) g(1)] q by (simp add: ss_sends_def)
  then have "usb3_able ?mps ?p n l w" using g by (simp add: usb3_able_def ss_ready_def)
  from give_event [OF g(1) this w(5,6) g(2,6), of k] obtain w' where w': "usb3_give k n a l w = Some (True, w')"
    "ss_sending n (unat ?mps) a (unat l) w'" "ss_tx_keeps n w w'" "usb_crit w' = usb_crit w" "usb3_world.more w' = usb3_world.more w"
    "usb_devices w' = (usb_devices w)(usb3_backend_current_device w := upd_ep_tx n (\<lambda>p. p\<lparr>ep_buffer := a\<rparr>) (dev3 w))" by blast
  have c: "usb3_backend_current_device w' = usb3_backend_current_device w" "USB_CONTROL w' = USB_CONTROL w"
    "usb_memory w' = usb_memory w" using w'(3) by (simp_all add: ss_tx_keeps_def)
  have d: "dev3 w' = upd_ep_tx n (\<lambda>p. p\<lparr>ep_buffer := a\<rparr>) (dev3 w)" unfolding w'(6) c by simp
  have sm: "ss_same w w'" unfolding ss_same_def w'(6) c(1) by simp
  note ik = in_kept [OF w'(3) sm]
  have mem: "mem_bytes (usb_memory w0) a (unat l) = mem_bytes (usb_memory w') a (unat l)"
    using w(2) g(3) unfolding c(3) same_events(5) [OF w(1)] by (simp add: keeps_apart_def)
  have "ss_ready n ?mps ?p w'" using g unfolding ss_ready_def ss_same_settings(6,7) [OF sm] by simp
  then have "ss_sends n (bulk_packets (unat ?mps) (mem_bytes (usb_memory w') a (unat l))) w'"
    using w'(2) g(3) by (intro sendsI) (simp_all add: same_events(5) [OF sm])
  moreover have "usb3_abs w' = usb3_abs w" unfolding usb3_abs_def w'(6) c by (simp add: upd_ep_tx_def)
  ultimately show ?thesis
    using w w'(1,4,5) ik d by (intro exI [of _ w'] conjI serves_next [OF s sm])
      (simp_all add: ss_bursts_ok_def mem ss_same_settings(7) [OF w(1), symmetric])
qed

lemma serves_take:
  assumes s: "ss_serves k hw D w0 s w" and n: "n \<in> {1..7}" and j: "0 < j" "ss_nump c + j = length (ss_queue s n)" and g: "tx_consumes g e"
  shows "\<exists>w'. usb3_take k e n j c w = Some (take j (ss_queue s n), w') \<and>
    ss_serves k hw D w0 (s\<lparr>ss_queue := (ss_queue s)(n := drop j (ss_queue s n)),
      ss_firmware := if ss_nump c = 0 then ss_sent g (tx_complete (endpoints (dev3 w0))) n (ss_firmware s) else ss_firmware s\<rparr>) w'"
proof -
  from s have w: "ss_same w0 w" "ss_bursts_ok w" "ss_standing w" "dev_speed (dev3 w) = USB30_SUPERSPEED"
    "\<forall>n\<in>{1..7}. ss_sends n (ss_queue s n) w" "usb3_abs w = ss_device s" "usb3_world.more w = ss_firmware s" "ep0_in_count w = 0"
    by (simp_all add: ss_serves_def)
  let ?q = "ss_queue s n" and ?mps = "ep_max_packet_size (ep_tx (endpoints (dev3 w)) n)"
  let ?m = "unat ?mps"
  have "?q \<noteq> []" using j by auto
  with bspec [OF w(5) n] obtain a r where a: "ss_sending n ?m a r w" "ss_ready n ?mps (burst_count ?m r) w" "lies_apart a r w"
    "?q = bulk_packets ?m (mem_bytes (usb_memory w) a r)" by (auto simp: ss_sends_def Let_def)
  have m: "0 < ?m" using a(2) by (simp add: ss_ready_def unat_gt_0)
  have q: "?q = burst_packets (usb_memory w) a ?m r" unfolding a(4) by (rule burst_packets_bulk [OF m, symmetric])
  have len: "length ?q = burst_count ?m r" unfolding q by simp
  have "\<exists>w'. usb3_take k e n j c w = Some (take j ?q, w') \<and> ss_sends n (drop j ?q) w' \<and> ss_tx_keeps n w w' \<and>
      usb_devices w' = usb_devices w \<and> usb_crit w' = usb_crit w \<and>
      usb3_world.more w' = (if ss_nump c = 0 then ss_sent g (tx_complete (endpoints (dev3 w))) n (usb3_world.more w) else usb3_world.more w)"
  proof (cases "ss_nump c = 0")
    case True
    then have "j = burst_count ?m r" "drop j ?q = []" "take j ?q = ?q" using j len by simp_all
    with take_event_last [OF n a(1,2) True g, of k] True show ?thesis unfolding q [symmetric] by (auto simp: ss_sends_def)
  next
    case False
    then have c: "j < burst_count ?m r" "ss_nump c = burst_count ?m r - j" using j len by simp_all
    from take_event_more [OF n a(1,2) order_refl j(1) c, of k e] obtain w' where w': "usb3_take k e n j c w = Some (take j ?q, w')"
      "ss_sending n ?m (a + of_nat (j * ?m)) (r - j * ?m) w'" "ss_tx_keeps n w w'" "usb_devices w' = usb_devices w" "usb_crit w' = usb_crit w"
      "usb3_world.more w' = usb3_world.more w" unfolding q [symmetric] by blast
    have d: "usb3_backend_current_device w' = usb3_backend_current_device w" "usb_memory w' = usb_memory w"
      using w'(3) by (simp_all add: ss_tx_keeps_def)
    note sm = devices_same [OF w'(4) d(1)]
    have le: "j * ?m \<le> r" using burst_count_less [OF m c(1) j(1)] by simp
    have "lies_apart (a + of_nat (j * ?m)) (r - j * ?m) w"
      using a(3) apart_drop [OF _ le] unfolding lies_apart_def clear_of_bursts_def by blast
    moreover have dr: "burst_count ?m (r - j * ?m) = burst_count ?m r - j" by (rule burst_count_drop [OF m c(1)])
    have "ss_ready n ?mps (burst_count ?m (r - j * ?m)) w'" using a(2) unfolding dr ss_ready_def w'(4) d by (auto intro: le_trans [OF diff_le_self])
    moreover have "drop j ?q = bulk_packets ?m (mem_bytes (usb_memory w') (a + of_nat (j * ?m)) (r - j * ?m))"
      unfolding burst_packets_bulk [OF m, symmetric] q d burst_packets_drop [OF m c(1)] ..
    ultimately have "ss_sends n (drop j ?q) w'" using w'(2) by (simp add: sendsI same_events(5) [OF sm])
    then show ?thesis using w' False by auto
  qed
  then obtain w' where w': "usb3_take k e n j c w = Some (take j ?q, w')" "ss_sends n (drop j ?q) w'" "ss_tx_keeps n w w'"
    "usb_devices w' = usb_devices w" "usb_crit w' = usb_crit w"
    "usb3_world.more w' = (if ss_nump c = 0 then ss_sent g (tx_complete (endpoints (dev3 w))) n (usb3_world.more w) else usb3_world.more w)" by blast
  have d: "usb3_backend_current_device w' = usb3_backend_current_device w" "USB_CONTROL w' = USB_CONTROL w"
    using w'(3) by (simp_all add: ss_tx_keeps_def)
  note sm = devices_same [OF w'(4) d(1)]
  note ik = in_kept [OF w'(3) sm]
  have "usb3_abs w' = usb3_abs w" unfolding usb3_abs_def w'(4) d ..
  then show ?thesis
    using w w' ik d by (intro exI [of _ w'] conjI serves_next [OF s sm]) (simp_all add: ss_bursts_ok_def ss_same_settings(10) [OF w(1)])
qed

interpretation usb3_sim: forward_simulation "usb3_event k e hw" "ss_step k D f g w0"
    "\<lambda>s w. ss_serves k hw D w0 s w \<and> rx_consumes f e \<and> tx_consumes g e"
  for k e hw D f g w0
proof
  fix s s' :: "'a ss_session" and w ev out
  assume a: "ss_serves k hw D w0 s w \<and> rx_consumes f e \<and> tx_consumes g e" and st: "ss_step k D f g w0 ev s = Some (out, s')"
  show "\<exists>w'. usb3_event k e hw ev w = Some (out, w') \<and> ss_serves k hw D w0 s' w' \<and> rx_consumes f e \<and> tx_consumes g e"
  proof (cases ev)
    case (Control_event r)
    with st serves_control [of k hw D w0 s w r e] a show ?thesis by (auto split: if_splits)
  next
    case (Burst_event n ps c)
    with st serves_burst [of k hw D w0 s w n ps c f e] a show ?thesis by (auto split: if_splits)
  next
    case (Give_event n p l)
    with st serves_give [of k hw D w0 s w n p l] a show ?thesis by (auto split: if_splits)
  next
    case (Take_event n j c)
    with st serves_take [of k hw D w0 s w n j c g e] a show ?thesis by (auto simp: Let_def split: if_split_asm)
  qed
qed

section \<open>From the start of the controller\<close>

lemma connect_serves:
  assumes "usb_requests_ok k" and "link_env e" and "\<forall>i. hw i AND 0xe81efc00 = 0"
    and "LINK_STATUS w AND 4 = 0" and "LINK_STATUS w AND LINK_PRESENT \<noteq> 0"
    and "rx0_buffer3 w \<noteq> 0" and "ep0_in_count w = 0" and "ss_bursts_ok w" and o: "usb3_offers_apart k D w" and c: "crit_ok (usb_crit w)"
  shows "\<exists>w1. usb3_connect k e fb w = Some w1 \<and> ss_serves k hw D w
    \<lparr>ss_device = \<lparr>abs_address = 0, abs_state = DEFAULT, abs_config = current_config (dev3 w)\<rparr>, ss_queue = \<lambda>_. [],
      ss_firmware = usb3_world.more w\<rparr> w1"
proof -
  have "usb3_offers k D w" using o unfolding usb3_offers_apart_def usb3_offers_def by blast
  from connect_enumerating [OF assms(1-8) this, of fb] obtain w1 where w1: "usb3_connect k e fb w = Some w1"
    "usb3_enumerating k hw D w w1" "usb3_abs w1 = \<lparr>abs_address = 0, abs_state = DEFAULT, abs_config = current_config (dev3 w)\<rparr>"
    "dev_speed (dev3 w1) = USB30_SUPERSPEED" by blast
  have k: "ss_keeps w w1" and a: "ss_armed w1" using w1(2) by (simp_all add: usb3_enumerating_def)
  note sm = keeps_same [OF k] keeps_keeps_apart [OF k]
  have "usb_crit w1 = usb_crit w" "usb3_world.more w1 = usb3_world.more w" using k unfolding ss_keeps_def by blast+
  then show ?thesis
    using w1 armed_standing [OF a] offers_apart_kept [OF o sm] sm c
    by (intro exI [of _ w1]) (simp add: ss_serves_def usb3_enumerating_def ss_sends_def)
qed

text \<open>
  C3. A session over USB 3.0: after \<open>usb30_device_init\<close> and the link's training, whatever control transfers, OUT bursts, buffers given
  to IN endpoints and portions of their packets the specification \<open>ss_step\<close> allows, interleaved in any order, the backend takes
  with the same answers: control transfers are answered as \<open>abs_request\<close> answers them, also between the
  portions of an IN transfer; the host gets the packets of every buffer exactly, in order, and \<open>tx_complete\<close> is called after the
  last; each receive handler is called for the bursts of its endpoint, in order and with exactly their bytes; and the OUT
  endpoints stay armed. The descriptors and the buffers given are outside the receive buffers, and the handlers keep to the
  firmware's own state.
\<close>

theorem usb3_session_refines:
  assumes "usb_requests_ok k" and "link_env e" and "\<forall>i. hw i AND 0xe81efc00 = 0"
    and "LINK_STATUS w AND 4 = 0" and "LINK_STATUS w AND LINK_PRESENT \<noteq> 0"
    and "rx0_buffer3 w \<noteq> 0" and "ep0_in_count w = 0" and "ss_bursts_ok w" and "usb3_offers_apart k D w" and "crit_ok (usb_crit w)"
    and "rx_consumes f e" and "tx_consumes g e"
    and "run_requests (ss_step k D f g w) evs \<lparr>ss_device = \<lparr>abs_address = 0, abs_state = DEFAULT, abs_config = current_config (dev3 w)\<rparr>,
      ss_queue = \<lambda>_. [], ss_firmware = usb3_world.more w\<rparr> = Some (outs, s)"
  shows "\<exists>w1 w2. usb3_connect k e fb w = Some w1 \<and> run_requests (usb3_event k e hw) evs w1 = Some (outs, w2) \<and>
    usb3_abs w2 = ss_device s \<and> usb3_world.more w2 = ss_firmware s \<and> ss_standing w2"
proof -
  from connect_serves [OF assms(1-10), of fb] obtain w1 where w1: "usb3_connect k e fb w = Some w1" "ss_serves k hw D w
    \<lparr>ss_device = \<lparr>abs_address = 0, abs_state = DEFAULT, abs_config = current_config (dev3 w)\<rparr>, ss_queue = \<lambda>_. [],
      ss_firmware = usb3_world.more w\<rparr> w1" by blast
  from usb3_sim.runs [OF conjI [OF w1(2) conjI [OF assms(11,12)]] assms(13)] obtain w2 where
    "run_requests (usb3_event k e hw) evs w1 = Some (outs, w2)" "ss_serves k hw D w s w2" by blast
  then show ?thesis using w1(1) by (auto simp: ss_serves_def)
qed

text \<open>A device whose endpoint 1 receives and sends bursts of up to four packets of four bytes, and whose handlers note what
  they are told.\<close>

definition demo_session :: "((u32 \<times> u8 list) list) usb3_world_scheme" where
  "demo_session = usb3_world.extend (demo_ss\<lparr>usb_devices := (\<lambda>d.
     upd_ep_tx 1 (\<lambda>p. p\<lparr>ep_max_burst := 4, ep_max_packet_size := 4, ep_max_packet_size_with_burst := 16\<rparr>)
       (upd_ep_rx 1 (\<lambda>p. p\<lparr>ep_buffer := 0x20021000, ep_max_packet_size := 4\<rparr>)
         ((usb_devices demo_ss d)\<lparr>endpoints := (endpoints (usb_devices demo_ss d))\<lparr>tx_complete := (\<lambda>_. User_handler 0x200),
            rx_callback := (\<lambda>_. User_handler 0x100)\<rparr>\<rparr>)))\<rparr>) []"

definition demo_noting :: "(((u32 \<times> u8 list) list) usb3_world_scheme) usb_env" where
  "demo_noting = (demo_env 0)\<lparr>env_rx_callback := (\<lambda>h p l w.
     Some (0, usb3_world.more_update (\<lambda>x. x @ [(h, mem_bytes (usb_memory w) p (unat l))]) w)),
     env_tx_complete := (\<lambda>h st w. Some (usb3_world.more_update (\<lambda>x. x @ [(h, [])]) w))\<rparr>"

lemma demo_noting_ok: "link_env demo_noting" "rx_consumes (\<lambda>h bs x. x @ [(h, bs)]) demo_noting" "tx_consumes (\<lambda>h x. x @ [(h, [])]) demo_noting"
  by (simp_all add: link_env_def rx_consumes_def tx_consumes_def demo_noting_def demo_env_def)

lemma demo_session_fields:
  "usb3_backend_current_device demo_session = usb3_backend_current_device demo_ss" "usb_memory demo_session = usb_memory demo_ss"
  "LINK_STATUS demo_session = LINK_STATUS demo_ss" "ep0_in_count demo_session = ep0_in_count demo_ss" "usb3_world.more demo_session = []"
  "ep_rx_total_length demo_session = ep_rx_total_length demo_ss" "usb_crit demo_session = usb_crit demo_ss"
  by (simp_all add: demo_session_def usb3_world.defs)

lemma demo_session_device:
  "endpoint_mask (dev3 demo_session) = 3" "usb_descriptors (dev3 demo_session) = usb_descriptors (dev3 demo_ss)"
  "current_config (dev3 demo_session) = 0" "rx_callback (endpoints (dev3 demo_session)) = (\<lambda>_. User_handler 0x100)"
  "tx_complete (endpoints (dev3 demo_session)) = (\<lambda>_. User_handler 0x200)" "rx0_buffer3 demo_session = rx0_buffer3 demo_ss"
  "ep_rx (endpoints (dev3 demo_session)) n = (if n = 1 then (ep_rx (endpoints (dev3 demo_ss)) 1)\<lparr>ep_buffer := 0x20021000, ep_max_packet_size := 4\<rparr>
     else ep_rx (endpoints (dev3 demo_ss)) n)"
  "ep_max_burst (ep_rx (endpoints (dev3 demo_ss)) 1) = 4" "ep_max_packet_size (ep_tx (endpoints (dev3 demo_session)) 1) = 4"
  "ep_max_burst (ep_tx (endpoints (dev3 demo_session)) 1) = 4" "ep_max_packet_size_with_burst (ep_tx (endpoints (dev3 demo_session)) 1) = 16"
  unfolding demo_session_fields
  by (simp_all add: demo_session_def usb3_world.defs upd_ep_rx_def upd_ep_tx_def demo_ss_def demo_ss_of_def demo_usb3_def usb2_world.defs
      demo_usb2_def usb_device_initial_def)

lemmas demo_session_one = demo_session_device(8-11) [unfolded One_nat_def]

lemma demo_session_receives: "ss_receives n demo_session \<longleftrightarrow> n = 1"
proof -
  have "\<forall>n \<in> {1..7}. (3 :: u32) AND ENDPOINT_RX n \<noteq> 0 \<longleftrightarrow> n = 1"
    by (simp add: atLeastAtMost_insertL [symmetric] ENDPOINT_RX_def)
  then show ?thesis by (auto simp: ss_receives_def demo_session_device)
qed

lemma demo_session_clear: "clear_of_bursts a l demo_session \<longleftrightarrow> apart a l 0x20021000 16" "ss_burst_size 1 demo_session = 16"
  by (auto simp: clear_of_bursts_def demo_session_receives ss_burst_size_def demo_session_device demo_session_one Let_def)

lemma demo_session_offers: "usb3_offers_apart demo_consts demo_descr3 demo_session"
proof -
  have h: "has_descr3 k t head bs demo_session = has_descr3 k t head bs demo_ss" for k t head bs
    unfolding has_descr3_def demo_session_fields(2) demo_session_device(2,6) ..
  note d = demo_ss_descrs [OF demo_descr3_table, folded demo_ss_def]
  have ap: "apart a n (0x20021000 :: u32) 16" if "unat a + n \<le> 0x20021000" for a n
    by (rule apart_below) (use that in simp_all)
  have "\<exists>head. has_descr3 demo_consts v head (demo_descr3 v) demo_ss \<and> apart head (length (demo_descr3 v)) 0x20021000 16"
    if "v \<in> {0x100, 0x200, 0x300, 0xf00}" for v
    using that d ap [of "0x1000" 18] ap [of "0x2000" 514] ap [of "0x4000" 5] ap [of "0x6000" 4] by (auto simp: demo_descr3_simps)
  moreover have sel: "\<forall>v. demo_descr3 v \<noteq> [] \<longrightarrow> v \<in> {0x100, 0x200, 0x300, 0xf00}" using demo_descr3_table by (simp add: demo_table_def)
  moreover have "v = 0x300" if "bb0 v = 3" "demo_descr3 v \<noteq> []" for v using sel that demo_selectors by auto
  moreover have "usb3_device_config_descrs (usb_descriptors (dev3 demo_ss)) = 0x3000"
    "usb_string_descrs (usb_descriptors (dev3 demo_ss)) + 4 * ucast (bb1 0x300) = 0x5000"
    unfolding demo_ss_def demo_ss_fields by (simp_all add: demo_selectors)
  moreover have "apart 0x3000 4 (0x20021000 :: u32) 16" "apart 0x5000 4 (0x20021000 :: u32) 16" by (rule ap, simp)+
  ultimately show ?thesis
    unfolding usb3_offers_apart_def h demo_session_clear demo_session_device(2) demo_types demo_session_receives
    using demo_selected3 [OF sel] by (auto simp: demo_session_clear [unfolded One_nat_def])
qed

lemma demo_session_started:
  "LINK_STATUS demo_session AND 4 = 0" "LINK_STATUS demo_session AND LINK_PRESENT \<noteq> 0" "rx0_buffer3 demo_session \<noteq> 0"
  "ep0_in_count demo_session = 0" "ss_bursts_ok demo_session"
  unfolding demo_session_device(6) by (simp_all add: demo_session_fields(3,4) demo_ss_ok)
    (use demo_ss_ok(5) in \<open>simp add: ss_bursts_ok_def demo_session_fields(6) demo_session_device demo_session_one\<close>)

lemma demo_session_crit: "crit_ok (usb_crit demo_session)"
  unfolding demo_session_fields(7)
  by (simp add: demo_ss_def demo_ss_of_def demo_usb3_def usb2_world.defs demo_usb2_def crit_init_def crit_ok_def)

lemma demo_session_bursts: "burst_ok 1 [[1, 2, 3, 4], [5, 6]] 0x20020002 demo_session" "burst_ok 1 [[7, 8, 9, 10]] 0x30004 demo_session"
  by (simp_all add: burst_ok_def demo_session_receives demo_session_device demo_session_one ss_nump_def bit_iff_odd_drop_bit)

text \<open>The firmware sends the first ten bytes of the device descriptor.\<close>

lemma demo_session_give: "give_ok 1 0x1000 10 demo_session"
proof -
  have "apart 0x1000 10 (0x20021000 :: u32) 16" "apart 0x1000 10 (0x20020000 :: u32) 512"
    by (rule apart_after [where d = "0x20020000"], simp_all, rule apart_after [where d = "0x2001F000"], simp_all)
  moreover have "rx0_buffer3 demo_session = 0x20020000" unfolding demo_session_device(6) demo_ss_def demo_ss_fields ..
  ultimately have "lies_apart 0x1000 10 demo_session" by (simp add: lies_apart_def demo_session_clear)
  moreover have "(3 :: u32) AND ENDPOINT_TX 1 \<noteq> 0" by (simp add: ENDPOINT_TX_def)
  ultimately show ?thesis by (simp add: give_ok_def demo_session_device demo_session_one burst_count_def)
qed

lemma demo_session_bytes: "mem_bytes (usb_memory demo_session) 0x1000 10 = [18, 1, 0, 3, 0, 0, 0, 9, 0xc0, 0x16]"
proof -
  have "mem_bytes (usb_memory demo_ss) 0x1000 18 = demo_descr3 0x100"
    unfolding demo_ss_def by (rule demo_ss_memory [OF demo_descr3_table])
  then have "mem_bytes (usb_memory demo_ss) 0x1000 10 = take 10 (demo_descr3 0x100)"
    using take_mem_bytes [of 10 18 "usb_memory demo_ss" "0x1000"] by simp
  then show ?thesis by (simp add: demo_session_fields(2) demo_descr3_def)
qed

definition demo_events :: "ss_event list" where
  "demo_events = [Control_event (Read_descriptor 0x100 64 1), Give_event 1 0x1000 10, Take_event 1 2 0x10000,
     Burst_event 1 [[1, 2, 3, 4], [5, 6]] 0x20020002, Control_event (Set_address 7), Take_event 1 1 0,
     Control_event (Set_configuration 1), Burst_event 1 [[7, 8, 9, 10]] 0x30004]"

theorem usb3_session_refines_witness:
  "\<exists>w1 w2. usb3_connect demo_consts demo_noting True demo_session = Some w1 \<and>
    run_requests (usb3_event demo_consts demo_noting (\<lambda>_. 0)) demo_events w1 = Some
      ([Read_answer [(0, [18, 1, 0, 3, 0, 0, 0, 9, 0xc0, 0x16, 0xd9, 0x27, 1, 0, 0, 1, 0, 1])], Given True,
        Took [[18, 1, 0, 3], [0, 0, 0, 9]], Done, Read_answer [], Took [[0xc0, 0x16]], Read_answer [], Done], w2) \<and>
    usb3_abs w2 = \<lparr>abs_address = 7, abs_state = CONFIGURED, abs_config = 1\<rparr> \<and>
    usb3_world.more w2 = [(0x100, [1, 2, 3, 4, 5, 6]), (0x200, []), (0x100, [7, 8, 9, 10])]"
proof -
  let ?f = "\<lambda>h bs x. x @ [(h, bs)]" and ?g = "\<lambda>h x. x @ [(h, [])]"
  have p: "bulk_packets 4 [18, 1, 0, 3, 0, 0, 0, 9, 0xc0, 0x16 :: u8] = [[18, 1, 0, 3], [0, 0, 0, 9], [0xc0, 0x16]]"
    by (simp add: bulk_packets_short bulk_packets_more)
  have d: "usb3_send (demo_descr3 0x100) = [(0, [18, 1, 0, 3, 0, 0, 0, 9, 0xc0, 0x16, 0xd9, 0x27, 1, 0, 0, 1, 0, 1])]"
    "take 64 (demo_descr3 0x100) = demo_descr3 0x100"
    by (simp_all add: usb3_send_def demo_descr3_def bulk_packets_short)
  have nu: "ss_nump 0x10000 = 1" "ss_nump 0 = 0" by (simp_all add: ss_nump_def)
  have r: "request_ok3 demo_consts demo_descr3 (Read_descriptor 0x100 64 1)" "request_ok3 demo_consts demo_descr3 (Set_address 7)"
    "request_ok3 demo_consts demo_descr3 (Set_configuration 1)" by (simp_all add: descr_selected_def demo_types demo_selectors demo_descr3_simps)
  obtain s where s: "run_requests (ss_step demo_consts demo_descr3 ?f ?g demo_session) demo_events
      \<lparr>ss_device = \<lparr>abs_address = 0, abs_state = DEFAULT, abs_config = current_config (dev3 demo_session)\<rparr>,
      ss_queue = \<lambda>_. [], ss_firmware = usb3_world.more demo_session\<rparr> = Some
      ([Read_answer [(0, [18, 1, 0, 3, 0, 0, 0, 9, 0xc0, 0x16, 0xd9, 0x27, 1, 0, 0, 1, 0, 1])], Given True,
        Took [[18, 1, 0, 3], [0, 0, 0, 9]], Done, Read_answer [], Took [[0xc0, 0x16]], Read_answer [], Done], s)"
    "ss_device s = \<lparr>abs_address = 7, abs_state = CONFIGURED, abs_config = 1\<rparr>"
    "ss_firmware s = [(0x100, [1, 2, 3, 4, 5, 6]), (0x200, []), (0x100, [7, 8, 9, 10])]"
    unfolding demo_session_device(3) demo_session_fields(5) demo_events_def
    using demo_session_give demo_session_bursts r
    by (simp add: d p nu demo_session_bytes demo_session_device demo_session_one ss_deliver_def ss_sent_def Let_def
        del: request_ok3.simps take_all_iff)
  from usb3_session_refines [OF demo_consts_ok(1) demo_noting_ok(1) _ demo_session_started demo_session_offers demo_session_crit
      demo_noting_ok(2,3) s(1), of "\<lambda>_. 0" True]
  show ?thesis unfolding s(2,3) by auto
qed

section \<open>A hot reset\<close>

text \<open>The code of NRDY is 0, and the registers are only ORed: taking an endpoint back changes nothing.\<close>

lemma hot_reset_endpoints: "hot_reset_tx n w = w" "hot_reset_rx n w = w"
proof -
  have z: "wr_ss_tx m (SS_TX_CONTRL w m) w = w" "wr_ss_rx m (SS_RX_CONTRL w m) w = w" for m
    by (rule usb3_world.equality; simp add: wr_ss_tx_def wr_ss_rx_def)+
  show "hot_reset_tx n w = w" "hot_reset_rx n w = w"
    using z by (simp_all add: hot_reset_tx_def hot_reset_rx_def usb30_in_set_def usb30_out_set_def ss_NRDY_def)
qed

lemma hot_reset_flags:
  "HOT_RESET_FLAG AND HOT_RESET_FLAG \<noteq> 0" "HOT_RESET_FLAG AND LINK_Ux_EXIT_FLAG = 0" "HOT_RESET_FLAG AND LINK_RDY_FLAG = 0"
  "HOT_RESET_FLAG AND LINK_INACT_FLAG = 0" "HOT_RESET_FLAG AND LINK_DISABLE_FLAG = 0" "HOT_RESET_FLAG AND LINK_RX_DET_FLAG = 0"
  "HOT_RESET_FLAG AND TERM_PRESENT_FLAG = 0" "HOT_RESET_FLAG AND LINK_TXEQ_FLAG = 0" "HOT_RESET_FLAG AND WARM_RESET_FLAG = 0"
  by (simp_all add: link_flags)

lemma hot_reset_event:
  assumes "link_env e"
  shows "usb3_link_event k e HOT_RESET_FLAG w = Some ((usb30_device_set_address 0 (wr_ss_tx 0 0
      (w\<lparr>USB_CONTROL := USB_CONTROL w OR push_bit 31 1, LINK_INT_FLAG := 0\<rparr>)))\<lparr>LINK_CTRL := LINK_CTRL w AND NOT TX_HOT_RESET\<rparr>)"
    (is "_ = Some ?w'")
proof -
  let ?w = "w\<lparr>LINK_INT_FLAG := HOT_RESET_FLAG\<rparr>"
  have id: "fold (\<lambda>n v. v) ns v = v" for ns :: "nat list" and v :: "'a usb3_world_scheme" by (induction ns) simp_all
  have "link_int_flag_write e HOT_RESET_FLAG HOT_RESET_FLAG = 0" using assms by (simp add: link_env_def)
  then have t: "link_hot_reset e ?w = Some ?w'"
    unfolding link_hot_reset_def Let_def hot_reset_endpoints id
    by (simp add: write_link_flag_def usb30_device_set_address_def wr_ss_tx_def)
  have z: "LINK_INT_FLAG ?w' = 0" by (simp add: usb30_device_set_address_def wr_ss_tx_def Let_def)
  have "LINK_IRQHandler k e ?w = Some ?w'"
    unfolding LINK_IRQHandler_def using hot_reset_flags z by (simp add: flag_skipped flag_taken t link_go_u_def)
  then show ?thesis by (simp add: usb3_link_event_def)
qed

lemma hot_reset_serves:
  assumes s: "ss_serves k hw D w0 s w" and e: "link_env e"
  shows "\<exists>w1. usb3_link_event k e HOT_RESET_FLAG w = Some w1 \<and>
    ss_serves k hw D w0 (s\<lparr>ss_device := (ss_device s)\<lparr>abs_address := 0\<rparr>\<rparr>) w1"
proof -
  define w1 where "w1 = (usb30_device_set_address 0 (wr_ss_tx 0 0
      (w\<lparr>USB_CONTROL := USB_CONTROL w OR push_bit 31 1, LINK_INT_FLAG := 0\<rparr>)))\<lparr>LINK_CTRL := LINK_CTRL w AND NOT TX_HOT_RESET\<rparr>"
  from s have w: "ss_bursts_ok w" "ss_standing w" "dev_speed (dev3 w) = USB30_SUPERSPEED" "ep0_in_count w = 0"
    "\<forall>n\<in>{1..7}. ss_sends n (ss_queue s n) w" "usb3_abs w = ss_device s" "usb3_world.more w = ss_firmware s" by (simp_all add: ss_serves_def)
  have k: "usb_devices w1 = usb_devices w" "usb3_backend_current_device w1 = usb3_backend_current_device w" "usb_memory w1 = usb_memory w"
    "SS_UEP0_DMA w1 = SS_UEP0_DMA w" "ep0_in_count w1 = ep0_in_count w" "ep_rx_total_length w1 = ep_rx_total_length w"
    "usb_crit w1 = usb_crit w" "usb3_world.more w1 = usb3_world.more w" "SS_RX_CONTRL w1 = SS_RX_CONTRL w" "SS_RX_DMA w1 = SS_RX_DMA w"
    "UEP_CFG w1 = UEP_CFG w" "ep_rx_previously_set_max_burst w1 = ep_rx_previously_set_max_burst w" "SS_TX_DMA w1 = SS_TX_DMA w"
    "ep_tx_remaining_length w1 = ep_tx_remaining_length w" "ep_tx_total_bursts w1 = ep_tx_total_bursts w"
    "\<And>n. n \<noteq> 0 \<Longrightarrow> SS_TX_CONTRL w1 n = SS_TX_CONTRL w n"
    by (simp_all add: w1_def usb30_device_set_address_def wr_ss_tx_def Let_def)
  note sm = devices_same [OF k(1,2)] memory_keeps_apart [OF k(3)]
  have "drop_bit 24 (x AND 0x00ffffff) = (0 :: u32)" for x
    unfolding control_mask by (rule bit_word_eqI) (auto simp: bit_simps)
  then have a: "usb3_abs w1 = (usb3_abs w)\<lparr>abs_address := 0\<rparr>"
    by (simp add: usb3_abs_def w1_def usb30_device_set_address_def wr_ss_tx_def Let_def)
  have "ss_standing w1" using receiving_kept [OF sm(1)] k by (intro standing_kept [OF w(2) sm(1)]) simp
  moreover have "ss_sends n (ss_queue s n) w1" if "n \<in> {1..7}" for n
    by (rule sends_kept [OF _ sm]) (use that w(5) k in simp_all)
  ultimately have "ss_serves k hw D w0 (s\<lparr>ss_device := (ss_device s)\<lparr>abs_address := 0\<rparr>\<rparr>) w1"
    using w k a by (intro serves_next [OF s sm]) (simp_all add: ss_bursts_ok_def)
  then show ?thesis using hot_reset_event [OF e, of k w, folded w1_def] by blast
qed

text \<open>
  C40. A hot reset in a session: the interrupt clears the controller's address, and nothing else the host can see. The
  device keeps its state and its configuration, every OUT endpoint stays armed, although the code means to make them
  not ready, and IN endpoints go on with the packets they had: whatever the host and the firmware do next without configuring the
  device anew is served as before the reset.
\<close>

theorem usb3_hot_reset_stays_configured:
  assumes "ss_serves k hw D w0 s w" and "link_env e" and "rx_consumes f e" and "tx_consumes g e"
    and "run_requests (ss_step k D f g w0) evs (s\<lparr>ss_device := (ss_device s)\<lparr>abs_address := 0\<rparr>\<rparr>) = Some (outs, s')"
  shows "\<exists>w1 w2. usb3_link_event k e HOT_RESET_FLAG w = Some w1 \<and> usb3_abs w1 = (ss_device s)\<lparr>abs_address := 0\<rparr> \<and> ss_standing w1 \<and>
    run_requests (usb3_event k e hw) evs w1 = Some (outs, w2) \<and> usb3_world.more w2 = ss_firmware s'"
proof -
  from hot_reset_serves [OF assms(1,2)] obtain w1 where w1: "usb3_link_event k e HOT_RESET_FLAG w = Some w1"
    "ss_serves k hw D w0 (s\<lparr>ss_device := (ss_device s)\<lparr>abs_address := 0\<rparr>\<rparr>) w1" by blast
  from usb3_sim.runs [OF conjI [OF w1(2) conjI [OF assms(3,4)]] assms(5)] obtain w2 where
    "run_requests (usb3_event k e hw) evs w1 = Some (outs, w2)" "ss_serves k hw D w0 s' w2" by blast
  then show ?thesis using w1 by (auto simp: ss_serves_def)
qed

theorem usb3_hot_reset_stays_configured_witness:
  "\<exists>w1 w2 w3 w4. usb3_connect demo_consts demo_noting True demo_session = Some w1 \<and>
    run_requests (usb3_event demo_consts demo_noting (\<lambda>_. 0)) [Control_event (Set_address 7), Control_event (Set_configuration 1)] w1 =
      Some ([Read_answer [], Read_answer []], w2) \<and>
    usb3_link_event demo_consts demo_noting HOT_RESET_FLAG w2 = Some w3 \<and>
    usb3_abs w3 = \<lparr>abs_address = 0, abs_state = CONFIGURED, abs_config = 1\<rparr> \<and>
    run_requests (usb3_event demo_consts demo_noting (\<lambda>_. 0)) [Burst_event 1 [[1, 2, 3, 4], [5, 6]] 0x20020002] w3 = Some ([Done], w4) \<and>
    usb3_world.more w4 = [(0x100, [1, 2, 3, 4, 5, 6])]"
proof -
  let ?f = "\<lambda>h bs x. x @ [(h, bs)]" and ?g = "\<lambda>h x. x @ [(h, [])]"
  let ?s = "\<lparr>ss_device = \<lparr>abs_address = 7, abs_state = CONFIGURED, abs_config = 1\<rparr>, ss_queue = \<lambda>_. [], ss_firmware = []\<rparr> :: ((u32 \<times> u8 list) list) ss_session"
  obtain w1 where w1: "usb3_connect demo_consts demo_noting True demo_session = Some w1"
    "ss_serves demo_consts (\<lambda>_. 0) demo_descr3 demo_session
      \<lparr>ss_device = \<lparr>abs_address = 0, abs_state = DEFAULT, abs_config = 0\<rparr>, ss_queue = \<lambda>_. [], ss_firmware = []\<rparr> w1"
    using connect_serves [OF demo_consts_ok(1) demo_noting_ok(1) _ demo_session_started demo_session_offers demo_session_crit,
        of "\<lambda>_. 0" True] unfolding demo_session_device(3) demo_session_fields(5) by auto
  have "run_requests (ss_step demo_consts demo_descr3 ?f ?g demo_session) [Control_event (Set_address 7), Control_event (Set_configuration 1)]
      \<lparr>ss_device = \<lparr>abs_address = 0, abs_state = DEFAULT, abs_config = 0\<rparr>, ss_queue = \<lambda>_. [], ss_firmware = []\<rparr> =
    Some ([Read_answer [], Read_answer []], ?s)" by simp
  from usb3_sim.runs [OF conjI [OF w1(2) conjI [OF demo_noting_ok(2,3)]] this] obtain w2 where
    w2: "run_requests (usb3_event demo_consts demo_noting (\<lambda>_. 0)) [Control_event (Set_address 7), Control_event (Set_configuration 1)] w1 =
      Some ([Read_answer [], Read_answer []], w2)" "ss_serves demo_consts (\<lambda>_. 0) demo_descr3 demo_session ?s w2" by blast
  obtain s' where s': "run_requests (ss_step demo_consts demo_descr3 ?f ?g demo_session) [Burst_event 1 [[1, 2, 3, 4], [5, 6]] 0x20020002]
      (?s\<lparr>ss_device := (ss_device ?s)\<lparr>abs_address := 0\<rparr>\<rparr>) = Some ([Done], s')" "ss_firmware s' = [(0x100, [1, 2, 3, 4, 5, 6])]"
    using demo_session_bursts by (simp add: demo_session_device ss_deliver_def)
  from usb3_hot_reset_stays_configured [OF w2(2) demo_noting_ok s'(1)] show ?thesis unfolding s'(2) using w1(1) w2(1) by auto
qed

end
