(* ===== verification/Spec2Isabelle.thy ===== *)
theory Spec2Isabelle
  imports Fifo_Refinement Interrupt_Queue Object_Pool Alloc Ramx_Alloc Hspi Serdes Hspi_Histories
    Usb2_Stream Debug_Board_Run Usb_Backends Usb30_Sessions
begin

text \<open>
  A model of the WCH CH56x library (\<open>src/src/wch-ch56x-lib\<close>) and the theorems that make it correct.

  \<^bold>\<open>The program.\<close> Firmware for the CH569/CH565 RISC-V chip moves packets between USB, the parallel link HSPI
  and the serial link SerDes. Interrupt handlers do the urgent half of the work and put the rest in a queue of
  tasks that the main loop runs. The shared parts are a critical section that nests (\<open>utils\<close>), a ring buffer,
  pools and two block allocators (\<open>memory\<close>), and the task queue (\<open>interrupt_queue\<close>). On them stand the links
  (\<open>hspi\<close>, \<open>serdes\<close>, \<open>hspi_scheduled\<close>), the USB stack (\<open>usb\<close>): device objects and endpoints above a USB 2.0 and a
  USB 3.0 backend, each driven by its interrupt handlers; and the loggers (\<open>logging\<close>). The firmware of the debug
  board (\<open>src/tools/firmware_debug_board\<close>) is a client of all of them: a USB device that hands the packets it receives
  over SerDes to the host.

  \<^bold>\<open>Shared theories.\<close>
  \<^item> \<open>C_Base\<close>: C integers as words and promotions to \<open>int\<close>, \<open>memcpy\<close> between byte lists (\<open>None\<close> is a copy out of
    bounds), byte lists seen as chunks, the collections \<open>chunk_simps\<close> and \<open>word_conv\<close>.
  \<^item> \<open>Bounded_Queue\<close>, \<open>Resource_Pool\<close>: the interfaces as locales. A bounded queue is what the clients of a FIFO rely
    on, a resource pool what the clients of an allocator rely on; \<open>shared_pool\<close> extends it with owners.
    \<open>usb_tx_backend\<close> in \<open>Usb_Device\<close> is what a USB device needs of its backend to start a transfer.
  \<^item> \<open>Block_Runs\<close>: the status bytes and the search loop that both block allocators contain.
  \<^item> \<open>Usb_Packets\<close>: the packets a transfer is split into, the reference for both backends, and regions of memory.
  \<^item> \<open>Usb_Abstract\<close>: the requests of a host that enumerates a device (\<open>enum_request\<close>), and two abstract devices: the one the
    backends implement (\<open>abs_requests\<close>) and the one of the USB specification (\<open>usb_spec\<close>), undefined where the specification
    leaves a request open or wants it refused. They agree except on address 0 and on the return to configuration 0
    (\<open>conforming\<close>). Two interfaces: \<open>forward_simulation\<close>: every event a specification allows is taken with its
    answer; lifted to sequences of events. \<open>enumerable_device\<close>: a backend answers one request as \<open>abs_request\<close> does and is
    ready for the next; it simulates that device on the requests it takes, and \<open>usb_spec\<close> on the conforming ones.

  \<^bold>\<open>Components.\<close> One record holds a component's variables and registers and one definition stands for each
  function; \<open>None\<close> is an access outside of an object, a division by 0, or a call through a null pointer.
  \<^item> \<open>Critical_Section\<close> (\<open>utils/critical_section.h\<close>): the nesting counter and the interrupt switch. Lemmas: balanced
    sections restore the switch at every depth.
  \<^item> \<open>Fifo\<close> and \<open>Fifo_Refinement\<close> (\<open>memory/fifo.h\<close>): the ring buffer on bytes and 16-bit indices, refining a
    list queue; a transfer of 64 KiB, which the code truncates.
  \<^item> \<open>Interrupt_Queue\<close> (\<open>interrupt_queue.h\<close>): the tasks as packed structs inside that FIFO. It provides the
    bounded queue \<open>iq\<close>: nothing is lost, repeated or reordered.
  \<^item> \<open>Object_Pool\<close> (\<open>memory/pool.h\<close>), \<open>Alloc\<close> (\<open>memory/alloc.c\<close>), \<open>Ramx_Alloc\<close> (\<open>memory/ramx_alloc.h\<close>): first fit, no
    double allocation in any history, restoring frees, counted owners. They provide \<open>op\<close>, \<open>al\<close> and \<open>rx\<close>.
  \<^item> \<open>Link_Header\<close>, \<open>Hspi\<close>, \<open>Serdes\<close>: the header word of a packet, and the two links with their double buffers.
  \<^item> \<open>Hspi_Scheduled\<close>: sending and receiving through the task queue, with argument structs from the object pool
    and buffers from RAMX: what \<open>hspi_send\<close> queues is sent, what the interrupt receives reaches the callback.
  \<^item> \<open>Hspi_Histories\<close>: every history of that link (\<open>hspi_step\<close>: sends, interrupts, runs of the queue) with an account of
    all references to RAMX buffers: no buffer in use is free, none is handed out twice, and no step faults.
  \<^item> \<open>Usb_Types\<close>, \<open>Usb_Device\<close>: types, endpoint structs, the two device objects, and \<open>endp_tx_set_new_buffer\<close> and
    \<open>endp_rx_set_state\<close>, which call the backend of a device.
  \<^item> \<open>Usb2_Regs\<close>, \<open>Usb2\<close> (\<open>usb/usb20.c\<close>, \<open>usb/usb2_utils.h\<close>): state, register access and every function. Then, by
    subject, \<open>Usb2_Control\<close>: control transfers on endpoint 0; \<open>Usb2_Endpoints\<close>: which endpoint masks are
    accepted; \<open>Usb2_Bulk\<close> and \<open>Usb2_Receive\<close>: transfers on the other endpoints; \<open>Usb2_Stream\<close>: a stream of packets from
    the host when the bus loses handshakes, as a forward simulation (\<open>usb2_out\<close>) of an alternating-bit receiver (\<open>oc_step\<close>);
    \<open>Usb2_Address\<close>: the address in every history, with \<open>usb2_step\<close> as the step relation. \<open>Usb2_Enumeration\<close>: whole enumerations; scripts of descriptor
    reads, \<open>SET_ADDRESS\<close> and \<open>SET_CONFIGURATION\<close> after a bus reset are answered as \<open>usb_spec\<close> says (\<open>usb2_enum\<close> provides
    \<open>enumerable_device\<close>); strings only when all of their bytes are asked for, as the code ignores \<open>wLength\<close> there.
  \<^item> \<open>Usb30_Regs\<close>, \<open>Usb30\<close> (\<open>usb/usb30.c\<close>, \<open>usb/usb30_utils.h\<close>): the same for USB 3.0. \<open>Usb30_Burst\<close>: bursts to the
    host of which it may take any portion; \<open>Usb30_Receive\<close>: bursts from the host; \<open>Usb30_Control\<close>: control transfers;
    \<open>Usb30_Endpoints\<close>: configuration; \<open>Usb30_Link\<close>: the link interrupt and the fallback to USB 2.0.
    \<open>Usb30_Enumeration\<close>: from \<open>usb30_device_init\<close> through the link's training (\<open>usb3_connect\<close>) to whole enumerations, with
    frames for what each transfer leaves alone (\<open>ss_keeps\<close>, \<open>ss_views\<close>); \<open>usb3_enum\<close> provides \<open>enumerable_device\<close>.
    \<open>Usb30_Transfers\<close>: one OUT burst, one buffer given to an IN endpoint, one portion of packets taken, with what each leaves
    alone. \<open>Usb30_Sessions\<close>: all of these and control transfers interleaved in any order, as a forward simulation
    (\<open>usb3_sim\<close>) of the specification \<open>ss_step\<close> on an abstract state; and a hot reset in a session.
  \<^item> \<open>Usb_Backends\<close>: both backends refine the same abstract device, so a host sees the same device over either; a string
    asked for with fewer bytes than it has is where they part.
  \<^item> \<open>Usb_Descriptors\<close> (\<open>usb/usb_descriptors.h\<close>): the descriptor structs as bytes, and the host's parser of a sequence of
    descriptors, inverse to writing them.
  \<^item> \<open>Debug_Board\<close> (\<open>firmware_debug_board/User\<close>): the descriptors, the settings, \<open>main\<close> and the callback; the descriptors in
    memory are well formed whatever the linker's addresses. \<open>Debug_Board_Run\<close>: from reset through \<open>main\<close>, bus reset and
    enumeration to the state in which it forwards packets (\<open>board_running\<close>); of the packets
    that arrive between two fetches of the host the last is forwarded, unchanged when its size is at most a USB packet or a multiple
    of it.
  \<^item> \<open>Logging\<close> (\<open>logging/\<close>): time stamps, filters, the loggers to the UART, to SerDes and to a ring buffer, and the
    dump of that buffer.
\<close>

text \<open>
  \<^bold>\<open>Parameters.\<close> Code that is not in the repository is an argument of the definitions that use it.
  \<^item> BSP functions and constants (register masks, the interrupt controller, DMA setup) are records of constants and of
    functions on the state (\<open>usb_consts\<close>, \<open>hspi_bsp\<close>, \<open>serdes_bsp\<close>, \<open>log_bsp\<close>). Theorems assume of a constant what the chip's
    header fixes, such as masks being disjoint.
  \<^item> The user's callbacks are the environment \<open>usb_env\<close>, arbitrary functions on the state; theorems about one handler
    say what they assume of it.
  \<^item> The compiler's layout of the descriptor structs of the BSP is \<open>usb_layout\<close>, assumed to be that of packed structs
    (\<open>usb_layout_ok\<close>); the linker's addresses are \<open>board_map\<close>, assumed to keep objects apart (\<open>board_linked\<close>); what the board
    firmware calls for its pins and LEDs is \<open>board_bsp\<close>, on a state of its own.
  \<^item> Formatting is \<open>npf\<close>, assumed to be \<open>snprintf\<close> (\<open>npf_ok\<close>); the ring buffer of the logger is \<open>lwrb_ops\<close>,
    assumed to be a bounded queue of bytes (\<open>lwrb_ok\<close>).
  \<^item> What hardware does during a polling loop is a step function on the state.

  The host's or peer's side of a transfer is modelled in the theory of its property (\<open>ep0_in_packets\<close>,
  \<open>usb2_in_packets\<close>, \<open>run_requests\<close> of \<open>usb2_request\<close> or \<open>usb3_request\<close>, \<open>board_stream\<close>, \<open>usb2_out_event\<close>, \<open>ss_in_take\<close>, \<open>ss_out_send\<close>,
  \<open>ss_ep0_token\<close>, \<open>usb3_link_event\<close>, \<open>usb3_event\<close>) and is what the theorems quantify over.

  \<^bold>\<open>Bounds and loops.\<close> Loops over blocks, endpoints and queue members recurse on a measure of the state. Loops that wait for
  hardware or for a callback (\<open>hspi_wait_done\<close>, \<open>usb30_wait_link\<close>, \<open>usb30_wait_warm_reset\<close>,
  \<open>hydra_interrupt_queue_free_all\<close>, \<open>log_dump_loop\<close>) are partial functions whose value \<open>None\<close> includes not ending; for
  \<open>hydra_interrupt_queue_free_all\<close> and \<open>log_dump_loop\<close> it is proved that they end. \<open>usb30_init_wait\<close> counts the 0x4c4b41
  rounds of the code. No other fuel is used.

  \<^bold>\<open>Interrupts.\<close> A handler and an operation between \<open>BSP_ENTER_CRITICAL\<close> and \<open>BSP_EXIT_CRITICAL\<close> are one step; histories
  interleave such steps arbitrarily. Preemption inside an operation that is not protected is not modelled.

  \<^bold>\<open>Not modelled.\<close>
  \<^item> The firmware and the host programs under \<open>tests\<close>, with their descriptor tables: they only exercise the library.
  \<^item> Builds with \<open>CH56x_DEBUG_LOG_LIBDIVIDE_SYSLCLK\<close>, which divide through a library that is not in the repository,
    and \<open>LOG_TYPE_SERDES\<close> in \<open>logging.c\<close>, which does not compile (\<open>vlog_serdes\<close> itself is modelled).
  \<^item> Log messages of the other components: logging is off by default and does not touch their state.
  \<^item> The debug buffers that two loggers might share: each logger has its own.
  \<^item> The register layouts of \<open>usb30.h\<close> beyond the fields the code reads and writes, and USB electrical behaviour.

  \<^bold>\<open>Plan.\<close> Next: USB 2.0 transfers of several endpoints interleaved with control transfers, as \<open>Usb30_Sessions\<close>
  has them for USB 3.0, and the link interrupt at any time of a USB 3.0 session, as \<open>usb2_step\<close> has every interrupt
  of USB 2.0.
\<close>

end
